(* ===== verification/Go_Prelude.thy ===== *)
theory Go_Prelude
  imports "HOL-Library.Word" "HOL-Library.Finite_Map" "HOL-Library.Multiset"
    "HOL-Library.Char_ord" "HOL-Library.List_Lexorder"
begin

text \<open>
  The Go vocabulary shared by every component of the development: machine integers, byte
  slices and strings, finite maps with Go's zero-value lookup, the faults a Go statement can
  raise, and the generic lemmas on lists, sortedness and maps that the component proofs use.

  \<^item> \<open>byte\<close>, \<open>uint32\<close>, \<open>uint64\<close> are machine words: \<open>+\<close>, \<open>-\<close>, \<open>*\<close> wrap around as in Go.
    A Go \<open>int\<close> that only counts or indexes is a HOL \<open>nat\<close> or \<open>int\<close>.
  \<^item> a Go \<open>map[K]V\<close> is a finite map \<open>('k, 'v) fmap\<close>; reading an absent key gives the zero
    value (\<open>map_get\<close>), \<open>len\<close> is \<open>map_len\<close>, and the idiom of collecting the keys and
    sorting them is \<open>sorted_keys\<close>.
  \<^item> a Go string is a HOL \<open>string\<close> of bytes; \<open>bytes_of_string\<close> is the conversion \<open>[]byte(s)\<close>.
  \<^item> a statement that panics or blocks for ever yields a value of \<open>fault\<close>.
\<close>

section \<open>Machine integers, slices and faults\<close>

type_synonym byte = "8 word"
type_synonym uint32 = "32 word"
type_synonym uint64 = "64 word"
type_synonym bytes = "byte list"

datatype fault =
    IndexOutOfRange        \<comment> \<open>run-time panic: index or slice bound out of range\<close>
  | MakeNegative           \<comment> \<open>run-time panic: \<open>make\<close> with a negative length\<close>
  | DivideByZero           \<comment> \<open>run-time panic: integer division by zero\<close>
  | NilDereference         \<comment> \<open>run-time panic: dereference of a nil pointer\<close>
  | Deadlock               \<comment> \<open>a goroutine locks a mutex it already holds and never returns\<close>
  | ExplicitPanic string   \<comment> \<open>a call of \<open>panic\<close>\<close>

text \<open>Sequencing of computations that may fault: the fault of the first one wins.\<close>

definition andThen :: "'e + 'a \<Rightarrow> ('a \<Rightarrow> 'e + 'b) \<Rightarrow> 'e + 'b" where
  "andThen r f = (case r of Inl e \<Rightarrow> Inl e | Inr a \<Rightarrow> f a)"

definition bytes_of_string :: "string \<Rightarrow> bytes" where
  "bytes_of_string s = map of_char s"

definition string_of_bytes :: "bytes \<Rightarrow> string" where
  "string_of_bytes bs = map (\<lambda>b. char_of (unat b)) bs"

text \<open>Reading \<open>xs[i]\<close>: out of range it panics.\<close>

definition index :: "'a list \<Rightarrow> nat \<Rightarrow> fault + 'a" where
  "index xs i = (if i < length xs then Inr (xs ! i) else Inl IndexOutOfRange)"

section \<open>Decimal printing\<close>

text \<open>
  \<open>strconv.Itoa\<close> and \<open>fmt.Sprintf("%v", n)\<close> on integers: the decimal digits, most
  significant first, with a minus sign in front of a negative number.
\<close>

fun decimal :: "nat \<Rightarrow> string" where
  "decimal n = (if n < 10 then [char_of (48 + n)] else decimal (n div 10) @ [char_of (48 + n mod 10)])"

declare decimal.simps [simp del]

definition itoa :: "int \<Rightarrow> string" where
  "itoa i = (if i < 0 then CHR ''-'' # decimal (nat (- i)) else decimal (nat i))"

section \<open>Maps\<close>

definition map_get :: "'v \<Rightarrow> ('k, 'v) fmap \<Rightarrow> 'k \<Rightarrow> 'v" where
  "map_get z m k = (case fmlookup m k of None \<Rightarrow> z | Some v \<Rightarrow> v)"

definition map_len :: "('k, 'v) fmap \<Rightarrow> nat" where
  "map_len m = fcard (fmdom m)"

definition sorted_keys :: "('k :: linorder, 'v) fmap \<Rightarrow> 'k list" where
  "sorted_keys m = sorted_list_of_fset (fmdom m)"

text \<open>
  A \<open>for k, v := range m\<close> loop visits the entries in an unspecified order: where the order is
  visible in a result, it is a parameter, a list that enumerates the keys once each.
\<close>

definition iteration_order :: "('k, 'v) fmap \<Rightarrow> 'k list \<Rightarrow> bool" where
  "iteration_order m ks \<longleftrightarrow> distinct ks \<and> set ks = fmdom' m"

definition range_values :: "('k, 'v) fmap \<Rightarrow> 'k list \<Rightarrow> 'v list" where
  "range_values m ks = List.map_filter (fmlookup m) ks"

section \<open>Positional number representations\<close>

text \<open>
  Little-endian (\<open>encoding/binary\<close>) and big-endian (\<open>math/big\<close>) readings of byte slices.
  \<open>le_bytes k n\<close> is the \<open>k\<close>-byte little-endian form of \<open>n\<close>; \<open>be_bytes n\<close> is the minimal
  big-endian form that \<open>big.Int.Bytes\<close> returns (no leading zero, empty for zero).
\<close>

fun le_val :: "bytes \<Rightarrow> nat" where
  "le_val [] = 0"
| "le_val (b # bs) = unat b + 256 * le_val bs"

fun le_bytes :: "nat \<Rightarrow> nat \<Rightarrow> bytes" where
  "le_bytes 0 n = []"
| "le_bytes (Suc k) n = of_nat (n mod 256) # le_bytes k (n div 256)"

text \<open>The value of a digit list, most significant digit first, in base \<open>B\<close>.\<close>

fun digits_val :: "nat \<Rightarrow> nat list \<Rightarrow> nat" where
  "digits_val B [] = 0"
| "digits_val B (d # ds) = d * B ^ length ds + digits_val B ds"

definition be_val :: "bytes \<Rightarrow> nat" where
  "be_val bs = digits_val 256 (map unat bs)"

text \<open>The minimal digits of \<open>n\<close> in a base greater than 1, most significant first.\<close>

function digits_of :: "nat \<Rightarrow> nat \<Rightarrow> nat list" where
  "digits_of B n = (if n = 0 \<or> B < 2 then [] else digits_of B (n div B) @ [n mod B])"
  by pat_completeness auto
termination
  by (relation "measure snd") auto

declare digits_of.simps [simp del]

definition be_bytes :: "nat \<Rightarrow> bytes" where
  "be_bytes n = map of_nat (digits_of 256 n)"

named_theorems go_simps \<open>unfolding rules for the Go vocabulary\<close>

declare andThen_def [go_simps] index_def [go_simps] map_get_def [go_simps]

section \<open>Shared lemmas\<close>

subsection \<open>Bytes and digits\<close>

lemma andThen_fault: "andThen (Inl e) f = Inl e" and andThen_ok: "andThen (Inr x) f = f x"
  by (simp_all add: andThen_def)

lemma andThen_Inr_iff: "andThen r f = Inr y \<longleftrightarrow> (\<exists>x. r = Inr x \<and> f x = Inr y)"
  by (cases r) (simp_all add: andThen_def)

lemma unat_byte_less [simp]: "unat (b :: byte) < 256"
  using unsigned_less [of b, where 'a = nat] by simp

lemma of_nat_unat_byte: "n < 256 \<Longrightarrow> unat (of_nat n :: byte) = n"
  by (simp add: unat_of_nat)

lemma length_le_bytes [simp]: "length (le_bytes k n) = k"
  by (induction k arbitrary: n) simp_all

lemma le_val_le_bytes: "le_val (le_bytes k n) = n mod 256 ^ k"
proof (induction k arbitrary: n)
  case 0
  then show ?case by simp
next
  case (Suc k)
  have "le_val (le_bytes (Suc k) n) = n mod 256 + 256 * ((n div 256) mod 256 ^ k)"
    by (simp add: Suc.IH of_nat_unat_byte)
  also have "\<dots> = n mod (256 * 256 ^ k)"
    by (simp add: mod_mult2_eq)
  finally show ?case by simp
qed

lemma le_val_less: "le_val bs < 256 ^ length bs"
proof (induction bs)
  case Nil
  then show ?case by simp
next
  case (Cons b bs)
  have "unat b + 256 * le_val bs < 256 + 256 * le_val bs" by simp
  also have "\<dots> \<le> 256 * 256 ^ length bs" using Cons by simp
  finally show ?case by simp
qed

lemma le_bytes_le_val: "le_bytes (length bs) (le_val bs) = bs"
  by (induction bs) (simp_all add: word_of_nat_eq_iff)

lemma digits_val_append: "digits_val B (xs @ ys) = digits_val B xs * B ^ length ys + digits_val B ys"
  by (induction xs) (simp_all add: algebra_simps power_add)

lemma digits_val_snoc: "digits_val B (xs @ [d]) = B * digits_val B xs + d"
  by (simp add: digits_val_append)

lemma digits_val_digits_of: "1 < B \<Longrightarrow> digits_val B (digits_of B n) = n"
proof (induction B n rule: digits_of.induct)
  case (1 B n)
  show ?case
  proof (cases "n = 0")
    case True
    then show ?thesis by (simp add: digits_of.simps)
  next
    case False
    with 1 have "digits_val B (digits_of B (n div B)) = n div B" by simp
    with False 1(2) show ?thesis
      by (simp add: digits_of.simps [of B n] digits_val_snoc)
  qed
qed

lemma digits_of_less: "1 < B \<Longrightarrow> d \<in> set (digits_of B n) \<Longrightarrow> d < B"
proof (induction B n rule: digits_of.induct)
  case (1 B n)
  then show ?case by (cases "n = 0") (auto simp: digits_of.simps [of B n] digits_of.simps [of B 0])
qed

lemma digits_val_less: "(\<And>d. d \<in> set ds \<Longrightarrow> d < B) \<Longrightarrow> digits_val B ds < B ^ length ds"
proof (induction ds)
  case Nil
  then show ?case by simp
next
  case (Cons d ds)
  then have "digits_val B ds < B ^ length ds" and "Suc d \<le> B"
    by (simp_all add: Suc_le_eq)
  then have "d * B ^ length ds + digits_val B ds < Suc d * B ^ length ds"
    by simp
  also have "\<dots> \<le> B * B ^ length ds"
    using \<open>Suc d \<le> B\<close> by (intro mult_le_mono1)
  finally show ?case by simp
qed

lemma be_val_Nil [simp]: "be_val [] = 0"
  by (simp add: be_val_def)

lemma be_val_Cons: "be_val (b # bs) = unat b * 256 ^ length bs + be_val bs"
  by (simp add: be_val_def)

lemma be_val_append: "be_val (xs @ ys) = be_val xs * 256 ^ length ys + be_val ys"
  by (simp add: be_val_def digits_val_append)

lemma be_val_less: "be_val bs < 256 ^ length bs"
proof -
  have "d < 256" if "d \<in> set (map unat bs)" for d
    using that by auto
  then have "digits_val 256 (map unat bs) < 256 ^ length (map unat bs)"
    by (rule digits_val_less)
  then show ?thesis by (simp add: be_val_def)
qed

lemma be_val_be_bytes: "be_val (be_bytes n) = n"
proof -
  have "map unat (map of_nat (digits_of 256 n) :: bytes) = digits_of 256 n"
    by (simp add: map_idI of_nat_unat_byte digits_of_less)
  then show ?thesis
    by (simp add: be_val_def be_bytes_def digits_val_digits_of)
qed

subsection \<open>Maps\<close>

lemma map_get_fmupd [simp]: "map_get z (fmupd k v m) k' = (if k = k' then v else map_get z m k')"
  by (simp add: map_get_def)

lemma map_get_fmempty [simp]: "map_get z fmempty k = z"
  by (simp add: map_get_def)

lemma map_len_fmempty [simp]: "map_len fmempty = 0"
  by (simp add: map_len_def)

lemma map_len_fmupd: "map_len (fmupd k v m) = (if fmlookup m k = None then Suc (map_len m) else map_len m)"
  by (auto simp: map_len_def fcard_finsert_if fmlookup_dom_iff)

lemma map_len_fmdrop: "fmlookup m k \<noteq> None \<Longrightarrow> Suc (map_len (fmdrop k m)) = map_len m"
  using fcard_Suc_fminus1 [of k "fmdom m"] by (auto simp: map_len_def fmlookup_dom_iff)

lemma map_len_fmdrop_le: "map_len (fmdrop k m) \<le> map_len m"
  by (auto simp: map_len_def intro!: fcard_mono)

lemma map_len_fmfilter_le: "map_len (fmfilter P m) \<le> map_len m"
  by (auto simp: map_len_def intro!: fcard_mono)

lemma set_range_values:
  "iteration_order m ks \<Longrightarrow> set (range_values m ks) = {v. \<exists>k. fmlookup m k = Some v}"
  by (force simp: iteration_order_def range_values_def List.map_filter_def fmlookup_dom'_iff)

lemma iteration_order_sorted_keys: "iteration_order m (sorted_keys m)"
  by (simp add: iteration_order_def sorted_keys_def fmdom'_alt_def sorted_list_of_fset.rep_eq)

lemma set_sorted_keys [simp]: "set (sorted_keys m) = fmdom' m"
  by (simp add: sorted_keys_def fmdom'_alt_def)

lemma sorted_keys_fmempty [simp]: "sorted_keys fmempty = []"
  by (simp add: sorted_keys_def sorted_list_of_fset.rep_eq)

lemma sorted_keys_singleton: "sorted_keys (fmupd k v fmempty) = [k]"
  by (simp add: sorted_keys_def sorted_list_of_fset.rep_eq)

lemma sorted_sorted_keys [simp]: "sorted (sorted_keys m)"
  by (simp add: sorted_keys_def sorted_list_of_fset.rep_eq)

end
