(* ===== verification/Codec.thy ===== *)
theory Codec
  imports Go_Prelude
begin

text \<open>
  The interface of an encoder and its partial decoder, as the serialisation code of the
  repository uses it: hash strings, integers in byte slices, base58 strings. \<open>ok\<close> is the set
  of values the encoder is meant for. A provider proves the round trip; a client gets that
  equal encodings come from equal values. A fixed-width codec can moreover be concatenated
  without separators, which is how the state and key serialisers of the repository lay out
  their fields.
\<close>

locale codec =
  fixes enc :: "'a \<Rightarrow> 'b"
    and dec :: "'b \<Rightarrow> 'a option"
    and ok :: "'a \<Rightarrow> bool"
  assumes dec_enc: "ok x \<Longrightarrow> dec (enc x) = Some x"
begin

lemma enc_inject: "ok x \<Longrightarrow> ok y \<Longrightarrow> enc x = enc y \<longleftrightarrow> x = y"
  by (metis dec_enc option.inject)

lemma enc_inj_on: "inj_on enc {x. ok x}"
  by (auto intro!: inj_onI simp: enc_inject)

lemma dec_map_enc: "list_all ok xs \<Longrightarrow> map (dec \<circ> enc) xs = map Some xs"
  by (induction xs) (simp_all add: dec_enc)

end

locale fixed_codec = codec enc dec ok
  for enc :: "'a \<Rightarrow> 'c list" and dec :: "'c list \<Rightarrow> 'a option" and ok :: "'a \<Rightarrow> bool" +
  fixes width :: nat
  assumes length_enc: "ok x \<Longrightarrow> length (enc x) = width"
begin

text \<open>Two fields written one after the other can be told apart.\<close>

lemma enc_append_inject:
  assumes "ok x" and "ok y"
  shows "enc x @ r = enc y @ s \<longleftrightarrow> x = y \<and> r = s"
  using assms by (auto simp: length_enc enc_inject)

text \<open>So can lists of fields: the concatenated encoding is injective.\<close>

lemma length_concat_enc: "list_all ok xs \<Longrightarrow> length (concat (map enc xs)) = width * length xs"
  by (induction xs) (simp_all add: length_enc)

lemma concat_enc_inject:
  assumes "list_all ok xs" and "list_all ok ys" and "length xs = length ys"
  shows "concat (map enc xs) = concat (map enc ys) \<longleftrightarrow> xs = ys"
  using assms(3,1,2)
proof (induction xs ys rule: list_induct2)
  case Nil
  then show ?case by simp
next
  case (Cons x xs y ys)
  then show ?case by (simp add: enc_append_inject)
qed

end

end
