(* ===== verification/Common_Util.thy ===== *)
theory Common_Util
  imports Codec
begin

text \<open>
  The helper functions of \<open>src/common/common.go\<close> that the rest of the node relies on:
  list search and comparison, the little-endian integer codecs, the increment of a big-endian
  byte string used for database range scans, duplicate detection, the shard a key belongs to,
  and the error accumulator.
\<close>

section \<open>Definitions\<close>

definition MAX_SHARD_NUMBER :: nat where
  "MAX_SHARD_NUMBER = 2"

definition GetShardIDFromLastByte :: "byte \<Rightarrow> byte" where
  "GetShardIDFromLastByte b = of_nat (unat b mod MAX_SHARD_NUMBER)"

text \<open>The two list comparisons of the source, each with its own early length check.\<close>

definition IntArrayEquals :: "int list \<Rightarrow> int list \<Rightarrow> bool" where
  "IntArrayEquals a b =
     (if length a \<noteq> length b then False else list_all (\<lambda>(v, w). v = w) (zip a b))"

definition CompareStringArray :: "string list \<Rightarrow> string list \<Rightarrow> bool" where
  "CompareStringArray src dst =
     (if length src \<noteq> length dst then False else list_all (\<lambda>(v, w). w = v) (zip src dst))"

definition ByteEqual :: "bytes \<Rightarrow> bytes \<Rightarrow> bool" where
  "ByteEqual a b =
     (if length a \<noteq> length b then False else list_all (\<lambda>(v, w). v = w) (zip a b))"

text \<open>Linear search: the loop carries the index \<open>k\<close>; \<open>-1\<close> means absent.\<close>

fun IndexOfStr_from :: "int \<Rightarrow> string \<Rightarrow> string list \<Rightarrow> int" where
  "IndexOfStr_from k item [] = -1"
| "IndexOfStr_from k item (v # vs) = (if item = v then k else IndexOfStr_from (k + 1) item vs)"

definition IndexOfStr :: "string \<Rightarrow> string list \<Rightarrow> int" where
  "IndexOfStr item xs = IndexOfStr_from 0 item xs"

fun IndexOfByte_from :: "int \<Rightarrow> byte \<Rightarrow> bytes \<Rightarrow> int" where
  "IndexOfByte_from k item [] = -1"
| "IndexOfByte_from k item (v # vs) = (if v = item then k else IndexOfByte_from (k + 1) item vs)"

definition IndexOfByte :: "byte \<Rightarrow> bytes \<Rightarrow> int" where
  "IndexOfByte item arrays = IndexOfByte_from 0 item arrays"

definition IndexOfStrInHashMap :: "string \<Rightarrow> ('h, string) fmap \<Rightarrow> int" where
  "IndexOfStrInHashMap v m = (if v |\<in>| fmran m then 1 else -1)"

definition Max_int :: "int \<Rightarrow> int \<Rightarrow> int" where
  "Max_int x y = (if x > y then x else y)"

text \<open>\<open>CheckDuplicateBigIntArray\<close> sorts the slice and compares neighbours.\<close>

fun adjacent_equal :: "int list \<Rightarrow> bool" where
  "adjacent_equal (x # y # zs) = (x = y \<or> adjacent_equal (y # zs))"
| "adjacent_equal xs = False"

definition CheckDuplicateBigIntArray :: "int list \<Rightarrow> bool" where
  "CheckDuplicateBigIntArray arr = adjacent_equal (sort arr)"

fun IntArrayToString :: "int list \<Rightarrow> string \<Rightarrow> string" where
  "IntArrayToString [] delim = ''''"
| "IntArrayToString [a] delim = itoa a"
| "IntArrayToString (a # as) delim = itoa a @ delim @ IntArrayToString as delim"

text \<open>
  The integer codecs of \<open>encoding/binary\<close>'s little-endian order. The readers look at the
  first bytes of the slice and panic on a slice that is too short.
\<close>

definition Uint32ToBytes :: "uint32 \<Rightarrow> bytes" where
  "Uint32ToBytes value = le_bytes 4 (unat value)"

definition BytesToUint32 :: "bytes \<Rightarrow> fault + uint32" where
  "BytesToUint32 b = (if length b < 4 then Inl IndexOutOfRange else Inr (of_nat (le_val (take 4 b))))"

definition Uint64ToBytes :: "uint64 \<Rightarrow> bytes" where
  "Uint64ToBytes value = le_bytes 8 (unat value)"

definition BytesToUint64 :: "bytes \<Rightarrow> fault + uint64" where
  "BytesToUint64 b = (if length b < 8 then Inl IndexOutOfRange else Inr (of_nat (le_val (take 8 b))))"

text \<open>\<open>int32\<close> and \<open>int64\<close> values are their two's complement words.\<close>

definition Int32ToBytes :: "32 word \<Rightarrow> bytes" where
  "Int32ToBytes value = Uint32ToBytes value"

definition BytesToInt32 :: "bytes \<Rightarrow> fault + 32 word" where
  "BytesToInt32 b = BytesToUint32 b"

definition Int64ToBytes :: "64 word \<Rightarrow> bytes" where
  "Int64ToBytes value = Uint64ToBytes value"

definition Uint8ToBytes :: "byte \<Rightarrow> bytes" where
  "Uint8ToBytes value = [value]"

definition BytesToUint8 :: "bytes \<Rightarrow> fault + byte" where
  "BytesToUint8 b = index b 0"

definition BoolToByte :: "bool \<Rightarrow> byte" where
  "BoolToByte value = (if value then 1 else 0)"

text \<open>
  \<open>BytesPlusOne\<close> walks the slice from its last byte: a byte below \<open>0xff\<close> is incremented and
  everything before it is copied; a byte \<open>0xff\<close> becomes 0 and the walk goes on. The recursion
  is over the reversed slice.
\<close>

fun plus_one_rev :: "bytes \<Rightarrow> bytes" where
  "plus_one_rev [] = []"
| "plus_one_rev (b # bs) = (if b < 255 then (b + 1) # bs else 0 # plus_one_rev bs)"

definition BytesPlusOne :: "bytes \<Rightarrow> bytes" where
  "BytesPlusOne b = rev (plus_one_rev (rev b))"

text \<open>The ECDSA signature helpers: two minimal big-endian integers, read back at fixed offsets.\<close>

definition ECDSASigToByteArray :: "nat \<Rightarrow> nat \<Rightarrow> bytes" where
  "ECDSASigToByteArray r s = be_bytes r @ be_bytes s"

definition FromByteArrayToECDSASig :: "bytes \<Rightarrow> fault + nat \<times> nat" where
  "FromByteArrayToECDSASig sig =
     (if length sig < 64 then Inl IndexOutOfRange
      else Inr (be_val (take 32 sig), be_val (take 32 (drop 32 sig))))"

text \<open>\<open>ErrorSaver\<close> keeps the first error it is given; \<open>CheckError\<close> is one call on a fresh saver.\<close>

record 'e ErrorSaver =
  saver_err :: "'e option"

fun first_error :: "'e option list \<Rightarrow> 'e option" where
  "first_error [] = None"
| "first_error (None # es) = first_error es"
| "first_error (Some e # es) = Some e"

definition ErrorSaver_Save :: "'e ErrorSaver \<Rightarrow> 'e option list \<Rightarrow> 'e ErrorSaver \<times> 'e option" where
  "ErrorSaver_Save s errs =
     (case saver_err s of
        Some e \<Rightarrow> (s, Some e)
      | None \<Rightarrow> (case first_error errs of
                   Some e \<Rightarrow> (s\<lparr>saver_err := Some e\<rparr>, Some e)
                 | None \<Rightarrow> (s, None)))"

definition CheckError :: "'e option list \<Rightarrow> 'e option" where
  "CheckError errs = snd (ErrorSaver_Save \<lparr>saver_err = None\<rparr> errs)"

section \<open>Comparison and search\<close>

lemma list_all_zip_eq: "length a = length b \<Longrightarrow> list_all (\<lambda>(v, w). v = w) (zip a b) \<longleftrightarrow> a = b"
  by (induction a b rule: list_induct2) auto

lemma list_all_zip_eq': "length a = length b \<Longrightarrow> list_all (\<lambda>(v, w). w = v) (zip a b) \<longleftrightarrow> a = b"
  by (induction a b rule: list_induct2) auto

lemma IntArrayEquals_iff: "IntArrayEquals a b \<longleftrightarrow> a = b"
  by (auto simp: IntArrayEquals_def list_all_zip_eq)

lemma CompareStringArray_iff: "CompareStringArray a b \<longleftrightarrow> a = b"
  by (auto simp: CompareStringArray_def list_all_zip_eq')

lemma ByteEqual_iff [simp]: "ByteEqual a b \<longleftrightarrow> a = b"
  by (auto simp: ByteEqual_def list_all_zip_eq)

lemma IndexOfStr_from_absent: "0 \<le> k \<Longrightarrow> IndexOfStr_from k item xs = -1 \<longleftrightarrow> item \<notin> set xs"
  by (induction xs arbitrary: k) auto

lemma IndexOfStr_from_present:
  "item \<in> set xs \<Longrightarrow> \<exists>i < length xs. IndexOfStr_from k item xs = k + int i
     \<and> xs ! i = item \<and> item \<notin> set (take i xs)"
proof (induction xs arbitrary: k)
  case Nil
  then show ?case by simp
next
  case (Cons v vs)
  show ?case
  proof (cases "item = v")
    case True
    then show ?thesis by (intro exI [of _ 0]) simp
  next
    case False
    with Cons.prems obtain i where "i < length vs" "IndexOfStr_from (k + 1) item vs = k + 1 + int i"
      "vs ! i = item" "item \<notin> set (take i vs)"
      using Cons.IH [of "k + 1"] by auto
    with False show ?thesis by (intro exI [of _ "Suc i"]) auto
  qed
qed

lemma IndexOfStr_absent: "IndexOfStr item xs = -1 \<longleftrightarrow> item \<notin> set xs"
  by (simp add: IndexOfStr_def IndexOfStr_from_absent)

lemma IndexOfStr_found:
  "item \<in> set xs \<Longrightarrow> \<exists>i < length xs. IndexOfStr item xs = int i
     \<and> xs ! i = item \<and> item \<notin> set (take i xs)"
  using IndexOfStr_from_present [of item xs 0] by (simp add: IndexOfStr_def)

lemma IndexOfStr_gt_iff [simp]: "-1 < IndexOfStr item xs \<longleftrightarrow> item \<in> set xs"
  using IndexOfStr_absent [of item xs] IndexOfStr_found [of item xs] by fastforce

lemma IndexOfByte_from_absent: "0 \<le> k \<Longrightarrow> IndexOfByte_from k item xs = -1 \<longleftrightarrow> item \<notin> set xs"
  by (induction xs arbitrary: k) auto

lemma IndexOfByte_from_ge: "0 \<le> k \<Longrightarrow> -1 \<le> IndexOfByte_from k item xs"
  by (induction xs arbitrary: k) auto

lemma IndexOfByte_gt_iff [simp]: "-1 < IndexOfByte item xs \<longleftrightarrow> item \<in> set xs"
  using IndexOfByte_from_absent [of 0 item xs] IndexOfByte_from_ge [of 0 item xs]
  by (auto simp: IndexOfByte_def)

section \<open>Duplicates\<close>

lemma adjacent_equal_sorted: "sorted xs \<Longrightarrow> adjacent_equal xs \<longleftrightarrow> \<not> distinct xs"
proof (induction xs rule: adjacent_equal.induct)
  case (1 x y zs)
  then show ?case by (cases "x = y") (auto simp: order_antisym)
qed simp_all

lemma CheckDuplicateBigIntArray_iff: "CheckDuplicateBigIntArray arr \<longleftrightarrow> \<not> distinct arr"
  by (simp add: CheckDuplicateBigIntArray_def adjacent_equal_sorted)

section \<open>Integer codecs\<close>

lemma BytesToUint64_Uint64ToBytes: "BytesToUint64 (Uint64ToBytes v) = Inr v"
proof -
  have "unat v < 256 ^ 8" using unsigned_less [of v, where 'a = nat] by simp
  then show ?thesis
    by (simp add: BytesToUint64_def Uint64ToBytes_def le_val_le_bytes)
qed

lemma BytesToUint32_Uint32ToBytes: "BytesToUint32 (Uint32ToBytes v) = Inr v"
proof -
  have "unat v < 256 ^ 4" using unsigned_less [of v, where 'a = nat] by simp
  then show ?thesis
    by (simp add: BytesToUint32_def Uint32ToBytes_def le_val_le_bytes)
qed

text \<open>The readers as partial decoders, for the codec interface.\<close>

definition ok_result :: "fault + 'a \<Rightarrow> 'a option" where
  "ok_result r = (case r of Inl _ \<Rightarrow> None | Inr a \<Rightarrow> Some a)"

interpretation u64: fixed_codec Uint64ToBytes "\<lambda>b. ok_result (BytesToUint64 b)" "\<lambda>_. True" 8
  by unfold_locales (simp add: ok_result_def BytesToUint64_Uint64ToBytes, simp add: Uint64ToBytes_def)

interpretation u32: fixed_codec Uint32ToBytes "\<lambda>b. ok_result (BytesToUint32 b)" "\<lambda>_. True" 4
  by unfold_locales (simp add: ok_result_def BytesToUint32_Uint32ToBytes, simp add: Uint32ToBytes_def)

section \<open>Byte increment\<close>

lemma be_val_rev: "be_val (rev bs) = le_val bs"
  by (induction bs) (simp_all add: be_val_append be_val_Cons)

lemma length_plus_one_rev [simp]: "length (plus_one_rev bs) = length bs"
  by (induction bs) simp_all

lemma le_val_plus_one_rev: "le_val (plus_one_rev bs) = (le_val bs + 1) mod 256 ^ length bs"
proof (induction bs)
  case Nil
  then show ?case by simp
next
  case (Cons b bs)
  show ?case
  proof (cases "b < 255")
    case True
    then have u: "unat (b + 1) = unat b + 1"
      by (simp add: word_less_nat_alt unat_word_ariths)
    have "le_val ((b + 1) # bs) < 256 ^ length ((b + 1) # bs)" by (rule le_val_less)
    with True u show ?thesis by simp
  next
    case False
    then have b: "unat b = 255"
      using unat_byte_less [of b] by (simp add: word_less_nat_alt del: unat_byte_less)
    have "le_val (plus_one_rev (b # bs)) = 256 * ((le_val bs + 1) mod 256 ^ length bs)"
      using False Cons by simp
    also have "\<dots> = (256 * (le_val bs + 1)) mod (256 * 256 ^ length bs)"
      by (simp add: mult_mod_right)
    finally show ?thesis using b by (simp add: algebra_simps)
  qed
qed

lemma length_BytesPlusOne [simp]: "length (BytesPlusOne b) = length b"
  by (simp add: BytesPlusOne_def)

lemma be_val_BytesPlusOne: "be_val (BytesPlusOne b) = (be_val b + 1) mod 256 ^ length b"
  using be_val_rev [of "rev b"] be_val_rev [of "plus_one_rev (rev b)"]
  by (simp add: BytesPlusOne_def le_val_plus_one_rev)

section \<open>Shards and errors\<close>

lemma GetShardID_bound: "unat (GetShardIDFromLastByte b) < MAX_SHARD_NUMBER"
  by (simp add: GetShardIDFromLastByte_def MAX_SHARD_NUMBER_def of_nat_unat_byte)

lemma GetShardID_idem: "GetShardIDFromLastByte (GetShardIDFromLastByte b) = GetShardIDFromLastByte b"
  by (simp add: GetShardIDFromLastByte_def MAX_SHARD_NUMBER_def of_nat_unat_byte)

lemma first_error_None: "first_error es = None \<longleftrightarrow> list_all (\<lambda>e. e = None) es"
  by (induction es rule: first_error.induct) auto

lemma CheckError_None: "CheckError errs = None \<longleftrightarrow> list_all (\<lambda>e. e = None) errs"
  by (auto simp: CheckError_def ErrorSaver_Save_def first_error_None [symmetric] split: option.splits)

end
