(* ===== verification/Hash_Type.thy ===== *)
theory Hash_Type
  imports Common_Util
begin

text \<open>
  \<open>src/common/hash.go\<close> and \<open>src/common/hashfunc.go\<close>: the 32-byte hash value, its byte-reversed
  hexadecimal text form, and the hash functions. A Go value of the array type \<open>[32]byte\<close> is a
  byte list of length 32 (\<open>wf_hash\<close>). The SHA3-256 and RIPEMD-160 digests come from
  \<open>golang.org/x/crypto\<close> and are parameters; the only fact ever assumed of SHA3-256 is that its
  output has 32 bytes (\<open>digest32\<close>).
\<close>

section \<open>Definitions\<close>

type_synonym hash = bytes

definition HashSize :: nat where "HashSize = 32"

definition MaxHashStringSize :: nat where "MaxHashStringSize = HashSize * 2"

definition wf_hash :: "hash \<Rightarrow> bool" where
  "wf_hash h \<longleftrightarrow> length h = HashSize"

definition zero_hash :: hash where
  "zero_hash = replicate HashSize 0"

datatype hash_error =
    ErrHashStrSize        \<comment> \<open>max hash string length\<close>
  | InvalidHashLength     \<comment> \<open>invalid hash length of ..., want ...\<close>
  | InvalidByteError      \<comment> \<open>\<open>encoding/hex\<close>: invalid byte\<close>

text \<open>\<open>encoding/hex\<close>: lower-case encoding; decoding accepts both cases.\<close>

definition hex_char :: "nat \<Rightarrow> char" where
  "hex_char n = (if n < 10 then char_of (48 + n) else char_of (87 + n))"

definition from_hex_char :: "char \<Rightarrow> nat option" where
  "from_hex_char c = (let v = of_char c :: nat in
     if 48 \<le> v \<and> v \<le> 57 then Some (v - 48)
     else if 97 \<le> v \<and> v \<le> 102 then Some (v - 87)
     else if 65 \<le> v \<and> v \<le> 70 then Some (v - 55)
     else None)"

definition hex_encode :: "bytes \<Rightarrow> string" where
  "hex_encode bs = concat (map (\<lambda>b. [hex_char (unat b div 16), hex_char (unat b mod 16)]) bs)"

fun hex_decode :: "string \<Rightarrow> bytes option" where
  "hex_decode [] = Some []"
| "hex_decode [c] = None"
| "hex_decode (c # d # s) =
     (case from_hex_char c of None \<Rightarrow> None
      | Some a \<Rightarrow> (case from_hex_char d of None \<Rightarrow> None
                 | Some b \<Rightarrow> map_option (\<lambda>bs. of_nat (16 * a + b) # bs) (hex_decode s)))"

definition Hash_String :: "hash \<Rightarrow> string" where
  "Hash_String h = hex_encode (rev h)"

definition Hash_StringNotReverse :: "hash \<Rightarrow> string" where
  "Hash_StringNotReverse h = hex_encode h"

definition Hash_MarshalText :: "hash \<Rightarrow> bytes" where
  "Hash_MarshalText h = bytes_of_string (Hash_String h)"

text \<open>
  \<open>UnmarshalText\<close> has a value receiver: it copies the text into its own copy of the array and
  the caller's value (the result here) does not change.
\<close>

definition Hash_UnmarshalText :: "hash \<Rightarrow> bytes \<Rightarrow> hash" where
  "Hash_UnmarshalText h text =
     (let local = take HashSize text @ drop (length text) h in fst (h, local))"

definition Hash_GetBytes :: "hash \<Rightarrow> bytes" where
  "Hash_GetBytes h = h"

definition Hash_SetBytes :: "hash \<Rightarrow> bytes \<Rightarrow> hash_error + hash" where
  "Hash_SetBytes h newHash =
     (if length newHash \<noteq> HashSize then Inl InvalidHashLength else Inr newHash)"

definition NewHash :: "bytes \<Rightarrow> hash_error + hash" where
  "NewHash b = Hash_SetBytes zero_hash b"

text \<open>\<open>IsEqual\<close> works on pointers; \<open>None\<close> is the nil pointer.\<close>

definition Hash_IsEqual :: "hash option \<Rightarrow> hash option \<Rightarrow> bool" where
  "Hash_IsEqual h target =
     (case (h, target) of
        (None, None) \<Rightarrow> True
      | (Some a, Some b) \<Rightarrow> a = b
      | _ \<Rightarrow> False)"

text \<open>
  \<open>Decode\<close>: odd-length input gets a leading \<open>0\<close>, the decoded bytes fill the end of a zeroed
  array, and the array is copied to the destination in reverse.
\<close>

definition Hash_Decode :: "string \<Rightarrow> hash_error + hash" where
  "Hash_Decode src =
     (if length src > MaxHashStringSize then Inl ErrHashStrSize
      else let srcBytes = (if even (length src) then src else CHR ''0'' # src)
           in case hex_decode srcBytes of
                None \<Rightarrow> Inl InvalidByteError
              | Some d \<Rightarrow> Inr (rev (replicate (HashSize - length srcBytes div 2) 0 @ d)))"

definition NewHashFromStr :: "string \<Rightarrow> hash_error + hash" where
  "NewHashFromStr s = Hash_Decode s"

fun Hash_Cmp :: "hash \<Rightarrow> hash \<Rightarrow> int" where
  "Hash_Cmp (a # as) (b # bs) = (if a > b then 1 else if a < b then -1 else Hash_Cmp as bs)"
| "Hash_Cmp _ _ = 0"

fun ConvertArrayStringToArrayHash :: "string list \<Rightarrow> hash_error + hash list" where
  "ConvertArrayStringToArrayHash [] = Inr []"
| "ConvertArrayStringToArrayHash (s # ss) =
     (case NewHashFromStr s of
        Inl e \<Rightarrow> Inl e
      | Inr h \<Rightarrow> (case ConvertArrayStringToArrayHash ss of Inl e \<Rightarrow> Inl e | Inr hs \<Rightarrow> Inr (h # hs)))"

definition digest32 :: "(bytes \<Rightarrow> bytes) \<Rightarrow> bool" where
  "digest32 sum256 \<longleftrightarrow> (\<forall>b. length (sum256 b) = HashSize)"

definition HashB :: "(bytes \<Rightarrow> bytes) \<Rightarrow> bytes \<Rightarrow> bytes" where
  "HashB sum256 b = sum256 b"

definition HashH :: "(bytes \<Rightarrow> bytes) \<Rightarrow> bytes \<Rightarrow> hash" where
  "HashH sum256 b = sum256 b"

definition Hash160 :: "(bytes \<Rightarrow> bytes) \<Rightarrow> (bytes \<Rightarrow> bytes) \<Rightarrow> bytes \<Rightarrow> bytes" where
  "Hash160 sum256 ripemd160 data = ripemd160 (HashB sum256 data)"

section \<open>Hexadecimal\<close>

lemma from_hex_char_hex_char: "n < 16 \<Longrightarrow> from_hex_char (hex_char n) = Some n"
  by (simp add: from_hex_char_def hex_char_def Let_def)

lemma length_hex_encode [simp]: "length (hex_encode bs) = 2 * length bs"
  by (induction bs) (simp_all add: hex_encode_def)

lemma hex_decode_hex_encode: "hex_decode (hex_encode bs) = Some bs"
proof (induction bs)
  case Nil
  then show ?case by (simp add: hex_encode_def)
next
  case (Cons b bs)
  have "unat b div 16 < 16" using unat_byte_less [of b] by linarith
  then have "hex_decode (hex_encode (b # bs)) =
      map_option (\<lambda>bs. of_nat (16 * (unat b div 16) + unat b mod 16) # bs) (hex_decode (hex_encode bs))"
    by (simp add: hex_encode_def from_hex_char_hex_char)
  with Cons.IH show ?case by simp
qed

lemma length_hex_decode: "hex_decode s = Some bs \<Longrightarrow> length bs = length s div 2"
  by (induction s arbitrary: bs rule: hex_decode.induct) (auto split: option.splits)

section \<open>The hash codec\<close>

lemma NewHashFromStr_String: "wf_hash h \<Longrightarrow> NewHashFromStr (Hash_String h) = Inr h"
  by (simp add: NewHashFromStr_def Hash_Decode_def Hash_String_def wf_hash_def HashSize_def
      MaxHashStringSize_def hex_decode_hex_encode)

lemma NewHashFromStr_wf: "NewHashFromStr s = Inr h \<Longrightarrow> wf_hash h"
  by (auto simp: NewHashFromStr_def Hash_Decode_def wf_hash_def HashSize_def MaxHashStringSize_def
      Let_def dest!: length_hex_decode split: option.splits if_splits) presburger

definition hash_of_string :: "string \<Rightarrow> hash option" where
  "hash_of_string s = (case NewHashFromStr s of Inl _ \<Rightarrow> None | Inr h \<Rightarrow> Some h)"

interpretation hash_str: fixed_codec Hash_String hash_of_string wf_hash 64
proof unfold_locales
  show "hash_of_string (Hash_String x) = Some x" if "wf_hash x" for x
    using that by (simp add: hash_of_string_def NewHashFromStr_String)
  show "length (Hash_String x) = 64" if "wf_hash x" for x
    using that by (simp add: Hash_String_def wf_hash_def HashSize_def)
qed

lemma NewHash_GetBytes: "wf_hash h \<Longrightarrow> NewHash (Hash_GetBytes h) = Inr h"
  by (simp add: NewHash_def Hash_GetBytes_def Hash_SetBytes_def wf_hash_def)

lemma Hash_IsEqual_Some [simp]: "Hash_IsEqual (Some a) (Some b) \<longleftrightarrow> a = b"
  by (simp add: Hash_IsEqual_def)

lemma wf_hash_HashH: "digest32 sum256 \<Longrightarrow> wf_hash (HashH sum256 b)"
  by (simp add: digest32_def HashH_def wf_hash_def)

lemma wf_zero_hash [simp]: "wf_hash zero_hash"
  by (simp add: wf_hash_def zero_hash_def)

section \<open>Comparison\<close>

lemma Hash_Cmp_eq: "length a = length b \<Longrightarrow> Hash_Cmp a b = 0 \<longleftrightarrow> a = b"
  by (induction a b rule: list_induct2) auto

lemma Hash_Cmp_swap: "length a = length b \<Longrightarrow> Hash_Cmp b a = - Hash_Cmp a b"
  by (induction a b rule: list_induct2) auto

lemma Hash_Cmp_val:
  "length a = length b \<Longrightarrow> Hash_Cmp a b = sgn (int (be_val a) - int (be_val b))"
proof (induction a b rule: list_induct2)
  case Nil
  then show ?case by simp
next
  case (Cons x xs y ys)
  let ?B = "256 ^ length ys :: nat"
  have bx: "be_val xs < ?B" and bY: "be_val ys < ?B"
    using be_val_less [of xs] be_val_less [of ys] Cons.hyps by simp_all
  have mono: "int (be_val (u # us)) < int (be_val (v # vs))"
    if "u < v" "be_val us < ?B" "length us = length ys" "length vs = length ys" for u v us vs
  proof -
    have "be_val (u # us) < (unat u + 1) * ?B" using that by (simp add: be_val_Cons)
    also have "\<dots> \<le> unat v * ?B"
      using that(1) by (intro mult_le_mono1) (simp add: word_less_nat_alt)
    also have "\<dots> \<le> be_val (v # vs)" using that by (simp add: be_val_Cons)
    finally show ?thesis by simp
  qed
  consider "x > y" | "x < y" | "x = y" by fastforce
  then show ?case
  proof cases
    case 1
    then show ?thesis using mono [of y x ys xs] bY Cons.hyps by simp
  next
    case 2
    then show ?thesis using mono [of x y xs ys] bx Cons.hyps by simp
  next
    case 3
    then show ?thesis using Cons by (simp add: be_val_Cons)
  qed
qed

section \<open>Properties\<close>

text \<open>
  The text form of a hash. \<open>Hash.String\<close> of a 32-byte hash is 64 characters and
  \<open>NewHashFromStr\<close> reads back the same hash; a text longer than 64 characters is refused, and every
  text that is accepted gives a full 32-byte hash, padded with zero bytes when it is shorter.
\<close>

theorem hash_string_roundtrip:
  assumes "wf_hash h"
  shows "length (Hash_String h) = 64 \<and> NewHashFromStr (Hash_String h) = Inr h
    \<and> (64 < length s \<longrightarrow> NewHashFromStr s = Inl ErrHashStrSize)
    \<and> (NewHashFromStr s = Inr h' \<longrightarrow> wf_hash h')"
  using assms hash_str.length_enc [OF assms]
  by (auto simp: NewHashFromStr_String NewHashFromStr_wf)
    (simp add: NewHashFromStr_def Hash_Decode_def MaxHashStringSize_def HashSize_def)

theorem hash_string_roundtrip_witness:
  "NewHashFromStr (Hash_String zero_hash) = Inr zero_hash \<and> NewHashFromStr (replicate 65 CHR ''0'') = Inl ErrHashStrSize"
  using hash_string_roundtrip [OF wf_zero_hash, of "replicate 65 CHR ''0''"] by simp

end
