(* ===== verification/Base58_Codec.thy ===== *)
theory Base58_Codec
  imports Hash_Type
begin

unbundle bit_operations_syntax

text \<open>
  \<open>src/common/base58\<close>: the base58 text encoding of addresses, keys and signatures. The fast
  encoder keeps a digit buffer of fixed size and a high-water mark; the fast decoder works on
  an array of 32-bit words; the trivial encoder uses big integers. The theorems: the buffer is
  always large enough (the encoder never panics), the fast encoder computes what the trivial
  one computes, and decoding inverts encoding, with and without the checksum.
\<close>

section \<open>Alphabets\<close>

record Alphabet =
  al_decode :: "int list"   \<comment> \<open>\<open>[128]int8\<close>\<close>
  al_encode :: string       \<comment> \<open>\<open>[58]byte\<close>\<close>

definition NewAlphabet :: "string \<Rightarrow> fault + Alphabet" where
  "NewAlphabet s =
     (if length s \<noteq> 58 then Inl (ExplicitPanic ''base58 alphabets must be 58 bytes long'')
      else if \<not> list_all (\<lambda>b. of_char b < (128 :: nat)) s then Inl IndexOutOfRange
      else Inr \<lparr>al_decode = fold (\<lambda>(i, b) d. d[of_char b := int i]) (enumerate 0 s) (replicate 128 (-1)),
                al_encode = s\<rparr>)"

definition BTCAlphabet :: Alphabet where
  "BTCAlphabet =
     (case NewAlphabet ''123456789ABCDEFGHJKLMNPQRSTUVWXYZabcdefghijkmnopqrstuvwxyz'' of
        Inr al \<Rightarrow> al | Inl _ \<Rightarrow> \<lparr>al_decode = [], al_encode = []\<rparr>)"

text \<open>What the code needs of an alphabet: the decoding table inverts the encoding table.\<close>

definition wf_alphabet :: "Alphabet \<Rightarrow> bool" where
  "wf_alphabet al \<longleftrightarrow> length (al_encode al) = 58 \<and> length (al_decode al) = 128 \<and>
     list_all (\<lambda>i. of_char (al_encode al ! i) < (128 :: nat) \<and>
                   al_decode al ! of_char (al_encode al ! i) = int i) [0..<58]"

section \<open>Fast encoding\<close>

text \<open>
  One input byte: the carry runs from the last digit towards the front, over the digits
  already in use (\<open>j > high\<close>) and on while it is not zero. Reading \<open>buf[j]\<close> with \<open>j < 0\<close>
  panics. The carry is an \<open>uint32\<close> that stays below \<open>255 + 256 * 58\<close>, so it is a \<open>nat\<close> here.
\<close>

function enc_inner :: "nat list \<Rightarrow> int \<Rightarrow> int \<Rightarrow> nat \<Rightarrow> fault + nat list \<times> int" where
  "enc_inner buf j high carry =
     (if j > high \<or> carry \<noteq> 0 then
        (if j < 0 then Inl IndexOutOfRange
         else let c = carry + 256 * (buf ! nat j)
              in enc_inner (buf[nat j := c mod 58]) (j - 1) high (c div 58))
      else Inr (buf, j))"
  by pat_completeness auto
termination
  by (relation "measure (\<lambda>(buf, j, high, carry). nat (j + 1))") auto

declare enc_inner.simps [simp del]

fun enc_outer :: "bytes \<Rightarrow> nat list \<Rightarrow> int \<Rightarrow> fault + nat list" where
  "enc_outer [] buf high = Inr buf"
| "enc_outer (b # bs) buf high =
     (case enc_inner buf (int (length buf) - 1) high (unat b) of
        Inl e \<Rightarrow> Inl e
      | Inr (buf', j) \<Rightarrow> enc_outer bs buf' j)"

definition leading_zeros :: "bytes \<Rightarrow> nat" where
  "leading_zeros bin = length (takeWhile (\<lambda>b. b = 0) bin)"

definition FastBase58EncodingAlphabet :: "bytes \<Rightarrow> Alphabet \<Rightarrow> fault + string" where
  "FastBase58EncodingAlphabet bin alphabet =
     (let zero = al_encode alphabet ! 0;
          zcount = leading_zeros bin;
          size = (length bin - zcount) * 138 div 100 + 1
      in case enc_outer (drop zcount bin) (replicate size 0) (int size - 1) of
           Inl e \<Rightarrow> Inl e
         | Inr buf \<Rightarrow> Inr (replicate zcount zero
                        @ map (\<lambda>d. al_encode alphabet ! d) (dropWhile (\<lambda>d. d = 0) buf)))"

definition Base58_Encode :: "bytes \<Rightarrow> fault + string" where
  "Base58_Encode bin = FastBase58EncodingAlphabet bin BTCAlphabet"

section \<open>Trivial encoding\<close>

text \<open>
  The reference encoder: \<open>acc\<close> is the written part \<open>buf[idx:]\<close>; decrementing \<open>idx\<close> below 0 and
  writing there panics.
\<close>

function triv_digits :: "Alphabet \<Rightarrow> nat \<Rightarrow> nat \<Rightarrow> string \<Rightarrow> fault + nat \<times> string" where
  "triv_digits al bn idx acc =
     (if bn = 0 then Inr (idx, acc)
      else if idx = 0 then Inl IndexOutOfRange
      else triv_digits al (bn div 58) (idx - 1) (al_encode al ! (bn mod 58) # acc))"
  by pat_completeness auto
termination
  by (relation "measure (\<lambda>(al, bn, idx, acc). bn)") auto

declare triv_digits.simps [simp del]

fun triv_zeros :: "Alphabet \<Rightarrow> bytes \<Rightarrow> nat \<Rightarrow> string \<Rightarrow> fault + string" where
  "triv_zeros al [] idx acc = Inr acc"
| "triv_zeros al (a # as) idx acc =
     (if a \<noteq> 0 then Inr acc
      else if idx = 0 then Inl IndexOutOfRange
      else triv_zeros al as (idx - 1) (al_encode al ! 0 # acc))"

definition TrivialBase58EncodingAlphabet :: "bytes \<Rightarrow> Alphabet \<Rightarrow> fault + string" where
  "TrivialBase58EncodingAlphabet a alphabet =
     (case triv_digits alphabet (be_val a) (length a * 138 div 100 + 1) [] of
        Inl e \<Rightarrow> Inl e
      | Inr (idx, acc) \<Rightarrow> triv_zeros alphabet a idx acc)"

section \<open>Fast decoding\<close>

datatype base58_error = ZeroLength | HighBitSet | InvalidDigit | CarryTooBig | LastWordTooBig

text \<open>One digit: multiply the number in the word array by 58 and add, from the last word to the first.\<close>

fun dec_carry :: "uint32 list \<Rightarrow> uint32 \<Rightarrow> uint32 list \<times> uint32" where
  "dec_carry [] c = ([], c)"
| "dec_carry (o1 # os) c =
     (let (os', c1) = dec_carry os c;
          t = (ucast o1 * 58 + ucast c1 :: uint64)
      in (ucast (t AND 0xffffffff) # os', ucast (drop_bit 32 t) AND 0x3f))"

fun dec_loop :: "Alphabet \<Rightarrow> uint32 \<Rightarrow> string \<Rightarrow> uint32 list \<Rightarrow> base58_error + uint32 list" where
  "dec_loop al zmask [] outi = Inr outi"
| "dec_loop al zmask (r # rs) outi =
     (if of_char r > (127 :: nat) then Inl HighBitSet
      else if al_decode al ! of_char r = -1 then Inl InvalidDigit
      else let (outi', c) = dec_carry outi (word_of_int (al_decode al ! of_char r))
           in if c > 0 then Inl CarryTooBig
              else if hd outi' AND zmask \<noteq> 0 then Inl LastWordTooBig
              else dec_loop al zmask rs outi')"

text \<open>The bytes of one word, from the byte at \<open>8 * (n - 1)\<close> down to the last.\<close>

fun word_bytes :: "nat \<Rightarrow> uint32 \<Rightarrow> bytes" where
  "word_bytes 0 w = []"
| "word_bytes (Suc n) w = ucast (drop_bit (8 * n) w) # word_bytes n w"

fun dec_bytes :: "nat \<Rightarrow> uint32 list \<Rightarrow> bytes" where
  "dec_bytes bytesleft [] = []"
| "dec_bytes bytesleft (w # ws) = word_bytes bytesleft w @ dec_bytes 4 ws"

text \<open>
  The tail of \<open>binu\<close> after the \<open>cnt\<close> written bytes is zero, so the scan for the first non-zero
  byte stops inside the written part or finds nothing.
\<close>

definition strip_zeros :: "nat \<Rightarrow> bytes \<Rightarrow> bytes" where
  "strip_zeros zcount binu = (let n = leading_zeros binu in
     if n < length binu then drop (n - zcount) binu else binu)"

definition FastBase58DecodingAlphabet :: "string \<Rightarrow> Alphabet \<Rightarrow> base58_error + bytes" where
  "FastBase58DecodingAlphabet str alphabet =
     (if length str = 0 then Inl ZeroLength
      else let b58sz = length str;
               outisz = (b58sz + 3) div 4;
               zcount = length (takeWhile (\<lambda>c. c = al_encode alphabet ! 0) str);
               zmask = (if b58sz mod 4 > 0 then push_bit (8 * (b58sz mod 4)) 0xffffffff else 0);
               bytesleft = (if b58sz mod 4 > 0 then b58sz mod 4 else 4)
           in case dec_loop alphabet zmask str (replicate outisz 0) of
                Inl e \<Rightarrow> Inl e
              | Inr outi \<Rightarrow> Inr (strip_zeros zcount (dec_bytes bytesleft outi)))"

text \<open>\<open>Base58.Decode\<close> prints the error and returns nil.\<close>

definition Base58_Decode :: "string \<Rightarrow> bytes" where
  "Base58_Decode b = (case FastBase58DecodingAlphabet b BTCAlphabet of Inl _ \<Rightarrow> [] | Inr d \<Rightarrow> d)"

section \<open>Base58Check\<close>

datatype check_error = ErrChecksum | ErrInvalidFormat

definition ChecksumFirst4Bytes :: "(bytes \<Rightarrow> bytes) \<Rightarrow> bytes \<Rightarrow> bytes" where
  "ChecksumFirst4Bytes sum256 input = take 4 (HashB sum256 input)"

definition Base58Check_Encode :: "(bytes \<Rightarrow> bytes) \<Rightarrow> bytes \<Rightarrow> byte \<Rightarrow> fault + string" where
  "Base58Check_Encode sum256 input version =
     (let b = version # input in Base58_Encode (b @ ChecksumFirst4Bytes sum256 b))"

definition Base58Check_Decode :: "(bytes \<Rightarrow> bytes) \<Rightarrow> string \<Rightarrow> check_error + bytes \<times> byte" where
  "Base58Check_Decode sum256 input =
     (let decoded = Base58_Decode input;
          body = take (length decoded - 4) decoded
      in if length decoded < 5 then Inl ErrInvalidFormat
         else if ChecksumFirst4Bytes sum256 body \<noteq> drop (length decoded - 4) decoded
         then Inl ErrChecksum
         else Inr (tl body, hd decoded))"

section \<open>The bitcoin alphabet\<close>

abbreviation fill_table :: "(nat \<times> char) list \<Rightarrow> int list \<Rightarrow> int list" where
  "fill_table ibs d \<equiv> fold (\<lambda>(i, b) d. d[of_char b := int i]) ibs d"

lemma length_fill_table [simp]: "length (fill_table ibs d) = length d"
  by (induction ibs arbitrary: d) auto

lemma of_char_nat_eq_iff: "(of_char c :: nat) = of_char d \<longleftrightarrow> c = d"
  by simp

lemma fill_table_other: "c \<notin> set s \<Longrightarrow> fill_table (enumerate k s) d ! of_char c = d ! of_char c"
  by (induction s arbitrary: k d) auto

lemma fill_table_nth:
  assumes "distinct s" and "list_all (\<lambda>b. of_char b < (128 :: nat)) s" and "length d = 128" and "i < length s"
  shows "fill_table (enumerate k s) d ! of_char (s ! i) = int (k + i)"
  using assms
proof (induction s arbitrary: k d i)
  case Nil
  then show ?case by simp
next
  case (Cons b s)
  show ?case
  proof (cases i)
    case 0
    with Cons.prems show ?thesis by (simp add: fill_table_other)
  next
    case (Suc n)
    with Cons.prems Cons.IH [of "d[of_char b := int k]" n "Suc k"] show ?thesis by simp
  qed
qed

lemma NewAlphabet_wf:
  assumes "NewAlphabet s = Inr al" and "distinct s"
  shows "wf_alphabet al"
proof -
  from assms(1) have s: "length s = 58" "list_all (\<lambda>b. of_char b < (128 :: nat)) s"
    and al: "al = \<lparr>al_decode = fill_table (enumerate 0 s) (replicate 128 (-1)), al_encode = s\<rparr>"
    by (auto simp: NewAlphabet_def split: if_splits)
  have "al_decode al ! of_char (s ! i) = int i" if "i < 58" for i
    using fill_table_nth [OF assms(2) s(2), of "replicate 128 (-1)" i 0] that s al by simp
  with s al show ?thesis by (auto simp: wf_alphabet_def list_all_iff list_all_length)
qed

lemma BTCAlphabet_NewAlphabet:
  "NewAlphabet ''123456789ABCDEFGHJKLMNPQRSTUVWXYZabcdefghijkmnopqrstuvwxyz'' = Inr BTCAlphabet"
  unfolding BTCAlphabet_def NewAlphabet_def by simp

lemma wf_BTCAlphabet: "wf_alphabet BTCAlphabet"
  by (rule NewAlphabet_wf [OF BTCAlphabet_NewAlphabet]) simp

section \<open>The encoder's buffer is large enough\<close>

lemma power_58_bound_small: "r < 50 \<Longrightarrow> (256 :: nat) ^ r \<le> 58 ^ (r * 138 div 100 + 1)"
proof -
  have "list_all (\<lambda>r. (256 :: nat) ^ r \<le> 58 ^ (r * 138 div 100 + 1)) [0..<50]"
    by (simp add: upt_rec)
  then show "r < 50 \<Longrightarrow> ?thesis" by (simp add: list_all_iff)
qed

lemma power_58_bound: "(256 :: nat) ^ n \<le> 58 ^ (n * 138 div 100 + 1)"
proof -
  define q where "q = n div 50"
  define r where "r = n mod 50"
  have n: "n = 50 * q + r" and r: "r < 50" by (simp_all add: q_def r_def)
  have e: "n * 138 div 100 + 1 = 69 * q + (r * 138 div 100 + 1)" using n by simp
  have "(256 :: nat) ^ n = (256 ^ 50) ^ q * 256 ^ r" by (simp add: n power_add power_mult)
  also have "\<dots> \<le> (58 ^ 69) ^ q * 58 ^ (r * 138 div 100 + 1)"
    by (intro mult_le_mono power_mono power_58_bound_small r) simp_all
  also have "\<dots> = 58 ^ (n * 138 div 100 + 1)" by (simp only: e power_add power_mult)
  finally show ?thesis .
qed

section \<open>Correctness of the fast encoder\<close>

lemma take_nat_snoc: "0 \<le> j \<Longrightarrow> nat j < length xs \<Longrightarrow> take (nat (j + 1)) xs = take (nat j) xs @ [xs ! nat j]"
  by (simp add: take_Suc_conv_app_nth nat_add_distrib)

lemma digits_val_zeros: "(\<And>d. d \<in> set ds \<Longrightarrow> d = 0) \<Longrightarrow> digits_val B ds = 0"
  by (induction ds) auto

text \<open>
  The loop invariant of \<open>enc_inner\<close>: the digits after \<open>j\<close> are final, those up to \<open>high\<close> are
  zero, and what remains to be written is \<open>256\<close> times the untouched prefix plus the carry,
  which fits in the digits up to \<open>j\<close>.
\<close>

lemma enc_inner_correct:
  assumes "-1 \<le> j" and "j < int (length buf)" and "\<And>d. d \<in> set buf \<Longrightarrow> d < 58"
    and "\<And>i. i < length buf \<Longrightarrow> int i \<le> high \<Longrightarrow> int i \<le> j \<Longrightarrow> buf ! i = 0"
    and "256 * digits_val 58 (take (nat (j + 1)) buf) + carry < 58 ^ nat (j + 1)"
    and "-1 \<le> high"
  shows "\<exists>buf' j'. enc_inner buf j high carry = Inr (buf', j') \<and> length buf' = length buf
    \<and> (\<forall>d \<in> set buf'. d < 58) \<and> -1 \<le> j' \<and> j' \<le> high \<and> j' \<le> j
    \<and> take (nat (j' + 1)) buf' = take (nat (j' + 1)) buf
    \<and> digits_val 58 buf' = (256 * digits_val 58 (take (nat (j + 1)) buf) + carry) * 58 ^ (length buf - nat (j + 1))
         + digits_val 58 (drop (nat (j + 1)) buf)"
  using assms
proof (induction buf j high carry rule: enc_inner.induct)
  case (1 buf j high carry)
  let ?c = "carry + 256 * (buf ! nat j)"
  show ?case
  proof (cases "j > high \<or> carry \<noteq> 0")
    case False
    have z: "digits_val 58 (take (nat (j + 1)) buf) = 0"
    proof (rule digits_val_zeros)
      fix d assume "d \<in> set (take (nat (j + 1)) buf)"
      then obtain i where "i < nat (j + 1)" "i < length buf" "d = buf ! i"
        by (auto simp: in_set_conv_nth)
      with "1.prems"(4) [of i] False show "d = 0" by simp
    qed
    have "digits_val 58 buf = digits_val 58 (take (nat (j + 1)) buf @ drop (nat (j + 1)) buf)" by simp
    also have "\<dots> = digits_val 58 (drop (nat (j + 1)) buf)" unfolding digits_val_append using z by simp
    finally show ?thesis using False "1.prems" z by (auto simp: enc_inner.simps [of buf])
  next
    case True
    define n where "n = nat j"
    define A where "A = digits_val 58 (take n buf)"
    let ?c = "carry + 256 * (buf ! n)"
    let ?buf2 = "buf[n := ?c mod 58]"
    have j0: "0 \<le> j"
    proof (rule ccontr)
      assume "\<not> 0 \<le> j"
      with "1.prems"(1,5,6) True show False by simp
    qed
    then have jn: "j = int n" "nat (j + 1) = Suc n" "nat (j - 1 + 1) = n" and nl: "n < length buf"
      using "1.prems"(2) by (simp_all add: n_def)
    have val: "digits_val 58 (take (nat (j + 1)) buf) = 58 * A + buf ! n"
      using nl unfolding jn(2) by (simp add: take_Suc_conv_app_nth digits_val_snoc A_def)
    have fits: "256 * digits_val 58 (take (nat (j - 1 + 1)) ?buf2) + ?c div 58 < 58 ^ nat (j - 1 + 1)"
    proof -
      have "256 * (58 * A + buf ! n) + carry < 58 * 58 ^ n"
        using "1.prems"(5) val by (simp add: jn(2))
      then have "58 * (256 * A) + ?c < 58 ^ n * 58" by simp
      then have "(58 * (256 * A) + ?c) div 58 < 58 ^ n" by (rule less_mult_imp_div_less)
      then show ?thesis by (simp add: jn A_def)
    qed
    have "\<exists>buf' j'. enc_inner ?buf2 (j - 1) high (?c div 58) = Inr (buf', j') \<and> length buf' = length ?buf2
      \<and> (\<forall>d \<in> set buf'. d < 58) \<and> -1 \<le> j' \<and> j' \<le> high \<and> j' \<le> j - 1
      \<and> take (nat (j' + 1)) buf' = take (nat (j' + 1)) ?buf2
      \<and> digits_val 58 buf' = (256 * digits_val 58 (take (nat (j - 1 + 1)) ?buf2) + ?c div 58)
           * 58 ^ (length ?buf2 - nat (j - 1 + 1)) + digits_val 58 (drop (nat (j - 1 + 1)) ?buf2)"
      unfolding n_def
    proof (rule "1.IH" [OF True])
      show "\<not> j < 0" using j0 by simp
      show "-1 \<le> j - 1" using j0 by simp
      show "j - 1 < int (length (buf[nat j := (carry + 256 * buf ! nat j) mod 58]))"
        using "1.prems"(2) by simp
      show "d < 58" if "d \<in> set (buf[nat j := (carry + 256 * buf ! nat j) mod 58])" for d
        using that "1.prems"(3) set_update_subset_insert [of buf "nat j"] by fastforce
      show "buf[nat j := (carry + 256 * buf ! nat j) mod 58] ! i = 0"
        if "i < length (buf[nat j := (carry + 256 * buf ! nat j) mod 58])" "int i \<le> high" "int i \<le> j - 1" for i
        using that "1.prems"(4) [of i] by simp
    qed (use fits "1.prems"(6) in \<open>simp_all add: n_def\<close>)
    then obtain buf' j' where r: "enc_inner ?buf2 (j - 1) high (?c div 58) = Inr (buf', j')"
      "length buf' = length buf" "\<forall>d \<in> set buf'. d < 58" "-1 \<le> j'" "j' \<le> high" "j' \<le> j - 1"
      and tk: "take (nat (j' + 1)) buf' = take (nat (j' + 1)) ?buf2"
      and v: "digits_val 58 buf' = (256 * A + ?c div 58) * 58 ^ (length buf - n) + digits_val 58 (drop n ?buf2)"
      by (auto simp: jn A_def)
    have e: "enc_inner buf j high carry = Inr (buf', j')"
      using True j0 r(1) by (simp add: enc_inner.simps [of buf] n_def Let_def)
    have tk2: "take (nat (j' + 1)) ?buf2 = take (nat (j' + 1)) buf"
      using r(6) jn by (intro take_update_cancel) linarith
    have shift: "(X + q) * 58 ^ (length buf - n) + m * 58 ^ (length buf - Suc n)
        = (58 * X + (58 * q + m)) * 58 ^ (length buf - Suc n)" for X q m :: nat
      using nl by (simp add: Suc_diff_Suc [symmetric] algebra_simps)
    have "drop n ?buf2 = (?c mod 58) # drop (Suc n) buf"
      using nl by (simp add: Cons_nth_drop_Suc [symmetric] drop_update_swap)
    then have "digits_val 58 buf' = (256 * A + ?c div 58) * 58 ^ (length buf - n)
        + (?c mod 58) * 58 ^ (length buf - Suc n) + digits_val 58 (drop (Suc n) buf)"
      using v by simp
    also have "(256 * A + ?c div 58) * 58 ^ (length buf - n) + (?c mod 58) * 58 ^ (length buf - Suc n)
        = (58 * (256 * A) + (58 * (?c div 58) + ?c mod 58)) * 58 ^ (length buf - Suc n)"
      by (rule shift)
    also have "58 * (?c div 58) + ?c mod 58 = ?c" by simp
    also have "58 * (256 * A) + ?c = 256 * digits_val 58 (take (nat (j + 1)) buf) + carry"
      unfolding val by simp
    finally show ?thesis
      using e r tk tk2 by (auto simp: jn(2))
  qed
qed

text \<open>
  All bytes: the buffer holds the number read so far. \<open>N\<close> is the number already in the
  buffer; the bound says that the final number fits.
\<close>

lemma enc_outer_correct:
  assumes "\<And>d. d \<in> set buf \<Longrightarrow> d < 58"
    and "\<And>i. i < length buf \<Longrightarrow> int i \<le> high \<Longrightarrow> buf ! i = 0"
    and "-1 \<le> high"
    and "digits_val 58 buf * 256 ^ length bs + be_val bs < 58 ^ length buf"
  shows "\<exists>buf'. enc_outer bs buf high = Inr buf' \<and> length buf' = length buf \<and> (\<forall>d \<in> set buf'. d < 58)
    \<and> digits_val 58 buf' = digits_val 58 buf * 256 ^ length bs + be_val bs"
  using assms
proof (induction bs buf high rule: enc_outer.induct)
  case (1 buf high)
  then show ?case by simp
next
  case (2 b bs buf high)
  let ?j = "int (length buf) - 1"
  let ?V = "256 * digits_val 58 buf + unat b"
  have "?V \<le> ?V * 256 ^ length bs" by simp
  moreover have "?V * 256 ^ length bs + be_val bs < 58 ^ length buf"
    using "2.prems"(4) by (simp add: be_val_Cons algebra_simps)
  ultimately have fits: "?V < 58 ^ length buf" by linarith
  obtain buf' j' where r: "enc_inner buf ?j high (unat b) = Inr (buf', j')" "length buf' = length buf"
    "\<forall>d \<in> set buf'. d < 58" "-1 \<le> j'" "j' \<le> high"
    and tk: "take (nat (j' + 1)) buf' = take (nat (j' + 1)) buf" and v: "digits_val 58 buf' = ?V"
    using enc_inner_correct [of ?j buf high "unat b"] "2.prems" fits by auto
  have zero: "buf' ! i = 0" if "i < length buf'" "int i \<le> j'" for i
  proof -
    have "buf' ! i = take (nat (j' + 1)) buf' ! i" using that by simp
    also have "\<dots> = buf ! i" using that tk by simp
    finally show ?thesis using that r "2.prems"(2) [of i] by simp
  qed
  have "digits_val 58 buf' * 256 ^ length bs + be_val bs < 58 ^ length buf'"
    using "2.prems"(4) v r(2) by (simp add: be_val_Cons algebra_simps)
  with "2.IH" [OF r(1) refl] r zero
  obtain buf'' where "enc_outer bs buf' j' = Inr buf''" "length buf'' = length buf'"
    "\<forall>d \<in> set buf''. d < 58" "digits_val 58 buf'' = digits_val 58 buf' * 256 ^ length bs + be_val bs"
    by auto
  with r v show ?case by (simp add: be_val_Cons algebra_simps)
qed

lemma digits_val_replicate_zero [simp]: "digits_val B (replicate n 0) = 0"
  by (induction n) simp_all

lemma digits_val_dropWhile: "digits_val B (dropWhile (\<lambda>d. d = 0) ds) = digits_val B ds"
  by (induction ds) auto

text \<open>A digit list without leading zero is determined by its value.\<close>

lemma digits_of_digits_val:
  assumes "1 < B" and "\<And>d. d \<in> set ds \<Longrightarrow> d < B" and "ds = [] \<or> hd ds \<noteq> 0"
  shows "digits_of B (digits_val B ds) = ds"
  using assms
proof (induction ds rule: rev_induct)
  case Nil
  then show ?case by (simp add: digits_of.simps)
next
  case (snoc d ds)
  have d: "d < B" using snoc.prems by simp
  have hd: "ds = [] \<or> hd ds \<noteq> 0" using snoc.prems(3) by (cases ds) auto
  with snoc have IH: "digits_of B (digits_val B ds) = ds" by simp
  have nz: "B * digits_val B ds + d \<noteq> 0"
  proof (cases ds)
    case Nil
    with snoc.prems(3) show ?thesis by simp
  next
    case (Cons a as)
    with hd have "0 < a * B ^ length as" using snoc.prems(1) by simp
    then have "0 < digits_val B ds" using Cons by simp
    with snoc.prems(1) show ?thesis by simp
  qed
  with d IH snoc.prems(1) show ?case
    by (simp add: digits_val_snoc digits_of.simps [of B "B * digits_val B ds + d"])
qed

lemma be_val_leading_zeros: "be_val (drop (leading_zeros bin) bin) = be_val bin"
  by (induction bin) (auto simp: leading_zeros_def be_val_Cons)

lemma dropWhile_zero_hd: "dropWhile (\<lambda>d. d = 0) ds = [] \<or> hd (dropWhile (\<lambda>d. d = 0) ds) \<noteq> (0 :: nat)"
  by (induction ds) simp_all

text \<open>
  The closed form of the fast encoder: it returns (never panics), and its text is one zero
  digit per leading zero byte followed by the minimal base-58 digits of the number.
\<close>

lemma FastBase58Encoding_eq:
  "FastBase58EncodingAlphabet bin al =
     Inr (replicate (leading_zeros bin) (al_encode al ! 0)
          @ map (\<lambda>d. al_encode al ! d) (digits_of 58 (be_val bin)))"
proof -
  let ?z = "leading_zeros bin"
  let ?bs = "drop ?z bin"
  let ?size = "(length bin - ?z) * 138 div 100 + 1"
  have "be_val ?bs < 256 ^ length ?bs" by (rule be_val_less)
  also have "\<dots> \<le> 58 ^ ?size" using power_58_bound [of "length ?bs"] by simp
  finally have fits: "be_val ?bs < 58 ^ ?size" .
  obtain buf where b: "enc_outer ?bs (replicate ?size 0) (int ?size - 1) = Inr buf"
    "\<forall>d \<in> set buf. d < 58" "digits_val 58 buf = be_val ?bs"
    using enc_outer_correct [of "replicate ?size 0" "int ?size - 1" ?bs] fits by (auto simp del: replicate_Suc)
  have "digits_of 58 (digits_val 58 (dropWhile (\<lambda>d. d = 0) buf)) = dropWhile (\<lambda>d. d = 0) buf"
    using b(2) dropWhile_zero_hd by (intro digits_of_digits_val) (auto dest: set_dropWhileD)
  then have "dropWhile (\<lambda>d. d = 0) buf = digits_of 58 (be_val bin)"
    using b(3) by (simp add: digits_val_dropWhile be_val_leading_zeros)
  with b show ?thesis by (simp add: FastBase58EncodingAlphabet_def Let_def)
qed

section \<open>The trivial encoder computes the same text\<close>

lemma triv_digits_eq:
  "length (digits_of 58 bn) \<le> idx \<Longrightarrow>
   triv_digits al bn idx acc = Inr (idx - length (digits_of 58 bn), map (\<lambda>d. al_encode al ! d) (digits_of 58 bn) @ acc)"
proof (induction al bn idx acc rule: triv_digits.induct)
  case (1 al bn idx acc)
  show ?case
  proof (cases "bn = 0")
    case True
    then show ?thesis by (simp add: triv_digits.simps digits_of.simps)
  next
    case False
    then have d: "digits_of 58 bn = digits_of 58 (bn div 58) @ [bn mod 58]"
      by (simp add: digits_of.simps [of 58 bn])
    with "1.prems" have "idx \<noteq> 0" "length (digits_of 58 (bn div 58)) \<le> idx - 1" by auto
    with False d "1.IH" show ?thesis by (simp add: triv_digits.simps [of al bn])
  qed
qed

lemma triv_zeros_eq:
  "leading_zeros a \<le> idx \<Longrightarrow> triv_zeros al a idx acc = Inr (replicate (leading_zeros a) (al_encode al ! 0) @ acc)"
  by (induction al a idx acc rule: triv_zeros.induct)
    (auto simp: leading_zeros_def replicate_app_Cons_same)

lemma length_digits_of_le: "1 < B \<Longrightarrow> n < B ^ k \<Longrightarrow> length (digits_of B n) \<le> k"
proof (induction k arbitrary: n)
  case 0
  then show ?case by (simp add: digits_of.simps)
next
  case (Suc k)
  then have "n div B < B ^ k" by (simp add: less_mult_imp_div_less mult.commute)
  with Suc show ?case by (simp add: digits_of.simps [of B n])
qed

lemma TrivialBase58Encoding_eq:
  "TrivialBase58EncodingAlphabet a al =
     Inr (replicate (leading_zeros a) (al_encode al ! 0)
          @ map (\<lambda>d. al_encode al ! d) (digits_of 58 (be_val a)))"
proof -
  let ?z = "leading_zeros a"
  let ?ds = "digits_of 58 (be_val a)"
  let ?m = "length a - ?z"
  let ?idx = "length a * 138 div 100 + 1"
  have z: "?z \<le> length a" by (simp add: leading_zeros_def length_takeWhile_le)
  have "be_val a < 256 ^ ?m"
    using be_val_less [of "drop ?z a"] by (simp add: be_val_leading_zeros)
  also have "\<dots> \<le> 58 ^ (?m * 138 div 100 + 1)" by (rule power_58_bound)
  finally have "length ?ds \<le> ?m * 138 div 100 + 1" by (intro length_digits_of_le) simp_all
  then have "?z + length ?ds \<le> ?idx" using z by linarith
  then show ?thesis
    by (simp add: TrivialBase58EncodingAlphabet_def triv_digits_eq triv_zeros_eq)
qed

section \<open>The fast decoder\<close>

text \<open>The number held in an array of 32-bit words.\<close>

definition words_val :: "uint32 list \<Rightarrow> nat" where
  "words_val ws = digits_val (2 ^ 32) (map unat ws)"

lemma words_val_Nil [simp]: "words_val [] = 0"
  by (simp add: words_val_def)

lemma words_val_Cons: "words_val (w # ws) = unat w * 2 ^ (32 * length ws) + words_val ws"
  by (simp add: words_val_def power_mult)

lemma unat_u32_less: "unat (w :: uint32) < 2 ^ 32"
  using unsigned_less [of w, where 'a = nat] by simp

lemma unat_u32_less': "unat (w :: uint32) < 4294967296"
  using unat_u32_less [of w] by simp

lemma words_val_less: "words_val ws < 2 ^ (32 * length ws)"
proof -
  have "digits_val (2 ^ 32) (map unat ws) < (2 ^ 32) ^ length (map unat ws)"
    by (rule digits_val_less) (auto simp: unat_u32_less')
  then show ?thesis by (simp add: words_val_def power_mult)
qed

lemma dec_word_step:
  fixes o1 c1 :: uint32
  assumes "unat c1 < 58"
  shows "unat (ucast ((ucast o1 * 58 + ucast c1 :: uint64) AND 0xffffffff) :: uint32) = (unat o1 * 58 + unat c1) mod 2 ^ 32"
    and "unat (ucast (drop_bit 32 (ucast o1 * 58 + ucast c1 :: uint64)) AND 0x3f :: uint32) = (unat o1 * 58 + unat c1) div 2 ^ 32"
proof -
  let ?t = "ucast o1 * 58 + ucast c1 :: uint64"
  let ?n = "unat o1 * 58 + unat c1"
  have o: "unat o1 < 4294967296" and c: "unat c1 < 4294967296"
    by (simp_all add: unat_u32_less')
  have uo: "unat (ucast o1 :: uint64) = unat o1" and uc: "unat (ucast c1 :: uint64) = unat c1"
    using o c by (simp_all add: unsigned_ucast_eq take_bit_nat_eq_self)
  have t: "unat ?t = ?n"
    using assms o by (simp add: unat_word_ariths uo uc)
  have m: "(0xffffffff :: uint64) = mask 32" "(0x3f :: uint32) = mask 6"
    by (simp_all add: mask_eq_exp_minus_1)
  show "unat (ucast (?t AND 0xffffffff) :: uint32) = ?n mod 2 ^ 32"
    unfolding m take_bit_eq_mask [symmetric] unsigned_ucast_eq unsigned_take_bit_eq t
    by (simp add: take_bit_eq_mod)
  have q: "?n div 2 ^ 32 < 64" using assms o by simp
  show "unat (ucast (drop_bit 32 ?t) AND 0x3f :: uint32) = ?n div 2 ^ 32"
    unfolding m take_bit_eq_mask [symmetric] unsigned_take_bit_eq unsigned_ucast_eq unsigned_drop_bit_eq
    using q t by (simp add: take_bit_eq_mod drop_bit_eq_div)
qed

lemma unat_ucast_drop_bit: "unat (ucast (drop_bit k w) :: byte) = (unat (w :: uint32) div 2 ^ k) mod 256"
  unfolding unsigned_ucast_eq unsigned_drop_bit_eq
  by (simp add: take_bit_eq_mod [of 8] drop_bit_eq_div take_bit_nat_eq_self [OF unat_u32_less])

lemma zmask_clear: "unat (w :: uint32) < 2 ^ k \<Longrightarrow> w AND push_bit k x = 0"
proof -
  assume "unat w < 2 ^ k"
  then have "take_bit k w = w"
    by (metis take_bit_nat_eq_self unsigned_take_bit_eq unsigned_word_eqI)
  then have "w AND push_bit k x = take_bit k w AND push_bit k x" by simp
  also have "\<dots> = 0" by (rule bit_word_eqI) (auto simp: bit_simps)
  finally show ?thesis .
qed

text \<open>One digit multiplies the number by 58 and adds; what does not fit is the returned carry.\<close>

lemma dec_carry_correct:
  "unat c < 58 \<Longrightarrow> dec_carry ws c = (ws', c') \<Longrightarrow>
   length ws' = length ws \<and> unat c' < 58 \<and>
   words_val ws' + unat c' * 2 ^ (32 * length ws) = 58 * words_val ws + unat c"
proof (induction ws arbitrary: ws' c')
  case Nil
  then show ?case by simp
next
  case (Cons w ws)
  obtain os c1 where r: "dec_carry ws c = (os, c1)" by (cases "dec_carry ws c")
  with Cons have IH: "length os = length ws" "unat c1 < 58"
    "words_val os + unat c1 * 2 ^ (32 * length ws) = 58 * words_val ws + unat c" by blast+
  let ?n = "unat w * 58 + unat c1"
  let ?P = "2 ^ (32 * length ws) :: nat"
  from Cons.prems(2) r obtain o2 where ws': "ws' = o2 # os" and o2: "unat o2 = ?n mod 2 ^ 32"
    and c': "unat c' = ?n div 2 ^ 32"
    using dec_word_step [OF IH(2), of w] by (auto simp: Let_def)
  have "?n < 2 ^ 32 * 58" using IH(2) unat_u32_less [of w] by simp
  then have c'58: "unat c' < 58" unfolding c' by (intro less_mult_imp_div_less) simp
  have "words_val ws' + unat c' * 2 ^ (32 * length (w # ws))
      = (unat o2 + 2 ^ 32 * unat c') * ?P + words_val os"
    by (simp add: ws' words_val_Cons IH(1) power_add algebra_simps)
  also have "unat o2 + 2 ^ 32 * unat c' = ?n" unfolding o2 c' by simp
  also have "?n * ?P + words_val os = 58 * (unat w * ?P) + (words_val os + unat c1 * ?P)"
    by (simp add: algebra_simps)
  also have "\<dots> = 58 * words_val (w # ws) + unat c"
    by (simp only: IH(3) words_val_Cons) (simp add: algebra_simps)
  finally show ?case using ws' IH(1) c'58 by simp
qed

lemma al_digit:
  assumes "wf_alphabet al" and "d < 58"
  shows "of_char (al_encode al ! d) < (128 :: nat)" and "al_decode al ! of_char (al_encode al ! d) = int d"
  using assms by (auto simp: wf_alphabet_def list_all_iff)

lemma al_encode_inject:
  assumes "wf_alphabet al" and "d < 58" and "e < 58"
  shows "al_encode al ! d = al_encode al ! e \<longleftrightarrow> d = e"
  by (metis al_digit(2) assms of_nat_eq_iff)

text \<open>
  A string of valid digits whose number fits in \<open>8 * b\<close> bits of the first word and all the
  others decodes to that number.
\<close>

lemma dec_loop_correct:
  assumes "wf_alphabet al" and "\<And>d. d \<in> set ds \<Longrightarrow> d < 58" and "outi \<noteq> []"
    and "(words_val outi * 58 ^ length ds + digits_val 58 ds) < 2 ^ (8 * b + 32 * (length outi - 1))"
    and "b \<le> 4" and "zmask = (if b < 4 then push_bit (8 * b) x else 0)"
  shows "\<exists>outi'. dec_loop al zmask (map (\<lambda>d. al_encode al ! d) ds) outi = Inr outi'
     \<and> length outi' = length outi \<and> words_val outi' = words_val outi * 58 ^ length ds + digits_val 58 ds"
  using assms(2-4)
proof (induction ds arbitrary: outi)
  case Nil
  then show ?case by simp
next
  case (Cons d ds)
  let ?V = "58 * words_val outi + d"
  let ?L = "32 * (length outi - 1)"
  have d: "d < 58" using Cons.prems by simp
  have ud: "unat (word_of_int (int d) :: uint32) = d" using d by (simp add: unat_of_nat)
  obtain outi' c where r: "dec_carry outi (word_of_int (int d)) = (outi', c)"
    by (cases "dec_carry outi (word_of_int (int d))")
  have len: "length outi' = length outi" and v: "words_val outi' + unat c * 2 ^ (32 * length outi) = ?V"
    using dec_carry_correct [OF _ r] d ud by auto
  have all: "?V * 58 ^ length ds + digits_val 58 ds < 2 ^ (8 * b + ?L)"
    using Cons.prems(3) by (simp add: algebra_simps)
  have "?V \<le> ?V * 58 ^ length ds" by simp
  with all have fit: "?V < 2 ^ (8 * b + ?L)" by linarith
  have "8 * b + ?L \<le> 32 * length outi" using assms(5) Cons.prems(2) by (cases outi) auto
  then have "(2 :: nat) ^ (8 * b + ?L) \<le> 2 ^ (32 * length outi)" by (intro power_increasing) simp_all
  with fit have V: "?V < 2 ^ (32 * length outi)" by linarith
  have "unat c = 0"
  proof (rule ccontr)
    assume "unat c \<noteq> 0"
    then have "1 * 2 ^ (32 * length outi) \<le> unat c * 2 ^ (32 * length outi)" by (intro mult_le_mono1) simp
    with v V show False by linarith
  qed
  then have c0: "c = 0" by (simp add: unat_eq_0)
  with v have v': "words_val outi' = ?V" by simp
  obtain h t where o': "outi' = h # t" using len Cons.prems(2) by (cases outi') auto
  have lt: "length t = length outi - 1" using o' len by simp
  have "unat h * 2 ^ ?L \<le> ?V" using v' o' lt by (simp add: words_val_Cons)
  with fit have "unat h * 2 ^ ?L < 2 ^ (8 * b) * 2 ^ ?L" unfolding power_add by linarith
  then have "unat h < 2 ^ (8 * b)" by simp
  then have z: "hd outi' AND zmask = 0" using o' assms(6) zmask_clear by simp
  have "\<exists>outi''. dec_loop al zmask (map (\<lambda>d. al_encode al ! d) ds) outi' = Inr outi''
     \<and> length outi'' = length outi' \<and> words_val outi'' = words_val outi' * 58 ^ length ds + digits_val 58 ds"
    using Cons.prems(1) all v' len o' by (intro Cons.IH) auto
  with r c0 z d v' len al_digit [OF assms(1) d] show ?case by (auto simp: Let_def algebra_simps)
qed

lemma length_word_bytes [simp]: "length (word_bytes n w) = n"
  by (induction n) simp_all

lemma be_val_word_bytes: "n \<le> 4 \<Longrightarrow> be_val (word_bytes n w) = unat w mod 256 ^ n"
proof (induction n)
  case 0
  then show ?case by simp
next
  case (Suc n)
  have "be_val (word_bytes (Suc n) w) = (unat w div 2 ^ (8 * n)) mod 256 * 256 ^ n + unat w mod 256 ^ n"
    using Suc by (simp add: be_val_Cons unat_ucast_drop_bit)
  also have "(2 :: nat) ^ (8 * n) = 256 ^ n" by (simp add: power_mult)
  also have "(unat w div 256 ^ n) mod 256 * 256 ^ n + unat w mod 256 ^ n = unat w mod (256 ^ n * 256)"
    by (subst mod_mult2_eq) (simp add: mult.commute)
  finally show ?case by (simp add: mult.commute)
qed

lemma dec_bytes_4: "be_val (dec_bytes 4 ws) = words_val ws \<and> length (dec_bytes 4 ws) = 4 * length ws"
proof (induction ws)
  case Nil
  then show ?case by simp
next
  case (Cons w ws)
  have "unat w < 256 ^ 4" using unat_u32_less' [of w] by simp
  moreover have "(256 :: nat) ^ (4 * length ws) = 2 ^ (32 * length ws)" by (simp add: power_mult)
  ultimately show ?case using Cons by (simp add: be_val_append be_val_word_bytes words_val_Cons)
qed

lemma dec_bytes_correct:
  assumes "ws = w # ws'" and "b \<le> 4" and "unat w < 256 ^ b"
  shows "be_val (dec_bytes b ws) = words_val ws" and "length (dec_bytes b ws) = b + 4 * (length ws - 1)"
proof -
  have "(256 :: nat) ^ (4 * length ws') = 2 ^ (32 * length ws')" by (simp add: power_mult)
  with assms dec_bytes_4 [of ws']
  show "be_val (dec_bytes b ws) = words_val ws" by (simp add: be_val_append be_val_word_bytes words_val_Cons)
  show "length (dec_bytes b ws) = b + 4 * (length ws - 1)" using assms dec_bytes_4 [of ws'] by simp
qed

section \<open>Round trips\<close>

lemma be_val_inject: "length xs = length ys \<Longrightarrow> be_val xs = be_val ys \<longleftrightarrow> xs = ys"
proof (induction xs ys rule: list_induct2)
  case Nil
  then show ?case by simp
next
  case (Cons x xs y ys)
  have "x = y \<and> xs = ys" if e: "be_val (x # xs) = be_val (y # ys)"
  proof -
    let ?B = "256 ^ length ys :: nat"
    have bx: "be_val xs < ?B" "be_val ys < ?B" using be_val_less [of xs] be_val_less [of ys] Cons.hyps by simp_all
    have "unat x = be_val (x # xs) div ?B" using bx Cons.hyps by (simp add: be_val_Cons)
    also have "\<dots> = unat y" using bx e by (simp add: be_val_Cons)
    finally have "x = y" by (simp add: word_eq_iff_unsigned [where 'a = nat])
    with e Cons show ?thesis by (simp add: be_val_Cons)
  qed
  then show ?case by blast
qed

lemma split_leading_zeros:
  obtains r where "bin = replicate (leading_zeros bin) 0 @ r" and "r = [] \<or> hd r \<noteq> 0"
proof -
  have "takeWhile (\<lambda>b. b = 0) bin = replicate (leading_zeros bin) 0"
    unfolding leading_zeros_def by (rule replicate_eqI [symmetric, THEN sym]) (auto dest: set_takeWhileD)
  then have "bin = replicate (leading_zeros bin) 0 @ dropWhile (\<lambda>b. b = 0) bin"
    by (metis takeWhile_dropWhile_id)
  moreover have "dropWhile (\<lambda>b. b = 0) bin = [] \<or> hd (dropWhile (\<lambda>b. b = 0) bin) \<noteq> 0"
    by (induction bin) simp_all
  ultimately show thesis using that by blast
qed

lemma leading_zeros_append: "r = [] \<or> hd r \<noteq> 0 \<Longrightarrow> leading_zeros (replicate n 0 @ r) = n"
  by (induction n) (auto simp: leading_zeros_def takeWhile_eq_Nil_iff)

lemma be_val_replicate_zero [simp]: "be_val (replicate n 0 @ r) = be_val r"
  by (induction n) (simp_all add: be_val_Cons)

text \<open>A number written with enough bytes, cut down to \<open>z\<close> zeros and its significant bytes.\<close>

lemma strip_zeros_eq:
  assumes "length binu = z + k" and "be_val binu = be_val r" and "r = [] \<or> hd r \<noteq> 0"
    and "length r \<le> k" and "r = [] \<Longrightarrow> k = 0"
  shows "strip_zeros z binu = replicate z 0 @ r"
proof -
  have b: "binu = replicate (z + (k - length r)) 0 @ r"
    using assms by (subst be_val_inject [symmetric]) simp_all
  then have l: "leading_zeros binu = z + (k - length r)"
    using assms(3) by (metis leading_zeros_append)
  show ?thesis
  proof (cases "r = []")
    case True
    with b l assms(5) show ?thesis by (simp add: strip_zeros_def)
  next
    case False
    then have "leading_zeros binu < length binu" using l b by simp
    with l have "strip_zeros z binu = drop (k - length r) binu" by (simp add: strip_zeros_def)
    also have "\<dots> = replicate z 0 @ r" by (subst b) simp
    finally show ?thesis .
  qed
qed

lemma digits_of_hd: "1 < B \<Longrightarrow> digits_of B n = [] \<or> hd (digits_of B n) \<noteq> 0"
proof (induction B n rule: digits_of.induct)
  case (1 B n)
  show ?case
  proof (cases "n = 0")
    case True
    then show ?thesis by (simp add: digits_of.simps)
  next
    case False
    show ?thesis
    proof (cases "n div B = 0")
      case True
      with 1 False show ?thesis by (simp add: digits_of.simps [of B n] digits_of.simps [of B 0] div_eq_0_iff)
    next
      case 2: False
      then have "digits_of B (n div B) \<noteq> []" using 1(2) by (simp add: digits_of.simps [of B "n div B"])
      with 1 False show ?thesis by (simp add: digits_of.simps [of B n])
    qed
  qed
qed

lemma length_significant_le:
  assumes "r \<noteq> []" and "hd r \<noteq> (0 :: byte)"
  shows "length r \<le> length (digits_of 58 (be_val r))"
proof -
  let ?ds = "digits_of 58 (be_val r)"
  obtain b bs where r: "r = b # bs" using assms(1) by (cases r) auto
  have "1 * 256 ^ length bs \<le> unat b * 256 ^ length bs"
    using assms(2) r by (intro mult_le_mono1) (simp add: Suc_le_eq unat_gt_0)
  then have "256 ^ length bs \<le> be_val r" unfolding r be_val_Cons by linarith
  also have "\<dots> = digits_val 58 ?ds" by (simp add: digits_val_digits_of)
  also have "\<dots> < 58 ^ length ?ds" by (rule digits_val_less) (simp add: digits_of_less)
  also have "\<dots> \<le> 256 ^ length ?ds" by (rule power_mono) simp_all
  finally have "length bs < length ?ds" by (simp add: power_strict_increasing_iff)
  with r show ?thesis by simp
qed

lemma words_val_replicate_zero [simp]: "words_val (replicate n 0) = 0"
  by (simp add: words_val_def)

lemma takeWhile_zero_digits:
  assumes "wf_alphabet al" and "\<And>d. d \<in> set ds \<Longrightarrow> d < 58" and "ds = [] \<or> hd ds \<noteq> 0"
  shows "length (takeWhile (\<lambda>c. c = al_encode al ! 0) (replicate z (al_encode al ! 0) @ map (\<lambda>d. al_encode al ! d) ds)) = z"
proof -
  have "takeWhile (\<lambda>c. c = al_encode al ! 0) (map (\<lambda>d. al_encode al ! d) ds) = []"
    using assms al_encode_inject [OF assms(1), of "hd ds" 0] by (cases ds) auto
  then show ?thesis by (induction z) simp_all
qed

lemma chunk_sizes:
  assumes "0 < (n :: nat)"
  shows "n = (if n mod 4 > 0 then n mod 4 else 4) + 4 * ((n + 3) div 4 - 1)"
proof -
  define q r where "q = n div 4" and "r = n mod 4"
  have n: "n = 4 * q + r" and r: "r < 4" by (simp_all add: q_def r_def)
  show ?thesis
  proof (cases "r = 0")
    case True
    with n assms show ?thesis by (cases q) simp_all
  next
    case False
    with n r have "(n + 3) div 4 = q + 1" by simp
    with n False r_def show ?thesis by simp
  qed
qed

lemma FastBase58Decoding_digits:
  assumes "wf_alphabet al" and "\<And>d. d \<in> set ds \<Longrightarrow> d < 58" and "ds = [] \<or> hd ds \<noteq> 0" and "0 < z + length ds"
  shows "\<exists>binu. FastBase58DecodingAlphabet (replicate z (al_encode al ! 0) @ map (\<lambda>d. al_encode al ! d) ds) al
       = Inr (strip_zeros z binu) \<and> length binu = z + length ds \<and> be_val binu = digits_val 58 ds"
proof -
  let ?all = "replicate z 0 @ ds"
  let ?sz = "z + length ds"
  let ?outisz = "(?sz + 3) div 4"
  let ?b = "if ?sz mod 4 > 0 then ?sz mod 4 else 4"
  let ?x = "0xffffffff :: uint32"
  let ?zmask = "if ?sz mod 4 > 0 then push_bit (8 * (?sz mod 4)) ?x else 0"
  have str: "replicate z (al_encode al ! 0) @ map (\<lambda>d. al_encode al ! d) ds = map (\<lambda>d. al_encode al ! d) ?all"
    by simp
  have b4: "?b \<le> 4" and b0: "0 < ?b" by (simp_all add: less_imp_le)
  have sz: "?sz = ?b + 4 * (?outisz - 1)" by (rule chunk_sizes [OF assms(4)])
  have out: "0 < ?outisz" using assms(4) by linarith
  have zm: "?zmask = (if ?b < 4 then push_bit (8 * ?b) ?x else 0)" by simp
  have dv: "digits_val 58 ?all = digits_val 58 ds" by (induction z) simp_all
  have bits: "8 * ?b + 32 * (?outisz - 1) = 8 * ?sz"
    using arg_cong [OF sz, of "\<lambda>n. 8 * n"] by (simp only: distrib_left mult.assoc [symmetric])
  have "digits_val 58 ?all < 58 ^ length ?all" using assms(2) by (intro digits_val_less) auto
  also have "\<dots> \<le> 256 ^ ?sz" by (simp add: power_mono)
  also have "(256 :: nat) ^ ?sz = 2 ^ (8 * ?sz)" by (simp only: power_mult) simp
  finally have fit: "digits_val 58 ?all < 2 ^ (8 * ?b + 32 * (?outisz - 1))" unfolding bits .
  have fit': "words_val (replicate ?outisz 0) * 58 ^ length ?all + digits_val 58 ?all
      < 2 ^ (8 * ?b + 32 * (length (replicate ?outisz (0 :: uint32)) - 1))"
    using fit unfolding words_val_replicate_zero length_replicate mult_zero_left add_0 .
  have dig: "d < 58" if "d \<in> set ?all" for d using that assms(2) by auto
  have ne: "replicate ?outisz (0 :: uint32) \<noteq> []" using out by (simp only: replicate_empty)
  obtain outi where o: "dec_loop al ?zmask (map (\<lambda>d. al_encode al ! d) ?all) (replicate ?outisz 0) = Inr outi"
    "length outi = ?outisz" "words_val outi = digits_val 58 ds"
    using dec_loop_correct [OF assms(1) dig ne fit' b4 zm] unfolding words_val_replicate_zero dv by auto
  obtain w ws where ow: "outi = w # ws" using o(2) out by (cases outi) auto
  have "unat w * 2 ^ (32 * length ws) \<le> words_val outi" by (simp add: ow words_val_Cons)
  also have "\<dots> < 2 ^ (8 * ?b + 32 * (?outisz - 1))" using fit o(3) unfolding dv by (simp only:)
  also have "?outisz - 1 = length ws" using o(2) ow by simp
  also have "2 ^ (8 * ?b + 32 * length ws) = (256 :: nat) ^ ?b * 2 ^ (32 * length ws)"
    by (simp only: power_add power_mult) simp
  finally have "unat w * 2 ^ (32 * length ws) < 256 ^ ?b * 2 ^ (32 * length ws)" .
  then have "unat w < 256 ^ ?b" by (simp only: mult_less_cancel2)
  note db = dec_bytes_correct [OF ow b4 this]
  have "FastBase58DecodingAlphabet (replicate z (al_encode al ! 0) @ map (\<lambda>d. al_encode al ! d) ds) al
      = Inr (strip_zeros z (dec_bytes ?b outi))"
  proof -
    let ?s = "replicate z (al_encode al ! 0) @ map (\<lambda>d. al_encode al ! d) ds"
    have ls: "length ?s = ?sz" by simp
    have tw: "length (takeWhile (\<lambda>c. c = al_encode al ! 0) ?s) = z"
      using assms(1,2,3) by (rule takeWhile_zero_digits)
    have dl: "dec_loop al ?zmask ?s (replicate ?outisz 0) = Inr outi" unfolding str by (rule o(1))
    have "?sz \<noteq> 0" using assms(4) by simp
    then show ?thesis unfolding FastBase58DecodingAlphabet_def Let_def ls tw dl by (simp only: if_False sum.case)
  qed
  moreover have "length (dec_bytes ?b outi) = ?sz" unfolding db(2) o(2) by (rule sz [symmetric])
  moreover have "be_val (dec_bytes ?b outi) = digits_val 58 ds" unfolding db(1) by (rule o(3))
  ultimately show ?thesis by blast
qed

lemma Fast_roundtrip:
  assumes "wf_alphabet al" and "bin \<noteq> []"
  shows "\<exists>s. FastBase58EncodingAlphabet bin al = Inr s \<and> FastBase58DecodingAlphabet s al = Inr bin"
proof -
  let ?z = "leading_zeros bin"
  obtain r where bin: "bin = replicate ?z 0 @ r" and r: "r = [] \<or> hd r \<noteq> 0"
    by (rule split_leading_zeros)
  let ?ds = "digits_of 58 (be_val bin)"
  have bv: "be_val bin = be_val r" by (subst bin) simp
  have ds: "?ds = [] \<or> hd ?ds \<noteq> 0" by (rule digits_of_hd) simp
  have le: "length r \<le> length ?ds" "r = [] \<Longrightarrow> length ?ds = 0"
    using length_significant_le [of r] r unfolding bv by (cases r; simp add: digits_of.simps [of 58 0])+
  have pos: "0 < ?z + length ?ds" 
  proof (cases "r = []")
    case True
    with bin assms(2) show ?thesis by (cases ?z) simp_all
  next
    case False
    then have "0 < length r" by simp
    with le(1) show ?thesis by linarith
  qed
  obtain binu where b: "FastBase58DecodingAlphabet
      (replicate ?z (al_encode al ! 0) @ map (\<lambda>d. al_encode al ! d) ?ds) al = Inr (strip_zeros ?z binu)"
      "length binu = ?z + length ?ds" "be_val binu = digits_val 58 ?ds"
    using FastBase58Decoding_digits [OF assms(1) _ ds pos] digits_of_less [of 58] by auto
  have "strip_zeros ?z binu = replicate ?z 0 @ r"
    by (rule strip_zeros_eq [OF b(2) _ r le]) (use b(3) bv in \<open>simp add: digits_val_digits_of\<close>)
  with b bin show ?thesis by (simp add: FastBase58Encoding_eq)
qed

text \<open>The encoder as a total function, and the codec interface on non-empty byte strings.\<close>

definition b58_text :: "bytes \<Rightarrow> string" where
  "b58_text bin = (case Base58_Encode bin of Inl _ \<Rightarrow> [] | Inr s \<Rightarrow> s)"

definition b58_bytes :: "string \<Rightarrow> bytes option" where
  "b58_bytes s = (case FastBase58DecodingAlphabet s BTCAlphabet of Inl _ \<Rightarrow> None | Inr bin \<Rightarrow> Some bin)"

lemma Base58_Encode_b58_text: "Base58_Encode bin = Inr (b58_text bin)"
  by (simp add: b58_text_def Base58_Encode_def FastBase58Encoding_eq)

interpretation b58: codec b58_text b58_bytes "\<lambda>bin. bin \<noteq> []"
proof
  fix bin :: bytes
  assume "bin \<noteq> []"
  from Fast_roundtrip [OF wf_BTCAlphabet this]
  show "b58_bytes (b58_text bin) = Some bin"
    by (auto simp: b58_bytes_def b58_text_def Base58_Encode_def)
qed

lemma Base58_Decode_b58_text: "bin \<noteq> [] \<Longrightarrow> Base58_Decode (b58_text bin) = bin"
  using b58.dec_enc [of bin] by (auto simp: b58_bytes_def Base58_Decode_def split: sum.splits)

text \<open>The base58check text of a payload, as a total function.\<close>

definition b58check_text :: "(bytes \<Rightarrow> bytes) \<Rightarrow> bytes \<Rightarrow> byte \<Rightarrow> string" where
  "b58check_text sum256 input version =
     b58_text (version # input @ ChecksumFirst4Bytes sum256 (version # input))"

lemma Base58Check_Encode_eq: "Base58Check_Encode sum256 input version = Inr (b58check_text sum256 input version)"
  by (simp add: Base58Check_Encode_def b58check_text_def Base58_Encode_b58_text Let_def)

lemma Base58Check_Decode_text:
  assumes "digest32 sum256"
  shows "Base58Check_Decode sum256 (b58check_text sum256 input version) = Inr (input, version)"
proof -
  let ?ck = "ChecksumFirst4Bytes sum256 (version # input)"
  have "length ?ck = 4"
    using assms by (simp add: ChecksumFirst4Bytes_def HashB_def digest32_def HashSize_def)
  then show ?thesis
    by (simp add: Base58Check_Decode_def b58check_text_def Base58_Decode_b58_text)
qed

lemma b58check_text_inject:
  assumes "digest32 sum256"
  shows "b58check_text sum256 i v = b58check_text sum256 i' v' \<longleftrightarrow> i = i' \<and> v = v'"
  by (metis Base58Check_Decode_text [OF assms] sum.inject(2) prod.inject)

section \<open>Properties\<close>

text \<open>C22: the optimised encoder agrees with the reference one. For every byte string and every
  alphabet, \<open>FastBase58EncodingAlphabet\<close> (digit buffer, high-water mark) and
  \<open>TrivialBase58EncodingAlphabet\<close> (big integer division) both return, without an index out of
  range, and return the same text.
\<close>

theorem base58_fast_equals_trivial:
  "\<exists>s. FastBase58EncodingAlphabet bin al = Inr s \<and> TrivialBase58EncodingAlphabet bin al = Inr s"
  by (simp add: TrivialBase58Encoding_eq FastBase58Encoding_eq)

text \<open>
  base58 round trip. Decoding the text \<open>Base58.Encode\<close> gives for a non-empty byte string
  returns that byte string, leading zero bytes included; the 32-bit word arithmetic of the decoder
  neither overflows nor loses a byte, whatever the length.
\<close>

theorem base58_roundtrip:
  assumes "bin \<noteq> []"
  shows "\<exists>s. Base58_Encode bin = Inr s \<and> FastBase58DecodingAlphabet s BTCAlphabet = Inr bin \<and> Base58_Decode s = bin"
  using Fast_roundtrip [OF wf_BTCAlphabet assms] by (auto simp: Base58_Encode_def Base58_Decode_def)

theorem base58_roundtrip_witness:
  "\<exists>s. Base58_Encode [0, 0, 7] = Inr s \<and> FastBase58DecodingAlphabet s BTCAlphabet = Inr [0, 0, 7] \<and> Base58_Decode s = [0, 0, 7]"
  by (rule base58_roundtrip) simp

text \<open>C23: base58check round trip. For every payload (the empty one included) and version byte,
  \<open>Base58Check.Decode\<close> of \<open>Base58Check.Encode\<close> returns both, and the checksum test passes.
\<close>

theorem base58check_roundtrip:
  assumes "digest32 sum256"
  shows "\<exists>s. Base58Check_Encode sum256 input version = Inr s \<and> Base58Check_Decode sum256 s = Inr (input, version)"
  using Base58Check_Encode_eq Base58Check_Decode_text [OF assms] by blast

theorem base58check_roundtrip_witness:
  "\<exists>s. Base58Check_Encode (\<lambda>_. replicate 32 0) [5] 1 = Inr s \<and> Base58Check_Decode (\<lambda>_. replicate 32 0) s = Inr ([5], 1)"
  by (rule base58check_roundtrip) (simp add: digest32_def HashSize_def)

end
