(* ===== verification/Block_Types.thy ===== *)
theory Block_Types
  imports Hash_Type
begin

text \<open>
  The block structures of \<open>src/blockchain\<close> (\<open>shardheader.go\<close>, \<open>beaconblock.go\<close>, \<open>shardblock.go\<close>,
  \<open>shardbody.go\<close>) and the payment address of \<open>src/privacy/key.go\<close>, with the header text and
  header hash that identify a block. The transactions of a shard block are a type parameter:
  nothing here looks inside them.
\<close>

section \<open>Addresses and headers\<close>

record PaymentAddress =
  pa_Pk :: bytes
  pa_Tk :: bytes

definition CompressedPointSize :: nat where "CompressedPointSize = 33"

definition PaymentAddress_Bytes :: "PaymentAddress \<Rightarrow> bytes" where
  "PaymentAddress_Bytes addr = pa_Pk addr @ pa_Tk addr"

definition PaymentAddress_SetBytes :: "bytes \<Rightarrow> fault + PaymentAddress" where
  "PaymentAddress_SetBytes bs =
     (if length bs < CompressedPointSize then Inl IndexOutOfRange
      else Inr \<lparr>pa_Pk = take CompressedPointSize bs, pa_Tk = drop CompressedPointSize bs\<rparr>)"

definition PaymentAddress_Size :: "PaymentAddress \<Rightarrow> nat" where
  "PaymentAddress_Size addr = length (pa_Pk addr) + length (pa_Tk addr)"

definition PaymentAddress_String :: "PaymentAddress \<Rightarrow> string" where
  "PaymentAddress_String addr = hex_encode (PaymentAddress_Bytes addr)"

record ShardHeader =
  sh_ProducerAddress :: PaymentAddress
  sh_ShardID :: byte
  sh_Version :: int
  sh_PrevBlockHash :: hash
  sh_Height :: uint64
  sh_Round :: int
  sh_Epoch :: uint64
  sh_Timestamp :: int
  sh_TxRoot :: hash
  sh_ShardTxRoot :: hash
  sh_CrossTransactionRoot :: hash
  sh_InstructionsRoot :: hash
  sh_CommitteeRoot :: hash
  sh_PendingValidatorRoot :: hash
  sh_CrossShards :: bytes
  sh_BeaconHeight :: uint64
  sh_BeaconHash :: hash

record BeaconHeader =
  bh_ProducerAddress :: PaymentAddress
  bh_Version :: int
  bh_Height :: uint64
  bh_Epoch :: uint64
  bh_Round :: int
  bh_Timestamp :: int
  bh_PrevBlockHash :: hash
  bh_ValidatorsRoot :: hash
  bh_BeaconCandidateRoot :: hash
  bh_ShardCandidateRoot :: hash
  bh_ShardValidatorsRoot :: hash
  bh_ShardStateHash :: hash
  bh_InstructionHash :: hash

text \<open>Go's conversion \<open>string(b)\<close> of a byte: the UTF-8 text of the code point.\<close>

definition string_of_rune :: "byte \<Rightarrow> string" where
  "string_of_rune b = (let v = unat b in
     if v < 128 then [char_of v] else [char_of (192 + v div 64), char_of (128 + v mod 64)])"

definition ShardHeader_String :: "ShardHeader \<Rightarrow> string" where
  "ShardHeader_String h =
     PaymentAddress_String (sh_ProducerAddress h)
     @ string_of_rune (sh_ShardID h)
     @ itoa (sh_Version h)
     @ Hash_String (sh_PrevBlockHash h)
     @ decimal (unat (sh_Height h))
     @ itoa (sh_Round h)
     @ decimal (unat (sh_Epoch h))
     @ itoa (sh_Timestamp h)
     @ Hash_String (sh_TxRoot h)
     @ Hash_String (sh_ShardTxRoot h)
     @ Hash_String (sh_CrossTransactionRoot h)
     @ Hash_String (sh_InstructionsRoot h)
     @ Hash_String (sh_CommitteeRoot h)
     @ Hash_String (sh_PendingValidatorRoot h)
     @ Hash_String (sh_BeaconHash h)
     @ decimal (unat (sh_BeaconHeight h))
     @ concat (map string_of_rune (sh_CrossShards h))"

definition ShardHeader_Hash :: "(bytes \<Rightarrow> bytes) \<Rightarrow> ShardHeader \<Rightarrow> hash" where
  "ShardHeader_Hash sum256 h = HashH sum256 (bytes_of_string (ShardHeader_String h))"

definition BeaconHeader_toString :: "BeaconHeader \<Rightarrow> string" where
  "BeaconHeader_toString h =
     PaymentAddress_String (bh_ProducerAddress h)
     @ itoa (bh_Version h)
     @ decimal (unat (bh_Height h))
     @ decimal (unat (bh_Epoch h))
     @ itoa (bh_Round h)
     @ itoa (bh_Timestamp h)
     @ Hash_String (bh_PrevBlockHash h)
     @ Hash_String (bh_ValidatorsRoot h)
     @ Hash_String (bh_BeaconCandidateRoot h)
     @ Hash_String (bh_ShardCandidateRoot h)
     @ Hash_String (bh_ShardValidatorsRoot h)
     @ Hash_String (bh_ShardStateHash h)
     @ Hash_String (bh_InstructionHash h)"

definition BeaconHeader_Hash :: "(bytes \<Rightarrow> bytes) \<Rightarrow> BeaconHeader \<Rightarrow> hash" where
  "BeaconHeader_Hash sum256 h = HashH sum256 (bytes_of_string (BeaconHeader_toString h))"

section \<open>Blocks\<close>

record ShardState =
  ss_Height :: uint64
  ss_Hash :: hash
  ss_CrossShard :: bytes

type_synonym instruction = "string list"

record BeaconBody =
  bb_ShardState :: "(byte, ShardState list) fmap"
  bb_Instructions :: "instruction list"

record BeaconBlock =
  bk_AggregatedSig :: string
  bk_R :: string
  bk_ValidatorsIdx :: "nat list list"
  bk_ProducerSig :: string
  bk_Body :: BeaconBody
  bk_Header :: BeaconHeader

definition BeaconBlock_Hash :: "(bytes \<Rightarrow> bytes) \<Rightarrow> BeaconBlock \<Rightarrow> hash" where
  "BeaconBlock_Hash sum256 b = BeaconHeader_Hash sum256 (bk_Header b)"

record 'body ShardBlock =
  sb_AggregatedSig :: string
  sb_R :: string
  sb_ValidatorsIdx :: "nat list list"
  sb_ProducerSig :: string
  sb_Body :: 'body
  sb_Header :: ShardHeader

definition ShardBlock_Hash :: "(bytes \<Rightarrow> bytes) \<Rightarrow> 'body ShardBlock \<Rightarrow> hash" where
  "ShardBlock_Hash sum256 b = ShardHeader_Hash sum256 (sb_Header b)"

record ShardToBeaconBlock =
  stb_AggregatedSig :: string
  stb_R :: string
  stb_ValidatorsIdx :: "nat list list"
  stb_ProducerSig :: string
  stb_Instructions :: "instruction list"
  stb_Header :: ShardHeader

definition ShardToBeaconBlock_Hash :: "(bytes \<Rightarrow> bytes) \<Rightarrow> ShardToBeaconBlock \<Rightarrow> hash" where
  "ShardToBeaconBlock_Hash sum256 b = ShardHeader_Hash sum256 (stb_Header b)"

text \<open>The cross-shard payload: output coins, token data, privacy token data.\<close>

record ('coin, 'token, 'ptoken) CrossShardBlock =
  csb_AggregatedSig :: string
  csb_R :: string
  csb_ValidatorsIdx :: "nat list list"
  csb_ProducerSig :: string
  csb_Header :: ShardHeader
  csb_ToShardID :: byte
  csb_MerklePathShard :: "hash list"
  csb_CrossOutputCoin :: "'coin list"
  csb_CrossTxTokenData :: "'token list"
  csb_CrossTxTokenPrivacyData :: "'ptoken list"

definition CrossShardBlock_Hash :: "(bytes \<Rightarrow> bytes) \<Rightarrow> ('coin, 'token, 'ptoken) CrossShardBlock \<Rightarrow> hash" where
  "CrossShardBlock_Hash sum256 b = ShardHeader_Hash sum256 (csb_Header b)"

section \<open>Facts\<close>

lemma PaymentAddress_SetBytes_Bytes:
  "length (pa_Pk a) = CompressedPointSize \<Longrightarrow> PaymentAddress_SetBytes (PaymentAddress_Bytes a) = Inr a"
  by (cases a) (simp add: PaymentAddress_SetBytes_def PaymentAddress_Bytes_def)

lemma length_PaymentAddress_String: "length (PaymentAddress_String a) = 2 * PaymentAddress_Size a"
  by (simp add: PaymentAddress_String_def PaymentAddress_Bytes_def PaymentAddress_Size_def)

lemma wf_BeaconHeader_Hash: "digest32 sum256 \<Longrightarrow> wf_hash (BeaconHeader_Hash sum256 h)"
  by (simp add: BeaconHeader_Hash_def wf_hash_HashH)

lemma wf_ShardHeader_Hash: "digest32 sum256 \<Longrightarrow> wf_hash (ShardHeader_Hash sum256 h)"
  by (simp add: ShardHeader_Hash_def wf_hash_HashH)

section \<open>Example blocks\<close>

text \<open>A constant digest and a beacon block, used where a statement is applied to concrete values.\<close>

definition ex_sum256 :: "bytes \<Rightarrow> bytes" where
  "ex_sum256 bs = replicate 32 1"

definition ex_beacon_block :: "uint64 \<Rightarrow> BeaconBlock" where
  "ex_beacon_block h =
     \<lparr>bk_AggregatedSig = '''', bk_R = '''', bk_ValidatorsIdx = [], bk_ProducerSig = '''',
      bk_Body = \<lparr>bb_ShardState = fmempty, bb_Instructions = []\<rparr>,
      bk_Header = \<lparr>bh_ProducerAddress = \<lparr>pa_Pk = [], pa_Tk = []\<rparr>, bh_Version = 1, bh_Height = h,
        bh_Epoch = 1, bh_Round = 1, bh_Timestamp = 0, bh_PrevBlockHash = replicate 32 1,
        bh_ValidatorsRoot = zero_hash, bh_BeaconCandidateRoot = zero_hash, bh_ShardCandidateRoot = zero_hash,
        bh_ShardValidatorsRoot = zero_hash, bh_ShardStateHash = zero_hash, bh_InstructionHash = zero_hash\<rparr>\<rparr>"

lemma ex_beacon_hash: "BeaconHeader_Hash ex_sum256 h = replicate 32 1"
  by (simp add: BeaconHeader_Hash_def HashH_def ex_sum256_def)

lemma ex_beacon_block_sel [simp]:
  "bh_Height (bk_Header (ex_beacon_block h)) = h" "bh_PrevBlockHash (bk_Header (ex_beacon_block h)) = replicate 32 1"
  by (simp_all add: ex_beacon_block_def)

end
