(* ===== verification/Chain_Pool.thy ===== *)
theory Chain_Pool
  imports Block_Types
begin

text \<open>
  What the beacon pool and the shard pool have in common. Their valid pools are meant to be
  handed to the block inserter in order, so they must form a chain: consecutive heights, each
  block naming the hash of the one before (\<open>linked\<close>). The locale \<open>chain_pool\<close> is the contract
  the readers of a pool rely on; each pool interprets it with its own invariant. The LRU cache
  comes from \<open>github.com/hashicorp/golang-lru\<close> and is a parameter: \<open>Get\<close> moves the entry to the
  front (so it returns a new cache), \<open>Add\<close> inserts and may evict.
\<close>

section \<open>The cache\<close>

record ('c, 'v) lru =
  lru_get :: "'c \<Rightarrow> hash \<Rightarrow> 'c \<times> 'v option"
  lru_add :: "'c \<Rightarrow> hash \<Rightarrow> 'v \<Rightarrow> 'c"

text \<open>Documented behaviour: \<open>Get\<close> changes no entry, and an entry just added can be read back.\<close>

definition lru_spec :: "('c, 'v) lru \<Rightarrow> bool" where
  "lru_spec L \<longleftrightarrow>
     (\<forall>c k k'. snd (lru_get L (fst (lru_get L c k)) k') = snd (lru_get L c k')) \<and>
     (\<forall>c k v. snd (lru_get L (lru_add L c k v) k) = Some v)"

lemma lru_stable: "lru_spec L \<Longrightarrow> lru_get L c k = (c', r) \<Longrightarrow> snd (lru_get L c' k') = snd (lru_get L c k')"
  unfolding lru_spec_def by (metis fst_conv)

datatype pool_error = OldBlockError | DuplicateBlockError | MaxPoolSizeError

section \<open>Chains\<close>

fun linked :: "('b \<Rightarrow> uint64) \<Rightarrow> ('b \<Rightarrow> hash) \<Rightarrow> ('b \<Rightarrow> hash) \<Rightarrow> 'b list \<Rightarrow> bool" where
  "linked ht hs prev (a # b # bs) = (ht b = ht a + 1 \<and> prev b = hs a \<and> linked ht hs prev (b # bs))"
| "linked ht hs prev bs = True"

text \<open>\<open>GetBlockByHeight\<close> scans the valid pool and then the pending pool.\<close>

definition find_height :: "('b \<Rightarrow> uint64) \<Rightarrow> 'b list \<Rightarrow> uint64 \<Rightarrow> 'b option" where
  "find_height ht bs h = List.find (\<lambda>b. ht b = h) bs"

lemma word_less_nowrap: "a + 1 \<noteq> (0 :: uint64) \<Longrightarrow> a < a + 1"
  using unatSuc [of a] by (simp add: word_less_nat_alt add.commute)

lemma sorted_le_last: "sorted xs \<Longrightarrow> x \<in> set xs \<Longrightarrow> x \<le> last xs"
  by (induction xs) auto

lemma find_distinct: "distinct (map f xs) \<Longrightarrow> x \<in> set xs \<Longrightarrow> List.find (\<lambda>y. f y = f x) xs = Some x"
  by (induction xs) (auto simp: image_iff)

lemma linked_Cons: "linked ht hs prev (a # bs) \<Longrightarrow> linked ht hs prev bs"
  by (cases bs) simp_all

lemma linked_snoc:
  "linked ht hs prev bs \<Longrightarrow> (bs \<noteq> [] \<Longrightarrow> ht b = ht (last bs) + 1 \<and> prev b = hs (last bs))
   \<Longrightarrow> linked ht hs prev (bs @ [b])"
  by (induction ht hs prev bs rule: linked.induct) auto

lemma linked_append2: "linked ht hs prev (as @ bs) \<Longrightarrow> linked ht hs prev bs"
proof (induction as)
  case (Cons a as)
  then show ?case by (metis append_Cons linked_Cons)
qed simp

lemma linked_append1: "linked ht hs prev (as @ bs) \<Longrightarrow> linked ht hs prev as"
  by (induction ht hs prev as rule: linked.induct) auto

lemma linked_drop: "linked ht hs prev bs \<Longrightarrow> linked ht hs prev (drop n bs)"
  by (metis append_take_drop_id linked_append2)

lemma linked_dropWhile: "linked ht hs prev bs \<Longrightarrow> linked ht hs prev (dropWhile P bs)"
  by (metis linked_append2 takeWhile_dropWhile_id)

lemma linked_butlast: "linked ht hs prev bs \<Longrightarrow> linked ht hs prev (butlast bs)"
  by (metis append_butlast_last_id butlast.simps(1) linked_append1)

lemma linked_nth: "linked ht hs prev bs \<Longrightarrow> i < length bs \<Longrightarrow> ht (bs ! i) = ht (hd bs) + of_nat i"
proof (induction i arbitrary: bs)
  case 0
  then show ?case by (cases bs) simp_all
next
  case (Suc i)
  then obtain a b cs where bs: "bs = a # b # cs" by (cases bs rule: remdups_adj.cases) auto
  with Suc show ?case by (auto simp: algebra_simps)
qed

lemma linked_prev: "linked ht hs prev bs \<Longrightarrow> Suc i < length bs \<Longrightarrow> prev (bs ! Suc i) = hs (bs ! i)"
proof (induction i arbitrary: bs)
  case 0
  then obtain a b cs where "bs = a # b # cs" by (cases bs rule: remdups_adj.cases) auto
  with 0 show ?case by simp
next
  case (Suc i)
  then obtain a b cs where bs: "bs = a # b # cs" by (cases bs rule: remdups_adj.cases) auto
  show ?case using Suc.IH [of "b # cs"] Suc.prems bs by simp
qed

text \<open>Heights do not wrap around in a chain without a block of height 0: they increase strictly.\<close>

lemma linked_increasing:
  "linked ht hs prev bs \<Longrightarrow> (\<And>b. b \<in> set bs \<Longrightarrow> ht b \<noteq> 0) \<Longrightarrow> sorted_wrt (\<lambda>a b. ht a < ht b) bs"
proof (induction ht hs prev bs rule: linked.induct)
  case (1 ht hs prev a b bs)
  have "ht a < ht b" using 1(2) 1(3) [of b] by (simp add: word_less_nowrap)
  with 1 show ?case by auto
qed simp_all

lemma find_height_range_values:
  assumes keys: "fmpred (\<lambda>k b. ht b = k) m" and order: "iteration_order m order"
  shows "find_height ht (range_values m order) h = fmlookup m h"
proof (cases "find_height ht (range_values m order) h")
  case None
  then have "\<nexists>b. b \<in> set (range_values m order) \<and> ht b = h" by (simp add: find_height_def find_None_iff)
  then have "fmlookup m h = None"
    using fmpredD [OF keys] unfolding set_range_values [OF order] by (cases "fmlookup m h") auto
  with None show ?thesis by simp
next
  case (Some b)
  then have "b \<in> set (range_values m order)" "ht b = h" by (auto simp: find_height_def find_Some_iff)
  with Some show ?thesis using fmpredD [OF keys] unfolding set_range_values [OF order] by auto
qed

section \<open>The contract of a chain pool\<close>

locale chain_pool =
  fixes valid :: "'p \<Rightarrow> 'b list"
    and latest :: "'p \<Rightarrow> uint64"
    and ht :: "'b \<Rightarrow> uint64"
    and hs :: "'b \<Rightarrow> hash"
    and prev :: "'b \<Rightarrow> hash"
    and inv :: "'p \<Rightarrow> bool"
  assumes inv_linked: "inv p \<Longrightarrow> linked ht hs prev (valid p)"
    and inv_nonzero: "inv p \<Longrightarrow> b \<in> set (valid p) \<Longrightarrow> ht b \<noteq> 0"
    and inv_latest: "inv p \<Longrightarrow> valid p \<noteq> [] \<Longrightarrow> latest p = ht (last (valid p))"
begin

lemma heights_consecutive:
  "inv p \<Longrightarrow> map ht (valid p) = map (\<lambda>i. ht (hd (valid p)) + of_nat i) [0..<length (valid p)]"
  by (rule nth_equalityI) (simp_all add: linked_nth [OF inv_linked])

lemma prev_hash:
  "inv p \<Longrightarrow> Suc i < length (valid p) \<Longrightarrow> prev (valid p ! Suc i) = hs (valid p ! i)"
  by (rule linked_prev [OF inv_linked])

lemma heights_increasing: "inv p \<Longrightarrow> sorted_wrt (<) (map ht (valid p))"
  using linked_increasing [OF inv_linked] inv_nonzero by (metis sorted_wrt_map)

lemma heights_distinct: "inv p \<Longrightarrow> distinct (map ht (valid p))"
  using heights_increasing strict_sorted_iff by blast

lemma latest_is_first_plus:
  assumes "inv p" and "valid p \<noteq> []"
  shows "latest p = ht (hd (valid p)) + of_nat (length (valid p) - 1)"
  using linked_nth [OF inv_linked [OF assms(1)], of "length (valid p) - 1"] assms
  by (simp add: inv_latest last_conv_nth)

lemma height_le_latest:
  assumes "inv p" and "b \<in> set (valid p)"
  shows "ht b \<le> latest p"
proof -
  have ne: "valid p \<noteq> []" using assms(2) by auto
  have "sorted (map ht (valid p))"
    using heights_increasing [OF assms(1)] strict_sorted_iff by blast
  then have "ht b \<le> last (map ht (valid p))"
    using assms(2) by (intro sorted_le_last) simp_all
  then show ?thesis using ne by (simp add: inv_latest [OF assms(1) ne] last_map)
qed

text \<open>Looking a block of the valid pool up by its height finds that block.\<close>

lemma find_height_valid:
  assumes "inv p" and "b \<in> set (valid p)"
  shows "find_height ht (valid p) (ht b) = Some b"
  unfolding find_height_def by (rule find_distinct [OF heights_distinct [OF assms(1)] assms(2)])

end

end
