(* ===== verification/Beacon_Pool.thy ===== *)
theory Beacon_Pool
  imports Chain_Pool
begin

text \<open>
  \<open>src/mempool/beacon_pool.go\<close>: the pool of beacon blocks waiting to be inserted into the
  chain. A block enters the valid pool only when its successor is already pending and names its
  hash. Parameters: \<open>sum256\<close> (the digest of the header hash), the LRU cache operations \<open>L\<close>, and
  \<open>best\<close>, the height of the node's beacon best state at the time of the call.
\<close>

section \<open>State\<close>

record BeaconPoolConfig =
  bpc_MaxValidBlock :: nat
  bpc_MaxPendingBlock :: nat
  bpc_CacheSize :: nat

record 'c BeaconPool =
  bp_validPool :: "BeaconBlock list"
  bp_pendingPool :: "(uint64, BeaconBlock) fmap"
  bp_conflictedPool :: "(hash, BeaconBlock) fmap"
  bp_latestValidHeight :: uint64
  bp_config :: BeaconPoolConfig
  bp_cache :: 'c

definition MAX_VALID_BEACON_BLK_IN_POOL :: nat where "MAX_VALID_BEACON_BLK_IN_POOL = 10000"
definition MAX_PENDING_BEACON_BLK_IN_POOL :: nat where "MAX_PENDING_BEACON_BLK_IN_POOL = 10000"
definition BEACON_CACHE_SIZE :: nat where "BEACON_CACHE_SIZE = 2000"

abbreviation bht :: "BeaconBlock \<Rightarrow> uint64" where "bht b \<equiv> bh_Height (bk_Header b)"
abbreviation bprev :: "BeaconBlock \<Rightarrow> hash" where "bprev b \<equiv> bh_PrevBlockHash (bk_Header b)"
abbreviation bhash :: "(bytes \<Rightarrow> bytes) \<Rightarrow> BeaconBlock \<Rightarrow> hash" where
  "bhash sum256 b \<equiv> BeaconHeader_Hash sum256 (bk_Header b)"

text \<open>\<open>GetBeaconPool\<close> on its first call; \<open>lru_new\<close> is the constructor of the cache.\<close>

definition newBeaconPool :: "(nat \<Rightarrow> 'c) \<Rightarrow> 'c BeaconPool" where
  "newBeaconPool lru_new =
     \<lparr>bp_validPool = [], bp_pendingPool = fmempty, bp_conflictedPool = fmempty,
      bp_latestValidHeight = 1,
      bp_config = \<lparr>bpc_MaxValidBlock = MAX_VALID_BEACON_BLK_IN_POOL,
                   bpc_MaxPendingBlock = MAX_PENDING_BEACON_BLK_IN_POOL,
                   bpc_CacheSize = BEACON_CACHE_SIZE\<rparr>,
      bp_cache = lru_new BEACON_CACHE_SIZE\<rparr>"

section \<open>Operations\<close>

definition SetBeaconState :: "uint64 \<Rightarrow> 'c BeaconPool \<Rightarrow> 'c BeaconPool" where
  "SetBeaconState h p = (if bp_latestValidHeight p < h then p\<lparr>bp_latestValidHeight := h\<rparr> else p)"

definition InitBeaconPool :: "(nat \<Rightarrow> 'c) \<Rightarrow> uint64 \<Rightarrow> 'c BeaconPool" where
  "InitBeaconPool lru_new best = SetBeaconState best (newBeaconPool lru_new)"

definition validateBeaconBlock ::
  "(bytes \<Rightarrow> bytes) \<Rightarrow> ('c, BeaconBlock) lru \<Rightarrow> BeaconBlock \<Rightarrow> bool \<Rightarrow> 'c BeaconPool
   \<Rightarrow> 'c BeaconPool \<times> pool_error option" where
  "validateBeaconBlock sum256 L block isPending p0 =
     (let (c, hit) = lru_get L (bp_cache p0) (bhash sum256 block);
          p = p0\<lparr>bp_cache := c\<rparr>
      in if hit \<noteq> None then (p, Some OldBlockError)
         else if bht block \<le> bp_latestValidHeight p then
           ((if bp_latestValidHeight p - bht block > 2
             then p\<lparr>bp_conflictedPool := fmupd (bhash sum256 block) block (bp_conflictedPool p)\<rparr>
             else p), Some OldBlockError)
         else if \<not> isPending \<and> fmlookup (bp_pendingPool p) (bht block) \<noteq> None then
           (p, Some DuplicateBlockError)
         else if \<not> isPending \<and> bht block > bp_latestValidHeight p
                 \<and> map_len (bp_pendingPool p) \<ge> bpc_MaxPendingBlock (bp_config p) then
           (p, Some MaxPoolSizeError)
         else if bp_latestValidHeight p + 1 = bht block
                 \<and> length (bp_validPool p) \<ge> bpc_MaxValidBlock (bp_config p)
                 \<and> map_len (bp_pendingPool p) \<ge> bpc_MaxPendingBlock (bp_config p) then
           (p, Some MaxPoolSizeError)
         else (p, None))"

definition updateLatestBeaconState :: "uint64 \<Rightarrow> 'c BeaconPool \<Rightarrow> 'c BeaconPool" where
  "updateLatestBeaconState best p =
     (if length (bp_validPool p) > 0
      then p\<lparr>bp_latestValidHeight := bht (bp_validPool p ! (length (bp_validPool p) - 1))\<rparr>
      else p\<lparr>bp_latestValidHeight := best\<rparr>)"

definition insertNewBeaconBlockToPool ::
  "(bytes \<Rightarrow> bytes) \<Rightarrow> ('c, BeaconBlock) lru \<Rightarrow> uint64 \<Rightarrow> BeaconBlock \<Rightarrow> 'c BeaconPool
   \<Rightarrow> 'c BeaconPool \<times> bool" where
  "insertNewBeaconBlockToPool sum256 L best block p =
     (let pending = p\<lparr>bp_pendingPool := fmupd (bht block) block (bp_pendingPool p)\<rparr> in
      if bht block = bp_latestValidHeight p + 1 then
        if length (bp_validPool p) < bpc_MaxValidBlock (bp_config p) then
          (case fmlookup (bp_pendingPool p) (bht block + 1) of
             Some nextBlock \<Rightarrow>
               if Hash_IsEqual (Some (bprev nextBlock)) (Some (bhash sum256 block)) then
                 (updateLatestBeaconState best (p\<lparr>bp_validPool := bp_validPool p @ [block]\<rparr>), True)
               else (p\<lparr>bp_cache := lru_add L (bp_cache p) (bhash sum256 block) block\<rparr>, False)
           | None \<Rightarrow> (pending, False))
        else if map_len (bp_pendingPool p) < bpc_MaxPendingBlock (bp_config p) then (pending, False)
        else (p, False)
      else (pending, False))"

text \<open>
  The loop of \<open>promotePendingPool\<close>: it deletes a pending entry each time it goes round, so it
  ends. Its termination needs the two facts on \<open>validateBeaconBlock\<close> and
  \<open>insertNewBeaconBlockToPool\<close> that follow.
\<close>

lemma validateBeaconBlock_frame:
  "validateBeaconBlock sum256 L b isP p = (q, e) \<Longrightarrow>
     bp_validPool q = bp_validPool p \<and> bp_pendingPool q = bp_pendingPool p \<and>
     bp_latestValidHeight q = bp_latestValidHeight p \<and> bp_config q = bp_config p"
  by (auto simp: validateBeaconBlock_def Let_def split: prod.splits if_splits)

lemma insertNewBeaconBlock_True:
  "insertNewBeaconBlockToPool sum256 L best b p = (q, True) \<longleftrightarrow>
     bht b = bp_latestValidHeight p + 1 \<and>
     length (bp_validPool p) < bpc_MaxValidBlock (bp_config p) \<and>
     (\<exists>nb. fmlookup (bp_pendingPool p) (bht b + 1) = Some nb \<and> bprev nb = bhash sum256 b) \<and>
     q = p\<lparr>bp_validPool := bp_validPool p @ [b], bp_latestValidHeight := bht b\<rparr>"
  by (auto simp: insertNewBeaconBlockToPool_def updateLatestBeaconState_def Let_def
      split: if_splits option.splits)

lemma promote_decreases:
  assumes "fmlookup (bp_pendingPool p) k = Some b"
    and "validateBeaconBlock sum256 L b True p = (p1, None)"
    and "insertNewBeaconBlockToPool sum256 L best b p1 = (p2, True)"
  shows "map_len (fmdrop k (bp_pendingPool p2)) < map_len (bp_pendingPool p)"
  using validateBeaconBlock_frame [OF assms(2)] assms(3) map_len_fmdrop [of "bp_pendingPool p" k] assms(1)
  by (auto simp: insertNewBeaconBlock_True)

function promotePendingPool ::
  "(bytes \<Rightarrow> bytes) \<Rightarrow> ('c, BeaconBlock) lru \<Rightarrow> uint64 \<Rightarrow> 'c BeaconPool \<Rightarrow> 'c BeaconPool" where
  "promotePendingPool sum256 L best p =
     (let nextHeight = bp_latestValidHeight p + 1 in
      case fmlookup (bp_pendingPool p) nextHeight of
        None \<Rightarrow> p
      | Some block \<Rightarrow>
          (case validateBeaconBlock sum256 L block True p of
             (p1, Some e) \<Rightarrow> p1
           | (p1, None) \<Rightarrow>
               (case insertNewBeaconBlockToPool sum256 L best block p1 of
                  (p2, True) \<Rightarrow>
                    promotePendingPool sum256 L best
                      (p2\<lparr>bp_pendingPool := fmdrop nextHeight (bp_pendingPool p2)\<rparr>)
                | (p2, False) \<Rightarrow> p2)))"
  by pat_completeness auto
termination
  by (relation "measure (\<lambda>(_, _, _, p). map_len (bp_pendingPool p))") (auto intro: promote_decreases [OF _ sym sym])

declare promotePendingPool.simps [simp del]

definition AddBeaconBlock ::
  "(bytes \<Rightarrow> bytes) \<Rightarrow> ('c, BeaconBlock) lru \<Rightarrow> uint64 \<Rightarrow> BeaconBlock \<Rightarrow> 'c BeaconPool
   \<Rightarrow> 'c BeaconPool \<times> pool_error option" where
  "AddBeaconBlock sum256 L best block p =
     (case validateBeaconBlock sum256 L block False p of
        (p1, Some e) \<Rightarrow> (p1, Some e)
      | (p1, None) \<Rightarrow>
          (promotePendingPool sum256 L best
             (fst (insertNewBeaconBlockToPool sum256 L best block p1)), None))"

text \<open>
  The range loop of \<open>removeBlock\<close> skips the leading blocks at or below the height and keeps the
  rest from the first higher one on; when every block is skipped the pool is emptied.
\<close>

definition bp_RemoveBlock :: "uint64 \<Rightarrow> uint64 \<Rightarrow> 'c BeaconPool \<Rightarrow> 'c BeaconPool" where
  "bp_RemoveBlock best h p =
     updateLatestBeaconState best
       (p\<lparr>bp_validPool := dropWhile (\<lambda>b. bht b \<le> h) (bp_validPool p)\<rparr>)"

definition bp_CleanOldBlock :: "uint64 \<Rightarrow> 'c BeaconPool \<Rightarrow> 'c BeaconPool" where
  "bp_CleanOldBlock h p =
     p\<lparr>bp_pendingPool := fmfilter (\<lambda>k. \<not> k \<le> h) (bp_pendingPool p),
       bp_conflictedPool :=
         fmfilter (\<lambda>k. case fmlookup (bp_conflictedPool p) k of
                         Some b \<Rightarrow> \<not> bht b < h - 2 | None \<Rightarrow> True) (bp_conflictedPool p)\<rparr>"

section \<open>Queries\<close>

definition GetBeaconState :: "'c BeaconPool \<Rightarrow> uint64" where
  "GetBeaconState p = bp_latestValidHeight p"

definition bp_GetValidBlock :: "'c BeaconPool \<Rightarrow> BeaconBlock list" where
  "bp_GetValidBlock p = bp_validPool p"

definition bp_GetValidBlockHash :: "(bytes \<Rightarrow> bytes) \<Rightarrow> 'c BeaconPool \<Rightarrow> hash list" where
  "bp_GetValidBlockHash sum256 p = map (BeaconBlock_Hash sum256) (bp_GetValidBlock p)"

definition bp_GetValidBlockHeight :: "'c BeaconPool \<Rightarrow> uint64 list" where
  "bp_GetValidBlockHeight p = map bht (bp_GetValidBlock p)"

definition bp_GetLatestValidBlockHeight :: "'c BeaconPool \<Rightarrow> uint64" where
  "bp_GetLatestValidBlockHeight p = fold (\<lambda>b _. bht b) (bp_GetValidBlock p) 0"

definition bp_GetPoolLen :: "'c BeaconPool \<Rightarrow> uint64" where
  "bp_GetPoolLen p = of_nat (length (bp_validPool p) + map_len (bp_pendingPool p))"

definition bp_GetAllBlockHeight :: "'c BeaconPool \<Rightarrow> uint64 list \<Rightarrow> uint64 list" where
  "bp_GetAllBlockHeight p order = map bht (bp_validPool p) @ map bht (range_values (bp_pendingPool p) order)"

definition bp_GetPendingBlockHeight :: "'c BeaconPool \<Rightarrow> uint64 list \<Rightarrow> uint64 list" where
  "bp_GetPendingBlockHeight p order = sort (map bht (range_values (bp_pendingPool p) order))"

definition bp_GetBlockByHeight :: "'c BeaconPool \<Rightarrow> uint64 list \<Rightarrow> uint64 \<Rightarrow> BeaconBlock option" where
  "bp_GetBlockByHeight p order h =
     (case find_height bht (bp_validPool p) h of
        Some b \<Rightarrow> Some b
      | None \<Rightarrow> find_height bht (range_values (bp_pendingPool p) order) h)"

section \<open>Invariant\<close>

text \<open>
  A pending block is filed under its own height, height 0 is never used, the valid pool is a
  chain whose tip has a pending successor naming its hash, and both pools respect their caps
  (\<open>bp_core\<close>). The latest valid height is the height of the tip (\<open>bp_inv\<close>); \<open>SetBeaconState\<close>
  breaks that part until the next \<open>RemoveBlock\<close>.
\<close>

definition bp_core :: "(bytes \<Rightarrow> bytes) \<Rightarrow> 'c BeaconPool \<Rightarrow> bool" where
  "bp_core sum256 p \<longleftrightarrow>
     fmpred (\<lambda>k b. bht b = k) (bp_pendingPool p) \<and>
     fmlookup (bp_pendingPool p) 0 = None \<and>
     linked bht (bhash sum256) bprev (bp_validPool p) \<and>
     (\<forall>b \<in> set (bp_validPool p). bht b \<noteq> 0) \<and>
     (bp_validPool p \<noteq> [] \<longrightarrow>
       (\<exists>nb \<in> set_option (fmlookup (bp_pendingPool p) (bht (last (bp_validPool p)) + 1)).
          bprev nb = bhash sum256 (last (bp_validPool p)))) \<and>
     length (bp_validPool p) \<le> bpc_MaxValidBlock (bp_config p) \<and>
     map_len (bp_pendingPool p) \<le> bpc_MaxPendingBlock (bp_config p)"

definition bp_inv :: "(bytes \<Rightarrow> bytes) \<Rightarrow> 'c BeaconPool \<Rightarrow> bool" where
  "bp_inv sum256 p \<longleftrightarrow> bp_core sum256 p \<and>
     (bp_validPool p \<noteq> [] \<longrightarrow> bp_latestValidHeight p = bht (last (bp_validPool p)))"

interpretation bpool: chain_pool bp_validPool bp_latestValidHeight bht "bhash sum256" bprev "bp_inv sum256"
  for sum256
  by unfold_locales (auto simp: bp_inv_def bp_core_def)

lemma bp_inv_newBeaconPool: "bp_inv sum256 (newBeaconPool n)"
  by (simp add: bp_inv_def bp_core_def newBeaconPool_def)

lemma bp_core_SetBeaconState: "bp_core sum256 (SetBeaconState h p) = bp_core sum256 p"
  by (simp add: bp_core_def SetBeaconState_def)

lemma bp_inv_InitBeaconPool: "bp_inv sum256 (InitBeaconPool n best)"
  using bp_inv_newBeaconPool [of sum256 n]
  by (auto simp: InitBeaconPool_def SetBeaconState_def newBeaconPool_def bp_inv_def bp_core_def)

lemma bp_inv_validate:
  "validateBeaconBlock sum256 L b isP p = (q, e) \<Longrightarrow> bp_inv sum256 q = bp_inv sum256 p"
  using validateBeaconBlock_frame [of sum256 L b isP p q e] by (simp add: bp_inv_def bp_core_def)

lemma validate_None:
  "validateBeaconBlock sum256 L b isP p = (q, None) \<Longrightarrow>
     bp_latestValidHeight p < bht b \<and>
     (\<not> isP \<longrightarrow> fmlookup (bp_pendingPool p) (bht b) = None \<and>
                map_len (bp_pendingPool p) < bpc_MaxPendingBlock (bp_config p))"
  by (auto simp: validateBeaconBlock_def Let_def split: prod.splits if_splits)

lemma bp_core_pend:
  assumes "bp_core sum256 p" and "bht b \<noteq> 0"
    and "fmlookup (bp_pendingPool p) (bht b) = Some b \<or>
         fmlookup (bp_pendingPool p) (bht b) = None \<and>
         map_len (bp_pendingPool p) < bpc_MaxPendingBlock (bp_config p)"
  shows "bp_core sum256 (p\<lparr>bp_pendingPool := fmupd (bht b) b (bp_pendingPool p)\<rparr>)"
  using assms by (auto simp: bp_core_def map_len_fmupd split: option.splits if_splits)

lemma bp_core_append:
  assumes "bp_inv sum256 p" and "bht b = bp_latestValidHeight p + 1" and "bht b \<noteq> 0"
    and "length (bp_validPool p) < bpc_MaxValidBlock (bp_config p)"
    and "fmlookup (bp_pendingPool p) (bht b + 1) = Some nb" and "bprev nb = bhash sum256 b"
    and "fmlookup (bp_pendingPool p) (bht b) = Some b \<or> fmlookup (bp_pendingPool p) (bht b) = None"
  shows "bp_core sum256 (p\<lparr>bp_validPool := bp_validPool p @ [b], bp_latestValidHeight := h\<rparr>)"
  using assms by (auto simp: bp_core_def bp_inv_def intro!: linked_snoc split: option.splits)

lemma bp_inv_insert:
  assumes inv: "bp_inv sum256 p" and "bp_latestValidHeight p < bht b"
    and "fmlookup (bp_pendingPool p) (bht b) = Some b \<or>
         fmlookup (bp_pendingPool p) (bht b) = None \<and>
         map_len (bp_pendingPool p) < bpc_MaxPendingBlock (bp_config p)"
    and ins: "insertNewBeaconBlockToPool sum256 L best b p = (q, ok)"
  shows "bp_inv sum256 q"
proof -
  have nz: "bht b \<noteq> 0" using assms(2) by auto
  have c: "bp_core sum256 p" and l: "bp_validPool p \<noteq> [] \<longrightarrow> bp_latestValidHeight p = bht (last (bp_validPool p))"
    using inv by (simp_all add: bp_inv_def)
  show ?thesis
  proof (cases ok)
    case True
    with ins obtain nb where "bht b = bp_latestValidHeight p + 1"
      "length (bp_validPool p) < bpc_MaxValidBlock (bp_config p)"
      "fmlookup (bp_pendingPool p) (bht b + 1) = Some nb" "bprev nb = bhash sum256 b"
      and q: "q = p\<lparr>bp_validPool := bp_validPool p @ [b], bp_latestValidHeight := bht b\<rparr>"
      by (auto simp: insertNewBeaconBlock_True)
    with bp_core_append [OF inv, of b nb "bht b"] nz assms(3) show ?thesis
      by (auto simp: bp_inv_def)
  next
    case False
    with ins consider "q = p\<lparr>bp_pendingPool := fmupd (bht b) b (bp_pendingPool p)\<rparr>"
      | c where "q = p\<lparr>bp_cache := c\<rparr>" | "q = p"
      by (auto simp: insertNewBeaconBlockToPool_def Let_def split: if_splits option.splits)
    then show ?thesis
    proof cases
      case 1
      with bp_core_pend [OF c nz assms(3)] l show ?thesis by (simp add: bp_inv_def)
    next
      case 2
      with c l show ?thesis by (simp add: bp_inv_def bp_core_def)
    next
      case 3
      with inv show ?thesis by simp
    qed
  qed
qed

lemma bp_inv_fmdrop:
  assumes "bp_inv sum256 p" and "bp_validPool p \<noteq> []" and "k = bht (last (bp_validPool p))"
  shows "bp_inv sum256 (p\<lparr>bp_pendingPool := fmdrop k (bp_pendingPool p)\<rparr>)"
  using assms map_len_fmdrop_le [of k "bp_pendingPool p"]
  by (auto simp: bp_inv_def bp_core_def split: option.splits)

lemma promote_missing:
  "fmlookup (bp_pendingPool p) (bp_latestValidHeight p + 1) = None \<Longrightarrow> promotePendingPool sum256 L best p = p"
  by (simp add: promotePendingPool.simps [of _ _ _ p] Let_def)

lemma promote_rejected:
  "fmlookup (bp_pendingPool p) (bp_latestValidHeight p + 1) = Some b \<Longrightarrow>
   validateBeaconBlock sum256 L b True p = (p1, Some e) \<Longrightarrow> promotePendingPool sum256 L best p = p1"
  by (simp add: promotePendingPool.simps [of _ _ _ p] Let_def)

lemma promote_kept:
  "fmlookup (bp_pendingPool p) (bp_latestValidHeight p + 1) = Some b \<Longrightarrow>
   validateBeaconBlock sum256 L b True p = (p1, None) \<Longrightarrow>
   insertNewBeaconBlockToPool sum256 L best b p1 = (p2, False) \<Longrightarrow> promotePendingPool sum256 L best p = p2"
  by (simp add: promotePendingPool.simps [of _ _ _ p] Let_def)

lemma promote_promoted:
  "fmlookup (bp_pendingPool p) (bp_latestValidHeight p + 1) = Some b \<Longrightarrow>
   validateBeaconBlock sum256 L b True p = (p1, None) \<Longrightarrow>
   insertNewBeaconBlockToPool sum256 L best b p1 = (p2, True) \<Longrightarrow>
   promotePendingPool sum256 L best p = promotePendingPool sum256 L best
     (p2\<lparr>bp_pendingPool := fmdrop (bp_latestValidHeight p + 1) (bp_pendingPool p2)\<rparr>)"
  by (simp add: promotePendingPool.simps [of _ _ _ p] Let_def)

text \<open>The four ways a round of the promotion loop can go, from a pool that satisfies the invariant.\<close>

lemma promote_cases:
  assumes inv: "bp_inv sum256 p"
  obtains (missing) "fmlookup (bp_pendingPool p) (bp_latestValidHeight p + 1) = None"
      "promotePendingPool sum256 L best p = p"
  | (rejected) b p1 e where "fmlookup (bp_pendingPool p) (bp_latestValidHeight p + 1) = Some b"
      "validateBeaconBlock sum256 L b True p = (p1, Some e)" "bht b = bp_latestValidHeight p + 1"
      "promotePendingPool sum256 L best p = p1" "bp_inv sum256 p1"
  | (kept) b p1 p2 where "fmlookup (bp_pendingPool p) (bp_latestValidHeight p + 1) = Some b"
      "validateBeaconBlock sum256 L b True p = (p1, None)" "bht b = bp_latestValidHeight p + 1"
      "insertNewBeaconBlockToPool sum256 L best b p1 = (p2, False)"
      "promotePendingPool sum256 L best p = p2" "bp_inv sum256 p2"
  | (promoted) b p1 p2 q where "fmlookup (bp_pendingPool p) (bp_latestValidHeight p + 1) = Some b"
      "validateBeaconBlock sum256 L b True p = (p1, None)" "bht b = bp_latestValidHeight p + 1"
      "insertNewBeaconBlockToPool sum256 L best b p1 = (p2, True)"
      "promotePendingPool sum256 L best p = promotePendingPool sum256 L best q" "bp_inv sum256 q"
      "map_len (bp_pendingPool q) < map_len (bp_pendingPool p)"
proof (cases "fmlookup (bp_pendingPool p) (bp_latestValidHeight p + 1)")
  case None
  then show thesis using missing promote_missing by blast
next
  case lk: (Some b)
  obtain p1 e where v: "validateBeaconBlock sum256 L b True p = (p1, e)" by fastforce
  then have i1: "bp_inv sum256 p1" using inv by (simp add: bp_inv_validate)
  have key: "bht b = bp_latestValidHeight p + 1" using lk inv by (auto simp: bp_inv_def bp_core_def dest: fmpredD)
  obtain p2 ok where ins: "insertNewBeaconBlockToPool sum256 L best b p1 = (p2, ok)" by fastforce
  show thesis
  proof (cases e)
    case (Some x)
    with rejected [OF lk _ key _ i1] promote_rejected [OF lk] v show thesis by blast
  next
    case None
    have i2: "bp_inv sum256 p2"
      using bp_inv_insert [OF i1 _ _ ins] validate_None [of sum256 L b True p p1] v None key lk
        validateBeaconBlock_frame [OF v] by simp
    show thesis
    proof (cases ok)
      case False
      with v None ins show thesis using kept [OF lk _ key _ _ i2] promote_kept [OF lk] by metis
    next
      case True
      let ?q = "p2\<lparr>bp_pendingPool := fmdrop (bp_latestValidHeight p + 1) (bp_pendingPool p2)\<rparr>"
      have "bp_inv sum256 ?q"
        using True ins by (intro bp_inv_fmdrop i2) (auto simp: insertNewBeaconBlock_True key)
      moreover have "map_len (bp_pendingPool ?q) < map_len (bp_pendingPool p)"
        using promote_decreases [OF lk] v None ins True by simp
      moreover have v': "validateBeaconBlock sum256 L b True p = (p1, None)" using v None by simp
      moreover have ins': "insertNewBeaconBlockToPool sum256 L best b p1 = (p2, True)" using ins True by simp
      ultimately show thesis
        by (intro promoted [OF lk v' key ins' promote_promoted [OF lk v' ins']])
    qed
  qed
qed

lemma bp_inv_promote: "bp_inv sum256 p \<Longrightarrow> bp_inv sum256 (promotePendingPool sum256 L best p)"
proof (induction p rule: measure_induct_rule [of "\<lambda>p. map_len (bp_pendingPool p)"])
  case (less p)
  show ?case by (rule promote_cases [OF less.prems, of L best]) (use less in auto)
qed

lemma bp_inv_AddBeaconBlock: "bp_inv sum256 p \<Longrightarrow> bp_inv sum256 (fst (AddBeaconBlock sum256 L best b p))"
proof -
  assume inv: "bp_inv sum256 p"
  obtain p1 e where v: "validateBeaconBlock sum256 L b False p = (p1, e)" by fastforce
  then have i1: "bp_inv sum256 p1" using inv by (simp add: bp_inv_validate)
  obtain p2 ok where ins: "insertNewBeaconBlockToPool sum256 L best b p1 = (p2, ok)" by fastforce
  have "bp_inv sum256 p2" if "e = None"
    using bp_inv_insert [OF i1 _ _ ins] validate_None [of sum256 L b False p p1] v that
      validateBeaconBlock_frame [OF v] by simp
  then show ?thesis
    using v i1 ins by (auto simp: AddBeaconBlock_def intro: bp_inv_promote split: option.splits)
qed

lemma updateLatestBeaconState_last:
  "updateLatestBeaconState best p =
     p\<lparr>bp_latestValidHeight := if bp_validPool p = [] then best else bht (last (bp_validPool p))\<rparr>"
  by (simp add: updateLatestBeaconState_def last_conv_nth)

lemma bp_inv_RemoveBlock: "bp_core sum256 p \<Longrightarrow> bp_inv sum256 (bp_RemoveBlock best h p)"
proof -
  assume c: "bp_core sum256 p"
  let ?v = "dropWhile (\<lambda>b. bht b \<le> h) (bp_validPool p)"
  have "last ?v = last (bp_validPool p)" if "?v \<noteq> []"
    using that by (metis last_appendR takeWhile_dropWhile_id)
  moreover have "length ?v \<le> length (bp_validPool p)" by (rule length_dropWhile_le)
  ultimately show ?thesis using c
    by (cases "?v = []") (auto simp: bp_RemoveBlock_def updateLatestBeaconState_last bp_inv_def bp_core_def
        intro: linked_dropWhile order_trans [OF length_dropWhile_le] dest: set_dropWhileD)
qed

lemma bp_inv_CleanOldBlock:
  assumes inv: "bp_inv sum256 p" and above: "\<And>b. b \<in> set (bp_validPool p) \<Longrightarrow> h < bht b"
  shows "bp_inv sum256 (bp_CleanOldBlock h p)"
proof -
  have "h < bht (last (bp_validPool p)) + 1" if ne: "bp_validPool p \<noteq> []"
  proof -
    have "bht (last (bp_validPool p)) + 1 \<noteq> 0"
      using inv ne by (auto simp: bp_inv_def bp_core_def split: option.splits)
    then show ?thesis using above [of "last (bp_validPool p)"] ne word_less_nowrap by fastforce
  qed
  then have "bp_validPool p \<noteq> [] \<longrightarrow> \<not> bht (last (bp_validPool p)) + 1 \<le> h" by auto
  with inv map_len_fmfilter_le [of "\<lambda>k. \<not> k \<le> h" "bp_pendingPool p"] show ?thesis
    by (cases "bp_validPool p = []") (auto simp: bp_CleanOldBlock_def bp_inv_def bp_core_def split: option.splits)
qed

section \<open>The pool as a state machine\<close>

text \<open>
  What the node does to the pool: a peer's block is added, the best state moves to height \<open>h\<close>
  (the end of \<open>InsertBeaconBlock\<close> in \<open>beaconprocess.go\<close>), and the ticker of \<open>init\<close> cleans up
  and promotes. Each call holds the pool's mutex; the calls of one ticker round, and the two
  calls of \<open>InsertBeaconBlock\<close>, are taken as one step, with the best state height \<open>h\<close> read once.
\<close>

definition bp_commit :: "uint64 \<Rightarrow> 'c BeaconPool \<Rightarrow> 'c BeaconPool" where
  "bp_commit h p = bp_RemoveBlock h h (SetBeaconState h p)"

definition bp_tick :: "(bytes \<Rightarrow> bytes) \<Rightarrow> ('c, BeaconBlock) lru \<Rightarrow> uint64 \<Rightarrow> 'c BeaconPool \<Rightarrow> 'c BeaconPool" where
  "bp_tick sum256 L h p = promotePendingPool sum256 L h (bp_CleanOldBlock h (bp_RemoveBlock h h p))"

inductive bp_step :: "(bytes \<Rightarrow> bytes) \<Rightarrow> ('c, BeaconBlock) lru \<Rightarrow> 'c BeaconPool \<Rightarrow> 'c BeaconPool \<Rightarrow> bool"
  for sum256 L where
  add: "AddBeaconBlock sum256 L best b p = (q, e) \<Longrightarrow> bp_step sum256 L p q"
| commit: "bp_step sum256 L p (bp_commit h p)"
| tick: "bp_step sum256 L p (bp_tick sum256 L h p)"

inductive bp_reachable ::
  "(bytes \<Rightarrow> bytes) \<Rightarrow> ('c, BeaconBlock) lru \<Rightarrow> (nat \<Rightarrow> 'c) \<Rightarrow> 'c BeaconPool \<Rightarrow> bool"
  for sum256 L lru_new where
  init: "bp_reachable sum256 L lru_new (InitBeaconPool lru_new best)"
| step: "bp_reachable sum256 L lru_new p \<Longrightarrow> bp_step sum256 L p q \<Longrightarrow> bp_reachable sum256 L lru_new q"

inductive_cases bp_stepE: "bp_step sum256 L p q"

lemma above_RemoveBlock:
  assumes "bp_core sum256 p" and "b \<in> set (bp_validPool (bp_RemoveBlock best h p))"
  shows "h < bht b"
proof -
  let ?v = "dropWhile (\<lambda>b. bht b \<le> h) (bp_validPool p)"
  have v: "bp_validPool (bp_RemoveBlock best h p) = ?v"
    by (simp add: bp_RemoveBlock_def updateLatestBeaconState_last)
  have inv: "bp_inv sum256 (bp_RemoveBlock best h p)" by (rule bp_inv_RemoveBlock [OF assms(1)])
  have b: "b \<in> set ?v" using assms(2) v by simp
  then have "h < bht (hd ?v)" using hd_dropWhile [of "\<lambda>b. bht b \<le> h" "bp_validPool p"] by (cases ?v) auto
  also have "bht (hd ?v) \<le> bht b"
    using bpool.heights_increasing [OF inv] b unfolding v by (cases ?v) auto
  finally show ?thesis .
qed

lemma bp_inv_commit: "bp_inv sum256 p \<Longrightarrow> bp_inv sum256 (bp_commit h p)"
  unfolding bp_commit_def by (rule bp_inv_RemoveBlock) (simp add: bp_core_SetBeaconState bp_inv_def)

lemma bp_inv_tick: "bp_inv sum256 p \<Longrightarrow> bp_inv sum256 (bp_tick sum256 L h p)"
proof -
  assume "bp_inv sum256 p"
  then have c: "bp_core sum256 p" by (simp add: bp_inv_def)
  show ?thesis unfolding bp_tick_def
    by (intro bp_inv_promote bp_inv_CleanOldBlock bp_inv_RemoveBlock c) (rule above_RemoveBlock [OF c])
qed

lemma bp_inv_step: "bp_step sum256 L p q \<Longrightarrow> bp_inv sum256 p \<Longrightarrow> bp_inv sum256 q"
  by (elim bp_stepE) (metis bp_inv_AddBeaconBlock fst_conv, auto intro: bp_inv_commit bp_inv_tick)

lemma bp_inv_reachable: "bp_reachable sum256 L lru_new p \<Longrightarrow> bp_inv sum256 p"
  by (induction rule: bp_reachable.induct) (auto intro: bp_inv_InitBeaconPool bp_inv_step)

section \<open>Promotion makes progress\<close>





text \<open>Where promotion stops, the next block is missing or held back for a reason.\<close>

definition bp_stuck :: "(bytes \<Rightarrow> bytes) \<Rightarrow> ('c, BeaconBlock) lru \<Rightarrow> 'c BeaconPool \<Rightarrow> bool" where
  "bp_stuck sum256 L p =
     (case fmlookup (bp_pendingPool p) (bp_latestValidHeight p + 1) of
        None \<Rightarrow> True
      | Some b \<Rightarrow>
          snd (lru_get L (bp_cache p) (bhash sum256 b)) \<noteq> None
          \<or> bpc_MaxValidBlock (bp_config p) \<le> length (bp_validPool p)
          \<or> fmlookup (bp_pendingPool p) (bht b + 1) = None)"

lemma rejected_stuck:
  assumes "lru_spec L" and "validateBeaconBlock sum256 L b True p = (p1, Some e)"
    and "fmlookup (bp_pendingPool p) (bp_latestValidHeight p + 1) = Some b"
    and "bht b = bp_latestValidHeight p + 1" and "fmlookup (bp_pendingPool p) 0 = None"
  shows "bp_stuck sum256 L p1"
proof -
  have "bp_latestValidHeight p < bp_latestValidHeight p + 1"
    using assms(3,5) by (intro word_less_nowrap) auto
  moreover obtain c r where get: "lru_get L (bp_cache p) (bhash sum256 b) = (c, r)" by fastforce
  moreover have "snd (lru_get L c (bhash sum256 b)) = r"
    using lru_stable [OF assms(1) get, of "bhash sum256 b"] get by simp
  ultimately show ?thesis using assms(2-4)
    by (auto simp: validateBeaconBlock_def bp_stuck_def Let_def split: if_splits)
qed

lemma kept_stuck:
  assumes "lru_spec L" and "validateBeaconBlock sum256 L b True p = (p1, None)"
    and "insertNewBeaconBlockToPool sum256 L best b p1 = (p2, False)"
    and "fmlookup (bp_pendingPool p) (bp_latestValidHeight p + 1) = Some b"
    and "bht b = bp_latestValidHeight p + 1"
  shows "bp_stuck sum256 L p2"
  using assms validateBeaconBlock_frame [OF assms(2)]
  by (auto simp: insertNewBeaconBlockToPool_def bp_stuck_def lru_spec_def Let_def split: if_splits option.splits)

lemma bp_stuck_promote:
  assumes "lru_spec L" and "bp_inv sum256 p"
  shows "bp_stuck sum256 L (promotePendingPool sum256 L best p)"
  using assms(2)
proof (induction p rule: measure_induct_rule [of "\<lambda>p. map_len (bp_pendingPool p)"])
  case (less p)
  from less.prems show ?case
  proof (cases rule: promote_cases [where L = L and best = best])
    case missing
    then show ?thesis by (simp add: bp_stuck_def)
  next
    case (rejected b p1 e)
    then show ?thesis
      using rejected_stuck [OF assms(1) rejected(2)] less.prems by (simp add: bp_inv_def bp_core_def)
  next
    case (kept b p1 p2)
    then show ?thesis using kept_stuck [OF assms(1) kept(2,4,1,3)] by simp
  next
    case (promoted b p1 p2 q)
    then show ?thesis using less.IH by simp
  qed
qed

section \<open>Properties\<close>

lemma insert_config: "insertNewBeaconBlockToPool sum256 L best b p = (q, ok) \<Longrightarrow> bp_config q = bp_config p"
  by (auto simp: insertNewBeaconBlockToPool_def updateLatestBeaconState_def Let_def split: if_splits option.splits)

lemma promote_config: "bp_config (promotePendingPool sum256 L best p) = bp_config p"
proof (induction sum256 L best p rule: promotePendingPool.induct)
  case (1 sum256 L best p)
  show ?case
    using 1 by (subst promotePendingPool.simps)
      (auto simp: Let_def split: option.splits prod.splits bool.splits
        dest!: insert_config validateBeaconBlock_frame)
qed

lemma AddBeaconBlock_config: "AddBeaconBlock sum256 L best b p = (q, e) \<Longrightarrow> bp_config q = bp_config p"
  by (auto simp: AddBeaconBlock_def promote_config split: prod.splits option.splits
      dest!: validateBeaconBlock_frame) (metis insert_config prod.collapse)+

lemma bp_config_reachable:
  "bp_reachable sum256 L lru_new p \<Longrightarrow>
     bpc_MaxValidBlock (bp_config p) = MAX_VALID_BEACON_BLK_IN_POOL \<and>
     bpc_MaxPendingBlock (bp_config p) = MAX_PENDING_BEACON_BLK_IN_POOL"
proof (induction rule: bp_reachable.induct)
  case (init best)
  show ?case by (simp add: InitBeaconPool_def newBeaconPool_def SetBeaconState_def)
next
  case (step p q)
  have "bp_config q = bp_config p"
    using step(2) by cases (auto simp: AddBeaconBlock_config bp_commit_def bp_tick_def promote_config
        bp_RemoveBlock_def bp_CleanOldBlock_def SetBeaconState_def updateLatestBeaconState_last)
  with step show ?case by simp
qed

text \<open>C1: in every state the node can bring the beacon pool to, the valid pool is a chain: each block
  names the hash of the one before it and its height is one more, heights never repeat or wrap
  around, the latest valid height is that of the last block, and the caps on both pools hold.
\<close>

theorem bp_valid_chain:
  assumes "bp_reachable sum256 L lru_new p"
  shows "linked bht (bhash sum256) bprev (bp_validPool p)
    \<and> sorted_wrt (<) (bp_GetValidBlockHeight p)
    \<and> (bp_validPool p \<noteq> [] \<longrightarrow> GetBeaconState p = bht (last (bp_validPool p)))
    \<and> length (bp_validPool p) \<le> MAX_VALID_BEACON_BLK_IN_POOL
    \<and> map_len (bp_pendingPool p) \<le> MAX_PENDING_BEACON_BLK_IN_POOL"
  using bp_inv_reachable [OF assms] bp_config_reachable [OF assms] bpool.heights_increasing [of sum256 p]
  by (simp add: bp_GetValidBlockHeight_def bp_GetValidBlock_def GetBeaconState_def bp_inv_def bp_core_def)

text \<open>A concrete pool: an association-list cache, a constant digest, blocks of heights 2 and 3.\<close>

definition ex_lru :: "((hash \<times> 'v) list, 'v) lru" where
  "ex_lru = \<lparr>lru_get = (\<lambda>c k. (c, map_of c k)), lru_add = (\<lambda>c k v. (k, v) # c)\<rparr>"

definition ex_beacon_pool :: "(hash \<times> BeaconBlock) list BeaconPool" where
  "ex_beacon_pool =
     fst (AddBeaconBlock ex_sum256 ex_lru 1 (ex_beacon_block 3)
       (fst (AddBeaconBlock ex_sum256 ex_lru 1 (ex_beacon_block 2) (InitBeaconPool (\<lambda>_. []) 1))))"

lemma lru_spec_ex_lru: "lru_spec ex_lru"
  by (simp add: lru_spec_def ex_lru_def)

lemmas ex_pool_eval =
  AddBeaconBlock_def validateBeaconBlock_def insertNewBeaconBlockToPool_def InitBeaconPool_def
  SetBeaconState_def newBeaconPool_def updateLatestBeaconState_def promotePendingPool.simps
  MAX_VALID_BEACON_BLK_IN_POOL_def MAX_PENDING_BEACON_BLK_IN_POOL_def ex_beacon_hash ex_lru_def
  map_len_fmupd Let_def word_le_nat_alt word_less_nat_alt

lemma ex_beacon_pool_valid: "bp_validPool ex_beacon_pool = [ex_beacon_block 2]"
  by (simp add: ex_beacon_pool_def ex_pool_eval)

lemma ex_beacon_pool_reachable: "bp_reachable ex_sum256 ex_lru (\<lambda>_. []) ex_beacon_pool"
  unfolding ex_beacon_pool_def by (metis bp_reachable.simps bp_step.add prod.collapse)

theorem bp_valid_chain_witness:
  "bp_reachable ex_sum256 ex_lru (\<lambda>_. []) ex_beacon_pool \<and> GetBeaconState ex_beacon_pool = 2"
  using bp_valid_chain [OF ex_beacon_pool_reachable] ex_beacon_pool_reachable
  by (simp add: ex_beacon_pool_valid)




text \<open>
  a beacon block that \<open>AddBeaconBlock\<close> accepts leaves the pool in its normal form: the block
  at the next height is absent, was rejected as a fork, has no successor yet, or the valid pool is
  full. In particular the promotion loop returns on every pool.
\<close>

theorem bp_add_normal_form:
  assumes "lru_spec L" and "bp_reachable sum256 L lru_new p"
    and "AddBeaconBlock sum256 L best b p = (q, None)"
  shows "bp_stuck sum256 L q"
proof -
  obtain p1 where v: "validateBeaconBlock sum256 L b False p = (p1, None)"
    and q: "q = promotePendingPool sum256 L best (fst (insertNewBeaconBlockToPool sum256 L best b p1))"
    using assms(3) by (auto simp: AddBeaconBlock_def split: prod.splits option.splits)
  obtain p2 ok where ins: "insertNewBeaconBlockToPool sum256 L best b p1 = (p2, ok)" by fastforce
  have "bp_inv sum256 p1" using bp_inv_validate [OF v] bp_inv_reachable [OF assms(2)] by simp
  then have "bp_inv sum256 p2"
    using bp_inv_insert [OF _ _ _ ins] validate_None [OF v] validateBeaconBlock_frame [OF v] by simp
  then show ?thesis unfolding q ins fst_conv by (rule bp_stuck_promote [OF assms(1)])
qed

theorem bp_add_normal_form_witness:
  "snd (AddBeaconBlock ex_sum256 ex_lru 1 (ex_beacon_block 2) (InitBeaconPool (\<lambda>_. []) 1)) = None \<and>
   bp_stuck ex_sum256 ex_lru (fst (AddBeaconBlock ex_sum256 ex_lru 1 (ex_beacon_block 2) (InitBeaconPool (\<lambda>_. []) 1)))"
proof -
  have "snd (AddBeaconBlock ex_sum256 ex_lru 1 (ex_beacon_block 2) (InitBeaconPool (\<lambda>_. []) 1)) = None"
    by (simp add: ex_pool_eval)
  then show ?thesis
    using bp_add_normal_form [OF lru_spec_ex_lru bp_reachable.init] by (metis prod.collapse)
qed

text \<open>
  \<open>GetBlockByHeight\<close> on a reachable pool, whatever order the map is iterated in: a block of the
  valid pool is found under its height, a height no valid block has is answered from the pending
  pool, and a height in neither gives nil.
\<close>

theorem bp_GetBlockByHeight_correct:
  assumes "bp_reachable sum256 L lru_new p" and "iteration_order (bp_pendingPool p) order"
  shows "(b \<in> set (bp_validPool p) \<longrightarrow> bp_GetBlockByHeight p order (bht b) = Some b)
    \<and> (h \<notin> set (bp_GetValidBlockHeight p) \<longrightarrow>
         bp_GetBlockByHeight p order h = fmlookup (bp_pendingPool p) h)"
proof (intro conjI impI)
  have inv: "bp_inv sum256 p" by (rule bp_inv_reachable [OF assms(1)])
  assume "b \<in> set (bp_validPool p)"
  then show "bp_GetBlockByHeight p order (bht b) = Some b"
    by (simp add: bp_GetBlockByHeight_def bpool.find_height_valid [OF inv])
next
  assume "h \<notin> set (bp_GetValidBlockHeight p)"
  then have "find_height bht (bp_validPool p) h = None"
    by (auto simp: find_height_def find_None_iff bp_GetValidBlockHeight_def bp_GetValidBlock_def)
  moreover have "fmpred (\<lambda>k b. bht b = k) (bp_pendingPool p)"
    using bp_inv_reachable [OF assms(1)] by (simp add: bp_inv_def bp_core_def)
  ultimately show "bp_GetBlockByHeight p order h = fmlookup (bp_pendingPool p) h"
    using find_height_range_values [OF _ assms(2)] by (simp add: bp_GetBlockByHeight_def)
qed

theorem bp_GetBlockByHeight_witness:
  "bp_GetBlockByHeight ex_beacon_pool [3] 2 = Some (ex_beacon_block 2)"
proof -
  have "iteration_order (bp_pendingPool ex_beacon_pool) [3]"
    by (simp add: ex_beacon_pool_def ex_pool_eval iteration_order_def fmdom'_alt_def) auto
  then show ?thesis
    using bp_GetBlockByHeight_correct [OF ex_beacon_pool_reachable, of "[3]" "ex_beacon_block 2"]
    by (simp add: ex_beacon_pool_valid)
qed

end
