(* ===== verification/Shard_Pool.thy ===== *)
theory Shard_Pool
  imports Beacon_Pool
begin

text \<open>
  \<open>src/mempool/shard_pool.go\<close>: the pool of blocks of one shard. Unlike the beacon pool it admits
  only blocks the beacon chain has confirmed, and it resolves forks by dropping the tip of the
  valid pool when the next block does not name it. Parameters: \<open>sum256\<close>, the cache operations \<open>L\<close>,
  \<open>beaconBest\<close> (\<open>GetBestStateBeacon().GetBestHeightOfShard\<close>) and \<open>shardBest\<close>, the height of the
  node's best state of this shard. The mutex is held by every caller of
  \<open>insertNewShardBlockToPoolV2\<close>, so its call of \<open>AddShardBlock\<close> blocks for ever: that branch is
  the fault \<open>Deadlock\<close>.
\<close>

section \<open>State\<close>

record ShardPoolConfig =
  spc_MaxValidBlock :: nat
  spc_MaxPendingBlock :: nat
  spc_CacheSize :: nat

record ('c, 'body) ShardPool =
  sp_validPool :: "'body ShardBlock list"
  sp_pendingPool :: "(uint64, 'body ShardBlock) fmap"
  sp_conflictedPool :: "(hash, 'body ShardBlock) fmap"
  sp_shardID :: byte
  sp_latestValidHeight :: uint64
  sp_config :: ShardPoolConfig
  sp_cache :: 'c

definition MAX_VALID_SHARD_BLK_IN_POOL :: nat where "MAX_VALID_SHARD_BLK_IN_POOL = 10000"
definition MAX_PENDING_SHARD_BLK_IN_POOL :: nat where "MAX_PENDING_SHARD_BLK_IN_POOL = 10000"
definition SHARD_CACHE_SIZE :: nat where "SHARD_CACHE_SIZE = 2000"

definition defaultConfig :: ShardPoolConfig where
  "defaultConfig = \<lparr>spc_MaxValidBlock = MAX_VALID_SHARD_BLK_IN_POOL,
     spc_MaxPendingBlock = MAX_PENDING_SHARD_BLK_IN_POOL, spc_CacheSize = SHARD_CACHE_SIZE\<rparr>"

abbreviation sht :: "'body ShardBlock \<Rightarrow> uint64" where "sht b \<equiv> sh_Height (sb_Header b)"
abbreviation sprev :: "'body ShardBlock \<Rightarrow> hash" where "sprev b \<equiv> sh_PrevBlockHash (sb_Header b)"
abbreviation shash :: "(bytes \<Rightarrow> bytes) \<Rightarrow> 'body ShardBlock \<Rightarrow> hash" where
  "shash sum256 b \<equiv> ShardHeader_Hash sum256 (sb_Header b)"

text \<open>\<open>GetShardPool\<close> on its first call for a shard.\<close>

definition newShardPool :: "(nat \<Rightarrow> 'c) \<Rightarrow> byte \<Rightarrow> ('c, 'body) ShardPool" where
  "newShardPool lru_new shardID =
     \<lparr>sp_validPool = [], sp_pendingPool = fmempty, sp_conflictedPool = fmempty, sp_shardID = shardID,
      sp_latestValidHeight = 1, sp_config = defaultConfig, sp_cache = lru_new (spc_CacheSize defaultConfig)\<rparr>"

section \<open>Operations\<close>

definition SetShardState :: "uint64 \<Rightarrow> ('c, 'body) ShardPool \<Rightarrow> ('c, 'body) ShardPool" where
  "SetShardState h p = (if sp_latestValidHeight p < h then p\<lparr>sp_latestValidHeight := h\<rparr> else p)"

definition InitShardPool :: "(nat \<Rightarrow> 'c) \<Rightarrow> byte \<Rightarrow> uint64 \<Rightarrow> ('c, 'body) ShardPool" where
  "InitShardPool lru_new shardID shardBest = SetShardState shardBest (newShardPool lru_new shardID)"

definition ValidateShardBlock ::
  "(bytes \<Rightarrow> bytes) \<Rightarrow> ('c, 'body ShardBlock) lru \<Rightarrow> 'body ShardBlock \<Rightarrow> bool \<Rightarrow> ('c, 'body) ShardPool
   \<Rightarrow> ('c, 'body) ShardPool \<times> pool_error option" where
  "ValidateShardBlock sum256 L block isPending p0 =
     (let (c, hit) = lru_get L (sp_cache p0) (shash sum256 block);
          p = p0\<lparr>sp_cache := c\<rparr>
      in if hit \<noteq> None then (p, Some OldBlockError)
         else if sht block \<le> sp_latestValidHeight p then
           ((if sp_latestValidHeight p - sht block > 2
             then p\<lparr>sp_conflictedPool := fmupd (shash sum256 block) block (sp_conflictedPool p)\<rparr>
             else p), Some OldBlockError)
         else if \<not> isPending \<and> fmlookup (sp_pendingPool p) (sht block) \<noteq> None then
           (p, Some DuplicateBlockError)
         else if \<not> isPending \<and> sht block > sp_latestValidHeight p
                 \<and> map_len (sp_pendingPool p) \<ge> spc_MaxPendingBlock (sp_config p) then
           (p, Some MaxPoolSizeError)
         else if sp_latestValidHeight p + 1 = sht block
                 \<and> length (sp_validPool p) \<ge> spc_MaxValidBlock (sp_config p)
                 \<and> map_len (sp_pendingPool p) \<ge> spc_MaxPendingBlock (sp_config p) then
           (p, Some MaxPoolSizeError)
         else (p, None))"

definition updateLatestShardState :: "uint64 \<Rightarrow> ('c, 'body) ShardPool \<Rightarrow> ('c, 'body) ShardPool" where
  "updateLatestShardState shardBest p =
     (if length (sp_validPool p) > 0
      then p\<lparr>sp_latestValidHeight := sht (sp_validPool p ! (length (sp_validPool p) - 1))\<rparr>
      else p\<lparr>sp_latestValidHeight := shardBest\<rparr>)"

definition insertNewShardBlockToPoolV2 ::
  "(bytes \<Rightarrow> bytes) \<Rightarrow> ('c, 'body ShardBlock) lru \<Rightarrow> (byte \<Rightarrow> uint64) \<Rightarrow> uint64 \<Rightarrow> 'body ShardBlock
   \<Rightarrow> ('c, 'body) ShardPool \<Rightarrow> fault + ('c, 'body) ShardPool \<times> bool" where
  "insertNewShardBlockToPoolV2 sum256 L beaconBest shardBest block p =
     (let pending = p\<lparr>sp_pendingPool := fmupd (sht block) block (sp_pendingPool p)\<rparr> in
      if sht block > beaconBest (sh_ShardID (sb_Header block)) then Inr (pending, False)
      else if sp_latestValidHeight p + 1 = sht block then
        if length (sp_validPool p) < spc_MaxValidBlock (sp_config p) then
          if length (sp_validPool p) > 0 then
            let latestBlock = sp_validPool p ! (length (sp_validPool p) - 1);
                latestBlockHash = shash sum256 latestBlock
            in if Hash_IsEqual (Some (sprev block)) (Some latestBlockHash) then
                 Inr (updateLatestShardState shardBest (p\<lparr>sp_validPool := sp_validPool p @ [block]\<rparr>), True)
               else
                 let p1 = updateLatestShardState shardBest
                            (pending\<lparr>sp_validPool := take (length (sp_validPool p) - 1) (sp_validPool p)\<rparr>);
                     p2 = p1\<lparr>sp_cache := lru_add L (sp_cache p1) latestBlockHash latestBlock\<rparr>
                 in (case fmlookup (sp_conflictedPool p2) (sprev block) of
                       Some previousBlock \<Rightarrow> Inl Deadlock
                     | None \<Rightarrow> Inr (p2, False))
          else Inr (updateLatestShardState shardBest (p\<lparr>sp_validPool := sp_validPool p @ [block]\<rparr>), True)
        else Inr (p, False)
      else Inr (pending, False))"

lemma ValidateShardBlock_frame:
  "ValidateShardBlock sum256 L b isP p = (q, e) \<Longrightarrow>
     sp_validPool q = sp_validPool p \<and> sp_pendingPool q = sp_pendingPool p \<and>
     sp_latestValidHeight q = sp_latestValidHeight p \<and> sp_config q = sp_config p"
  by (auto simp: ValidateShardBlock_def Let_def split: prod.splits if_splits)

lemma updateLatestShardState_last:
  "updateLatestShardState best p =
     p\<lparr>sp_latestValidHeight := if sp_validPool p = [] then best else sht (last (sp_validPool p))\<rparr>"
  by (simp add: updateLatestShardState_def last_conv_nth)

lemma insertNewShardBlock_True:
  "insertNewShardBlockToPoolV2 sum256 L bb best b p = Inr (q, True) \<longleftrightarrow>
     sht b \<le> bb (sh_ShardID (sb_Header b)) \<and> sp_latestValidHeight p + 1 = sht b \<and>
     length (sp_validPool p) < spc_MaxValidBlock (sp_config p) \<and>
     (sp_validPool p \<noteq> [] \<longrightarrow> sprev b = shash sum256 (last (sp_validPool p))) \<and>
     q = p\<lparr>sp_validPool := sp_validPool p @ [b], sp_latestValidHeight := sht b\<rparr>"
  by (auto simp: insertNewShardBlockToPoolV2_def updateLatestShardState_last Let_def last_conv_nth
      split: if_splits option.splits)

text \<open>The loop of \<open>promotePendingPool\<close>; it ends because every further round has deleted a pending entry.\<close>

lemma sp_promote_decreases:
  assumes "fmlookup (sp_pendingPool p) k = Some b"
    and "ValidateShardBlock sum256 L b True p = (p1, None)"
    and "insertNewShardBlockToPoolV2 sum256 L bb best b p1 = Inr (p2, True)"
  shows "map_len (fmdrop k (sp_pendingPool p2)) < map_len (sp_pendingPool p)"
  using ValidateShardBlock_frame [OF assms(2)] assms(3) map_len_fmdrop [of "sp_pendingPool p" k] assms(1)
  by (auto simp: insertNewShardBlock_True)

function sp_promotePendingPool ::
  "(bytes \<Rightarrow> bytes) \<Rightarrow> ('c, 'body ShardBlock) lru \<Rightarrow> (byte \<Rightarrow> uint64) \<Rightarrow> uint64
   \<Rightarrow> ('c, 'body) ShardPool \<Rightarrow> fault + ('c, 'body) ShardPool" where
  "sp_promotePendingPool sum256 L beaconBest shardBest p =
     (let nextHeight = sp_latestValidHeight p + 1 in
      case fmlookup (sp_pendingPool p) nextHeight of
        None \<Rightarrow> Inr p
      | Some block \<Rightarrow>
          (case ValidateShardBlock sum256 L block True p of
             (p1, Some e) \<Rightarrow> Inr p1
           | (p1, None) \<Rightarrow>
               (case insertNewShardBlockToPoolV2 sum256 L beaconBest shardBest block p1 of
                  Inl f \<Rightarrow> Inl f
                | Inr (p2, False) \<Rightarrow> Inr p2
                | Inr (p2, True) \<Rightarrow>
                    sp_promotePendingPool sum256 L beaconBest shardBest
                      (p2\<lparr>sp_pendingPool := fmdrop nextHeight (sp_pendingPool p2)\<rparr>))))"
  by pat_completeness auto
termination
  by (relation "measure (\<lambda>(_, _, _, _, p). map_len (sp_pendingPool p))")
    (auto intro: sp_promote_decreases [OF _ sym])

declare sp_promotePendingPool.simps [simp del]

definition AddShardBlock ::
  "(bytes \<Rightarrow> bytes) \<Rightarrow> ('c, 'body ShardBlock) lru \<Rightarrow> (byte \<Rightarrow> uint64) \<Rightarrow> uint64 \<Rightarrow> 'body ShardBlock
   \<Rightarrow> ('c, 'body) ShardPool \<Rightarrow> fault + ('c, 'body) ShardPool \<times> pool_error option" where
  "AddShardBlock sum256 L beaconBest shardBest block p =
     (case ValidateShardBlock sum256 L block False p of
        (p1, Some e) \<Rightarrow> Inr (p1, Some e)
      | (p1, None) \<Rightarrow>
          andThen (insertNewShardBlockToPoolV2 sum256 L beaconBest shardBest block p1) (\<lambda>(p2, _).
          andThen (sp_promotePendingPool sum256 L beaconBest shardBest p2) (\<lambda>p3. Inr (p3, None))))"

text \<open>The range loop of \<open>removeBlock\<close>: the skipped blocks are remembered in the cache, in order.\<close>

definition sp_RemoveBlock ::
  "(bytes \<Rightarrow> bytes) \<Rightarrow> ('c, 'body ShardBlock) lru \<Rightarrow> uint64 \<Rightarrow> uint64 \<Rightarrow> ('c, 'body) ShardPool
   \<Rightarrow> ('c, 'body) ShardPool" where
  "sp_RemoveBlock sum256 L shardBest h p =
     updateLatestShardState shardBest
       (p\<lparr>sp_cache := fold (\<lambda>b c. lru_add L c (shash sum256 b) b)
                        (takeWhile (\<lambda>b. sht b \<le> h) (sp_validPool p)) (sp_cache p),
          sp_validPool := dropWhile (\<lambda>b. sht b \<le> h) (sp_validPool p)\<rparr>)"

definition sp_CleanOldBlock :: "uint64 \<Rightarrow> ('c, 'body) ShardPool \<Rightarrow> ('c, 'body) ShardPool" where
  "sp_CleanOldBlock h p =
     p\<lparr>sp_pendingPool := fmfilter (\<lambda>k. \<not> k \<le> h) (sp_pendingPool p),
       sp_conflictedPool :=
         fmfilter (\<lambda>k. case fmlookup (sp_conflictedPool p) k of
                         Some b \<Rightarrow> \<not> sht b < h - 2 | None \<Rightarrow> True) (sp_conflictedPool p)\<rparr>"

section \<open>Queries\<close>

definition GetShardState :: "('c, 'body) ShardPool \<Rightarrow> uint64" where
  "GetShardState p = sp_latestValidHeight p"

definition sp_GetValidBlock :: "('c, 'body) ShardPool \<Rightarrow> 'body ShardBlock list" where
  "sp_GetValidBlock p = sp_validPool p"

definition sp_GetPendingBlock :: "('c, 'body) ShardPool \<Rightarrow> uint64 list \<Rightarrow> 'body ShardBlock list" where
  "sp_GetPendingBlock p order = sort_key sht (range_values (sp_pendingPool p) order)"

definition sp_GetPendingBlockHeight :: "('c, 'body) ShardPool \<Rightarrow> uint64 list \<Rightarrow> uint64 list" where
  "sp_GetPendingBlockHeight p order = sort (map sht (range_values (sp_pendingPool p) order))"

definition sp_GetValidBlockHash :: "(bytes \<Rightarrow> bytes) \<Rightarrow> ('c, 'body) ShardPool \<Rightarrow> hash list" where
  "sp_GetValidBlockHash sum256 p = map (ShardBlock_Hash sum256) (sp_GetValidBlock p)"

definition sp_GetValidBlockHeight :: "('c, 'body) ShardPool \<Rightarrow> uint64 list" where
  "sp_GetValidBlockHeight p = map sht (sp_GetValidBlock p)"

definition sp_GetLatestValidBlockHeight :: "('c, 'body) ShardPool \<Rightarrow> uint64" where
  "sp_GetLatestValidBlockHeight p =
     (let blocks = sp_GetValidBlock p in
      if length blocks < 1 then 0 else sht (blocks ! (length blocks - 1)))"

definition sp_GetAllBlockHeight :: "('c, 'body) ShardPool \<Rightarrow> uint64 list \<Rightarrow> uint64 list" where
  "sp_GetAllBlockHeight p order = map sht (sp_validPool p) @ map sht (range_values (sp_pendingPool p) order)"

definition sp_GetBlockByHeight :: "('c, 'body) ShardPool \<Rightarrow> uint64 list \<Rightarrow> uint64 \<Rightarrow> 'body ShardBlock option" where
  "sp_GetBlockByHeight p order h =
     (case find_height sht (sp_validPool p) h of
        Some b \<Rightarrow> Some b
      | None \<Rightarrow> find_height sht (range_values (sp_pendingPool p) order) h)"

section \<open>Invariant\<close>

text \<open>
  The valid pool is a chain of blocks the beacon chain knows (\<open>bb\<close> gives the height the beacon has
  confirmed for each shard), pending blocks are filed under their height, the caps hold.
\<close>

definition sp_core :: "(bytes \<Rightarrow> bytes) \<Rightarrow> (byte \<Rightarrow> uint64) \<Rightarrow> ('c, 'body) ShardPool \<Rightarrow> bool" where
  "sp_core sum256 bb p \<longleftrightarrow>
     fmpred (\<lambda>k b. sht b = k) (sp_pendingPool p) \<and>
     linked sht (shash sum256) sprev (sp_validPool p) \<and>
     (\<forall>b \<in> set (sp_validPool p). sht b \<noteq> 0 \<and> sht b \<le> bb (sh_ShardID (sb_Header b))) \<and>
     length (sp_validPool p) \<le> spc_MaxValidBlock (sp_config p) \<and>
     map_len (sp_pendingPool p) \<le> spc_MaxPendingBlock (sp_config p)"

definition sp_inv :: "(bytes \<Rightarrow> bytes) \<Rightarrow> (byte \<Rightarrow> uint64) \<Rightarrow> ('c, 'body) ShardPool \<Rightarrow> bool" where
  "sp_inv sum256 bb p \<longleftrightarrow> sp_core sum256 bb p \<and>
     (sp_validPool p \<noteq> [] \<longrightarrow> sp_latestValidHeight p = sht (last (sp_validPool p)))"

interpretation spool: chain_pool sp_validPool sp_latestValidHeight sht "shash sum256" sprev "sp_inv sum256 bb"
  for sum256 bb
  by unfold_locales (auto simp: sp_inv_def sp_core_def)

lemma sp_inv_InitShardPool: "sp_inv sum256 bb (InitShardPool n s best)"
  by (simp add: sp_inv_def sp_core_def InitShardPool_def SetShardState_def newShardPool_def)

lemma sp_inv_validate:
  "ValidateShardBlock sum256 L b isP p = (q, e) \<Longrightarrow> sp_inv sum256 bb q = sp_inv sum256 bb p"
  using ValidateShardBlock_frame [of sum256 L b isP p q e] by (simp add: sp_inv_def sp_core_def)

lemma ValidateShardBlock_None:
  "ValidateShardBlock sum256 L b isP p = (q, None) \<Longrightarrow>
     sp_latestValidHeight p < sht b \<and>
     (\<not> isP \<longrightarrow> fmlookup (sp_pendingPool p) (sht b) = None \<and>
                map_len (sp_pendingPool p) < spc_MaxPendingBlock (sp_config p))"
  by (auto simp: ValidateShardBlock_def Let_def split: prod.splits if_splits)

lemma sp_inv_pend:
  assumes "sp_inv sum256 bb p"
    and "fmlookup (sp_pendingPool p) (sht b) = Some b \<or>
         map_len (sp_pendingPool p) < spc_MaxPendingBlock (sp_config p)"
  shows "sp_inv sum256 bb (p\<lparr>sp_pendingPool := fmupd (sht b) b (sp_pendingPool p)\<rparr>)"
  using assms by (auto simp: sp_inv_def sp_core_def map_len_fmupd)

lemma sp_inv_drop_tip:
  assumes "sp_inv sum256 bb p"
  shows "sp_inv sum256 bb (updateLatestShardState best
           (p\<lparr>sp_validPool := take (length (sp_validPool p) - 1) (sp_validPool p)\<rparr>))"
proof -
  have "linked sht (shash sum256) sprev (butlast (sp_validPool p))"
    using assms by (intro linked_butlast) (simp add: sp_inv_def sp_core_def)
  with assms show ?thesis unfolding butlast_conv_take [symmetric]
    by (auto simp: sp_inv_def sp_core_def updateLatestShardState_last dest: in_set_butlastD)
qed

lemma sp_inv_append:
  assumes "sp_inv sum256 bb p" and "sht b \<noteq> 0" and "sp_latestValidHeight p + 1 = sht b"
    and "sht b \<le> bb (sh_ShardID (sb_Header b))"
    and "length (sp_validPool p) < spc_MaxValidBlock (sp_config p)"
    and "sp_validPool p \<noteq> [] \<longrightarrow> sprev b = shash sum256 (last (sp_validPool p))"
  shows "sp_inv sum256 bb (p\<lparr>sp_validPool := sp_validPool p @ [b], sp_latestValidHeight := sht b\<rparr>)"
  using assms by (auto simp: sp_inv_def sp_core_def intro!: linked_snoc)

lemma sp_inv_insert:
  assumes inv: "sp_inv sum256 bb p" and gt: "sp_latestValidHeight p < sht b"
    and room: "fmlookup (sp_pendingPool p) (sht b) = Some b \<or>
         map_len (sp_pendingPool p) < spc_MaxPendingBlock (sp_config p)"
    and ins: "insertNewShardBlockToPoolV2 sum256 L bb best b p = Inr (q, ok)"
  shows "sp_inv sum256 bb q"
proof (cases ok)
  case True
  have "sht b \<noteq> 0" using gt by auto
  with True ins sp_inv_append [OF inv, of b] show ?thesis by (simp add: insertNewShardBlock_True)
next
  case False
  let ?pend = "p\<lparr>sp_pendingPool := fmupd (sht b) b (sp_pendingPool p)\<rparr>"
  have pend: "sp_inv sum256 bb ?pend" by (rule sp_inv_pend [OF inv room])
  from False ins consider "q = ?pend" | "q = p"
    | c where "q = (updateLatestShardState best
        (?pend\<lparr>sp_validPool := take (length (sp_validPool p) - 1) (sp_validPool p)\<rparr>))\<lparr>sp_cache := c\<rparr>"
    by (auto simp: insertNewShardBlockToPoolV2_def Let_def split: if_splits option.splits)
  then show ?thesis
  proof cases
    case 3
    with sp_inv_drop_tip [OF pend, of best] show ?thesis by (simp add: sp_inv_def sp_core_def)
  qed (simp_all add: inv pend)
qed

lemma sp_inv_fmdrop: "sp_inv sum256 bb p \<Longrightarrow> sp_inv sum256 bb (p\<lparr>sp_pendingPool := fmdrop k (sp_pendingPool p)\<rparr>)"
  using map_len_fmdrop_le [of k "sp_pendingPool p"] by (auto simp: sp_inv_def sp_core_def)

text \<open>What validation, insertion and deletion of a pending entry keep, the promotion loop keeps.\<close>

lemma sp_promote_preserves:
  assumes "sp_promotePendingPool sum256 L bb best p = Inr q" and "P p"
    and val: "\<And>p b p1 e. P p \<Longrightarrow> ValidateShardBlock sum256 L b True p = (p1, e) \<Longrightarrow> P p1"
    and ins: "\<And>p b p1 p2 ok. P p \<Longrightarrow> fmlookup (sp_pendingPool p) (sp_latestValidHeight p + 1) = Some b \<Longrightarrow>
      ValidateShardBlock sum256 L b True p = (p1, None) \<Longrightarrow>
      insertNewShardBlockToPoolV2 sum256 L bb best b p1 = Inr (p2, ok) \<Longrightarrow> P p2"
    and drop: "\<And>p k. P p \<Longrightarrow> P (p\<lparr>sp_pendingPool := fmdrop k (sp_pendingPool p)\<rparr>)"
  shows "P q"
  using assms(1,2)
proof (induction p rule: measure_induct_rule [of "\<lambda>p. map_len (sp_pendingPool p)"])
  case (less p)
  let ?k = "sp_latestValidHeight p + 1"
  note run = less.prems(1) [unfolded sp_promotePendingPool.simps [of _ _ _ _ p] Let_def]
  show ?case
  proof (cases "fmlookup (sp_pendingPool p) ?k")
    case None
    with run less.prems show ?thesis by simp
  next
    case lk: (Some b)
    obtain p1 e where v: "ValidateShardBlock sum256 L b True p = (p1, e)" by fastforce
    show ?thesis
    proof (cases e)
      case (Some x)
      with run lk v val [OF less.prems(2) v] show ?thesis by simp
    next
      case None
      with run lk v obtain p2 ok where i: "insertNewShardBlockToPoolV2 sum256 L bb best b p1 = Inr (p2, ok)"
        by (auto split: sum.splits)
      have P2: "P p2" using ins [OF less.prems(2) lk _ i] v None by simp
      show ?thesis
      proof (cases ok)
        case True
        let ?q = "p2\<lparr>sp_pendingPool := fmdrop ?k (sp_pendingPool p2)\<rparr>"
        have "map_len (sp_pendingPool ?q) < map_len (sp_pendingPool p)"
          using sp_promote_decreases [OF lk] v None i True by simp
        moreover have "sp_promotePendingPool sum256 L bb best ?q = Inr q" using run lk v None i True by simp
        ultimately show ?thesis using less.IH drop [OF P2] by blast
      qed (use run lk v None i P2 in simp)
    qed
  qed
qed

lemma sp_inv_promote:
  assumes "sp_inv sum256 bb p" and "sp_promotePendingPool sum256 L bb best p = Inr q"
  shows "sp_inv sum256 bb q"
proof (rule sp_promote_preserves [where P = "sp_inv sum256 bb", OF assms(2,1)])
  fix p b p1 p2 ok
  assume inv: "sp_inv sum256 bb p" and lk: "fmlookup (sp_pendingPool p) (sp_latestValidHeight p + 1) = Some b"
    and v: "ValidateShardBlock sum256 L b True p = (p1, None)"
    and i: "insertNewShardBlockToPoolV2 sum256 L bb best b p1 = Inr (p2, ok)"
  have "sht b = sp_latestValidHeight p + 1" using lk inv by (auto simp: sp_inv_def sp_core_def dest: fmpredD)
  then show "sp_inv sum256 bb p2"
    using sp_inv_insert [OF _ _ _ i] sp_inv_validate [OF v] inv ValidateShardBlock_None [OF v] lk
      ValidateShardBlock_frame [OF v] by simp
qed (use sp_inv_validate sp_inv_fmdrop in blast)+

lemma sp_inv_AddShardBlock:
  assumes inv: "sp_inv sum256 bb p" and add: "AddShardBlock sum256 L bb best b p = Inr (q, e)"
  shows "sp_inv sum256 bb q"
proof -
  obtain p1 e1 where v: "ValidateShardBlock sum256 L b False p = (p1, e1)" by fastforce
  have i1: "sp_inv sum256 bb p1" using inv sp_inv_validate [OF v] by simp
  have i2: "sp_inv sum256 bb p2"
    if "e1 = None" "insertNewShardBlockToPoolV2 sum256 L bb best b p1 = Inr (p2, ok)" for p2 ok
    using sp_inv_insert [OF i1 _ _ that(2)] ValidateShardBlock_None [of sum256 L b False p p1] v that(1)
      ValidateShardBlock_frame [OF v] by simp
  show ?thesis
    using add v i1 i2 sp_inv_promote
    by (auto simp: AddShardBlock_def andThen_def split: option.splits sum.splits prod.splits)
qed

lemma sp_core_SetShardState: "sp_core sum256 bb (SetShardState h p) = sp_core sum256 bb p"
  by (simp add: sp_core_def SetShardState_def)

lemma sp_inv_RemoveBlock: "sp_core sum256 bb p \<Longrightarrow> sp_inv sum256 bb (sp_RemoveBlock sum256 L best h p)"
  by (auto simp: sp_RemoveBlock_def updateLatestShardState_last sp_inv_def sp_core_def
      intro: linked_dropWhile order_trans [OF length_dropWhile_le] dest: set_dropWhileD)

lemma sp_inv_CleanOldBlock: "sp_inv sum256 bb p \<Longrightarrow> sp_inv sum256 bb (sp_CleanOldBlock h p)"
  using map_len_fmfilter_le [of "\<lambda>k. \<not> k \<le> h" "sp_pendingPool p"]
  by (auto simp: sp_CleanOldBlock_def sp_inv_def sp_core_def)

lemma sp_inv_mono: "sp_inv sum256 bb p \<Longrightarrow> (\<And>s. bb s \<le> bb' s) \<Longrightarrow> sp_inv sum256 bb' p"
  unfolding sp_inv_def sp_core_def by (meson order_trans)

section \<open>The pool as a state machine\<close>

text \<open>
  The state is the pool together with the heights the beacon chain has confirmed. A block arrives,
  the beacon chain advances, a shard block of height \<open>h\<close> is committed (\<open>SetShardState\<close> and
  \<open>RemoveBlock\<close> in \<open>InsertShardBlock\<close>), the ticker runs. A step that deadlocks has no successor.
\<close>

inductive sp_step ::
  "(bytes \<Rightarrow> bytes) \<Rightarrow> ('c, 'body ShardBlock) lru \<Rightarrow> ('c, 'body) ShardPool \<Rightarrow> (byte \<Rightarrow> uint64)
   \<Rightarrow> ('c, 'body) ShardPool \<Rightarrow> (byte \<Rightarrow> uint64) \<Rightarrow> bool" for sum256 L where
  add: "AddShardBlock sum256 L bb best b p = Inr (q, e) \<Longrightarrow> sp_step sum256 L p bb q bb"
| beacon: "(\<And>s. bb s \<le> bb' s) \<Longrightarrow> sp_step sum256 L p bb p bb'"
| commit: "sp_step sum256 L p bb (sp_RemoveBlock sum256 L h h (SetShardState h p)) bb"
| tick: "sp_promotePendingPool sum256 L bb h (sp_RemoveBlock sum256 L h h p) = Inr q \<Longrightarrow> sp_step sum256 L p bb q bb"
| clean: "sp_step sum256 L p bb (sp_CleanOldBlock h p) bb"

inductive sp_reachable ::
  "(bytes \<Rightarrow> bytes) \<Rightarrow> ('c, 'body ShardBlock) lru \<Rightarrow> (nat \<Rightarrow> 'c) \<Rightarrow> ('c, 'body) ShardPool
   \<Rightarrow> (byte \<Rightarrow> uint64) \<Rightarrow> bool" for sum256 L lru_new where
  init: "sp_reachable sum256 L lru_new (InitShardPool lru_new s best) bb"
| step: "sp_reachable sum256 L lru_new p bb \<Longrightarrow> sp_step sum256 L p bb q bb' \<Longrightarrow> sp_reachable sum256 L lru_new q bb'"

lemma sp_inv_step: "sp_step sum256 L p bb q bb' \<Longrightarrow> sp_inv sum256 bb p \<Longrightarrow> sp_inv sum256 bb' q"
proof (induction rule: sp_step.induct)
  case (commit p bb h)
  then show ?case by (intro sp_inv_RemoveBlock) (simp add: sp_core_SetShardState sp_inv_def)
next
  case (tick bb h p q)
  then show ?case using sp_inv_promote sp_inv_RemoveBlock sp_inv_def by metis
qed (auto intro: sp_inv_AddShardBlock sp_inv_mono sp_inv_CleanOldBlock)

lemma sp_inv_reachable: "sp_reachable sum256 L lru_new p bb \<Longrightarrow> sp_inv sum256 bb p"
  by (induction rule: sp_reachable.induct) (auto intro: sp_inv_InitShardPool sp_inv_step)

lemma sp_insert_config:
  "insertNewShardBlockToPoolV2 sum256 L bb best b p = Inr (q, ok) \<Longrightarrow> sp_config q = sp_config p"
  by (auto simp: insertNewShardBlockToPoolV2_def updateLatestShardState_def Let_def split: if_splits option.splits)

lemma sp_promote_config: "sp_promotePendingPool sum256 L bb best p = Inr q \<Longrightarrow> sp_config q = sp_config p"
proof (erule sp_promote_preserves [where P = "\<lambda>r. sp_config r = sp_config p"])
qed (simp_all add: ValidateShardBlock_frame sp_insert_config)

lemma AddShardBlock_config: "AddShardBlock sum256 L bb best b p = Inr (q, e) \<Longrightarrow> sp_config q = sp_config p"
  by (auto simp: AddShardBlock_def andThen_def split: prod.splits option.splits sum.splits
      dest!: ValidateShardBlock_frame sp_insert_config sp_promote_config)

lemma sp_config_reachable: "sp_reachable sum256 L lru_new p bb \<Longrightarrow> sp_config p = defaultConfig"
proof (induction rule: sp_reachable.induct)
  case (init s best bb)
  show ?case by (simp add: InitShardPool_def newShardPool_def SetShardState_def)
next
  case (step p bb q bb')
  have "sp_config q = sp_config p"
    using step(2) by cases (auto simp: AddShardBlock_config sp_RemoveBlock_def sp_CleanOldBlock_def
        SetShardState_def updateLatestShardState_last dest: sp_promote_config)
  with step show ?case by simp
qed

section \<open>Properties\<close>

text \<open>C2: in every reachable state of a shard pool the valid pool is a chain of blocks that the beacon
  chain has already confirmed: each block names the hash of its predecessor, heights increase by
  one without wrapping around, the latest valid height is the tip's, and the caps hold.
\<close>

theorem sp_valid_chain:
  assumes "sp_reachable sum256 L lru_new p bb"
  shows "linked sht (shash sum256) sprev (sp_validPool p)
    \<and> sorted_wrt (<) (sp_GetValidBlockHeight p)
    \<and> list_all (\<lambda>b. sht b \<le> bb (sh_ShardID (sb_Header b))) (sp_validPool p)
    \<and> (sp_validPool p \<noteq> [] \<longrightarrow> sp_GetLatestValidBlockHeight p = GetShardState p)
    \<and> length (sp_validPool p) \<le> MAX_VALID_SHARD_BLK_IN_POOL
    \<and> map_len (sp_pendingPool p) \<le> MAX_PENDING_SHARD_BLK_IN_POOL"
  using sp_inv_reachable [OF assms] sp_config_reachable [OF assms] spool.heights_increasing [of sum256 bb p]
  by (simp add: sp_GetValidBlockHeight_def sp_GetValidBlock_def GetShardState_def sp_inv_def sp_core_def
      list_all_iff defaultConfig_def sp_GetLatestValidBlockHeight_def last_conv_nth Let_def)

definition ex_shard_block :: "uint64 \<Rightarrow> byte \<Rightarrow> nat ShardBlock" where
  "ex_shard_block h prev =
     \<lparr>sb_AggregatedSig = '''', sb_R = '''', sb_ValidatorsIdx = [], sb_ProducerSig = '''', sb_Body = 0,
      sb_Header = \<lparr>sh_ProducerAddress = \<lparr>pa_Pk = [], pa_Tk = []\<rparr>, sh_ShardID = 0, sh_Version = 1,
        sh_PrevBlockHash = replicate 32 prev, sh_Height = h, sh_Round = 1, sh_Epoch = 1, sh_Timestamp = 0,
        sh_TxRoot = zero_hash, sh_ShardTxRoot = zero_hash, sh_CrossTransactionRoot = zero_hash,
        sh_InstructionsRoot = zero_hash, sh_CommitteeRoot = zero_hash, sh_PendingValidatorRoot = zero_hash,
        sh_CrossShards = [], sh_BeaconHeight = 1, sh_BeaconHash = zero_hash\<rparr>\<rparr>"

lemma ex_shard_hash: "ShardHeader_Hash ex_sum256 h = replicate 32 1"
  by (simp add: ShardHeader_Hash_def HashH_def ex_sum256_def)

lemma ex_shard_block_sel [simp]:
  "sht (ex_shard_block h prev) = h" "sprev (ex_shard_block h prev) = replicate 32 prev"
  by (simp_all add: ex_shard_block_def)

definition ex_shard_pool :: "((hash \<times> nat ShardBlock) list, nat) ShardPool" where
  "ex_shard_pool = (InitShardPool (\<lambda>_. []) 0 1)
     \<lparr>sp_validPool := [ex_shard_block 2 1, ex_shard_block 3 1], sp_latestValidHeight := 3\<rparr>"

lemmas ex_shard_eval =
  AddShardBlock_def ValidateShardBlock_def insertNewShardBlockToPoolV2_def InitShardPool_def
  SetShardState_def newShardPool_def updateLatestShardState_def sp_promotePendingPool.simps
  MAX_VALID_SHARD_BLK_IN_POOL_def MAX_PENDING_SHARD_BLK_IN_POOL_def defaultConfig_def ex_shard_hash ex_lru_def
  map_len_fmupd Let_def word_le_nat_alt word_less_nat_alt andThen_def

lemma ex_shard_add2:
  "AddShardBlock ex_sum256 ex_lru (\<lambda>_. 9) 1 (ex_shard_block 2 1) (InitShardPool (\<lambda>_. []) 0 1)
   = Inr ((InitShardPool (\<lambda>_. []) 0 1)\<lparr>sp_validPool := [ex_shard_block 2 1], sp_latestValidHeight := 2\<rparr>, None)"
  by (simp add: ex_shard_eval)

lemma ex_shard_add3:
  "AddShardBlock ex_sum256 ex_lru (\<lambda>_. 9) 1 (ex_shard_block 3 1)
     ((InitShardPool (\<lambda>_. []) 0 1)\<lparr>sp_validPool := [ex_shard_block 2 1], sp_latestValidHeight := 2\<rparr>)
   = Inr (ex_shard_pool, None)"
  by (simp add: ex_shard_eval ex_shard_pool_def)

lemma ex_shard_pool_reachable: "sp_reachable ex_sum256 ex_lru (\<lambda>_. []) ex_shard_pool (\<lambda>_. 9)"
  by (rule sp_reachable.step [OF sp_reachable.step [OF sp_reachable.init
        sp_step.add [OF ex_shard_add2]] sp_step.add [OF ex_shard_add3]])

theorem sp_valid_chain_witness:
  "sp_reachable ex_sum256 ex_lru (\<lambda>_. []) ex_shard_pool (\<lambda>_. 9) \<and> sp_GetLatestValidBlockHeight ex_shard_pool = 3"
  using sp_valid_chain [OF ex_shard_pool_reachable] ex_shard_pool_reachable
  by (simp add: ex_shard_pool_def GetShardState_def)

text \<open>
  fork choice. A confirmed block for the next height that does not name the tip of the valid
  pool is parked in the pending pool; the tip is dropped and remembered in the cache as rejected,
  so that it cannot come back, and the latest valid height falls to the block before it.
\<close>

theorem sp_fork_drops_tip:
  assumes "sp_validPool p = vs @ [tip]" and "sht b = sp_latestValidHeight p + 1"
    and "sht b \<le> beaconBest (sh_ShardID (sb_Header b))"
    and "length (sp_validPool p) < spc_MaxValidBlock (sp_config p)"
    and "sprev b \<noteq> shash sum256 tip" and "fmlookup (sp_conflictedPool p) (sprev b) = None" and "lru_spec L"
  shows "\<exists>q. insertNewShardBlockToPoolV2 sum256 L beaconBest shardBest b p = Inr (q, False)
    \<and> sp_validPool q = vs \<and> fmlookup (sp_pendingPool q) (sht b) = Some b
    \<and> sp_latestValidHeight q = (if vs = [] then shardBest else sht (last vs))
    \<and> snd (ValidateShardBlock sum256 L tip False q) = Some OldBlockError"
proof -
  let ?c = "lru_add L (sp_cache p) (shash sum256 tip) tip"
  let ?q = "p\<lparr>sp_pendingPool := fmupd (sht b) b (sp_pendingPool p), sp_validPool := vs,
    sp_latestValidHeight := if vs = [] then shardBest else sht (last vs), sp_cache := ?c\<rparr>"
  have ins: "insertNewShardBlockToPoolV2 sum256 L beaconBest shardBest b p = Inr (?q, False)"
    using assms(1-6) by (simp add: insertNewShardBlockToPoolV2_def updateLatestShardState_last Let_def not_less)
  obtain c where "lru_get L ?c (shash sum256 tip) = (c, Some tip)"
    using assms(7) by (metis lru_spec_def prod.collapse)
  then have "snd (ValidateShardBlock sum256 L tip False ?q) = Some OldBlockError"
    by (simp add: ValidateShardBlock_def Let_def)
  with ins show ?thesis by (intro exI [of _ ?q]) simp
qed

theorem sp_fork_drops_tip_witness:
  "\<exists>q. insertNewShardBlockToPoolV2 ex_sum256 ex_lru (\<lambda>_. 9) 1 (ex_shard_block 4 7) ex_shard_pool = Inr (q, False)
     \<and> sp_validPool q = [ex_shard_block 2 1]"
proof -
  have "hd (replicate 32 (7 :: byte)) \<noteq> hd (replicate 32 1)" by simp
  then have "replicate 32 (7 :: byte) \<noteq> replicate 32 1" by metis
  then show ?thesis
    using sp_fork_drops_tip [where p = ex_shard_pool and vs = "[ex_shard_block 2 1]" and tip = "ex_shard_block 3 1"
        and b = "ex_shard_block 4 7" and beaconBest = "\<lambda>_. 9" and L = ex_lru and ?sum256.0 = ex_sum256
        and shardBest = 1, OF _ _ _ _ _ _ lru_spec_ex_lru]
    by (auto simp: ex_shard_pool_def InitShardPool_def newShardPool_def SetShardState_def defaultConfig_def
        MAX_VALID_SHARD_BLK_IN_POOL_def ex_shard_hash word_le_nat_alt)
qed

subsection \<open>A deadlock\<close>

text \<open>A late block is remembered as a conflicting one.\<close>

lemma AddShardBlock_late:
  assumes "snd (lru_get L (sp_cache p) (shash sum256 a)) = None"
    and "unat (sht a) + 2 < unat (sp_latestValidHeight p)"
  shows "AddShardBlock sum256 L bb best a p =
    Inr (p\<lparr>sp_cache := fst (lru_get L (sp_cache p) (shash sum256 a)),
           sp_conflictedPool := fmupd (shash sum256 a) a (sp_conflictedPool p)\<rparr>, Some OldBlockError)"
proof -
  have "sht a \<le> sp_latestValidHeight p" "sp_latestValidHeight p - sht a > 2"
    using assms(2) by (simp_all add: word_le_nat_alt word_less_nat_alt unat_sub)
  then show ?thesis using assms(1) by (simp add: AddShardBlock_def ValidateShardBlock_def Let_def split_beta)
qed

text \<open>C32: two blocks lock a shard pool up. Take a pool with room whose last valid block is \<open>tip\<close>, and two blocks that nobody
  has rejected: \<open>a\<close>, more than two heights below the tip, and \<open>b\<close>, at the next height, which the beacon chain has
  confirmed and no pending block has, and which names \<open>a\<close> as its parent. Adding \<open>a\<close> returns an error but
  remembers \<open>a\<close> in the conflicted pool; adding \<open>b\<close> then calls \<open>AddShardBlock\<close> with the mutex already held and never returns.
\<close>

theorem sp_two_blocks_deadlock:
  assumes "lru_spec L" and "sp_validPool p = vs @ [tip]" and "length (sp_validPool p) < spc_MaxValidBlock (sp_config p)"
    and "map_len (sp_pendingPool p) < spc_MaxPendingBlock (sp_config p)" and "fmlookup (sp_pendingPool p) (sht b) = None"
    and "snd (lru_get L (sp_cache p) (shash sum256 a)) = None" and "snd (lru_get L (sp_cache p) (shash sum256 b)) = None"
    and "unat (sht a) + 2 < unat (sp_latestValidHeight p)" and "unat (sht b) = unat (sp_latestValidHeight p) + 1"
    and "sht b \<le> bb (sh_ShardID (sb_Header b))" and "sprev b = shash sum256 a" and "shash sum256 a \<noteq> shash sum256 tip"
  shows "\<exists>q. AddShardBlock sum256 L bb best a p = Inr (q, Some OldBlockError)
    \<and> AddShardBlock sum256 L bb best' b q = Inl Deadlock"
proof -
  let ?q = "p\<lparr>sp_cache := fst (lru_get L (sp_cache p) (shash sum256 a)),
    sp_conflictedPool := fmupd (shash sum256 a) a (sp_conflictedPool p)\<rparr>"
  have nxt: "sp_latestValidHeight p + 1 = sht b" using arg_cong [OF assms(9), of "of_nat :: nat \<Rightarrow> uint64"] by simp
  have above: "\<not> sht b \<le> sp_latestValidHeight p" using assms(9) by (simp add: word_le_nat_alt)
  have "snd (lru_get L (sp_cache ?q) (shash sum256 b)) = None"
    using assms(1,7) by (simp add: lru_spec_def)
  then have "ValidateShardBlock sum256 L b False ?q = (?q\<lparr>sp_cache := fst (lru_get L (sp_cache ?q) (shash sum256 b))\<rparr>, None)"
    using assms(3-5) above by (simp add: ValidateShardBlock_def Let_def split_beta)
  then have "AddShardBlock sum256 L bb best' b ?q = Inl Deadlock"
    using assms(2,3,11,12) leD [OF assms(10)] nxt
    by (simp add: AddShardBlock_def insertNewShardBlockToPoolV2_def updateLatestShardState_last Let_def andThen_def)
  then show ?thesis using AddShardBlock_late [OF assms(6,8)] by blast
qed

text \<open>An example: the digest repeats the first byte of its input, which differs for another producer.\<close>

definition ex_head_digest :: "bytes \<Rightarrow> bytes" where "ex_head_digest bs = replicate 32 (hd bs)"

definition ex_late_block :: "nat ShardBlock" where
  "ex_late_block = (ex_shard_block 1 7)\<lparr>sb_Header := (sb_Header (ex_shard_block 1 7))
     \<lparr>sh_ProducerAddress := \<lparr>pa_Pk = [17], pa_Tk = []\<rparr>\<rparr>\<rparr>"

lemma ex_head_hash:
  "ShardHeader_Hash ex_head_digest (sb_Header (ex_shard_block h prev)) = replicate 32 0"
  "ShardHeader_Hash ex_head_digest (sb_Header ex_late_block) = replicate 32 49"
  by (simp_all add: ShardHeader_Hash_def HashH_def ex_head_digest_def ShardHeader_String_def PaymentAddress_String_def
      PaymentAddress_Bytes_def string_of_rune_def bytes_of_string_def hex_encode_def hex_char_def char_of_def of_char_def bit_0
      ex_shard_block_def ex_late_block_def)

lemma ex_late_height: "sht ex_late_block = 1"
  by (simp add: ex_late_block_def)

definition ex_one_block_pool :: "((hash \<times> nat ShardBlock) list, nat) ShardPool" where
  "ex_one_block_pool = (InitShardPool (\<lambda>_. []) 0 3)\<lparr>sp_validPool := [ex_shard_block 4 0], sp_latestValidHeight := 4\<rparr>"

lemma ex_one_block_reachable: "sp_reachable ex_head_digest ex_lru (\<lambda>_. []) ex_one_block_pool (\<lambda>_. 9)"
proof -
  have "AddShardBlock ex_head_digest ex_lru (\<lambda>_. 9) 3 (ex_shard_block 4 0) (InitShardPool (\<lambda>_. []) 0 3) = Inr (ex_one_block_pool, None)"
    by (simp add: ex_shard_eval ex_head_hash ex_one_block_pool_def)
  then show ?thesis by (rule sp_reachable.step [OF sp_reachable.init sp_step.add])
qed

theorem sp_two_blocks_deadlock_witness:
  "sp_reachable ex_head_digest ex_lru (\<lambda>_. []) ex_one_block_pool (\<lambda>_. 9)
    \<and> (\<exists>q. AddShardBlock ex_head_digest ex_lru (\<lambda>_. 9) 3 ex_late_block ex_one_block_pool = Inr (q, Some OldBlockError)
        \<and> AddShardBlock ex_head_digest ex_lru (\<lambda>_. 9) 3 (ex_shard_block 5 49) q = Inl Deadlock)"
proof -
  have ne: "replicate 32 (49 :: byte) \<noteq> replicate 32 0" by simp
  have "\<exists>q. AddShardBlock ex_head_digest ex_lru (\<lambda>_. 9) 3 ex_late_block ex_one_block_pool = Inr (q, Some OldBlockError)
        \<and> AddShardBlock ex_head_digest ex_lru (\<lambda>_. 9) 3 (ex_shard_block 5 49) q = Inl Deadlock"
    by (rule sp_two_blocks_deadlock [OF lru_spec_ex_lru, where vs = "[]" and tip = "ex_shard_block 4 0"])
      (use ne in \<open>simp_all add: ex_one_block_pool_def InitShardPool_def newShardPool_def SetShardState_def defaultConfig_def ex_lru_def ex_head_hash
        MAX_VALID_SHARD_BLK_IN_POOL_def MAX_PENDING_SHARD_BLK_IN_POOL_def word_le_nat_alt ex_late_height\<close>)
  then show ?thesis using ex_one_block_reachable by blast
qed

end
