(* ===== verification/Merkle_Tree.thy ===== *)
theory Merkle_Tree
  imports Hash_Type "HOL-Library.Log_Nat"
begin

text \<open>
  \<open>src/blockchain/merkle.go\<close>: Merkle trees stored in a linear array, and the inclusion paths that
  cross-shard blocks carry. An entry of the array is a pointer, \<open>None\<close> being nil. The loop of
  \<open>GetMerklePathForCrossShard\<close> need not end on an arbitrary array, so it is a partial function;
  on the trees the builder produces it does end (lemma \<open>path_loop_returns\<close>).
\<close>

section \<open>Definitions\<close>

text \<open>\<open>uint(math.Log2(float64(n))) + 1\<close> is \<open>floorlog 2 n\<close>, the number of binary digits of \<open>n\<close>.\<close>

definition NextPowerOfTwo :: "nat \<Rightarrow> nat" where
  "NextPowerOfTwo n = (if and n (n - 1) = 0 then n else push_bit (floorlog 2 n) 1)"

definition hashMerkleBranches :: "(bytes \<Rightarrow> bytes) \<Rightarrow> hash \<Rightarrow> hash \<Rightarrow> hash" where
  "hashMerkleBranches sum256 left right = HashH sum256 (left @ right)"

fun merkle_parent :: "(bytes \<Rightarrow> bytes) \<Rightarrow> hash option \<Rightarrow> hash option \<Rightarrow> hash option" where
  "merkle_parent sum256 None _ = None"
| "merkle_parent sum256 (Some l) None = Some (hashMerkleBranches sum256 l l)"
| "merkle_parent sum256 (Some l) (Some r) = Some (hashMerkleBranches sum256 l r)"

text \<open>The loop \<open>for i := 0; i < arraySize-1; i += 2\<close> that fills in the parents from \<open>offset\<close> on.\<close>

function merkle_loop :: "(bytes \<Rightarrow> bytes) \<Rightarrow> hash option list \<Rightarrow> nat \<Rightarrow> nat \<Rightarrow> hash option list" where
  "merkle_loop sum256 ms i offset =
     (if i + 1 < length ms
      then merkle_loop sum256 (ms[offset := merkle_parent sum256 (ms ! i) (ms ! (i + 1))]) (i + 2) (offset + 1)
      else ms)"
  by pat_completeness auto
termination
  by (relation "measure (\<lambda>(_, ms, i, _). length ms - i)") auto

declare merkle_loop.simps [simp del]

definition BuildMerkleTreeStore :: "(bytes \<Rightarrow> bytes) \<Rightarrow> ('tx \<Rightarrow> hash) \<Rightarrow> 'tx list \<Rightarrow> hash option list" where
  "BuildMerkleTreeStore sum256 txHash transactions =
     (if length transactions = 0 then []
      else let nextPoT = NextPowerOfTwo (length transactions);
               arraySize = nextPoT * 2 - 1;
               merkles = map (\<lambda>tx. Some (txHash tx)) transactions
                         @ replicate (arraySize - length transactions) None
           in merkle_loop sum256 merkles 0 nextPoT)"

definition empty_str_hash :: "hash option" where
  "empty_str_hash = (case NewHashFromStr '''' of Inl e \<Rightarrow> None | Inr h \<Rightarrow> Some h)"

definition BuildMerkleTreeOfHashes ::
  "(bytes \<Rightarrow> bytes) \<Rightarrow> hash option list \<Rightarrow> nat \<Rightarrow> fault + hash option list" where
  "BuildMerkleTreeOfHashes sum256 shardsHash len =
     (let nextPoT = NextPowerOfTwo len in
      if nextPoT = 0 then Inl MakeNegative
      else let arraySize = nextPoT * 2 - 1;
               merkles = take arraySize shardsHash
                         @ replicate (arraySize - length shardsHash) empty_str_hash
           in Inr (merkle_loop sum256 merkles 0 nextPoT))"

definition VerifyMerkleRootOfHashes ::
  "(bytes \<Rightarrow> bytes) \<Rightarrow> hash option list \<Rightarrow> hash \<Rightarrow> nat \<Rightarrow> fault + bool" where
  "VerifyMerkleRootOfHashes sum256 merkleTree merkleRoot len =
     andThen (BuildMerkleTreeOfHashes sum256 merkleTree len) (\<lambda>res.
       case last res of None \<Rightarrow> Inl NilDereference
       | Some rt \<Rightarrow> Inr (ByteEqual (Hash_GetBytes rt) (Hash_GetBytes merkleRoot)))"

fun deref_all :: "hash option list \<Rightarrow> fault + hash list" where
  "deref_all [] = Inr []"
| "deref_all (None # _) = Inl NilDereference"
| "deref_all (Some h # hs) = andThen (deref_all hs) (\<lambda>r. Inr (h # r))"

definition BuildMerkleTreeOfHashes2 :: "(bytes \<Rightarrow> bytes) \<Rightarrow> hash list \<Rightarrow> nat \<Rightarrow> fault + hash list" where
  "BuildMerkleTreeOfHashes2 sum256 shardsHashes len =
     (let temp = map (\<lambda>h. case NewHashFromStr (Hash_String h) of Inl e \<Rightarrow> None | Inr x \<Rightarrow> Some x) shardsHashes
      in andThen (BuildMerkleTreeOfHashes sum256 temp len) deref_all)"

definition VerifyMerkleRootOfHashes2 :: "(bytes \<Rightarrow> bytes) \<Rightarrow> hash list \<Rightarrow> hash \<Rightarrow> nat \<Rightarrow> fault + bool" where
  "VerifyMerkleRootOfHashes2 sum256 merkleTree merkleRoot len =
     andThen (BuildMerkleTreeOfHashes2 sum256 merkleTree len) (\<lambda>res.
       Inr (ByteEqual (Hash_GetBytes (last res)) (Hash_GetBytes merkleRoot)))"

partial_function (option) merkle_path_loop ::
  "hash list \<Rightarrow> nat \<Rightarrow> nat \<Rightarrow> nat \<Rightarrow> nat \<Rightarrow> nat \<Rightarrow> hash list \<Rightarrow> (fault + hash list) option" where
  "merkle_path_loop tree nextPoT cursor lastCursor i time path =
     (if cursor + 2 \<ge> length tree then Some (Inr path)
      else let j = (if i mod 2 = 0 then cursor + i + 1 else cursor + i - 1) in
           if j \<ge> length tree then Some (Inl IndexOutOfRange)
           else if time = 0 then
             merkle_path_loop tree nextPoT (cursor + nextPoT) lastCursor (i div 2) (time + 1) (path @ [tree ! j])
           else
             merkle_path_loop tree nextPoT (cursor + (cursor - lastCursor) div 2) cursor (i div 2) (time + 1)
               (path @ [tree ! j]))"

definition GetMerklePathForCrossShard ::
  "nat \<Rightarrow> hash list \<Rightarrow> byte \<Rightarrow> (fault + hash list \<times> hash) option" where
  "GetMerklePathForCrossShard len merkleTree shardID =
     map_option (\<lambda>r. andThen r (\<lambda>path.
         andThen (index merkleTree (length merkleTree - 1)) (\<lambda>rt. Inr (path, rt))))
       (merkle_path_loop merkleTree (NextPowerOfTwo len) 0 0 (unat shardID) 0 [])"

fun merkle_fold :: "(bytes \<Rightarrow> bytes) \<Rightarrow> hash \<Rightarrow> hash list \<Rightarrow> nat \<Rightarrow> hash" where
  "merkle_fold sum256 finalHash [] i = finalHash"
| "merkle_fold sum256 finalHash (hashPath # path) i =
     merkle_fold sum256
       (if i mod 2 = 0 then hashMerkleBranches sum256 finalHash hashPath
        else hashMerkleBranches sum256 hashPath finalHash) path (i div 2)"

definition VerifyMerkleRootFromMerklePath ::
  "(bytes \<Rightarrow> bytes) \<Rightarrow> hash \<Rightarrow> hash list \<Rightarrow> hash \<Rightarrow> byte \<Rightarrow> bool" where
  "VerifyMerkleRootFromMerklePath sum256 leaf merklePath merkleRoot receiverShardID =
     Hash_IsEqual (Some merkleRoot) (Some (merkle_fold sum256 leaf merklePath (unat receiverShardID)))"

definition CalcMerkleRoot :: "(bytes \<Rightarrow> bytes) \<Rightarrow> ('tx \<Rightarrow> hash) \<Rightarrow> 'tx list \<Rightarrow> fault + hash" where
  "CalcMerkleRoot sum256 txHash txns =
     (if length txns = 0 then Inr zero_hash
      else case last (BuildMerkleTreeStore sum256 txHash txns) of
             None \<Rightarrow> Inl NilDereference | Some h \<Rightarrow> Inr h)"

section \<open>Powers of two\<close>

lemma and_power_pred: "and (2 ^ k) (2 ^ k - 1) = (0 :: nat)"
  using take_bit_eq_mask [of k "2 ^ k :: nat"] by (simp add: mask_eq_exp_minus_1)

lemma NextPowerOfTwo_power [simp]: "NextPowerOfTwo (2 ^ k) = 2 ^ k"
  by (simp only: NextPowerOfTwo_def and_power_pred simp_thms if_True)

lemma floorlog_two: "0 < n \<Longrightarrow> n < 2 ^ floorlog 2 n \<and> 2 ^ floorlog 2 n \<le> 2 * n"
  using floorlog_bounds [of n 2] by (cases "floorlog 2 n") (auto simp: floorlog_eq_zero_iff)

text \<open>A number that shares no bit with its predecessor is zero or a power of two.\<close>

lemma and_div2: "and (n :: nat) m div 2 = and (n div 2) (m div 2)"
  by (metis drop_bit_Suc drop_bit_and drop_bit_0 id_apply)

lemma and_pred_power: "and n (n - 1) = (0 :: nat) \<Longrightarrow> 0 < n \<Longrightarrow> \<exists>k. n = 2 ^ k"
proof (induction n rule: less_induct)
  case (less n)
  have z: "and (n div 2) ((n - 1) div 2) = 0" using and_div2 [of n "n - 1"] less.prems(1) by simp
  show ?case
  proof (cases "even n")
    case True
    then obtain m where m: "n = 2 * m" by blast
    have "(n - 1) div 2 = m - 1" using m less.prems by (cases m) auto
    then obtain k where "m = 2 ^ k" using less.IH [of m] less.prems m z by auto
    then show ?thesis using m by (intro exI [of _ "Suc k"]) simp
  next
    case False
    then obtain m where "n = 2 * m + 1" by (elim oddE)
    with z show ?thesis by (intro exI [of _ 0]) simp
  qed
qed

lemma NextPowerOfTwo_spec: "0 < n \<Longrightarrow> \<exists>k. NextPowerOfTwo n = 2 ^ k \<and> n \<le> 2 ^ k \<and> 2 ^ k < 2 * n"
proof (cases "and n (n - 1) = 0")
  case True
  assume "0 < n"
  then show ?thesis using and_pred_power [OF True] True by (auto simp: NextPowerOfTwo_def)
next
  case False
  assume n: "0 < n"
  have "2 ^ floorlog 2 n \<noteq> 2 * n"
  proof
    assume eq: "2 ^ floorlog 2 n = 2 * n"
    then have "floorlog 2 n \<noteq> 0" by (intro notI) simp
    then obtain k where "floorlog 2 n = Suc k" using not0_implies_Suc by blast
    with eq have "n = 2 ^ k" by simp
    with False and_power_pred [of k] show False by simp
  qed
  with floorlog_two [OF n] show ?thesis
    using False by (intro exI [of _ "floorlog 2 n"]) (auto simp: NextPowerOfTwo_def push_bit_eq_mult)
qed

section \<open>The array of a tree\<close>

lemma length_merkle_loop [simp]: "length (merkle_loop sum256 ms i offset) = length ms"
  by (induction sum256 ms i offset rule: merkle_loop.induct) (simp add: merkle_loop.simps)

text \<open>
  From round \<open>k\<close> on (\<open>i = 2k\<close>, \<open>offset = P + k\<close>) the loop leaves everything below \<open>P + k\<close> alone
  and makes each later entry the parent of its two children, whose final values it reads.
\<close>

lemma merkle_loop_spec:
  assumes "length ms = 2 * P - 1" and "0 < P" and "k \<le> P - 1"
  shows "(\<forall>j < P + k. merkle_loop sum256 ms (2 * k) (P + k) ! j = ms ! j) \<and>
    (\<forall>k'. k \<le> k' \<and> k' < P - 1 \<longrightarrow>
       merkle_loop sum256 ms (2 * k) (P + k) ! (P + k') =
       merkle_parent sum256 (merkle_loop sum256 ms (2 * k) (P + k) ! (2 * k'))
         (merkle_loop sum256 ms (2 * k) (P + k) ! (2 * k' + 1)))"
  using assms
proof (induction "P - 1 - k" arbitrary: k ms)
  case 0
  then have "merkle_loop sum256 ms (2 * k) (P + k) = ms"
    by (subst merkle_loop.simps) auto
  with 0 show ?case by auto
next
  case (Suc d)
  let ?ms = "ms[P + k := merkle_parent sum256 (ms ! (2 * k)) (ms ! (2 * k + 1))]"
  let ?R = "merkle_loop sum256 ?ms (2 * Suc k) (P + Suc k)"
  have step: "merkle_loop sum256 ms (2 * k) (P + k) = ?R"
    using Suc by (subst merkle_loop.simps) auto
  have IH: "(\<forall>j < P + Suc k. ?R ! j = ?ms ! j) \<and>
    (\<forall>k'. Suc k \<le> k' \<and> k' < P - 1 \<longrightarrow> ?R ! (P + k') = merkle_parent sum256 (?R ! (2 * k')) (?R ! (2 * k' + 1)))"
    using Suc(2-) by (intro Suc(1)) auto
  have below: "?R ! j = ms ! j" if "j < P + k" for j using IH that by auto
  have at: "?R ! (P + k) = merkle_parent sum256 (?R ! (2 * k)) (?R ! (2 * k + 1))"
    using IH Suc(2-) by auto
  show ?case unfolding step
    using IH below at by (auto simp: less_Suc_eq_le le_Suc_eq dest: le_neq_implies_less)
qed

lemma merkle_loop_leaf:
  "length ms = 2 * P - 1 \<Longrightarrow> 0 < P \<Longrightarrow> j < P \<Longrightarrow> merkle_loop sum256 ms 0 P ! j = ms ! j"
  using merkle_loop_spec [of ms P 0 sum256] by simp

lemma merkle_loop_node:
  "length ms = 2 * P - 1 \<Longrightarrow> 0 < P \<Longrightarrow> k < P - 1 \<Longrightarrow>
   merkle_loop sum256 ms 0 P ! (P + k) =
   merkle_parent sum256 (merkle_loop sum256 ms 0 P ! (2 * k)) (merkle_loop sum256 ms 0 P ! (2 * k + 1))"
  using merkle_loop_spec [of ms P 0 sum256] by simp

text \<open>A full tree over \<open>P\<close> leaves: every entry from \<open>P\<close> on is the hash of its two children.\<close>

definition merkle_tree :: "(bytes \<Rightarrow> bytes) \<Rightarrow> nat \<Rightarrow> hash list \<Rightarrow> bool" where
  "merkle_tree sum256 P tree \<longleftrightarrow> 0 < P \<and> length tree = 2 * P - 1 \<and>
     (\<forall>k < P - 1. tree ! (P + k) = hashMerkleBranches sum256 (tree ! (2 * k)) (tree ! (2 * k + 1)))"

lemma merkle_loop_Some:
  assumes len: "length ms = 2 * P - 1" and P: "0 < P" and leaves: "\<And>j. j < P \<Longrightarrow> ms ! j \<noteq> None"
  shows "j < 2 * P - 1 \<Longrightarrow> merkle_loop sum256 ms 0 P ! j \<noteq> None"
proof (induction j rule: less_induct)
  case (less j)
  show ?case
  proof (cases "j < P")
    case True
    then show ?thesis using leaves by (simp add: merkle_loop_leaf [OF len P])
  next
    case False
    then obtain k where k: "j = P + k" using le_Suc_ex not_less by blast
    with less.prems have k1: "Suc k < P" by simp
    then have "2 * k < 2 * P - 1" "2 * k + 1 < 2 * P - 1" "2 * k < j" "2 * k + 1 < j" using k by simp_all
    then obtain a b where "merkle_loop sum256 ms 0 P ! (2 * k) = Some a"
      "merkle_loop sum256 ms 0 P ! (2 * k + 1) = Some b"
      using less.IH [of "2 * k"] less.IH [of "2 * k + 1"] by auto
    with k1 show ?thesis by (simp add: k merkle_loop_node [OF len P])
  qed
qed

lemma deref_all_Some: "(\<forall>x \<in> set xs. x \<noteq> None) \<Longrightarrow> deref_all xs = Inr (map the xs)"
  by (induction xs rule: deref_all.induct) (auto simp: andThen_def)

lemma empty_str_hash_eq: "empty_str_hash = Some zero_hash"
  by (simp add: empty_str_hash_def NewHashFromStr_def Hash_Decode_def zero_hash_def)

lemma BuildMerkleTreeOfHashes2_tree:
  assumes P: "NextPowerOfTwo len = P" "0 < P" and hs: "length hs \<le> P" "\<forall>h \<in> set hs. wf_hash h"
  obtains tree where "BuildMerkleTreeOfHashes2 sum256 hs len = Inr tree" "merkle_tree sum256 P tree"
    "\<And>j. j < P \<Longrightarrow> tree ! j = (if j < length hs then hs ! j else zero_hash)"
proof -
  let ?ms = "map Some hs @ replicate (2 * P - 1 - length hs) empty_str_hash"
  let ?R = "merkle_loop sum256 ?ms 0 P"
  have len: "length ?ms = 2 * P - 1" using hs(1) P(2) by simp
  have leaf: "?ms ! j = Some (if j < length hs then hs ! j else zero_hash)" if "j < P" for j
    using that hs(1) by (auto simp: nth_append empty_str_hash_eq)
  have temp: "map (\<lambda>h. case NewHashFromStr (Hash_String h) of Inl e \<Rightarrow> None | Inr x \<Rightarrow> Some x) hs = map Some hs"
    using hs(2) by (simp add: NewHashFromStr_String)
  have "take (P * 2 - 1) (map Some hs) = map Some hs" using hs(1) P(2) by simp
  then have build: "BuildMerkleTreeOfHashes2 sum256 hs len = deref_all ?R"
    unfolding BuildMerkleTreeOfHashes2_def BuildMerkleTreeOfHashes_def andThen_def Let_def P(1) temp
    using P(2) by (simp add: mult.commute)
  have some: "?R ! j \<noteq> None" if "j < 2 * P - 1" for j
    by (rule merkle_loop_Some [OF len P(2) _ that]) (metis leaf option.distinct(1))
  then have "\<forall>x \<in> set ?R. x \<noteq> None" using len by (metis in_set_conv_nth length_merkle_loop)
  with build have "BuildMerkleTreeOfHashes2 sum256 hs len = Inr (map the ?R)" by (simp add: deref_all_Some)
  moreover have "merkle_tree sum256 P (map the ?R)"
    unfolding merkle_tree_def
  proof (intro conjI allI impI)
    fix k assume k: "k < P - 1"
    then have "2 * k < 2 * P - 1" "2 * k + 1 < 2 * P - 1" by simp_all
    then obtain a b where "?R ! (2 * k) = Some a" "?R ! (2 * k + 1) = Some b"
      using some by blast
    moreover have "?R ! (P + k) = merkle_parent sum256 (?R ! (2 * k)) (?R ! (2 * k + 1))"
      by (rule merkle_loop_node [OF len P(2) k])
    ultimately have "?R ! (P + k) = Some (hashMerkleBranches sum256 a b)" by simp
    moreover have "P + k < length ?R" "2 * k < length ?R" "2 * k + 1 < length ?R"
      using k len by (simp_all only: length_merkle_loop)
    ultimately show "map the ?R ! (P + k) = hashMerkleBranches sum256 (map the ?R ! (2 * k)) (map the ?R ! (2 * k + 1))"
      using \<open>?R ! (2 * k) = Some a\<close> \<open>?R ! (2 * k + 1) = Some b\<close> by (simp only: nth_map option.sel)
  qed (use P(2) len in simp_all)
  moreover have "map the ?R ! j = (if j < length hs then hs ! j else zero_hash)" if "j < P" for j
  proof -
    have "?R ! j = Some (if j < length hs then hs ! j else zero_hash)"
      using merkle_loop_leaf [OF len P(2) that] leaf [OF that] by (simp only:)
    moreover have "j < length ?R" using len that by (simp only: length_merkle_loop)
    ultimately show ?thesis by (simp only: nth_map option.sel)
  qed
  ultimately show thesis using that by blast
qed

section \<open>Inclusion paths\<close>

text \<open>Level \<open>l\<close> of the tree over \<open>2 ^ k\<close> leaves starts at index \<open>lvl k l\<close>.\<close>

definition lvl :: "nat \<Rightarrow> nat \<Rightarrow> nat" where
  "lvl k l = 2 * (2 ^ k - 2 ^ (k - l))"

definition sibling :: "nat \<Rightarrow> nat" where
  "sibling i = (if i mod 2 = 0 then i + 1 else i - 1)"

lemma lvl_0 [simp]: "lvl k 0 = 0"
  by (simp add: lvl_def)

lemma lvl_Suc: "l < k \<Longrightarrow> lvl k (Suc l) = lvl k l + 2 ^ (k - l)"
proof -
  assume "l < k"
  then obtain d where d: "k - l = Suc d" using Suc_diff_Suc by metis
  then have "k - Suc l = d" by simp
  moreover have "(2 :: nat) ^ Suc d \<le> 2 ^ k" using d by (intro power_increasing) auto
  ultimately show ?thesis using d by (simp add: lvl_def)
qed

lemma lvl_le: "l \<le> k \<Longrightarrow> lvl k l + 2 * 2 ^ (k - l) = 2 * 2 ^ k"
proof -
  assume "l \<le> k"
  have "(2 :: nat) ^ (k - l) \<le> 2 ^ k" by (intro power_increasing) auto
  then have "2 * (2 ^ k - 2 ^ (k - l)) + 2 * 2 ^ (k - l) = 2 * (2 :: nat) ^ k" by linarith
  then show ?thesis by (simp only: lvl_def)
qed

lemma level_index: "(s :: nat) < 2 ^ k \<Longrightarrow> l \<le> k \<Longrightarrow> s div 2 ^ l < 2 ^ (k - l)"
  by (simp add: less_mult_imp_div_less flip: power_add)

lemma level_div: "(s :: nat) div 2 ^ l div 2 = s div 2 ^ Suc l"
  by (simp only: div_mult2_eq [symmetric] power_Suc mult.commute)

lemma sibling_less: "i < 2 ^ Suc d \<Longrightarrow> sibling i < 2 ^ Suc d"
proof -
  assume i: "i < 2 ^ Suc d"
  have "i + 1 \<noteq> 2 * 2 ^ d" if "i mod 2 = 0" using that by presburger
  with i show ?thesis by (auto simp: sibling_def)
qed

definition path_of :: "hash list \<Rightarrow> nat \<Rightarrow> nat \<Rightarrow> nat \<Rightarrow> hash list" where
  "path_of tree k s l = map (\<lambda>m. tree ! (lvl k m + sibling (s div 2 ^ m))) [l..<k]"

lemma path_of_step: "l < k \<Longrightarrow> path_of tree k s l = tree ! (lvl k l + sibling (s div 2 ^ l)) # path_of tree k s (Suc l)"
  by (simp add: path_of_def upt_conv_Cons)

lemma path_loop_returns:
  assumes "length tree = 2 * 2 ^ k - 1" and "s < 2 ^ k"
  shows "l \<le> k \<Longrightarrow> merkle_path_loop tree (2 ^ k) (lvl k l) (lvl k (l - 1)) (s div 2 ^ l) l path
    = Some (Inr (path @ path_of tree k s l))"
proof (induction "k - l" arbitrary: l path)
  case 0
  then have "l = k" by simp
  then show ?case using assms lvl_le [of k k]
    by (subst merkle_path_loop.simps) (simp add: path_of_def)
next
  case (Suc d)
  then have l: "l < k" and kl: "k - l = Suc d" by simp_all
  let ?i = "s div 2 ^ l"
  have i: "?i < 2 ^ Suc d" using level_index [OF assms(2), of l] l kl by simp
  have total: "lvl k l + 2 * 2 ^ Suc d = 2 * 2 ^ k" using lvl_le [of l k] l kl by simp
  have j: "(if ?i mod 2 = 0 then lvl k l + ?i + 1 else lvl k l + ?i - 1) = lvl k l + sibling ?i"
    by (auto simp: sibling_def)
  have in_range: "lvl k l + sibling ?i < length tree"
    using sibling_less [OF i] total assms(1) by simp
  have "1 \<le> (2 :: nat) ^ d" by simp
  then have go: "\<not> lvl k l + 2 \<ge> length tree" using total assms(1) unfolding power_Suc by linarith
  have next_cursor: "lvl k l + 2 ^ k = lvl k (Suc l)" if "l = 0" using lvl_Suc [OF l] that by simp
  have half: "(lvl k l - lvl k (l - 1)) div 2 = 2 ^ (k - l)" if "l \<noteq> 0"
  proof -
    obtain m where m: "l = Suc m" using \<open>l \<noteq> 0\<close> by (cases l) auto
    then have "k - m = Suc (k - l)" using l by simp
    with lvl_Suc [of m k] m l show ?thesis by simp
  qed
  have idiv: "?i div 2 = s div 2 ^ Suc l" by (rule level_div)
  have IH: "merkle_path_loop tree (2 ^ k) (lvl k (Suc l)) (lvl k (Suc l - 1)) (s div 2 ^ Suc l) (Suc l) p
      = Some (Inr (p @ path_of tree k s (Suc l)))" for p
    using Suc.hyps(1) [of "Suc l" p] kl l by simp
  show ?case
    using go in_range IH [of "path @ [tree ! (lvl k l + sibling ?i)]"] next_cursor half lvl_Suc [OF l] l
    by (subst merkle_path_loop.simps) (simp only: j idiv Let_def, cases "l = 0", auto simp: path_of_step)
qed

lemma merkle_fold_path:
  assumes tree: "merkle_tree sum256 (2 ^ k) tree" and s: "s < 2 ^ k"
  shows "l \<le> k \<Longrightarrow> merkle_fold sum256 (tree ! (lvl k l + s div 2 ^ l)) (path_of tree k s l) (s div 2 ^ l) = last tree"
proof (induction "k - l" arbitrary: l)
  case 0
  then have "l = k" by simp
  moreover have "lvl k k = length tree - 1" "tree \<noteq> []"
    using tree lvl_le [of k k] by (auto simp: merkle_tree_def)
  ultimately show ?case using s by (simp add: path_of_def last_conv_nth)
next
  case (Suc d)
  then have l: "l < k" and kl: "k - l = Suc d" by simp_all
  let ?i = "s div 2 ^ l"
  let ?h = "2 ^ k - 2 ^ (k - l) :: nat"
  have i: "?i < 2 ^ Suc d" using level_index [OF s, of l] l kl by simp
  have even_lvl: "lvl k l = 2 * ?h" by (simp add: lvl_def)
  have total: "lvl k l + 2 * 2 ^ Suc d = 2 * 2 ^ k" using lvl_le [of l k] l kl by simp
  let ?n = "?h + ?i div 2"
  have n: "?n < 2 ^ k - 1"
  proof -
    have "2 * ?h + 2 * 2 ^ Suc d = 2 * 2 ^ k" using total even_lvl by simp
    moreover have "?i div 2 < 2 ^ d" using i by simp
    ultimately show ?thesis by simp
  qed
  have parent: "2 ^ k + ?n = lvl k (Suc l) + s div 2 ^ Suc l"
  proof -
    have "?i div 2 = s div 2 ^ Suc l" by (rule level_div)
    moreover have "2 ^ k + ?h = lvl k (Suc l)"
      using lvl_Suc [OF l] total even_lvl unfolding kl power_Suc by linarith
    ultimately show ?thesis by (metis add.assoc)
  qed
  have hp: "hashMerkleBranches sum256 (tree ! (2 * ?n)) (tree ! (2 * ?n + 1)) = tree ! (lvl k (Suc l) + s div 2 ^ Suc l)"
    using tree n parent unfolding merkle_tree_def by metis
  have n2: "2 * ?n = lvl k l + 2 * (?i div 2)" by (simp only: even_lvl add_mult_distrib2)
  have ev: "2 * ?n = lvl k l + ?i \<and> 2 * ?n + 1 = lvl k l + sibling ?i" if "?i mod 2 = 0"
  proof -
    have "2 * (?i div 2) = ?i" "sibling ?i = ?i + 1" using that by (auto simp: sibling_def)
    with n2 show ?thesis by linarith
  qed
  have od: "2 * ?n = lvl k l + sibling ?i \<and> 2 * ?n + 1 = lvl k l + ?i" if "?i mod 2 \<noteq> 0"
  proof -
    have o: "odd ?i" using that by presburger
    have "2 * (?i div 2) + 1 = ?i" by (rule odd_two_times_div_two_succ [OF o])
    moreover have "sibling ?i + 1 = ?i" using that odd_pos [OF o] by (simp add: sibling_def)
    ultimately show ?thesis using n2 by linarith
  qed
  have "(if ?i mod 2 = 0 then hashMerkleBranches sum256 (tree ! (lvl k l + ?i)) (tree ! (lvl k l + sibling ?i))
      else hashMerkleBranches sum256 (tree ! (lvl k l + sibling ?i)) (tree ! (lvl k l + ?i)))
      = tree ! (lvl k (Suc l) + s div 2 ^ Suc l)"
    using hp ev od by metis
  then have "merkle_fold sum256 (tree ! (lvl k l + ?i)) (path_of tree k s l) ?i
      = merkle_fold sum256 (tree ! (lvl k (Suc l) + s div 2 ^ Suc l)) (path_of tree k s (Suc l)) (?i div 2)"
    by (simp only: path_of_step [OF l] merkle_fold.simps)
  then show ?case using Suc.hyps(1) [of "Suc l"] kl l unfolding level_div by simp
qed

section \<open>Soundness of a path\<close>

text \<open>The inputs a verification feeds to the digest, one per level.\<close>

fun path_inputs :: "(bytes \<Rightarrow> bytes) \<Rightarrow> hash \<Rightarrow> hash list \<Rightarrow> nat \<Rightarrow> bytes list" where
  "path_inputs sum256 h [] i = []"
| "path_inputs sum256 h (p # ps) i =
     (let input = (if i mod 2 = 0 then h @ p else p @ h)
      in input # path_inputs sum256 (HashH sum256 input) ps (i div 2))"

lemma collision_head:
  "(\<forall>x \<in> set (u # us). \<forall>y \<in> set (v # vs). f x = f y \<longrightarrow> x = y) \<Longrightarrow> f u = f v \<Longrightarrow> u = v"
  by simp

lemma merkle_fold_inject:
  assumes "digest32 sum256"
  shows "merkle_fold sum256 a ps i = merkle_fold sum256 b qs i \<Longrightarrow> length ps = length qs \<Longrightarrow>
    wf_hash a \<Longrightarrow> wf_hash b \<Longrightarrow> \<forall>p \<in> set ps \<union> set qs. wf_hash p \<Longrightarrow>
    (\<forall>x \<in> set (path_inputs sum256 a ps i). \<forall>y \<in> set (path_inputs sum256 b qs i).
       sum256 x = sum256 y \<longrightarrow> x = y) \<Longrightarrow> a = b \<and> ps = qs"
proof (induction ps arbitrary: qs a b i)
  case (Cons p ps)
  obtain q qs' where qs: "qs = q # qs'" using Cons.prems(2) by (cases qs) simp_all
  let ?in = "\<lambda>h p. if i mod 2 = 0 then h @ p else p @ h"
  have fold: "merkle_fold sum256 h (p # ps) i = merkle_fold sum256 (HashH sum256 (?in h p)) ps (i div 2)" for h p ps
    by (simp add: hashMerkleBranches_def)
  have inputs: "path_inputs sum256 h (p # ps) i = ?in h p # path_inputs sum256 (HashH sum256 (?in h p)) ps (i div 2)"
    for h p ps by (simp add: Let_def)
  have "HashH sum256 (?in a p) = HashH sum256 (?in b q) \<and> ps = qs'"
  proof (rule Cons.IH [where i = "i div 2"])
    show "merkle_fold sum256 (HashH sum256 (?in a p)) ps (i div 2) = merkle_fold sum256 (HashH sum256 (?in b q)) qs' (i div 2)"
      using Cons.prems(1) by (simp only: qs fold)
    show "\<forall>x \<in> set (path_inputs sum256 (HashH sum256 (?in a p)) ps (i div 2)).
        \<forall>y \<in> set (path_inputs sum256 (HashH sum256 (?in b q)) qs' (i div 2)). sum256 x = sum256 y \<longrightarrow> x = y"
      using Cons.prems(6) unfolding qs inputs by (meson list.set_intros(2))
  qed (use Cons.prems(2,5) qs in \<open>auto simp: wf_hash_HashH [OF assms]\<close>)
  moreover have "?in a p = ?in b q" if "HashH sum256 (?in a p) = HashH sum256 (?in b q)"
    using Cons.prems(6) [unfolded qs inputs] that unfolding HashH_def
    by (rule collision_head)
  ultimately have "?in a p = ?in b q" "ps = qs'" by blast+
  then show ?case using Cons.prems(3,4,5) qs by (auto simp: wf_hash_def split: if_splits)
qed simp

section \<open>Properties\<close>

text \<open>C10: inclusion proofs are complete. For any number of leaves that fits the tree, the path that
  \<open>GetMerklePathForCrossShard\<close> extracts for a shard (its loop returns and stays in range), together
  with the root it reports, is accepted by \<open>VerifyMerkleRootFromMerklePath\<close> for that shard's leaf.
\<close>

theorem merkle_path_verifies:
  assumes "0 < len" and "length hs \<le> NextPowerOfTwo len" and "\<forall>h \<in> set hs. wf_hash h"
    and "unat shardID < length hs"
  shows "\<exists>tree path rt. BuildMerkleTreeOfHashes2 sum256 hs len = Inr tree
    \<and> GetMerklePathForCrossShard len tree shardID = Some (Inr (path, rt))
    \<and> VerifyMerkleRootFromMerklePath sum256 (hs ! unat shardID) path rt shardID"
proof -
  obtain k where P: "NextPowerOfTwo len = 2 ^ k" using NextPowerOfTwo_spec [OF assms(1)] by blast
  let ?s = "unat shardID"
  obtain tree where b: "BuildMerkleTreeOfHashes2 sum256 hs len = Inr tree" "merkle_tree sum256 (2 ^ k) tree"
    and leaf: "\<And>j. j < 2 ^ k \<Longrightarrow> tree ! j = (if j < length hs then hs ! j else zero_hash)"
    using BuildMerkleTreeOfHashes2_tree [OF P _ _ assms(3)] assms(2) P by (metis zero_less_numeral zero_less_power)
  have s: "?s < 2 ^ k" using assms(2,4) P by simp
  have len: "length tree = 2 * 2 ^ k - 1" using b(2) by (simp add: merkle_tree_def)
  have "(1 :: nat) \<le> 2 ^ k" by simp
  with len have "0 < length tree" by linarith
  then have ne: "tree \<noteq> []" by simp
  have "GetMerklePathForCrossShard len tree shardID = Some (Inr (path_of tree k ?s 0, last tree))"
    using path_loop_returns [OF len s, of 0 "[]"] ne
    by (simp add: GetMerklePathForCrossShard_def P andThen_def index_def last_conv_nth)
  moreover have "VerifyMerkleRootFromMerklePath sum256 (hs ! ?s) (path_of tree k ?s 0) (last tree) shardID"
    using merkle_fold_path [OF b(2) s, of 0] leaf [OF s] assms(4)
    by (simp add: VerifyMerkleRootFromMerklePath_def)
  ultimately show ?thesis using b(1) by blast
qed

theorem merkle_path_verifies_witness:
  "\<exists>tree path rt. BuildMerkleTreeOfHashes2 (\<lambda>x. replicate 32 (hd x)) [replicate 32 1, replicate 32 2, replicate 32 3] 3 = Inr tree
    \<and> GetMerklePathForCrossShard 3 tree 2 = Some (Inr (path, rt))
    \<and> VerifyMerkleRootFromMerklePath (\<lambda>x. replicate 32 (hd x)) (replicate 32 3) path rt 2"
proof -
  have "NextPowerOfTwo 3 = 4" by (simp add: NextPowerOfTwo_def compute_floorlog)
  then show ?thesis
    using merkle_path_verifies [where len = 3 and shardID = 2 and ?sum256.0 = "\<lambda>x. replicate 32 (hd x)"
        and hs = "[replicate 32 1, replicate 32 2, replicate 32 3]"]
    by (simp add: wf_hash_def HashSize_def numeral_2_eq_2 [symmetric])
qed

text \<open>C11: inclusion proofs of equal length are sound. Two leaves that verify against the same root at the same position
  with paths of the same length are the same leaf, and the paths are equal, unless the digest
  collides on two of the inputs the two verifications hash. Paths of different lengths are not covered: leaves and inner nodes
  are hashed alike, so that an inner node verifies as a leaf with the shorter path above it.
\<close>

theorem merkle_path_sound:
  assumes "digest32 sum256" and "wf_hash a" and "wf_hash b" and "\<forall>p \<in> set ps \<union> set qs. wf_hash p"
    and "length ps = length qs"
    and "VerifyMerkleRootFromMerklePath sum256 a ps rt shardID"
    and "VerifyMerkleRootFromMerklePath sum256 b qs rt shardID"
    and "\<forall>x \<in> set (path_inputs sum256 a ps (unat shardID)). \<forall>y \<in> set (path_inputs sum256 b qs (unat shardID)).
           sum256 x = sum256 y \<longrightarrow> x = y"
  shows "a = b \<and> ps = qs"
  using merkle_fold_inject [OF assms(1), of a ps "unat shardID" b qs] assms(2-)
  by (simp add: VerifyMerkleRootFromMerklePath_def)

theorem merkle_path_sound_witness:
  "VerifyMerkleRootFromMerklePath (\<lambda>x. replicate 32 (hd x)) (replicate 32 1) [replicate 32 2] (replicate 32 1) 0
   \<and> replicate 32 1 = (replicate 32 1 :: hash) \<and> [replicate 32 2] = [replicate 32 2 :: hash]"
  using merkle_path_sound [where a = "replicate 32 1" and b = "replicate 32 1" and ps = "[replicate 32 2]"
      and qs = "[replicate 32 2]" and rt = "replicate 32 1" and shardID = 0 and ?sum256.0 = "\<lambda>x. replicate 32 (hd x)"]
  by (simp add: digest32_def wf_hash_def HashSize_def VerifyMerkleRootFromMerklePath_def hashMerkleBranches_def HashH_def)

text \<open>
  The root \<open>CalcMerkleRoot\<close> computes does not determine the transactions: repeating the last of
  three transactions leaves the root unchanged, whatever the digest.
\<close>

theorem merkle_root_duplicate_last:
  "CalcMerkleRoot sum256 txHash [t1, t2, t3] = CalcMerkleRoot sum256 txHash [t1, t2, t3, t3]"
proof -
  have "NextPowerOfTwo 3 = 4" by (simp add: NextPowerOfTwo_def compute_floorlog)
  moreover have "NextPowerOfTwo 4 = 4" using NextPowerOfTwo_power [of 2] by simp
  ultimately show ?thesis
    by (simp add: CalcMerkleRoot_def BuildMerkleTreeStore_def Let_def merkle_loop.simps numeral_eq_Suc)
qed

end
