(* ===== verification/Go_Strings.thy ===== *)
theory Go_Strings
  imports Go_Prelude
begin

text \<open>
  The functions of Go's \<open>strings\<close>, \<open>strconv\<close> and \<open>encoding/base64\<close> packages that the sources
  use on instructions and block fields: \<open>strings.Split\<close> and \<open>strings.Join\<close> with a one-character
  separator, \<open>strconv.Atoi\<close>, and the standard base64 text.
\<close>

section \<open>Split and join\<close>

text \<open>\<open>strings.Split(s, sep)\<close>: never empty; the empty string splits into one empty string.\<close>

fun split_on :: "char \<Rightarrow> string \<Rightarrow> string list" where
  "split_on sep [] = [[]]"
| "split_on sep (c # cs) =
     (if c = sep then [] # split_on sep cs
      else case split_on sep cs of (w # ws) \<Rightarrow> (c # w) # ws | [] \<Rightarrow> [[c]])"

fun join_with :: "char \<Rightarrow> string list \<Rightarrow> string" where
  "join_with sep [] = []"
| "join_with sep [w] = w"
| "join_with sep (w # v # ws) = w @ sep # join_with sep (v # ws)"

lemma split_on_ne [simp]: "split_on sep s \<noteq> []"
  by (induction s) (auto split: list.splits)

lemma split_on_append_sep: "sep \<notin> set w \<Longrightarrow> split_on sep (w @ sep # s) = w # split_on sep s"
  by (induction w) auto

lemma split_on_free: "sep \<notin> set w \<Longrightarrow> split_on sep w = [w]"
  by (induction w) auto

lemma split_on_join: "ws \<noteq> [] \<Longrightarrow> (\<forall>w \<in> set ws. sep \<notin> set w) \<Longrightarrow> split_on sep (join_with sep ws) = ws"
  by (induction sep ws rule: join_with.induct) (auto simp: split_on_append_sep split_on_free)

lemma join_split_on: "join_with sep (split_on sep s) = s"
proof (induction s)
  case (Cons c cs)
  then show ?case
    using split_on_ne [of sep cs] by (cases "split_on sep cs" rule: remdups_adj.cases) auto
qed simp

section \<open>Parsing decimals\<close>

fun digits_nat :: "nat \<Rightarrow> string \<Rightarrow> nat option" where
  "digits_nat acc [] = Some acc"
| "digits_nat acc (c # cs) =
     (if CHR ''0'' \<le> c \<and> c \<le> CHR ''9'' then digits_nat (10 * acc + (of_char c - 48)) cs else None)"

text \<open>\<open>strconv.Atoi\<close>: an optional sign, at least one digit, and the value must fit 64 bits.\<close>

definition atoi :: "string \<Rightarrow> int option" where
  "atoi s =
     (let neg = (s \<noteq> [] \<and> hd s = CHR ''-'');
          body = (if s \<noteq> [] \<and> (hd s = CHR ''-'' \<or> hd s = CHR ''+'') then tl s else s)
      in if body = [] then None
         else case digits_nat 0 body of
                None \<Rightarrow> None
              | Some n \<Rightarrow>
                  (let v = (if neg then - int n else int n)
                   in if - (2 ^ 63) \<le> v \<and> v < 2 ^ 63 then Some v else None))"

lemma digit_char: "(d :: nat) < 10 \<Longrightarrow> CHR ''0'' \<le> char_of (48 + d) \<and> char_of (48 + d) \<le> CHR ''9'' \<and> of_char (char_of (48 + d)) = 48 + d"
  by (simp add: less_eq_char_def)

lemma digits_nat_append:
  "digits_nat acc (xs @ ys) = (case digits_nat acc xs of None \<Rightarrow> None | Some a \<Rightarrow> digits_nat a ys)"
  by (induction xs arbitrary: acc) auto

lemma digits_nat_decimal: "digits_nat 0 (decimal n) = Some n"
proof (induction n rule: decimal.induct)
  case (1 n)
  show ?case
  proof (cases "n < 10")
    case True
    then show ?thesis using digit_char [of n] by (simp add: decimal.simps)
  next
    case False
    then show ?thesis using 1 digit_char [of "n mod 10"]
      by (subst decimal.simps) (simp add: digits_nat_append)
  qed
qed

lemma decimal_head: "decimal n \<noteq> [] \<and> hd (decimal n) \<noteq> CHR ''-'' \<and> hd (decimal n) \<noteq> CHR ''+''"
proof (induction n rule: decimal.induct)
  case (1 n)
  show ?case
  proof (cases "n < 10")
    case True
    then have "CHR ''0'' \<le> hd (decimal n)" using digit_char [of n] by (simp add: decimal.simps)
    moreover have "\<not> CHR ''0'' \<le> CHR ''-''" "\<not> CHR ''0'' \<le> CHR ''+''" by (simp_all add: less_eq_char_def)
    ultimately show ?thesis using True by (auto simp: decimal.simps)
  next
    case False
    then show ?thesis using 1 by (subst (1 2 3) decimal.simps) simp
  qed
qed

lemma atoi_itoa: "- (2 ^ 63) \<le> i \<Longrightarrow> i < 2 ^ 63 \<Longrightarrow> atoi (itoa i) = Some i"
  using decimal_head [of "nat i"] decimal_head [of "nat (- i)"]
  by (auto simp: atoi_def itoa_def Let_def digits_nat_decimal)

section \<open>Base64\<close>

definition b64_char :: "nat \<Rightarrow> char" where
  "b64_char n = ''ABCDEFGHIJKLMNOPQRSTUVWXYZabcdefghijklmnopqrstuvwxyz0123456789+/'' ! n"

fun base64 :: "nat list \<Rightarrow> string" where
  "base64 [] = []"
| "base64 [a] = [b64_char (a div 4), b64_char (a mod 4 * 16), CHR ''='', CHR ''='']"
| "base64 [a, b] = [b64_char (a div 4), b64_char (a mod 4 * 16 + b div 16), b64_char (b mod 16 * 4), CHR ''='']"
| "base64 (a # b # c # r) =
     [b64_char (a div 4), b64_char (a mod 4 * 16 + b div 16), b64_char (b mod 16 * 4 + c div 64), b64_char (c mod 64)]
     @ base64 r"

text \<open>\<open>json.Marshal\<close> of a non-nil byte slice: its base64 text in quotes.\<close>

definition json_bytes :: "bytes \<Rightarrow> string" where
  "json_bytes bs = CHR 0x22 # base64 (map unat bs) @ [CHR 0x22]"

text \<open>\<open>json.Marshal\<close> of a non-nil \<open>[][]byte\<close>.\<close>

definition json_bytes_list :: "bytes list \<Rightarrow> string" where
  "json_bytes_list bss = CHR ''['' # join_with CHR '','' (map json_bytes bss) @ [CHR '']'']"

text \<open>
  The reverse direction, \<open>json.Unmarshal\<close> into a \<open>[][]byte\<close>: defined on the compact texts that
  \<open>json.Marshal\<close> writes (and on \<open>null\<close>); any other text is an error here.
\<close>

definition b64_val :: "char \<Rightarrow> nat option" where
  "b64_val c =
     (let i = length (takeWhile (\<lambda>x. x \<noteq> c) ''ABCDEFGHIJKLMNOPQRSTUVWXYZabcdefghijklmnopqrstuvwxyz0123456789+/'')
      in if i < 64 then Some i else None)"

fun base64_decode :: "string \<Rightarrow> nat list option" where
  "base64_decode [] = Some []"
| "base64_decode (a # b # c # d # r) =
     (case (b64_val a, b64_val b) of
        (Some w, Some x) \<Rightarrow>
          (if c = CHR ''='' then (if d = CHR ''='' \<and> r = [] then Some [w * 4 + x div 16] else None)
           else case b64_val c of
             None \<Rightarrow> None
           | Some y \<Rightarrow>
               if d = CHR ''='' then (if r = [] then Some [w * 4 + x div 16, x mod 16 * 16 + y div 4] else None)
               else case (b64_val d, base64_decode r) of
                 (Some z, Some rest) \<Rightarrow> Some ([w * 4 + x div 16, x mod 16 * 16 + y div 4, y mod 4 * 64 + z] @ rest)
               | _ \<Rightarrow> None)
      | _ \<Rightarrow> None)"
| "base64_decode _ = None"

definition json_read_bytes :: "string \<Rightarrow> bytes option" where
  "json_read_bytes s =
     (if length s < 2 \<or> hd s \<noteq> CHR 0x22 \<or> last s \<noteq> CHR 0x22 then None
      else map_option (map of_nat) (base64_decode (butlast (tl s))))"

fun collect :: "'a option list \<Rightarrow> 'a list option" where
  "collect [] = Some []"
| "collect (None # xs) = None"
| "collect (Some x # xs) = map_option ((#) x) (collect xs)"

definition json_read_bytes_list :: "string \<Rightarrow> bytes list option" where
  "json_read_bytes_list s =
     (if s = ''null'' \<or> s = ''[]'' then Some []
      else if length s < 2 \<or> hd s \<noteq> CHR ''['' \<or> last s \<noteq> CHR '']'' then None
      else collect (map json_read_bytes (split_on CHR '','' (butlast (tl s)))))"

lemma b64_char_all:
  "list_all (\<lambda>n. b64_val (b64_char n) = Some n \<and> b64_char n \<noteq> CHR ''='' \<and> b64_char n \<noteq> CHR '','') [0..<64]"
  by code_simp

lemma b64_char [simp]:
  assumes "n < 64"
  shows "b64_val (b64_char n) = Some n" "b64_char n \<noteq> CHR ''=''" "b64_char n \<noteq> CHR '',''"
  using b64_char_all assms by (auto simp: list_all_iff)

lemma base64_decode_base64: "list_all (\<lambda>a. a < 256) xs \<Longrightarrow> base64_decode (base64 xs) = Some xs"
proof (induction xs rule: base64.induct)
  case (2 a)
  then have "a mod 4 * 16 < 64" "a div 4 < 64" by auto
  then show ?case by simp
next
  case (3 a b)
  then have "a div 4 < 64" "a mod 4 * 16 + b div 16 < 64" "b mod 16 * 4 < 64"
    by (auto simp: less_mult_imp_div_less)
  moreover have "(a mod 4 * 16 + b div 16) div 16 = a mod 4" "(a mod 4 * 16 + b div 16) mod 16 = b div 16"
    using 3 by (auto simp: less_mult_imp_div_less)
  ultimately show ?case by simp
next
  case (4 a b c r)
  then have "a div 4 < 64" "a mod 4 * 16 + b div 16 < 64" "b mod 16 * 4 + c div 64 < 64" "c mod 64 < 64"
    by (auto simp: less_mult_imp_div_less)
  moreover have "(a mod 4 * 16 + b div 16) div 16 = a mod 4" "(a mod 4 * 16 + b div 16) mod 16 = b div 16"
    "(b mod 16 * 4 + c div 64) div 4 = b mod 16" "(b mod 16 * 4 + c div 64) mod 4 = c div 64"
    using 4 by (auto simp: less_mult_imp_div_less)
  ultimately show ?case using 4 by simp
qed simp

lemma base64_chars: "list_all (\<lambda>a. a < 256) xs \<Longrightarrow> CHR '','' \<notin> set (base64 xs)"
proof (induction xs rule: base64.induct)
  case (2 a)
  then have "a mod 4 * 16 < 64" "a div 4 < 64" by auto
  then show ?case using b64_char(3) by (auto simp: eq_commute [of "CHR '',''"])
next
  case (3 a b)
  then have "a div 4 < 64" "a mod 4 * 16 + b div 16 < 64" "b mod 16 * 4 < 64"
    by (auto simp: less_mult_imp_div_less)
  then show ?case using b64_char(3) by (auto simp: eq_commute [of "CHR '',''"])
next
  case (4 a b c r)
  then have "a div 4 < 64" "a mod 4 * 16 + b div 16 < 64" "b mod 16 * 4 + c div 64 < 64" "c mod 64 < 64"
    by (auto simp: less_mult_imp_div_less)
  then show ?case using 4 b64_char(3) by (auto simp: eq_commute [of "CHR '',''"])
qed simp

lemma json_read_bytes_json [simp]: "json_read_bytes (json_bytes bs) = Some bs"
proof -
  have "list_all (\<lambda>a. a < 256) (map unat bs)" by (simp add: list_all_iff)
  then show ?thesis by (simp add: json_read_bytes_def json_bytes_def base64_decode_base64 comp_def)
qed

lemma json_bytes_chars: "CHR '','' \<notin> set (json_bytes bs)"
  using base64_chars [of "map unat bs"] by (simp add: json_bytes_def list_all_iff)

lemma collect_Some: "collect (map Some xs) = Some xs"
  by (induction xs) simp_all

lemma json_read_bytes_list_json: "json_read_bytes_list (json_bytes_list bss) = Some bss"
proof (cases bss)
  case Nil
  then show ?thesis by (simp add: json_read_bytes_list_def json_bytes_list_def)
next
  case (Cons b bs)
  have ne: "json_bytes_list bss \<noteq> ''null''" by (simp add: json_bytes_list_def)
  have q: "join_with CHR '','' (map json_bytes bss) \<noteq> []"
    using Cons by (cases bs) (simp_all add: json_bytes_def)
  have split: "split_on CHR '','' (join_with CHR '','' (map json_bytes bss)) = map json_bytes bss"
    using Cons json_bytes_chars by (intro split_on_join) auto
  have "map json_read_bytes (map json_bytes bss) = map Some bss" by simp
  then show ?thesis using ne q split collect_Some [of bss]
    by (simp add: json_read_bytes_list_def json_bytes_list_def comp_def)
qed

text \<open>The two directions on bytes, as the database stores them.\<close>

lemma unat_of_char [simp]: "unat (of_char c :: byte) = of_char c"
  using of_nat_unat_byte [of "of_char c"] by (cases c) (simp add: of_nat_of_char del: of_nat_unat_byte)

lemma string_of_bytes_of_string [simp]: "string_of_bytes (bytes_of_string s) = s"
  by (induction s) (simp_all add: string_of_bytes_def bytes_of_string_def)

section \<open>Splitting at a longer separator\<close>

text \<open>\<open>strings.Split\<close> for a separator of any length: leftmost matches, none overlapping.\<close>

function split_str :: "string \<Rightarrow> string \<Rightarrow> string list" where
  "split_str sep s =
     (if sep \<noteq> [] \<and> take (length sep) s = sep then [] # split_str sep (drop (length sep) s)
      else case s of
        [] \<Rightarrow> [[]]
      | c # cs \<Rightarrow> (case split_str sep cs of (w # ws) \<Rightarrow> (c # w) # ws | [] \<Rightarrow> [[c]]))"
  by pat_completeness auto
termination
proof (relation "measure (\<lambda>(_, s). length s)", goal_cases)
  case (2 sep s)
  then have "0 < length sep \<and> length sep \<le> length s" by (metis length_greater_0_conv length_take min.cobounded1)
  then show ?case using diff_less [of "length sep" "length s"] by (auto simp del: length_greater_0_conv)
qed auto

declare split_str.simps [simp del]

lemma split_str_ne [simp]: "split_str sep s \<noteq> []"
  by (induction sep s rule: split_str.induct) (subst split_str.simps, auto split: list.splits)

lemma split_str_free:
  assumes "d \<in> set sep" and "d \<notin> set s"
  shows "split_str sep s = [s]"
  using assms(2)
proof (induction s)
  case Nil
  then show ?case using assms(1) by (subst split_str.simps) auto
next
  case (Cons c cs)
  have "take (length sep) (c # cs) \<noteq> sep" using assms(1) Cons.prems by (metis in_set_takeD)
  then show ?case using Cons by (subst split_str.simps) auto
qed

lemma split_str_append:
  assumes "d \<notin> set w"
  shows "split_str (d # sep) (w @ (d # sep) @ s) = w # split_str (d # sep) s"
  using assms
proof (induction w)
  case Nil
  then show ?case by (subst split_str.simps) simp
next
  case (Cons c cs)
  then have "take (length (d # sep)) ((c # cs) @ (d # sep) @ s) \<noteq> d # sep" by auto
  then show ?case using Cons by (subst split_str.simps) simp
qed

end
