(* ===== verification/Hash_Utils.thy ===== *)
theory Hash_Utils
  imports Block_Types Go_Strings
begin

text \<open>
  \<open>src/blockchain/hash_utils.go\<close>: the roots a block header carries, computed by hashing the
  concatenation of texts. The maps are read in the order of their sorted keys.
\<close>

section \<open>Definitions\<close>

definition GenerateZeroValueHash :: "hash_error + hash" where
  "GenerateZeroValueHash = Inr zero_hash"

definition GenerateHashFromStringArray :: "(bytes \<Rightarrow> bytes) \<Rightarrow> string list \<Rightarrow> hash_error + hash" where
  "GenerateHashFromStringArray sum256 strs =
     (if length strs = 0 then GenerateZeroValueHash
      else Hash_SetBytes zero_hash (HashB sum256 (concat (map bytes_of_string strs))))"

definition GenerateHashFromHashArray :: "(bytes \<Rightarrow> bytes) \<Rightarrow> hash list \<Rightarrow> hash_error + hash" where
  "GenerateHashFromHashArray sum256 hashes =
     (if length hashes = 0 then GenerateZeroValueHash
      else GenerateHashFromStringArray sum256 (map Hash_String hashes))"

text \<open>The values of a map of string lists, one after the other, by ascending key.\<close>

definition sorted_values :: "(byte, 'a list) fmap \<Rightarrow> 'a list" where
  "sorted_values m = concat (map (map_get [] m) (sorted_keys m))"

definition GenerateHashFromMapByteString ::
  "(bytes \<Rightarrow> bytes) \<Rightarrow> (byte, string list) fmap \<Rightarrow> (byte, string list) fmap \<Rightarrow> hash_error + hash" where
  "GenerateHashFromMapByteString sum256 maps1 maps2 =
     GenerateHashFromStringArray sum256 (sorted_values maps1 @ sorted_values maps2)"

definition shard_state_string :: "ShardState \<Rightarrow> string" where
  "shard_state_string s = itoa (sint (ss_Height s)) @ Hash_String (ss_Hash s) @ json_bytes (ss_CrossShard s)"

definition GenerateHashFromShardState ::
  "(bytes \<Rightarrow> bytes) \<Rightarrow> (byte, ShardState list) fmap \<Rightarrow> hash_error + hash" where
  "GenerateHashFromShardState sum256 allShardState =
     GenerateHashFromStringArray sum256
       (map (\<lambda>shardID. concat (map shard_state_string (map_get [] allShardState shardID))) (sorted_keys allShardState))"

definition VerifyHashFromStringArray :: "(bytes \<Rightarrow> bytes) \<Rightarrow> string list \<Rightarrow> hash \<Rightarrow> bool" where
  "VerifyHashFromStringArray sum256 strs hash =
     (case GenerateHashFromStringArray sum256 strs of
        Inl e \<Rightarrow> False | Inr res \<Rightarrow> Hash_GetBytes res = Hash_GetBytes hash)"

definition VerifyHashFromHashArray :: "(bytes \<Rightarrow> bytes) \<Rightarrow> hash list \<Rightarrow> hash \<Rightarrow> bool" where
  "VerifyHashFromHashArray sum256 hashes hash = VerifyHashFromStringArray sum256 (map Hash_String hashes) hash"

definition VerifyHashFromMapByteString ::
  "(bytes \<Rightarrow> bytes) \<Rightarrow> (byte, string list) fmap \<Rightarrow> (byte, string list) fmap \<Rightarrow> hash \<Rightarrow> bool" where
  "VerifyHashFromMapByteString sum256 maps1 maps2 hash =
     (case GenerateHashFromMapByteString sum256 maps1 maps2 of
        Inl e \<Rightarrow> False | Inr res \<Rightarrow> Hash_GetBytes res = Hash_GetBytes hash)"

definition VerifyHashFromShardState ::
  "(bytes \<Rightarrow> bytes) \<Rightarrow> (byte, ShardState list) fmap \<Rightarrow> hash \<Rightarrow> bool" where
  "VerifyHashFromShardState sum256 allShardState hash =
     (case GenerateHashFromShardState sum256 allShardState of
        Inl e \<Rightarrow> False | Inr res \<Rightarrow> Hash_GetBytes res = Hash_GetBytes hash)"

text \<open>
  \<open>calHashFromTxTokenDataList\<close> sorts the caller's slice in place (a stable sort on the text of
  the property identifier), so the sorted list is returned too. \<open>prop\<close> and \<open>txHash\<close> are the
  property identifier and the hash of a token datum, which may fail.
\<close>

fun collect_hashes :: "('t \<Rightarrow> 'e + hash) \<Rightarrow> 't list \<Rightarrow> 'e + hash list" where
  "collect_hashes txHash [] = Inr []"
| "collect_hashes txHash (t # ts) = andThen (txHash t) (\<lambda>h. andThen (collect_hashes txHash ts) (\<lambda>hs. Inr (h # hs)))"

definition calHashFromTxTokenDataList ::
  "(bytes \<Rightarrow> bytes) \<Rightarrow> ('t \<Rightarrow> hash) \<Rightarrow> ('t \<Rightarrow> hash_error + hash) \<Rightarrow> 't list \<Rightarrow> 't list \<times> (hash_error + hash)" where
  "calHashFromTxTokenDataList sum256 prop txHash ts =
     (let sorted_ts = sort_key (\<lambda>t. Hash_String (prop t)) ts
      in (sorted_ts, andThen (collect_hashes txHash sorted_ts) (GenerateHashFromHashArray sum256)))"

section \<open>Facts\<close>

lemma GenerateHash_digest32:
  "digest32 sum256 \<Longrightarrow> GenerateHashFromStringArray sum256 strs =
     Inr (if strs = [] then zero_hash else sum256 (bytes_of_string (concat strs)))"
  by (simp add: GenerateHashFromStringArray_def GenerateZeroValueHash_def Hash_SetBytes_def HashB_def
      digest32_def map_concat bytes_of_string_def [abs_def])

section \<open>Properties\<close>

text \<open>
  the hash of a list of hashes commits to the list. Two non-empty lists of 32-byte hashes with
  the same \<open>GenerateHashFromHashArray\<close> are equal, unless the digest collides on the two texts.
\<close>

theorem GenerateHashFromHashArray_binding:
  assumes "digest32 sum256" and "hs \<noteq> []" and "hs' \<noteq> []"
    and "\<forall>h \<in> set hs \<union> set hs'. wf_hash h"
    and "GenerateHashFromHashArray sum256 hs = GenerateHashFromHashArray sum256 hs'"
    and "sum256 (bytes_of_string (concat (map Hash_String hs))) = sum256 (bytes_of_string (concat (map Hash_String hs')))
         \<longrightarrow> concat (map Hash_String hs) = concat (map Hash_String hs')"
  shows "hs = hs'"
proof -
  have eq: "concat (map Hash_String hs) = concat (map Hash_String hs')"
    using assms by (simp add: GenerateHashFromHashArray_def GenerateHash_digest32)
  have ok: "list_all wf_hash hs" "list_all wf_hash hs'" using assms(4) by (auto simp: list_all_iff)
  have "length hs = length hs'"
    using arg_cong [OF eq, of length] ok by (simp only: hash_str.length_concat_enc)
  with ok eq show ?thesis using hash_str.concat_enc_inject by blast
qed

theorem GenerateHashFromHashArray_binding_witness:
  "GenerateHashFromHashArray (\<lambda>_. replicate 32 7) [zero_hash] = Inr (replicate 32 7) \<and> [zero_hash] = [zero_hash]"
  using GenerateHashFromHashArray_binding [of "\<lambda>_. replicate 32 7" "[zero_hash]" "[zero_hash]"]
  by (simp add: GenerateHashFromHashArray_def GenerateHash_digest32 digest32_def HashSize_def)

text \<open>
  The shard validator root does not separate its parts. It depends only on the concatenation of
  all entries, so moving a validator from the pending list of a shard to its committee leaves the
  root a header must carry unchanged.
\<close>

theorem shard_validator_root_ambiguous:
  "GenerateHashFromMapByteString sum256 (fmupd s [v] fmempty) (fmupd s [] fmempty)
   = GenerateHashFromMapByteString sum256 (fmupd s [] fmempty) (fmupd s [v] fmempty)"
  by (simp add: GenerateHashFromMapByteString_def sorted_values_def sorted_keys_singleton)

end
