(* ===== verification/Committee.thy ===== *)
theory Committee
  imports Hash_Utils
begin

text \<open>
  Committee management, from \<open>src/blockchain/beaconprocess.go\<close> (the utilities at its end) and
  \<open>GetValidStaker\<close> of \<open>src/metadata\<close>: assigning candidates to shards, swapping and removing
  validators, shuffling candidates. Validators are base58 public keys, plain strings here.
  \<open>sum256\<close> is the digest behind \<open>HashB\<close>.
\<close>

section \<open>Staking instructions\<close>

definition StakeAction :: string where "StakeAction = ''stake''"
definition SwapAction :: string where "SwapAction = ''swap''"
definition RandomAction :: string where "RandomAction = ''random''"
definition SetAction :: string where "SetAction = ''set''"
definition DeleteAction :: string where "DeleteAction = ''del''"

text \<open>The test \<open>v[0] == StakeAction && v[2] == kind\<close>: it panics on a stake instruction without \<open>v[2]\<close>.\<close>

definition is_stake :: "string \<Rightarrow> instruction \<Rightarrow> fault + bool" where
  "is_stake kind v =
     andThen (index v 0) (\<lambda>v0.
       if v0 = StakeAction then andThen (index v 2) (\<lambda>v2. Inr (v2 = kind)) else Inr False)"

text \<open>Each stake instruction replaces the list found so far.\<close>

fun staking_loop :: "instruction list \<Rightarrow> string list \<Rightarrow> string list \<Rightarrow> fault + string list \<times> string list" where
  "staking_loop [] beacon shard = Inr (beacon, shard)"
| "staking_loop (v # vs) beacon shard =
     (if length v < 1 then staking_loop vs beacon shard
      else andThen (is_stake ''beacon'' v) (\<lambda>b.
           let beacon' = (if b then split_on (CHR '','') (v ! 1) else beacon)
           in andThen (is_stake ''shard'' v) (\<lambda>s.
           let shard' = (if s then split_on (CHR '','') (v ! 1) else shard)
           in staking_loop vs beacon' shard')))"

definition GetStakingCandidate :: "BeaconBlock \<Rightarrow> fault + string list \<times> string list" where
  "GetStakingCandidate beaconBlock = staking_loop (bb_Instructions (bk_Body beaconBlock)) [] []"

text \<open>\<open>GetValidStaker\<close> of \<open>src/metadata/staking.go\<close>: the stakers that are not yet in a list.\<close>

definition GetValidStaker :: "string list \<Rightarrow> string list \<Rightarrow> string list" where
  "GetValidStaker committees stakers = filter (\<lambda>staker. \<not> list_ex (\<lambda>c. c = staker) committees) stakers"

section \<open>Assignment to shards\<close>

definition calculateCandidateShardID :: "(bytes \<Rightarrow> bytes) \<Rightarrow> string \<Rightarrow> int \<Rightarrow> nat \<Rightarrow> fault + byte" where
  "calculateCandidateShardID sum256 candidate rand activeShards =
     (let hash = HashB sum256 (bytes_of_string (candidate @ itoa rand))
      in if hash = [] then Inl IndexOutOfRange
         else if activeShards = 0 then Inl DivideByZero
         else Inr (of_nat (unat (hash ! (length hash - 1)) mod activeShards)))"

fun AssignValidatorShard ::
  "(bytes \<Rightarrow> bytes) \<Rightarrow> (byte, string list) fmap \<Rightarrow> string list \<Rightarrow> int \<Rightarrow> nat \<Rightarrow> fault + (byte, string list) fmap" where
  "AssignValidatorShard sum256 current [] rand activeShards = Inr current"
| "AssignValidatorShard sum256 current (candidate # cs) rand activeShards =
     andThen (calculateCandidateShardID sum256 candidate rand activeShards) (\<lambda>shardID.
       AssignValidatorShard sum256 (fmupd shardID (map_get [] current shardID @ [candidate]) current) cs rand activeShards)"

definition AssignValidator ::
  "(bytes \<Rightarrow> bytes) \<Rightarrow> string list \<Rightarrow> int \<Rightarrow> nat \<Rightarrow> fault + (byte, string list) fmap" where
  "AssignValidator sum256 candidates rand activeShards = AssignValidatorShard sum256 fmempty candidates rand activeShards"

definition VerifyValidator :: "(bytes \<Rightarrow> bytes) \<Rightarrow> string \<Rightarrow> int \<Rightarrow> byte \<Rightarrow> nat \<Rightarrow> fault + bool" where
  "VerifyValidator sum256 candidate rand shardID activeShards =
     andThen (calculateCandidateShardID sum256 candidate rand activeShards) (\<lambda>res. Inr (shardID = res))"

section \<open>Swap, remove, shuffle\<close>

datatype swap_error = CantSwapZero | NoPendingValidator | TooManyValidators

text \<open>
  \<open>SwapValidator\<close>: results are the remaining pending list, the new committee, the validators
  swapped out, the validators reported as incoming, and the error. In the \<open>else\<close> branch of the
  fill-up, \<open>tempValidators :=\<close> declares a new variable, so the outer one stays empty.
\<close>

definition SwapValidator ::
  "string list \<Rightarrow> string list \<Rightarrow> int \<Rightarrow> int
   \<Rightarrow> fault + string list \<times> string list \<times> string list \<times> string list \<times> swap_error option" where
  "SwapValidator pending current maxCommittee offset0 =
     (if maxCommittee < 0 \<or> offset0 < 0 then Inl (ExplicitPanic ''committee can't be zero'')
      else if offset0 = 0 then Inr ([], pending, current, [], Some CantSwapZero)
      else
        let offset = (if offset0 > int (length pending) then length pending else nat offset0) in
        if offset = 0 then Inr (pending, current, [], [], Some NoPendingValidator)
        else if int offset > maxCommittee then Inr (pending, current, [], [], Some TooManyValidators)
        else
          let diff = nat maxCommittee - length current in
          if length current < nat maxCommittee \<and> diff \<ge> offset then
            Inr (drop offset pending, current @ take offset pending, [], take offset pending, None)
          else
            let (offset', pending', current') =
                  (if length current < nat maxCommittee
                   then (offset - diff, drop diff pending, current @ take diff pending)
                   else (offset, pending, current));
                swapped = take offset' current';
                incoming = take offset' pending';
                current'' = drop offset' current' @ take offset' pending';
                pending'' = drop offset' pending'
            in if length current'' > nat maxCommittee
               then Inl (ExplicitPanic ''Length of current validator greater than max committee in Swap validator '')
               else Inr (pending'', current'', swapped, incoming, None))"

datatype remove_error = RemoveTooMany | RemoveWrongFormat

text \<open>The loop of \<open>RemoveValidator\<close>: \<open>index\<close> advances while the list itself loses its head.\<close>

fun remove_loop :: "nat \<Rightarrow> string list \<Rightarrow> string list \<Rightarrow> fault + string list \<times> remove_error option" where
  "remove_loop idx validators [] = Inr (validators, None)"
| "remove_loop idx validators (v # vs) =
     andThen (index validators idx) (\<lambda>x.
       if x = v then remove_loop (Suc idx) (tl validators) vs
       else Inr (validators, Some RemoveWrongFormat))"

definition RemoveValidator :: "string list \<Rightarrow> string list \<Rightarrow> fault + string list \<times> remove_error option" where
  "RemoveValidator validators removedValidators =
     (if length removedValidators > length validators then Inr (validators, Some RemoveTooMany)
      else remove_loop 0 validators removedValidators)"

text \<open>
  \<open>ShuffleCandidate\<close>: the candidates are filed in a map under their hash; the slice of hashes is
  sorted but not used, and the result lists the map in iteration order (the parameter \<open>order\<close>).
\<close>

definition shuffle_key :: "(bytes \<Rightarrow> bytes) \<Rightarrow> int \<Rightarrow> string \<Rightarrow> string" where
  "shuffle_key sum256 rand candidate =
     string_of_bytes (take 32 (HashB sum256 (bytes_of_string (candidate @ itoa rand))))"

definition shuffle_map :: "(bytes \<Rightarrow> bytes) \<Rightarrow> string list \<Rightarrow> int \<Rightarrow> (string, string) fmap" where
  "shuffle_map sum256 candidates rand = fold (\<lambda>c m. fmupd (shuffle_key sum256 rand c) c m) candidates fmempty"

definition ShuffleCandidate :: "(bytes \<Rightarrow> bytes) \<Rightarrow> string list \<Rightarrow> int \<Rightarrow> string list \<Rightarrow> string list" where
  "ShuffleCandidate sum256 candidates rand order = range_values (shuffle_map sum256 candidates rand) order"

section \<open>Lemmas\<close>

lemma calculateCandidateShardID_ok:
  assumes "digest32 sum256" and "0 < activeShards"
  obtains s where "calculateCandidateShardID sum256 c rand activeShards = Inr s" "unat s < activeShards"
proof -
  let ?h = "sum256 (bytes_of_string (c @ itoa rand))"
  have ne: "?h \<noteq> []" using assms(1) by (metis digest32_def HashSize_def list.size(3) zero_neq_numeral)
  let ?v = "unat (?h ! (length ?h - 1)) mod activeShards"
  have "?v < 256" by (metis mod_less_eq_dividend order_le_less_trans unat_byte_less)
  then have "unat (of_nat ?v :: byte) = ?v" by (rule of_nat_unat_byte)
  then show thesis
    using ne assms(2) that [of "of_nat ?v"]
    by (simp add: calculateCandidateShardID_def HashB_def Let_def)
qed

definition shard_of :: "(bytes \<Rightarrow> bytes) \<Rightarrow> int \<Rightarrow> nat \<Rightarrow> string \<Rightarrow> byte" where
  "shard_of sum256 rand activeShards c =
     (case calculateCandidateShardID sum256 c rand activeShards of Inr s \<Rightarrow> s | Inl e \<Rightarrow> 0)"

lemma AssignValidatorShard_spec:
  assumes "digest32 sum256" and "0 < n"
  shows "\<exists>m'. AssignValidatorShard sum256 m cs rand n = Inr m' \<and>
    (\<forall>s. map_get [] m' s = map_get [] m s @ filter (\<lambda>c. shard_of sum256 rand n c = s) cs)"
proof (induction cs arbitrary: m)
  case (Cons c cs)
  obtain s where s: "calculateCandidateShardID sum256 c rand n = Inr s"
    using calculateCandidateShardID_ok [OF assms] by blast
  then have sh: "shard_of sum256 rand n c = s" by (simp add: shard_of_def)
  obtain m' where m': "AssignValidatorShard sum256 (fmupd s (map_get [] m s @ [c]) m) cs rand n = Inr m'"
    "\<And>t. map_get [] m' t = map_get [] (fmupd s (map_get [] m s @ [c]) m) t @ filter (\<lambda>c. shard_of sum256 rand n c = t) cs"
    using Cons.IH by metis
  then show ?case using s sh by (auto simp: andThen_def)
qed simp

lemma remove_loop_iff:
  "remove_loop idx validators vs = Inr (r, None) \<longleftrightarrow>
     r = drop (length vs) validators \<and> (\<forall>i < length vs. idx + 2 * i < length validators \<and> validators ! (idx + 2 * i) = vs ! i)"
proof (induction vs arbitrary: idx validators)
  case (Cons v vs)
  show ?case
  proof (cases "idx < length validators \<and> validators ! idx = v")
    case True
    then have ne: "validators \<noteq> []" by auto
    have "remove_loop idx validators (v # vs) = remove_loop (Suc idx) (tl validators) vs"
      using True by (simp add: andThen_def index_def)
    moreover have "(Suc idx + 2 * i < length (tl validators) \<and> tl validators ! (Suc idx + 2 * i) = vs ! i) \<longleftrightarrow>
        (idx + 2 * Suc i < length validators \<and> validators ! (idx + 2 * Suc i) = (v # vs) ! Suc i)" for i
      using ne by (cases validators) auto
    moreover have "drop (length vs) (tl validators) = drop (length (v # vs)) validators" by (simp add: drop_Suc)
    ultimately show ?thesis using True Cons.IH by (simp add: All_less_Suc2)
  next
    case False
    then have "remove_loop idx validators (v # vs) \<noteq> Inr (r, None)" by (auto simp: andThen_def index_def)
    moreover have "\<not> (\<forall>i < length (v # vs). idx + 2 * i < length validators \<and> validators ! (idx + 2 * i) = (v # vs) ! i)"
      using False by auto
    ultimately show ?thesis by blast
  qed
qed auto

section \<open>Properties\<close>

text \<open>
  \<open>AssignValidatorShard\<close> with a 32-byte digest and at least one active shard never fails, sends
  every candidate to exactly one shard, keeps the previous entries in front and the order of the
  candidates within a shard, and uses no shard at or above \<open>activeShards\<close>.
\<close>

theorem AssignValidatorShard_partition:
  assumes "digest32 sum256" and "0 < activeShards"
  shows "\<exists>m'. AssignValidatorShard sum256 m candidates rand activeShards = Inr m'
    \<and> (\<forall>s. map_get [] m' s = map_get [] m s @ filter (\<lambda>c. shard_of sum256 rand activeShards c = s) candidates)
    \<and> (\<forall>c. unat (shard_of sum256 rand activeShards c) < activeShards)
    \<and> (\<forall>c s. VerifyValidator sum256 c rand s activeShards = Inr (s = shard_of sum256 rand activeShards c))"
proof -
  have calc: "\<exists>s. calculateCandidateShardID sum256 c rand activeShards = Inr s \<and> unat s < activeShards" for c
    using calculateCandidateShardID_ok [OF assms] by metis
  have "unat (shard_of sum256 rand activeShards c) < activeShards" for c
    using calc [of c] by (auto simp: shard_of_def)
  moreover have "VerifyValidator sum256 c rand s activeShards = Inr (s = shard_of sum256 rand activeShards c)" for c s
    using calc [of c] by (auto simp: shard_of_def VerifyValidator_def andThen_def)
  ultimately show ?thesis using AssignValidatorShard_spec [OF assms] by blast
qed

theorem AssignValidatorShard_partition_witness:
  "\<exists>m'. AssignValidatorShard (\<lambda>b. replicate 32 (of_nat (length b))) fmempty [''a'', ''bb'', ''c''] 7 2 = Inr m'
    \<and> map_get [] m' 0 = [''a'', ''c''] \<and> map_get [] m' 1 = [''bb'']"
proof -
  let ?d = "\<lambda>b. replicate 32 (of_nat (length b)) :: bytes"
  have d: "digest32 ?d" by (simp add: digest32_def HashSize_def)
  have "shard_of ?d 7 2 ''a'' = 0" "shard_of ?d 7 2 ''bb'' = 1" "shard_of ?d 7 2 ''c'' = 0"
    by (simp_all add: shard_of_def calculateCandidateShardID_def HashB_def bytes_of_string_def itoa_def decimal.simps Let_def)
  moreover obtain m' where "AssignValidatorShard ?d fmempty [''a'', ''bb'', ''c''] 7 2 = Inr m'"
    "\<forall>s. map_get [] m' s = map_get [] fmempty s @ filter (\<lambda>c. shard_of ?d 7 2 c = s) [''a'', ''bb'', ''c'']"
    using AssignValidatorShard_partition [OF d, of 2 fmempty "[''a'', ''bb'', ''c'']" 7] by auto
  ultimately show ?thesis by (intro exI [of _ m']) simp
qed

lemma mset_queue:
  "mset (drop m pending) + mset (drop k (current @ take m pending)) + mset (take k (current @ take m pending))
    = mset pending + mset current"
proof -
  have "mset (take k (current @ take m pending)) + mset (drop k (current @ take m pending)) = mset (current @ take m pending)"
    by (simp only: mset_append [symmetric] append_take_drop_id)
  moreover have "mset pending = mset (take m pending) + mset (drop m pending)"
    by (simp only: mset_append [symmetric] append_take_drop_id)
  ultimately show ?thesis by (simp only: mset_append ac_simps)
qed

text \<open>The committee overflows: it is filled up first, then one leaves for each that enters.\<close>

lemma SwapValidator_overflow:
  assumes off: "(if offset > int (length pending) then length pending else nat offset) = m"
    and len: "length (drop k (current @ take m pending)) \<le> nat maxCommittee"
    and "0 < offset" and "0 < m" and "m \<le> length pending" and "length current \<le> nat maxCommittee"
    and "int m \<le> maxCommittee" and "diff = nat maxCommittee - length current" and "k = m - diff" and "0 < k"
  shows "SwapValidator pending current maxCommittee offset =
     Inr (drop m pending, drop k (current @ take m pending), take k (current @ take m pending), drop diff (take m pending), None)"
proof -
  have km: "k + diff = m" "diff \<le> length pending" using assms(4,5,9,10) by auto
  have split: "take m pending = take diff pending @ take k (drop diff pending)"
    using take_add [of diff k pending] km(1) by (simp only: add.commute)
  have kc: "k \<le> length (current @ take diff pending)" using km assms(6-8) by simp
  have nofit: "\<not> (length current < nat maxCommittee \<and> diff \<ge> m)" using assms(9,10) by auto
  have fill: "(if length current < nat maxCommittee
      then (m - diff, drop diff pending, current @ take diff pending) else (m, pending, current))
      = (k, drop diff pending, current @ take diff pending)"
    using assms(6,8,9) by auto
  have out: "take k (current @ take diff pending) = take k (current @ take m pending)"
    using kc by (simp add: split)
  have new: "drop k (current @ take diff pending) @ take k (drop diff pending) = drop k (current @ take m pending)"
    using kc by (simp add: split)
  have inc: "take k (drop diff pending) = drop diff (take m pending)"
    using take_drop [of k diff pending] km(1) by (simp only:)
  have rest: "drop k (drop diff pending) = drop m pending" using km(1) by (simp only: drop_drop)
  have guards: "\<not> (maxCommittee < 0 \<or> offset < 0)" "offset \<noteq> 0" "m \<noteq> 0" "\<not> int m > maxCommittee"
    "\<not> length (drop k (current @ take m pending)) > nat maxCommittee"
    using assms(3,4,7) len by simp_all
  show ?thesis
    by (simp only: SwapValidator_def off Let_def guards assms(8) [symmetric] nofit fill prod.case new [unfolded inc] rest out inc
        if_False if_True)
qed

text \<open>C24: \<open>SwapValidator\<close> as a queue. With a committee within its bound and at least one pending
  validator, \<open>m = min offset |pending| \<le> maxCommittee\<close> validators enter at the end of the committee
  in order and \<open>k\<close> of them leave at the front, \<open>k\<close> being what exceeds the bound: nobody is lost or
  duplicated and the bound holds. The list of incoming validators it reports drops the first
  \<open>diff\<close> of them when the swap only partly fits.
\<close>

theorem SwapValidator_queue:
  assumes "0 < offset" and "pending \<noteq> []" and "length current \<le> nat maxCommittee"
    and "m = min (nat offset) (length pending)" and "int m \<le> maxCommittee"
    and "diff = nat maxCommittee - length current" and "k = m - diff"
  shows "SwapValidator pending current maxCommittee offset =
     Inr (drop m pending, drop k (current @ take m pending), take k (current @ take m pending),
          (if 0 < k then drop diff (take m pending) else take m pending), None)
    \<and> length (drop k (current @ take m pending)) \<le> nat maxCommittee
    \<and> mset (drop m pending) + mset (drop k (current @ take m pending)) + mset (take k (current @ take m pending))
      = mset pending + mset current"
proof -
  have m: "0 < m" "m \<le> length pending" using assms(1,2,4) by auto
  have off: "(if offset > int (length pending) then length pending else nat offset) = m"
    using assms(1,4) by auto
  have len: "length (drop k (current @ take m pending)) \<le> nat maxCommittee"
    using assms(3,5,6,7) m by simp
  have "SwapValidator pending current maxCommittee offset =
     Inr (drop m pending, drop k (current @ take m pending), take k (current @ take m pending),
          (if 0 < k then drop diff (take m pending) else take m pending), None)"
  proof (cases "0 < k")
    case False
    then have "length current < nat maxCommittee \<and> diff \<ge> m" using assms(3,6,7) m(1) by auto
    with False show ?thesis
      unfolding SwapValidator_def off using assms(1,5,6) m by (simp add: Let_def)
  next
    case True
    then show ?thesis
      using SwapValidator_overflow [OF off len assms(1) m assms(3,5,6,7) True] by (simp only: if_True)
  qed
  with len mset_queue [of m pending k current] show ?thesis by blast
qed

theorem SwapValidator_queue_witness:
  "SwapValidator [''p1'', ''p2''] [''c1'', ''c2'', ''c3''] 4 2
   = Inr ([], [''c2'', ''c3'', ''p1'', ''p2''], [''c1''], [''p2''], None)"
proof -
  let ?p = "[''p1'', ''p2'']" and ?c = "[''c1'', ''c2'', ''c3'']"
  have "SwapValidator ?p ?c 4 2 = Inr (drop 2 ?p, drop 1 (?c @ take 2 ?p), take 1 (?c @ take 2 ?p),
      (if 0 < (1 :: nat) then drop 1 (take 2 ?p) else take 2 ?p), None)"
    by (rule SwapValidator_queue [THEN conjunct1]) simp_all
  then show ?thesis by simp
qed

text \<open>
  what \<open>RemoveValidator\<close> removes. It succeeds exactly when the \<open>i\<close>-th validator to remove
  stands at position \<open>2i\<close> of the list, and then drops as many from the front: because the list
  shrinks while the index grows, it does not remove a prefix of the list as its comment says.
\<close>

theorem RemoveValidator_iff:
  "RemoveValidator validators removed = Inr (r, None) \<longleftrightarrow>
     r = drop (length removed) validators \<and>
     (\<forall>i < length removed. 2 * i < length validators \<and> validators ! (2 * i) = removed ! i)"
proof (cases "length removed > length validators")
  case True
  then have "\<not> (\<forall>i < length removed. 2 * i < length validators \<and> validators ! (2 * i) = removed ! i)"
    by (auto intro!: exI [of _ "length validators"])
  with True show ?thesis by (auto simp: RemoveValidator_def)
next
  case False
  then show ?thesis using remove_loop_iff [of 0] by (simp add: RemoveValidator_def)
qed

theorem RemoveValidator_iff_witness:
  "RemoveValidator [''a'', ''b'', ''c''] [''a''] = Inr ([''b'', ''c''], None)"
  using RemoveValidator_iff [of "[''a'', ''b'', ''c'']" "[''a'']" "[''b'', ''c'']"] by simp

text \<open>
  The documented use of \<open>RemoveValidator\<close>, removing a prefix of two or more distinct validators,
  never succeeds.
\<close>

theorem RemoveValidator_prefix_fails:
  assumes "distinct validators" and "2 \<le> n" and "n \<le> length validators"
  shows "RemoveValidator validators (take n validators) \<noteq> Inr (r, None)"
proof
  assume "RemoveValidator validators (take n validators) = Inr (r, None)"
  then have "\<forall>i < n. 2 * i < length validators \<and> validators ! (2 * i) = take n validators ! i"
    using remove_loop_iff [of 0 validators "take n validators" r] assms(3)
    by (simp add: RemoveValidator_def)
  then have "2 < length validators" "validators ! 2 = validators ! 1"
    using assms(2) by (auto dest!: spec [of _ "1 :: nat"])
  then show False using assms(1) by (auto simp: distinct_conv_nth)
qed

theorem RemoveValidator_prefix_fails_witness:
  "RemoveValidator [''a'', ''b'', ''c''] [''a'', ''b''] \<noteq> Inr ([''c''], None)"
  using RemoveValidator_prefix_fails [of "[''a'', ''b'', ''c'']" 2 "[''c'']"] by simp

text \<open>
  \<open>ShuffleCandidate\<close> returns every distinct candidate exactly once, in any iteration order, when
  the hashes of the candidates do not collide.
\<close>

theorem ShuffleCandidate_perm:
  assumes "iteration_order (shuffle_map sum256 candidates rand) order"
    and "inj_on (shuffle_key sum256 rand) (set candidates)"
  shows "distinct (ShuffleCandidate sum256 candidates rand order)
    \<and> set (ShuffleCandidate sum256 candidates rand order) = set candidates"
proof -
  let ?k = "shuffle_key sum256 rand"
  have lk: "fmlookup (fold (\<lambda>c m. fmupd (?k c) c m) cs m) x = Some c \<longleftrightarrow>
      (c \<in> set cs \<and> ?k c = x) \<or> (x \<notin> ?k ` set cs \<and> fmlookup m x = Some c)"
    if "inj_on ?k (set cs)" for cs m x c
    using that
  proof (induction cs arbitrary: m)
    case (Cons a cs)
    then show ?case by (auto simp: inj_on_def)
  qed simp
  have look: "fmlookup (shuffle_map sum256 candidates rand) x = Some c \<longleftrightarrow> c \<in> set candidates \<and> ?k c = x" for x c
    using lk [OF assms(2), of fmempty] by (simp add: shuffle_map_def)
  have "set (ShuffleCandidate sum256 candidates rand order) = set candidates"
    by (auto simp: ShuffleCandidate_def set_range_values [OF assms(1)] look)
  moreover have "distinct (ShuffleCandidate sum256 candidates rand order)"
  proof -
    have "distinct (List.map_filter (fmlookup (shuffle_map sum256 candidates rand)) ks)" if "distinct ks" for ks
      using that
    proof (induction ks)
      case (Cons x ks)
      show ?case
      proof (cases "fmlookup (shuffle_map sum256 candidates rand) x")
        case (Some c)
        have "c \<notin> set (List.map_filter (fmlookup (shuffle_map sum256 candidates rand)) ks)"
          using Some Cons.prems by (auto simp: List.map_filter_def look) (metis look option.sel)
        with Some Cons show ?thesis by (simp add: map_filter_simps)
      qed (use Cons in \<open>simp add: map_filter_simps\<close>)
    qed (simp add: map_filter_simps)
    then show ?thesis using assms(1) by (simp add: ShuffleCandidate_def range_values_def iteration_order_def)
  qed
  ultimately show ?thesis by blast
qed

theorem ShuffleCandidate_perm_witness:
  "set (ShuffleCandidate (\<lambda>b. replicate 32 (hd b)) [''a'', ''b''] 3
      [replicate 32 (CHR ''b''), replicate 32 (CHR ''a'')]) = {''a'', ''b''}"
proof -
  let ?d = "\<lambda>b. replicate 32 (hd b) :: bytes"
  have k: "shuffle_key ?d 3 ''a'' = replicate 32 (CHR ''a'')" "shuffle_key ?d 3 ''b'' = replicate 32 (CHR ''b'')"
    by (simp_all add: shuffle_key_def HashB_def bytes_of_string_def string_of_bytes_def char_of_eq_iff)
  have ne: "replicate 32 (CHR ''a'') \<noteq> replicate 32 (CHR ''b'')" by (simp add: replicate_eq_replicate)
  have "iteration_order (shuffle_map ?d [''a'', ''b''] 3) [replicate 32 (CHR ''b''), replicate 32 (CHR ''a'')]"
    using ne by (auto simp: shuffle_map_def k iteration_order_def fmdom'_alt_def)
  moreover have "inj_on (shuffle_key ?d 3) (set [''a'', ''b''])"
    using ne by (auto simp: inj_on_def k)
  ultimately show ?thesis using ShuffleCandidate_perm [of ?d "[''a'', ''b'']" 3] by auto
qed

end
