(* ===== verification/Beacon_State.thy ===== *)
theory Beacon_State
  imports Committee Base58_Codec "HOL-Library.Signed_Division"
begin

text \<open>
  The beacon best state (\<open>src/blockchain/beaconbeststate.go\<close>) and how a beacon block is checked
  against it and changes it (\<open>src/blockchain/beaconprocess.go\<close>, \<open>multisigs.go\<close>, the reward of
  \<open>salary.go\<close>). \<open>Update\<close> works on the state in place: when it returns an error, the changes made so
  far stay, so the state is part of the result in that case too.

  Parameters: \<open>sum256\<close>; \<open>order\<close>, the iteration order of the map in \<open>ShuffleCandidate\<close>; the
  signature checks of \<open>src/privacy\<close> and \<open>src/cashec\<close>, and the block store.
\<close>

section \<open>State\<close>

record BestStateBeacon =
  bs_BestBlockHash :: hash
  bs_PrevBestBlockHash :: hash
  bs_BestBlock :: BeaconBlock
  bs_BestShardHash :: "(byte, hash) fmap"
  bs_BestShardHeight :: "(byte, uint64) fmap"
  bs_Epoch :: uint64
  bs_BeaconHeight :: uint64
  bs_BeaconProposerIdx :: int
  bs_BeaconCommittee :: "string list"
  bs_BeaconPendingValidator :: "string list"
  bs_CandidateShardWaitingForCurrentRandom :: "string list"
  bs_CandidateBeaconWaitingForCurrentRandom :: "string list"
  bs_CandidateShardWaitingForNextRandom :: "string list"
  bs_CandidateBeaconWaitingForNextRandom :: "string list"
  bs_ShardCommittee :: "(byte, string list) fmap"
  bs_ShardPendingValidator :: "(byte, string list) fmap"
  bs_CurrentRandomNumber :: int
  bs_CurrentRandomTimeStamp :: int
  bs_IsGetRandomNumber :: bool
  bs_Params :: "(string, string) fmap"
  bs_BeaconCommitteeSize :: nat
  bs_ShardCommitteeSize :: nat
  bs_ActiveShards :: nat
  bs_LastCrossShardState :: "(byte, (byte, uint64) fmap) fmap"
  bs_ShardHandle :: "(byte, bool) fmap"

definition EPOCH :: uint64 where "EPOCH = 10"
definition RANDOM_TIME :: uint64 where "RANDOM_TIME = 5"
definition OFFSET :: int where "OFFSET = 1"
definition VERSION :: int where "VERSION = 1"

text \<open>\<open>InitBestStateBeacon\<close> resets these fields of the shared state and leaves the others alone.\<close>

definition InitBestStateBeacon :: "nat \<Rightarrow> nat \<Rightarrow> nat \<Rightarrow> BestStateBeacon \<Rightarrow> BestStateBeacon" where
  "InitBestStateBeacon beaconCommitteeSize shardCommitteeSize activeShards b =
     b\<lparr>bs_BestBlockHash := zero_hash, bs_BestShardHash := fmempty, bs_BestShardHeight := fmempty,
       bs_BeaconHeight := 0, bs_BeaconCommittee := [], bs_BeaconPendingValidator := [],
       bs_CandidateShardWaitingForCurrentRandom := [], bs_CandidateBeaconWaitingForCurrentRandom := [],
       bs_CandidateShardWaitingForNextRandom := [], bs_CandidateBeaconWaitingForNextRandom := [],
       bs_ShardCommittee := fmempty, bs_ShardPendingValidator := fmempty, bs_Params := fmempty,
       bs_CurrentRandomNumber := -1, bs_BeaconCommitteeSize := beaconCommitteeSize,
       bs_ShardCommitteeSize := shardCommitteeSize, bs_ActiveShards := activeShards,
       bs_LastCrossShardState := fmempty\<rparr>"

section \<open>Queries\<close>

definition GetBestHeightOfShard :: "BestStateBeacon \<Rightarrow> byte \<Rightarrow> uint64" where
  "GetBestHeightOfShard b shardID = map_get 0 (bs_BestShardHeight b) shardID"

definition GetBestShardHeight :: "BestStateBeacon \<Rightarrow> (byte, uint64) fmap" where
  "GetBestShardHeight b = bs_BestShardHeight b"

definition GetAShardCommittee :: "BestStateBeacon \<Rightarrow> byte \<Rightarrow> string list" where
  "GetAShardCommittee b shardID = map_get [] (bs_ShardCommittee b) shardID"

definition GetShardCommittee :: "BestStateBeacon \<Rightarrow> (byte, string list) fmap" where
  "GetShardCommittee b = bs_ShardCommittee b"

definition GetAShardPendingValidator :: "BestStateBeacon \<Rightarrow> byte \<Rightarrow> string list" where
  "GetAShardPendingValidator b shardID = map_get [] (bs_ShardPendingValidator b) shardID"

definition GetShardPendingValidator :: "BestStateBeacon \<Rightarrow> (byte, string list) fmap" where
  "GetShardPendingValidator b = bs_ShardPendingValidator b"

definition GetCurrentShard :: "BestStateBeacon \<Rightarrow> byte list \<Rightarrow> byte" where
  "GetCurrentShard b order =
     (case List.find (\<lambda>k. map_get False (bs_ShardHandle b) k) order of Some k \<Rightarrow> k | None \<Rightarrow> 0)"

definition SHARD_ROLE :: string where "SHARD_ROLE = ''shard''"
definition PROPOSER_ROLE :: string where "PROPOSER_ROLE = ''proposer''"
definition VALIDATOR_ROLE :: string where "VALIDATOR_ROLE = ''validator''"
definition PENDING_ROLE :: string where "PENDING_ROLE = ''pending''"

text \<open>
  \<open>GetPubkeyRole\<close>: the first shard, in iteration order (\<open>order1\<close>, \<open>order2\<close>), whose pending list or
  committee has the key; then the beacon committee, whose proposer is at \<open>(idx + round) % len\<close>
  with Go's remainder (\<open>smod\<close>); then the beacon pending list.
\<close>

definition find_shard :: "string \<Rightarrow> (byte, string list) fmap \<Rightarrow> byte list \<Rightarrow> byte option" where
  "find_shard pubkey m order = List.find (\<lambda>k. IndexOfStr pubkey (map_get [] m k) > -1) order"

definition GetPubkeyRole :: "BestStateBeacon \<Rightarrow> byte list \<Rightarrow> byte list \<Rightarrow> string \<Rightarrow> int \<Rightarrow> string \<times> byte" where
  "GetPubkeyRole b order1 order2 pubkey rnd =
     (case find_shard pubkey (bs_ShardPendingValidator b) order1 of
        Some shardID \<Rightarrow> (SHARD_ROLE, shardID)
      | None \<Rightarrow>
        (case find_shard pubkey (bs_ShardCommittee b) order2 of
           Some shardID \<Rightarrow> (SHARD_ROLE, shardID)
         | None \<Rightarrow>
           let found = IndexOfStr pubkey (bs_BeaconCommittee b) in
           if found > -1 then
             if found = (bs_BeaconProposerIdx b + rnd) smod int (length (bs_BeaconCommittee b))
             then (PROPOSER_ROLE, 0) else (VALIDATOR_ROLE, 0)
           else if IndexOfStr pubkey (bs_BeaconPendingValidator b) > -1 then (PENDING_ROLE, 0)
           else ('''', 0)))"

text \<open>\<open>GetValidStakers\<close>: the range loops only filter, so their order does not matter.\<close>

definition GetValidStakers :: "BestStateBeacon \<Rightarrow> string list \<Rightarrow> string list" where
  "GetValidStakers b stakers =
     (let s1 = fold (\<lambda>k. GetValidStaker (map_get [] (GetShardCommittee b) k)) (sorted_keys (GetShardCommittee b)) stakers;
          s2 = fold (\<lambda>k. GetValidStaker (map_get [] (GetShardPendingValidator b) k)) (sorted_keys (GetShardPendingValidator b)) s1;
          s3 = GetValidStaker (bs_BeaconCommittee b) s2;
          s4 = GetValidStaker (bs_BeaconPendingValidator b) s3;
          s5 = GetValidStaker (bs_CandidateBeaconWaitingForCurrentRandom b) s4;
          s6 = GetValidStaker (bs_CandidateBeaconWaitingForNextRandom b) s5;
          s7 = GetValidStaker (bs_CandidateShardWaitingForCurrentRandom b) s6;
          s8 = GetValidStaker (bs_CandidateShardWaitingForNextRandom b) s7
      in GetValidStaker (bs_CandidateShardWaitingForNextRandom b) s8)"

text \<open>The bytes behind \<open>Hash\<close>: each map is written in the order of its sorted keys.\<close>

definition string_of_bool :: "bool \<Rightarrow> string" where
  "string_of_bool x = (if x then ''true'' else ''false'')"

definition int64_bytes :: "int \<Rightarrow> bytes" where
  "int64_bytes i = le_bytes 8 (unat (word_of_int i :: uint64))"

definition BestStateBeacon_GetBytes :: "(bytes \<Rightarrow> bytes) \<Rightarrow> BestStateBeacon \<Rightarrow> bytes" where
  "BestStateBeacon_GetBytes sum256 b =
     Hash_GetBytes (bs_BestBlockHash b)
     @ Hash_GetBytes (bs_PrevBestBlockHash b)
     @ Hash_GetBytes (BeaconBlock_Hash sum256 (bs_BestBlock b))
     @ Hash_GetBytes (bh_PrevBlockHash (bk_Header (bs_BestBlock b)))
     @ concat (map (\<lambda>k. Hash_GetBytes (map_get zero_hash (bs_BestShardHash b) k)) (sorted_keys (bs_BestShardHash b)))
     @ map (\<lambda>k. of_nat (unat (map_get 0 (bs_BestShardHeight b) k))) (sorted_keys (bs_BestShardHeight b))
     @ le_bytes 8 (unat (bs_Epoch b))
     @ le_bytes 8 (unat (bs_BeaconHeight b))
     @ bytes_of_string (itoa (bs_BeaconProposerIdx b))
     @ bytes_of_string (concat (bs_BeaconCommittee b))
     @ bytes_of_string (concat (bs_BeaconPendingValidator b))
     @ bytes_of_string (concat (bs_CandidateBeaconWaitingForCurrentRandom b))
     @ bytes_of_string (concat (bs_CandidateBeaconWaitingForNextRandom b))
     @ bytes_of_string (concat (bs_CandidateShardWaitingForCurrentRandom b))
     @ bytes_of_string (concat (bs_CandidateShardWaitingForNextRandom b))
     @ bytes_of_string (concat (sorted_values (bs_ShardCommittee b)))
     @ bytes_of_string (concat (sorted_values (bs_ShardPendingValidator b)))
     @ int64_bytes (bs_CurrentRandomNumber b)
     @ int64_bytes (bs_CurrentRandomTimeStamp b)
     @ bytes_of_string (string_of_bool (bs_IsGetRandomNumber b))
     @ bytes_of_string (concat (map (map_get '''' (bs_Params b)) (sorted_keys (bs_Params b))))
     @ bytes_of_string (concat (map (\<lambda>k. string_of_bool (map_get False (bs_ShardHandle b) k)) (sorted_keys (bs_ShardHandle b))))
     @ bytes_of_string (decimal (bs_BeaconCommitteeSize b))
     @ bytes_of_string (decimal (bs_ShardCommitteeSize b))
     @ bytes_of_string (decimal (bs_ActiveShards b))
     @ concat (map (\<lambda>k. let m = map_get fmempty (bs_LastCrossShardState b) k
                        in concat (map (\<lambda>t. le_bytes 8 (unat (map_get 0 m t))) (sorted_keys m)))
                   (sorted_keys (bs_LastCrossShardState b)))"

definition BestStateBeacon_Hash :: "(bytes \<Rightarrow> bytes) \<Rightarrow> BestStateBeacon \<Rightarrow> hash" where
  "BestStateBeacon_Hash sum256 b = HashH sum256 (BestStateBeacon_GetBytes sum256 b)"

section \<open>Update\<close>

datatype update_error = AtoiError | RemoveFailed remove_error | SwapFailed swap_error

text \<open>The local variables of \<open>Update\<close> next to the state.\<close>

record update_acc =
  ua_state :: BestStateBeacon
  ua_randomFlag :: bool
  ua_newBeaconCandidate :: "string list"
  ua_newShardCandidate :: "string list"

type_synonym 's outcome = "fault + 's \<times> update_error option"

definition andNext :: "'s outcome \<Rightarrow> ('s \<Rightarrow> 's outcome) \<Rightarrow> 's outcome" where
  "andNext r f = andThen r (\<lambda>(s, e). case e of None \<Rightarrow> f s | Some x \<Rightarrow> Inr (s, Some x))"

definition inst_set :: "instruction \<Rightarrow> update_acc \<Rightarrow> update_acc outcome" where
  "inst_set l a =
     (if l ! 0 = SetAction then
        andThen (index l 1) (\<lambda>k. andThen (index l 2) (\<lambda>v.
          Inr (a\<lparr>ua_state := (ua_state a)\<lparr>bs_Params := fmupd k v (bs_Params (ua_state a))\<rparr>\<rparr>, None)))
      else Inr (a, None))"

definition inst_delete :: "instruction \<Rightarrow> update_acc \<Rightarrow> update_acc outcome" where
  "inst_delete l a =
     (if l ! 0 = DeleteAction then
        andThen (index l 1) (\<lambda>k.
          Inr (a\<lparr>ua_state := (ua_state a)\<lparr>bs_Params := fmdrop k (bs_Params (ua_state a))\<rparr>\<rparr>, None))
      else Inr (a, None))"

text \<open>The result list of \<open>RemoveValidator\<close> is assigned before its error is looked at.\<close>

definition remove_with ::
  "string list \<Rightarrow> string list \<Rightarrow> (string list \<Rightarrow> update_acc) \<Rightarrow> update_acc outcome" where
  "remove_with validators removed put =
     andThen (RemoveValidator validators removed) (\<lambda>(r, e). Inr (put r, map_option RemoveFailed e))"

definition swap_shard :: "byte \<Rightarrow> string \<Rightarrow> string \<Rightarrow> update_acc \<Rightarrow> update_acc outcome" where
  "swap_shard shardID l1 l2 a0 =
     (let inPubkeys = split_on (CHR '','') l1; outPubkeys = split_on (CHR '','') l2;
          putPending = (\<lambda>a r. a\<lparr>ua_state := (ua_state a)\<lparr>bs_ShardPendingValidator :=
                          fmupd shardID r (bs_ShardPendingValidator (ua_state a))\<rparr>\<rparr>);
          putCommittee = (\<lambda>a r. a\<lparr>ua_state := (ua_state a)\<lparr>bs_ShardCommittee :=
                            fmupd shardID r (bs_ShardCommittee (ua_state a))\<rparr>\<rparr>);
          committee = (\<lambda>a. map_get [] (bs_ShardCommittee (ua_state a)) shardID)
      in andNext
           (if length l1 > 0 then
              andNext (remove_with (map_get [] (bs_ShardPendingValidator (ua_state a0)) shardID) inPubkeys (putPending a0))
                (\<lambda>a. Inr (putCommittee a (committee a @ inPubkeys), None))
            else Inr (a0, None))
           (\<lambda>a. if length l2 > 0 then remove_with (committee a) outPubkeys (putCommittee a) else Inr (a, None)))"

definition swap_beacon :: "string \<Rightarrow> string \<Rightarrow> update_acc \<Rightarrow> update_acc outcome" where
  "swap_beacon l1 l2 a0 =
     (let inPubkeys = split_on (CHR '','') l1; outPubkeys = split_on (CHR '','') l2;
          putPending = (\<lambda>a r. a\<lparr>ua_state := (ua_state a)\<lparr>bs_BeaconPendingValidator := r\<rparr>\<rparr>);
          putCommittee = (\<lambda>a r. a\<lparr>ua_state := (ua_state a)\<lparr>bs_BeaconCommittee := r\<rparr>\<rparr>)
      in andNext
           (if length l1 > 0 then
              andNext (remove_with (bs_BeaconPendingValidator (ua_state a0)) inPubkeys (putPending a0))
                (\<lambda>a. Inr (putCommittee a (bs_BeaconCommittee (ua_state a) @ inPubkeys), None))
            else Inr (a0, None))
           (\<lambda>a. if length l2 > 0 then remove_with (bs_BeaconCommittee (ua_state a)) outPubkeys (putCommittee a)
                else Inr (a, None)))"

definition inst_swap :: "instruction \<Rightarrow> update_acc \<Rightarrow> update_acc outcome" where
  "inst_swap l a =
     (if l ! 0 = SwapAction then
        andThen (index l 1) (\<lambda>l1. andThen (index l 2) (\<lambda>l2. andThen (index l 3) (\<lambda>l3.
          if l3 = ''shard'' then
            andThen (index l 4) (\<lambda>l4.
              case atoi l4 of
                None \<Rightarrow> Inr (a, Some AtoiError)
              | Some temp \<Rightarrow> swap_shard (word_of_int temp) l1 l2 a)
          else if l3 = ''beacon'' then swap_beacon l1 l2 a
          else Inr (a, None))))
      else Inr (a, None))"

definition inst_random :: "instruction \<Rightarrow> update_acc \<Rightarrow> update_acc outcome" where
  "inst_random l a =
     (if l ! 0 = RandomAction then
        andThen (index l 1) (\<lambda>l1.
          case atoi l1 of
            None \<Rightarrow> Inr (a, Some AtoiError)
          | Some temp \<Rightarrow>
              Inr (a\<lparr>ua_state := (ua_state a)\<lparr>bs_CurrentRandomNumber := temp\<rparr>, ua_randomFlag := True\<rparr>, None))
      else Inr (a, None))"

definition inst_stake :: "instruction \<Rightarrow> update_acc \<Rightarrow> update_acc outcome" where
  "inst_stake l a =
     andThen (is_stake ''beacon'' l) (\<lambda>b.
       let a' = (if b then a\<lparr>ua_newBeaconCandidate := ua_newBeaconCandidate a @ split_on (CHR '','') (l ! 1)\<rparr> else a)
       in andThen (is_stake ''shard'' l) (\<lambda>s.
            Inr (if s then a'\<lparr>ua_newShardCandidate := ua_newShardCandidate a' @ split_on (CHR '','') (l ! 1)\<rparr> else a', None)))"

definition apply_instruction :: "instruction \<Rightarrow> update_acc \<Rightarrow> update_acc outcome" where
  "apply_instruction l a =
     (if length l < 1 then Inr (a, None)
      else andNext (inst_set l a) (\<lambda>a. andNext (inst_delete l a) (\<lambda>a. andNext (inst_swap l a) (\<lambda>a.
           andNext (inst_random l a) (inst_stake l)))))"

fun apply_instructions :: "instruction list \<Rightarrow> update_acc \<Rightarrow> update_acc outcome" where
  "apply_instructions [] a = Inr (a, None)"
| "apply_instructions (l # ls) a = andNext (apply_instruction l a) (apply_instructions ls)"

text \<open>The loop over \<open>Body.ShardState\<close>: the last entry of each shard; an empty list panics.\<close>

fun update_shards :: "(byte, ShardState list) fmap \<Rightarrow> byte list \<Rightarrow> BestStateBeacon \<Rightarrow> fault + BestStateBeacon" where
  "update_shards m [] b = Inr b"
| "update_shards m (k # ks) b =
     (let shardStates = map_get [] m k in
      if shardStates = [] then Inl IndexOutOfRange
      else update_shards m ks
             (b\<lparr>bs_BestShardHash := fmupd k (ss_Hash (last shardStates)) (bs_BestShardHash b),
                bs_BestShardHeight := fmupd k (ss_Height (last shardStates)) (bs_BestShardHeight b)\<rparr>))"

text \<open>
  The genesis branch cuts the candidate lists into committees. A cut beyond the length of the list
  is taken as a panic; Go would panic beyond its capacity.
\<close>

fun genesis_shards :: "nat \<Rightarrow> string list \<Rightarrow> nat list \<Rightarrow> (byte, string list) fmap \<Rightarrow> fault + (byte, string list) fmap" where
  "genesis_shards sz cands [] m = Inr m"
| "genesis_shards sz cands (s # ss) m =
     (if (s + 1) * sz > length cands then Inl IndexOutOfRange
      else genesis_shards sz cands ss
             (fmupd (of_nat s) (map_get [] m (of_nat s) @ take sz (drop (s * sz) cands)) m))"

definition assign_candidates :: "string list \<Rightarrow> string list \<Rightarrow> BestStateBeacon \<Rightarrow> fault + BestStateBeacon" where
  "assign_candidates newBeacon newShard b =
     (if bs_BeaconHeight b = 1 then
        if bs_BeaconCommitteeSize b > length newBeacon then Inl IndexOutOfRange
        else andThen (genesis_shards (bs_ShardCommitteeSize b) newShard [0..<bs_ActiveShards b] (bs_ShardCommittee b))
               (\<lambda>m. Inr (b\<lparr>bs_BeaconCommittee := take (bs_BeaconCommitteeSize b) newBeacon, bs_ShardCommittee := m, bs_Epoch := 1\<rparr>))
      else Inr (b\<lparr>bs_CandidateBeaconWaitingForNextRandom := bs_CandidateBeaconWaitingForNextRandom b @ newBeacon,
                  bs_CandidateShardWaitingForNextRandom := bs_CandidateShardWaitingForNextRandom b @ newShard\<rparr>))"

definition snapshot_candidates :: "int \<Rightarrow> BestStateBeacon \<Rightarrow> BestStateBeacon" where
  "snapshot_candidates timestamp b =
     b\<lparr>bs_CandidateShardWaitingForCurrentRandom := bs_CandidateShardWaitingForNextRandom b,
       bs_CandidateBeaconWaitingForCurrentRandom := bs_CandidateBeaconWaitingForNextRandom b,
       bs_CandidateShardWaitingForNextRandom := [],
       bs_CandidateBeaconWaitingForNextRandom := [],
       bs_CurrentRandomTimeStamp := timestamp\<rparr>"

definition assign_random ::
  "(bytes \<Rightarrow> bytes) \<Rightarrow> string list \<Rightarrow> BestStateBeacon \<Rightarrow> fault + BestStateBeacon" where
  "assign_random sum256 order b =
     andThen (AssignValidatorShard sum256 (bs_ShardPendingValidator b)
                (bs_CandidateShardWaitingForCurrentRandom b) (bs_CurrentRandomNumber b) (bs_ActiveShards b)) (\<lambda>m.
       Inr (b\<lparr>bs_IsGetRandomNumber := True, bs_ShardPendingValidator := m,
              bs_CandidateShardWaitingForCurrentRandom := [],
              bs_CandidateBeaconWaitingForCurrentRandom := [],
              bs_BeaconPendingValidator := bs_BeaconPendingValidator b
                @ ShuffleCandidate sum256 (bs_CandidateBeaconWaitingForCurrentRandom b) (bs_CurrentRandomNumber b) order\<rparr>))"

definition epoch_phase ::
  "(bytes \<Rightarrow> bytes) \<Rightarrow> string list \<Rightarrow> bool \<Rightarrow> int \<Rightarrow> BestStateBeacon \<Rightarrow> BestStateBeacon outcome" where
  "epoch_phase sum256 order randomFlag timestamp b =
     (let pos = bs_BeaconHeight b mod EPOCH in
      if pos = 1 \<and> bs_BeaconHeight b \<noteq> 1 then Inr (b\<lparr>bs_IsGetRandomNumber := False\<rparr>, None)
      else if pos < RANDOM_TIME then Inr (b, None)
      else if pos \<ge> RANDOM_TIME then
        let b1 = (if pos = RANDOM_TIME then snapshot_candidates timestamp b else b)
        in if randomFlag then andThen (assign_random sum256 order b1) (\<lambda>b2. Inr (b2, None)) else Inr (b1, None)
      else if pos = 0 then
        andThen (SwapValidator (bs_BeaconPendingValidator b) (bs_BeaconCommittee b) (int (bs_BeaconCommitteeSize b)) OFFSET)
          (\<lambda>(pending, committee, swapped, new, e).
             Inr (b\<lparr>bs_BeaconPendingValidator := pending, bs_BeaconCommittee := committee\<rparr>, map_option SwapFailed e))
      else Inr (b, None))"

definition Update ::
  "(bytes \<Rightarrow> bytes) \<Rightarrow> string list \<Rightarrow> BeaconBlock \<Rightarrow> BestStateBeacon \<Rightarrow> BestStateBeacon outcome" where
  "Update sum256 order newBlock b =
     andThen (if bh_Height (bk_Header newBlock) = 1 then Inr 0
              else andThen (Base58Check_Encode sum256 (pa_Pk (bh_ProducerAddress (bk_Header newBlock))) 0)
                     (\<lambda>pk. Inr (IndexOfStr pk (bs_BeaconCommittee b)))) (\<lambda>idx.
     let b1 = b\<lparr>bs_PrevBestBlockHash := bs_BestBlockHash b,
                bs_BestBlockHash := BeaconBlock_Hash sum256 newBlock,
                bs_BestBlock := newBlock,
                bs_Epoch := bh_Epoch (bk_Header newBlock),
                bs_BeaconHeight := bh_Height (bk_Header newBlock),
                bs_BeaconProposerIdx := idx\<rparr>;
         allShardState = bb_ShardState (bk_Body newBlock)
     in andThen (update_shards allShardState (sorted_keys allShardState) b1) (\<lambda>b2.
        andThen (apply_instructions (bb_Instructions (bk_Body newBlock))
                   \<lparr>ua_state = b2, ua_randomFlag = False, ua_newBeaconCandidate = [], ua_newShardCandidate = []\<rparr>)
          (\<lambda>(a, e). case e of
             Some x \<Rightarrow> Inr (ua_state a, Some x)
           | None \<Rightarrow>
               andThen (assign_candidates (ua_newBeaconCandidate a) (ua_newShardCandidate a) (ua_state a))
                 (epoch_phase sum256 order (ua_randomFlag a) (bh_Timestamp (bk_Header newBlock))))))"

section \<open>Verification of a block\<close>

datatype agg_error = PublicKeyError | RError check_error | DecompressError | AggSigError | InvalidAggSignature

fun committee_keys :: "(bytes \<Rightarrow> bytes) \<Rightarrow> string list \<Rightarrow> nat list \<Rightarrow> fault + bytes list option" where
  "committee_keys sum256 committees [] = Inr (Some [])"
| "committee_keys sum256 committees (i # is) =
     andThen (index committees i) (\<lambda>c.
       case Base58Check_Decode sum256 c of
         Inl e \<Rightarrow> Inr None
       | Inr (pk, _) \<Rightarrow> andThen (committee_keys sum256 committees is) (\<lambda>r. Inr (map_option (\<lambda>pks. pk # pks) r)))"

datatype block_error =
    ProducerError | VersionError | DBError | BlockHeightError | EpochError | ShardStateHashError
  | InstructionHashError | ShardStateError | SignatureError | CandidateError | HashError
  | DuplicateBlockErr | BeaconError | UpdateError update_error

definition VerifyBestStateWithBeaconBlock ::
  "(bytes \<Rightarrow> bytes) \<Rightarrow> (nat list list \<Rightarrow> string list \<Rightarrow> string \<Rightarrow> string \<Rightarrow> hash \<Rightarrow> fault + agg_error option)
   \<Rightarrow> BeaconBlock \<Rightarrow> bool \<Rightarrow> BestStateBeacon \<Rightarrow> fault + block_error option" where
  "VerifyBestStateWithBeaconBlock sum256 validateAgg block isVerifySig b =
     andThen
       (if isVerifySig then
          andThen (if length (bs_BeaconCommittee b) > 3
                   then andThen (index (bk_ValidatorsIdx block) 1) (\<lambda>v.
                          Inr (length v < length (bs_BeaconCommittee b) div 2))
                   else Inr False) (\<lambda>tooFew.
          if tooFew then Inr (Some SignatureError)
          else andThen (validateAgg (bk_ValidatorsIdx block) (bs_BeaconCommittee b) (bk_AggregatedSig block)
                          (bk_R block) (BeaconBlock_Hash sum256 block)) (\<lambda>e.
                 Inr (if e = None then None else Some SignatureError)))
        else Inr None) (\<lambda>sigErr.
     let h = bh_Height (bk_Header block) in
     if sigErr \<noteq> None then Inr sigErr
     else if bs_BeaconHeight b + 1 \<noteq> h then Inr (Some BlockHeightError)
     else if Hash_GetBytes (bs_BestBlockHash b) \<noteq> Hash_GetBytes (bh_PrevBlockHash (bk_Header block)) then Inr (Some BlockHeightError)
     else if h mod EPOCH = 1 \<and> bs_Epoch b + 1 \<noteq> bh_Epoch (bk_Header block) then Inr (Some EpochError)
     else if h mod EPOCH \<noteq> 1 \<and> bs_Epoch b \<noteq> bh_Epoch (bk_Header block) then Inr (Some EpochError)
     else andThen (GetStakingCandidate block) (\<lambda>(newBeacon, newShard).
       if newBeacon \<noteq> [] \<and> GetValidStakers b newBeacon \<noteq> newBeacon then Inr (Some CandidateError)
       else if newShard \<noteq> [] \<and> GetValidStakers b newShard \<noteq> newShard then Inr (Some CandidateError)
       else Inr None))"

text \<open>\<open>checkSig\<close> is \<open>cashec.ValidateDataB58\<close>: whether a key signed the given bytes.\<close>

definition VerifyPostProcessingBeaconBlock ::
  "(bytes \<Rightarrow> bytes) \<Rightarrow> (string \<Rightarrow> string \<Rightarrow> bytes \<Rightarrow> bool) \<Rightarrow> BeaconBlock \<Rightarrow> string list \<Rightarrow> BestStateBeacon
   \<Rightarrow> fault + block_error option" where
  "VerifyPostProcessingBeaconBlock sum256 checkSig block snapShot b =
     (if bs_BeaconProposerIdx b < 0 \<or> bs_BeaconProposerIdx b \<ge> int (length snapShot) then Inl IndexOutOfRange
      else if \<not> checkSig (snapShot ! nat (bs_BeaconProposerIdx b)) (bk_ProducerSig block)
                (Hash_GetBytes (BeaconHeader_Hash sum256 (bk_Header block))) then Inr (Some SignatureError)
      else if \<not> VerifyHashFromStringArray sum256 (bs_BeaconCommittee b @ bs_BeaconPendingValidator b)
                (bh_ValidatorsRoot (bk_Header block)) then Inr (Some HashError)
      else if \<not> VerifyHashFromStringArray sum256
                (bs_CandidateBeaconWaitingForCurrentRandom b @ bs_CandidateBeaconWaitingForNextRandom b)
                (bh_BeaconCandidateRoot (bk_Header block)) then Inr (Some HashError)
      else if \<not> VerifyHashFromStringArray sum256
                (bs_CandidateShardWaitingForCurrentRandom b @ bs_CandidateShardWaitingForNextRandom b)
                (bh_ShardCandidateRoot (bk_Header block)) then Inr (Some HashError)
      else if \<not> VerifyHashFromMapByteString sum256 (bs_ShardPendingValidator b) (bs_ShardCommittee b)
                (bh_ShardValidatorsRoot (bk_Header block)) then Inr (Some HashError)
      else Inr None)"

text \<open>The loop over each list of shard states: \<open>for i := 0; i < len-2; i++\<close>.\<close>

definition shard_states_format :: "ShardState list \<Rightarrow> bool" where
  "shard_states_format ss = list_all (\<lambda>i. ss_Height (ss ! (i + 1)) - ss_Height (ss ! i) = 1) [0..<length ss - 2]"

text \<open>\<open>VerifyPreProcessingBeaconBlock\<close> with \<open>isCommittee = false\<close>; \<open>fetch\<close> is the block store.\<close>

definition VerifyPreProcessingBeaconBlock ::
  "(bytes \<Rightarrow> bytes) \<Rightarrow> (string \<Rightarrow> string \<Rightarrow> bytes \<Rightarrow> bool) \<Rightarrow> (hash \<Rightarrow> BeaconBlock option) \<Rightarrow> BeaconBlock
   \<Rightarrow> BestStateBeacon \<Rightarrow> fault + block_error option" where
  "VerifyPreProcessingBeaconBlock sum256 checkSig fetch block b =
     (let hdr = bk_Header block in
      andThen (Base58Check_Encode sum256 (pa_Pk (bh_ProducerAddress hdr)) 0) (\<lambda>producerPk.
      if \<not> checkSig producerPk (bk_ProducerSig block) (Hash_GetBytes (BeaconHeader_Hash sum256 hdr)) then Inr (Some ProducerError)
      else if bs_BeaconCommittee b = [] then Inl DivideByZero
      else let pos = (bs_BeaconProposerIdx b + bh_Round hdr) smod int (length (bs_BeaconCommittee b)) in
      if pos < 0 then Inl IndexOutOfRange
      else if bs_BeaconCommittee b ! nat pos \<noteq> producerPk then Inr (Some ProducerError)
      else if bh_Version hdr \<noteq> VERSION then Inr (Some VersionError)
      else case fetch (bh_PrevBlockHash hdr) of
        None \<Rightarrow> Inr (Some DBError)
      | Some parent \<Rightarrow>
          if bh_Height (bk_Header parent) + 1 \<noteq> bh_Height hdr then Inr (Some BlockHeightError)
          else if bh_Height hdr \<noteq> 1 \<and> bh_Height hdr mod EPOCH = 1 \<and> bh_Epoch (bk_Header parent) \<noteq> bh_Epoch hdr - 1
          then Inr (Some EpochError)
          else if \<not> VerifyHashFromShardState sum256 (bb_ShardState (bk_Body block)) (bh_ShardStateHash hdr)
          then Inr (Some ShardStateHashError)
          else if \<not> VerifyHashFromStringArray sum256 (concat (bb_Instructions (bk_Body block))) (bh_InstructionHash hdr)
          then Inr (Some InstructionHashError)
          else if \<not> list_all (\<lambda>k. shard_states_format (map_get [] (bb_ShardState (bk_Body block)) k))
                     (sorted_keys (bb_ShardState (bk_Body block)))
          then Inr (Some ShardStateError)
          else Inr None))"

text \<open>
  \<open>InsertBeaconBlock\<close> up to the new best state: the stores to the database and the pools that
  follow are not part of it. \<open>known\<close> tells whether the block is stored already.
\<close>

definition InsertBeaconBlock ::
  "(bytes \<Rightarrow> bytes) \<Rightarrow> (nat list list \<Rightarrow> string list \<Rightarrow> string \<Rightarrow> string \<Rightarrow> hash \<Rightarrow> fault + agg_error option)
   \<Rightarrow> (string \<Rightarrow> string \<Rightarrow> bytes \<Rightarrow> bool) \<Rightarrow> (hash \<Rightarrow> BeaconBlock option) \<Rightarrow> (hash \<Rightarrow> bool) \<Rightarrow> string list
   \<Rightarrow> BeaconBlock \<Rightarrow> bool \<Rightarrow> BestStateBeacon \<Rightarrow> fault + BestStateBeacon \<times> block_error option" where
  "InsertBeaconBlock sum256 validateAgg checkSig fetch known order block isValidated b =
     (if known (BeaconBlock_Hash sum256 block) then Inr (b, Some DuplicateBlockErr)
      else andThen (if isValidated then Inr None else VerifyPreProcessingBeaconBlock sum256 checkSig fetch block b) (\<lambda>e1.
      if e1 \<noteq> None then Inr (b, e1)
      else if \<not> Hash_IsEqual (Some (bs_BestBlockHash b)) (Some (bh_PrevBlockHash (bk_Header block))) then Inr (b, Some BeaconError)
      else andThen (if isValidated then Inr None else VerifyBestStateWithBeaconBlock sum256 validateAgg block True b) (\<lambda>e2.
      if e2 \<noteq> None then Inr (b, e2)
      else andThen (Update sum256 order block b) (\<lambda>(b', e3).
      if e3 \<noteq> None then Inr (b', map_option UpdateError e3)
      else andThen (if isValidated then Inr None
                    else VerifyPostProcessingBeaconBlock sum256 checkSig block (bs_BeaconCommittee b) b') (\<lambda>e4.
      Inr (b', e4))))))"

section \<open>The block reward\<close>

definition getRewardAmount :: "uint64 \<Rightarrow> uint64 \<Rightarrow> uint64 \<Rightarrow> fault + uint64" where
  "getRewardAmount basicReward rewardHalflife blkHeight =
     (if rewardHalflife = 0 then Inl DivideByZero
      else Inr (((\<lambda>reward. reward div 2) ^^ unat (blkHeight div rewardHalflife)) basicReward))"

section \<open>Lemmas\<close>

lemma andNext_Inr:
  "andNext r f = Inr (y, e) \<longleftrightarrow> (\<exists>x e'. r = Inr (x, e') \<and> (if e' = None then f x = Inr (y, e) else y = x \<and> e = e'))"
  by (auto simp: andNext_def andThen_Inr_iff split: option.splits)

lemma index_Inr: "index xs i = Inr x \<longleftrightarrow> i < length xs \<and> x = xs ! i"
  by (auto simp: index_def)

lemmas outcome_simps = andThen_Inr_iff andNext_Inr index_Inr

text \<open>The parts of the state the instructions of a block do not touch.\<close>

definition bs_tip :: "BestStateBeacon \<Rightarrow> hash \<times> hash \<times> BeaconBlock \<times> uint64 \<times> int \<times> (byte, hash) fmap \<times> (byte, uint64) fmap" where
  "bs_tip b = (bs_BestBlockHash b, bs_PrevBestBlockHash b, bs_BestBlock b, bs_BeaconHeight b,
     bs_BeaconProposerIdx b, bs_BestShardHash b, bs_BestShardHeight b)"

definition same_tip :: "BestStateBeacon \<Rightarrow> BestStateBeacon \<Rightarrow> bool" where
  "same_tip b b' \<longleftrightarrow> bs_tip b' = bs_tip b \<and> bs_Epoch b' = bs_Epoch b"

lemma same_tip_simps [simp]:
  "same_tip b (b'\<lparr>bs_Params := x1\<rparr>) = same_tip b b'"
  "same_tip b (b'\<lparr>bs_ShardPendingValidator := x2\<rparr>) = same_tip b b'"
  "same_tip b (b'\<lparr>bs_ShardCommittee := x3\<rparr>) = same_tip b b'"
  "same_tip b (b'\<lparr>bs_BeaconPendingValidator := x2'\<rparr>) = same_tip b b'"
  "same_tip b (b'\<lparr>bs_BeaconCommittee := x3'\<rparr>) = same_tip b b'"
  "same_tip b (b'\<lparr>bs_CurrentRandomNumber := x4\<rparr>) = same_tip b b'"
  "same_tip b b"
  by (simp_all add: same_tip_def bs_tip_def)

text \<open>
  \<open>outcome_all Q r\<close>: when \<open>r\<close> does not fault, its state satisfies \<open>Q\<close>. The rules below let a
  property that every state change keeps be read off the structure of \<open>Update\<close>.
\<close>

definition outcome_all :: "('s \<Rightarrow> bool) \<Rightarrow> 's outcome \<Rightarrow> bool" where
  "outcome_all Q r \<longleftrightarrow> (case r of Inl f \<Rightarrow> True | Inr (s, e) \<Rightarrow> Q s)"

lemma outcome_allD: "outcome_all Q r \<Longrightarrow> r = Inr (s, e) \<Longrightarrow> Q s"
  by (simp add: outcome_all_def)

lemma outcome_all_Inr [simp]: "outcome_all Q (Inr (s, e)) = Q s"
  by (simp add: outcome_all_def)

lemma outcome_all_Inl [simp]: "outcome_all Q (Inl f)"
  by (simp add: outcome_all_def)

lemma outcome_all_andNext:
  "outcome_all Q r \<Longrightarrow> (\<And>s. Q s \<Longrightarrow> outcome_all Q (f s)) \<Longrightarrow> outcome_all Q (andNext r f)"
  by (cases r) (auto simp: andNext_def andThen_def split: prod.splits option.splits)

lemma outcome_all_andThen: "(\<And>x. outcome_all Q (f x)) \<Longrightarrow> outcome_all Q (andThen r f)"
  by (cases r) (simp_all add: andThen_def)

lemma outcome_all_remove_with: "(\<And>r. Q (put r)) \<Longrightarrow> outcome_all Q (remove_with vs rs put)"
  by (auto simp: remove_with_def intro!: outcome_all_andThen)

lemmas outcome_rules = outcome_all_andNext outcome_all_andThen outcome_all_remove_with

lemma swap_tip:
  "same_tip b (ua_state a) \<Longrightarrow> outcome_all (\<lambda>a'. same_tip b (ua_state a')) (swap_shard s l1 l2 a)"
  "same_tip b (ua_state a) \<Longrightarrow> outcome_all (\<lambda>a'. same_tip b (ua_state a')) (swap_beacon l1 l2 a)"
  unfolding swap_shard_def swap_beacon_def Let_def by (auto intro!: outcome_rules)

lemma inst_tip:
  "same_tip b (ua_state a) \<Longrightarrow> outcome_all (\<lambda>a'. same_tip b (ua_state a')) (inst_set l a)"
  "same_tip b (ua_state a) \<Longrightarrow> outcome_all (\<lambda>a'. same_tip b (ua_state a')) (inst_delete l a)"
  "same_tip b (ua_state a) \<Longrightarrow> outcome_all (\<lambda>a'. same_tip b (ua_state a')) (inst_swap l a)"
  "same_tip b (ua_state a) \<Longrightarrow> outcome_all (\<lambda>a'. same_tip b (ua_state a')) (inst_random l a)"
  "same_tip b (ua_state a) \<Longrightarrow> outcome_all (\<lambda>a'. same_tip b (ua_state a')) (inst_stake l a)"
  unfolding inst_set_def inst_delete_def inst_swap_def inst_random_def inst_stake_def Let_def
  by (auto intro!: outcome_rules swap_tip split: option.splits)

lemma apply_instructions_tip:
  "same_tip b (ua_state a) \<Longrightarrow> outcome_all (\<lambda>a'. same_tip b (ua_state a')) (apply_instructions ls a)"
proof (induction ls arbitrary: a)
  case (Cons l ls)
  then show ?case by (auto simp: apply_instruction_def intro!: outcome_all_andNext inst_tip)
qed simp

lemma assign_candidates_tip:
  "assign_candidates nb ns b = Inr b' \<Longrightarrow>
     bs_tip b' = bs_tip b \<and> bs_Epoch b' = (if bs_BeaconHeight b = 1 then 1 else bs_Epoch b)"
  by (auto simp: assign_candidates_def outcome_simps bs_tip_def split: if_splits)

lemma epoch_phase_tip:
  "epoch_phase sum256 order rf ts b = Inr (b', e) \<Longrightarrow>
     bs_tip b' = bs_tip b \<and> bs_Epoch b' = bs_Epoch b \<and> bs_BeaconCommittee b' = bs_BeaconCommittee b \<and> e = None"
  by (auto simp: epoch_phase_def Let_def assign_random_def snapshot_candidates_def outcome_simps bs_tip_def not_less
      split: if_splits)

lemma update_shards_spec:
  "update_shards m ks b = Inr b' \<Longrightarrow> distinct ks \<Longrightarrow>
     (\<forall>k. map_get z (bs_BestShardHeight b') k = (if k \<in> set ks then ss_Height (last (map_get [] m k)) else map_get z (bs_BestShardHeight b) k))
     \<and> (bs_BestBlockHash b', bs_PrevBestBlockHash b', bs_BestBlock b', bs_BeaconHeight b', bs_BeaconProposerIdx b', bs_Epoch b', bs_BeaconCommittee b')
       = (bs_BestBlockHash b, bs_PrevBestBlockHash b, bs_BestBlock b, bs_BeaconHeight b, bs_BeaconProposerIdx b, bs_Epoch b, bs_BeaconCommittee b)"
proof (induction ks arbitrary: b)
  case (Cons k ks)
  then show ?case by (auto simp: Let_def split: if_splits)
qed simp

text \<open>What a successful \<open>Update\<close> does to the tip of the chain.\<close>

lemma Update_tip:
  assumes "Update sum256 order block b = Inr (b', None)"
  shows "bs_BestBlockHash b' = BeaconBlock_Hash sum256 block \<and> bs_PrevBestBlockHash b' = bs_BestBlockHash b
    \<and> bs_BestBlock b' = block \<and> bs_BeaconHeight b' = bh_Height (bk_Header block)
    \<and> bs_Epoch b' = (if bh_Height (bk_Header block) = 1 then 1 else bh_Epoch (bk_Header block))
    \<and> (\<forall>k. GetBestHeightOfShard b' k =
           (case fmlookup (bb_ShardState (bk_Body block)) k of
              None \<Rightarrow> GetBestHeightOfShard b k | Some ss \<Rightarrow> ss_Height (last ss)))"
proof -
  let ?m = "bb_ShardState (bk_Body block)"
  obtain idx b2 a b3 where u: "update_shards ?m (sorted_keys ?m) (b\<lparr>bs_PrevBestBlockHash := bs_BestBlockHash b,
        bs_BestBlockHash := BeaconBlock_Hash sum256 block, bs_BestBlock := block,
        bs_Epoch := bh_Epoch (bk_Header block), bs_BeaconHeight := bh_Height (bk_Header block),
        bs_BeaconProposerIdx := idx\<rparr>) = Inr b2"
    and i: "apply_instructions (bb_Instructions (bk_Body block))
        \<lparr>ua_state = b2, ua_randomFlag = False, ua_newBeaconCandidate = [], ua_newShardCandidate = []\<rparr> = Inr (a, None)"
    and c: "assign_candidates (ua_newBeaconCandidate a) (ua_newShardCandidate a) (ua_state a) = Inr b3"
    and p: "epoch_phase sum256 order (ua_randomFlag a) (bh_Timestamp (bk_Header block)) b3 = Inr (b', None)"
    using assms by (auto simp: Update_def Let_def outcome_simps split: option.splits)
  have d: "distinct (sorted_keys ?m)" using iteration_order_sorted_keys [of ?m] by (simp add: iteration_order_def)
  note s = update_shards_spec [OF u d, of 0]
  have tip: "bs_tip b' = bs_tip b2" "bs_Epoch b' = (if bs_BeaconHeight b2 = 1 then 1 else bs_Epoch b2)"
    using outcome_allD [OF apply_instructions_tip i, of b2] assign_candidates_tip [OF c] epoch_phase_tip [OF p]
    by (auto simp: bs_tip_def same_tip_def)
  have "GetBestHeightOfShard b' k = (case fmlookup ?m k of None \<Rightarrow> GetBestHeightOfShard b k | Some ss \<Rightarrow> ss_Height (last ss))" for k
    using s tip(1) by (auto simp: GetBestHeightOfShard_def bs_tip_def map_get_def fmlookup_dom'_iff split: option.splits)
  with s tip show ?thesis by (auto simp: bs_tip_def)
qed

section \<open>Properties\<close>

lemma VerifyBestState_ok:
  assumes "VerifyBestStateWithBeaconBlock sum256 validateAgg block isSig b = Inr None"
  shows "bh_Height (bk_Header block) = bs_BeaconHeight b + 1
    \<and> bh_PrevBlockHash (bk_Header block) = bs_BestBlockHash b
    \<and> bh_Epoch (bk_Header block) = (if bh_Height (bk_Header block) mod EPOCH = 1 then bs_Epoch b + 1 else bs_Epoch b)
    \<and> (isSig \<longrightarrow> validateAgg (bk_ValidatorsIdx block) (bs_BeaconCommittee b) (bk_AggregatedSig block) (bk_R block)
                  (BeaconBlock_Hash sum256 block) = Inr None)"
  using assms by (auto simp: VerifyBestStateWithBeaconBlock_def Let_def outcome_simps Hash_GetBytes_def split: if_splits)

lemma VerifyPreProcessing_ok:
  assumes "VerifyPreProcessingBeaconBlock sum256 checkSig fetch block b = Inr None"
  shows "\<exists>pk parent. Base58Check_Encode sum256 (pa_Pk (bh_ProducerAddress (bk_Header block))) 0 = Inr pk
    \<and> checkSig pk (bk_ProducerSig block) (Hash_GetBytes (BeaconHeader_Hash sum256 (bk_Header block)))
    \<and> 0 \<le> (bs_BeaconProposerIdx b + bh_Round (bk_Header block)) smod int (length (bs_BeaconCommittee b))
    \<and> bs_BeaconCommittee b ! nat ((bs_BeaconProposerIdx b + bh_Round (bk_Header block)) smod int (length (bs_BeaconCommittee b))) = pk
    \<and> bh_Version (bk_Header block) = VERSION
    \<and> fetch (bh_PrevBlockHash (bk_Header block)) = Some parent
    \<and> VerifyHashFromShardState sum256 (bb_ShardState (bk_Body block)) (bh_ShardStateHash (bk_Header block))
    \<and> VerifyHashFromStringArray sum256 (concat (bb_Instructions (bk_Body block))) (bh_InstructionHash (bk_Header block))"
  using assms
  by (auto simp: VerifyPreProcessingBeaconBlock_def Let_def outcome_simps split: if_splits option.splits)

lemma VerifyPostProcessing_ok:
  assumes "VerifyPostProcessingBeaconBlock sum256 checkSig block snapShot b = Inr None"
  shows "VerifyHashFromStringArray sum256 (bs_BeaconCommittee b @ bs_BeaconPendingValidator b) (bh_ValidatorsRoot (bk_Header block))
    \<and> VerifyHashFromStringArray sum256 (bs_CandidateBeaconWaitingForCurrentRandom b @ bs_CandidateBeaconWaitingForNextRandom b)
        (bh_BeaconCandidateRoot (bk_Header block))
    \<and> VerifyHashFromStringArray sum256 (bs_CandidateShardWaitingForCurrentRandom b @ bs_CandidateShardWaitingForNextRandom b)
        (bh_ShardCandidateRoot (bk_Header block))
    \<and> VerifyHashFromMapByteString sum256 (bs_ShardPendingValidator b) (bs_ShardCommittee b) (bh_ShardValidatorsRoot (bk_Header block))"
  using assms by (auto simp: VerifyPostProcessingBeaconBlock_def split: if_splits)

text \<open>C3: a beacon block that \<open>InsertBeaconBlock\<close> accepts after full verification (not the
  \<open>isValidated\<close> path, which skips the checks) extends the chain by one. It names the best block as its
  parent, its height and epoch follow those of the best state (an epoch begins at heights 1 modulo 10),
  and the new best state points to it. It is of the current version and signed by the member of the
  committee whose turn its round makes it, and \<open>ValidateAggSignature\<close> (the argument \<open>validateAgg\<close>)
  reported no error for its aggregated signature under the committee. All six roots of its header are
  checked: the shard states and the instructions of its body, and, in the new best state, the
  validators, the two lists of candidates and the shard validators.
\<close>

theorem InsertBeaconBlock_extends:
  assumes "InsertBeaconBlock sum256 validateAgg checkSig fetch known order block False b = Inr (b', None)"
  shows "bs_BeaconHeight b' = bs_BeaconHeight b + 1
    \<and> bh_PrevBlockHash (bk_Header block) = bs_BestBlockHash b
    \<and> bs_PrevBestBlockHash b' = bs_BestBlockHash b
    \<and> bs_BestBlockHash b' = BeaconBlock_Hash sum256 block
    \<and> bs_Epoch b' = (if bs_BeaconHeight b' = 1 then 1 else if bs_BeaconHeight b' mod EPOCH = 1 then bs_Epoch b + 1 else bs_Epoch b)
    \<and> bh_Version (bk_Header block) = VERSION
    \<and> (\<exists>pk. Base58Check_Encode sum256 (pa_Pk (bh_ProducerAddress (bk_Header block))) 0 = Inr pk
        \<and> 0 \<le> (bs_BeaconProposerIdx b + bh_Round (bk_Header block)) smod int (length (bs_BeaconCommittee b))
        \<and> bs_BeaconCommittee b ! nat ((bs_BeaconProposerIdx b + bh_Round (bk_Header block)) smod int (length (bs_BeaconCommittee b))) = pk
        \<and> checkSig pk (bk_ProducerSig block) (Hash_GetBytes (BeaconHeader_Hash sum256 (bk_Header block))))
    \<and> validateAgg (bk_ValidatorsIdx block) (bs_BeaconCommittee b) (bk_AggregatedSig block) (bk_R block)
        (BeaconBlock_Hash sum256 block) = Inr None
    \<and> VerifyHashFromShardState sum256 (bb_ShardState (bk_Body block)) (bh_ShardStateHash (bk_Header block))
    \<and> VerifyHashFromStringArray sum256 (concat (bb_Instructions (bk_Body block))) (bh_InstructionHash (bk_Header block))
    \<and> VerifyHashFromStringArray sum256 (bs_BeaconCommittee b' @ bs_BeaconPendingValidator b') (bh_ValidatorsRoot (bk_Header block))
    \<and> VerifyHashFromStringArray sum256 (bs_CandidateBeaconWaitingForCurrentRandom b' @ bs_CandidateBeaconWaitingForNextRandom b')
        (bh_BeaconCandidateRoot (bk_Header block))
    \<and> VerifyHashFromStringArray sum256 (bs_CandidateShardWaitingForCurrentRandom b' @ bs_CandidateShardWaitingForNextRandom b')
        (bh_ShardCandidateRoot (bk_Header block))
    \<and> VerifyHashFromMapByteString sum256 (bs_ShardPendingValidator b') (bs_ShardCommittee b') (bh_ShardValidatorsRoot (bk_Header block))"
proof -
  have q: "VerifyPreProcessingBeaconBlock sum256 checkSig fetch block b = Inr None"
    and v: "VerifyBestStateWithBeaconBlock sum256 validateAgg block True b = Inr None"
    and u: "Update sum256 order block b = Inr (b', None)"
    and p: "VerifyPostProcessingBeaconBlock sum256 checkSig block (bs_BeaconCommittee b) b' = Inr None"
    using assms by (auto simp: InsertBeaconBlock_def outcome_simps split: if_splits)
  show ?thesis
    using VerifyPreProcessing_ok [OF q] VerifyBestState_ok [OF v] Update_tip [OF u] VerifyPostProcessing_ok [OF p] by auto
qed

definition ex_best_state :: BestStateBeacon where
  "ex_best_state =
     \<lparr>bs_BestBlockHash = replicate 32 1, bs_PrevBestBlockHash = zero_hash, bs_BestBlock = ex_beacon_block 1,
      bs_BestShardHash = fmempty, bs_BestShardHeight = fmempty, bs_Epoch = 1, bs_BeaconHeight = 1,
      bs_BeaconProposerIdx = 0, bs_BeaconCommittee = [b58check_text ex_sum256 [] 0], bs_BeaconPendingValidator = [],
      bs_CandidateShardWaitingForCurrentRandom = [], bs_CandidateBeaconWaitingForCurrentRandom = [],
      bs_CandidateShardWaitingForNextRandom = [], bs_CandidateBeaconWaitingForNextRandom = [],
      bs_ShardCommittee = fmempty, bs_ShardPendingValidator = fmempty, bs_CurrentRandomNumber = -1,
      bs_CurrentRandomTimeStamp = 0, bs_IsGetRandomNumber = False, bs_Params = fmempty, bs_BeaconCommitteeSize = 1,
      bs_ShardCommitteeSize = 1, bs_ActiveShards = 1, bs_LastCrossShardState = fmempty, bs_ShardHandle = fmempty\<rparr>"

definition ex_next_block :: BeaconBlock where
  "ex_next_block = (ex_beacon_block 2)\<lparr>bk_Header := (bk_Header (ex_beacon_block 2))
     \<lparr>bh_ValidatorsRoot := replicate 32 1, bh_Round := 0\<rparr>\<rparr>"

definition ex_next_state :: BestStateBeacon where
  "ex_next_state = ex_best_state\<lparr>bs_PrevBestBlockHash := replicate 32 1, bs_BestBlock := ex_next_block, bs_BeaconHeight := 2\<rparr>"

lemmas ex_insert_eval =
  InsertBeaconBlock_def VerifyPreProcessingBeaconBlock_def VerifyBestStateWithBeaconBlock_def Update_def
  VerifyPostProcessingBeaconBlock_def GetStakingCandidate_def assign_candidates_def epoch_phase_def Let_def
  andThen_def EPOCH_def RANDOM_TIME_def VERSION_def Base58Check_Encode_eq IndexOfStr_def Hash_GetBytes_def
  VerifyHashFromShardState_def GenerateHashFromShardState_def VerifyHashFromStringArray_def
  VerifyHashFromMapByteString_def GenerateHashFromMapByteString_def GenerateHashFromStringArray_def
  GenerateZeroValueHash_def Hash_SetBytes_def HashB_def HashSize_def sorted_values_def BeaconBlock_Hash_def

lemma ex_insert:
  "InsertBeaconBlock ex_sum256 (\<lambda>_ _ _ _ _. Inr None) (\<lambda>_ _ _. True) (\<lambda>_. Some (ex_beacon_block 1)) (\<lambda>_. False) []
     ex_next_block False ex_best_state = Inr (ex_next_state, None)"
  by (simp add: ex_insert_eval ex_next_block_def ex_best_state_def ex_next_state_def ex_beacon_hash
      ex_beacon_block_def ex_sum256_def)

theorem InsertBeaconBlock_extends_witness:
  "bs_BeaconHeight ex_next_state = bs_BeaconHeight ex_best_state + 1 \<and> bs_BeaconHeight ex_next_state = 2"
  using InsertBeaconBlock_extends [OF ex_insert] by (simp add: ex_next_state_def)

text \<open>
  \<open>Update\<close> and the shards. After a successful update the beacon's best height of a shard is the
  height of the last state the block lists for it, and unchanged for a shard the block does not list.
\<close>

theorem Update_shard_heights:
  assumes "Update sum256 order block b = Inr (b', None)"
  shows "GetBestHeightOfShard b' k =
    (case fmlookup (bb_ShardState (bk_Body block)) k of
       None \<Rightarrow> GetBestHeightOfShard b k | Some ss \<Rightarrow> ss_Height (last ss))"
  using Update_tip [OF assms] by blast

lemma ex_update: "Update ex_sum256 [] ex_next_block ex_best_state = Inr (ex_next_state, None)"
  by (simp add: ex_insert_eval ex_next_block_def ex_best_state_def ex_next_state_def ex_beacon_hash
      ex_beacon_block_def ex_sum256_def)

theorem Update_shard_heights_witness:
  "GetBestHeightOfShard ex_next_state 3 = 0"
  using Update_shard_heights [OF ex_update, of 3]
  by (simp add: GetBestHeightOfShard_def ex_best_state_def ex_next_block_def ex_beacon_block_def)

text \<open>
  the committee swap at the end of an epoch never happens. The height test for it comes after a
  test that already catches it, so the last phase of \<open>Update\<close> never changes the beacon committee
  and never fails, whatever the height.
\<close>

theorem epoch_phase_never_swaps:
  assumes "epoch_phase sum256 order randomFlag timestamp b = Inr (b', e)"
  shows "bs_BeaconCommittee b' = bs_BeaconCommittee b \<and> e = None"
  using epoch_phase_tip [OF assms] by blast

theorem epoch_phase_never_swaps_witness:
  "epoch_phase ex_sum256 [] False 0 (ex_best_state\<lparr>bs_BeaconHeight := 20, bs_BeaconPendingValidator := [''p'']\<rparr>)
     = Inr (ex_best_state\<lparr>bs_BeaconHeight := 20, bs_BeaconPendingValidator := [''p'']\<rparr>, None)
   \<and> bs_BeaconCommittee (ex_best_state\<lparr>bs_BeaconHeight := 20, bs_BeaconPendingValidator := [''p'']\<rparr>) = bs_BeaconCommittee ex_best_state"
proof -
  have "epoch_phase ex_sum256 [] False 0 (ex_best_state\<lparr>bs_BeaconHeight := 20, bs_BeaconPendingValidator := [''p'']\<rparr>)
     = Inr (ex_best_state\<lparr>bs_BeaconHeight := 20, bs_BeaconPendingValidator := [''p'']\<rparr>, None)"
    by (simp add: epoch_phase_def EPOCH_def RANDOM_TIME_def Let_def)
  with epoch_phase_never_swaps [OF this] show ?thesis by simp
qed

text \<open>at \<open>RANDOM_TIME\<close> and later in an epoch, a block with a random number assigns every shard
  candidate that waits for it (at \<open>RANDOM_TIME\<close> itself, the list is first replaced by the candidates
  waiting for the next random number) to the end of one shard's pending list, and empties the list.
\<close>

theorem epoch_phase_assigns:
  assumes "digest32 sum256" and "0 < bs_ActiveShards b" and "RANDOM_TIME \<le> bs_BeaconHeight b mod EPOCH"
    and "cands = (if bs_BeaconHeight b mod EPOCH = RANDOM_TIME then bs_CandidateShardWaitingForNextRandom b
                  else bs_CandidateShardWaitingForCurrentRandom b)"
  shows "\<exists>b'. epoch_phase sum256 order True timestamp b = Inr (b', None)
    \<and> (\<forall>s. GetAShardPendingValidator b' s = GetAShardPendingValidator b s
           @ filter (\<lambda>c. shard_of sum256 (bs_CurrentRandomNumber b) (bs_ActiveShards b) c = s) cands)
    \<and> bs_CandidateShardWaitingForCurrentRandom b' = [] \<and> bs_IsGetRandomNumber b'"
proof -
  let ?b1 = "if bs_BeaconHeight b mod EPOCH = RANDOM_TIME then snapshot_candidates timestamp b else b"
  have b1: "bs_ShardPendingValidator ?b1 = bs_ShardPendingValidator b" "bs_CurrentRandomNumber ?b1 = bs_CurrentRandomNumber b"
    "bs_ActiveShards ?b1 = bs_ActiveShards b" "bs_CandidateShardWaitingForCurrentRandom ?b1 = cands"
    using assms(4) by (simp_all add: snapshot_candidates_def)
  obtain m' where m: "AssignValidatorShard sum256 (bs_ShardPendingValidator b) cands (bs_CurrentRandomNumber b) (bs_ActiveShards b) = Inr m'"
    "\<forall>s. map_get [] m' s = map_get [] (bs_ShardPendingValidator b) s
       @ filter (\<lambda>c. shard_of sum256 (bs_CurrentRandomNumber b) (bs_ActiveShards b) c = s) cands"
    using AssignValidatorShard_spec [OF assms(1,2)] by blast
  have not1: "bs_BeaconHeight b mod EPOCH \<noteq> 1"
  proof
    assume "bs_BeaconHeight b mod EPOCH = 1"
    with assms(3) show False by (simp add: RANDOM_TIME_def word_le_nat_alt)
  qed
  have "epoch_phase sum256 order True timestamp b = andThen (assign_random sum256 order ?b1) (\<lambda>b2. Inr (b2, None))"
    using not1 leD [OF assms(3)] assms(3) unfolding epoch_phase_def Let_def by (simp only: if_False if_True simp_thms)
  moreover obtain b' where "assign_random sum256 order ?b1 = Inr b'" "bs_ShardPendingValidator b' = m'"
    "bs_CandidateShardWaitingForCurrentRandom b' = []" "bs_IsGetRandomNumber b'"
    using m(1) b1 unfolding assign_random_def by (simp add: andThen_def)
  ultimately show ?thesis using m(2) by (simp add: andThen_def GetAShardPendingValidator_def)
qed

theorem epoch_phase_assigns_witness:
  "\<exists>b'. epoch_phase ex_sum256 [] True 7
     (ex_best_state\<lparr>bs_BeaconHeight := 15, bs_CandidateShardWaitingForNextRandom := [''a'', ''b'']\<rparr>) = Inr (b', None)
   \<and> bs_CandidateShardWaitingForCurrentRandom b' = []"
  using epoch_phase_assigns [where ?sum256.0 = ex_sum256 and order = "[]" and timestamp = 7 and cands = "[''a'', ''b'']"
      and b = "ex_best_state\<lparr>bs_BeaconHeight := 15, bs_CandidateShardWaitingForNextRandom := [''a'', ''b'']\<rparr>"]
  by (auto simp: ex_best_state_def EPOCH_def RANDOM_TIME_def digest32_def ex_sum256_def HashSize_def)

lemma GetValidStaker_filter: "GetValidStaker cs st = filter (\<lambda>s. s \<notin> set cs) st"
  by (auto simp: GetValidStaker_def list_ex_iff intro: filter_cong)

lemma fold_GetValidStaker:
  "fold (\<lambda>k. GetValidStaker (f k)) ks st = filter (\<lambda>s. \<forall>k \<in> set ks. s \<notin> set (f k)) st"
  by (induction ks arbitrary: st) (auto simp: GetValidStaker_filter intro: filter_cong)

text \<open>Everybody the state knows: committees, pending validators and candidates.\<close>

definition known_stakers :: "BestStateBeacon \<Rightarrow> string set" where
  "known_stakers b =
     (\<Union>k \<in> fmdom' (bs_ShardCommittee b). set (GetAShardCommittee b k))
     \<union> (\<Union>k \<in> fmdom' (bs_ShardPendingValidator b). set (GetAShardPendingValidator b k))
     \<union> set (bs_BeaconCommittee b) \<union> set (bs_BeaconPendingValidator b)
     \<union> set (bs_CandidateBeaconWaitingForCurrentRandom b) \<union> set (bs_CandidateBeaconWaitingForNextRandom b)
     \<union> set (bs_CandidateShardWaitingForCurrentRandom b) \<union> set (bs_CandidateShardWaitingForNextRandom b)"

lemma GetValidStakers_filter: "GetValidStakers b st = filter (\<lambda>s. s \<notin> known_stakers b) st"
  by (auto simp: GetValidStakers_def Let_def GetValidStaker_filter fold_GetValidStaker known_stakers_def
      GetShardCommittee_def GetShardPendingValidator_def GetAShardCommittee_def GetAShardPendingValidator_def
      intro!: filter_cong)

text \<open>a block that passes \<open>VerifyBestStateWithBeaconBlock\<close> stakes nobody twice: none of the
  candidates \<open>GetStakingCandidate\<close> reads from it is known to the best state in any role.
\<close>

theorem verified_stakers_fresh:
  assumes "VerifyBestStateWithBeaconBlock sum256 validateAgg block isSig b = Inr None"
    and "GetStakingCandidate block = Inr (newBeacon, newShard)"
  shows "set newBeacon \<inter> known_stakers b = {} \<and> set newShard \<inter> known_stakers b = {}"
proof -
  have keep: "x \<noteq> [] \<longrightarrow> filter (\<lambda>s. s \<notin> known_stakers b) x = x \<Longrightarrow> set x \<inter> known_stakers b = {}" for x
    by (cases "x = []") (auto simp: filter_id_conv)
  have "newBeacon \<noteq> [] \<longrightarrow> GetValidStakers b newBeacon = newBeacon"
    "newShard \<noteq> [] \<longrightarrow> GetValidStakers b newShard = newShard"
    using assms by (auto simp: VerifyBestStateWithBeaconBlock_def Let_def outcome_simps split: if_splits)
  then show ?thesis using keep unfolding GetValidStakers_filter by blast
qed

definition ex_stake_block :: BeaconBlock where
  "ex_stake_block = ex_next_block\<lparr>bk_Body := \<lparr>bb_ShardState = fmempty,
     bb_Instructions = [[''stake'', ''k1,k2'', ''shard'', ''t1,t2'']]\<rparr>\<rparr>"

theorem verified_stakers_fresh_witness:
  "set [''k1'', ''k2''] \<inter> known_stakers (ex_best_state\<lparr>bs_BeaconCommittee := [''c'']\<rparr>) = {}"
proof -
  have "GetStakingCandidate ex_stake_block = Inr ([], [''k1'', ''k2''])"
    by (simp add: GetStakingCandidate_def ex_stake_block_def is_stake_def andThen_def index_def StakeAction_def)
  moreover have "VerifyBestStateWithBeaconBlock ex_sum256 (\<lambda>_ _ _ _ _. Inr None) ex_stake_block False
      (ex_best_state\<lparr>bs_BeaconCommittee := [''c'']\<rparr>) = Inr None"
    by (simp add: VerifyBestStateWithBeaconBlock_def andThen_def calculation Let_def Hash_GetBytes_def EPOCH_def)
      (simp add: ex_best_state_def ex_stake_block_def ex_next_block_def ex_beacon_block_def GetValidStakers_def
        GetValidStaker_def GetShardCommittee_def GetShardPendingValidator_def Let_def)
  ultimately show ?thesis using verified_stakers_fresh by blast
qed

text \<open>
  the block reward is the basic reward halved (rounding down) once per half-life, and never
  larger than the basic reward; a half-life of zero panics.
\<close>

theorem getRewardAmount_halving:
  assumes "rewardHalflife \<noteq> 0"
  shows "\<exists>r. getRewardAmount basicReward rewardHalflife blkHeight = Inr r
    \<and> unat r = unat basicReward div 2 ^ (unat blkHeight div unat rewardHalflife) \<and> r \<le> basicReward"
proof -
  have "unat (((\<lambda>reward. reward div 2) ^^ n) (x :: uint64)) = unat x div 2 ^ n" for n x
  proof (induction n)
    case (Suc n)
    have "unat (((\<lambda>reward. reward div 2) ^^ Suc n) x) = unat x div 2 ^ n div 2" using Suc by (simp add: unat_div)
    then show ?case by (simp only: div_mult2_eq [symmetric] power_Suc2)
  qed simp
  moreover have "unat (blkHeight div rewardHalflife) = unat blkHeight div unat rewardHalflife" by (rule unat_div)
  ultimately show ?thesis using assms by (simp add: getRewardAmount_def word_le_nat_alt)
qed

theorem getRewardAmount_halving_witness:
  "\<exists>r. getRewardAmount 1000 100 250 = Inr r \<and> unat r = 250"
  using getRewardAmount_halving [of 100 1000 250] by auto

text \<open>
  at most one proposer. For a key outside all shard lists, a committee without repetitions, and
  a proposer index and round that are not negative, \<open>GetPubkeyRole\<close> answers \<open>proposer\<close> for the one
  committee member at position \<open>(index + round) mod size\<close>, \<open>validator\<close> for the other members.
\<close>

theorem GetPubkeyRole_proposer:
  assumes "find_shard pubkey (bs_ShardPendingValidator b) order1 = None"
    and "find_shard pubkey (bs_ShardCommittee b) order2 = None"
    and "distinct (bs_BeaconCommittee b)" and "pubkey \<in> set (bs_BeaconCommittee b)"
    and "0 \<le> bs_BeaconProposerIdx b" and "0 \<le> rnd"
  shows "GetPubkeyRole b order1 order2 pubkey rnd =
    (if pubkey = bs_BeaconCommittee b ! nat ((bs_BeaconProposerIdx b + rnd) mod int (length (bs_BeaconCommittee b)))
     then (PROPOSER_ROLE, 0) else (VALIDATOR_ROLE, 0))"
proof -
  let ?c = "bs_BeaconCommittee b" and ?p = "(bs_BeaconProposerIdx b + rnd) mod int (length (bs_BeaconCommittee b))"
  obtain i where i: "i < length ?c" "?c ! i = pubkey" and idx: "IndexOfStr pubkey ?c = int i"
    using IndexOfStr_found [OF assms(4)] by blast
  have smod: "(bs_BeaconProposerIdx b + rnd) smod int (length ?c) = ?p"
    using assms(5,6) by (cases "bs_BeaconProposerIdx b + rnd = 0") (simp_all add: smod_int_alt_def)
  have "int (length ?c) > 0" using i(1) by linarith
  then have "0 \<le> ?p" "?p < int (length ?c)" by simp_all
  then have "int i = ?p \<longleftrightarrow> pubkey = ?c ! nat ?p"
    using i assms(3) by (metis int_nat_eq nat_int nat_less_iff nth_eq_iff_index_eq)
  then show ?thesis using assms(1,2) idx smod by (simp add: GetPubkeyRole_def Let_def)
qed

theorem GetPubkeyRole_proposer_witness:
  "GetPubkeyRole (ex_best_state\<lparr>bs_BeaconCommittee := [''x'', ''y'', ''z'']\<rparr>) [] [] ''z'' 5 = (PROPOSER_ROLE, 0)"
  using GetPubkeyRole_proposer [where b = "ex_best_state\<lparr>bs_BeaconCommittee := [''x'', ''y'', ''z'']\<rparr>" and pubkey = "''z''"
      and ?order1.0 = "[]" and ?order2.0 = "[]" and rnd = 5]
  by (simp add: find_shard_def ex_best_state_def)

text \<open>
  the format check on shard states leaves the last pair out: a block may list two states of a
  shard at arbitrary heights, in general only consecutive pairs before the last one are compared.
\<close>

theorem shard_states_format_gap:
  "shard_states_format [s1, s2] \<and>
   (shard_states_format (ss @ [s1, s2]) \<longleftrightarrow> shard_states_format (ss @ [s1, s3]))"
proof -
  have "shard_states_format (ss @ [s1, s]) =
      list_all (\<lambda>i. ss_Height ((ss @ [s1]) ! (i + 1)) - ss_Height ((ss @ [s1]) ! i) = 1) [0..<length ss]" for s
    unfolding shard_states_format_def by (rule list.pred_cong) (auto simp: nth_append)
  then show ?thesis by (auto simp: shard_states_format_def)
qed

end
