(* ===== verification/Shard_To_Beacon_Pool.thy ===== *)
theory Shard_To_Beacon_Pool
  imports Block_Types
begin

text \<open>
  \<open>src/mempool/shard_to_beacon_pool_v2.go\<close>: the beacon node's pool of shard blocks waiting to be
  confirmed, one list per shard sorted by height, with the height up to which each list has no gap.
  A loop over the map of shards touches only the entry of the shard it is at, so its order does not
  matter and the model takes the keys in ascending order.
\<close>

section \<open>State\<close>

record ShardToBeaconPool =
  stp_pool :: "(byte, ShardToBeaconBlock list) fmap"
  stp_latestValidHeight :: "(byte, uint64) fmap"

definition MAX_VALID_SHARD_TO_BEACON_BLK_IN_POOL :: nat where "MAX_VALID_SHARD_TO_BEACON_BLK_IN_POOL = 1000"
definition MAX_INVALID_SHARD_TO_BEACON_BLK_IN_POOL :: nat where "MAX_INVALID_SHARD_TO_BEACON_BLK_IN_POOL = 2000"

datatype s2b_error = S2BOldBlock | S2BDuplicate | S2BExceedValid | S2BExceedInvalid

abbreviation tht :: "ShardToBeaconBlock \<Rightarrow> uint64" where "tht b \<equiv> sh_Height (stb_Header b)"
abbreviation stp_blocks :: "ShardToBeaconPool \<Rightarrow> byte \<Rightarrow> ShardToBeaconBlock list" where
  "stp_blocks p s \<equiv> map_get [] (stp_pool p) s"
abbreviation stp_latest :: "ShardToBeaconPool \<Rightarrow> byte \<Rightarrow> uint64" where
  "stp_latest p s \<equiv> map_get 0 (stp_latestValidHeight p) s"

definition newShardToBeaconPool :: ShardToBeaconPool where
  "newShardToBeaconPool = \<lparr>stp_pool = fmempty, stp_latestValidHeight = fmempty\<rparr>"

section \<open>Operations\<close>

fun last_valid :: "uint64 \<Rightarrow> ShardToBeaconBlock list \<Rightarrow> uint64" where
  "last_valid lastHeight [] = lastHeight"
| "last_valid lastHeight (blk # blks) =
     (if tht blk > lastHeight \<and> lastHeight + 1 \<noteq> tht blk then lastHeight else last_valid (tht blk) blks)"

text \<open>A zero height is read as 1 and stored.\<close>

definition at_least_one :: "uint64 \<Rightarrow> uint64" where
  "at_least_one h = (if h = 0 then 1 else h)"

definition stp_update_shard :: "byte \<Rightarrow> ShardToBeaconPool \<Rightarrow> ShardToBeaconPool" where
  "stp_update_shard s p =
     p\<lparr>stp_latestValidHeight :=
         fmupd s (last_valid (at_least_one (stp_latest p s)) (stp_blocks p s)) (stp_latestValidHeight p)\<rparr>"

definition stp_updateLatestShardState :: "ShardToBeaconPool \<Rightarrow> ShardToBeaconPool" where
  "stp_updateLatestShardState p = fold stp_update_shard (sorted_keys (stp_pool p)) p"

text \<open>\<open>self.pool[shardID]\<close> is only written inside the loop over its blocks, so an absent entry stays absent.\<close>

definition stp_remove_shard :: "(byte, uint64) fmap \<Rightarrow> byte \<Rightarrow> ShardToBeaconPool \<Rightarrow> ShardToBeaconPool" where
  "stp_remove_shard items s p =
     (if stp_blocks p s = [] then p
      else p\<lparr>stp_pool := fmupd s (dropWhile (\<lambda>b. tht b \<le> map_get 0 items s) (stp_blocks p s)) (stp_pool p)\<rparr>)"

definition RemovePendingBlock :: "(byte, uint64) fmap \<Rightarrow> ShardToBeaconPool \<Rightarrow> ShardToBeaconPool" where
  "RemovePendingBlock items p = fold (stp_remove_shard items) (sorted_keys items) p"

text \<open>
  \<open>SetShardState\<close> raises the zero entries of its argument to 1 (in place: the new map is returned
  too), takes the heights over, drops the blocks they cover and looks for longer runs.
\<close>

definition stp_SetShardState ::
  "(byte, uint64) fmap \<Rightarrow> ShardToBeaconPool \<Rightarrow> ShardToBeaconPool \<times> (byte, uint64) fmap" where
  "stp_SetShardState st p =
     (let st' = fmmap at_least_one st;
          p1 = p\<lparr>stp_latestValidHeight := fmadd (stp_latestValidHeight p) st'\<rparr>
      in (stp_updateLatestShardState (RemovePendingBlock st' p1), st'))"

text \<open>
  The capacity check: \<open>int(latest - first)\<close> is a wrapped difference read as a signed integer. A
  full list of blocks beyond a gap gives up its last block for a lower one.
\<close>

definition stp_capacity ::
  "uint64 \<Rightarrow> ShardToBeaconBlock list \<Rightarrow> uint64 \<Rightarrow> s2b_error + ShardToBeaconBlock list" where
  "stp_capacity latest blks h =
     (if blks = [] then Inr blks
      else
        let numValid = (if sint (latest - tht (hd blks)) < 0 then 0 else sint (latest - tht (hd blks)));
            numInvalid = int (length blks) - numValid
        in if numValid > int MAX_VALID_SHARD_TO_BEACON_BLK_IN_POOL then Inl S2BExceedValid
           else if numInvalid > int MAX_INVALID_SHARD_TO_BEACON_BLK_IN_POOL then
             if tht (last blks) > h then Inr (butlast blks) else Inl S2BExceedInvalid
           else Inr blks)"

text \<open>The range of heights to ask the shard for when the list does not start at the next height.\<close>

definition stp_request :: "uint64 \<Rightarrow> uint64 \<Rightarrow> uint64 \<times> uint64" where
  "stp_request first latest =
     (if first > latest then
        let offset = first - latest;
            offset' = (if offset > of_nat MAX_VALID_SHARD_TO_BEACON_BLK_IN_POOL
                       then of_nat MAX_VALID_SHARD_TO_BEACON_BLK_IN_POOL else offset)
        in (latest + 1, latest + offset')
      else (0, 0))"

definition AddShardToBeaconBlock ::
  "ShardToBeaconBlock \<Rightarrow> ShardToBeaconPool \<Rightarrow> ShardToBeaconPool \<times> uint64 \<times> uint64 \<times> s2b_error option" where
  "AddShardToBeaconBlock blk p0 =
     (let s = sh_ShardID (stb_Header blk);
          p = (if stp_latest p0 s = 0 then p0\<lparr>stp_latestValidHeight := fmupd s 1 (stp_latestValidHeight p0)\<rparr> else p0)
      in if tht blk \<le> stp_latest p s then (p, 0, 0, Some S2BOldBlock)
         else if list_ex (\<lambda>b. tht b = tht blk) (stp_blocks p s) then (p, 0, 0, Some S2BDuplicate)
         else case stp_capacity (stp_latest p s) (stp_blocks p s) (tht blk) of
           Inl e \<Rightarrow> (p, 0, 0, Some e)
         | Inr blks \<Rightarrow>
             let sorted_blks = sort_key tht (blks @ [blk]);
                 q = stp_updateLatestShardState (p\<lparr>stp_pool := fmupd s sorted_blks (stp_pool p)\<rparr>);
                 (from, to) = stp_request (tht (hd sorted_blks)) (stp_latest q s)
             in (q, from, to, None))"

section \<open>Queries\<close>

definition stp_GetShardState :: "ShardToBeaconPool \<Rightarrow> (byte, uint64) fmap" where
  "stp_GetShardState p = stp_latestValidHeight p"

text \<open>The loop of \<open>GetValidPendingBlock\<close> on one shard; \<open>limit = None\<close> is the nil map.\<close>

fun valid_prefix :: "uint64 \<Rightarrow> uint64 \<Rightarrow> nat \<Rightarrow> ShardToBeaconBlock list \<Rightarrow> ShardToBeaconBlock list" where
  "valid_prefix latest lim i [] = []"
| "valid_prefix latest lim i (blk # blks) =
     (if tht blk > latest then []
      else if i \<ge> 50 then []
      else if lim \<noteq> 0 \<and> lim < tht blk then []
      else blk # valid_prefix latest lim (i + 1) blks)"

definition stp_limit :: "(byte, uint64) fmap option \<Rightarrow> byte \<Rightarrow> uint64" where
  "stp_limit limit s = (case limit of None \<Rightarrow> 0 | Some m \<Rightarrow> map_get 0 m s)"

text \<open>It also stores the height 1 for shards whose height is 0, hence the new pool.\<close>

definition GetValidPendingBlock ::
  "(byte, uint64) fmap option \<Rightarrow> ShardToBeaconPool \<Rightarrow> ShardToBeaconPool \<times> (byte, ShardToBeaconBlock list) fmap" where
  "GetValidPendingBlock limit p =
     (let keys = sorted_keys (stp_pool p);
          p' = p\<lparr>stp_latestValidHeight :=
                   fold (\<lambda>s m. if map_get 0 m s = 0 then fmupd s 1 m else m) keys (stp_latestValidHeight p)\<rparr>;
          blocks = (\<lambda>s. valid_prefix (at_least_one (stp_latest p s)) (stp_limit limit s) 0 (stp_blocks p s))
      in (p', fold (\<lambda>s r. if blocks s = [] then r else fmupd s (blocks s) r) keys fmempty))"

definition GetValidPendingBlockHeight :: "ShardToBeaconPool \<Rightarrow> (byte, uint64 list) fmap" where
  "GetValidPendingBlockHeight p = fmmap (map tht) (snd (GetValidPendingBlock None p))"

definition GetValidPendingBlockHash :: "(bytes \<Rightarrow> bytes) \<Rightarrow> ShardToBeaconPool \<Rightarrow> (byte, hash list) fmap" where
  "GetValidPendingBlockHash sum256 p = fmmap (map (ShardToBeaconBlock_Hash sum256)) (snd (GetValidPendingBlock None p))"

definition GetLatestValidPendingBlockHeight :: "ShardToBeaconPool \<Rightarrow> (byte, uint64) fmap" where
  "GetLatestValidPendingBlockHeight p = fmmap (\<lambda>bs. tht (last bs)) (snd (GetValidPendingBlock None p))"

definition stp_GetAllBlockHeight :: "ShardToBeaconPool \<Rightarrow> (byte, uint64 list) fmap" where
  "stp_GetAllBlockHeight p =
     fold (\<lambda>s r. if stp_blocks p s = [] then r else fmupd s (map tht (stp_blocks p s)) r) (sorted_keys (stp_pool p)) fmempty"

definition stp_GetBlockByHeight :: "ShardToBeaconPool \<Rightarrow> byte \<Rightarrow> uint64 \<Rightarrow> ShardToBeaconBlock option" where
  "stp_GetBlockByHeight p s h = List.find (\<lambda>b. tht b = h) (stp_blocks p s)"

section \<open>Lemmas on one shard\<close>

text \<open>
  The invariant of one shard's list: strictly increasing heights, and the blocks up to the latest
  valid height are consecutive and end there.
\<close>

definition consecutive :: "ShardToBeaconBlock list \<Rightarrow> bool" where
  "consecutive bs \<longleftrightarrow> successively (\<lambda>a b. tht b = tht a + 1) bs"

definition shard_ok :: "uint64 \<Rightarrow> ShardToBeaconBlock list \<Rightarrow> bool" where
  "shard_ok latest bs \<longleftrightarrow> sorted_wrt (\<lambda>a b. tht a < tht b) bs \<and>
     consecutive (takeWhile (\<lambda>b. tht b \<le> latest) bs) \<and>
     (takeWhile (\<lambda>b. tht b \<le> latest) bs \<noteq> [] \<longrightarrow> tht (last (takeWhile (\<lambda>b. tht b \<le> latest) bs)) = latest)"

text \<open>From a height below the whole list, the search returns the end of the run that starts just above it.\<close>

lemma last_valid_run:
  assumes "sorted_wrt (\<lambda>a b. tht a < tht b) bs" and "\<forall>b \<in> set bs. l < tht b"
  shows "\<exists>r rest. bs = r @ rest \<and> consecutive r \<and> (\<forall>b \<in> set rest. last_valid l bs < tht b) \<and>
    (if r = [] then last_valid l bs = l else tht (hd r) = l + 1 \<and> tht (last r) = last_valid l bs)"
  using assms
proof (induction bs arbitrary: l)
  case Nil
  then show ?case by (simp add: consecutive_def)
next
  case (Cons b bs)
  show ?case
  proof (cases "l + 1 = tht b")
    case False
    then have lv: "last_valid l (b # bs) = l" using Cons.prems by simp
    show ?thesis unfolding lv
      using Cons.prems by (intro exI [of _ "[]"] exI [of _ "b # bs"]) (simp add: consecutive_def)
  next
    case True
    then have lv: "last_valid l (b # bs) = last_valid (tht b) bs" by simp
    obtain r rest where "bs = r @ rest" "consecutive r" "\<forall>b' \<in> set rest. last_valid (tht b) bs < tht b'"
      "if r = [] then last_valid (tht b) bs = tht b else tht (hd r) = tht b + 1 \<and> tht (last r) = last_valid (tht b) bs"
      using Cons.IH [of "tht b"] Cons.prems by auto
    then show ?thesis
      using True unfolding lv by (intro exI [of _ "b # r"] exI [of _ rest])
        (auto simp: consecutive_def successively_Cons split: if_splits)
  qed
qed

lemma last_valid_skip:
  "V \<noteq> [] \<Longrightarrow> consecutive V \<Longrightarrow> \<not> (tht (hd V) > l \<and> l + 1 \<noteq> tht (hd V)) \<Longrightarrow>
   last_valid l (V @ W) = last_valid (tht (last V)) W"
proof (induction V arbitrary: l)
  case (Cons v V)
  have step: "last_valid l ((v # V) @ W) = last_valid (tht v) (V @ W)" using Cons.prems by auto
  show ?case
  proof (cases "V = []")
    case False
    then have "consecutive V" "tht (hd V) = tht v + 1"
      using Cons.prems by (auto simp: consecutive_def successively_Cons)
    then show ?thesis using step Cons.IH [of "tht v"] False by simp
  qed (use step in simp)
qed simp

lemma sorted_takeWhile_append:
  assumes "\<forall>b \<in> set xs. tht b \<le> l" and "\<forall>b \<in> set ys. l < tht b"
  shows "takeWhile (\<lambda>b. tht b \<le> l) (xs @ ys) = xs"
proof -
  have "takeWhile (\<lambda>b. tht b \<le> l) ys = []" using assms(2) by (cases ys) auto
  then show ?thesis using assms(1) by (simp add: takeWhile_append2)
qed

lemma takeWhile_dropWhile_Nil: "takeWhile P (dropWhile P xs) = []"
  by (induction xs) auto

lemma sorted_wrt_dropWhile: "sorted_wrt R xs \<Longrightarrow> sorted_wrt R (dropWhile P xs)"
  by (induction xs) auto

lemma sorted_dropWhile_above:
  "sorted_wrt (\<lambda>a b. tht a < tht b) bs \<Longrightarrow> \<forall>b \<in> set (dropWhile (\<lambda>b. tht b \<le> l) bs). l < tht b"
  by (induction bs) (auto split: if_splits)

lemma consecutive_append:
  "consecutive xs \<Longrightarrow> consecutive ys \<Longrightarrow> (xs \<noteq> [] \<Longrightarrow> ys \<noteq> [] \<Longrightarrow> tht (hd ys) = tht (last xs) + 1) \<Longrightarrow> consecutive (xs @ ys)"
  by (auto simp: consecutive_def successively_append_iff)

lemma sorted_le_last_tht: "sorted_wrt (\<lambda>a b. tht a < tht b) bs \<Longrightarrow> b \<in> set bs \<Longrightarrow> tht b \<le> tht (last bs)"
  by (induction bs) (auto intro: less_imp_le)

text \<open>The search keeps the invariant and never lowers the height.\<close>

lemma shard_ok_last_valid:
  assumes ok: "shard_ok l bs"
  shows "shard_ok (last_valid l bs) bs \<and> l \<le> last_valid l bs"
proof -
  let ?V = "takeWhile (\<lambda>b. tht b \<le> l) bs" and ?W = "dropWhile (\<lambda>b. tht b \<le> l) bs"
  have bs: "bs = ?V @ ?W" by simp
  have sorted: "sorted_wrt (\<lambda>a b. tht a < tht b) bs" and runV: "consecutive ?V"
    and lastV: "?V \<noteq> [] \<Longrightarrow> tht (last ?V) = l" using ok by (simp_all add: shard_ok_def)
  have sortedW: "sorted_wrt (\<lambda>a b. tht a < tht b) ?W" by (rule sorted_wrt_dropWhile [OF sorted])
  have W: "\<forall>b \<in> set ?W. l < tht b" by (rule sorted_dropWhile_above [OF sorted])
  have lv: "last_valid l bs = last_valid l ?W"
  proof (cases "?V = []")
    case False
    then have "tht (hd ?V) \<le> l" by (metis hd_in_set set_takeWhileD)
    then have "last_valid l (?V @ ?W) = last_valid (tht (last ?V)) ?W"
      using False runV by (intro last_valid_skip) auto
    then show ?thesis using lastV False by simp
  qed (use bs in simp)
  obtain r rest where W_eq: "?W = r @ rest" and r: "consecutive r"
    and rest: "\<forall>b \<in> set rest. last_valid l ?W < tht b"
    and fin: "if r = [] then last_valid l ?W = l else tht (hd r) = l + 1 \<and> tht (last r) = last_valid l ?W"
    using last_valid_run [OF sortedW W] by blast
  let ?l' = "last_valid l ?W"
  have r_le: "\<forall>b \<in> set r. l < tht b \<and> tht b \<le> ?l'"
    using W W_eq fin sortedW by (auto simp: sorted_wrt_append split: if_splits dest: sorted_le_last_tht)
  have "l \<le> ?l'"
  proof (cases r)
    case (Cons c cs)
    then show ?thesis using r_le by (meson dual_order.strict_trans1 less_imp_le list.set_intros(1) order_trans)
  qed (use fin in simp)
  have V_le: "\<forall>b \<in> set (?V @ r). tht b \<le> ?l'"
    using r_le \<open>l \<le> ?l'\<close> by (auto dest: set_takeWhileD)
  have "takeWhile (\<lambda>b. tht b \<le> ?l') ((?V @ r) @ rest) = ?V @ r"
    using V_le rest by (intro sorted_takeWhile_append) auto
  then have tw: "takeWhile (\<lambda>b. tht b \<le> ?l') bs = ?V @ r" using bs W_eq by simp
  moreover have "consecutive (?V @ r)" using runV r fin lastV by (intro consecutive_append) auto
  moreover have "tht (last (?V @ r)) = ?l'" if "?V @ r \<noteq> []" using that fin lastV by (auto split: if_splits)
  ultimately show ?thesis using sorted \<open>l \<le> ?l'\<close> unfolding lv shard_ok_def by simp
qed

lemma shard_ok_dropWhile: "shard_ok l bs \<Longrightarrow> shard_ok l (dropWhile (\<lambda>b. tht b \<le> h) bs)"
proof -
  assume ok: "shard_ok l bs"
  let ?D = "dropWhile (\<lambda>b. tht b \<le> h) bs"
  have sorted: "sorted_wrt (\<lambda>a b. tht a < tht b) bs" using ok by (simp add: shard_ok_def)
  have sD: "sorted_wrt (\<lambda>a b. tht a < tht b) ?D" by (rule sorted_wrt_dropWhile [OF sorted])
  have tw: "takeWhile (\<lambda>b. tht b \<le> l) ?D = dropWhile (\<lambda>b. tht b \<le> h) (takeWhile (\<lambda>b. tht b \<le> l) bs)"
  proof (cases "h \<le> l")
    case True
    then show ?thesis using sorted by (induction bs) (auto dest: order_trans)
  next
    case False
    have "\<forall>b \<in> set ?D. \<not> tht b \<le> l"
      using sorted_dropWhile_above [OF sorted, of h] False by (meson le_less_trans less_le_not_le linear)
    then have "takeWhile (\<lambda>b. tht b \<le> l) ?D = []" by (metis hd_in_set takeWhile_eq_Nil_iff)
    moreover have "dropWhile (\<lambda>b. tht b \<le> h) (takeWhile (\<lambda>b. tht b \<le> l) bs) = []"
      using False by (auto simp: dropWhile_eq_Nil_conv dest!: set_takeWhileD)
    ultimately show ?thesis by (simp only:)
  qed
  have "consecutive (dropWhile P V)" if "consecutive V" for P V
    using that unfolding consecutive_def by (metis successively_append_iff takeWhile_dropWhile_id)
  moreover have "last (dropWhile P V) = last V" if "dropWhile P V \<noteq> []" for P :: "ShardToBeaconBlock \<Rightarrow> bool" and V
    using that by (metis last_appendR takeWhile_dropWhile_id)
  ultimately show ?thesis
    using ok sD unfolding shard_ok_def tw by (metis dropWhile.simps(1))
qed

lemma sort_key_append_above:
  assumes "sorted (map tht V)" and "\<forall>v \<in> set V. \<forall>x \<in> set X. tht v < tht x"
  shows "sort_key tht (V @ X) = V @ sort_key tht X"
proof (rule properties_for_sort_key)
  show "mset (V @ sort_key tht X) = mset (V @ X)" by simp
  show "sorted (map tht (V @ sort_key tht X))"
    using assms by (auto simp: sorted_append intro: less_imp_le)
  fix k
  show "filter (\<lambda>x. tht k = tht x) (V @ sort_key tht X) = filter (\<lambda>x. tht k = tht x) (V @ X)"
    using sort_key_stable [of tht "tht k" X] by (simp add: eq_commute [of "tht k"])
qed

lemma strict_sorted_iff_map: "sorted_wrt (\<lambda>a b. tht a < tht b) bs \<longleftrightarrow> sorted (map tht bs) \<and> distinct (map tht bs)"
  using strict_sorted_iff [of "map tht bs"] by (simp add: sorted_wrt_map)

lemma shard_ok_insert:
  assumes ok: "shard_ok l bs" and gt: "l < tht b" and new: "tht b \<notin> tht ` set bs"
  shows "shard_ok l (sort_key tht (bs @ [b]))"
proof -
  let ?V = "takeWhile (\<lambda>b. tht b \<le> l) bs" and ?W = "dropWhile (\<lambda>b. tht b \<le> l) bs"
  have sorted: "sorted_wrt (\<lambda>a b. tht a < tht b) bs" using ok by (simp add: shard_ok_def)
  have W: "\<forall>x \<in> set (?W @ [b]). l < tht x" using sorted_dropWhile_above [OF sorted] gt by auto
  have V: "\<forall>v \<in> set ?V. tht v \<le> l" by (auto dest: set_takeWhileD)
  have "sorted (map tht ?V)"
    using sorted unfolding strict_sorted_iff_map by (metis map_append sorted_append takeWhile_dropWhile_id)
  then have "sort_key tht (?V @ (?W @ [b])) = ?V @ sort_key tht (?W @ [b])"
    using V W by (intro sort_key_append_above) (auto intro: le_less_trans)
  then have split: "sort_key tht (bs @ [b]) = ?V @ sort_key tht (?W @ [b])"
    by (metis append.assoc takeWhile_dropWhile_id)
  have "takeWhile (\<lambda>b. tht b \<le> l) (sort_key tht (bs @ [b])) = ?V"
    unfolding split using V W by (intro sorted_takeWhile_append) auto
  moreover have "distinct (map tht (sort_key tht (bs @ [b])))"
  proof -
    have "distinct (map tht (bs @ [b]))" using sorted new by (simp add: strict_sorted_iff_map)
    then show ?thesis by (metis mset_map mset_sort mset_eq_imp_distinct_iff)
  qed
  then have "sorted_wrt (\<lambda>a b. tht a < tht b) (sort_key tht (bs @ [b]))"
    by (simp add: strict_sorted_iff_map)
  ultimately show ?thesis using ok by (simp add: shard_ok_def)
qed

lemma shard_ok_butlast:
  assumes ok: "shard_ok l bs" and ne: "bs \<noteq> []" and gt: "l < tht (last bs)"
  shows "shard_ok l (butlast bs)"
proof -
  have bs: "bs = butlast bs @ [last bs]" using ne by simp
  have "takeWhile (\<lambda>b. tht b \<le> l) (butlast bs) = takeWhile (\<lambda>b. tht b \<le> l) bs"
    using takeWhile_tail [of "\<lambda>b. tht b \<le> l" "last bs" "butlast bs" "[]"] gt ne by (simp add: not_le)
  moreover have "sorted_wrt (\<lambda>a b. tht a < tht b) (butlast bs)"
    using ok bs by (metis shard_ok_def sorted_wrt_append)
  ultimately show ?thesis using ok by (simp add: shard_ok_def)
qed

section \<open>The whole pool\<close>

definition stp_inv :: "ShardToBeaconPool \<Rightarrow> bool" where
  "stp_inv p \<longleftrightarrow> (\<forall>s. shard_ok (at_least_one (stp_latest p s)) (stp_blocks p s))"

lemma at_least_one_ge: "1 \<le> l \<Longrightarrow> at_least_one l = l"
  by (auto simp: at_least_one_def)

lemma at_least_one_pos [simp]: "1 \<le> at_least_one l"
  by (auto simp: at_least_one_def word_le_nat_alt unat_gt_0 Suc_le_eq)

lemma stp_update_fold:
  "distinct ks \<Longrightarrow> stp_pool (fold stp_update_shard ks p) = stp_pool p \<and>
     stp_latest (fold stp_update_shard ks p) s =
       (if s \<in> set ks then last_valid (at_least_one (stp_latest p s)) (stp_blocks p s) else stp_latest p s)"
  by (induction ks arbitrary: p) (auto simp: stp_update_shard_def)

lemma stp_update_eqs:
  "stp_pool (stp_updateLatestShardState p) = stp_pool p"
  "stp_latest (stp_updateLatestShardState p) s =
     (if s \<in> fmdom' (stp_pool p) then last_valid (at_least_one (stp_latest p s)) (stp_blocks p s) else stp_latest p s)"
  using stp_update_fold [of "sorted_keys (stp_pool p)" p s] iteration_order_sorted_keys [of "stp_pool p"]
  by (simp_all add: stp_updateLatestShardState_def iteration_order_def)

lemma stp_inv_update: "stp_inv p \<Longrightarrow> stp_inv (stp_updateLatestShardState p)"
  unfolding stp_inv_def stp_update_eqs
proof
  fix s
  assume "\<forall>s. shard_ok (at_least_one (stp_latest p s)) (stp_blocks p s)"
  then have ok: "shard_ok (at_least_one (stp_latest p s)) (stp_blocks p s)" by blast
  note lv = shard_ok_last_valid [OF ok]
  have "at_least_one (last_valid (at_least_one (stp_latest p s)) (stp_blocks p s))
      = last_valid (at_least_one (stp_latest p s)) (stp_blocks p s)"
    using lv by (intro at_least_one_ge) (meson at_least_one_pos order_trans)
  with lv ok show "shard_ok (at_least_one (if s \<in> fmdom' (stp_pool p)
      then last_valid (at_least_one (stp_latest p s)) (stp_blocks p s) else stp_latest p s)) (stp_blocks p s)"
    by simp
qed

lemma stp_remove_fold:
  "distinct ks \<Longrightarrow> stp_latestValidHeight (fold (stp_remove_shard items) ks p) = stp_latestValidHeight p \<and>
     stp_blocks (fold (stp_remove_shard items) ks p) s =
       (if s \<in> set ks then dropWhile (\<lambda>b. tht b \<le> map_get 0 items s) (stp_blocks p s) else stp_blocks p s)"
  by (induction ks arbitrary: p) (auto simp: stp_remove_shard_def)

lemma RemovePendingBlock_eqs:
  "stp_latestValidHeight (RemovePendingBlock items p) = stp_latestValidHeight p"
  "stp_blocks (RemovePendingBlock items p) s =
     (if s \<in> fmdom' items then dropWhile (\<lambda>b. tht b \<le> map_get 0 items s) (stp_blocks p s) else stp_blocks p s)"
  using stp_remove_fold [of "sorted_keys items" items p s] iteration_order_sorted_keys [of items]
  by (simp_all add: RemovePendingBlock_def iteration_order_def)

lemma stp_inv_remove: "stp_inv p \<Longrightarrow> stp_inv (RemovePendingBlock items p)"
  by (simp add: stp_inv_def RemovePendingBlock_eqs shard_ok_dropWhile)

lemma map_get_fmadd: "map_get z (fmadd m n) k = (if k \<in> fmdom' n then map_get z n k else map_get z m k)"
  by (auto simp: map_get_def fmlookup_dom'_iff)

lemma stp_inv_SetShardState: "stp_inv p \<Longrightarrow> stp_inv (fst (stp_SetShardState st p))"
proof -
  assume inv: "stp_inv p"
  let ?st = "fmmap at_least_one st"
  let ?p1 = "p\<lparr>stp_latestValidHeight := fmadd (stp_latestValidHeight p) ?st\<rparr>"
  have "shard_ok (at_least_one (stp_latest (RemovePendingBlock ?st ?p1) s)) (stp_blocks (RemovePendingBlock ?st ?p1) s)" for s
  proof (cases "s \<in> fmdom' ?st")
    case True
    let ?h = "map_get 0 ?st s" and ?D = "dropWhile (\<lambda>b. tht b \<le> map_get 0 ?st s) (stp_blocks p s)"
    have sorted: "sorted_wrt (\<lambda>a b. tht a < tht b) (stp_blocks p s)" using inv by (auto simp: stp_inv_def shard_ok_def)
    obtain x where "fmlookup st s = Some x" using True by (auto simp: fmlookup_dom'_iff)
    then have h: "at_least_one ?h = ?h" by (simp add: map_get_def at_least_one_def)
    have "takeWhile (\<lambda>b. tht b \<le> ?h) ?D = []"
      by (rule takeWhile_dropWhile_Nil)
    moreover have "sorted_wrt (\<lambda>a b. tht a < tht b) ?D" by (rule sorted_wrt_dropWhile [OF sorted])
    ultimately have "shard_ok ?h ?D" by (simp add: shard_ok_def consecutive_def)
    with True h show ?thesis by (simp add: RemovePendingBlock_eqs map_get_fmadd)
  next
    case False
    with inv show ?thesis by (simp add: RemovePendingBlock_eqs map_get_fmadd stp_inv_def)
  qed
  then have "stp_inv (RemovePendingBlock ?st ?p1)" by (simp add: stp_inv_def)
  then show ?thesis by (simp add: stp_SetShardState_def Let_def stp_inv_update)
qed

lemma stp_capacity_Inr:
  "stp_capacity l bs h = Inr cs \<Longrightarrow> cs = bs \<or> (cs = butlast bs \<and> bs \<noteq> [] \<and> h < tht (last bs))"
  by (auto simp: stp_capacity_def Let_def split: if_splits)

lemma stp_inv_Add: "stp_inv p0 \<Longrightarrow> stp_inv (fst (AddShardToBeaconBlock blk p0))"
proof -
  assume inv0: "stp_inv p0"
  let ?s = "sh_ShardID (stb_Header blk)"
  define p where "p = (if stp_latest p0 ?s = 0 then p0\<lparr>stp_latestValidHeight := fmupd ?s 1 (stp_latestValidHeight p0)\<rparr> else p0)"
  have same: "at_least_one (stp_latest p s) = at_least_one (stp_latest p0 s)" "stp_blocks p s = stp_blocks p0 s" for s
    by (auto simp: p_def at_least_one_def)
  have inv: "stp_inv p" using inv0 by (simp add: stp_inv_def same)
  have pos: "1 \<le> stp_latest p ?s"
    by (auto simp: p_def word_le_nat_alt Suc_le_eq unat_gt_0)
  let ?l = "stp_latest p ?s" and ?bs = "stp_blocks p ?s"
  have ok: "shard_ok ?l ?bs" using inv pos by (metis at_least_one_ge stp_inv_def)
  have upd: "stp_inv (stp_updateLatestShardState (p\<lparr>stp_pool := fmupd ?s (sort_key tht (cs @ [blk])) (stp_pool p)\<rparr>))"
    if "shard_ok ?l cs" "?l < tht blk" "tht blk \<notin> tht ` set cs" for cs
    using inv shard_ok_insert [OF that] pos
    by (intro stp_inv_update) (auto simp: stp_inv_def at_least_one_ge)
  show ?thesis
  proof (cases "tht blk \<le> ?l \<or> list_ex (\<lambda>b. tht b = tht blk) ?bs")
    case True
    then show ?thesis using inv by (auto simp: AddShardToBeaconBlock_def p_def [symmetric] Let_def)
  next
    case False
    then have gt: "?l < tht blk" and new: "tht blk \<notin> tht ` set ?bs" by (auto simp: list_ex_iff)
    show ?thesis
    proof (cases "stp_capacity ?l ?bs (tht blk)")
      case (Inl e)
      with False inv show ?thesis by (simp add: AddShardToBeaconBlock_def p_def [symmetric] Let_def)
    next
      case (Inr cs)
      have "shard_ok ?l cs \<and> set cs \<subseteq> set ?bs"
        using stp_capacity_Inr [OF Inr] ok shard_ok_butlast [OF ok] gt by (auto dest: in_set_butlastD)
      then have "stp_inv (stp_updateLatestShardState (p\<lparr>stp_pool := fmupd ?s (sort_key tht (cs @ [blk])) (stp_pool p)\<rparr>))"
        using new by (intro upd gt) auto
      with Inr False show ?thesis
        by (simp add: AddShardToBeaconBlock_def p_def [symmetric] Let_def split: prod.splits)
    qed
  qed
qed

section \<open>The pool as a state machine\<close>

inductive stp_step :: "ShardToBeaconPool \<Rightarrow> ShardToBeaconPool \<Rightarrow> bool" where
  add: "stp_step p (fst (AddShardToBeaconBlock blk p))"
| remove: "stp_step p (RemovePendingBlock items p)"
| set_state: "stp_step p (fst (stp_SetShardState st p))"
| get_valid: "stp_step p (fst (GetValidPendingBlock limit p))"

inductive stp_reachable :: "ShardToBeaconPool \<Rightarrow> bool" where
  init: "stp_reachable newShardToBeaconPool"
| step: "stp_reachable p \<Longrightarrow> stp_step p q \<Longrightarrow> stp_reachable q"

inductive_cases stp_stepE: "stp_step p q"

lemma stp_inv_new: "stp_inv newShardToBeaconPool"
  by (simp add: stp_inv_def newShardToBeaconPool_def shard_ok_def consecutive_def)

lemma fold_at_least_one:
  "at_least_one (map_get 0 (fold (\<lambda>s m. if map_get 0 m s = 0 then fmupd s 1 m else m) ks m) s) = at_least_one (map_get 0 m s)"
proof (induction ks arbitrary: m)
  case (Cons k ks)
  have "at_least_one (map_get 0 (if map_get 0 m k = 0 then fmupd k 1 m else m) s) = at_least_one (map_get 0 m s)"
    by (auto simp: at_least_one_def)
  with Cons show ?case by simp
qed simp

lemma stp_inv_GetValid: "stp_inv p \<Longrightarrow> stp_inv (fst (GetValidPendingBlock limit p))"
  by (simp add: GetValidPendingBlock_def Let_def stp_inv_def fold_at_least_one)

lemma stp_inv_reachable: "stp_reachable p \<Longrightarrow> stp_inv p"
proof (induction rule: stp_reachable.induct)
  case (step p q)
  from step(2) show ?case
    by (cases rule: stp_step.cases) (auto intro: stp_inv_Add stp_inv_remove stp_inv_SetShardState stp_inv_GetValid step)
qed (rule stp_inv_new)

lemma valid_prefix_take:
  "valid_prefix l lim i bs = take (50 - i) (takeWhile (\<lambda>b. tht b \<le> l \<and> (lim = 0 \<or> tht b \<le> lim)) bs)"
  by (induction l lim i bs rule: valid_prefix.induct) (auto simp: not_le Suc_diff_le take_Cons' not_less)

lemma fold_nonempty:
  "distinct ks \<Longrightarrow> map_get [] (fold (\<lambda>s r. if f s = [] then r else fmupd s (f s) r) ks m) k
     = (if k \<in> set ks \<and> f k \<noteq> [] then f k else map_get [] m k)"
  by (induction ks arbitrary: m) auto

lemma GetValidPendingBlock_shard:
  "map_get [] (snd (GetValidPendingBlock limit p)) s
     = valid_prefix (at_least_one (stp_latest p s)) (stp_limit limit s) 0 (stp_blocks p s)"
proof -
  have "stp_blocks p s = []" if "s \<notin> fmdom' (stp_pool p)"
    using that by (simp add: map_get_def fmdom'_notD)
  then show ?thesis
    using fold_nonempty [of "sorted_keys (stp_pool p)"
        "\<lambda>s. valid_prefix (at_least_one (stp_latest p s)) (stp_limit limit s) 0 (stp_blocks p s)" fmempty s]
      iteration_order_sorted_keys [of "stp_pool p"]
    by (auto simp: GetValidPendingBlock_def Let_def iteration_order_def)
qed

lemma takeWhile_prefix_consecutive:
  assumes "consecutive (takeWhile P bs)" and "\<And>b. Q b \<Longrightarrow> P b"
  shows "consecutive (take n (takeWhile Q bs))"
proof -
  have "\<exists>zs. takeWhile P bs = take n (takeWhile Q bs) @ zs"
  proof -
    have "takeWhile Q bs = takeWhile Q (takeWhile P bs)"
      using assms(2) by (induction bs) auto
    then show ?thesis by (metis append.assoc append_take_drop_id takeWhile_dropWhile_id)
  qed
  then show ?thesis using assms(1) unfolding consecutive_def by (metis successively_append_iff)
qed

section \<open>Properties\<close>

text \<open>C21: what the beacon producer gets. From every reachable state of the pool and for every limit, the
  blocks \<open>GetValidPendingBlock\<close> returns for a shard have consecutive heights, at most the latest
  valid height and the limit, and there are at most 50 of them.
\<close>

theorem stp_valid_pending_run:
  assumes "stp_reachable p" and "bs = map_get [] (snd (GetValidPendingBlock limit p)) s"
  shows "consecutive bs \<and> length bs \<le> 50
    \<and> list_all (\<lambda>b. tht b \<le> at_least_one (stp_latest p s) \<and> (stp_limit limit s = 0 \<or> tht b \<le> stp_limit limit s)) bs"
proof -
  let ?l = "at_least_one (stp_latest p s)"
  let ?Q = "\<lambda>b. tht b \<le> ?l \<and> (stp_limit limit s = 0 \<or> tht b \<le> stp_limit limit s)"
  have bs: "bs = take 50 (takeWhile ?Q (stp_blocks p s))"
    using assms(2) by (simp add: GetValidPendingBlock_shard valid_prefix_take)
  have "consecutive (takeWhile (\<lambda>b. tht b \<le> ?l) (stp_blocks p s))"
    using stp_inv_reachable [OF assms(1)] by (auto simp: stp_inv_def shard_ok_def)
  then have "consecutive bs" unfolding bs by (rule takeWhile_prefix_consecutive) simp
  moreover have "list_all ?Q bs"
    unfolding bs list_all_iff by (blast dest: in_set_takeD set_takeWhileD)
  ultimately show ?thesis by (simp add: bs)
qed

definition ex_s2b_block :: "uint64 \<Rightarrow> ShardToBeaconBlock" where
  "ex_s2b_block h =
     \<lparr>stb_AggregatedSig = '''', stb_R = '''', stb_ValidatorsIdx = [], stb_ProducerSig = '''', stb_Instructions = [],
      stb_Header = \<lparr>sh_ProducerAddress = \<lparr>pa_Pk = [], pa_Tk = []\<rparr>, sh_ShardID = 0, sh_Version = 1,
        sh_PrevBlockHash = zero_hash, sh_Height = h, sh_Round = 1, sh_Epoch = 1, sh_Timestamp = 0,
        sh_TxRoot = zero_hash, sh_ShardTxRoot = zero_hash, sh_CrossTransactionRoot = zero_hash,
        sh_InstructionsRoot = zero_hash, sh_CommitteeRoot = zero_hash, sh_PendingValidatorRoot = zero_hash,
        sh_CrossShards = [], sh_BeaconHeight = 1, sh_BeaconHash = zero_hash\<rparr>\<rparr>"

lemma ex_s2b_sel [simp]: "tht (ex_s2b_block h) = h" "sh_ShardID (stb_Header (ex_s2b_block h)) = 0"
  by (simp_all add: ex_s2b_block_def)

definition ex_s2b_pool :: ShardToBeaconPool where
  "ex_s2b_pool = fst (AddShardToBeaconBlock (ex_s2b_block 2) newShardToBeaconPool)"

theorem stp_valid_pending_run_witness:
  "map_get [] (snd (GetValidPendingBlock None ex_s2b_pool)) 0 = [ex_s2b_block 2] \<and> consecutive [ex_s2b_block 2]"
proof -
  have r: "stp_reachable ex_s2b_pool"
    unfolding ex_s2b_pool_def by (intro stp_reachable.step [OF stp_reachable.init] stp_step.add)
  have "map_get [] (snd (GetValidPendingBlock None ex_s2b_pool)) 0 = [ex_s2b_block 2]"
    unfolding GetValidPendingBlock_shard
    by (simp add: ex_s2b_pool_def AddShardToBeaconBlock_def newShardToBeaconPool_def Let_def stp_capacity_def
        stp_request_def stp_update_eqs stp_limit_def at_least_one_def word_le_nat_alt word_less_nat_alt fmdom'_alt_def)
  with stp_valid_pending_run [OF r refl, of None 0] show ?thesis by simp
qed

text \<open>when a gap is left below the first block of the pool, the range of heights
  \<open>AddShardToBeaconBlock\<close> asks for starts just above the latest valid height, is not empty, has at
  most 1000 heights, and does not go beyond that first block; no height wraps around.
\<close>

theorem stp_request_range:
  assumes "stp_request first latest = (lo, hi)" and "first > latest"
  shows "lo = latest + 1 \<and> lo \<le> hi \<and> hi \<le> first \<and> unat hi - unat latest \<le> MAX_VALID_SHARD_TO_BEACON_BLK_IN_POOL"
proof -
  define d where "d = unat first - unat latest"
  have d: "0 < d" "unat latest + d = unat first" "unat (first - latest) = d"
    using assms(2) by (auto simp: d_def word_less_nat_alt unat_sub less_imp_le)
  have first: "unat first < 2 ^ 64" using unsigned_less [of first, where 'a = nat] by simp
  have "first - latest = of_nat d" using d(3) by (metis of_nat_unat ucast_id)
  then have ends: "lo = latest + 1" "hi = latest + of_nat (min d 1000)"
    using assms d(3)
    by (auto simp: stp_request_def Let_def MAX_VALID_SHARD_TO_BEACON_BLK_IN_POOL_def word_less_nat_alt min_def split: if_splits)
  have "unat (latest + 1) = unat latest + 1" "unat hi = unat latest + min d 1000"
    using d first unfolding ends by (simp_all add: unat_word_ariths unat_of_nat)
  then show ?thesis
    using d(1,2) ends(1) by (simp add: word_le_nat_alt MAX_VALID_SHARD_TO_BEACON_BLK_IN_POOL_def)
qed

theorem stp_request_range_witness:
  "stp_request 5000 7 = (8, 1007) \<and> (8 :: uint64) = 7 + 1"
proof -
  have "stp_request 5000 7 = (8, 1007)"
    by (simp add: stp_request_def Let_def MAX_VALID_SHARD_TO_BEACON_BLK_IN_POOL_def word_less_nat_alt)
  with stp_request_range [OF this] show ?thesis by (simp add: word_less_nat_alt)
qed

end
