(* ===== verification/Level_DB.thy ===== *)
theory Level_DB
  imports Common_Util Hash_Type "HOL-Library.Sublist"
begin

text \<open>
  \<open>src/database/lvdb/db.go\<close>: the key-value layer below every store of the node. LevelDB itself is
  not part of the repository: it is the parameter \<open>D\<close>, a record of its operations on an abstract
  state, with \<open>leveldb_spec\<close> for the documented behaviour of a store that has no I/O error. A failed
  operation (\<open>None\<close>, \<open>LvdbFailure\<close>) is a branch of every definition.

  Keys are built with \<open>append\<close> from package-level prefixes and are values here: the code is read as
  sequential, each key being used before the next one is built.
\<close>

section \<open>LevelDB\<close>

datatype ldb_error = ErrNotFound | LvdbFailure

record 's leveldb =
  ldb_Put :: "bytes \<Rightarrow> bytes \<Rightarrow> 's \<Rightarrow> 's option"
  ldb_Get :: "bytes \<Rightarrow> 's \<Rightarrow> ldb_error + bytes"
  ldb_Has :: "bytes \<Rightarrow> 's \<Rightarrow> bool option"
  ldb_Delete :: "bytes \<Rightarrow> 's \<Rightarrow> 's option"
  ldb_Iterate :: "bytes \<Rightarrow> 's \<Rightarrow> (bytes \<times> bytes) list \<times> bool"
    \<comment> \<open>the pairs under a prefix of the snapshot, and whether \<open>iter.Error()\<close> is non-nil\<close>

definition ldb_lookup :: "'s leveldb \<Rightarrow> 's \<Rightarrow> bytes \<Rightarrow> bytes option" where
  "ldb_lookup D s k = (case ldb_Get D k s of Inl _ \<Rightarrow> None | Inr v \<Rightarrow> Some v)"

definition leveldb_spec :: "'s leveldb \<Rightarrow> bool" where
  "leveldb_spec D \<longleftrightarrow>
     (\<forall>k v s. \<exists>s'. ldb_Put D k v s = Some s' \<and> (\<forall>k'. ldb_Get D k' s' = (if k' = k then Inr v else ldb_Get D k' s))) \<and>
     (\<forall>k s. \<exists>s'. ldb_Delete D k s = Some s' \<and> (\<forall>k'. ldb_Get D k' s' = (if k' = k then Inl ErrNotFound else ldb_Get D k' s))) \<and>
     (\<forall>k s. ldb_Has D k s = Some (ldb_lookup D s k \<noteq> None)) \<and>
     (\<forall>k s. ldb_Get D k s \<noteq> Inl LvdbFailure) \<and>
     (\<forall>p s. \<not> snd (ldb_Iterate D p s) \<and> distinct (map fst (fst (ldb_Iterate D p s)))
        \<and> set (fst (ldb_Iterate D p s)) = {(k, v). prefix p k \<and> ldb_lookup D s k = Some v})"

section \<open>Errors and results\<close>

datatype db_error =
    DriverExistErr | DriverNotRegisterErr | OpenDbErr | NotExistValue | LvDbNotFound
  | NotImplHashMethod | BlockExisted | UnexpectedError | KeyExisted | NotEnoughCandidate | ErrUnexpected
  | RawError   \<comment> \<open>an error returned as it came, without a code\<close>

type_synonym 's stored = "'s \<times> db_error option"

definition andStore :: "'s stored \<Rightarrow> ('s \<Rightarrow> 's stored) \<Rightarrow> 's stored" where
  "andStore r f = (case r of (s, Some e) \<Rightarrow> (s, Some e) | (s, None) \<Rightarrow> f s)"

section \<open>Prefixes\<close>

definition beaconPrefix :: bytes where "beaconPrefix = bytes_of_string ''bea-''"
definition beaconBestBlockkey :: bytes where "beaconBestBlockkey = bytes_of_string ''bea-bestBlock''"
definition committeePrefix :: bytes where "committeePrefix = bytes_of_string ''com-''"
definition epochPrefix :: bytes where "epochPrefix = bytes_of_string ''ep-''"
definition shardIDPrefix :: bytes where "shardIDPrefix = bytes_of_string ''s''"
definition blockKeyPrefix :: bytes where "blockKeyPrefix = bytes_of_string ''b-''"
definition blockKeyIdxPrefix :: bytes where "blockKeyIdxPrefix = bytes_of_string ''i-''"
definition crossShardKeyPrefix :: bytes where "crossShardKeyPrefix = bytes_of_string ''csh-''"
definition nextCrossShardKeyPrefix :: bytes where "nextCrossShardKeyPrefix = bytes_of_string ''ncsh-''"
definition shardToBeaconKeyPrefix :: bytes where "shardToBeaconKeyPrefix = bytes_of_string ''stb-''"
definition transactionKeyPrefix :: bytes where "transactionKeyPrefix = bytes_of_string ''tx-''"
definition serialNumbersPrefix :: bytes where "serialNumbersPrefix = bytes_of_string ''serinalnumbers-''"
definition commitmentsPrefix :: bytes where "commitmentsPrefix = bytes_of_string ''commitments-''"
definition outcoinsPrefix :: bytes where "outcoinsPrefix = bytes_of_string ''outcoins-''"
definition snderivatorsPrefix :: bytes where "snderivatorsPrefix = bytes_of_string ''snderivators-''"
definition bestBlockKey :: bytes where "bestBlockKey = bytes_of_string ''bestBlock''"
definition feeEstimator :: bytes where "feeEstimator = bytes_of_string ''feeEstimator''"
definition Splitter :: bytes where "Splitter = bytes_of_string ''-[-]-''"
definition TokenPrefix :: bytes where "TokenPrefix = bytes_of_string ''token-''"
definition PrivacyTokenPrefix :: bytes where "PrivacyTokenPrefix = bytes_of_string ''privacy-token-''"
definition PrivacyTokenCrossShardPrefix :: bytes where "PrivacyTokenCrossShardPrefix = bytes_of_string ''privacy-cross-token-''"
definition TokenPaymentAddressPrefix :: bytes where "TokenPaymentAddressPrefix = bytes_of_string ''token-paymentaddress-''"
definition tokenInitPrefix :: bytes where "tokenInitPrefix = bytes_of_string ''token-init-''"
definition privacyTokenInitPrefix :: bytes where "privacyTokenInitPrefix = bytes_of_string ''privacy-token-init-''"
definition centralizedBridgePrefix :: bytes where "centralizedBridgePrefix = bytes_of_string ''centralizedbridge-''"
definition Unreward :: bytes where "Unreward = bytes_of_string ''unreward''"
definition Unspent :: bytes where "Unspent = bytes_of_string ''unspent''"

lemmas prefix_defs = beaconPrefix_def beaconBestBlockkey_def committeePrefix_def epochPrefix_def shardIDPrefix_def
  blockKeyPrefix_def blockKeyIdxPrefix_def crossShardKeyPrefix_def nextCrossShardKeyPrefix_def
  shardToBeaconKeyPrefix_def transactionKeyPrefix_def serialNumbersPrefix_def commitmentsPrefix_def
  outcoinsPrefix_def snderivatorsPrefix_def bestBlockKey_def feeEstimator_def TokenPrefix_def
  PrivacyTokenPrefix_def PrivacyTokenCrossShardPrefix_def TokenPaymentAddressPrefix_def tokenInitPrefix_def
  privacyTokenInitPrefix_def centralizedBridgePrefix_def

section \<open>Operations\<close>

definition HasValue :: "'s leveldb \<Rightarrow> bytes \<Rightarrow> 's \<Rightarrow> db_error + bool" where
  "HasValue D key s = (case ldb_Has D key s of None \<Rightarrow> Inl NotExistValue | Some ret \<Rightarrow> Inr ret)"

definition db_Put :: "'s leveldb \<Rightarrow> bytes \<Rightarrow> bytes \<Rightarrow> 's \<Rightarrow> 's stored" where
  "db_Put D key value s = (case ldb_Put D key value s of None \<Rightarrow> (s, Some UnexpectedError) | Some s' \<Rightarrow> (s', None))"

definition db_Delete :: "'s leveldb \<Rightarrow> bytes \<Rightarrow> 's \<Rightarrow> 's stored" where
  "db_Delete D key s = (case ldb_Delete D key s of None \<Rightarrow> (s, Some UnexpectedError) | Some s' \<Rightarrow> (s', None))"

definition db_Get :: "'s leveldb \<Rightarrow> bytes \<Rightarrow> 's \<Rightarrow> db_error + bytes" where
  "db_Get D key s = (case ldb_Get D key s of Inl _ \<Rightarrow> Inl LvDbNotFound | Inr value \<Rightarrow> Inr value)"

definition GetKey :: "bytes \<Rightarrow> hash \<Rightarrow> bytes" where
  "GetKey keyType key =
     (if keyType = blockKeyPrefix then blockKeyPrefix @ key
      else if keyType = blockKeyIdxPrefix then blockKeyIdxPrefix @ key
      else if keyType \<in> {serialNumbersPrefix, commitmentsPrefix, outcoinsPrefix, snderivatorsPrefix, TokenPrefix,
                PrivacyTokenPrefix, PrivacyTokenCrossShardPrefix, tokenInitPrefix, privacyTokenInitPrefix}
      then keyType @ bytes_of_string (Hash_String key)
      else [])"

text \<open>The common shape of a getter that wraps every failure in \<open>UnexpectedError\<close>.\<close>

definition get_wrapped :: "'s leveldb \<Rightarrow> bytes \<Rightarrow> 's \<Rightarrow> db_error + bytes" where
  "get_wrapped D key s = (case ldb_Get D key s of Inl _ \<Rightarrow> Inl UnexpectedError | Inr b \<Rightarrow> Inr b)"

text \<open>\<open>binary.Read\<close> of a \<open>uint64\<close> from a slice: too few bytes are an error, bytes that follow are ignored.\<close>

definition read_uint64 :: "bytes \<Rightarrow> db_error + uint64" where
  "read_uint64 b = (case BytesToUint64 b of Inl _ \<Rightarrow> Inl UnexpectedError | Inr v \<Rightarrow> Inr v)"

section \<open>Facts\<close>

lemma lookup_Put:
  assumes "leveldb_spec D"
  obtains s' where "ldb_Put D k v s = Some s'" "ldb_lookup D s' = (ldb_lookup D s)(k \<mapsto> v)"
proof -
  obtain s' where "ldb_Put D k v s = Some s'" "\<forall>k'. ldb_Get D k' s' = (if k' = k then Inr v else ldb_Get D k' s)"
    using assms unfolding leveldb_spec_def by blast
  then show ?thesis by (intro that [of s']) (auto simp: ldb_lookup_def fun_eq_iff)
qed

lemma lookup_Delete:
  assumes "leveldb_spec D"
  obtains s' where "ldb_Delete D k s = Some s'" "ldb_lookup D s' = (ldb_lookup D s)(k := None)"
proof -
  obtain s' where "ldb_Delete D k s = Some s'"
      "\<forall>k'. ldb_Get D k' s' = (if k' = k then Inl ErrNotFound else ldb_Get D k' s)"
    using assms unfolding leveldb_spec_def by blast
  then show ?thesis by (intro that [of s']) (auto simp: ldb_lookup_def fun_eq_iff)
qed

lemma ldb_Get_lookup:
  assumes "leveldb_spec D"
  shows "ldb_Get D k s = (case ldb_lookup D s k of None \<Rightarrow> Inl ErrNotFound | Some v \<Rightarrow> Inr v)"
proof -
  have "ldb_Get D k s \<noteq> Inl LvdbFailure" using assms unfolding leveldb_spec_def by blast
  then show ?thesis
    by (cases "ldb_Get D k s") (auto simp: ldb_lookup_def intro: ldb_error.exhaust)
qed

lemma ldb_Has_lookup: "leveldb_spec D \<Longrightarrow> ldb_Has D k s = Some (ldb_lookup D s k \<noteq> None)"
  unfolding leveldb_spec_def by blast

lemma ldb_Iterate_lookup:
  assumes "leveldb_spec D"
  shows "\<not> snd (ldb_Iterate D p s)" "distinct (map fst (fst (ldb_Iterate D p s)))"
    "set (fst (ldb_Iterate D p s)) = {(k, v). prefix p k \<and> ldb_lookup D s k = Some v}"
  using assms unfolding leveldb_spec_def by blast+

named_theorems db_simps \<open>the operations of the layer, as reads and updates of the lookup function\<close>

lemma HasValue_lookup [db_simps]: "leveldb_spec D \<Longrightarrow> HasValue D k s = Inr (ldb_lookup D s k \<noteq> None)"
  by (simp add: HasValue_def ldb_Has_lookup)

lemma db_Get_lookup [db_simps]:
  "leveldb_spec D \<Longrightarrow> db_Get D k s = (case ldb_lookup D s k of None \<Rightarrow> Inl LvDbNotFound | Some v \<Rightarrow> Inr v)"
  by (simp add: db_Get_def ldb_Get_lookup split: option.splits)

lemma get_wrapped_lookup [db_simps]:
  "leveldb_spec D \<Longrightarrow> get_wrapped D k s = (case ldb_lookup D s k of None \<Rightarrow> Inl UnexpectedError | Some v \<Rightarrow> Inr v)"
  by (simp add: get_wrapped_def ldb_Get_lookup split: option.splits)

lemma read_uint64_Uint64ToBytes [simp]: "read_uint64 (Uint64ToBytes v) = Inr v"
  by (simp add: read_uint64_def BytesToUint64_Uint64ToBytes)

text \<open>
  The effect of a store as a transformation of the lookup function: \<open>stores D r m\<close> says that the
  operation succeeded and that the lookup function is \<open>m\<close> afterwards.
\<close>

definition stores :: "'s leveldb \<Rightarrow> 's stored \<Rightarrow> (bytes \<Rightarrow> bytes option) \<Rightarrow> bool" where
  "stores D r m \<longleftrightarrow> snd r = None \<and> ldb_lookup D (fst r) = m"

lemma stores_db_Put: "leveldb_spec D \<Longrightarrow> stores D (db_Put D k v s) ((ldb_lookup D s)(k \<mapsto> v))"
  by (rule lookup_Put [of D k v s]) (auto simp: stores_def db_Put_def)

lemma stores_db_Delete: "leveldb_spec D \<Longrightarrow> stores D (db_Delete D k s) ((ldb_lookup D s)(k := None))"
  by (rule lookup_Delete [of D k s]) (auto simp: stores_def db_Delete_def)

lemma stores_return: "stores D (s, None) (ldb_lookup D s)"
  by (simp add: stores_def)

lemma stores_andStore:
  assumes "stores D r m" and "\<And>s'. ldb_lookup D s' = m \<Longrightarrow> stores D (f s') m'"
  shows "stores D (andStore r f) m'"
  using assms by (cases r) (auto simp: stores_def andStore_def)

lemma storesD: "stores D (s', e) m \<Longrightarrow> e = None \<and> ldb_lookup D s' = m"
  by (simp add: stores_def)

section \<open>Tables\<close>

text \<open>
  A table of the database: a family of keys, told apart by what they are built from. What was
  stored under one of its keys is what is read from it, and the other keys are unaffected.
\<close>

locale db_table =
  fixes key :: "'k \<Rightarrow> bytes" and ok :: "'k \<Rightarrow> bool"
  assumes key_inject: "ok a \<Longrightarrow> ok b \<Longrightarrow> key a = key b \<longleftrightarrow> a = b"
begin

lemma lookup_update:
  "ok a \<Longrightarrow> ok b \<Longrightarrow> (m(key a := v)) (key b) = (if a = b then v else m (key b))"
  by (auto simp: key_inject)

lemma get_put:
  assumes "leveldb_spec D" and "ok a" and "ok b" and "db_Put D (key a) v s = (s', None)"
  shows "db_Get D (key b) s' = (if a = b then Inr v else db_Get D (key b) s)"
proof -
  have "ldb_lookup D s' = (ldb_lookup D s)(key a \<mapsto> v)"
    using stores_db_Put [OF assms(1), of "key a" v s] assms(4) by (simp add: stores_def)
  then show ?thesis using assms(1-3) by (auto simp: db_simps key_inject)
qed

end

section \<open>An in-memory store\<close>

text \<open>A finite map as a store: it meets the specification, which therefore can hold.\<close>

definition mem_db :: "(bytes, bytes) fmap leveldb" where
  "mem_db = \<lparr>ldb_Put = (\<lambda>k v m. Some (fmupd k v m)),
     ldb_Get = (\<lambda>k m. case fmlookup m k of None \<Rightarrow> Inl ErrNotFound | Some v \<Rightarrow> Inr v),
     ldb_Has = (\<lambda>k m. Some (fmlookup m k \<noteq> None)),
     ldb_Delete = (\<lambda>k m. Some (fmdrop k m)),
     ldb_Iterate = (\<lambda>p m. (map (\<lambda>k. (k, map_get [] m k)) (filter (prefix p) (sorted_keys m)), False))\<rparr>"

lemma lookup_mem_db [simp]: "ldb_lookup mem_db m k = fmlookup m k"
  by (simp add: ldb_lookup_def mem_db_def split: option.splits)

lemma leveldb_spec_mem_db: "leveldb_spec mem_db"
proof -
  have "distinct (map fst (fst (ldb_Iterate mem_db p m)))" for p m
    using iteration_order_sorted_keys [of m] by (simp add: mem_db_def iteration_order_def comp_def)
  moreover have "set (fst (ldb_Iterate mem_db p m)) = {(k, v). prefix p k \<and> fmlookup m k = Some v}" for p m
    by (auto simp: mem_db_def map_get_def image_iff fmdom'_notI split: option.splits)
      (metis fmdom'_notI not_Some_eq, metis fmdom'I)
  moreover have "\<not> snd (ldb_Iterate mem_db p m)" for p m by (simp add: mem_db_def)
  ultimately show ?thesis
    unfolding leveldb_spec_def lookup_mem_db by (auto simp: mem_db_def split: option.splits)
qed

end
