(* ===== verification/Beacon_DB.thy ===== *)
theory Beacon_DB
  imports Level_DB
begin

text \<open>
  \<open>src/database/lvdb/beacon.go\<close>: the beacon chain's tables: blocks and their heights, the best
  state, the beacon height a shard block was accepted at, the committees of an epoch, and the chain
  of cross-shard heights between two shards. Values passed as \<open>interface{}\<close> are represented by what
  the code asks of them: their hash, if they have one (\<open>h\<close>), and their JSON text, if they can be
  marshalled (\<open>json\<close>).
\<close>

section \<open>Cross-shard heights\<close>

definition nextCrossShardKey :: "byte \<times> byte \<times> uint64 \<Rightarrow> bytes" where
  "nextCrossShardKey = (\<lambda>(fromShard, toShard, curHeight).
     nextCrossShardKeyPrefix @ [fromShard] @ bytes_of_string ''-'' @ [toShard] @ bytes_of_string ''-'' @ Uint64ToBytes curHeight)"

definition StoreCrossShardNextHeight ::
  "'s leveldb \<Rightarrow> byte \<Rightarrow> byte \<Rightarrow> uint64 \<Rightarrow> uint64 \<Rightarrow> 's \<Rightarrow> 's stored" where
  "StoreCrossShardNextHeight D fromShard toShard curHeight nextHeight s =
     db_Put D (nextCrossShardKey (fromShard, toShard, curHeight)) (Uint64ToBytes nextHeight) s"

definition HasCrossShardNextHeight :: "'s leveldb \<Rightarrow> bytes \<Rightarrow> 's \<Rightarrow> db_error + bool" where
  "HasCrossShardNextHeight D key s = HasValue D key s"

definition FetchCrossShardNextHeight ::
  "'s leveldb \<Rightarrow> byte \<Rightarrow> byte \<Rightarrow> uint64 \<Rightarrow> 's \<Rightarrow> fault + db_error + uint64" where
  "FetchCrossShardNextHeight D fromShard toShard curHeight s =
     (let key = nextCrossShardKey (fromShard, toShard, curHeight) in
      case HasCrossShardNextHeight D key s of
        Inl e \<Rightarrow> Inr (Inl e)
      | Inr _ \<Rightarrow>
          (case db_Get D key s of
             Inl _ \<Rightarrow> Inr (Inl UnexpectedError)
           | Inr info \<Rightarrow> andThen (BytesToUint64 info) (\<lambda>nextHeight. Inr (Inr nextHeight))))"

section \<open>Blocks\<close>

definition beaconBlockKey :: "hash \<Rightarrow> bytes" where "beaconBlockKey hash = beaconPrefix @ blockKeyPrefix @ hash"
definition blockKey :: "hash \<Rightarrow> bytes" where "blockKey hash = blockKeyPrefix @ hash"

definition StoreBeaconBlockHeader :: "'s leveldb \<Rightarrow> bytes option \<Rightarrow> hash \<Rightarrow> 's \<Rightarrow> 's stored" where
  "StoreBeaconBlockHeader D json hash s =
     (if HasValue D (beaconBlockKey hash) s = Inr True then (s, Some BlockExisted)
      else case json of
        None \<Rightarrow> (s, Some UnexpectedError)
      | Some val \<Rightarrow> andStore (db_Put D (beaconBlockKey hash) (blockKey hash) s) (db_Put D (blockKey hash) val))"

definition StoreBeaconBlock :: "'s leveldb \<Rightarrow> hash option \<Rightarrow> bytes option \<Rightarrow> 's \<Rightarrow> 's stored" where
  "StoreBeaconBlock D h json s =
     (case h of
        None \<Rightarrow> (s, Some NotImplHashMethod)
      | Some hash \<Rightarrow>
          if HasValue D (beaconBlockKey hash) s = Inr True then (s, Some BlockExisted)
          else case json of
            None \<Rightarrow> (s, Some UnexpectedError)
          | Some val \<Rightarrow> andStore (db_Put D (beaconBlockKey hash) (blockKey hash) s) (db_Put D (blockKey hash) val))"

definition HasBeaconBlock :: "'s leveldb \<Rightarrow> hash \<Rightarrow> 's \<Rightarrow> db_error + bool" where
  "HasBeaconBlock D hash s =
     (case HasValue D (beaconBlockKey hash) s of Inl e \<Rightarrow> Inl e | Inr _ \<Rightarrow> HasValue D (blockKey hash) s)"

definition FetchBeaconBlock :: "'s leveldb \<Rightarrow> hash \<Rightarrow> 's \<Rightarrow> db_error + bytes" where
  "FetchBeaconBlock D hash s =
     (case HasBeaconBlock D hash s of
        Inl e \<Rightarrow> Inl e
      | Inr _ \<Rightarrow> (case db_Get D (blockKey hash) s of Inl _ \<Rightarrow> Inl UnexpectedError | Inr block \<Rightarrow> Inr block))"

definition beaconIndexKey :: "bytes \<Rightarrow> bytes" where
  "beaconIndexKey b = beaconPrefix @ blockKeyIdxPrefix @ b"

definition DeleteBeaconBlock :: "'s leveldb \<Rightarrow> hash \<Rightarrow> uint64 \<Rightarrow> 's \<Rightarrow> 's stored" where
  "DeleteBeaconBlock D hash idx s =
     andStore (db_Delete D (beaconBlockKey hash) s) (\<lambda>s.
     andStore (db_Delete D (blockKey hash) s) (\<lambda>s.
     andStore (db_Delete D (beaconIndexKey hash) s) (\<lambda>s.
     andStore (db_Delete D (Uint64ToBytes idx) s) (\<lambda>s.
     db_Delete D (beaconBlockKey hash) s))))"

definition StoreBeaconBestState :: "'s leveldb \<Rightarrow> bytes option \<Rightarrow> 's \<Rightarrow> 's stored" where
  "StoreBeaconBestState D json s =
     (case json of None \<Rightarrow> (s, Some UnexpectedError) | Some val \<Rightarrow> db_Put D beaconBestBlockkey val s)"

definition FetchBeaconBestState :: "'s leveldb \<Rightarrow> 's \<Rightarrow> db_error + bytes" where
  "FetchBeaconBestState D s = (case db_Get D beaconBestBlockkey s of Inl _ \<Rightarrow> Inl UnexpectedError | Inr block \<Rightarrow> Inr block)"

definition CleanBeaconBestState :: "'s leveldb \<Rightarrow> 's \<Rightarrow> 's stored" where
  "CleanBeaconBestState D s = db_Delete D beaconBestBlockkey s"

definition StoreBeaconBlockIndex :: "'s leveldb \<Rightarrow> hash \<Rightarrow> uint64 \<Rightarrow> 's \<Rightarrow> 's stored" where
  "StoreBeaconBlockIndex D h idx s =
     andStore (db_Put D (beaconIndexKey h) (Uint64ToBytes idx) s) (db_Put D (beaconIndexKey (Uint64ToBytes idx)) h)"

definition GetIndexOfBeaconBlock :: "'s leveldb \<Rightarrow> hash \<Rightarrow> 's \<Rightarrow> fault + db_error + uint64" where
  "GetIndexOfBeaconBlock D h s =
     (case get_wrapped D (beaconIndexKey h) s of
        Inl e \<Rightarrow> Inr (Inl e)
      | Inr b \<Rightarrow> andThen (BytesToUint64 b) (\<lambda>idx. Inr (Inr idx)))"

text \<open>A stored value that is not 32 bytes long leaves the new hash zero.\<close>

definition hash_or_zero :: "bytes \<Rightarrow> hash" where
  "hash_or_zero b = (case Hash_SetBytes zero_hash b of Inl _ \<Rightarrow> zero_hash | Inr h \<Rightarrow> h)"

definition GetBeaconBlockHashByIndex :: "'s leveldb \<Rightarrow> uint64 \<Rightarrow> 's \<Rightarrow> db_error + hash" where
  "GetBeaconBlockHashByIndex D idx s =
     (case get_wrapped D (beaconIndexKey (Uint64ToBytes idx)) s of Inl e \<Rightarrow> Inl e | Inr b \<Rightarrow> Inr (hash_or_zero b))"

definition FetchBeaconBlockChain :: "'s leveldb \<Rightarrow> 's \<Rightarrow> db_error + hash list" where
  "FetchBeaconBlockChain D s =
     (let pre = beaconPrefix @ blockKeyPrefix; (kvs, err) = ldb_Iterate D pre s in
      if err then Inl UnexpectedError else Inr (map (\<lambda>(k, _). hash_or_zero (drop (length pre) k)) kvs))"

section \<open>Accepted shard blocks and committees\<close>

definition shardToBeaconKey :: "byte \<times> hash \<Rightarrow> bytes" where
  "shardToBeaconKey = (\<lambda>(shardID, shardBlkHash). shardToBeaconKeyPrefix @ [shardID] @ shardBlkHash)"

definition StoreAcceptedShardToBeacon :: "'s leveldb \<Rightarrow> byte \<Rightarrow> uint64 \<Rightarrow> hash \<Rightarrow> 's \<Rightarrow> 's stored" where
  "StoreAcceptedShardToBeacon D shardID blkHeight shardBlkHash s =
     db_Put D (shardToBeaconKey (shardID, shardBlkHash)) (Uint64ToBytes blkHeight) s"

definition HasAcceptedShardToBeacon :: "'s leveldb \<Rightarrow> byte \<Rightarrow> hash \<Rightarrow> 's \<Rightarrow> db_error option" where
  "HasAcceptedShardToBeacon D shardID shardBlkHash s =
     (if HasValue D (shardToBeaconKey (shardID, shardBlkHash)) s = Inr True then None else Some BlockExisted)"

definition GetAcceptedShardToBeacon :: "'s leveldb \<Rightarrow> byte \<Rightarrow> hash \<Rightarrow> 's \<Rightarrow> db_error + uint64" where
  "GetAcceptedShardToBeacon D shardID shardBlkHash s =
     (case db_Get D (shardToBeaconKey (shardID, shardBlkHash)) s of Inl _ \<Rightarrow> Inl UnexpectedError | Inr b \<Rightarrow> read_uint64 b)"

definition committeeHeightKey :: "uint64 \<Rightarrow> bytes" where
  "committeeHeightKey h = beaconPrefix @ shardIDPrefix @ committeePrefix @ Uint64ToBytes h"

definition committeeEpochKey :: "uint64 \<Rightarrow> bytes" where
  "committeeEpochKey e = beaconPrefix @ shardIDPrefix @ committeePrefix @ epochPrefix @ Uint64ToBytes e"

definition StoreCommitteeByHeight :: "'s leveldb \<Rightarrow> uint64 \<Rightarrow> bytes option \<Rightarrow> 's \<Rightarrow> 's stored" where
  "StoreCommitteeByHeight D blkHeight json s =
     (case json of None \<Rightarrow> (s, Some UnexpectedError) | Some val \<Rightarrow> db_Put D (committeeHeightKey blkHeight) val s)"

definition FetchCommitteeByHeight :: "'s leveldb \<Rightarrow> uint64 \<Rightarrow> 's \<Rightarrow> db_error + bytes" where
  "FetchCommitteeByHeight D blkHeight s = get_wrapped D (committeeHeightKey blkHeight) s"

definition StoreCommitteeByEpoch :: "'s leveldb \<Rightarrow> uint64 \<Rightarrow> bytes option \<Rightarrow> 's \<Rightarrow> 's stored" where
  "StoreCommitteeByEpoch D blkEpoch json s =
     (case json of None \<Rightarrow> (s, Some UnexpectedError) | Some val \<Rightarrow> db_Put D (committeeEpochKey blkEpoch) val s)"

definition FetchCommitteeByEpoch :: "'s leveldb \<Rightarrow> uint64 \<Rightarrow> 's \<Rightarrow> db_error + bytes" where
  "FetchCommitteeByEpoch D blkEpoch s = get_wrapped D (committeeEpochKey blkEpoch) s"

definition HasCommitteeByEpoch :: "'s leveldb \<Rightarrow> uint64 \<Rightarrow> 's \<Rightarrow> db_error + bool" where
  "HasCommitteeByEpoch D blkEpoch s =
     (case ldb_Has D (committeeEpochKey blkEpoch) s of None \<Rightarrow> Inl UnexpectedError | Some exist \<Rightarrow> Inr exist)"

section \<open>The tables\<close>

lemma Uint64ToBytes_inject [simp]: "Uint64ToBytes a = Uint64ToBytes b \<longleftrightarrow> a = b"
  using u64.enc_inject by simp

lemma length_Uint64ToBytes [simp]: "length (Uint64ToBytes a) = 8"
  using u64.length_enc by simp

interpretation ncsh: db_table nextCrossShardKey "\<lambda>_. True"
  by unfold_locales (auto simp: nextCrossShardKey_def)

interpretation stb: db_table shardToBeaconKey "\<lambda>_. True"
  by unfold_locales (auto simp: shardToBeaconKey_def)

interpretation comh: db_table committeeHeightKey "\<lambda>_. True"
  by unfold_locales (auto simp: committeeHeightKey_def)

interpretation come: db_table committeeEpochKey "\<lambda>_. True"
  by unfold_locales (auto simp: committeeEpochKey_def)

text \<open>The index table holds two kinds of entries: heights under 32-byte hashes, hashes under 8-byte heights.\<close>

interpretation beai: db_table beaconIndexKey "\<lambda>_. True"
  by unfold_locales (auto simp: beaconIndexKey_def)

lemma index_hash_height [simp]: "wf_hash h \<Longrightarrow> h \<noteq> Uint64ToBytes i" "wf_hash h \<Longrightarrow> Uint64ToBytes i \<noteq> h"
  by (auto simp: wf_hash_def HashSize_def dest: arg_cong [of _ _ length])

lemma hash_or_zero_wf [simp]: "wf_hash h \<Longrightarrow> hash_or_zero h = h"
  by (simp add: hash_or_zero_def Hash_SetBytes_def wf_hash_def)

lemma block_keys_distinct [simp]:
  "beaconBlockKey h \<noteq> blockKey h'" "blockKey h' \<noteq> beaconBlockKey h"
  by (auto simp: beaconBlockKey_def blockKey_def prefix_defs bytes_of_string_def)

end
