(* ===== verification/Shard_DB.thy ===== *)
theory Shard_DB
  imports Beacon_DB
begin

text \<open>
  \<open>src/database/lvdb/shard.go\<close>: the tables of the shard chains: blocks, their heights, the best
  state of each shard, and the cross-shard blocks received and sent. Values passed as \<open>interface{}\<close>
  are represented by their hash and their JSON text, as in the tables of the beacon chain.
\<close>

section \<open>Blocks\<close>

definition shardBlockKey :: "byte \<times> hash \<Rightarrow> bytes" where
  "shardBlockKey = (\<lambda>(shardID, hash). shardIDPrefix @ [shardID] @ blockKeyPrefix @ hash)"

definition StoreShardBlockHeader :: "'s leveldb \<Rightarrow> bytes option \<Rightarrow> hash \<Rightarrow> byte \<Rightarrow> 's \<Rightarrow> 's stored" where
  "StoreShardBlockHeader D json hash shardID s =
     (if HasValue D (shardBlockKey (shardID, hash)) s = Inr True then (s, Some BlockExisted)
      else case json of
        None \<Rightarrow> (s, Some UnexpectedError)
      | Some val \<Rightarrow> andStore (db_Put D (shardBlockKey (shardID, hash)) (blockKey hash) s) (db_Put D (blockKey hash) val))"

definition StoreShardBlock :: "'s leveldb \<Rightarrow> hash option \<Rightarrow> bytes option \<Rightarrow> byte \<Rightarrow> 's \<Rightarrow> 's stored" where
  "StoreShardBlock D h json shardID s =
     (case h of
        None \<Rightarrow> (s, Some NotImplHashMethod)
      | Some hash \<Rightarrow>
          if HasValue D (shardBlockKey (shardID, hash)) s = Inr True then (s, Some BlockExisted)
          else case json of
            None \<Rightarrow> (s, Some UnexpectedError)
          | Some val \<Rightarrow> andStore (db_Put D (shardBlockKey (shardID, hash)) (blockKey hash) s) (db_Put D (blockKey hash) val))"

definition HasBlock :: "'s leveldb \<Rightarrow> hash \<Rightarrow> 's \<Rightarrow> db_error + bool" where
  "HasBlock D hash s = HasValue D (GetKey blockKeyPrefix hash) s"

text \<open>Only \<open>ErrNotFound\<close> is reported: any other error gives an empty block and no error.\<close>

definition FetchBlock :: "'s leveldb \<Rightarrow> hash \<Rightarrow> 's \<Rightarrow> db_error + bytes" where
  "FetchBlock D hash s =
     (case ldb_Get D (GetKey blockKeyPrefix hash) s of
        Inl ErrNotFound \<Rightarrow> Inl UnexpectedError
      | Inl LvdbFailure \<Rightarrow> Inr []
      | Inr block \<Rightarrow> Inr block)"

text \<open>The 9-byte key of a height: the height, then the shard.\<close>

definition heightKey :: "uint64 \<times> byte \<Rightarrow> bytes" where
  "heightKey = (\<lambda>(idx, shardID). Uint64ToBytes idx @ [shardID])"

definition DeleteBlock :: "'s leveldb \<Rightarrow> hash \<Rightarrow> uint64 \<Rightarrow> byte \<Rightarrow> 's \<Rightarrow> 's stored" where
  "DeleteBlock D hash idx shardID s =
     andStore (db_Delete D (GetKey blockKeyPrefix hash) s) (\<lambda>s.
     andStore (db_Delete D (GetKey blockKeyIdxPrefix hash) s) (\<lambda>s.
     db_Delete D (heightKey (idx, shardID)) s))"

section \<open>Best states\<close>

definition bestStateKey :: "byte \<Rightarrow> bytes" where "bestStateKey shardID = bestBlockKey @ [shardID]"

definition StoreShardBestState :: "'s leveldb \<Rightarrow> bytes option \<Rightarrow> byte \<Rightarrow> 's \<Rightarrow> 's stored" where
  "StoreShardBestState D json shardID s =
     (case json of None \<Rightarrow> (s, Some UnexpectedError) | Some val \<Rightarrow> db_Put D (bestStateKey shardID) val s)"

definition FetchShardBestState :: "'s leveldb \<Rightarrow> byte \<Rightarrow> 's \<Rightarrow> db_error + bytes" where
  "FetchShardBestState D shardID s =
     (case db_Get D (bestStateKey shardID) s of Inl _ \<Rightarrow> Inl UnexpectedError | Inr block \<Rightarrow> Inr block)"

fun clean_best_states :: "'s leveldb \<Rightarrow> byte list \<Rightarrow> 's \<Rightarrow> 's stored" where
  "clean_best_states D [] s = (s, None)"
| "clean_best_states D (shardID # ids) s = andStore (db_Delete D (bestStateKey shardID) s) (clean_best_states D ids)"

definition CleanShardBestState :: "'s leveldb \<Rightarrow> 's \<Rightarrow> 's stored" where
  "CleanShardBestState D s = clean_best_states D (map of_nat [0..<MAX_SHARD_NUMBER]) s"

section \<open>Heights\<close>

definition StoreShardBlockIndex :: "'s leveldb \<Rightarrow> hash \<Rightarrow> uint64 \<Rightarrow> byte \<Rightarrow> 's \<Rightarrow> 's stored" where
  "StoreShardBlockIndex D h idx shardID s =
     andStore (db_Put D (GetKey blockKeyIdxPrefix h) (heightKey (idx, shardID)) s) (db_Put D (heightKey (idx, shardID)) h)"

definition GetIndexOfBlock :: "'s leveldb \<Rightarrow> hash \<Rightarrow> 's \<Rightarrow> fault + db_error + uint64 \<times> byte" where
  "GetIndexOfBlock D h s =
     (case get_wrapped D (GetKey blockKeyIdxPrefix h) s of
        Inl e \<Rightarrow> Inr (Inl e)
      | Inr b \<Rightarrow> andThen (BytesToUint64 b) (\<lambda>idx.
          case drop 8 b of [] \<Rightarrow> Inr (Inl UnexpectedError) | shardID # _ \<Rightarrow> Inr (Inr (idx, shardID))))"

definition GetBlockByIndex :: "'s leveldb \<Rightarrow> uint64 \<Rightarrow> byte \<Rightarrow> 's \<Rightarrow> db_error + hash" where
  "GetBlockByIndex D idx shardID s =
     (case get_wrapped D (heightKey (idx, shardID)) s of
        Inl e \<Rightarrow> Inl e
      | Inr b \<Rightarrow> (case Hash_SetBytes zero_hash b of Inl _ \<Rightarrow> Inl UnexpectedError | Inr h \<Rightarrow> Inr h))"

section \<open>Cross-shard blocks\<close>

definition incomingKey :: "byte \<times> byte \<times> hash \<Rightarrow> bytes" where
  "incomingKey = (\<lambda>(shardID, crossShardID, crossBlkHash). crossShardKeyPrefix @ [shardID] @ [crossShardID] @ crossBlkHash)"

definition StoreIncomingCrossShard :: "'s leveldb \<Rightarrow> byte \<Rightarrow> byte \<Rightarrow> uint64 \<Rightarrow> hash \<Rightarrow> 's \<Rightarrow> 's stored" where
  "StoreIncomingCrossShard D shardID crossShardID blkHeight crossBlkHash s =
     (if HasValue D (incomingKey (shardID, crossShardID, crossBlkHash)) s = Inr True then (s, Some BlockExisted)
      else db_Put D (incomingKey (shardID, crossShardID, crossBlkHash)) (Uint64ToBytes blkHeight) s)"

definition HasIncomingCrossShard :: "'s leveldb \<Rightarrow> byte \<Rightarrow> byte \<Rightarrow> hash \<Rightarrow> 's \<Rightarrow> db_error option" where
  "HasIncomingCrossShard D shardID crossShardID crossBlkHash s =
     (if HasValue D (incomingKey (shardID, crossShardID, crossBlkHash)) s = Inr True then None else Some BlockExisted)"

definition GetIncomingCrossShard :: "'s leveldb \<Rightarrow> byte \<Rightarrow> byte \<Rightarrow> hash \<Rightarrow> 's \<Rightarrow> db_error + uint64" where
  "GetIncomingCrossShard D shardID crossShardID crossBlkHash s =
     (case db_Get D (incomingKey (shardID, crossShardID, crossBlkHash)) s of
        Inl _ \<Rightarrow> Inl UnexpectedError | Inr b \<Rightarrow> read_uint64 b)"

definition outgoingKey :: "byte \<times> uint64 \<times> byte \<Rightarrow> bytes" where
  "outgoingKey = (\<lambda>(shardID, blkHeight, crossShardID). crossShardKeyPrefix @ [shardID] @ Uint64ToBytes blkHeight @ [crossShardID])"

definition StoreOutgoingCrossShard ::
  "'s leveldb \<Rightarrow> byte \<Rightarrow> byte \<Rightarrow> uint64 \<Rightarrow> hash option \<Rightarrow> bytes option \<Rightarrow> 's \<Rightarrow> 's stored" where
  "StoreOutgoingCrossShard D shardID crossShardID blkHeight h json s =
     (if h = None then (s, Some NotImplHashMethod)
      else if HasValue D (outgoingKey (shardID, blkHeight, crossShardID)) s = Inr True then (s, Some BlockExisted)
      else case json of
        None \<Rightarrow> (s, Some UnexpectedError)
      | Some val \<Rightarrow> db_Put D (outgoingKey (shardID, blkHeight, crossShardID)) val s)"

definition HasOutgoingCrossShard :: "'s leveldb \<Rightarrow> byte \<Rightarrow> byte \<Rightarrow> uint64 \<Rightarrow> 's \<Rightarrow> db_error option" where
  "HasOutgoingCrossShard D shardID crossShardID blkHeight s =
     (if HasValue D (outgoingKey (shardID, blkHeight, crossShardID)) s = Inr True then None else Some BlockExisted)"

definition GetOutgoingCrossShard :: "'s leveldb \<Rightarrow> byte \<Rightarrow> byte \<Rightarrow> uint64 \<Rightarrow> 's \<Rightarrow> db_error + bytes" where
  "GetOutgoingCrossShard D shardID crossShardID blkHeight s =
     (case db_Get D (outgoingKey (shardID, blkHeight, crossShardID)) s of Inl _ \<Rightarrow> Inl UnexpectedError | Inr block \<Rightarrow> Inr block)"

section \<open>The tables\<close>

lemma GetKey_block [simp]:
  "GetKey blockKeyPrefix h = blockKey h" "GetKey blockKeyIdxPrefix h = blockKeyIdxPrefix @ h"
  by (simp_all add: GetKey_def blockKey_def prefix_defs bytes_of_string_def)

interpretation sblk: db_table shardBlockKey "\<lambda>_. True"
  by unfold_locales (auto simp: shardBlockKey_def)

interpretation shgt: db_table heightKey "\<lambda>_. True"
  by unfold_locales (auto simp: heightKey_def)

interpretation sbest: db_table bestStateKey "\<lambda>_. True"
  by unfold_locales (auto simp: bestStateKey_def)

interpretation sinc: db_table incomingKey "\<lambda>_. True"
  by unfold_locales (auto simp: incomingKey_def)

interpretation sout: db_table outgoingKey "\<lambda>_. True"
  by unfold_locales (auto simp: outgoingKey_def)

end
