(* ===== verification/Tx_DB.thy ===== *)
theory Tx_DB
  imports Level_DB Go_Strings
begin

text \<open>
  \<open>src/database/lvdb/tx.go\<close>: serial numbers (spent coins), output coins, commitments with their
  indices, serial number derivators, the state of the fee estimator and the block a transaction is
  in. Lists are stored as the JSON text of a \<open>[][]byte\<close>.
\<close>

section \<open>Helpers\<close>

text \<open>A \<open>Put\<close> whose error is returned as it is.\<close>

definition raw_Put :: "'s leveldb \<Rightarrow> bytes \<Rightarrow> bytes \<Rightarrow> 's \<Rightarrow> 's stored" where
  "raw_Put D key value s = (case ldb_Put D key value s of None \<Rightarrow> (s, Some RawError) | Some s' \<Rightarrow> (s', None))"

definition json_list :: "bytes list \<Rightarrow> bytes" where
  "json_list bss = bytes_of_string (json_bytes_list bss)"

text \<open>Reading a stored list: nothing stored is the empty list; \<open>bad\<close> is the error of a text that does not parse.\<close>

definition load_list :: "'s leveldb \<Rightarrow> db_error \<Rightarrow> bytes \<Rightarrow> 's \<Rightarrow> db_error + bytes list" where
  "load_list D bad key s =
     (let parse = (\<lambda>res. if length res > 0
                         then (case json_read_bytes_list (string_of_bytes res) of None \<Rightarrow> Inl bad | Some l \<Rightarrow> Inr l)
                         else Inr []) in
      case ldb_Get D key s of
        Inl ErrNotFound \<Rightarrow> Inr []
      | Inl LvdbFailure \<Rightarrow> Inl UnexpectedError
      | Inr res \<Rightarrow> parse res)"

text \<open>\<open>big.Int.Bytes\<close> of an index, with one zero byte for the index 0.\<close>

definition index_bytes :: "nat \<Rightarrow> bytes" where
  "index_bytes n = (if n = 0 then [0] else be_bytes n)"

text \<open>The loop that deletes every key under a prefix.\<close>

fun delete_all :: "'s leveldb \<Rightarrow> bytes list \<Rightarrow> 's \<Rightarrow> 's stored" where
  "delete_all D [] s = (s, None)"
| "delete_all D (k # ks) s = andStore (db_Delete D k s) (delete_all D ks)"

definition clean_prefix :: "'s leveldb \<Rightarrow> bytes \<Rightarrow> 's \<Rightarrow> 's stored" where
  "clean_prefix D pre s =
     (let (kvs, err) = ldb_Iterate D pre s
      in andStore (delete_all D (map fst kvs) s) (\<lambda>s'. if err then (s', Some UnexpectedError) else (s', None)))"

section \<open>Serial numbers\<close>

definition serialKey :: "hash \<times> byte \<Rightarrow> bytes" where
  "serialKey = (\<lambda>(tokenID, shardID). GetKey serialNumbersPrefix tokenID @ [shardID])"

definition StoreSerialNumbers :: "'s leveldb \<Rightarrow> hash \<Rightarrow> bytes \<Rightarrow> byte \<Rightarrow> 's \<Rightarrow> 's stored" where
  "StoreSerialNumbers D tokenID serialNumber shardID s =
     (let key = serialKey (tokenID, shardID) in
      case load_list D UnexpectedError key s of
        Inl e \<Rightarrow> (s, Some e)
      | Inr arrayData \<Rightarrow>
          andStore (raw_Put D (key @ serialNumber) (index_bytes (length arrayData)) s)
            (raw_Put D key (json_list (arrayData @ [serialNumber]))))"

definition FetchSerialNumbers :: "'s leveldb \<Rightarrow> hash \<Rightarrow> byte \<Rightarrow> 's \<Rightarrow> db_error + bytes list" where
  "FetchSerialNumbers D tokenID shardID s = load_list D RawError (serialKey (tokenID, shardID)) s"

definition HasSerialNumber :: "'s leveldb \<Rightarrow> hash \<Rightarrow> bytes \<Rightarrow> byte \<Rightarrow> 's \<Rightarrow> bool" where
  "HasSerialNumber D tokenID serialNumber shardID s =
     (case db_Get D (serialKey (tokenID, shardID) @ serialNumber) s of Inl _ \<Rightarrow> False | Inr _ \<Rightarrow> True)"

definition CleanSerialNumbers :: "'s leveldb \<Rightarrow> 's \<Rightarrow> 's stored" where
  "CleanSerialNumbers D s = clean_prefix D serialNumbersPrefix s"

section \<open>Output coins\<close>

definition outcoinKey :: "hash \<times> byte \<times> bytes \<Rightarrow> bytes" where
  "outcoinKey = (\<lambda>(tokenID, shardID, pubkey). GetKey outcoinsPrefix tokenID @ [shardID] @ pubkey)"

definition StoreOutputCoins :: "'s leveldb \<Rightarrow> hash \<Rightarrow> bytes \<Rightarrow> bytes \<Rightarrow> byte \<Rightarrow> 's \<Rightarrow> 's stored" where
  "StoreOutputCoins D tokenID pubkey outputcoin shardID s =
     (let key = outcoinKey (tokenID, shardID, pubkey) in
      case load_list D UnexpectedError key s of
        Inl e \<Rightarrow> (s, Some e)
      | Inr arr \<Rightarrow> raw_Put D key (json_list (arr @ [outputcoin])) s)"

definition GetOutcoinsByPubkey :: "'s leveldb \<Rightarrow> hash \<Rightarrow> bytes \<Rightarrow> byte \<Rightarrow> 's \<Rightarrow> db_error + bytes list" where
  "GetOutcoinsByPubkey D tokenID pubkey shardID s = load_list D UnexpectedError (outcoinKey (tokenID, shardID, pubkey)) s"

section \<open>Commitments\<close>

definition commitmentKey :: "hash \<times> byte \<Rightarrow> bytes" where
  "commitmentKey = (\<lambda>(tokenID, shardID). GetKey commitmentsPrefix tokenID @ [shardID])"

definition len_suffix :: bytes where "len_suffix = bytes_of_string ''len''"

definition StoreCommitments :: "'s leveldb \<Rightarrow> hash \<Rightarrow> bytes \<Rightarrow> bytes \<Rightarrow> byte \<Rightarrow> 's \<Rightarrow> 's stored" where
  "StoreCommitments D tokenID pubkey commitments shardID s =
     (let key = commitmentKey (tokenID, shardID) in
      case load_list D UnexpectedError key s of
        Inl e \<Rightarrow> (s, Some e)
      | Inr arrData \<Rightarrow>
          let newIndex = index_bytes (length arrData) in
          andStore (raw_Put D (key @ newIndex) commitments s) (\<lambda>s.
          andStore (raw_Put D (key @ commitments) newIndex s) (\<lambda>s.
          andStore (raw_Put D (key @ len_suffix) newIndex s) (\<lambda>s.
          case load_list D UnexpectedError (key @ pubkey) s of
            Inl e \<Rightarrow> (s, Some e)
          | Inr byPubkey \<Rightarrow>
              andStore (raw_Put D (key @ pubkey) (json_list (byPubkey @ [newIndex])) s) (\<lambda>s.
              raw_Put D key (json_list (arrData @ [commitments])) s)))))"

definition FetchCommitments :: "'s leveldb \<Rightarrow> hash \<Rightarrow> byte \<Rightarrow> 's \<Rightarrow> db_error + bytes list" where
  "FetchCommitments D tokenID shardID s = load_list D UnexpectedError (commitmentKey (tokenID, shardID)) s"

definition HasCommitment :: "'s leveldb \<Rightarrow> hash \<Rightarrow> bytes \<Rightarrow> byte \<Rightarrow> 's \<Rightarrow> bool" where
  "HasCommitment D tokenID commitment shardID s =
     (case db_Get D (commitmentKey (tokenID, shardID) @ commitment) s of Inl _ \<Rightarrow> False | Inr _ \<Rightarrow> True)"

text \<open>For the index 0, \<open>big.Int.Bytes\<close> is empty: the key of the list itself is looked up.\<close>

definition HasCommitmentIndex :: "'s leveldb \<Rightarrow> hash \<Rightarrow> uint64 \<Rightarrow> byte \<Rightarrow> 's \<Rightarrow> db_error + bool" where
  "HasCommitmentIndex D tokenID commitmentIndex shardID s =
     (case db_Get D (commitmentKey (tokenID, shardID) @ be_bytes (unat commitmentIndex)) s of Inl e \<Rightarrow> Inl e | Inr _ \<Rightarrow> Inr True)"

definition GetCommitmentByIndex :: "'s leveldb \<Rightarrow> hash \<Rightarrow> uint64 \<Rightarrow> byte \<Rightarrow> 's \<Rightarrow> db_error + bytes" where
  "GetCommitmentByIndex D tokenID commitmentIndex shardID s =
     db_Get D (commitmentKey (tokenID, shardID) @
       (if commitmentIndex = 0 then [0] else be_bytes (unat commitmentIndex))) s"

definition GetCommitmentIndex :: "'s leveldb \<Rightarrow> hash \<Rightarrow> bytes \<Rightarrow> byte \<Rightarrow> 's \<Rightarrow> db_error + nat" where
  "GetCommitmentIndex D tokenID commitment shardID s =
     (case db_Get D (commitmentKey (tokenID, shardID) @ commitment) s of Inl e \<Rightarrow> Inl e | Inr data \<Rightarrow> Inr (be_val data))"

definition GetCommitmentLength :: "'s leveldb \<Rightarrow> hash \<Rightarrow> byte \<Rightarrow> 's \<Rightarrow> db_error + nat" where
  "GetCommitmentLength D tokenID shardID s =
     (case db_Get D (commitmentKey (tokenID, shardID) @ len_suffix) s of Inl e \<Rightarrow> Inl e | Inr data \<Rightarrow> Inr (be_val data + 1))"

definition GetCommitmentIndexsByPubkey :: "'s leveldb \<Rightarrow> hash \<Rightarrow> bytes \<Rightarrow> byte \<Rightarrow> 's \<Rightarrow> db_error + bytes list" where
  "GetCommitmentIndexsByPubkey D tokenID pubkey shardID s =
     load_list D UnexpectedError (commitmentKey (tokenID, shardID) @ pubkey) s"

definition CleanCommitments :: "'s leveldb \<Rightarrow> 's \<Rightarrow> 's stored" where
  "CleanCommitments D s = clean_prefix D commitmentsPrefix s"

section \<open>Derivators, the fee estimator, transaction locations\<close>

definition derivatorKey :: "hash \<times> byte \<times> bytes \<Rightarrow> bytes" where
  "derivatorKey = (\<lambda>(tokenID, shardID, data). GetKey snderivatorsPrefix tokenID @ [shardID] @ data)"

definition StoreSNDerivators :: "'s leveldb \<Rightarrow> hash \<Rightarrow> bytes \<Rightarrow> byte \<Rightarrow> 's \<Rightarrow> 's stored" where
  "StoreSNDerivators D tokenID data shardID s =
     (if ldb_Get D (derivatorKey (tokenID, shardID, [])) s = Inl LvdbFailure then (s, Some UnexpectedError)
      else raw_Put D (derivatorKey (tokenID, shardID, data)) [] s)"

definition HasSNDerivator :: "'s leveldb \<Rightarrow> hash \<Rightarrow> bytes \<Rightarrow> byte \<Rightarrow> 's \<Rightarrow> bool" where
  "HasSNDerivator D tokenID data shardID s =
     (case db_Get D (derivatorKey (tokenID, shardID, data)) s of Inl _ \<Rightarrow> False | Inr _ \<Rightarrow> True)"

definition CleanSNDerivator :: "'s leveldb \<Rightarrow> 's \<Rightarrow> 's stored" where
  "CleanSNDerivator D s = clean_prefix D snderivatorsPrefix s"

definition feeKey :: "byte \<Rightarrow> bytes" where "feeKey shardID = feeEstimator @ [shardID]"

definition StoreFeeEstimator :: "'s leveldb \<Rightarrow> bytes \<Rightarrow> byte \<Rightarrow> 's \<Rightarrow> 's stored" where
  "StoreFeeEstimator D val shardID s = db_Put D (feeKey shardID) val s"

definition GetFeeEstimator :: "'s leveldb \<Rightarrow> byte \<Rightarrow> 's \<Rightarrow> db_error + bytes" where
  "GetFeeEstimator D shardID s = get_wrapped D (feeKey shardID) s"

definition CleanFeeEstimator :: "'s leveldb \<Rightarrow> 's \<Rightarrow> 's stored" where
  "CleanFeeEstimator D s = clean_prefix D feeEstimator s"

definition txKey :: "hash \<Rightarrow> bytes" where
  "txKey txId = bytes_of_string (''tx-'' @ Hash_String txId)"

definition StoreTransactionIndex :: "'s leveldb \<Rightarrow> hash \<Rightarrow> hash \<Rightarrow> int \<Rightarrow> 's \<Rightarrow> 's stored" where
  "StoreTransactionIndex D txId blockHash i s =
     raw_Put D (txKey txId) (bytes_of_string (Hash_String blockHash @ ''-[-]-'' @ itoa i)) s"

definition GetTransactionIndexById :: "'s leveldb \<Rightarrow> hash \<Rightarrow> 's \<Rightarrow> fault + db_error + hash \<times> int" where
  "GetTransactionIndexById D txId s =
     (case HasValue D (txKey txId) s of
        Inl _ \<Rightarrow> Inr (Inl ErrUnexpected)
      | Inr _ \<Rightarrow>
          (case db_Get D (txKey txId) s of
             Inl _ \<Rightarrow> Inr (Inl ErrUnexpected)
           | Inr res \<Rightarrow>
               let reses = split_str ''-[-]-'' (string_of_bytes res) in
               andThen (index reses 0) (\<lambda>r0.
               case NewHashFromStr r0 of
                 Inl _ \<Rightarrow> Inr (Inl ErrUnexpected)
               | Inr hash \<Rightarrow> andThen (index reses 1) (\<lambda>r1.
                   case atoi r1 of None \<Rightarrow> Inr (Inl ErrUnexpected) | Some i \<Rightarrow> Inr (Inr (hash, i))))))"

section \<open>Characters of numbers and hashes\<close>

lemma decimal_chars: "c \<in> set (decimal n) \<Longrightarrow> CHR ''0'' \<le> c \<and> c \<le> CHR ''9''"
proof (induction n rule: decimal.induct)
  case (1 n)
  show ?case
  proof (cases "n < 10")
    case True
    then show ?thesis using 1 digit_char [of n] by (subst (asm) decimal.simps) auto
  next
    case False
    then have "c \<in> set (decimal (n div 10)) \<or> c = char_of (48 + n mod 10)"
      using "1.prems" by (subst (asm) decimal.simps) auto
    then show ?thesis using False "1.IH" digit_char [of "n mod 10"] by auto
  qed
qed

lemma itoa_chars: "CHR ''['' \<notin> set (itoa i)"
  using decimal_chars [of "CHR ''[''"] by (auto simp: itoa_def less_eq_char_def)

lemma hex_char_all: "list_all (\<lambda>n. hex_char n \<noteq> CHR ''-'') [0..<16]"
  by code_simp

lemma Hash_String_chars: "CHR ''-'' \<notin> set (Hash_String h)"
proof -
  have "hex_char n \<noteq> CHR ''-''" if "n < 16" for n using hex_char_all that by (auto simp: list_all_iff)
  moreover have "unat b div 16 < 16" "unat b mod 16 < 16" for b :: byte using unat_byte_less [of b] by (simp_all add: less_mult_imp_div_less del: unat_byte_less)
  ultimately have "CHR ''-'' \<noteq> hex_char (unat b div 16)" "CHR ''-'' \<noteq> hex_char (unat b mod 16)" for b :: byte by metis+
  then show ?thesis by (simp add: Hash_String_def hex_encode_def)
qed

section \<open>Keys of a token and a shard\<close>

lemma bytes_of_string_inject [simp]: "bytes_of_string s = bytes_of_string t \<longleftrightarrow> s = t"
  by (metis string_of_bytes_of_string)

lemma length_bytes_of_string [simp]: "length (bytes_of_string s) = length s"
  by (simp add: bytes_of_string_def)

lemma hash_text_append:
  assumes "wf_hash a" and "wf_hash b"
  shows "bytes_of_string (Hash_String a) @ x = bytes_of_string (Hash_String b) @ y \<longleftrightarrow> a = b \<and> x = y"
  using assms by (auto simp: append_eq_append_conv hash_str.length_enc hash_str.enc_inject)

text \<open>A table whose keys are a prefix, the text of a token, a shard, and a free part at the end.\<close>

locale token_table =
  fixes pre :: bytes
  assumes GetKey_pre: "GetKey pre h = pre @ bytes_of_string (Hash_String h)"
begin

lemma token_key_inject:
  assumes "wf_hash a" and "wf_hash b"
  shows "GetKey pre a @ s # x = GetKey pre b @ t # y \<longleftrightarrow> a = b \<and> s = t \<and> x = y"
  using assms by (auto simp: GetKey_pre hash_text_append)

lemma token_key_suffix [simp]:
  "GetKey pre a @ s # x = GetKey pre a @ t # y \<longleftrightarrow> s = t \<and> x = y"
  by auto

end

interpretation serial: token_table serialNumbersPrefix
  by unfold_locales (simp add: GetKey_def prefix_defs bytes_of_string_def)

interpretation coins: token_table outcoinsPrefix
  by unfold_locales (simp add: GetKey_def prefix_defs bytes_of_string_def)

interpretation comm: token_table commitmentsPrefix
  by unfold_locales (simp add: GetKey_def prefix_defs bytes_of_string_def)

interpretation deriv: token_table snderivatorsPrefix
  by unfold_locales (simp add: GetKey_def prefix_defs bytes_of_string_def)

interpretation outcoin_table: db_table outcoinKey "\<lambda>(tokenID, _, _). wf_hash tokenID"
  by unfold_locales (auto simp: outcoinKey_def coins.token_key_inject)

interpretation derivator_table: db_table derivatorKey "\<lambda>(tokenID, _, _). wf_hash tokenID"
  by unfold_locales (auto simp: derivatorKey_def deriv.token_key_inject)

section \<open>Lists and stores\<close>

lemma stores_raw_Put: "leveldb_spec D \<Longrightarrow> stores D (raw_Put D k v s) ((ldb_lookup D s)(k \<mapsto> v))"
  by (rule lookup_Put [of D k v s]) (auto simp: stores_def raw_Put_def)

lemma load_list_lookup:
  assumes "leveldb_spec D"
  shows "load_list D bad key s = (case ldb_lookup D s key of
     None \<Rightarrow> Inr []
   | Some res \<Rightarrow> if res = [] then Inr []
       else case json_read_bytes_list (string_of_bytes res) of None \<Rightarrow> Inl bad | Some l \<Rightarrow> Inr l)"
  using assms by (simp add: load_list_def ldb_Get_lookup split: option.splits)

lemma json_list_ne [simp]: "json_list l \<noteq> []"
  by (simp add: json_list_def json_bytes_list_def bytes_of_string_def)

lemma load_list_json [simp]:
  "leveldb_spec D \<Longrightarrow> ldb_lookup D s key = Some (json_list l) \<Longrightarrow> load_list D bad key s = Inr l"
  by (simp add: load_list_lookup) (simp add: json_list_def json_read_bytes_list_json)

lemma load_list_none [simp]: "leveldb_spec D \<Longrightarrow> ldb_lookup D s key = None \<Longrightarrow> load_list D bad key s = Inr []"
  by (simp add: load_list_lookup)

lemma load_list_cong:
  "leveldb_spec D \<Longrightarrow> ldb_lookup D s' key = ldb_lookup D s key \<Longrightarrow> load_list D bad key s' = load_list D bad key s"
  by (simp add: load_list_lookup)

lemma load_list_bad: "leveldb_spec D \<Longrightarrow> load_list D bad key s = Inr l \<longleftrightarrow> load_list D bad' key s = Inr l"
  by (simp add: load_list_lookup split: option.splits)

lemma be_val_index_bytes [simp]: "be_val (index_bytes n) = n"
  by (simp add: index_bytes_def be_val_be_bytes be_val_Cons)

lemma index_bytes_inject [simp]: "index_bytes m = index_bytes n \<longleftrightarrow> m = n"
  by (metis be_val_index_bytes)

section \<open>Serial numbers\<close>

lemma stores_serial:
  assumes "leveldb_spec D" and "load_list D UnexpectedError (serialKey (tok, sh)) s = Inr L"
  shows "stores D (StoreSerialNumbers D tok sn sh s)
    ((ldb_lookup D s)(serialKey (tok, sh) @ sn \<mapsto> index_bytes (length L), serialKey (tok, sh) \<mapsto> json_list (L @ [sn])))"
  unfolding StoreSerialNumbers_def Let_def assms(2) sum.case
  by (rule stores_andStore [OF stores_raw_Put [OF assms(1)]]) (metis stores_raw_Put [OF assms(1)])

lemma HasSerialNumber_lookup:
  "leveldb_spec D \<Longrightarrow> HasSerialNumber D tok sn sh s \<longleftrightarrow> ldb_lookup D s (serialKey (tok, sh) @ sn) \<noteq> None"
  by (simp add: HasSerialNumber_def db_simps split: option.splits)

section \<open>Commitments\<close>

text \<open>
  What the entries of a token and shard are when \<open>L\<close> is the list of commitments stored so far:
  the list, the commitment of every index, the index of every commitment, and the last index.
\<close>

definition commitments_ok :: "'s leveldb \<Rightarrow> hash \<Rightarrow> byte \<Rightarrow> bytes list \<Rightarrow> 's \<Rightarrow> bool" where
  "commitments_ok D tok sh L s \<longleftrightarrow>
     (let m = (\<lambda>x. ldb_lookup D s (commitmentKey (tok, sh) @ x)) in
      m [] = (if L = [] then None else Some (json_list L))
      \<and> m len_suffix = (if L = [] then None else Some (index_bytes (length L - 1)))
      \<and> (\<forall>i < length L. m (index_bytes i) = Some (L ! i))
      \<and> (\<forall>c \<in> set L. 8 < length c)
      \<and> (\<forall>c \<in> set L. \<exists>i < length L. m c = Some (index_bytes i) \<and> L ! i = c))"

lemma commitments_ok_index:
  assumes "commitments_ok D tok sh L s" and "c \<in> set L"
  shows "\<exists>i < length L. ldb_lookup D s (commitmentKey (tok, sh) @ c) = Some (index_bytes i) \<and> L ! i = c"
  using assms unfolding commitments_ok_def Let_def by (elim conjE) (rule bspec)

text \<open>An index whose bytes spell \<open>len\<close> shares its key with the entry of the last index.\<close>

lemma index_bytes_len: "index_bytes n = len_suffix \<longleftrightarrow> n = 7103854"
proof -
  have "be_val len_suffix = 7103854"
    by (simp add: len_suffix_def bytes_of_string_def be_val_def of_char_def)
  moreover have "index_bytes 7103854 = len_suffix"
    by (simp add: index_bytes_def be_bytes_def len_suffix_def bytes_of_string_def digits_of.simps of_char_def)
  ultimately show ?thesis by (metis be_val_index_bytes)
qed

lemma digits_of_length: "n < 256 ^ k \<Longrightarrow> length (digits_of 256 n) \<le> k"
proof (induction k arbitrary: n)
  case 0
  then show ?case by (simp add: digits_of.simps)
next
  case (Suc k)
  then have "n div 256 < 256 ^ k" by (simp add: less_mult_imp_div_less mult.commute)
  then show ?case using Suc.IH [of "n div 256"] by (subst digits_of.simps) simp
qed

lemma length_index_bytes: "n < 2 ^ 64 \<Longrightarrow> length (index_bytes n) \<le> 8 \<and> index_bytes n \<noteq> []"
  using digits_of_length [of n 8] by (auto simp: index_bytes_def be_bytes_def digits_of.simps [of 256 n])

lemma stores_commitments:
  assumes D: "leveldb_spec D" and "commitments_ok D tok sh L s"
    and "pk \<noteq> []" and "pk \<noteq> c" and "pk \<noteq> len_suffix" and "pk \<noteq> index_bytes (length L)"
    and "load_list D UnexpectedError (commitmentKey (tok, sh) @ pk) s = Inr byPk"
  shows "stores D (StoreCommitments D tok pk c sh s)
    ((ldb_lookup D s)(commitmentKey (tok, sh) @ index_bytes (length L) \<mapsto> c,
       commitmentKey (tok, sh) @ c \<mapsto> index_bytes (length L),
       commitmentKey (tok, sh) @ len_suffix \<mapsto> index_bytes (length L),
       commitmentKey (tok, sh) @ pk \<mapsto> json_list (byPk @ [index_bytes (length L)]),
       commitmentKey (tok, sh) \<mapsto> json_list (L @ [c])))"
proof -
  let ?k = "commitmentKey (tok, sh)"
  have L: "load_list D UnexpectedError ?k s = Inr L"
    using assms(1,2) by (cases "L = []") (simp_all add: commitments_ok_def Let_def)
  have put: "ldb_lookup D s' = m \<Longrightarrow> stores D (raw_Put D key v s') (m(key \<mapsto> v))" for s' m key v
    using stores_raw_Put [OF D] by auto
  have pk: "load_list D UnexpectedError (?k @ pk) s' = Inr byPk"
    if "ldb_lookup D s' = (ldb_lookup D s)(?k @ index_bytes (length L) \<mapsto> c, ?k @ c \<mapsto> index_bytes (length L),
       ?k @ len_suffix \<mapsto> index_bytes (length L))" for s'
  proof -
    have "ldb_lookup D s' (?k @ pk) = ldb_lookup D s (?k @ pk)" using that assms(4-6) by simp
    then show ?thesis using load_list_cong [OF D, of s' "?k @ pk" s] assms(7) by simp
  qed
  show ?thesis
    unfolding StoreCommitments_def Let_def L sum.case
    by (rule stores_andStore [OF put [OF refl]], rule stores_andStore [OF put], assumption,
        rule stores_andStore [OF put], assumption, simp only: pk sum.case,
        rule stores_andStore [OF put], assumption, rule put, assumption)
qed


lemma commitments_ok_store:
  assumes D: "leveldb_spec D" and ok: "commitments_ok D tok sh L s"
    and c: "8 < length c" and pk: "8 < length pk" and pkL: "pk \<notin> set (L @ [c])"
    and L: "length L < 7103854"
    and byPk: "load_list D UnexpectedError (commitmentKey (tok, sh) @ pk) s = Inr byPk"
  obtains s' where "StoreCommitments D tok pk c sh s = (s', None)" "commitments_ok D tok sh (L @ [c]) s'"
    "load_list D UnexpectedError (commitmentKey (tok, sh) @ pk) s' = Inr (byPk @ [index_bytes (length L)])"
proof -
  let ?k = "commitmentKey (tok, sh)" and ?n = "index_bytes (length L)"
  have ix: "length (index_bytes i) \<le> 8" "index_bytes i \<noteq> []" "index_bytes i \<noteq> len_suffix" if "i \<le> length L" for i
    using length_index_bytes [of i] index_bytes_len [of i] L that by auto
  have len: "length len_suffix = 3" by (simp add: len_suffix_def)
  have neq: "pk \<noteq> []" "pk \<noteq> c" "pk \<noteq> len_suffix" "pk \<noteq> ?n" using pk pkL ix(1) [of "length L"] len by auto
  obtain s' where s': "StoreCommitments D tok pk c sh s = (s', None)"
    and m': "ldb_lookup D s' = (ldb_lookup D s)(?k @ ?n \<mapsto> c, ?k @ c \<mapsto> ?n, ?k @ len_suffix \<mapsto> ?n,
       ?k @ pk \<mapsto> json_list (byPk @ [?n]), ?k \<mapsto> json_list (L @ [c]))"
    using stores_commitments [OF D ok neq byPk] by (cases "StoreCommitments D tok pk c sh s") (auto simp: stores_def)
  have look: "ldb_lookup D s' (?k @ x) = (if x = [] then Some (json_list (L @ [c])) else if x = pk then Some (json_list (byPk @ [?n]))
      else if x = len_suffix then Some ?n else if x = c then Some ?n else if x = ?n then Some c else ldb_lookup D s (?k @ x))" for x
    by (simp add: m')
  have long: "x \<noteq> []" "x \<noteq> len_suffix" "x \<noteq> index_bytes i" if "8 < length x" "i \<le> length L" for x i
    using that ix(1) [of i] len by auto
  note old = ok [unfolded commitments_ok_def Let_def]
  have "commitments_ok D tok sh (L @ [c]) s'"
    unfolding commitments_ok_def Let_def
  proof (intro conjI ballI allI impI)
    show "ldb_lookup D s' (?k @ []) = (if L @ [c] = [] then None else Some (json_list (L @ [c])))" by (subst look) simp
    show "ldb_lookup D s' (?k @ len_suffix) = (if L @ [c] = [] then None else Some (index_bytes (length (L @ [c]) - 1)))"
      using neq len by (subst look) auto
  next
    fix i assume i: "i < length (L @ [c])"
    then have "index_bytes i \<noteq> []" "index_bytes i \<noteq> pk" "index_bytes i \<noteq> len_suffix" "index_bytes i \<noteq> c"
      using ix [of i] c pk by auto
    then show "ldb_lookup D s' (?k @ index_bytes i) = Some ((L @ [c]) ! i)"
      using i old by (subst look) (auto simp: nth_append)
  next
    fix x assume "x \<in> set (L @ [c])"
    then show "8 < length x" using old c by auto
  next
    fix x assume x: "x \<in> set (L @ [c])"
    then have x8: "8 < length x" using old c by auto
    have ne: "x \<noteq> pk" using x pkL by auto
    show "\<exists>i < length (L @ [c]). ldb_lookup D s' (?k @ x) = Some (index_bytes i) \<and> (L @ [c]) ! i = x"
    proof (cases "x = c")
      case True
      then show ?thesis using long [OF x8 le_refl] ne by (intro exI [of _ "length L"]) (subst look, simp)
    next
      case False
      then obtain i where i: "i < length L" "ldb_lookup D s (?k @ x) = Some (index_bytes i)" "L ! i = x" using x old by auto
      then show ?thesis using long [OF x8 le_refl] ne False
        by (intro exI [of _ i]) (subst look, simp add: nth_append)
    qed
  qed
  moreover have "load_list D UnexpectedError (?k @ pk) s' = Inr (byPk @ [?n])"
    using neq D by (intro load_list_json) (simp_all add: look)
  ultimately show ?thesis using s' by (intro that)
qed

section \<open>Cleaning\<close>

lemma stores_delete_all:
  assumes "leveldb_spec D"
  shows "stores D (delete_all D ks s) (\<lambda>k. if k \<in> set ks then None else ldb_lookup D s k)"
proof (induction ks arbitrary: s)
  case Nil
  then show ?case by (simp add: stores_def)
next
  case (Cons a ks)
  have "stores D (andStore (db_Delete D a s) (delete_all D ks)) (\<lambda>k. if k \<in> set (a # ks) then None else ldb_lookup D s k)"
  proof (rule stores_andStore [OF stores_db_Delete [OF assms]])
    fix s' assume s': "ldb_lookup D s' = (ldb_lookup D s)(a := None)"
    show "stores D (delete_all D ks s') (\<lambda>k. if k \<in> set (a # ks) then None else ldb_lookup D s k)"
      using Cons.IH [of s'] by (simp add: s' stores_def fun_eq_iff)
  qed
  then show ?case by simp
qed

lemma stores_clean_prefix:
  assumes "leveldb_spec D"
  shows "stores D (clean_prefix D pre s) (\<lambda>k. if prefix pre k then None else ldb_lookup D s k)"
proof -
  have e: "snd (ldb_Iterate D pre s) = False" using ldb_Iterate_lookup(1) [OF assms, of pre s] by simp
  have "k \<in> fst ` set (fst (ldb_Iterate D pre s)) \<longleftrightarrow> prefix pre k \<and> ldb_lookup D s k \<noteq> None" for k
    by (force simp: ldb_Iterate_lookup(3) [OF assms] image_iff)
  then have "stores D (delete_all D (map fst (fst (ldb_Iterate D pre s))) s) (\<lambda>k. if prefix pre k then None else ldb_lookup D s k)"
    using stores_delete_all [OF assms, of "map fst (fst (ldb_Iterate D pre s))" s] by (auto simp: stores_def fun_eq_iff)
  then show ?thesis
    unfolding clean_prefix_def by (cases "ldb_Iterate D pre s") (use e in \<open>auto simp: stores_def andStore_def split: prod.splits option.splits\<close>)
qed

lemma serial_recorded:
  assumes "leveldb_spec D" and "wf_hash tokenID" and "wf_hash tokenID'" and "sn \<noteq> []" and "sn' \<noteq> []"
    and "FetchSerialNumbers D tokenID shardID s = Inr L"
  shows "\<exists>s'. StoreSerialNumbers D tokenID sn shardID s = (s', None)
    \<and> FetchSerialNumbers D tokenID shardID s' = Inr (L @ [sn])
    \<and> (HasSerialNumber D tokenID' sn' shardID' s' \<longleftrightarrow>
         HasSerialNumber D tokenID' sn' shardID' s \<or> (tokenID', sn', shardID') = (tokenID, sn, shardID))"
proof -
  have "load_list D UnexpectedError (serialKey (tokenID, shardID)) s = Inr L"
    using assms(6) load_list_bad [OF assms(1), of RawError _ s L UnexpectedError] by (simp add: FetchSerialNumbers_def)
  from stores_serial [OF assms(1) this, of sn] obtain s' where s': "StoreSerialNumbers D tokenID sn shardID s = (s', None)"
      "ldb_lookup D s' = (ldb_lookup D s)(serialKey (tokenID, shardID) @ sn \<mapsto> index_bytes (length L),
         serialKey (tokenID, shardID) \<mapsto> json_list (L @ [sn]))"
    by (cases "StoreSerialNumbers D tokenID sn shardID s") (auto simp: stores_def)
  have inj: "serialKey (tokenID', shardID') @ sn' = serialKey (tokenID, shardID) @ x \<longleftrightarrow> (tokenID', sn', shardID') = (tokenID, x, shardID)" for x
    using serial.token_key_inject [OF assms(3,2)] by (auto simp: serialKey_def)
  show ?thesis
    using s' inj [of sn] inj [of "[]"] assms(1,5)
    by (auto simp: FetchSerialNumbers_def HasSerialNumber_lookup)
qed

lemma serial_stored:
  assumes "leveldb_spec D" and "wf_hash tokenID" and "FetchSerialNumbers D tokenID shardID s = Inr L" and "sn \<noteq> []"
  shows "\<exists>s'. StoreSerialNumbers D tokenID sn shardID s = (s', None)
    \<and> (\<forall>n. n \<noteq> [] \<longrightarrow> HasSerialNumber D tokenID n shardID s' = (HasSerialNumber D tokenID n shardID s \<or> n = sn))"
proof -
  obtain s' where s': "StoreSerialNumbers D tokenID sn shardID s = (s', None)"
    using serial_recorded [OF assms(1,2,2,4,4,3)] by blast
  have "HasSerialNumber D tokenID n shardID s' = (HasSerialNumber D tokenID n shardID s \<or> n = sn)" if "n \<noteq> []" for n
    using serial_recorded [OF assms(1,2,2,4) that assms(3), of shardID] s' by auto
  then show ?thesis using s' by blast
qed

section \<open>Properties\<close>

text \<open>the double-spend record. Storing the serial number of a spent coin appends it to the list of
  its token and shard, makes \<open>HasSerialNumber\<close> answer yes for it, and changes the answer for no other
  serial number, token or shard.
\<close>

theorem serial_number_recorded:
  assumes "leveldb_spec D" and "wf_hash tokenID" and "wf_hash tokenID'" and "sn \<noteq> []" and "sn' \<noteq> []"
    and "FetchSerialNumbers D tokenID shardID s = Inr L"
  shows "\<exists>s'. StoreSerialNumbers D tokenID sn shardID s = (s', None)
    \<and> FetchSerialNumbers D tokenID shardID s' = Inr (L @ [sn])
    \<and> (HasSerialNumber D tokenID' sn' shardID' s' \<longleftrightarrow>
         HasSerialNumber D tokenID' sn' shardID' s \<or> (tokenID', sn', shardID') = (tokenID, sn, shardID))"
  by (rule serial_recorded [OF assms])

theorem serial_number_recorded_witness:
  "\<exists>s'. StoreSerialNumbers mem_db zero_hash [7] 1 fmempty = (s', None)
    \<and> FetchSerialNumbers mem_db zero_hash 1 s' = Inr ([] @ [[7]])
    \<and> (HasSerialNumber mem_db zero_hash [8] 1 s' \<longleftrightarrow>
         HasSerialNumber mem_db zero_hash [8] 1 fmempty \<or> (zero_hash, [8 :: byte], 1 :: byte) = (zero_hash, [7], 1))"
  by (rule serial_number_recorded [OF leveldb_spec_mem_db])
    (simp_all add: FetchSerialNumbers_def leveldb_spec_mem_db)

text \<open>C36: the commitment tables stay consistent. Let the tables of a token and shard be consistent for the commitments \<open>L\<close>
  (\<open>commitments_ok\<close>), fewer than 7103854, on a database without I/O errors, and let the commitment and the public key be longer than
  8 bytes, the key not itself among the commitments and its list of indexes readable. Then storing the commitment succeeds and leaves the tables consistent:
  the list grows by it, the length is one more, every index leads to its commitment, and every
  commitment is found with an index that leads back to it.
\<close>

theorem commitments_consistent:
  assumes "leveldb_spec D" and "commitments_ok D tokenID shardID L s"
    and "8 < length c" and "8 < length pubkey" and "pubkey \<notin> set (L @ [c])" and "length L < 7103854"
    and "GetCommitmentIndexsByPubkey D tokenID pubkey shardID s = Inr byPubkey"
  shows "\<exists>s'. StoreCommitments D tokenID pubkey c shardID s = (s', None) \<and> commitments_ok D tokenID shardID (L @ [c]) s'
    \<and> FetchCommitments D tokenID shardID s' = Inr (L @ [c])
    \<and> GetCommitmentLength D tokenID shardID s' = Inr (length (L @ [c]))
    \<and> (\<forall>i < length (L @ [c]). GetCommitmentByIndex D tokenID (of_nat i) shardID s' = Inr ((L @ [c]) ! i))
    \<and> (\<forall>x \<in> set (L @ [c]). HasCommitment D tokenID x shardID s'
         \<and> (\<exists>i < length (L @ [c]). GetCommitmentIndex D tokenID x shardID s' = Inr i \<and> (L @ [c]) ! i = x))"
proof -
  obtain s' where s': "StoreCommitments D tokenID pubkey c shardID s = (s', None)" and ok: "commitments_ok D tokenID shardID (L @ [c]) s'"
    using commitments_ok_store [OF assms(1-6)] assms(7) by (auto simp: GetCommitmentIndexsByPubkey_def)
  note m = ok [unfolded commitments_ok_def Let_def]
  have "FetchCommitments D tokenID shardID s' = Inr (L @ [c])"
    using m assms(1) by (simp add: FetchCommitments_def)
  moreover have "GetCommitmentLength D tokenID shardID s' = Inr (length (L @ [c]))"
    using m assms(1) by (simp add: GetCommitmentLength_def db_simps)
  moreover have "GetCommitmentByIndex D tokenID (of_nat i) shardID s' = Inr ((L @ [c]) ! i)" if i: "i < length (L @ [c])" for i
  proof -
    have "unat (of_nat i :: uint64) = i" using i assms(6) by (simp add: unsigned_of_nat take_bit_nat_eq_self)
    then have "(if (of_nat i :: uint64) = 0 then [0] else be_bytes (unat (of_nat i :: uint64))) = index_bytes i"
      by (auto simp: index_bytes_def unat_eq_0)
    then show ?thesis using m i assms(1) by (simp add: GetCommitmentByIndex_def db_simps)
  qed
  moreover have "HasCommitment D tokenID x shardID s'
      \<and> (\<exists>i < length (L @ [c]). GetCommitmentIndex D tokenID x shardID s' = Inr i \<and> (L @ [c]) ! i = x)" if x: "x \<in> set (L @ [c])" for x
  proof -
    obtain i where "i < length (L @ [c])" "ldb_lookup D s' (commitmentKey (tokenID, shardID) @ x) = Some (index_bytes i)" "(L @ [c]) ! i = x"
      using commitments_ok_index [OF ok x] by blast
    moreover from this(2) have "HasCommitment D tokenID x shardID s'" "GetCommitmentIndex D tokenID x shardID s' = Inr i"
      using assms(1) by (simp_all add: HasCommitment_def GetCommitmentIndex_def db_simps)
    ultimately show ?thesis by blast
  qed
  ultimately show ?thesis using s' ok by blast
qed

theorem commitments_consistent_witness:
  "\<exists>s'. StoreCommitments mem_db zero_hash (replicate 33 2) (replicate 33 3) 0 fmempty = (s', None)
     \<and> GetCommitmentByIndex mem_db zero_hash 0 0 s' = Inr (replicate 33 3)"
proof -
  have ok: "commitments_ok mem_db zero_hash 0 [] fmempty" by (simp add: commitments_ok_def)
  have b: "GetCommitmentIndexsByPubkey mem_db zero_hash (replicate 33 2) 0 fmempty = Inr []"
    by (simp add: GetCommitmentIndexsByPubkey_def leveldb_spec_mem_db)
  have "replicate 33 2 \<notin> set ([] @ [replicate 33 (3 :: byte)])" by (simp add: numeral_eq_Suc)
  from commitments_consistent [OF leveldb_spec_mem_db ok _ _ this _ b]
  obtain s' where s': "StoreCommitments mem_db zero_hash (replicate 33 2) (replicate 33 3) 0 fmempty = (s', None)"
      "\<forall>i < length ([] @ [replicate 33 3]). GetCommitmentByIndex mem_db zero_hash (of_nat i) 0 s' = Inr (([] @ [replicate 33 3]) ! i)"
    by auto
  from s'(2) have "GetCommitmentByIndex mem_db zero_hash (of_nat 0) 0 s' = Inr (replicate 33 3)" by simp
  with s'(1) show ?thesis by auto
qed

text \<open>
  the commitment with the index 7103854 is lost. The bytes of that index are the text \<open>len\<close>, so
  the entry of the last index overwrites it: reading the commitment back by its index returns the
  three bytes of the index.
\<close>

theorem commitment_index_len_collision:
  assumes "leveldb_spec D" and "commitments_ok D tokenID shardID L s" and "length L = 7103854"
    and "pubkey \<noteq> []" and "pubkey \<noteq> c" and "pubkey \<noteq> len_suffix"
    and "GetCommitmentIndexsByPubkey D tokenID pubkey shardID s = Inr byPubkey"
  shows "\<exists>s'. StoreCommitments D tokenID pubkey c shardID s = (s', None)
    \<and> GetCommitmentByIndex D tokenID 7103854 shardID s' = Inr len_suffix"
proof -
  have n: "index_bytes (length L) = len_suffix" using index_bytes_len [of "length L"] assms(3) by simp
  have "stores D (StoreCommitments D tokenID pubkey c shardID s)
    ((ldb_lookup D s)(commitmentKey (tokenID, shardID) @ len_suffix \<mapsto> c,
       commitmentKey (tokenID, shardID) @ c \<mapsto> len_suffix, commitmentKey (tokenID, shardID) @ len_suffix \<mapsto> len_suffix,
       commitmentKey (tokenID, shardID) @ pubkey \<mapsto> json_list (byPubkey @ [len_suffix]),
       commitmentKey (tokenID, shardID) \<mapsto> json_list (L @ [c])))"
    using stores_commitments [OF assms(1,2,4,5,6)] assms(6,7) by (simp add: n GetCommitmentIndexsByPubkey_def)
  then obtain s' where s': "StoreCommitments D tokenID pubkey c shardID s = (s', None)"
      "ldb_lookup D s' (commitmentKey (tokenID, shardID) @ len_suffix) = Some len_suffix"
    using assms(6) by (cases "StoreCommitments D tokenID pubkey c shardID s") (auto simp: stores_def len_suffix_def bytes_of_string_def)
  have "be_bytes 7103854 = len_suffix" using n assms(3) by (simp add: index_bytes_def)
  then show ?thesis using s' assms(1) by (auto simp: GetCommitmentByIndex_def db_simps)
qed

lemma ex_commitments:
  assumes "n \<le> 7103854"
  shows "\<exists>s byPk. commitments_ok mem_db zero_hash 0 (replicate n (replicate 33 3)) s
    \<and> load_list mem_db UnexpectedError (commitmentKey (zero_hash, 0) @ replicate 33 2) s = Inr byPk"
  using assms
proof (induction n)
  case 0
  have "commitments_ok mem_db zero_hash 0 [] fmempty" by (simp add: commitments_ok_def)
  then show ?case using load_list_none [OF leveldb_spec_mem_db] by (intro exI [of _ fmempty] exI [of _ "[]"]) simp
next
  case (Suc n)
  then obtain s byPk where ok: "commitments_ok mem_db zero_hash 0 (replicate n (replicate 33 3)) s"
    and l: "load_list mem_db UnexpectedError (commitmentKey (zero_hash, 0) @ replicate 33 2) s = Inr byPk" by auto
  have ne: "replicate 33 2 \<noteq> replicate 33 (3 :: byte)" by (simp add: numeral_eq_Suc)
  obtain s' where "commitments_ok mem_db zero_hash 0 (replicate n (replicate 33 3) @ [replicate 33 3]) s'"
      "load_list mem_db UnexpectedError (commitmentKey (zero_hash, 0) @ replicate 33 2) s'
         = Inr (byPk @ [index_bytes (length (replicate n (replicate 33 (3 :: byte))))])"
    by (rule commitments_ok_store [OF leveldb_spec_mem_db ok, of "replicate 33 3" "replicate 33 2" byPk])
      (use ne Suc.prems l in simp_all)
  then show ?case by (auto simp: replicate_append_same)
qed

theorem commitment_index_len_collision_witness:
  "\<exists>s s'. StoreCommitments mem_db zero_hash (replicate 33 2) (replicate 33 3) 0 s = (s', None)
     \<and> GetCommitmentByIndex mem_db zero_hash 7103854 0 s' = Inr len_suffix"
proof -
  obtain s byPk where ok: "commitments_ok mem_db zero_hash 0 (replicate 7103854 (replicate 33 3)) s"
    and l: "load_list mem_db UnexpectedError (commitmentKey (zero_hash, 0) @ replicate 33 2) s = Inr byPk"
    using ex_commitments [of 7103854] by auto
  have ne: "replicate 33 2 \<noteq> replicate 33 (3 :: byte)" "replicate 33 2 \<noteq> len_suffix"
    by (simp_all add: numeral_eq_Suc len_suffix_def bytes_of_string_def)
  have "\<exists>s'. StoreCommitments mem_db zero_hash (replicate 33 2) (replicate 33 3) 0 s = (s', None)
      \<and> GetCommitmentByIndex mem_db zero_hash 7103854 0 s' = Inr len_suffix"
    by (rule commitment_index_len_collision [OF leveldb_spec_mem_db ok _ _ ne])
      (use l in \<open>simp_all add: GetCommitmentIndexsByPubkey_def\<close>)
  then show ?thesis by blast
qed

text \<open>
  where a transaction is. What \<open>GetTransactionIndexById\<close> returns after \<open>StoreTransactionIndex\<close> is
  the block hash and the index that were stored, for every 64-bit index; the separator of the
  stored text cannot occur in its two parts.
\<close>

theorem transaction_index_roundtrip:
  assumes "leveldb_spec D" and "wf_hash blockHash" and "- (2 ^ 63) \<le> i" and "i < 2 ^ 63"
  shows "\<exists>s'. StoreTransactionIndex D txId blockHash i s = (s', None)
    \<and> GetTransactionIndexById D txId s' = Inr (Inr (blockHash, i))"
proof -
  let ?v = "bytes_of_string (Hash_String blockHash @ ''-[-]-'' @ itoa i)"
  obtain s' where s': "StoreTransactionIndex D txId blockHash i s = (s', None)" "ldb_lookup D s' (txKey txId) = Some ?v"
    using stores_raw_Put [OF assms(1), of "txKey txId" ?v s]
    by (cases "StoreTransactionIndex D txId blockHash i s") (auto simp: stores_def StoreTransactionIndex_def)
  have "split_str ''-[-]-'' (itoa i) = [itoa i]"
    by (rule split_str_free [of "CHR ''[''"]) (simp_all add: itoa_chars)
  then have "split_str ''-[-]-'' (Hash_String blockHash @ ''-[-]-'' @ itoa i) = [Hash_String blockHash, itoa i]"
    using split_str_append [of "CHR ''-''" "Hash_String blockHash" "''[-]-''" "itoa i"] by (simp add: Hash_String_chars)
  then show ?thesis
    using s' assms NewHashFromStr_String [OF assms(2)] atoi_itoa [OF assms(3,4)]
    by (simp add: GetTransactionIndexById_def db_simps andThen_def index_def)
qed

theorem transaction_index_roundtrip_witness:
  "\<exists>s'. StoreTransactionIndex mem_db zero_hash zero_hash 5 fmempty = (s', None)
    \<and> GetTransactionIndexById mem_db zero_hash s' = Inr (Inr (zero_hash, 5))"
  by (rule transaction_index_roundtrip [OF leveldb_spec_mem_db]) simp_all

end
