(* ===== verification/Token_DB.thy ===== *)
theory Token_DB
  imports Tx_DB Beacon_DB Block_Types Base58_Codec
begin

text \<open>
  \<open>src/database/lvdb/customtoken.go\<close> and \<open>src/database/lvdb/bridge.go\<close>: the tables of custom tokens
  (initialisation, transactions, balances per payment address) and the amounts of the tokens
  that came over the centralised bridge. The second part ends with an abstract ledger that the
  bridge operations refine.
\<close>

section \<open>Custom tokens\<close>

definition bigNumber :: int where "bigNumber = 999999999"

definition StoreCustomToken :: "'s leveldb \<Rightarrow> hash \<Rightarrow> bytes \<Rightarrow> 's \<Rightarrow> 's stored" where
  "StoreCustomToken D tokenID txHash s = raw_Put D (GetKey tokenInitPrefix tokenID) txHash s"

definition StorePrivacyCustomToken :: "'s leveldb \<Rightarrow> hash \<Rightarrow> bytes \<Rightarrow> 's \<Rightarrow> 's stored" where
  "StorePrivacyCustomToken D tokenID txHash s = raw_Put D (GetKey privacyTokenInitPrefix tokenID) txHash s"

text \<open>The subtractions are in \<open>uint64\<close> and \<open>int32\<close>.\<close>

definition tokenTxKey :: "bytes \<Rightarrow> hash \<times> byte \<times> uint64 \<times> 32 word \<Rightarrow> bytes" where
  "tokenTxKey pre = (\<lambda>(tokenID, shardID, blockHeight, txIndex).
     GetKey pre tokenID @ [shardID] @ Uint64ToBytes (word_of_int bigNumber - blockHeight) @ Uint32ToBytes (word_of_int bigNumber - txIndex))"

definition StoreCustomTokenTx :: "'s leveldb \<Rightarrow> hash \<Rightarrow> byte \<Rightarrow> uint64 \<Rightarrow> 32 word \<Rightarrow> bytes \<Rightarrow> 's \<Rightarrow> 's stored" where
  "StoreCustomTokenTx D tokenID shardID blockHeight txIndex txHash s =
     raw_Put D (tokenTxKey TokenPrefix (tokenID, shardID, blockHeight, txIndex)) txHash s"

definition StorePrivacyCustomTokenTx :: "'s leveldb \<Rightarrow> hash \<Rightarrow> byte \<Rightarrow> uint64 \<Rightarrow> 32 word \<Rightarrow> bytes \<Rightarrow> 's \<Rightarrow> 's stored" where
  "StorePrivacyCustomTokenTx D tokenID shardID blockHeight txIndex txHash s =
     raw_Put D (tokenTxKey PrivacyTokenPrefix (tokenID, shardID, blockHeight, txIndex)) txHash s"

text \<open>Whether something is stored under a key, and is not empty.\<close>

definition stored_nonempty :: "'s leveldb \<Rightarrow> bytes \<Rightarrow> 's \<Rightarrow> bool" where
  "stored_nonempty D key s = (case ldb_Get D key s of Inl _ \<Rightarrow> False | Inr data \<Rightarrow> length data \<noteq> 0)"

definition CustomTokenIDExisted :: "'s leveldb \<Rightarrow> hash \<Rightarrow> 's \<Rightarrow> bool" where
  "CustomTokenIDExisted D tokenID s = stored_nonempty D (GetKey tokenInitPrefix tokenID) s"

definition PrivacyCustomTokenIDExisted :: "'s leveldb \<Rightarrow> hash \<Rightarrow> 's \<Rightarrow> bool" where
  "PrivacyCustomTokenIDExisted D tokenID s = stored_nonempty D (GetKey privacyTokenInitPrefix tokenID) s"

definition PrivacyCustomTokenIDCrossShardExisted :: "'s leveldb \<Rightarrow> hash \<Rightarrow> 's \<Rightarrow> bool" where
  "PrivacyCustomTokenIDCrossShardExisted D tokenID s = stored_nonempty D (GetKey PrivacyTokenCrossShardPrefix tokenID) s"

definition ListCustomToken :: "'s leveldb \<Rightarrow> 's \<Rightarrow> bytes list" where
  "ListCustomToken D s = map snd (fst (ldb_Iterate D tokenInitPrefix s))"

definition ListPrivacyCustomToken :: "'s leveldb \<Rightarrow> 's \<Rightarrow> bytes list" where
  "ListPrivacyCustomToken D s = map snd (fst (ldb_Iterate D privacyTokenInitPrefix s))"

definition CustomTokenTxs :: "'s leveldb \<Rightarrow> hash \<Rightarrow> 's \<Rightarrow> hash list" where
  "CustomTokenTxs D tokenID s = map (\<lambda>(_, v). hash_or_zero v) (fst (ldb_Iterate D (GetKey TokenPrefix tokenID) s))"

definition PrivacyCustomTokenTxs :: "'s leveldb \<Rightarrow> hash \<Rightarrow> 's \<Rightarrow> hash list" where
  "PrivacyCustomTokenTxs D tokenID s = map (\<lambda>(_, v). hash_or_zero v) (fst (ldb_Iterate D (GetKey PrivacyTokenPrefix tokenID) s))"

definition StorePrivacyCustomTokenCrossShard :: "'s leveldb \<Rightarrow> hash \<Rightarrow> bytes \<Rightarrow> 's \<Rightarrow> 's stored" where
  "StorePrivacyCustomTokenCrossShard D tokenID tokenValue s = raw_Put D (GetKey PrivacyTokenCrossShardPrefix tokenID) tokenValue s"

definition ListPrivacyCustomTokenCrossShard :: "'s leveldb \<Rightarrow> 's \<Rightarrow> bytes list" where
  "ListPrivacyCustomTokenCrossShard D s = map snd (fst (ldb_Iterate D PrivacyTokenCrossShardPrefix s))"

section \<open>Balances\<close>

definition split_entry :: "bytes \<Rightarrow> string list" where
  "split_entry b = split_str (string_of_bytes Splitter) (string_of_bytes b)"

text \<open>\<open>strconv.Atoi\<close> with its error ignored: 0 for a text that is no number, the nearest bound out of range.\<close>

definition atoi_ignoring :: "string \<Rightarrow> int" where
  "atoi_ignoring s =
     (let neg = (s \<noteq> [] \<and> hd s = CHR ''-'');
          body = (if s \<noteq> [] \<and> (hd s = CHR ''-'' \<or> hd s = CHR ''+'') then tl s else s)
      in if body = [] then 0
         else case digits_nat 0 body of
                None \<Rightarrow> 0
              | Some n \<Rightarrow> if neg then max (- (2 ^ 63)) (- int n) else min (2 ^ 63 - 1) (int n))"

fun payment_addresses :: "(bytes \<times> bytes) list \<Rightarrow> fault + string list" where
  "payment_addresses [] = Inr []"
| "payment_addresses ((k, v) # kvs) =
     andThen (index (split_entry v) 1) (\<lambda>status.
     andThen (if status = string_of_bytes Unspent then andThen (index (split_entry k) 2) (\<lambda>a. Inr [a]) else Inr []) (\<lambda>a.
     andThen (payment_addresses kvs) (\<lambda>r. Inr (a @ r))))"

text \<open>The addresses are the keys of a map: a set, returned in some order.\<close>

definition GetCustomTokenListPaymentAddress :: "'s leveldb \<Rightarrow> hash \<Rightarrow> 's \<Rightarrow> fault + string fset" where
  "GetCustomTokenListPaymentAddress D tokenID s =
     andThen (payment_addresses (fst (ldb_Iterate D (TokenPaymentAddressPrefix @ Splitter @ tokenID) s)))
       (\<lambda>r. Inr (fset_of_list r))"

fun balances :: "(string \<Rightarrow> fault + string) \<Rightarrow> (string list \<Rightarrow> fault + bool) \<Rightarrow> (bytes \<times> bytes) list
   \<Rightarrow> (string, uint64) fmap \<Rightarrow> fault + (string, uint64) fmap" where
  "balances addr selected [] results = Inr results"
| "balances addr selected ((k, v) # kvs) results =
     andThen (selected (split_entry v)) (\<lambda>b.
     if \<not> b then balances addr selected kvs results
     else andThen (index (split_entry k) 2) (\<lambda>k2.
       andThen (addr k2) (\<lambda>a.
       andThen (index (split_entry v) 0) (\<lambda>v0.
       balances addr selected kvs (fmupd a (map_get 0 results a + word_of_int (atoi_ignoring v0)) results)))))"

definition is_unspent :: "string list \<Rightarrow> fault + bool" where
  "is_unspent values = andThen (index values 1) (\<lambda>v1. Inr (v1 = string_of_bytes Unspent))"

definition is_unspent_unreward :: "string list \<Rightarrow> fault + bool" where
  "is_unspent_unreward values = andThen (is_unspent values) (\<lambda>b.
     if b then andThen (index values 2) (\<lambda>v2. Inr (v2 = string_of_bytes Unreward)) else Inr False)"

text \<open>The address is decoded into a payment address and encoded again; a text that does not decode gives no bytes.\<close>

definition normalise_address :: "(bytes \<Rightarrow> bytes) \<Rightarrow> string \<Rightarrow> fault + string" where
  "normalise_address sum256 k2 =
     (let b = (case Base58Check_Decode sum256 k2 of Inl _ \<Rightarrow> [] | Inr (p, _) \<Rightarrow> p) in
      andThen (PaymentAddress_SetBytes b) (\<lambda>a. Base58Check_Encode sum256 (PaymentAddress_Bytes a) 0))"

definition GetCustomTokenPaymentAddressesBalance ::
  "'s leveldb \<Rightarrow> (bytes \<Rightarrow> bytes) \<Rightarrow> hash \<Rightarrow> 's \<Rightarrow> fault + (string, uint64) fmap" where
  "GetCustomTokenPaymentAddressesBalance D sum256 tokenID s =
     balances (normalise_address sum256) is_unspent
       (fst (ldb_Iterate D (TokenPaymentAddressPrefix @ Splitter @ bytes_of_string (Hash_String tokenID)) s)) fmempty"

definition GetCustomTokenPaymentAddressesBalanceUnreward :: "'s leveldb \<Rightarrow> hash \<Rightarrow> 's \<Rightarrow> fault + (string, uint64) fmap" where
  "GetCustomTokenPaymentAddressesBalanceUnreward D tokenID s =
     balances Inr is_unspent_unreward
       (fst (ldb_Iterate D (TokenPaymentAddressPrefix @ Splitter @ bytes_of_string (Hash_String tokenID)) s)) fmempty"

definition GetCustomTokenPaymentAddressUTXO ::
  "'s leveldb \<Rightarrow> (bytes \<Rightarrow> bytes) \<Rightarrow> hash \<Rightarrow> bytes \<Rightarrow> 's \<Rightarrow> fault + (string, string) fmap" where
  "GetCustomTokenPaymentAddressUTXO D sum256 tokenID paymentAddress s =
     andThen (Base58Check_Encode sum256 paymentAddress 0) (\<lambda>a.
       Inr (fold (\<lambda>(k, v) m. fmupd (string_of_bytes k) (string_of_bytes v) m)
         (fst (ldb_Iterate D (TokenPaymentAddressPrefix @ Splitter @ bytes_of_string (Hash_String tokenID)
            @ Splitter @ bytes_of_string a) s)) fmempty))"

section \<open>The bridge\<close>

record TokenWithAmount =
  ta_TokenID :: hash
  ta_Amount :: uint64

definition ta_head :: string where "ta_head = [CHR ''{'', CHR 0x22] @ ''tokenId'' @ [CHR 0x22, CHR '':'', CHR 0x22]"
definition ta_mid :: string where "ta_mid = [CHR 0x22, CHR '','', CHR 0x22] @ ''amount'' @ [CHR 0x22, CHR '':'']"

text \<open>\<open>json.Marshal\<close> and, on the texts it writes, \<open>json.Unmarshal\<close> of a token with its amount.\<close>

definition ta_marshal :: "TokenWithAmount \<Rightarrow> bytes" where
  "ta_marshal t = bytes_of_string (ta_head @ Hash_String (ta_TokenID t) @ ta_mid @ decimal (unat (ta_Amount t)) @ ''}'')"

definition strip :: "string \<Rightarrow> string \<Rightarrow> string option" where
  "strip pre s = (if take (length pre) s = pre then Some (drop (length pre) s) else None)"

definition ta_unmarshal :: "bytes \<Rightarrow> TokenWithAmount option" where
  "ta_unmarshal b =
     Option.bind (strip ta_head (string_of_bytes b)) (\<lambda>r1.
     Option.bind (strip ta_mid (drop 64 r1)) (\<lambda>r2.
     if r2 = [] \<or> last r2 \<noteq> CHR ''}'' \<or> butlast r2 = [] then None
     else Option.bind (digits_nat 0 (butlast r2)) (\<lambda>n.
       if n < 2 ^ 64
       then Some \<lparr>ta_TokenID = (case NewHashFromStr (take 64 r1) of Inl _ \<Rightarrow> zero_hash | Inr h \<Rightarrow> h), ta_Amount = of_nat n\<rparr>
       else None)))"

definition bridgeKey :: "hash \<Rightarrow> bytes" where "bridgeKey tokenID = centralizedBridgePrefix @ tokenID"

text \<open>Reading the stored text: nothing stored is the empty text.\<close>

definition bridge_get :: "'s leveldb \<Rightarrow> hash \<Rightarrow> 's \<Rightarrow> db_error + bytes" where
  "bridge_get D tokenID s =
     (case ldb_Get D (bridgeKey tokenID) s of
        Inl ErrNotFound \<Rightarrow> Inr [] | Inl LvdbFailure \<Rightarrow> Inl UnexpectedError | Inr b \<Rightarrow> Inr b)"

definition CountUpDepositedAmtByTokenID :: "'s leveldb \<Rightarrow> hash \<Rightarrow> uint64 \<Rightarrow> 's \<Rightarrow> 's stored" where
  "CountUpDepositedAmtByTokenID D tokenID amount s =
     (case bridge_get D tokenID s of
        Inl e \<Rightarrow> (s, Some e)
      | Inr b \<Rightarrow>
          if length b = 0 then db_Put D (bridgeKey tokenID) (ta_marshal \<lparr>ta_TokenID = tokenID, ta_Amount = amount\<rparr>) s
          else case ta_unmarshal b of
            None \<Rightarrow> (s, Some RawError)
          | Some t \<Rightarrow> db_Put D (bridgeKey tokenID) (ta_marshal (t\<lparr>ta_Amount := ta_Amount t + amount\<rparr>)) s)"

definition DeductAmtByTokenID :: "'s leveldb \<Rightarrow> hash \<Rightarrow> uint64 \<Rightarrow> 's \<Rightarrow> 's stored" where
  "DeductAmtByTokenID D tokenID amount s =
     (case bridge_get D tokenID s of
        Inl e \<Rightarrow> (s, Some e)
      | Inr b \<Rightarrow>
          if length b = 0 then (s, None)
          else case ta_unmarshal b of
            None \<Rightarrow> (s, Some RawError)
          | Some t \<Rightarrow> db_Put D (bridgeKey tokenID)
              (ta_marshal (t\<lparr>ta_Amount := if ta_Amount t \<le> amount then 0 else ta_Amount t - amount\<rparr>)) s)"

definition GetBridgeTokensAmounts :: "'s leveldb \<Rightarrow> 's \<Rightarrow> db_error + bytes list" where
  "GetBridgeTokensAmounts D s =
     (let (kvs, err) = ldb_Iterate D centralizedBridgePrefix s in if err then Inl UnexpectedError else Inr (map snd kvs))"

definition IsBridgeTokenExisted :: "'s leveldb \<Rightarrow> hash \<Rightarrow> 's \<Rightarrow> db_error + bool" where
  "IsBridgeTokenExisted D tokenID s =
     (case bridge_get D tokenID s of Inl e \<Rightarrow> Inl e | Inr b \<Rightarrow> Inr (length b \<noteq> 0))"

section \<open>The stored texts\<close>

lemma strip_append [simp]: "strip pre (pre @ s) = Some s"
  by (simp add: strip_def)

lemma decimal_ne [simp]: "decimal n \<noteq> []"
  by (subst decimal.simps) simp

lemma ta_unmarshal_marshal:
  assumes "wf_hash (ta_TokenID t)"
  shows "ta_unmarshal (ta_marshal t) = Some t"
proof -
  have len: "length (Hash_String (ta_TokenID t)) = 64" using hash_str.length_enc [OF assms] .
  have "unat (ta_Amount t) < 2 ^ 64" using unsigned_less [of "ta_Amount t", where 'a = nat] by simp
  then show ?thesis
    unfolding ta_unmarshal_def ta_marshal_def string_of_bytes_of_string strip_append bind_simps
    by (simp add: len NewHashFromStr_String [OF assms] digits_nat_decimal)
qed

lemma ta_marshal_ne [simp]: "ta_marshal t \<noteq> []"
  by (simp add: ta_marshal_def ta_head_def bytes_of_string_def)

interpretation bridge_table: db_table bridgeKey "\<lambda>_. True"
  by unfold_locales (simp add: bridgeKey_def)

section \<open>The bridge as a ledger\<close>

text \<open>
  The abstract ledger: an amount for every token seen so far. A deposit adds to it; a withdrawal
  subtracts, never below zero, and does nothing for a token never deposited.
\<close>

type_synonym ledger = "hash \<Rightarrow> nat option"

definition deposit :: "hash \<Rightarrow> nat \<Rightarrow> ledger \<Rightarrow> ledger" where
  "deposit t a L = L(t \<mapsto> (case L t of None \<Rightarrow> a | Some x \<Rightarrow> x + a))"

definition withdraw :: "hash \<Rightarrow> nat \<Rightarrow> ledger \<Rightarrow> ledger" where
  "withdraw t a L = (case L t of None \<Rightarrow> L | Some x \<Rightarrow> L(t \<mapsto> x - a))"

text \<open>The entries are as the operations write them, and the ledger they stand for.\<close>

definition bridge_ok :: "'s leveldb \<Rightarrow> 's \<Rightarrow> bool" where
  "bridge_ok D s \<longleftrightarrow> (\<forall>t b. wf_hash t \<longrightarrow> ldb_lookup D s (bridgeKey t) = Some b \<longrightarrow>
     (\<exists>a. b = ta_marshal \<lparr>ta_TokenID = t, ta_Amount = a\<rparr>))"

definition bridge_abs :: "'s leveldb \<Rightarrow> 's \<Rightarrow> ledger" where
  "bridge_abs D s = (\<lambda>t. if wf_hash t
     then Option.bind (ldb_lookup D s (bridgeKey t)) (\<lambda>b. map_option (\<lambda>x. unat (ta_Amount x)) (ta_unmarshal b)) else None)"

lemma bridge_get_lookup:
  "leveldb_spec D \<Longrightarrow> bridge_get D t s = Inr (case ldb_lookup D s (bridgeKey t) of None \<Rightarrow> [] | Some b \<Rightarrow> b)"
  by (simp add: bridge_get_def ldb_Get_lookup split: option.splits)

lemma bridge_abs_entry:
  assumes "wf_hash t" and "ldb_lookup D s (bridgeKey t) = Some (ta_marshal \<lparr>ta_TokenID = t, ta_Amount = a\<rparr>)"
  shows "bridge_abs D s t = Some (unat a)"
  using assms by (simp add: bridge_abs_def ta_unmarshal_marshal)

text \<open>Writing one entry.\<close>

lemma bridge_put:
  assumes D: "leveldb_spec D" and ok: "bridge_ok D s" and t: "wf_hash t"
  obtains s' where "db_Put D (bridgeKey t) (ta_marshal \<lparr>ta_TokenID = t, ta_Amount = a\<rparr>) s = (s', None)"
    and "bridge_ok D s'" and "bridge_abs D s' = (bridge_abs D s)(t \<mapsto> unat a)"
proof -
  obtain s' where s': "db_Put D (bridgeKey t) (ta_marshal \<lparr>ta_TokenID = t, ta_Amount = a\<rparr>) s = (s', None)"
      "ldb_lookup D s' = (ldb_lookup D s)(bridgeKey t \<mapsto> ta_marshal \<lparr>ta_TokenID = t, ta_Amount = a\<rparr>)"
    using stores_db_Put [OF D, of "bridgeKey t"] by (metis prod.collapse stores_def)
  have "bridge_ok D s'" using ok by (auto simp: bridge_ok_def s'(2) bridge_table.key_inject)
  moreover have "bridge_abs D s' = (bridge_abs D s)(t \<mapsto> unat a)"
    using t by (auto simp: fun_eq_iff bridge_abs_def s'(2) bridge_table.key_inject ta_unmarshal_marshal)
  ultimately show ?thesis using s'(1) by (intro that)
qed

lemma bridge_entry:
  assumes D: "leveldb_spec D" and ok: "bridge_ok D s" and t: "wf_hash t"
  obtains (absent) "bridge_get D t s = Inr []" "bridge_abs D s t = None"
  | (present) a where "bridge_get D t s = Inr (ta_marshal \<lparr>ta_TokenID = t, ta_Amount = a\<rparr>)" "bridge_abs D s t = Some (unat a)"
proof (cases "ldb_lookup D s (bridgeKey t)")
  case None
  then show ?thesis using absent D by (simp add: bridge_get_lookup bridge_abs_def)
next
  case (Some b)
  then obtain a where "b = ta_marshal \<lparr>ta_TokenID = t, ta_Amount = a\<rparr>" using ok t by (auto simp: bridge_ok_def)
  then show ?thesis using present [of a] Some D bridge_abs_entry [OF t, of D s a] by (simp add: bridge_get_lookup)
qed

section \<open>Properties\<close>

text \<open>C34: the bridge operations refine the ledger. From a state that stands for a ledger, counting up a
  deposit, when the sum with the deposited amount stays below \<open>2^64\<close> (the code adds without a check), and deducting any amount, succeed and
  lead to a state that stands for the ledger after the deposit, and after the withdrawal, which stops at zero; and
  \<open>IsBridgeTokenExisted\<close> tells whether the ledger has an entry for the token.
\<close>

theorem bridge_refines_ledger:
  assumes "leveldb_spec D" and "bridge_ok D s" and "wf_hash tokenID"
    and "(case bridge_abs D s tokenID of None \<Rightarrow> 0 | Some x \<Rightarrow> x) + unat amount < 2 ^ 64"
  shows "\<exists>s' s''. CountUpDepositedAmtByTokenID D tokenID amount s = (s', None) \<and> bridge_ok D s'
    \<and> bridge_abs D s' = deposit tokenID (unat amount) (bridge_abs D s)
    \<and> DeductAmtByTokenID D tokenID amount' s = (s'', None) \<and> bridge_ok D s''
    \<and> bridge_abs D s'' = withdraw tokenID (unat amount') (bridge_abs D s)
    \<and> IsBridgeTokenExisted D tokenID s = Inr (bridge_abs D s tokenID \<noteq> None)"
proof (rule bridge_entry [OF assms(1-3)])
  assume absent: "bridge_get D tokenID s = Inr []" "bridge_abs D s tokenID = None"
  obtain s' where "db_Put D (bridgeKey tokenID) (ta_marshal \<lparr>ta_TokenID = tokenID, ta_Amount = amount\<rparr>) s = (s', None)"
      "bridge_ok D s'" "bridge_abs D s' = (bridge_abs D s)(tokenID \<mapsto> unat amount)"
    by (rule bridge_put [OF assms(1-3)])
  then show ?thesis using absent assms(2)
    by (simp add: CountUpDepositedAmtByTokenID_def DeductAmtByTokenID_def deposit_def withdraw_def IsBridgeTokenExisted_def)
next
  fix a assume present: "bridge_get D tokenID s = Inr (ta_marshal \<lparr>ta_TokenID = tokenID, ta_Amount = a\<rparr>)"
    "bridge_abs D s tokenID = Some (unat a)"
  have u: "ta_unmarshal (ta_marshal \<lparr>ta_TokenID = tokenID, ta_Amount = a\<rparr>) = Some \<lparr>ta_TokenID = tokenID, ta_Amount = a\<rparr>"
    using assms(3) by (simp add: ta_unmarshal_marshal)
  define b where "b = (if a \<le> amount' then 0 else a - amount')"
  have add: "unat (a + amount) = unat a + unat amount"
    using assms(4) present(2) by (simp add: unat_word_ariths)
  have sub: "unat b = unat a - unat amount'"
    by (auto simp: b_def word_le_nat_alt unat_sub not_le)
  obtain s' where s': "db_Put D (bridgeKey tokenID) (ta_marshal \<lparr>ta_TokenID = tokenID, ta_Amount = a + amount\<rparr>) s = (s', None)"
      "bridge_ok D s'" "bridge_abs D s' = (bridge_abs D s)(tokenID \<mapsto> unat (a + amount))"
    by (rule bridge_put [OF assms(1-3)])
  obtain s'' where s'': "db_Put D (bridgeKey tokenID) (ta_marshal \<lparr>ta_TokenID = tokenID, ta_Amount = b\<rparr>) s = (s'', None)"
      "bridge_ok D s''" "bridge_abs D s'' = (bridge_abs D s)(tokenID \<mapsto> unat b)"
    by (rule bridge_put [OF assms(1-3)])
  have "CountUpDepositedAmtByTokenID D tokenID amount s = (s', None)"
    using present(1) u s'(1) by (simp add: CountUpDepositedAmtByTokenID_def)
  moreover have "DeductAmtByTokenID D tokenID amount' s = (s'', None)"
    using present(1) u s''(1) by (simp add: DeductAmtByTokenID_def b_def split: if_splits)
  moreover have "bridge_abs D s' = deposit tokenID (unat amount) (bridge_abs D s)"
    using s'(3) add present(2) by (simp add: deposit_def)
  moreover have "bridge_abs D s'' = withdraw tokenID (unat amount') (bridge_abs D s)"
    using s''(3) sub present(2) by (simp add: withdraw_def)
  moreover have "IsBridgeTokenExisted D tokenID s = Inr (bridge_abs D s tokenID \<noteq> None)"
    using present by (simp add: IsBridgeTokenExisted_def ta_marshal_def)
  ultimately show ?thesis using s'(2) s''(2) by blast
qed

theorem bridge_refines_ledger_witness:
  "\<exists>s' s''. CountUpDepositedAmtByTokenID mem_db zero_hash 5 fmempty = (s', None) \<and> bridge_ok mem_db s'
    \<and> bridge_abs mem_db s' = deposit zero_hash (unat (5 :: uint64)) (bridge_abs mem_db fmempty)
    \<and> DeductAmtByTokenID mem_db zero_hash 3 fmempty = (s'', None) \<and> bridge_ok mem_db s''
    \<and> bridge_abs mem_db s'' = withdraw zero_hash (unat (3 :: uint64)) (bridge_abs mem_db fmempty)
    \<and> IsBridgeTokenExisted mem_db zero_hash fmempty = Inr (bridge_abs mem_db fmempty zero_hash \<noteq> None)"
  by (rule bridge_refines_ledger [OF leveldb_spec_mem_db]) (simp_all add: bridge_ok_def bridge_abs_def)

end
