(* ===== verification/Db_Keys.thy ===== *)
theory Db_Keys
  imports Shard_DB Token_DB
begin

text \<open>
  The key space of the node's database. All tables live in one LevelDB: every key the operations
  of \<open>src/database/lvdb\<close> build is listed here by what it is built from, and the families are
  told apart by their bytes. So the database is one typed map, and an operation on one table
  cannot disturb another.
\<close>

section \<open>Typed keys\<close>

datatype db_key =
    NextHeight byte byte uint64
  | BeaconBlockOf hash
  | BlockOf hash
  | BeaconIndexOfHash hash
  | BeaconHashOfIndex uint64
  | BeaconBest
  | Accepted byte hash
  | CommitteeAtHeight uint64
  | CommitteeAtEpoch uint64
  | ShardBlockOf byte hash
  | IndexOfBlock hash
  | BlockAtHeight uint64 byte
  | ShardBest byte
  | Incoming byte byte hash
  | Outgoing byte uint64 byte
  | Serial hash byte bytes
  | Outcoin hash byte bytes
  | Commitment hash byte bytes
  | Derivator hash byte bytes
  | Fee byte
  | TxLocation hash
  | TokenInit hash
  | PrivacyTokenInit hash
  | TokenTx hash byte uint64 "32 word"
  | PrivacyTokenTx hash byte uint64 "32 word"
  | PrivacyTokenCross hash
  | BridgeAmount hash

fun key_of :: "db_key \<Rightarrow> bytes" where
  "key_of (NextHeight f t h) = nextCrossShardKey (f, t, h)"
| "key_of (BeaconBlockOf h) = beaconBlockKey h"
| "key_of (BlockOf h) = blockKey h"
| "key_of (BeaconIndexOfHash h) = beaconIndexKey h"
| "key_of (BeaconHashOfIndex i) = beaconIndexKey (Uint64ToBytes i)"
| "key_of BeaconBest = beaconBestBlockkey"
| "key_of (Accepted s h) = shardToBeaconKey (s, h)"
| "key_of (CommitteeAtHeight h) = committeeHeightKey h"
| "key_of (CommitteeAtEpoch e) = committeeEpochKey e"
| "key_of (ShardBlockOf s h) = shardBlockKey (s, h)"
| "key_of (IndexOfBlock h) = GetKey blockKeyIdxPrefix h"
| "key_of (BlockAtHeight i s) = heightKey (i, s)"
| "key_of (ShardBest s) = bestStateKey s"
| "key_of (Incoming s c h) = incomingKey (s, c, h)"
| "key_of (Outgoing s i c) = outgoingKey (s, i, c)"
| "key_of (Serial t s x) = serialKey (t, s) @ x"
| "key_of (Outcoin t s x) = outcoinKey (t, s, x)"
| "key_of (Commitment t s x) = commitmentKey (t, s) @ x"
| "key_of (Derivator t s x) = derivatorKey (t, s, x)"
| "key_of (Fee s) = feeKey s"
| "key_of (TxLocation h) = txKey h"
| "key_of (TokenInit t) = GetKey tokenInitPrefix t"
| "key_of (PrivacyTokenInit t) = GetKey privacyTokenInitPrefix t"
| "key_of (TokenTx t s h i) = tokenTxKey TokenPrefix (t, s, h, i)"
| "key_of (PrivacyTokenTx t s h i) = tokenTxKey PrivacyTokenPrefix (t, s, h, i)"
| "key_of (PrivacyTokenCross t) = GetKey PrivacyTokenCrossShardPrefix t"
| "key_of (BridgeAmount t) = bridgeKey t"

text \<open>Hashes have 32 bytes.\<close>

fun wf_key :: "db_key \<Rightarrow> bool" where
  "wf_key (NextHeight f t h) = True"
| "wf_key (BeaconBlockOf h) = wf_hash h"
| "wf_key (BlockOf h) = wf_hash h"
| "wf_key (BeaconIndexOfHash h) = wf_hash h"
| "wf_key (BeaconHashOfIndex i) = True"
| "wf_key BeaconBest = True"
| "wf_key (Accepted s h) = wf_hash h"
| "wf_key (CommitteeAtHeight h) = True"
| "wf_key (CommitteeAtEpoch e) = True"
| "wf_key (ShardBlockOf s h) = wf_hash h"
| "wf_key (IndexOfBlock h) = wf_hash h"
| "wf_key (BlockAtHeight i s) = True"
| "wf_key (ShardBest s) = True"
| "wf_key (Incoming s c h) = wf_hash h"
| "wf_key (Outgoing s i c) = True"
| "wf_key (Serial t s x) = wf_hash t"
| "wf_key (Outcoin t s x) = wf_hash t"
| "wf_key (Commitment t s x) = wf_hash t"
| "wf_key (Derivator t s x) = wf_hash t"
| "wf_key (Fee s) = True"
| "wf_key (TxLocation h) = wf_hash h"
| "wf_key (TokenInit t) = wf_hash t"
| "wf_key (PrivacyTokenInit t) = wf_hash t"
| "wf_key (TokenTx t s h i) = wf_hash t"
| "wf_key (PrivacyTokenTx t s h i) = wf_hash t"
| "wf_key (PrivacyTokenCross t) = wf_hash t"
| "wf_key (BridgeAmount t) = wf_hash t"

section \<open>Reading the family of a key from its bytes\<close>

text \<open>The number of a family, from the typed key and from the bytes.\<close>

fun family :: "db_key \<Rightarrow> nat" where
  "family (NextHeight _ _ _) = 1" | "family (BeaconBlockOf _) = 2" | "family (BlockOf _) = 3"
| "family (BeaconIndexOfHash _) = 4" | "family (BeaconHashOfIndex _) = 5" | "family BeaconBest = 6"
| "family (Accepted _ _) = 7" | "family (CommitteeAtHeight _) = 8" | "family (CommitteeAtEpoch _) = 9"
| "family (ShardBlockOf _ _) = 10" | "family (IndexOfBlock _) = 11" | "family (BlockAtHeight _ _) = 0"
| "family (ShardBest _) = 12" | "family (Incoming _ _ _) = 13" | "family (Outgoing _ _ _) = 14"
| "family (Serial _ _ _) = 15" | "family (Outcoin _ _ _) = 16" | "family (Commitment _ _ _) = 17"
| "family (Derivator _ _ _) = 18" | "family (Fee _) = 19" | "family (TxLocation _) = 20"
| "family (TokenInit _) = 21" | "family (PrivacyTokenInit _) = 22" | "family (TokenTx _ _ _ _) = 23"
| "family (PrivacyTokenTx _ _ _ _) = 24" | "family (PrivacyTokenCross _) = 25" | "family (BridgeAmount _) = 26"

definition starts :: "string \<Rightarrow> bytes \<Rightarrow> bool" where
  "starts p b \<longleftrightarrow> take (length p) b = bytes_of_string p"

definition family_of :: "bytes \<Rightarrow> nat" where
  "family_of b =
     (if length b = 9 then 0 else if starts ''ncsh-'' b then 1
      else if starts ''bea-b-'' b then 2 else if starts ''b-'' b then 3
      else if starts ''bea-i-'' b then (if length b = 14 then 5 else 4)
      else if starts ''bea-bestBlock'' b then 6
      else if starts ''stb-'' b \<and> length b = 37 then 7
      else if starts ''bea-scom-'' b then (if length b = 17 then 8 else 9)
      else if starts ''i-'' b then 11 else if starts ''bestBlock'' b then 12
      else if starts ''csh-'' b then (if length b = 14 then 14 else 13)
      else if starts ''serinalnumbers-'' b then 15 else if starts ''outcoins-'' b then 16
      else if starts ''commitments-'' b then 17 else if starts ''snderivators-'' b then 18
      else if starts ''feeEstimator'' b then 19 else if starts ''tx-'' b then 20
      else if starts ''token-init-'' b then 21 else if starts ''privacy-token-init-'' b then 22
      else if starts ''token-'' b then 23 else if starts ''privacy-token-'' b then 24
      else if starts ''privacy-cross-token-'' b then 25 else if starts ''centralizedbridge-'' b then 26
      else 10)"

lemma starts_Nil [simp]: "starts [] b"
  by (simp add: starts_def bytes_of_string_def)

lemma starts_Cons [simp]: "starts (c # p) (x # b) \<longleftrightarrow> x = of_char c \<and> starts p b"
  by (simp add: starts_def bytes_of_string_def)

lemma starts_Cons_Nil [simp]: "\<not> starts (c # p) []"
  by (simp add: starts_def bytes_of_string_def)

lemma bytes_of_string_Cons [simp]: "bytes_of_string (c # s) = of_char c # bytes_of_string s"
  by (simp add: bytes_of_string_def)

lemma bytes_of_string_Nil [simp]: "bytes_of_string [] = []"
  by (simp add: bytes_of_string_def)

lemma length_Uint32ToBytes [simp]: "length (Uint32ToBytes a) = 4"
  using u32.length_enc by simp

text \<open>The text of a hash does not begin with the letter of \<open>init-\<close>.\<close>

lemma hex_char_not_i: "list_all (\<lambda>n. hex_char n \<noteq> CHR ''i'') [0..<16]"
  by code_simp

lemma Hash_String_not_i:
  assumes "wf_hash h"
  shows "\<not> starts (CHR ''i'' # p) (bytes_of_string (Hash_String h) @ r)"
proof -
  obtain b bs where h: "rev h = b # bs" using assms by (cases "rev h") (auto simp: wf_hash_def HashSize_def)
  have "unat b div 16 < 16" using unat_byte_less [of b] by (simp add: less_mult_imp_div_less del: unat_byte_less)
  then have ne: "hex_char (unat b div 16) \<noteq> CHR ''i''" using hex_char_not_i by (simp add: list_all_iff)
  have "bytes_of_string [hex_char (unat b div 16)] \<noteq> bytes_of_string ''i''" using ne by (subst bytes_of_string_inject) simp
  then show ?thesis by (simp add: Hash_String_def hex_encode_def h)
qed

lemmas key_defs = nextCrossShardKey_def beaconBlockKey_def blockKey_def beaconIndexKey_def shardToBeaconKey_def
  committeeHeightKey_def committeeEpochKey_def shardBlockKey_def heightKey_def bestStateKey_def incomingKey_def
  outgoingKey_def serialKey_def outcoinKey_def commitmentKey_def derivatorKey_def feeKey_def txKey_def tokenTxKey_def
  bridgeKey_def

lemma GetKey_text:
  assumes "pre \<in> {serialNumbersPrefix, commitmentsPrefix, outcoinsPrefix, snderivatorsPrefix, TokenPrefix,
                PrivacyTokenPrefix, PrivacyTokenCrossShardPrefix, tokenInitPrefix, privacyTokenInitPrefix}"
  shows "GetKey pre h = pre @ bytes_of_string (Hash_String h)"
  using assms by (auto simp: GetKey_def prefix_defs)

lemma of_char_byte_inject [simp]: "(of_char c :: byte) = of_char d \<longleftrightarrow> c = d"
  using bytes_of_string_inject [of "[c]" "[d]"] by simp

lemma length_wf_hash: "wf_hash h \<Longrightarrow> length h = 32"
  by (simp add: wf_hash_def HashSize_def)

lemma length_hash_text: "wf_hash h \<Longrightarrow> length (Hash_String h) = 64"
  by (rule hash_str.length_enc)

lemmas key_bytes = key_defs prefix_defs length_hash_text length_wf_hash

lemma family_of_index: "wf_hash h \<Longrightarrow> family_of (blockKeyIdxPrefix @ h) = 11"
  by (simp add: family_of_def key_bytes)

lemma family_of_key: "wf_key k \<Longrightarrow> family_of (key_of k) = family k"
proof (cases k)
  case (IndexOfBlock h)
  assume "wf_key k"
  with IndexOfBlock show ?thesis by (simp only: key_of.simps GetKey_block family_of_index wf_key.simps family.simps)
qed (simp_all add: family_of_def key_bytes GetKey_text Hash_String_not_i)

text \<open>Within a family, a key determines what it was built from.\<close>

lemma tokenTxKey_inject:
  assumes "wf_hash t" and "wf_hash t'" and "pre \<in> {TokenPrefix, PrivacyTokenPrefix}"
  shows "tokenTxKey pre (t, s, h, i) = tokenTxKey pre (t', s', h', i') \<longleftrightarrow> t = t' \<and> s = s' \<and> h = h' \<and> i = i'"
proof -
  have "GetKey pre t = pre @ bytes_of_string (Hash_String t)" for t using assms(3) by (auto simp: GetKey_text)
  then show ?thesis using assms(1,2) u32.enc_inject by (auto simp: tokenTxKey_def hash_text_append hash_str.enc_inject)
qed

lemma same_family:
  assumes "family a = family b" and "wf_key a" and "wf_key b" and "key_of a = key_of b"
  shows "a = b"
proof -
  have gk: "GetKey pre t = GetKey pre t' \<longleftrightarrow> t = t'"
    if "wf_hash t" "wf_hash t'" "pre \<in> {tokenInitPrefix, privacyTokenInitPrefix, PrivacyTokenCrossShardPrefix}" for pre t t'
    using that hash_text_append [of t t' "[]" "[]"] by (auto simp: GetKey_text)
  show ?thesis
    using assms
    by (cases a; cases b)
      (simp_all add: ncsh.key_inject stb.key_inject comh.key_inject come.key_inject beai.key_inject sblk.key_inject
        shgt.key_inject sbest.key_inject sinc.key_inject sout.key_inject outcoin_table.key_inject derivator_table.key_inject
        bridge_table.key_inject tokenTxKey_inject gk beaconBlockKey_def blockKey_def serialKey_def commitmentKey_def
        serial.token_key_inject comm.token_key_inject feeKey_def txKey_def hash_str.enc_inject)
qed

interpretation db_space: db_table key_of wf_key
proof
  fix a b assume "wf_key a" "wf_key b"
  then show "key_of a = key_of b \<longleftrightarrow> a = b"
    using same_family [of a b] family_of_key [of a] family_of_key [of b] by metis
qed

section \<open>The database as a typed map\<close>

definition db_view :: "'s leveldb \<Rightarrow> 's \<Rightarrow> db_key \<Rightarrow> bytes option" where
  "db_view D s k = (if wf_key k then ldb_lookup D s (key_of k) else None)"

lemma db_view_update:
  assumes "wf_key k" and "ldb_lookup D s' = (ldb_lookup D s)(key_of k := v)"
  shows "db_view D s' = (db_view D s)(k := v)"
  using assms by (auto simp: db_view_def fun_eq_iff db_space.key_inject)

text \<open>A store that succeeds and updates one typed key, or two.\<close>

lemma db_view_stores:
  assumes "stores D r ((ldb_lookup D s)(key_of k := v))" and "wf_key k"
  shows "db_view D (fst r) = (db_view D s)(k := v) \<and> snd r = None"
  using assms db_view_update [of k D "fst r" s v] by (simp add: stores_def)

lemma db_view_stores2:
  assumes "stores D r ((ldb_lookup D s)(key_of k := v, key_of k' := v'))" and "wf_key k" and "wf_key k'"
  shows "db_view D (fst r) = (db_view D s)(k := v, k' := v') \<and> snd r = None"
  using assms by (auto simp: stores_def db_view_def fun_eq_iff db_space.key_inject)

lemma stores_put2:
  assumes "leveldb_spec D"
  shows "stores D (andStore (db_Put D k v s) (db_Put D k' v')) ((ldb_lookup D s)(k \<mapsto> v, k' \<mapsto> v'))"
  by (rule stores_andStore [OF stores_db_Put [OF assms]]) (metis stores_db_Put [OF assms])

lemma db_view_absent: "wf_key k \<Longrightarrow> leveldb_spec D \<Longrightarrow> HasValue D (key_of k) s \<noteq> Inr True \<longleftrightarrow> db_view D s k = None"
  by (simp add: db_simps db_view_def)

text \<open>A store that returns no error and leaves the typed map \<open>m\<close>.\<close>

definition stores_view :: "'s leveldb \<Rightarrow> 's stored \<Rightarrow> (db_key \<Rightarrow> bytes option) \<Rightarrow> bool" where
  "stores_view D r m \<longleftrightarrow> snd r = None \<and> db_view D (fst r) = m"

section \<open>Properties\<close>

text \<open>the keys of the database are told apart. Two keys that the operations build, for whatever
  blocks, heights, shards, tokens, coins and transactions, are the same bytes only if they are of
  the same table and built from the same values, although they share one key space without a
  length or type marker.
\<close>

theorem db_keys_injective:
  assumes "wf_key a" and "wf_key b"
  shows "key_of a = key_of b \<longleftrightarrow> a = b"
  by (rule db_space.key_inject [OF assms])

theorem db_keys_injective_witness:
  "key_of (ShardBlockOf 116 zero_hash) \<noteq> key_of (Accepted 116 zero_hash)"
  using db_keys_injective [of "ShardBlockOf 116 zero_hash" "Accepted 116 zero_hash"] by simp

text \<open>C33: eleven stores refine updates of a typed map. They are the stores of the beacon and the shard block, of their two
  indexes, of the two best states, of the committee of an epoch, of an accepted shard-to-beacon block, of the next cross-shard height,
  of an incoming cross-shard block and of the fee estimator, with the values given in marshalled form. On a database without I/O
  errors each of them returns no error and changes the typed map
  \<open>db_view\<close> at the keys it is meant for and at no other key of any table; the two block stores and the store of an
  incoming cross-shard block under the hypothesis that the block is new. The stores of serial numbers, commitments, transactions and tokens are
  not among them (see \<open>Tx_DB\<close> and \<open>Token_DB\<close>).
\<close>

theorem db_stores_refine:
  assumes D: "leveldb_spec D" and h: "wf_hash h" and "db_view D s (BeaconBlockOf h) = None"
    and "db_view D s (ShardBlockOf shardID h) = None" and "db_view D s (Incoming shardID crossID h) = None"
  shows
    "stores_view D (StoreBeaconBlock D (Some h) (Some val) s) ((db_view D s)(BeaconBlockOf h \<mapsto> key_of (BlockOf h), BlockOf h \<mapsto> val))
   \<and> stores_view D (StoreShardBlock D (Some h) (Some val) shardID s) ((db_view D s)(ShardBlockOf shardID h \<mapsto> key_of (BlockOf h), BlockOf h \<mapsto> val))
   \<and> stores_view D (StoreBeaconBlockIndex D h idx s) ((db_view D s)(BeaconIndexOfHash h \<mapsto> Uint64ToBytes idx, BeaconHashOfIndex idx \<mapsto> h))
   \<and> stores_view D (StoreShardBlockIndex D h idx shardID s) ((db_view D s)(IndexOfBlock h \<mapsto> heightKey (idx, shardID), BlockAtHeight idx shardID \<mapsto> h))
   \<and> stores_view D (StoreBeaconBestState D (Some val) s) ((db_view D s)(BeaconBest \<mapsto> val))
   \<and> stores_view D (StoreShardBestState D (Some val) shardID s) ((db_view D s)(ShardBest shardID \<mapsto> val))
   \<and> stores_view D (StoreCommitteeByEpoch D idx (Some val) s) ((db_view D s)(CommitteeAtEpoch idx \<mapsto> val))
   \<and> stores_view D (StoreAcceptedShardToBeacon D shardID idx h s) ((db_view D s)(Accepted shardID h \<mapsto> Uint64ToBytes idx))
   \<and> stores_view D (StoreCrossShardNextHeight D shardID crossID idx next s) ((db_view D s)(NextHeight shardID crossID idx \<mapsto> Uint64ToBytes next))
   \<and> stores_view D (StoreIncomingCrossShard D shardID crossID idx h s) ((db_view D s)(Incoming shardID crossID h \<mapsto> Uint64ToBytes idx))
   \<and> stores_view D (StoreFeeEstimator D val shardID s) ((db_view D s)(Fee shardID \<mapsto> val))"
proof (intro conjI)
  have new: "HasValue D (beaconBlockKey h) s \<noteq> Inr True" "HasValue D (shardBlockKey (shardID, h)) s \<noteq> Inr True"
      "HasValue D (incomingKey (shardID, crossID, h)) s \<noteq> Inr True"
    using assms(3-5) db_view_absent [of "BeaconBlockOf h" D s] db_view_absent [of "ShardBlockOf shardID h" D s]
      db_view_absent [of "Incoming shardID crossID h" D s] D h by simp_all
  show "stores_view D (StoreBeaconBlock D (Some h) (Some val) s) ((db_view D s)(BeaconBlockOf h \<mapsto> key_of (BlockOf h), BlockOf h \<mapsto> val))"
    using db_view_stores2 [OF stores_put2 [OF D, of "key_of (BeaconBlockOf h)" _ s "key_of (BlockOf h)"]] h new(1)
    by (simp add: stores_view_def StoreBeaconBlock_def)
  show "stores_view D (StoreShardBlock D (Some h) (Some val) shardID s) ((db_view D s)(ShardBlockOf shardID h \<mapsto> key_of (BlockOf h), BlockOf h \<mapsto> val))"
    using db_view_stores2 [OF stores_put2 [OF D, of "key_of (ShardBlockOf shardID h)" _ s "key_of (BlockOf h)"]] h new(2)
    by (simp add: stores_view_def StoreShardBlock_def)
  show "stores_view D (StoreBeaconBlockIndex D h idx s) ((db_view D s)(BeaconIndexOfHash h \<mapsto> Uint64ToBytes idx, BeaconHashOfIndex idx \<mapsto> h))"
    using db_view_stores2 [OF stores_put2 [OF D, of "key_of (BeaconIndexOfHash h)" _ s "key_of (BeaconHashOfIndex idx)"]] h
    by (simp add: stores_view_def StoreBeaconBlockIndex_def)
  show "stores_view D (StoreShardBlockIndex D h idx shardID s) ((db_view D s)(IndexOfBlock h \<mapsto> heightKey (idx, shardID), BlockAtHeight idx shardID \<mapsto> h))"
    using db_view_stores2 [OF stores_put2 [OF D, of "key_of (IndexOfBlock h)" _ s "key_of (BlockAtHeight idx shardID)"]] h
    by (simp add: stores_view_def StoreShardBlockIndex_def)
  show "stores_view D (StoreBeaconBestState D (Some val) s) ((db_view D s)(BeaconBest \<mapsto> val))"
    using db_view_stores [OF stores_db_Put [OF D, of "key_of BeaconBest"]] by (simp add: stores_view_def StoreBeaconBestState_def)
  show "stores_view D (StoreShardBestState D (Some val) shardID s) ((db_view D s)(ShardBest shardID \<mapsto> val))"
    using db_view_stores [OF stores_db_Put [OF D, of "key_of (ShardBest shardID)"]] by (simp add: stores_view_def StoreShardBestState_def)
  show "stores_view D (StoreCommitteeByEpoch D idx (Some val) s) ((db_view D s)(CommitteeAtEpoch idx \<mapsto> val))"
    using db_view_stores [OF stores_db_Put [OF D, of "key_of (CommitteeAtEpoch idx)"]] by (simp add: stores_view_def StoreCommitteeByEpoch_def)
  show "stores_view D (StoreAcceptedShardToBeacon D shardID idx h s) ((db_view D s)(Accepted shardID h \<mapsto> Uint64ToBytes idx))"
    using db_view_stores [OF stores_db_Put [OF D, of "key_of (Accepted shardID h)"]] h by (simp add: stores_view_def StoreAcceptedShardToBeacon_def)
  show "stores_view D (StoreCrossShardNextHeight D shardID crossID idx next s) ((db_view D s)(NextHeight shardID crossID idx \<mapsto> Uint64ToBytes next))"
    using db_view_stores [OF stores_db_Put [OF D, of "key_of (NextHeight shardID crossID idx)"]] by (simp add: stores_view_def StoreCrossShardNextHeight_def)
  show "stores_view D (StoreIncomingCrossShard D shardID crossID idx h s) ((db_view D s)(Incoming shardID crossID h \<mapsto> Uint64ToBytes idx))"
    using db_view_stores [OF stores_db_Put [OF D, of "key_of (Incoming shardID crossID h)"]] h new(3) by (simp add: stores_view_def StoreIncomingCrossShard_def)
  show "stores_view D (StoreFeeEstimator D val shardID s) ((db_view D s)(Fee shardID \<mapsto> val))"
    using db_view_stores [OF stores_db_Put [OF D, of "key_of (Fee shardID)"]] by (simp add: stores_view_def StoreFeeEstimator_def)
qed

theorem db_stores_refine_witness:
  "stores_view mem_db (StoreBeaconBlock mem_db (Some zero_hash) (Some [1]) fmempty)
     ((db_view mem_db fmempty)(BeaconBlockOf zero_hash \<mapsto> key_of (BlockOf zero_hash), BlockOf zero_hash \<mapsto> [1]))"
  by (rule db_stores_refine [where shardID = 0 and crossID = 0, THEN conjunct1, OF leveldb_spec_mem_db wf_zero_hash])
    (simp_all add: db_view_def)

text \<open>
  what \<open>DeleteBeaconBlock\<close> leaves behind. It removes the block, its entry in the chain and the
  index of its hash, but not the entry that leads from the height to the hash, which was stored
  under another key than the one it deletes: the height still resolves to the deleted block.
\<close>

theorem delete_beacon_block_stale:
  assumes "leveldb_spec D" and "wf_hash h" and "db_view D s (BeaconHashOfIndex idx) = Some h"
  shows "\<exists>s'. DeleteBeaconBlock D h idx s = (s', None) \<and> FetchBeaconBlock D h s' = Inl UnexpectedError
    \<and> db_view D s' (BeaconIndexOfHash h) = None \<and> GetBeaconBlockHashByIndex D idx s' = Inr h"
proof -
  have del: "ldb_lookup D s' = m \<Longrightarrow> stores D (db_Delete D k s') (m(k := None))" for s' m k
    using stores_db_Delete [OF assms(1)] by auto
  have "stores D (DeleteBeaconBlock D h idx s)
      ((ldb_lookup D s)(beaconBlockKey h := None, blockKey h := None, beaconIndexKey h := None, Uint64ToBytes idx := None, beaconBlockKey h := None))"
    unfolding DeleteBeaconBlock_def
    by (rule stores_andStore [OF del [OF refl]], rule stores_andStore [OF del], assumption,
        rule stores_andStore [OF del], assumption, rule stores_andStore [OF del], assumption, rule del, assumption)
  then obtain s' where s': "DeleteBeaconBlock D h idx s = (s', None)" and m: "ldb_lookup D s' =
      (ldb_lookup D s)(beaconBlockKey h := None, blockKey h := None, beaconIndexKey h := None, Uint64ToBytes idx := None, beaconBlockKey h := None)"
    by (cases "DeleteBeaconBlock D h idx s") (auto simp: stores_def)
  have "beaconIndexKey (Uint64ToBytes idx) \<noteq> Uint64ToBytes idx" by (auto simp: beaconIndexKey_def prefix_defs dest: arg_cong [of _ _ length])
  moreover have "beaconIndexKey (Uint64ToBytes idx) \<noteq> beaconBlockKey h" "beaconIndexKey (Uint64ToBytes idx) \<noteq> blockKey h"
      "beaconIndexKey (Uint64ToBytes idx) \<noteq> beaconIndexKey h"
    using db_space.key_inject [of "BeaconHashOfIndex idx" "BeaconBlockOf h"] db_space.key_inject [of "BeaconHashOfIndex idx" "BlockOf h"]
      db_space.key_inject [of "BeaconHashOfIndex idx" "BeaconIndexOfHash h"] assms(2) by simp_all
  ultimately have "ldb_lookup D s' (beaconIndexKey (Uint64ToBytes idx)) = Some h"
    using assms(3) by (simp add: m db_view_def)
  then have "GetBeaconBlockHashByIndex D idx s' = Inr h"
    using assms(1,2) by (simp add: GetBeaconBlockHashByIndex_def db_simps)
  moreover have "ldb_lookup D s' (beaconIndexKey h) = None" "ldb_lookup D s' (blockKey h) = None" by (simp_all add: m)
  ultimately show ?thesis
    using s' assms(1,2) by (simp add: FetchBeaconBlock_def HasBeaconBlock_def db_simps db_view_def)
qed

theorem delete_beacon_block_stale_witness:
  "\<exists>s'. DeleteBeaconBlock mem_db zero_hash 7 (fst (StoreBeaconBlockIndex mem_db zero_hash 7 fmempty)) = (s', None)
    \<and> GetBeaconBlockHashByIndex mem_db 7 s' = Inr zero_hash"
proof -
  have "db_view mem_db (fst (StoreBeaconBlockIndex mem_db zero_hash 7 fmempty)) (BeaconHashOfIndex 7) = Some zero_hash"
    using db_view_stores2 [OF stores_put2 [OF leveldb_spec_mem_db, of "key_of (BeaconIndexOfHash zero_hash)" "Uint64ToBytes 7" fmempty
        "key_of (BeaconHashOfIndex 7)" zero_hash]]
    by (simp add: StoreBeaconBlockIndex_def)
  from delete_beacon_block_stale [OF leveldb_spec_mem_db wf_zero_hash this] show ?thesis by blast
qed

end
