(* ===== verification/Cross_Shard_Pool.thy ===== *)
theory Cross_Shard_Pool
  imports Beacon_DB Beacon_State Shard_Pool
begin

text \<open>
  \<open>src/mempool/cross_shard_pool_v2.go\<close>: the pool of blocks other shards sent to this shard, and the
  chain of cross-shard heights that \<open>InsertBeaconBlock\<close> writes to the database and the pool reads.
  For every source shard the pool keeps a list of valid blocks, in the order the beacon chain
  confirmed them, and a list of pending ones sorted by height. The loops over the maps touch one
  source shard at a time, so the model visits the shards in ascending order.
\<close>

section \<open>The chain of heights, as the beacon writes it\<close>

text \<open>
  One destination of one confirmed block: the last height is linked to the new one, which becomes
  the end of the chain. The errors of the two stores are ignored. The goroutines of the loop
  hold \<open>lockMu\<close> while they run, one after the other in some order of the source shards, so the
  model takes that order as an argument. Each one ends with \<open>UpdatePool\<close> on a cross-shard pool,
  which reads the stored heights and changes the pool only: that is \<open>csp_updatePool\<close> below.
\<close>

type_synonym cross_state = "(byte, (byte, uint64) fmap) fmap"

definition store_cross_shard :: "'s leveldb \<Rightarrow> byte \<Rightarrow> uint64 \<Rightarrow> byte \<Rightarrow> cross_state \<times> 's \<Rightarrow> cross_state \<times> 's" where
  "store_cross_shard D fromShard waitHeight toShard = (\<lambda>(lastCross, s).
     if fromShard = toShard then (lastCross, s)
     else let row = map_get fmempty lastCross fromShard;
              lastHeight = map_get 0 row toShard;
              s1 = fst (StoreCrossShardNextHeight D fromShard toShard lastHeight waitHeight s);
              s2 = fst (StoreCrossShardNextHeight D fromShard toShard waitHeight 0 s1)
          in (fmupd fromShard (fmupd toShard waitHeight row) lastCross, s2))"

definition store_cross_blocks :: "'s leveldb \<Rightarrow> byte \<Rightarrow> ShardState list \<Rightarrow> cross_state \<times> 's \<Rightarrow> cross_state \<times> 's" where
  "store_cross_blocks D fromShard shardBlocks =
     fold (\<lambda>shardBlock. fold (store_cross_shard D fromShard (ss_Height shardBlock)) (ss_CrossShard shardBlock)) shardBlocks"

definition store_cross_state ::
  "'s leveldb \<Rightarrow> (byte, ShardState list) fmap \<Rightarrow> byte list \<Rightarrow> cross_state \<times> 's \<Rightarrow> cross_state \<times> 's" where
  "store_cross_state D shardState order = fold (\<lambda>k. store_cross_blocks D k (map_get [] shardState k)) order"

section \<open>The pool\<close>

type_synonym ('c, 't, 'p) csb = "('c, 't, 'p) CrossShardBlock"

record ('c, 't, 'p) CrossShardPool =
  csp_shardID :: byte
  csp_validPool :: "(byte, ('c, 't, 'p) csb list) fmap"
  csp_pendingPool :: "(byte, ('c, 't, 'p) csb list) fmap"
  csp_crossShardState :: "(byte, uint64) fmap"

definition MAX_PENDING_CROSS_SHARD_IN_POOL :: nat where "MAX_PENDING_CROSS_SHARD_IN_POOL = 2000"

datatype cross_error =
    CrossWrongShard | CrossOldBlock | CrossDuplicate | CrossNoCommittee | CrossBadCommittee
  | CrossSignature agg_error | CrossMaxPending

abbreviation cht :: "('c, 't, 'p) csb \<Rightarrow> uint64" where "cht b \<equiv> sh_Height (csb_Header b)"
abbreviation csp_valid :: "('c, 't, 'p) CrossShardPool \<Rightarrow> byte \<Rightarrow> ('c, 't, 'p) csb list" where
  "csp_valid p s \<equiv> map_get [] (csp_validPool p) s"
abbreviation csp_pending :: "('c, 't, 'p) CrossShardPool \<Rightarrow> byte \<Rightarrow> ('c, 't, 'p) csb list" where
  "csp_pending p s \<equiv> map_get [] (csp_pendingPool p) s"
abbreviation csp_state :: "('c, 't, 'p) CrossShardPool \<Rightarrow> byte \<Rightarrow> uint64" where
  "csp_state p s \<equiv> map_get 0 (csp_crossShardState p) s"

definition newCrossShardPool :: "byte \<Rightarrow> ('c, 't, 'p) CrossShardPool" where
  "newCrossShardPool shardID =
     \<lparr>csp_shardID = shardID, csp_validPool = fmempty, csp_pendingPool = fmempty, csp_crossShardState = fmempty\<rparr>"

definition GetNextCrossShardHeight :: "'s leveldb \<Rightarrow> 's \<Rightarrow> byte \<Rightarrow> byte \<Rightarrow> uint64 \<Rightarrow> fault + uint64" where
  "GetNextCrossShardHeight D s fromShard toShard startHeight =
     andThen (FetchCrossShardNextHeight D fromShard toShard startHeight s) (\<lambda>r.
       case r of Inl _ \<Rightarrow> Inr 0 | Inr nextHeight \<Rightarrow> Inr nextHeight)"

definition csp_removeBlockByHeight :: "(byte, uint64) fmap \<Rightarrow> ('c, 't, 'p) CrossShardPool \<Rightarrow> ('c, 't, 'p) CrossShardPool" where
  "csp_removeBlockByHeight since p =
     (let keep = (\<lambda>s. dropWhile (\<lambda>b. cht b \<le> map_get 0 since s)) in
      p\<lparr>csp_validPool := fmmap_keys keep (csp_validPool p), csp_pendingPool := fmmap_keys keep (csp_pendingPool p)\<rparr>)"

text \<open>
  The scan of a pending list: \<open>index\<close> counts the blocks passed, \<open>removeIndex\<close> those below the
  height waited for; the last result is the expected height when the scan stops at a gap.
\<close>

fun csp_scan ::
  "(uint64 \<Rightarrow> fault + uint64) \<Rightarrow> uint64 \<Rightarrow> nat \<Rightarrow> nat \<Rightarrow> ('c, 't, 'p) csb list \<Rightarrow> fault + nat \<times> nat \<times> uint64 option" where
  "csp_scan nxt startHeight i removeIndex [] = Inr (i, removeIndex, None)"
| "csp_scan nxt startHeight i removeIndex (blk # blks) =
     andThen (nxt startHeight) (\<lambda>waitHeight.
       if waitHeight > cht blk then csp_scan nxt startHeight (i + 1) (removeIndex + 1) blks
       else if waitHeight = cht blk then csp_scan nxt waitHeight (i + 1) removeIndex blks
       else Inr (i, removeIndex, Some waitHeight))"

definition csp_start :: "('c, 't, 'p) CrossShardPool \<Rightarrow> byte \<Rightarrow> uint64" where
  "csp_start p s = (if length (csp_valid p s) > 0 then cht (csp_valid p s ! (length (csp_valid p s) - 1)) else csp_state p s)"

text \<open>The slices taken after the scan: the first \<open>i\<close> blocks leave the pending list, those from \<open>removeIndex\<close> on become valid.\<close>

definition csp_move :: "byte \<Rightarrow> nat \<Rightarrow> nat \<Rightarrow> ('c, 't, 'p) CrossShardPool \<Rightarrow> ('c, 't, 'p) CrossShardPool" where
  "csp_move s i removeIndex p =
     (if i > 0 \<or> removeIndex > 0 then
        let blks = csp_pending p s;
            valid = drop removeIndex (take i blks);
            p1 = p\<lparr>csp_pendingPool := fmupd s (drop i blks) (csp_pendingPool p)\<rparr>
        in if length valid > 0 then p1\<lparr>csp_validPool := fmupd s (csp_valid p s @ valid) (csp_validPool p)\<rparr> else p1
      else p)"

definition csp_update_shard ::
  "(byte \<Rightarrow> byte \<Rightarrow> uint64 \<Rightarrow> fault + uint64) \<Rightarrow> byte \<Rightarrow> ('c, 't, 'p) CrossShardPool \<times> (byte, uint64) fmap
   \<Rightarrow> fault + ('c, 't, 'p) CrossShardPool \<times> (byte, uint64) fmap" where
  "csp_update_shard nextHeight s = (\<lambda>(p, expectedHeight).
     andThen (csp_scan (nextHeight s (csp_shardID p)) (csp_start p s) 0 0 (csp_pending p s)) (\<lambda>(i, removeIndex, wait).
       Inr (csp_move s i removeIndex p,
            case wait of None \<Rightarrow> expectedHeight | Some h \<Rightarrow> fmupd s h expectedHeight)))"

fun csp_update_shards ::
  "(byte \<Rightarrow> byte \<Rightarrow> uint64 \<Rightarrow> fault + uint64) \<Rightarrow> byte list \<Rightarrow> ('c, 't, 'p) CrossShardPool \<times> (byte, uint64) fmap
   \<Rightarrow> fault + ('c, 't, 'p) CrossShardPool \<times> (byte, uint64) fmap" where
  "csp_update_shards nextHeight [] a = Inr a"
| "csp_update_shards nextHeight (s # ss) a =
     andThen (csp_update_shard nextHeight s a) (csp_update_shards nextHeight ss)"

text \<open>\<open>best\<close> is \<open>BestCrossShard\<close> of the best state of this shard.\<close>

definition csp_updatePool ::
  "(byte \<Rightarrow> byte \<Rightarrow> uint64 \<Rightarrow> fault + uint64) \<Rightarrow> (byte, uint64) fmap \<Rightarrow> ('c, 't, 'p) CrossShardPool
   \<Rightarrow> fault + ('c, 't, 'p) CrossShardPool \<times> (byte, uint64) fmap" where
  "csp_updatePool nextHeight best p =
     (let p1 = csp_removeBlockByHeight best (p\<lparr>csp_crossShardState := best\<rparr>)
      in csp_update_shards nextHeight (sorted_keys (csp_pendingPool p1)) (p1, fmempty))"

text \<open>\<open>unmarshal\<close> is \<open>json.Unmarshal\<close> into the committees by shard; \<open>validateAgg\<close> is \<open>ValidateAggSignature\<close>.\<close>

definition AddCrossShardBlock ::
  "'s leveldb \<Rightarrow> 's \<Rightarrow> (bytes \<Rightarrow> bytes) \<Rightarrow> (bytes \<Rightarrow> (byte, string list) fmap option)
   \<Rightarrow> (nat list list \<Rightarrow> string list \<Rightarrow> string \<Rightarrow> string \<Rightarrow> hash \<Rightarrow> fault + agg_error option)
   \<Rightarrow> (byte, uint64) fmap \<Rightarrow> ('c, 't, 'p) csb \<Rightarrow> ('c, 't, 'p) CrossShardPool
   \<Rightarrow> fault + ('c, 't, 'p) CrossShardPool \<times> (cross_error + (byte, uint64) fmap)" where
  "AddCrossShardBlock D db sum256 unmarshal validateAgg best blk p =
     (let shardID = sh_ShardID (csb_Header blk); pending = csp_pending p shardID in
      if csb_ToShardID blk \<noteq> csp_shardID p then Inr (p, Inl CrossWrongShard)
      else if cht blk \<le> csp_state p shardID then Inr (p, Inl CrossOldBlock)
      else if list_ex (\<lambda>b. cht b = cht blk) (csp_valid p shardID) then Inr (p, Inl CrossDuplicate)
      else if list_ex (\<lambda>b. cht b = cht blk) pending then Inr (p, Inl CrossDuplicate)
      else case FetchCommitteeByEpoch D (sh_BeaconHeight (csb_Header blk)) db of
        Inl _ \<Rightarrow> Inr (p, Inl CrossNoCommittee)
      | Inr shardCommitteeByte \<Rightarrow>
         (case unmarshal shardCommitteeByte of
            None \<Rightarrow> Inr (p, Inl CrossBadCommittee)
          | Some shardCommittee \<Rightarrow>
             andThen (validateAgg (csb_ValidatorsIdx blk) (map_get [] shardCommittee shardID) (csb_AggregatedSig blk)
                        (csb_R blk) (CrossShardBlock_Hash sum256 blk)) (\<lambda>err.
               case err of
                 Some e \<Rightarrow> Inr (p, Inl (CrossSignature e))
               | None \<Rightarrow>
                   if length pending > MAX_PENDING_CROSS_SHARD_IN_POOL \<and> \<not> cht (last pending) > cht blk
                   then Inr (p, Inl CrossMaxPending)
                   else let room = (if length pending > MAX_PENDING_CROSS_SHARD_IN_POOL then butlast pending else pending);
                            p1 = p\<lparr>csp_pendingPool := fmupd shardID (sort_key cht (room @ [blk])) (csp_pendingPool p)\<rparr>
                        in andThen (csp_updatePool (GetNextCrossShardHeight D db) best p1) (\<lambda>(p2, expectedHeight).
                             Inr (p2, Inr expectedHeight)))))"

section \<open>Getters\<close>

definition csp_GetValidBlock :: "(byte, uint64) fmap option \<Rightarrow> ('c, 't, 'p) CrossShardPool \<Rightarrow> (byte, ('c, 't, 'p) csb list) fmap" where
  "csp_GetValidBlock limit p =
     (let lim = (\<lambda>s. case limit of None \<Rightarrow> 0 | Some m \<Rightarrow> map_get 0 m s);
          blocks = (\<lambda>s. takeWhile (\<lambda>b. \<not> (lim s \<noteq> 0 \<and> lim s < cht b)) (csp_valid p s))
      in fmmap_keys (\<lambda>s _. blocks s) (fmfilter (\<lambda>s. blocks s \<noteq> []) (csp_validPool p)))"

definition csp_GetValidBlockHash :: "(bytes \<Rightarrow> bytes) \<Rightarrow> ('c, 't, 'p) CrossShardPool \<Rightarrow> (byte, hash list) fmap" where
  "csp_GetValidBlockHash sum256 p =
     fmmap (map (CrossShardBlock_Hash sum256)) (fmfilter (\<lambda>s. csp_valid p s \<noteq> []) (csp_validPool p))"

definition csp_GetValidBlockHeight :: "('c, 't, 'p) CrossShardPool \<Rightarrow> (byte, uint64 list) fmap" where
  "csp_GetValidBlockHeight p = fmmap (map cht) (fmfilter (\<lambda>s. csp_valid p s \<noteq> []) (csp_validPool p))"

definition csp_GetPendingBlockHeight :: "('c, 't, 'p) CrossShardPool \<Rightarrow> (byte, uint64 list) fmap" where
  "csp_GetPendingBlockHeight p = fmmap (map cht) (fmfilter (\<lambda>s. csp_pending p s \<noteq> []) (csp_pendingPool p))"

definition csp_GetAllBlockHeight :: "('c, 't, 'p) CrossShardPool \<Rightarrow> (byte, uint64 list) fmap" where
  "csp_GetAllBlockHeight p =
     fold (\<lambda>s m. if csp_pending p s = [] then m else fmupd s (map_get [] m s @ map cht (csp_pending p s)) m)
       (sorted_keys (csp_pendingPool p)) (csp_GetValidBlockHeight p)"

definition csp_GetLatestValidBlockHeight :: "('c, 't, 'p) CrossShardPool \<Rightarrow> (byte, uint64) fmap" where
  "csp_GetLatestValidBlockHeight p = fmmap (\<lambda>bs. if length bs > 0 then cht (last bs) else 0) (csp_validPool p)"

definition csp_GetBlockByHeight :: "('c, 't, 'p) CrossShardPool \<Rightarrow> byte \<Rightarrow> uint64 \<Rightarrow> ('c, 't, 'p) csb option" where
  "csp_GetBlockByHeight p s height =
     (case find (\<lambda>b. cht b = height) (csp_valid p s) of
        Some b \<Rightarrow> Some b | None \<Rightarrow> find (\<lambda>b. cht b = height) (csp_pending p s))"

section \<open>The chain of heights\<close>

text \<open>Following the next heights from \<open>start\<close> visits exactly \<open>hs\<close>, which increase, and then ends.\<close>

fun chain_from :: "(uint64 \<Rightarrow> fault + uint64) \<Rightarrow> uint64 \<Rightarrow> uint64 list \<Rightarrow> bool" where
  "chain_from nxt start [] \<longleftrightarrow> nxt start = Inr 0"
| "chain_from nxt start (h # hs) \<longleftrightarrow> nxt start = Inr h \<and> start < h \<and> chain_from nxt h hs"

lemma chain_from_sorted: "chain_from nxt start hs \<Longrightarrow> sorted_wrt (<) (start # hs)"
proof (induction hs arbitrary: start)
  case (Cons h hs)
  then have "sorted_wrt (<) (h # hs)" "start < h" by auto
  then show ?case by (auto intro: less_trans)
qed simp

lemma chain_from_extend:
  assumes "chain_from nxt start hs" and "last (start # hs) < w"
    and "\<And>c. nxt' c = (if c = w then Inr 0 else if c = last (start # hs) then Inr w else nxt c)"
  shows "chain_from nxt' start (hs @ [w])"
  using assms
proof (induction hs arbitrary: start)
  case (Cons h hs)
  have lt: "start < last (h # hs)" using chain_from_sorted [OF Cons.prems(1)] by (cases hs rule: rev_cases) auto
  have "chain_from nxt' h (hs @ [w])" using Cons.prems by (intro Cons.IH) auto
  moreover have "nxt' start = Inr h" using Cons.prems lt by auto
  ultimately show ?case using Cons.prems(1) by simp
qed auto

lemma chain_from_cong:
  assumes "chain_from nxt start hs" and "\<And>c. c \<in> set (start # hs) \<Longrightarrow> nxt' c = nxt c"
  shows "chain_from nxt' start hs"
  using assms by (induction hs arbitrary: start) auto

lemma chain_from_last: "chain_from nxt start hs \<Longrightarrow> nxt (last (start # hs)) = Inr 0"
  by (induction hs arbitrary: start) auto

lemma GetNext_lookup:
  assumes "leveldb_spec D"
  shows "GetNextCrossShardHeight D s f t c =
    (case ldb_lookup D s (nextCrossShardKey (f, t, c)) of None \<Rightarrow> Inr 0 | Some v \<Rightarrow> BytesToUint64 v)"
  using assms
  by (auto simp: GetNextCrossShardHeight_def FetchCrossShardNextHeight_def HasCrossShardNextHeight_def
      db_simps Let_def andThen_def split: option.splits sum.splits)

lemma GetNext_store:
  assumes "leveldb_spec D"
  shows "GetNextCrossShardHeight D (fst (StoreCrossShardNextHeight D f t c h s)) f' t' c' =
    (if (f', t', c') = (f, t, c) then Inr h else GetNextCrossShardHeight D s f' t' c')"
proof -
  have "ldb_lookup D (fst (StoreCrossShardNextHeight D f t c h s))
      = (ldb_lookup D s)(nextCrossShardKey (f, t, c) \<mapsto> Uint64ToBytes h)"
    using stores_db_Put [OF assms] by (simp add: stores_def StoreCrossShardNextHeight_def)
  then show ?thesis using assms
    by (auto simp: GetNext_lookup ncsh.key_inject BytesToUint64_Uint64ToBytes)
qed

definition cross_chain :: "'s leveldb \<Rightarrow> byte \<Rightarrow> byte \<Rightarrow> uint64 list \<Rightarrow> cross_state \<times> 's \<Rightarrow> bool" where
  "cross_chain D f t hs = (\<lambda>(lastCross, s).
     chain_from (GetNextCrossShardHeight D s f t) 0 hs \<and> map_get 0 (map_get fmempty lastCross f) t = last (0 # hs))"

lemma cross_chain_other:
  assumes "leveldb_spec D" and "f' \<noteq> f \<or> t' \<noteq> t"
  shows "cross_chain D f' t' hs (store_cross_shard D f w t st) \<longleftrightarrow> cross_chain D f' t' hs st"
proof (cases st)
  case (Pair lc s)
  have "GetNextCrossShardHeight D (snd (store_cross_shard D f w t (lc, s))) f' t' = GetNextCrossShardHeight D s f' t'"
    using assms(2) by (intro ext) (auto simp: store_cross_shard_def Let_def GetNext_store [OF assms(1)])
  moreover have "map_get 0 (map_get fmempty (fst (store_cross_shard D f w t (lc, s))) f') t' = map_get 0 (map_get fmempty lc f') t'"
    using assms(2) by (auto simp: store_cross_shard_def Let_def)
  ultimately show ?thesis by (simp add: Pair cross_chain_def split_beta)
qed

lemma cross_chain_add:
  assumes D: "leveldb_spec D" and "f \<noteq> t" and "cross_chain D f t hs st" and "last (0 # hs) < w"
  shows "cross_chain D f t (hs @ [w]) (store_cross_shard D f w t st)"
proof (cases st)
  case (Pair lc s)
  have "chain_from (GetNextCrossShardHeight D (snd (store_cross_shard D f w t (lc, s))) f t) 0 (hs @ [w])"
  proof (rule chain_from_extend)
    show "chain_from (GetNextCrossShardHeight D s f t) 0 hs" using assms(3) Pair by (simp add: cross_chain_def)
    show "last (0 # hs) < w" by (rule assms(4))
    show "GetNextCrossShardHeight D (snd (store_cross_shard D f w t (lc, s))) f t c =
        (if c = w then Inr 0 else if c = last (0 # hs) then Inr w else GetNextCrossShardHeight D s f t c)" for c
      using assms(2,3) Pair by (auto simp: store_cross_shard_def Let_def GetNext_store [OF D] cross_chain_def)
  qed
  moreover have "map_get 0 (map_get fmempty (fst (store_cross_shard D f w t (lc, s))) f) t = w"
    using assms(2) by (simp add: store_cross_shard_def Let_def)
  ultimately show ?thesis by (simp add: Pair cross_chain_def split_beta)
qed

text \<open>A destination listed twice in one block leaves the chain as it is.\<close>

lemma cross_chain_again:
  assumes D: "leveldb_spec D" and "f \<noteq> t" and "cross_chain D f t (hs @ [w]) st"
  shows "cross_chain D f t (hs @ [w]) (store_cross_shard D f w t st)"
proof (cases st)
  case (Pair lc s)
  have c: "chain_from (GetNextCrossShardHeight D s f t) 0 (hs @ [w])" using assms(3) Pair by (simp add: cross_chain_def)
  have "chain_from (GetNextCrossShardHeight D (snd (store_cross_shard D f w t (lc, s))) f t) 0 (hs @ [w])"
    by (rule chain_from_cong [OF c])
      (use chain_from_last [OF c] assms(2,3) Pair in
        \<open>auto simp: store_cross_shard_def Let_def GetNext_store [OF D] cross_chain_def\<close>)
  moreover have "map_get 0 (map_get fmempty (fst (store_cross_shard D f w t (lc, s))) f) t = w"
    using assms(2) by (simp add: store_cross_shard_def Let_def)
  ultimately show ?thesis by (simp add: Pair cross_chain_def split_beta)
qed

lemma cross_chain_block:
  assumes "leveldb_spec D" and "f \<noteq> t"
  shows "cross_chain D f t hs st \<Longrightarrow> last (0 # hs) < w \<Longrightarrow>
      cross_chain D f t (if t \<in> set ts then hs @ [w] else hs) (fold (store_cross_shard D f w) ts st)"
    and "cross_chain D f t (hs @ [w]) st \<Longrightarrow> cross_chain D f t (hs @ [w]) (fold (store_cross_shard D f w) ts st)"
proof -
  show again: "cross_chain D f t (hs @ [w]) (fold (store_cross_shard D f w) ts st)"
    if "cross_chain D f t (hs @ [w]) st" for st ts
    using that
  proof (induction ts arbitrary: st)
    case (Cons a ts)
    then show ?case
      using cross_chain_again [OF assms] cross_chain_other [OF assms(1), of f f t a] by (cases "a = t") auto
  qed simp
  show "cross_chain D f t (if t \<in> set ts then hs @ [w] else hs) (fold (store_cross_shard D f w) ts st)"
    if "cross_chain D f t hs st" "last (0 # hs) < w"
    using that(1)
  proof (induction ts arbitrary: st)
    case (Cons a ts)
    show ?case
    proof (cases "a = t")
      case True
      then show ?thesis using again cross_chain_add [OF assms Cons.prems that(2)] by simp
    next
      case False
      then show ?thesis using Cons.IH [of "store_cross_shard D f w a st"] Cons.prems
          cross_chain_other [OF assms(1), of f f t a] by simp
    qed
  qed simp
qed

lemma cross_chain_blocks:
  assumes "leveldb_spec D" and "f \<noteq> t" and "cross_chain D f t hs st"
    and "sorted_wrt (<) (last (0 # hs) # map ss_Height blocks)"
  shows "cross_chain D f t (hs @ map ss_Height (filter (\<lambda>b. t \<in> set (ss_CrossShard b)) blocks)) (store_cross_blocks D f blocks st)"
  using assms(3,4)
proof (induction blocks arbitrary: hs st)
  case (Cons b bs)
  let ?hs = "if t \<in> set (ss_CrossShard b) then hs @ [ss_Height b] else hs"
  let ?st = "fold (store_cross_shard D f (ss_Height b)) (ss_CrossShard b) st"
  have "cross_chain D f t ?hs ?st" using cross_chain_block(1) [OF assms(1,2)] Cons.prems by simp
  moreover have "sorted_wrt (<) (last (0 # ?hs) # map ss_Height bs)" using Cons.prems(2) by auto
  ultimately show ?case using Cons.IH [of ?hs ?st] by (auto simp: store_cross_blocks_def)
qed (simp add: store_cross_blocks_def)

lemma cross_chain_blocks_other:
  assumes "leveldb_spec D" and "f' \<noteq> f"
  shows "cross_chain D f' t hs (store_cross_blocks D f blocks st) \<longleftrightarrow> cross_chain D f' t hs st"
proof -
  have ts: "cross_chain D f' t hs (fold (store_cross_shard D f w) ts st) \<longleftrightarrow> cross_chain D f' t hs st" for w ts st
    by (induction ts arbitrary: st) (simp_all add: cross_chain_other [OF assms(1) disjI1, OF assms(2)])
  show ?thesis by (induction blocks arbitrary: st) (simp_all add: store_cross_blocks_def ts)
qed

section \<open>The scan of the pending list\<close>

text \<open>How many blocks of the list agree with the heights to come.\<close>

fun agree :: "uint64 list \<Rightarrow> ('c, 't, 'p) csb list \<Rightarrow> nat" where
  "agree (h # hs) (b # bs) = (if h = cht b then Suc (agree hs bs) else 0)"
| "agree _ _ = 0"

lemma agree_le: "agree hs bs \<le> length bs"
  by (induction hs bs rule: agree.induct) auto

lemma agree_heights: "map cht (take (agree hs bs) bs) = take (agree hs bs) hs"
  by (induction hs bs rule: agree.induct) auto

lemma csp_scan_stale:
  assumes "nxt start = Inr h" and "\<forall>a \<in> set as. cht a < h"
  shows "csp_scan nxt start i r (as @ bs) = csp_scan nxt start (i + length as) (r + length as) bs"
  using assms(2) by (induction as arbitrary: i r) (simp_all add: assms(1) andThen_def)

lemma csp_scan_confirmed:
  assumes "chain_from nxt start todo" and "sorted_wrt (<) (map cht bs)" and "set (map cht bs) \<subseteq> set todo"
  shows "csp_scan nxt start i r bs =
    Inr (i + agree todo bs, r, if agree todo bs < length bs then Some (todo ! agree todo bs) else None)"
  using assms
proof (induction bs arbitrary: start todo i)
  case (Cons b bs)
  then obtain h hs where todo: "todo = h # hs" by (cases todo) auto
  have nx: "nxt start = Inr h" "chain_from nxt h hs" "sorted_wrt (<) (h # hs)"
    using Cons.prems(1) chain_from_sorted [of nxt h hs] todo by auto
  show ?case
  proof (cases "h = cht b")
    case True
    have "set (map cht bs) \<subseteq> set hs"
      using Cons.prems(2,3) todo True by (fastforce simp: image_subset_iff)
    then show ?thesis using Cons.IH [OF nx(2)] Cons.prems(2) nx(1) todo True by (simp add: andThen_def)
  next
    case False
    then have "h < cht b" using Cons.prems(3) nx(3) todo by auto
    then show ?thesis using nx(1) todo False by (auto simp: andThen_def)
  qed
qed simp

lemma csp_move_lists:
  "csp_pending (csp_move s i r p) k = (if k = s then drop i (csp_pending p s) else csp_pending p k)"
  "csp_valid (csp_move s i r p) k = (if k = s then csp_valid p s @ drop r (take i (csp_pending p s)) else csp_valid p k)"
  by (auto simp: csp_move_def Let_def)

lemma csp_move_rest:
  "csp_shardID (csp_move s i r p) = csp_shardID p" "csp_crossShardState (csp_move s i r p) = csp_crossShardState p"
  by (simp_all add: csp_move_def Let_def)

lemma csp_update_shard_Inr:
  assumes "csp_update_shard nextHeight s (p, e) = Inr (p', e')"
  obtains i r w where "csp_scan (nextHeight s (csp_shardID p)) (csp_start p s) 0 0 (csp_pending p s) = Inr (i, r, w)"
    and "p' = csp_move s i r p" and "e' = (case w of None \<Rightarrow> e | Some h \<Rightarrow> fmupd s h e)"
proof -
  obtain i r w where sc: "csp_scan (nextHeight s (csp_shardID p)) (csp_start p s) 0 0 (csp_pending p s) = Inr (i, r, w)"
    using assms unfolding csp_update_shard_def prod.case andThen_Inr_iff by fastforce
  then have "p' = csp_move s i r p \<and> e' = (case w of None \<Rightarrow> e | Some h \<Rightarrow> fmupd s h e)"
    using assms by (simp add: csp_update_shard_def andThen_def)
  with sc show ?thesis by (intro that) auto
qed

lemma csp_update_confirmed:
  assumes "chain_from (nextHeight s (csp_shardID p)) (csp_start p s) todo"
    and "csp_pending p s = as @ bs" and "todo \<noteq> [] \<longrightarrow> (\<forall>a \<in> set as. cht a < hd todo)" and "todo = [] \<longrightarrow> as = []"
    and "sorted_wrt (<) (map cht bs)" and "set (map cht bs) \<subseteq> set todo"
  obtains p' e' where "csp_update_shard nextHeight s (p, e) = Inr (p', e')"
    and "csp_valid p' s = csp_valid p s @ take (agree todo bs) bs"
    and "csp_pending p' s = drop (agree todo bs) bs"
    and "fmlookup e' s = (if agree todo bs < length bs then Some (todo ! agree todo bs) else fmlookup e s)"
    and "\<And>k. k \<noteq> s \<Longrightarrow> csp_valid p' k = csp_valid p k \<and> csp_pending p' k = csp_pending p k \<and> fmlookup e' k = fmlookup e k"
    and "csp_shardID p' = csp_shardID p" and "csp_crossShardState p' = csp_crossShardState p"
proof -
  let ?n = "agree todo bs"
  let ?w = "if ?n < length bs then Some (todo ! ?n) else None"
  have "csp_scan (nextHeight s (csp_shardID p)) (csp_start p s) 0 0 (as @ bs)
      = csp_scan (nextHeight s (csp_shardID p)) (csp_start p s) (length as) (length as) bs"
  proof (cases todo)
    case Nil
    then show ?thesis using assms(4) by simp
  next
    case (Cons h hs)
    then show ?thesis using csp_scan_stale [of _ _ h as 0 0 bs] assms(1,3) by simp
  qed
  then have "csp_scan (nextHeight s (csp_shardID p)) (csp_start p s) 0 0 (csp_pending p s)
      = Inr (length as + ?n, length as, ?w)"
    using csp_scan_confirmed [OF assms(1,5,6)] assms(2) by simp
  then have "csp_update_shard nextHeight s (p, e) =
      Inr (csp_move s (length as + ?n) (length as) p, case ?w of None \<Rightarrow> e | Some h \<Rightarrow> fmupd s h e)"
    by (simp add: csp_update_shard_def andThen_def)
  then show ?thesis
    by (rule that) (simp_all add: csp_move_lists csp_move_rest assms(2))
qed

section \<open>The pool as a whole\<close>

lemma csp_update_shard_frame:
  assumes "csp_update_shard nextHeight s (p, e) = Inr (p', e')"
  shows "csp_shardID p' = csp_shardID p \<and> csp_crossShardState p' = csp_crossShardState p
    \<and> (\<exists>i. csp_pending p' s = drop i (csp_pending p s))
    \<and> (\<forall>k. k \<noteq> s \<longrightarrow> csp_valid p' k = csp_valid p k \<and> csp_pending p' k = csp_pending p k \<and> fmlookup e' k = fmlookup e k)"
  using assms by (rule csp_update_shard_Inr) (auto simp: csp_move_lists csp_move_rest split: option.splits)

lemma csp_update_shards_frame:
  assumes "csp_update_shards nextHeight ss (p, e) = Inr (p', e')"
  shows "csp_shardID p' = csp_shardID p \<and> csp_crossShardState p' = csp_crossShardState p
    \<and> (\<forall>k. \<exists>i. csp_pending p' k = drop i (csp_pending p k))
    \<and> (\<forall>k. k \<notin> set ss \<longrightarrow> csp_valid p' k = csp_valid p k \<and> csp_pending p' k = csp_pending p k \<and> fmlookup e' k = fmlookup e k)"
  using assms
proof (induction ss arbitrary: p e)
  case Nil
  then show ?case by (auto intro: exI [of _ 0])
next
  case (Cons s ss)
  then obtain p1 e1 where s: "csp_update_shard nextHeight s (p, e) = Inr (p1, e1)"
    and r: "csp_update_shards nextHeight ss (p1, e1) = Inr (p', e')"
    by (auto simp: andThen_Inr_iff)
  have "\<exists>i. csp_pending p' k = drop i (csp_pending p k)" for k
  proof -
    obtain i j where "csp_pending p' k = drop i (csp_pending p1 k)" "csp_pending p1 k = drop j (csp_pending p k)"
      using Cons.IH [OF r] csp_update_shard_frame [OF s] by (metis drop0)
    then show ?thesis by (auto simp: drop_drop)
  qed
  then show ?case using Cons.IH [OF r] csp_update_shard_frame [OF s] by auto
qed

lemma map_get_fmmap_keys: "f k z = z \<Longrightarrow> map_get z (fmmap_keys f m) k = f k (map_get z m k)"
  by (simp add: map_get_def split: option.splits)

lemma csp_remove_lists [simp]:
  "csp_valid (csp_removeBlockByHeight since p) s = dropWhile (\<lambda>b. cht b \<le> map_get 0 since s) (csp_valid p s)"
  "csp_pending (csp_removeBlockByHeight since p) s = dropWhile (\<lambda>b. cht b \<le> map_get 0 since s) (csp_pending p s)"
  by (simp_all add: csp_removeBlockByHeight_def Let_def map_get_fmmap_keys)

lemma csp_remove_rest [simp]:
  "csp_shardID (csp_removeBlockByHeight since p) = csp_shardID p"
  "csp_crossShardState (csp_removeBlockByHeight since p) = csp_crossShardState p"
  by (simp_all add: csp_removeBlockByHeight_def Let_def)

lemma csp_update_shards_split:
  "csp_update_shards nextHeight (xs @ ys) a = andThen (csp_update_shards nextHeight xs a) (csp_update_shards nextHeight ys)"
  by (induction xs arbitrary: a) (auto simp: andThen_def split: sum.splits)

text \<open>What an update of the pool does to one source shard whose pending blocks the beacon confirmed.\<close>

lemma csp_updatePool_confirmed:
  assumes upd: "csp_updatePool nextHeight best p = Inr (p', expected)"
    and V: "V = dropWhile (\<lambda>b. cht b \<le> map_get 0 best s) (csp_valid p s)"
    and P: "dropWhile (\<lambda>b. cht b \<le> map_get 0 best s) (csp_pending p s) = as @ bs"
    and chain: "chain_from (nextHeight s (csp_shardID p)) (if V = [] then map_get 0 best s else cht (last V)) todo"
    and "todo \<noteq> [] \<longrightarrow> (\<forall>a \<in> set as. cht a < hd todo)" and "todo = [] \<longrightarrow> as = []"
    and "sorted_wrt (<) (map cht bs)" and "set (map cht bs) \<subseteq> set todo"
  shows "csp_valid p' s = V @ take (agree todo bs) bs \<and> csp_pending p' s = drop (agree todo bs) bs
    \<and> fmlookup expected s = (if agree todo bs < length bs then Some (todo ! agree todo bs) else None)"
proof -
  let ?p1 = "csp_removeBlockByHeight best (p\<lparr>csp_crossShardState := best\<rparr>)"
  let ?keys = "sorted_keys (csp_pendingPool ?p1)"
  have u: "csp_update_shards nextHeight ?keys (?p1, fmempty) = Inr (p', expected)"
    using upd by (simp add: csp_updatePool_def Let_def)
  have pv: "csp_valid ?p1 s = V" "csp_pending ?p1 s = as @ bs" using V P by simp_all
  have dk: "distinct ?keys" using iteration_order_sorted_keys [of "csp_pendingPool ?p1"] by (simp add: iteration_order_def)
  show ?thesis
  proof (cases "s \<in> set ?keys")
    case True
    then obtain xs ys where k: "?keys = xs @ s # ys" by (rule split_list [THEN exE]) blast
    then have notin: "s \<notin> set xs" "s \<notin> set ys" using dk by auto
    obtain p2 e2 p3 e3 where 1: "csp_update_shards nextHeight xs (?p1, fmempty) = Inr (p2, e2)"
      and 2: "csp_update_shard nextHeight s (p2, e2) = Inr (p3, e3)"
      and 3: "csp_update_shards nextHeight ys (p3, e3) = Inr (p', expected)"
      using u unfolding k csp_update_shards_split by (auto simp: andThen_Inr_iff)
    have f1: "csp_valid p2 s = V" "csp_pending p2 s = as @ bs" "fmlookup e2 s = None" "csp_shardID p2 = csp_shardID p"
        "csp_crossShardState p2 = best"
      using csp_update_shards_frame [OF 1] notin(1) pv by (simp_all)
    have st: "csp_start p2 s = (if V = [] then map_get 0 best s else cht (last V))"
      using f1 by (simp add: csp_start_def last_conv_nth)
    have c1: "chain_from (nextHeight s (csp_shardID p2)) (csp_start p2 s) todo" using chain st f1(4) by simp
    obtain p3' e3' where c: "csp_update_shard nextHeight s (p2, e2) = Inr (p3', e3')"
        "csp_valid p3' s = csp_valid p2 s @ take (agree todo bs) bs" "csp_pending p3' s = drop (agree todo bs) bs"
        "fmlookup e3' s = (if agree todo bs < length bs then Some (todo ! agree todo bs) else fmlookup e2 s)"
      by (rule csp_update_confirmed [of nextHeight s p2 todo as bs e2, OF c1 f1(2) assms(5-8)]) (rule that)
    have "p3' = p3" "e3' = e3" using c(1) 2 by simp_all
    then show ?thesis using c(2-4) f1(1,3) csp_update_shards_frame [OF 3] notin(2) by simp
  next
    case False
    then have "csp_pending ?p1 s = []" by (simp add: map_get_def fmdom'_notD)
    then have "as @ bs = []" by (simp only: pv)
    then have "as = []" "bs = []" by simp_all
    then show ?thesis using csp_update_shards_frame [OF u] False pv by (cases todo) simp_all
  qed
qed

section \<open>Invariant\<close>

definition csp_inv :: "('c, 't, 'p) CrossShardPool \<Rightarrow> bool" where
  "csp_inv p \<longleftrightarrow> (\<forall>s. sorted_wrt (<) (map cht (csp_pending p s))
     \<and> length (csp_pending p s) \<le> MAX_PENDING_CROSS_SHARD_IN_POOL + 1
     \<and> (\<forall>b \<in> set (csp_pending p s). csp_state p s < cht b))"

lemma sorted_wrt_drop: "sorted_wrt P xs \<Longrightarrow> sorted_wrt P (drop n xs)"
  using sorted_wrt_append [of P "take n xs" "drop n xs"] by simp

lemma dropWhile_drop: "\<exists>n. dropWhile P xs = drop n xs"
  by (metis append_eq_conv_conj takeWhile_dropWhile_id)

lemma dropWhile_sorted_above:
  fixes h :: uint64
  assumes "sorted_wrt (<) (map cht bs)" and "b \<in> set (dropWhile (\<lambda>b. cht b \<le> h) bs)"
  shows "h < cht b"
  using assms
proof (induction bs)
  case (Cons a bs)
  show ?case
  proof (cases "cht a \<le> h")
    case False
    then have "h < cht a" by simp
    moreover have "b = a \<or> cht a < cht b" using Cons.prems False by auto
    ultimately show ?thesis by (auto intro: less_trans)
  qed (use Cons in auto)
qed simp

lemma csp_inv_remove:
  assumes "csp_inv p"
  shows "csp_inv (csp_removeBlockByHeight since p)"
  unfolding csp_inv_def
proof
  fix s
  obtain n where "csp_pending (csp_removeBlockByHeight since p) s = drop n (csp_pending p s)"
    using dropWhile_drop by fastforce
  then show "sorted_wrt (<) (map cht (csp_pending (csp_removeBlockByHeight since p) s))
     \<and> length (csp_pending (csp_removeBlockByHeight since p) s) \<le> MAX_PENDING_CROSS_SHARD_IN_POOL + 1
     \<and> (\<forall>b \<in> set (csp_pending (csp_removeBlockByHeight since p) s). csp_state (csp_removeBlockByHeight since p) s < cht b)"
    using assms [unfolded csp_inv_def, rule_format, of s]
    by (auto simp only: csp_remove_rest drop_map [symmetric] length_drop sorted_wrt_drop dest: in_set_dropD)
qed

lemma csp_inv_updatePool:
  assumes sorted: "\<And>s. sorted_wrt (<) (map cht (csp_pending p s))"
    and len: "\<And>s. length (csp_pending p s) \<le> MAX_PENDING_CROSS_SHARD_IN_POOL + 1"
    and upd: "csp_updatePool nextHeight best p = Inr (p', e)"
  shows "csp_inv p'"
  unfolding csp_inv_def
proof
  fix s
  let ?p1 = "csp_removeBlockByHeight best (p\<lparr>csp_crossShardState := best\<rparr>)"
  have u: "csp_update_shards nextHeight (sorted_keys (csp_pendingPool ?p1)) (?p1, fmempty) = Inr (p', e)"
    using upd by (simp add: csp_updatePool_def Let_def)
  have fr: "csp_crossShardState p' = best" "\<exists>i. csp_pending p' s = drop i (csp_pending ?p1 s)"
    using csp_update_shards_frame [OF u] by simp_all
  then obtain i where i: "csp_pending p' s = drop i (dropWhile (\<lambda>b. cht b \<le> map_get 0 best s) (csp_pending p s))"
    by auto
  obtain n where n: "csp_pending p' s = drop n (csp_pending p s)"
    using i dropWhile_drop [of _ "csp_pending p s"] by (metis drop_drop)
  have "sorted_wrt (<) (map cht (csp_pending p' s))" using sorted [of s] by (simp add: n drop_map [symmetric] sorted_wrt_drop)
  moreover have "length (csp_pending p' s) \<le> MAX_PENDING_CROSS_SHARD_IN_POOL + 1" using len [of s] by (simp add: n)
  moreover have "csp_state p' s < cht b" if "b \<in> set (csp_pending p' s)" for b
    using that dropWhile_sorted_above [OF sorted [of s], of b "map_get 0 best s"] by (auto simp: fr(1) i dest: in_set_dropD)
  ultimately show "sorted_wrt (<) (map cht (csp_pending p' s))
     \<and> length (csp_pending p' s) \<le> MAX_PENDING_CROSS_SHARD_IN_POOL + 1 \<and> (\<forall>b \<in> set (csp_pending p' s). csp_state p' s < cht b)"
    by blast
qed

lemma sort_key_strict:
  fixes f :: "'a \<Rightarrow> 'b :: linorder"
  assumes "distinct (map f xs)"
  shows "sorted_wrt (<) (map f (sort_key f xs))"
proof -
  have "mset (map f (sort_key f xs)) = mset (map f xs)" by simp
  then have "distinct (map f (sort_key f xs))" using assms by (metis mset_eq_imp_distinct_iff)
  then show ?thesis by (simp add: strict_sorted_iff)
qed

lemma csp_inv_add:
  assumes inv: "csp_inv p"
    and add: "AddCrossShardBlock D db sum256 unmarshal validateAgg best blk p = Inr (p', r)"
  shows "csp_inv p'"
proof (cases r)
  case (Inl e)
  then have "p' = p" using add
    by (auto simp: AddCrossShardBlock_def Let_def andThen_Inr_iff split: if_splits sum.splits option.splits)
  then show ?thesis using inv by simp
next
  case (Inr expected)
  define s0 where "s0 = sh_ShardID (csb_Header blk)"
  define room where "room = (if length (csp_pending p s0) > MAX_PENDING_CROSS_SHARD_IN_POOL
      then butlast (csp_pending p s0) else csp_pending p s0)"
  define p1 where "p1 = p\<lparr>csp_pendingPool := fmupd s0 (sort_key cht (room @ [blk])) (csp_pendingPool p)\<rparr>"
  have upd: "csp_updatePool (GetNextCrossShardHeight D db) best p1 = Inr (p', expected)"
    and fresh: "\<not> list_ex (\<lambda>b. cht b = cht blk) (csp_pending p s0)"
    using add Inr unfolding AddCrossShardBlock_def Let_def s0_def [symmetric] room_def [symmetric] p1_def [symmetric]
    by (auto simp: andThen_Inr_iff split: if_splits sum.splits option.splits)
  have old: "sorted_wrt (<) (map cht (csp_pending p s))"
      "length (csp_pending p s) \<le> MAX_PENDING_CROSS_SHARD_IN_POOL + 1" for s
    using inv by (simp_all add: csp_inv_def)
  have d: "distinct (map cht (csp_pending p s0))" using old(1) [of s0] by (simp add: strict_sorted_iff)
  have sub: "set room \<subseteq> set (csp_pending p s0)" by (auto simp: room_def dest: in_set_butlastD)
  have dr: "distinct (map cht room)" using d by (simp add: room_def map_butlast distinct_butlast)
  have "cht blk \<notin> set (map cht room)" using fresh sub by (auto simp: list_ex_iff)
  then have sorted_new: "sorted_wrt (<) (map cht (sort_key cht (room @ [blk])))" using dr by (intro sort_key_strict) simp
  have len_new: "length (sort_key cht (room @ [blk])) \<le> MAX_PENDING_CROSS_SHARD_IN_POOL + 1"
    using old(2) [of s0] by (auto simp: room_def)
  show ?thesis
    by (rule csp_inv_updatePool [OF _ _ upd]) (auto simp: p1_def sorted_new len_new [simplified] old old(2) [simplified])
qed

inductive csp_reachable :: "'s leveldb \<Rightarrow> ('c, 't, 'p) CrossShardPool \<Rightarrow> bool" for D where
  new: "csp_reachable D (newCrossShardPool shardID)"
| add: "csp_reachable D p \<Longrightarrow> AddCrossShardBlock D db sum256 unmarshal validateAgg best blk p = Inr (p', r) \<Longrightarrow> csp_reachable D p'"
| upd: "csp_reachable D p \<Longrightarrow> csp_updatePool nextHeight best p = Inr (p', e) \<Longrightarrow> csp_reachable D p'"
| rem: "csp_reachable D p \<Longrightarrow> csp_reachable D (csp_removeBlockByHeight since p)"

lemma csp_inv_reachable: "csp_reachable D p \<Longrightarrow> csp_inv p"
proof (induction rule: csp_reachable.induct)
  case (new shardID)
  then show ?case by (simp add: csp_inv_def newCrossShardPool_def)
next
  case (add p db sum256 unmarshal validateAgg best blk p' r)
  show ?case by (rule csp_inv_add [OF add.IH add.hyps(2)])
next
  case (upd p nextHeight best p' e)
  show ?case by (rule csp_inv_updatePool [OF _ _ upd.hyps(2)]) (use upd.IH in \<open>simp_all add: csp_inv_def\<close>)
next
  case (rem p since)
  then show ?case by (intro csp_inv_remove)
qed

section \<open>Properties\<close>

text \<open>Example values for the statements below.\<close>

definition ex_cross_block :: "uint64 \<Rightarrow> (nat, nat, nat) csb" where
  "ex_cross_block h = \<lparr>csb_AggregatedSig = [], csb_R = [], csb_ValidatorsIdx = [], csb_ProducerSig = [],
     csb_Header = (sb_Header (ex_shard_block h 0)), csb_ToShardID = 1, csb_MerklePathShard = [],
     csb_CrossOutputCoin = [], csb_CrossTxTokenData = [], csb_CrossTxTokenPrivacyData = []\<rparr>"

definition ex_shard_states :: "ShardState list" where
  "ex_shard_states = [\<lparr>ss_Height = 3, ss_Hash = zero_hash, ss_CrossShard = [1]\<rparr>,
     \<lparr>ss_Height = 4, ss_Hash = zero_hash, ss_CrossShard = []\<rparr>, \<lparr>ss_Height = 5, ss_Hash = zero_hash, ss_CrossShard = [0, 1, 1]\<rparr>]"

definition ex_cross_pool :: "uint64 list \<Rightarrow> (nat, nat, nat) CrossShardPool" where
  "ex_cross_pool hs = (newCrossShardPool 1)\<lparr>csp_pendingPool := fmupd 0 (map ex_cross_block hs) fmempty\<rparr>"

definition ex_cross_db :: "(bytes, bytes) fmap" where
  "ex_cross_db = snd (store_cross_blocks mem_db 0 ex_shard_states (fmempty, fmempty))"

lemma cht_ex_cross_block [simp]: "cht (ex_cross_block h) = h"
  by (simp add: ex_cross_block_def)

lemma cross_chain_initial: "cross_chain mem_db f t [] (fmempty, fmempty)"
  by (simp add: cross_chain_def GetNext_lookup leveldb_spec_mem_db)

text \<open>C38: the chain of cross-shard heights. When the beacon chain confirms blocks of a source shard with
  increasing heights, following the stored next heights from 0 visits, after the heights stored
  before, exactly the heights of the confirmed blocks that have something for the destination shard,
  in order, and then ends; the last height is the one remembered in the best state.
\<close>

theorem cross_shard_chain_extends:
  assumes "leveldb_spec D" and "fromShard \<noteq> toShard" and "distinct order" and "fromShard \<in> set order"
    and "cross_chain D fromShard toShard hs st"
    and "sorted_wrt (<) (last (0 # hs) # map ss_Height (map_get [] shardState fromShard))"
  shows "cross_chain D fromShard toShard
    (hs @ map ss_Height (filter (\<lambda>b. toShard \<in> set (ss_CrossShard b)) (map_get [] shardState fromShard)))
    (store_cross_state D shardState order st)"
proof -
  let ?f = "\<lambda>k. store_cross_blocks D k (map_get [] shardState k)"
  have other: "cross_chain D fromShard toShard hs' (fold ?f ks st') \<longleftrightarrow> cross_chain D fromShard toShard hs' st'"
    if "fromShard \<notin> set ks" for ks hs' st'
    using that by (induction ks arbitrary: st') (simp_all add: cross_chain_blocks_other [OF assms(1)])
  obtain xs ys where o: "order = xs @ fromShard # ys" using assms(4) by (rule split_list [THEN exE]) blast
  have "cross_chain D fromShard toShard hs (fold ?f xs st)" using other [of xs] o assms(3,5) by simp
  then have "cross_chain D fromShard toShard
      (hs @ map ss_Height (filter (\<lambda>b. toShard \<in> set (ss_CrossShard b)) (map_get [] shardState fromShard)))
      (?f fromShard (fold ?f xs st))"
    by (rule cross_chain_blocks [OF assms(1,2) _ assms(6)])
  then show ?thesis using other [of ys] o assms(3) by (simp add: store_cross_state_def)
qed

theorem cross_shard_chain_extends_witness:
  "cross_chain mem_db 0 1 [3, 5] (store_cross_state mem_db (fmupd 0 ex_shard_states fmempty) [0] (fmempty, fmempty))"
  using cross_shard_chain_extends [OF leveldb_spec_mem_db _ _ _ cross_chain_initial, of 0 1 "[0]" "fmupd 0 ex_shard_states fmempty"]
  by (simp add: ex_shard_states_def)

text \<open>composition of the beacon's stores with the pool. Let the database hold, after the height \<open>start\<close>
  the pool stands at for a source shard, the heights \<open>todo\<close> still to come. When the pending blocks left
  after removing the old ones are all confirmed (their heights are among \<open>todo\<close>), \<open>UpdatePool\<close> moves
  exactly the longest run that follows \<open>todo\<close> without a gap to the end of the valid list, keeps the
  others pending, and asks for the first missing height when it stops at a gap.
\<close>

theorem cross_pool_follows_chain:
  assumes "csp_updatePool (GetNextCrossShardHeight D db) best p = Inr (p', expected)"
    and "V = dropWhile (\<lambda>b. cht b \<le> map_get 0 best s) (csp_valid p s)"
    and "P = dropWhile (\<lambda>b. cht b \<le> map_get 0 best s) (csp_pending p s)"
    and "start = (if V = [] then map_get 0 best s else cht (last V))"
    and "chain_from (GetNextCrossShardHeight D db s (csp_shardID p)) start todo"
    and "csp_inv p" and "set (map cht P) \<subseteq> set todo" and "n = agree todo P"
  shows "csp_valid p' s = V @ take n P \<and> csp_pending p' s = drop n P
    \<and> map cht (take n P) = take n todo
    \<and> fmlookup expected s = (if n < length P then Some (todo ! n) else None)"
proof -
  obtain m where m: "P = drop m (csp_pending p s)" using assms(3) dropWhile_drop by blast
  have "sorted_wrt (<) (map cht (csp_pending p s))" using assms(6) by (simp add: csp_inv_def)
  then have sorted: "sorted_wrt (<) (map cht P)" unfolding m by (simp add: drop_map [symmetric] sorted_wrt_drop)
  have "csp_valid p' s = V @ take (agree todo P) P \<and> csp_pending p' s = drop (agree todo P) P
    \<and> fmlookup expected s = (if agree todo P < length P then Some (todo ! agree todo P) else None)"
    by (rule csp_updatePool_confirmed [OF assms(1,2), where as = "[]"]) (use assms sorted in simp_all)
  then show ?thesis using agree_heights [of todo P] assms(8) by simp
qed

lemma ex_cross_chain: "chain_from (GetNextCrossShardHeight mem_db ex_cross_db 0 1) 0 [3, 5]"
proof -
  have "cross_chain mem_db 0 1 ([] @ map ss_Height (filter (\<lambda>b. 1 \<in> set (ss_CrossShard b)) ex_shard_states))
      (store_cross_blocks mem_db 0 ex_shard_states (fmempty, fmempty))"
    by (rule cross_chain_blocks [OF leveldb_spec_mem_db _ cross_chain_initial]) (simp_all add: ex_shard_states_def)
  then show ?thesis by (simp add: cross_chain_def ex_cross_db_def ex_shard_states_def split_beta)
qed

lemma ex_next:
  "GetNextCrossShardHeight mem_db ex_cross_db 0 1 0 = Inr 3" "GetNextCrossShardHeight mem_db ex_cross_db 0 1 3 = Inr 5"
  "GetNextCrossShardHeight mem_db ex_cross_db 0 1 5 = Inr 0"
  using ex_cross_chain by simp_all

lemma ex_cross_pool_simps:
  "csp_pending (ex_cross_pool hs) s = (if s = 0 then map ex_cross_block hs else [])"
  "csp_valid (ex_cross_pool hs) s = []" "csp_state (ex_cross_pool hs) s = 0"
  "csp_shardID (ex_cross_pool hs) = 1"
  by (simp_all add: ex_cross_pool_def newCrossShardPool_def)

lemma fmmap_keys_singleton: "fmmap_keys f (fmupd k v fmempty) = fmupd k (f k v) fmempty" "fmmap_keys f fmempty = fmempty"
  by (rule fmap_ext, simp)+

lemma ex_cross_pool_update:
  assumes "0 \<notin> set hs"
  shows "csp_updatePool nextHeight fmempty (ex_cross_pool hs) = csp_update_shard nextHeight 0 (ex_cross_pool hs, fmempty)"
proof -
  have "dropWhile (\<lambda>b. cht b = 0) (map ex_cross_block hs) = map ex_cross_block hs"
    using assms by (cases hs) auto
  then have "csp_removeBlockByHeight fmempty ((ex_cross_pool hs)\<lparr>csp_crossShardState := fmempty\<rparr>) = ex_cross_pool hs"
    by (simp add: csp_removeBlockByHeight_def Let_def ex_cross_pool_def newCrossShardPool_def fmmap_keys_singleton)
  moreover have "sorted_keys (csp_pendingPool (ex_cross_pool hs)) = [0]"
    by (simp add: ex_cross_pool_def sorted_keys_singleton)
  ultimately show ?thesis
    by (simp add: csp_updatePool_def Let_def andThen_def split: sum.splits)
qed

theorem cross_pool_follows_chain_witness:
  "\<exists>p' e. csp_updatePool (GetNextCrossShardHeight mem_db ex_cross_db) fmempty (ex_cross_pool [3, 5]) = Inr (p', e)
     \<and> csp_valid p' 0 = map ex_cross_block [3, 5] \<and> csp_pending p' 0 = []"
proof -
  have inv: "csp_inv (ex_cross_pool [3, 5])"
    by (simp add: csp_inv_def ex_cross_pool_simps MAX_PENDING_CROSS_SHARD_IN_POOL_def)
  obtain p' e where u: "csp_update_shard (GetNextCrossShardHeight mem_db ex_cross_db) 0 (ex_cross_pool [3, 5], fmempty) = Inr (p', e)"
    by (rule csp_update_confirmed [of "GetNextCrossShardHeight mem_db ex_cross_db" 0 "ex_cross_pool [3, 5]" "[3, 5]" "[]"
          "map ex_cross_block [3, 5]" fmempty]) (simp_all add: ex_next csp_start_def ex_cross_pool_simps)
  then have upd: "csp_updatePool (GetNextCrossShardHeight mem_db ex_cross_db) fmempty (ex_cross_pool [3, 5]) = Inr (p', e)"
    by (simp add: ex_cross_pool_update)
  have ch: "chain_from (GetNextCrossShardHeight mem_db ex_cross_db 0 (csp_shardID (ex_cross_pool [3, 5]))) 0 [3, 5]"
    by (simp add: ex_cross_pool_simps ex_next)
  have "csp_valid p' 0 = [] @ take 2 (map ex_cross_block [3, 5]) \<and> csp_pending p' 0 = drop 2 (map ex_cross_block [3, 5])
      \<and> map cht (take 2 (map ex_cross_block [3, 5])) = take 2 [3, 5]
      \<and> fmlookup e 0 = (if 2 < length (map ex_cross_block [3, 5]) then Some ([3, 5] ! 2) else None)"
    by (rule cross_pool_follows_chain [OF upd _ _ _ ch inv])
      (simp_all add: ex_cross_pool_simps)
  with upd show ?thesis by auto
qed

text \<open>the pending lists. In every reachable state of the pool, the pending blocks of every source
  shard are sorted by strictly increasing height, lie above the height the shard has processed, and
  there are at most 2001 of them (the cap of 2000 is tested before the new block is added).
\<close>

theorem cross_pool_pending_sorted:
  assumes "csp_reachable D p"
  shows "sorted_wrt (<) (map cht (csp_pending p s)) \<and> length (csp_pending p s) \<le> MAX_PENDING_CROSS_SHARD_IN_POOL + 1
    \<and> list_all (\<lambda>b. csp_state p s < cht b) (csp_pending p s)"
  using csp_inv_reachable [OF assms] by (simp add: csp_inv_def list_all_iff)

theorem cross_pool_pending_sorted_witness:
  "sorted_wrt (<) (map cht (csp_pending (newCrossShardPool 1 :: (nat, nat, nat) CrossShardPool) 0))"
  using cross_pool_pending_sorted [OF csp_reachable.new [of mem_db 1], of 0] by blast

text \<open>
  an unconfirmed block between two confirmed ones displaces them. With the beacon chain
  confirming the heights 3 and 5 and the blocks 3, 4 and 5 pending, the update makes the blocks 4 and
  5 valid: the unconfirmed block 4 becomes valid and the confirmed block 3 is lost, because the
  number of removed blocks is used as the start of the slice of valid ones.
\<close>

theorem cross_pool_unconfirmed_valid:
  "\<exists>p' e. csp_updatePool (GetNextCrossShardHeight mem_db ex_cross_db) fmempty (ex_cross_pool [3, 4, 5]) = Inr (p', e)
     \<and> csp_valid p' 0 = map ex_cross_block [4, 5] \<and> csp_pending p' 0 = []"
proof -
  have "csp_update_shard (GetNextCrossShardHeight mem_db ex_cross_db) 0 (ex_cross_pool [3, 4, 5], fmempty)
      = Inr (csp_move 0 (Suc (Suc (Suc 0))) (Suc 0) (ex_cross_pool [3, 4, 5]), fmempty)"
    by (simp add: ex_next csp_update_shard_def csp_start_def ex_cross_pool_simps andThen_def)
  then show ?thesis
    by (simp add: ex_cross_pool_update csp_move_lists ex_cross_pool_simps)
qed

end
