(* ===== verification/Privacy_Utils.thy ===== *)
theory Privacy_Utils
  imports Go_Prelude "HOL-Library.Log_Nat"
begin

text \<open>
  \<open>src/privacy/privacy_utils.go\<close>: number representations and the two multi-exponentiations over
  elliptic points. A \<open>*big.Int\<close> is an \<open>int\<close>. The curve is a parameter: \<open>add\<close> is
  \<open>EllipticPoint.Add\<close>, \<open>smult\<close> is \<open>EllipticPoint.ScalarMult\<close> and \<open>zero\<close> the point \<open>Zero()\<close>, with the
  laws of a commutative monoid as the interface (\<open>curve_ops\<close>). A loop over big integers may run for
  ever: \<open>MultiScalarmult\<close> is \<open>None\<close> then.
\<close>

section \<open>Numbers\<close>

text \<open>\<open>IsPowerOfTwo\<close> halves \<open>n\<close> while it is even and greater than 2.\<close>

function halve_to_two :: "int \<Rightarrow> bool" where
  "halve_to_two n = (if n > 2 then if n mod 2 = 0 then halve_to_two (n div 2) else False else True)"
  by pat_completeness auto
termination
  by (relation "measure nat") auto

declare halve_to_two.simps [simp del]

definition IsPowerOfTwo :: "int \<Rightarrow> bool" where
  "IsPowerOfTwo n = (if n < 2 then False else halve_to_two n)"

text \<open>\<open>inum % 2\<close> truncates towards zero, so a negative odd number gives the byte \<open>0xff\<close>.\<close>

fun int_binary :: "int \<Rightarrow> nat \<Rightarrow> bytes" where
  "int_binary inum 0 = []"
| "int_binary inum (Suc n) = of_int (sgn inum * (\<bar>inum\<bar> mod 2)) # int_binary (sgn inum * (\<bar>inum\<bar> div 2)) n"

definition ConvertIntToBinary :: "int \<Rightarrow> int \<Rightarrow> fault + bytes" where
  "ConvertIntToBinary inum n = (if n < 0 then Inl MakeNegative else Inr (int_binary inum (nat n)))"

text \<open>The loop of \<open>ConvertBigIntToBinary\<close> with \<open>n\<close> digits to go; it fills up with zeros once the rest is zero.\<close>

fun big_binary :: "int \<Rightarrow> nat \<Rightarrow> int list" where
  "big_binary c 0 = []"
| "big_binary c (Suc n) =
     (let b = c mod 2; c' = c div 2
      in if c' = 0 \<and> n \<noteq> 0 then b # replicate n 0 else b # big_binary c' n)"

definition ConvertBigIntToBinary :: "int \<Rightarrow> nat \<Rightarrow> int list" where
  "ConvertBigIntToBinary number n = (if number = 0 then replicate n 0 else big_binary number n)"

text \<open>\<open>big.Int.Bytes\<close> is the magnitude.\<close>

definition AddPaddingBigInt :: "int \<Rightarrow> nat \<Rightarrow> bytes" where
  "AddPaddingBigInt numInt fixedSize =
     (let numBytes = be_bytes (nat \<bar>numInt\<bar>) in replicate (fixedSize - length numBytes) 0 @ numBytes)"

definition IntToByteArr :: "int \<Rightarrow> bytes" where
  "IntToByteArr n =
     (if n = 0 then [0, 0]
      else let a = be_bytes (nat \<bar>n\<bar>)
           in if length a > 2 then [] else if length a = 1 then [0, a ! 0] else a)"

definition ByteArrToInt :: "bytes \<Rightarrow> int" where
  "ByteArrToInt bytesArr = (if length bytesArr \<noteq> 2 then 0 else int (be_val bytesArr))"

definition isOdd :: "int \<Rightarrow> bool" where
  "isOdd a = (a mod 2 = 1)"

definition PAdd1Div4 :: "int \<Rightarrow> int" where
  "PAdd1Div4 p = (p + 1) div 4"

definition paddedAppend :: "nat \<Rightarrow> bytes \<Rightarrow> bytes \<Rightarrow> bytes" where
  "paddedAppend n dst src = dst @ replicate (n - length src) 0 @ src"

definition checkZeroArray :: "int list \<Rightarrow> bool" where
  "checkZeroArray values = list_all (\<lambda>v. v = 0) values"

definition BitLen :: "int \<Rightarrow> nat" where
  "BitLen v = floorlog 2 (nat \<bar>v\<bar>)"

definition MaxBitLen :: "int list \<Rightarrow> nat" where
  "MaxBitLen values = fold (\<lambda>v res. if BitLen v > res then BitLen v else res) values 0"

section \<open>Multi-exponentiation\<close>

text \<open>Shamir's method: from the highest bit down, double, then add the bases whose bit is one.\<close>

definition add_bit :: "('p \<Rightarrow> 'p \<Rightarrow> 'p) \<Rightarrow> nat \<Rightarrow> 'p list \<Rightarrow> int list list \<Rightarrow> 'p \<Rightarrow> 'p" where
  "add_bit add i g valueBinary res =
     fold (\<lambda>(p, bs) r. if bs ! i = 1 then add r p else r) (zip g valueBinary) res"

fun shamir :: "('p \<Rightarrow> 'p \<Rightarrow> 'p) \<Rightarrow> (int \<Rightarrow> 'p \<Rightarrow> 'p) \<Rightarrow> 'p list \<Rightarrow> int list list \<Rightarrow> nat \<Rightarrow> 'p \<Rightarrow> 'p" where
  "shamir add smult g valueBinary 0 res = res"
| "shamir add smult g valueBinary (Suc i) res =
     shamir add smult g valueBinary i (add_bit add i g valueBinary (smult 2 res))"

definition MultiScalar2 ::
  "('p \<Rightarrow> 'p \<Rightarrow> 'p) \<Rightarrow> (int \<Rightarrow> 'p \<Rightarrow> 'p) \<Rightarrow> 'p \<Rightarrow> 'p list \<Rightarrow> int list \<Rightarrow> 'p option" where
  "MultiScalar2 add smult zero g values =
     (if length g \<noteq> length values then None
      else let maxBitLen = MaxBitLen values;
               valueBinary = map (\<lambda>v. ConvertBigIntToBinary v maxBitLen) values
           in Some (shamir add smult g valueBinary maxBitLen zero))"

text \<open>
  One round of \<open>MultiScalarmult\<close>: the bases with an odd exponent are added, every exponent is
  shifted right and every base doubled. The rounds end when all exponents are zero.
\<close>

definition msm_add :: "('p \<Rightarrow> 'p \<Rightarrow> 'p) \<Rightarrow> ('p \<times> int) list \<Rightarrow> 'p \<Rightarrow> 'p" where
  "msm_add add bs result = fold (\<lambda>(b, e) r. if e mod 2 = 1 then add r b else r) bs result"

definition msm_shift :: "('p \<Rightarrow> 'p \<Rightarrow> 'p) \<Rightarrow> ('p \<times> int) list \<Rightarrow> ('p \<times> int) list" where
  "msm_shift add bs = map (\<lambda>(b, e). (add b b, e div 2)) bs"

partial_function (option) msm_loop :: "('p \<Rightarrow> 'p \<Rightarrow> 'p) \<Rightarrow> ('p \<times> int) list \<Rightarrow> 'p \<Rightarrow> 'p option" where
  "msm_loop add bs result =
     (if checkZeroArray (map snd bs) then Some result else msm_loop add (msm_shift add bs) (msm_add add bs result))"

text \<open>The outer option is divergence, the inner one the error \<open>wrong inputs\<close>.\<close>

definition MultiScalarmult :: "('p \<Rightarrow> 'p \<Rightarrow> 'p) \<Rightarrow> 'p \<Rightarrow> 'p list \<Rightarrow> int list \<Rightarrow> 'p option option" where
  "MultiScalarmult add zero bases exponents =
     (if length bases \<noteq> length exponents then Some None
      else map_option Some (msm_loop add (zip bases exponents) zero))"

section \<open>The reference: a linear combination\<close>

fun nfold :: "('p \<Rightarrow> 'p \<Rightarrow> 'p) \<Rightarrow> 'p \<Rightarrow> nat \<Rightarrow> 'p \<Rightarrow> 'p" where
  "nfold add zero 0 p = zero"
| "nfold add zero (Suc n) p = add p (nfold add zero n p)"

definition lincomb :: "('p \<Rightarrow> 'p \<Rightarrow> 'p) \<Rightarrow> 'p \<Rightarrow> ('p \<times> int) list \<Rightarrow> 'p" where
  "lincomb add zero bs = foldr (\<lambda>(p, e). add (nfold add zero (nat e) p)) bs zero"

text \<open>What the code relies on: addition of points is a commutative monoid and \<open>ScalarMult\<close> by 2 doubles.\<close>

definition curve_laws :: "('p \<Rightarrow> 'p \<Rightarrow> 'p) \<Rightarrow> (int \<Rightarrow> 'p \<Rightarrow> 'p) \<Rightarrow> 'p \<Rightarrow> bool" where
  "curve_laws add smult zero \<longleftrightarrow>
     (\<forall>a b c. add (add a b) c = add a (add b c)) \<and> (\<forall>a b. add a b = add b a) \<and> (\<forall>a. add zero a = a)
     \<and> (\<forall>a. smult 2 a = add a a)"

section \<open>Facts\<close>

lemma length_big_binary [simp]: "length (big_binary c n) = n"
  by (induction c n rule: big_binary.induct) (simp_all add: Let_def)

lemma nth_big_binary: "i < n \<Longrightarrow> big_binary c n ! i = c div 2 ^ i mod 2"
proof (induction c n arbitrary: i rule: big_binary.induct)
  case (2 c n)
  show ?case
  proof (cases i)
    case 0
    then show ?thesis by (simp add: Let_def)
  next
    case (Suc j)
    have "c div 2 div 2 ^ j mod 2 = 0" if "c div 2 = 0" using that by simp
    then show ?thesis using 2 Suc by (simp add: Let_def zdiv_zmult2_eq)
  qed
qed simp

lemma length_ConvertBigIntToBinary [simp]: "length (ConvertBigIntToBinary v n) = n"
  by (simp add: ConvertBigIntToBinary_def)

lemma nth_ConvertBigIntToBinary: "i < n \<Longrightarrow> ConvertBigIntToBinary v n ! i = v div 2 ^ i mod 2"
  by (simp add: ConvertBigIntToBinary_def nth_big_binary)

lemma BitLen_bound: "0 \<le> v \<Longrightarrow> v < 2 ^ BitLen v"
proof -
  assume "0 \<le> v"
  have "nat v < 2 ^ floorlog 2 (nat v)"
    using floorlog_bounds [of "nat v" 2] by (cases "nat v = 0") (simp_all add: floorlog_def)
  then show ?thesis using \<open>0 \<le> v\<close> by (simp add: BitLen_def nat_less_iff)
qed

lemma MaxBitLen_fold: "m \<le> fold (\<lambda>v res. if BitLen v > res then BitLen v else res) vs m
  \<and> (\<forall>v \<in> set vs. BitLen v \<le> fold (\<lambda>v res. if BitLen v > res then BitLen v else res) vs m)"
proof (induction vs arbitrary: m)
  case (Cons v vs)
  from Cons [of "if BitLen v > m then BitLen v else m"] show ?case by (auto split: if_splits)
qed simp

lemma MaxBitLen_bound: "v \<in> set vs \<Longrightarrow> 0 \<le> v \<Longrightarrow> v < 2 ^ MaxBitLen vs"
proof -
  assume v: "v \<in> set vs" "0 \<le> v"
  then have "BitLen v \<le> MaxBitLen vs" using MaxBitLen_fold [of 0 vs] by (simp add: MaxBitLen_def)
  then have "(2 :: int) ^ BitLen v \<le> 2 ^ MaxBitLen vs" by simp
  with BitLen_bound [OF v(2)] show ?thesis by (rule less_le_trans)
qed

lemma be_val_AddPaddingBigInt: "int (be_val (AddPaddingBigInt n k)) = \<bar>n\<bar>"
proof -
  have z: "be_val (replicate m 0 @ bs) = be_val bs" for m bs by (induction m) (simp_all add: be_val_Cons)
  show ?thesis by (simp add: AddPaddingBigInt_def Let_def z be_val_be_bytes)
qed

subsection \<open>Both multi-exponentiations compute the linear combination\<close>

lemma curve_laws_ac:
  assumes "curve_laws add smult zero"
  shows "add (add a b) c = add a (add b c)" and "add a b = add b a" and "add a (add b c) = add b (add a c)"
    and "add zero a = a" and "add a zero = a" and "smult 2 a = add a a"
proof -
  have A: "add (add x y) z = add x (add y z)" and C: "add x y = add y x" and Z: "add zero x = x"
    and "smult 2 x = add x x" for x y z
    using assms unfolding curve_laws_def by blast+
  then show "add (add a b) c = add a (add b c)" "add a b = add b a" "add zero a = a" "smult 2 a = add a a"
    by blast+
  show "add a zero = a" using C [of a zero] Z by simp
  show "add a (add b c) = add b (add a c)" using A [of a b c] A [of b a c] C [of a b] by simp
qed

lemma nfold_plus:
  assumes "curve_laws add smult zero"
  shows "nfold add zero (m + n) p = add (nfold add zero m p) (nfold add zero n p)"
  by (induction m) (simp_all add: curve_laws_ac [OF assms])

lemma nfold_add:
  assumes "curve_laws add smult zero"
  shows "nfold add zero n (add p q) = add (nfold add zero n p) (nfold add zero n q)"
  by (induction n) (simp_all add: curve_laws_ac [OF assms])

lemma nfold_zero:
  assumes "curve_laws add smult zero"
  shows "nfold add zero n zero = zero"
  by (induction n) (simp_all add: curve_laws_ac [OF assms])

lemma lincomb_Nil [simp]: "lincomb add zero [] = zero"
  and lincomb_Cons: "lincomb add zero ((p, e) # bs) = add (nfold add zero (nat e) p) (lincomb add zero bs)"
  by (simp_all add: lincomb_def)

lemma lincomb_zeros:
  assumes "curve_laws add smult zero" and "checkZeroArray (map snd bs)"
  shows "lincomb add zero bs = zero"
  using assms(2) by (induction bs) (auto simp: checkZeroArray_def lincomb_def curve_laws_ac [OF assms(1)])

lemma msm_add_Cons: "msm_add add ((b, e) # bs) s = msm_add add bs (if e mod 2 = 1 then add s b else s)"
  by (simp add: msm_add_def)

lemma msm_add_out:
  assumes "curve_laws add smult zero"
  shows "msm_add add bs r = add r (msm_add add bs zero)"
proof (induction bs arbitrary: r)
  case (Cons a bs)
  obtain b e where a: "a = (b, e)" by fastforce
  note ac = curve_laws_ac [OF assms]
  show ?case
    unfolding a msm_add_Cons using Cons [of "add r b"] Cons [of r] Cons [of b]
    by (simp add: ac del: One_nat_def)
qed (simp add: msm_add_def curve_laws_ac [OF assms])

lemma halve: "0 \<le> e \<Longrightarrow> nat e = nat (e mod 2) + (nat (e div 2) + nat (e div 2))"
  by (simp add: nat_add_distrib [symmetric])

lemma nfold_halve:
  assumes "curve_laws add smult zero" and "0 \<le> e"
  shows "nfold add zero (nat e) p = add (if e mod 2 = 1 then p else zero) (nfold add zero (nat (e div 2)) (add p p))"
proof -
  have "e mod 2 = 0 \<or> e mod 2 = 1" by presburger
  then have "nfold add zero (nat (e mod 2)) p = (if e mod 2 = 1 then p else zero)"
    by (auto simp: curve_laws_ac [OF assms(1)])
  then show ?thesis
    unfolding halve [OF assms(2)] nfold_plus [OF assms(1)] nfold_add [OF assms(1)] by (rule arg_cong)
qed

lemma lincomb_round:
  assumes "curve_laws add smult zero"
  shows "list_all (\<lambda>(b, e). 0 \<le> e) bs \<Longrightarrow> lincomb add zero bs = add (msm_add add bs zero) (lincomb add zero (msm_shift add bs))"
proof (induction bs)
  case (Cons a bs)
  obtain b e where a: "a = (b, e)" by fastforce
  note ac = curve_laws_ac [OF assms]
  let ?odd = "if e mod 2 = 1 then b else zero"
  have step: "msm_add add (a # bs) zero = add ?odd (msm_add add bs zero)"
    using msm_add_out [OF assms, of bs b] by (cases "e mod 2 = 1") (simp_all add: a msm_add_Cons ac)
  have ih: "lincomb add zero bs = add (msm_add add bs zero) (lincomb add zero (msm_shift add bs))"
    using Cons by simp
  have shift: "msm_shift add (a # bs) = (add b b, e div 2) # msm_shift add bs"
    by (simp add: msm_shift_def a)
  have half: "nfold add zero (nat e) b = add ?odd (nfold add zero (nat (e div 2)) (add b b))"
    using Cons.prems a by (intro nfold_halve [OF assms]) simp
  show ?case
    unfolding step shift unfolding a lincomb_Cons half ih by (simp only: ac(1-3))
qed (simp add: msm_add_def msm_shift_def curve_laws_ac [OF assms])

definition msm_left :: "('p \<times> int) list \<Rightarrow> nat" where
  "msm_left bs = sum_list (map (\<lambda>(b, e). nat e) bs)"

lemma msm_left_shift:
  "msm_left (msm_shift add bs) \<le> msm_left bs"
  "list_all (\<lambda>(b, e). 0 \<le> e) bs \<Longrightarrow> \<not> checkZeroArray (map snd bs) \<Longrightarrow> msm_left (msm_shift add bs) < msm_left bs"
proof -
  have le: "msm_left (msm_shift add cs) \<le> msm_left cs" for cs
    by (induction cs) (auto simp: msm_left_def msm_shift_def)
  then show "msm_left (msm_shift add bs) \<le> msm_left bs" .
  show "list_all (\<lambda>(b, e). 0 \<le> e) bs \<Longrightarrow> \<not> checkZeroArray (map snd bs) \<Longrightarrow> msm_left (msm_shift add bs) < msm_left bs"
  proof (induction bs)
    case (Cons c cs)
    then show ?case using le [of cs]
      by (cases "snd c = 0") (auto simp: msm_left_def msm_shift_def checkZeroArray_def split: prod.splits)
  qed (simp add: checkZeroArray_def)
qed

lemma msm_loop_lincomb:
  assumes "curve_laws add smult zero"
  shows "list_all (\<lambda>(b, e). 0 \<le> e) bs \<Longrightarrow> msm_loop add bs r = Some (add r (lincomb add zero bs))"
proof (induction "msm_left bs" arbitrary: bs r rule: less_induct)
  case less
  note ac = curve_laws_ac [OF assms]
  show ?case
  proof (cases "checkZeroArray (map snd bs)")
    case True
    then show ?thesis by (simp add: msm_loop.simps [of add bs r] lincomb_zeros [OF assms] ac)
  next
    case False
    have "msm_loop add (msm_shift add bs) (msm_add add bs r) = Some (add (msm_add add bs r) (lincomb add zero (msm_shift add bs)))"
      using less.prems msm_left_shift(2) [OF less.prems False] by (intro less.hyps) (auto simp: msm_shift_def list_all_iff)
    moreover have "add (msm_add add bs r) (lincomb add zero (msm_shift add bs)) = add r (lincomb add zero bs)"
      unfolding lincomb_round [OF assms less.prems] msm_add_out [OF assms, of bs r] by (rule ac(1))
    ultimately show ?thesis using False by (simp add: msm_loop.simps [of add bs r])
  qed
qed

text \<open>The loop returns only for exponents that are not negative: shifting a negative one never reaches zero.\<close>

lemma msm_loop_nonneg: "msm_loop add bs r = Some y \<Longrightarrow> list_all (\<lambda>(b, e). 0 \<le> e) bs"
proof (induction rule: msm_loop.raw_induct [rotated 1, consumes 1])
  case (1 loop add bs r y)
  show ?case
  proof (cases "checkZeroArray (map snd bs)")
    case True
    then show ?thesis by (auto simp: checkZeroArray_def list_all_iff)
  next
    case False
    then have "list_all (\<lambda>(b, e). 0 \<le> e) (msm_shift add bs)" using 1 by simp
    then show ?thesis by (auto simp: msm_shift_def list_all_iff)
  qed
qed

lemma add_bit_Cons:
  "add_bit add i (p # g) (b # bs) s = add_bit add i g bs (if b ! i = 1 then add s p else s)"
  by (simp add: add_bit_def)

lemma add_bit_out:
  assumes "curve_laws add smult zero"
  shows "add_bit add i g vb r = add r (add_bit add i g vb zero)"
proof (induction g arbitrary: vb r)
  case (Cons p g)
  note ac = curve_laws_ac [OF assms]
  show ?case
  proof (cases vb)
    case Nil
    then show ?thesis by (simp add: add_bit_def ac)
  next
    case (Cons b bs)
    then show ?thesis
      using Cons.IH [of bs "add r p"] Cons.IH [of bs r] Cons.IH [of bs p] by (simp add: add_bit_Cons ac)
  qed
qed (simp add: add_bit_def curve_laws_ac [OF assms])

text \<open>Bit \<open>i\<close> of every value, weighted, on top of the lower bits.\<close>

lemma lincomb_bit:
  assumes L: "curve_laws add smult zero" and "length g = length vs" and "i < n"
  shows "lincomb add zero (zip g (map (\<lambda>v. v mod 2 ^ Suc i) vs)) =
    add (nfold add zero (2 ^ i) (add_bit add i g (map (\<lambda>v. ConvertBigIntToBinary v n) vs) zero))
      (lincomb add zero (zip g (map (\<lambda>v. v mod 2 ^ i) vs)))"
  using assms(2)
proof (induction g vs rule: list_induct2)
  case Nil
  then show ?case by (simp add: add_bit_def nfold_zero [OF L] curve_laws_ac [OF L])
next
  case (Cons p g v vs)
  note ac = curve_laws_ac [OF L]
  let ?bit = "v div 2 ^ i mod 2" and ?vb = "map (\<lambda>v. ConvertBigIntToBinary v n) vs"
  let ?p = "if ?bit = 1 then p else zero"
  have bit: "?bit = 0 \<or> ?bit = 1" by presburger
  have "v mod 2 ^ Suc i = 2 ^ i * ?bit + v mod 2 ^ i"
    using zmod_zmult2_eq [of 2 v "2 ^ i"] by (simp add: mult.commute)
  then have "nat (v mod 2 ^ Suc i) = nat ?bit * 2 ^ i + nat (v mod 2 ^ i)"
    by (simp add: nat_add_distrib nat_mult_distrib nat_power_eq mult.commute)
  then have split: "nfold add zero (nat (v mod 2 ^ Suc i)) p = add (nfold add zero (2 ^ i) ?p) (nfold add zero (nat (v mod 2 ^ i)) p)"
    using bit by (auto simp: nfold_plus [OF L] nfold_zero [OF L] ac)
  have "add_bit add i (p # g) (ConvertBigIntToBinary v n # ?vb) zero = add_bit add i g ?vb ?p"
    using assms(3) by (simp add: add_bit_Cons nth_ConvertBigIntToBinary ac)
  also have "\<dots> = add ?p (add_bit add i g ?vb zero)" by (rule add_bit_out [OF L])
  finally have step: "add_bit add i (p # g) (ConvertBigIntToBinary v n # ?vb) zero = add ?p (add_bit add i g ?vb zero)" .
  show ?case
    unfolding list.map step nfold_add [OF L] zip_Cons_Cons lincomb_Cons split Cons.IH by (simp only: ac(1-3))
qed

lemma shamir_lincomb:
  assumes L: "curve_laws add smult zero" and "length g = length vs" and "i \<le> n"
  shows "shamir add smult g (map (\<lambda>v. ConvertBigIntToBinary v n) vs) i r =
    add (nfold add zero (2 ^ i) r) (lincomb add zero (zip g (map (\<lambda>v. v mod 2 ^ i) vs)))"
  using assms(3)
proof (induction i arbitrary: r)
  case 0
  have "list_all (\<lambda>v. v = 0) (map snd (zip g (map (\<lambda>v. v mod 1) vs)))"
    by (auto simp: list_all_iff dest!: set_zip_rightD)
  then show ?case by (simp add: lincomb_zeros [OF L] checkZeroArray_def curve_laws_ac [OF L])
next
  case (Suc i)
  note ac = curve_laws_ac [OF L]
  let ?vb = "map (\<lambda>v. ConvertBigIntToBinary v n) vs" and ?L = "\<lambda>i. lincomb add zero (zip g (map (\<lambda>v. v mod 2 ^ i) vs))"
  have "shamir add smult g ?vb (Suc i) r = add (nfold add zero (2 ^ i) (add_bit add i g ?vb (add r r))) (?L i)"
    using Suc by (simp add: ac(6))
  also have "\<dots> = add (nfold add zero (2 ^ i) (add r r)) (add (nfold add zero (2 ^ i) (add_bit add i g ?vb zero)) (?L i))"
    unfolding add_bit_out [OF L, of i g ?vb "add r r"] nfold_add [OF L] by (simp only: ac(1))
  also have "\<dots> = add (nfold add zero (2 ^ i) (add r r)) (?L (Suc i))"
    using lincomb_bit [OF L assms(2), of i n] Suc.prems by simp
  also have "nfold add zero (2 ^ i) (add r r) = nfold add zero (2 ^ Suc i) r"
    by (simp only: nfold_add [OF L] nfold_plus [OF L] power_Suc mult_2)
  finally show ?case .
qed

lemma MultiScalar2_lincomb:
  assumes "curve_laws add smult zero" and "length g = length vs" and "list_all (\<lambda>v. 0 \<le> v) vs"
  shows "MultiScalar2 add smult zero g vs = Some (lincomb add zero (zip g vs))"
proof -
  have "map (\<lambda>v. v mod 2 ^ MaxBitLen vs) vs = vs"
    using assms(3) by (intro map_idI) (simp add: list_all_iff MaxBitLen_bound)
  then show ?thesis
    using shamir_lincomb [OF assms(1,2), of "MaxBitLen vs" "MaxBitLen vs" zero] assms(2)
    by (simp add: MultiScalar2_def Let_def nfold_zero [OF assms(1)] curve_laws_ac [OF assms(1)])
qed

lemma list_all_zip_snd: "length g = length vs \<Longrightarrow> list_all (\<lambda>(b, e). P e) (zip g vs) = list_all P vs"
  by (induction g vs rule: list_induct2) simp_all

lemma curve_laws_int: "curve_laws (+) (*) (0 :: int)"
  by (simp add: curve_laws_def)

section \<open>Properties\<close>

text \<open>C30: the two multi-exponentiations agree. On bases and exponents of equal length, none of them
  negative, Shamir's method from the highest bit (\<open>MultiScalar2\<close>) and the square-and-add rounds from
  the lowest bit (\<open>MultiScalarmult\<close>) both return, and the result is the sum of the bases taken as
  many times as their exponents say.
\<close>

theorem multi_scalar_agree:
  assumes "curve_laws add smult zero" and "length g = length vs" and "list_all (\<lambda>v. 0 \<le> v) vs"
  shows "MultiScalar2 add smult zero g vs = Some (lincomb add zero (zip g vs))
    \<and> MultiScalarmult add zero g vs = Some (Some (lincomb add zero (zip g vs)))"
proof
  show "MultiScalar2 add smult zero g vs = Some (lincomb add zero (zip g vs))"
    by (rule MultiScalar2_lincomb [OF assms])
  have "list_all (\<lambda>(b, e). 0 \<le> e) (zip g vs)" using assms(2,3) by (simp add: list_all_zip_snd)
  then show "MultiScalarmult add zero g vs = Some (Some (lincomb add zero (zip g vs)))"
    using msm_loop_lincomb [OF assms(1), of "zip g vs" zero] assms(2)
    by (simp add: MultiScalarmult_def curve_laws_ac [OF assms(1)])
qed

theorem multi_scalar_agree_witness:
  "MultiScalarmult (+) (0 :: int) [10, 100, 7] [3, 0, 5] = Some (Some 65)"
  using multi_scalar_agree [OF curve_laws_int, of "[10, 100, 7]" "[3, 0, 5]"]
  by (simp add: lincomb_def eval_nat_numeral)

text \<open>C31: when \<open>MultiScalarmult\<close> returns. With as many exponents as bases it comes to an end exactly
  when no exponent is negative: the right shift of a negative number is never zero, so one of them
  keeps the loop running for ever. Different lengths are refused at once.
\<close>

theorem multi_scalar_terminates_iff:
  assumes "curve_laws add smult zero"
  shows "MultiScalarmult add zero bases exponents \<noteq> None
    \<longleftrightarrow> length bases \<noteq> length exponents \<or> list_all (\<lambda>v. 0 \<le> v) exponents"
proof (cases "length bases = length exponents")
  case True
  have "msm_loop add (zip bases exponents) zero \<noteq> None \<longleftrightarrow> list_all (\<lambda>(b, e). 0 \<le> e) (zip bases exponents)"
    using msm_loop_lincomb [OF assms, of "zip bases exponents" zero] msm_loop_nonneg [of add "zip bases exponents" zero] by blast
  then show ?thesis using True by (simp add: MultiScalarmult_def list_all_zip_snd)
qed (simp add: MultiScalarmult_def)

theorem multi_scalar_terminates_iff_witness:
  "MultiScalarmult (+) (0 :: int) [5, 6] [2, -1] = None"
  using multi_scalar_terminates_iff [OF curve_laws_int, of "[5, 6]" "[2, -1]"] by simp

end
