(* ===== verification/Wire_Codec.thy ===== *)
theory Wire_Codec
  imports Privacy_Utils
begin

text \<open>
  The reading and writing of byte layouts as \<open>src/privacy\<close> does it: a decoder walks over a slice with
  an offset, reads a length byte, takes a sub-slice and advances. A reader consumes the bytes it
  reads and returns the rest, which is the slice from the new offset on. Reading beyond the end of the
  slice panics; a decoder of a sub-slice may also return an error. A sub-slice is taken to have no
  spare capacity behind its length.

  The locale \<open>wire\<close> is the contract of a field: what was written is read back, whatever follows.
  Arrays with a count, parts with a length and optional parts keep it.
\<close>

section \<open>Readers\<close>

datatype read_failure = Panic fault | ReadErr

type_synonym 'a reader = "bytes \<Rightarrow> read_failure + 'a \<times> bytes"
type_synonym 'a decoder = "bytes \<Rightarrow> read_failure + 'a"

definition read_return :: "'a \<Rightarrow> 'a reader" where
  "read_return x bs = Inr (x, bs)"

definition read_bind :: "'a reader \<Rightarrow> ('a \<Rightarrow> 'b reader) \<Rightarrow> 'b reader" where
  "read_bind r f bs = andThen (r bs) (\<lambda>(x, rest). f x rest)"

definition read_byte :: "byte reader" where
  "read_byte bs = (case bs of [] \<Rightarrow> Inl (Panic IndexOutOfRange) | b # rest \<Rightarrow> Inr (b, rest))"

definition read_slice :: "nat \<Rightarrow> bytes reader" where
  "read_slice n bs = (if n \<le> length bs then Inr (take n bs, drop n bs) else Inl (Panic IndexOutOfRange))"

text \<open>A sub-slice of \<open>n\<close> bytes, handed to a decoder.\<close>

definition read_part :: "'a decoder \<Rightarrow> nat \<Rightarrow> 'a reader" where
  "read_part d n = read_bind (read_slice n) (\<lambda>s rest. andThen (d s) (\<lambda>x. Inr (x, rest)))"

text \<open>A length byte and a part of that length.\<close>

definition read_sized :: "'a decoder \<Rightarrow> 'a reader" where
  "read_sized d = read_bind read_byte (\<lambda>n. read_part d (unat n))"

text \<open>A length of two bytes and a part of that length.\<close>

definition read_sized2 :: "'a decoder \<Rightarrow> 'a reader" where
  "read_sized2 d = read_bind (read_slice 2) (\<lambda>l. read_part d (nat (ByteArrToInt l)))"

text \<open>A length byte that is zero for an absent part.\<close>

definition read_opt :: "'a decoder \<Rightarrow> 'a option reader" where
  "read_opt d = read_bind read_byte (\<lambda>n.
     if n \<noteq> 0 then read_bind (read_part d (unat n)) (\<lambda>x. read_return (Some x)) else read_return None)"

fun read_array :: "nat \<Rightarrow> 'a reader \<Rightarrow> 'a list reader" where
  "read_array 0 r = read_return []"
| "read_array (Suc n) r = read_bind r (\<lambda>x. read_bind (read_array n r) (\<lambda>xs. read_return (x # xs)))"

text \<open>A count byte and that many fields.\<close>

definition read_counted :: "'a reader \<Rightarrow> 'a list reader" where
  "read_counted r = read_bind read_byte (\<lambda>n. read_array (unat n) r)"

section \<open>Writers\<close>

definition write_sized :: "('a \<Rightarrow> bytes) \<Rightarrow> 'a \<Rightarrow> bytes" where
  "write_sized e x = of_nat (length (e x)) # e x"

definition write_opt :: "('a \<Rightarrow> bytes) \<Rightarrow> 'a option \<Rightarrow> bytes" where
  "write_opt e x = (case x of None \<Rightarrow> [0] | Some v \<Rightarrow> write_sized e v)"

definition write_counted :: "('a \<Rightarrow> bytes) \<Rightarrow> 'a list \<Rightarrow> bytes" where
  "write_counted w xs = of_nat (length xs) # concat (map w xs)"

section \<open>The contract of a field\<close>

locale wire =
  fixes wr :: "'a \<Rightarrow> bytes" and rd :: "'a reader" and ok :: "'a \<Rightarrow> bool"
  assumes read_write: "ok x \<Longrightarrow> rd (wr x @ rest) = Inr (x, rest)"
begin

lemma array_read_write: "list_all ok xs \<Longrightarrow> read_array (length xs) rd (concat (map wr xs) @ rest) = Inr (xs, rest)"
  by (induction xs) (simp_all add: read_return_def read_bind_def andThen_def read_write)

lemma counted_read_write:
  assumes "list_all ok xs" and "length xs < 256"
  shows "read_counted rd (write_counted wr xs @ rest) = Inr (xs, rest)"
  using array_read_write [OF assms(1), of rest] assms(2)
  by (simp add: read_counted_def write_counted_def read_bind_def read_byte_def andThen_def of_nat_unat_byte)

lemma then_read_write:
  "ok x \<Longrightarrow> read_bind rd f (wr x @ rest) = f x rest"
  by (simp add: read_bind_def andThen_def read_write)

end

text \<open>A part whose decoder inverts its encoder.\<close>

definition part_ok :: "('a \<Rightarrow> bytes) \<Rightarrow> 'a decoder \<Rightarrow> 'a \<Rightarrow> bool" where
  "part_ok e d x \<longleftrightarrow> d (e x) = Inr x"

lemma read_part_write: "part_ok e d x \<Longrightarrow> read_part d (length (e x)) (e x @ rest) = Inr (x, rest)"
  by (simp add: read_part_def read_bind_def read_slice_def andThen_def part_ok_def)

lemma wire_sized: "wire (write_sized e) (read_sized d) (\<lambda>x. part_ok e d x \<and> length (e x) < 256)"
  by unfold_locales
    (simp add: read_sized_def write_sized_def read_bind_def read_byte_def andThen_def of_nat_unat_byte read_part_write)

lemma wire_opt:
  "wire (write_opt e) (read_opt d) (\<lambda>x. case x of None \<Rightarrow> True | Some v \<Rightarrow> part_ok e d v \<and> 0 < length (e v) \<and> length (e v) < 256)"
proof
  fix x rest
  assume ok: "case x of None \<Rightarrow> True | Some v \<Rightarrow> part_ok e d v \<and> 0 < length (e v) \<and> length (e v) < 256"
  show "read_opt d (write_opt e x @ rest) = Inr (x, rest)"
  proof (cases x)
    case None
    then show ?thesis
      by (simp add: read_opt_def write_opt_def read_bind_def read_byte_def read_return_def andThen_def)
  next
    case (Some v)
    then have "unat (of_nat (length (e v)) :: byte) = length (e v)" "part_ok e d v" "length (e v) \<noteq> 0"
      using ok by (simp_all add: of_nat_unat_byte)
    moreover from this have "(of_nat (length (e v)) :: byte) \<noteq> 0" by (metis unat_0)
    ultimately show ?thesis
      using read_part_write [of e d v rest]
      by (simp add: Some read_opt_def write_opt_def write_sized_def read_bind_def read_byte_def read_return_def andThen_def)
  qed
qed

lemma wire_counted: "wire w r ok \<Longrightarrow> wire (write_counted w) (read_counted r) (\<lambda>xs. list_all ok xs \<and> length xs < 256)"
  by unfold_locales (simp add: wire.counted_read_write)

lemma wire_weaken: "wire w r ok \<Longrightarrow> (\<And>x. ok' x \<Longrightarrow> ok x) \<Longrightarrow> wire w r ok'"
  by (simp add: wire_def)

subsection \<open>Fixed-width numbers\<close>

lemma length_be_bytes: "n < 256 ^ k \<Longrightarrow> length (be_bytes n) \<le> k"
proof (induction k arbitrary: n)
  case 0
  then show ?case by (simp add: be_bytes_def digits_of.simps)
next
  case (Suc k)
  then have "n div 256 < 256 ^ k" by (simp add: less_mult_imp_div_less mult.commute)
  then have "length (be_bytes (n div 256)) \<le> k" by (rule Suc.IH)
  then show ?case by (simp add: be_bytes_def digits_of.simps [of 256 n])
qed

lemma length_AddPaddingBigInt: "0 \<le> n \<Longrightarrow> n < 256 ^ k \<Longrightarrow> length (AddPaddingBigInt n k) = k"
  using length_be_bytes [of "nat n" k] by (simp add: AddPaddingBigInt_def Let_def nat_less_iff)

definition read_uint :: "nat \<Rightarrow> uint64 reader" where
  "read_uint k = read_bind (read_slice k) (\<lambda>s. read_return (of_nat (be_val s)))"

text \<open>The eight bytes of a commitment index; \<open>int64\<close> makes an index from \<open>2^63\<close> on negative.\<close>

definition write_index :: "uint64 \<Rightarrow> bytes" where
  "write_index v = AddPaddingBigInt (sint v) 8"

interpretation index_field: wire write_index "read_uint 8" "\<lambda>v. unat v < 2 ^ 63"
proof
  fix v :: uint64 and rest
  assume "unat v < 2 ^ 63"
  then have "int (unat v) < 2 ^ 63" by (metis of_nat_less_iff of_nat_numeral of_nat_power)
  then have "uint v < 2 ^ 63" by (simp only: of_nat_unat)
  then have "signed_take_bit 63 (uint v) = uint v"
    by (intro signed_take_bit_int_eq_self) (simp_all add: order_trans [OF _ uint_ge_0])
  then have v: "sint v = int (unat v)" by (simp add: sint_uint)
  have "length (write_index v) = 8"
    unfolding write_index_def v using uint_bounded [of v] by (intro length_AddPaddingBigInt) simp_all
  moreover have "be_val (write_index v) = unat v"
    using be_val_AddPaddingBigInt [of "int (unat v)" 8] unfolding write_index_def v by (simp only: abs_of_nat of_nat_eq_iff)
  ultimately show "read_uint 8 (write_index v @ rest) = Inr (v, rest)"
    by (simp add: read_uint_def read_bind_def read_slice_def read_return_def andThen_def)
qed

end
