(* ===== verification/Coin_Codec.thy ===== *)
theory Coin_Codec
  imports Wire_Codec
begin

text \<open>
  \<open>src/privacy/coin.go\<close>, the \<open>Ciphertext\<close> of \<open>src/privacy/hybridencryption.go\<close> and
  \<open>src/privacy/knapsack.go\<close>: coins, their byte form and the choice of coins for a payment. An elliptic
  point has an abstract type; \<open>compress\<close> and \<open>decompress\<close> are \<open>EllipticPoint.Compress\<close> and
  \<open>EllipticPoint.Decompress\<close> (\<open>src/privacy/ec.go\<close>), with \<open>point_codec\<close> as what is relied on: a point
  on the curve has a compressed form of 33 bytes that is decompressed to it. A nil pointer is \<open>None\<close>.
\<close>

section \<open>Coins\<close>

record 'p Coin =
  cn_PublicKey :: "'p option"
  cn_CoinCommitment :: "'p option"
  cn_SNDerivator :: "int option"
  cn_SerialNumber :: "'p option"
  cn_Randomness :: "int option"
  cn_Value :: uint64
  cn_Info :: bytes

definition new_Coin :: "'p Coin" where
  "new_Coin = \<lparr>cn_PublicKey = None, cn_CoinCommitment = None, cn_SNDerivator = None, cn_SerialNumber = None,
     cn_Randomness = None, cn_Value = 0, cn_Info = []\<rparr>"

definition BigIntSize :: nat where "BigIntSize = 32"

text \<open>An off-curve point compresses to the empty slice, whose length byte is zero as for a nil point.\<close>

definition write_point :: "('p \<Rightarrow> bytes) \<Rightarrow> 'p option \<Rightarrow> bytes" where
  "write_point compress = write_opt compress"

definition write_scalar :: "int option \<Rightarrow> bytes" where
  "write_scalar n = (case n of None \<Rightarrow> [0] | Some v \<Rightarrow> of_nat BigIntSize # AddPaddingBigInt v BigIntSize)"

definition write_value :: "uint64 \<Rightarrow> bytes" where
  "write_value v = (if v > 0 then write_sized (\<lambda>v. be_bytes (unat v)) v else [0])"

definition write_info :: "bytes \<Rightarrow> bytes" where
  "write_info info = (if length info > 0 then write_sized id info else [0])"

definition Coin_Bytes :: "('p \<Rightarrow> bytes) \<Rightarrow> 'p Coin \<Rightarrow> bytes" where
  "Coin_Bytes compress coin =
     write_point compress (cn_PublicKey coin) @ write_point compress (cn_CoinCommitment coin)
     @ write_scalar (cn_SNDerivator coin) @ write_point compress (cn_SerialNumber coin)
     @ write_scalar (cn_Randomness coin) @ write_value (cn_Value coin) @ write_info (cn_Info coin)"

text \<open>A field is kept when its length byte is zero.\<close>

definition keep :: "'a \<Rightarrow> 'a option \<Rightarrow> 'a" where
  "keep old new = (case new of None \<Rightarrow> old | Some v \<Rightarrow> v)"

definition big_of_bytes :: "int decoder" where
  "big_of_bytes s = Inr (int (be_val s))"

text \<open>
  The info field: a length byte that is not zero is replaced by the byte that follows it, and that
  many bytes are copied into the slice the coin has, which keeps its length.
\<close>

definition read_info :: "bytes \<Rightarrow> bytes reader" where
  "read_info old = read_bind read_byte (\<lambda>n.
     if n \<noteq> 0 then
       (\<lambda>rest. read_bind read_byte (\<lambda>l _. read_bind (read_slice (unat l)) (\<lambda>s. read_return
          (let k = min (length old) (length s) in take k s @ drop k old)) rest) rest)
     else read_return old)"

definition Coin_SetBytes :: "'p decoder \<Rightarrow> 'p Coin \<Rightarrow> 'p Coin decoder" where
  "Coin_SetBytes decompress coin coinBytes =
     (if length coinBytes = 0 then Inr coin
      else andThen (read_bind (read_opt decompress) (\<lambda>pk.
         read_bind (read_opt decompress) (\<lambda>cm.
         read_bind (read_opt big_of_bytes) (\<lambda>snd.
         read_bind (read_opt decompress) (\<lambda>sn.
         read_bind (read_opt big_of_bytes) (\<lambda>rnd.
         read_bind (read_opt big_of_bytes) (\<lambda>v.
         read_bind (read_info (cn_Info coin)) (\<lambda>info. read_return
           \<lparr>cn_PublicKey = keep (cn_PublicKey coin) (map_option Some pk),
            cn_CoinCommitment = keep (cn_CoinCommitment coin) (map_option Some cm),
            cn_SNDerivator = keep (cn_SNDerivator coin) (map_option Some snd),
            cn_SerialNumber = keep (cn_SerialNumber coin) (map_option Some sn),
            cn_Randomness = keep (cn_Randomness coin) (map_option Some rnd),
            cn_Value = keep (cn_Value coin) (map_option of_int v), cn_Info = info\<rparr>))))))) coinBytes)
        (\<lambda>(c, _). Inr c))"

text \<open>An input coin holds its details only.\<close>

definition InputCoin_SetBytes :: "'p decoder \<Rightarrow> 'p Coin decoder" where
  "InputCoin_SetBytes decompress bs = (if length bs = 0 then Inl ReadErr else Coin_SetBytes decompress new_Coin bs)"

section \<open>Ciphertexts and output coins\<close>

record Ciphertext =
  ct_MsgEncrypted :: bytes
  ct_SymKeyEncrypted :: bytes

definition Ciphertext_IsNil :: "Ciphertext \<Rightarrow> bool" where
  "Ciphertext_IsNil c = (if length (ct_MsgEncrypted c) = 0 then True else length (ct_SymKeyEncrypted c) = 0)"

definition Ciphertext_Bytes :: "Ciphertext \<Rightarrow> bytes" where
  "Ciphertext_Bytes c = (if Ciphertext_IsNil c then [] else ct_SymKeyEncrypted c @ ct_MsgEncrypted c)"

definition Ciphertext_SetBytes :: "Ciphertext decoder" where
  "Ciphertext_SetBytes bs =
     (if length bs = 0 then Inl ReadErr
      else if length bs < 66 then Inl (Panic IndexOutOfRange)
      else Inr \<lparr>ct_MsgEncrypted = drop 66 bs, ct_SymKeyEncrypted = take 66 bs\<rparr>)"

record 'p OutputCoin =
  oc_CoinDetails :: "'p Coin option"
  oc_CoinDetailsEncrypted :: "Ciphertext option"

text \<open>\<open>Bytes\<close> of an output coin without details dereferences nil.\<close>

definition OutputCoin_Bytes :: "('p \<Rightarrow> bytes) \<Rightarrow> 'p OutputCoin \<Rightarrow> fault + bytes" where
  "OutputCoin_Bytes compress outputCoin =
     (case oc_CoinDetails outputCoin of
        None \<Rightarrow> Inl NilDereference
      | Some c \<Rightarrow> Inr (write_opt Ciphertext_Bytes (oc_CoinDetailsEncrypted outputCoin) @ write_sized (Coin_Bytes compress) c))"

definition OutputCoin_SetBytes :: "'p decoder \<Rightarrow> 'p OutputCoin \<Rightarrow> 'p OutputCoin decoder" where
  "OutputCoin_SetBytes decompress outputCoin bs =
     (if length bs = 0 then Inl ReadErr
      else andThen (read_bind (read_opt Ciphertext_SetBytes) (\<lambda>ct.
         read_bind (read_opt (Coin_SetBytes decompress new_Coin)) (\<lambda>c. read_return
           \<lparr>oc_CoinDetails = keep (oc_CoinDetails outputCoin) (map_option Some c),
            oc_CoinDetailsEncrypted = keep (oc_CoinDetailsEncrypted outputCoin) (map_option Some ct)\<rparr>)) bs)
        (\<lambda>(c, _). Inr c))"

definition new_OutputCoin :: "'p OutputCoin" where
  "new_OutputCoin = \<lparr>oc_CoinDetails = None, oc_CoinDetailsEncrypted = None\<rparr>"

section \<open>Round trips\<close>

definition point_codec :: "('p \<Rightarrow> bool) \<Rightarrow> ('p \<Rightarrow> bytes) \<Rightarrow> 'p decoder \<Rightarrow> bool" where
  "point_codec onCurve compress decompress \<longleftrightarrow>
     (\<forall>p. onCurve p \<longrightarrow> decompress (compress p) = Inr p \<and> length (compress p) = 33)"

definition opt_all :: "('a \<Rightarrow> bool) \<Rightarrow> 'a option \<Rightarrow> bool" where
  "opt_all P x = (case x of None \<Rightarrow> True | Some v \<Rightarrow> P v)"

definition scalar_ok :: "int \<Rightarrow> bool" where
  "scalar_ok v \<longleftrightarrow> 0 \<le> v \<and> v < 256 ^ BigIntSize"

text \<open>Points on the curve, scalars of 32 bytes, and no info, which cannot be read back.\<close>

definition wf_coin :: "('p \<Rightarrow> bool) \<Rightarrow> 'p Coin \<Rightarrow> bool" where
  "wf_coin onCurve c \<longleftrightarrow> opt_all onCurve (cn_PublicKey c) \<and> opt_all onCurve (cn_CoinCommitment c)
     \<and> opt_all scalar_ok (cn_SNDerivator c) \<and> opt_all onCurve (cn_SerialNumber c)
     \<and> opt_all scalar_ok (cn_Randomness c) \<and> cn_Info c = []"

lemma wire_point:
  assumes "point_codec onCurve compress decompress"
  shows "wire (write_point compress) (read_opt decompress) (opt_all onCurve)"
  unfolding write_point_def using wire_opt
  by (rule wire_weaken) (use assms in \<open>auto simp: opt_all_def point_codec_def part_ok_def split: option.splits\<close>)

lemma wire_scalar: "wire write_scalar (read_opt big_of_bytes) (opt_all scalar_ok)"
proof
  fix n :: "int option" and rest
  assume ok: "opt_all scalar_ok n"
  let ?w = "\<lambda>v. AddPaddingBigInt v BigIntSize"
  have len: "scalar_ok v \<Longrightarrow> length (?w v) = BigIntSize" for v
    unfolding scalar_ok_def by (intro length_AddPaddingBigInt) simp_all
  have eq: "write_scalar n = write_opt ?w n"
    using ok by (auto simp: write_scalar_def write_opt_def write_sized_def opt_all_def len split: option.splits)
  have "part_ok ?w big_of_bytes v" if "scalar_ok v" for v
    using that by (simp add: part_ok_def big_of_bytes_def be_val_AddPaddingBigInt scalar_ok_def)
  then have "part_ok ?w big_of_bytes v \<and> 0 < length (?w v) \<and> length (?w v) < 256" if "scalar_ok v" for v
    unfolding len [OF that] using that by (simp add: BigIntSize_def)
  then have "case n of None \<Rightarrow> True | Some v \<Rightarrow> part_ok ?w big_of_bytes v \<and> 0 < length (?w v) \<and> length (?w v) < 256"
    using ok by (cases n) (simp_all only: opt_all_def option.case)
  then show "read_opt big_of_bytes (write_scalar n @ rest) = Inr (n, rest)"
    unfolding eq by (rule wire.read_write [OF wire_opt])
qed

lemma be_bytes_value: "0 < v \<Longrightarrow> 0 < length (be_bytes (unat v)) \<and> length (be_bytes (unat (v :: uint64))) < 256"
proof -
  assume "0 < v"
  have "unat v < 256 ^ 8" using unsigned_less [of v, where 'a = nat] by simp
  then have "length (be_bytes (unat v)) \<le> 8" by (rule length_be_bytes)
  moreover have "be_bytes (unat v) \<noteq> []"
  proof
    assume "be_bytes (unat v) = []"
    then have "unat v = 0" using be_val_be_bytes [of "unat v"] by simp
    with \<open>0 < v\<close> show False by (simp add: unat_eq_zero)
  qed
  ultimately show ?thesis by auto
qed

lemma read_value: "read_opt big_of_bytes (write_value v @ rest) = Inr (if v > 0 then Some (uint v) else None, rest)"
proof (cases "v > 0")
  case True
  let ?w = "\<lambda>i. be_bytes (nat i)"
  have eq: "write_value v = write_opt ?w (Some (uint v))"
    using True by (simp add: write_value_def write_opt_def write_sized_def)
  have "part_ok ?w big_of_bytes (uint v)" by (simp add: part_ok_def big_of_bytes_def be_val_be_bytes)
  then show ?thesis
    unfolding eq using be_bytes_value [OF True] True by (subst wire.read_write [OF wire_opt]) simp_all
next
  case False
  then show ?thesis by (simp add: write_value_def read_opt_def read_bind_def read_byte_def read_return_def andThen_def)
qed

lemma read_info_empty: "read_info old (write_info [] @ rest) = Inr (old, rest)"
  by (simp add: read_info_def write_info_def read_bind_def read_byte_def read_return_def andThen_def)

lemma Coin_Bytes_ne: "length (Coin_Bytes compress c) > 0"
  by (simp add: Coin_Bytes_def write_point_def write_opt_def write_sized_def split: option.splits)

lemma Coin_roundtrip:
  assumes "point_codec onCurve compress decompress" and "wf_coin onCurve c"
  shows "Coin_SetBytes decompress new_Coin (Coin_Bytes compress c) = Inr c"
proof -
  note P = wire.then_read_write [OF wire_point [OF assms(1)]]
  note S = wire.then_read_write [OF wire_scalar]
  have V: "read_bind (read_opt big_of_bytes) f (write_value v @ rest) = f (if v > 0 then Some (uint v) else None) rest" for f :: "int option \<Rightarrow> 'b reader" and v rest
    by (simp add: read_bind_def [of "read_opt big_of_bytes"] read_value andThen_def)
  have I: "read_bind (read_info old) f (write_info []) = f old []" for f :: "bytes \<Rightarrow> 'b reader" and old
    using read_info_empty [of old "[]"] by (simp add: read_bind_def [of "read_info old"] andThen_def)
  have keep_None [simp]: "keep None (map_option Some x) = x" for x :: "'b option" by (cases x) (simp_all add: keep_def)
  have val: "keep 0 (map_option of_int (if v > 0 then Some (uint v) else None)) = v" for v :: uint64
    by (simp add: keep_def word_gt_0)
  have w: "opt_all onCurve (cn_PublicKey c)" "opt_all onCurve (cn_CoinCommitment c)" "opt_all scalar_ok (cn_SNDerivator c)"
      "opt_all onCurve (cn_SerialNumber c)" "opt_all scalar_ok (cn_Randomness c)" "cn_Info c = []"
    using assms(2) unfolding wf_coin_def by blast+
  have ne: "length (Coin_Bytes compress c) \<noteq> 0" using Coin_Bytes_ne [of compress c] by simp
  show ?thesis
    unfolding Coin_SetBytes_def if_not_P [OF ne] unfolding Coin_Bytes_def
    by (simp add: P [OF w(1)] P [OF w(2)] S [OF w(3)] P [OF w(4)] S [OF w(5)] V I w(6) val read_return_def andThen_def new_Coin_def)
qed

lemma length_write_point:
  "point_codec onCurve compress decompress \<Longrightarrow> opt_all onCurve x \<Longrightarrow> length (write_point compress x) \<le> 34"
  by (cases x) (simp_all add: point_codec_def opt_all_def write_point_def write_opt_def write_sized_def)

lemma length_write_scalar: "opt_all scalar_ok x \<Longrightarrow> length (write_scalar x) \<le> 33"
  using length_AddPaddingBigInt [of _ BigIntSize]
  by (cases x) (simp_all add: opt_all_def write_scalar_def scalar_ok_def BigIntSize_def)

lemma length_write_value: "length (write_value v) \<le> 9"
  using length_be_bytes [of "unat v" 8] unsigned_less [of v, where 'a = nat]
  by (simp add: write_value_def write_sized_def)

lemma length_Coin_Bytes:
  assumes "point_codec onCurve compress decompress" and "wf_coin onCurve c"
  shows "length (Coin_Bytes compress c) \<le> 178"
proof -
  note w = assms(2) [unfolded wf_coin_def]
  have "length (write_point compress (cn_PublicKey c)) \<le> 34" "length (write_point compress (cn_CoinCommitment c)) \<le> 34"
    "length (write_point compress (cn_SerialNumber c)) \<le> 34"
    using w by (blast intro: length_write_point [OF assms(1)])+
  moreover have "length (write_scalar (cn_SNDerivator c)) \<le> 33" "length (write_scalar (cn_Randomness c)) \<le> 33"
    using w by (blast intro: length_write_scalar)+
  moreover have "length (write_info (cn_Info c)) = 1" using w by (simp add: write_info_def)
  ultimately show ?thesis using length_write_value [of "cn_Value c"] by (simp add: Coin_Bytes_def)
qed

text \<open>A stored ciphertext has a 66-byte key part and a message.\<close>

definition wf_ciphertext :: "Ciphertext \<Rightarrow> bool" where
  "wf_ciphertext ct \<longleftrightarrow> length (ct_SymKeyEncrypted ct) = 66 \<and> 0 < length (ct_MsgEncrypted ct)"

lemma Ciphertext_roundtrip: "wf_ciphertext ct \<Longrightarrow> Ciphertext_SetBytes (Ciphertext_Bytes ct) = Inr ct"
  by (simp add: wf_ciphertext_def Ciphertext_SetBytes_def Ciphertext_Bytes_def Ciphertext_IsNil_def)

definition wf_output_coin :: "('p \<Rightarrow> bool) \<Rightarrow> ('p \<Rightarrow> bytes) \<Rightarrow> 'p OutputCoin \<Rightarrow> bool" where
  "wf_output_coin onCurve compress oc \<longleftrightarrow> (\<exists>c. oc_CoinDetails oc = Some c \<and> wf_coin onCurve c)
     \<and> opt_all wf_ciphertext (oc_CoinDetailsEncrypted oc)
     \<and> (case OutputCoin_Bytes compress oc of Inl _ \<Rightarrow> False | Inr bs \<Rightarrow> length bs < 256)"

lemma OutputCoin_roundtrip:
  assumes P: "point_codec onCurve compress decompress" and "wf_output_coin onCurve compress oc"
  obtains bs where "OutputCoin_Bytes compress oc = Inr bs" and "0 < length bs" and "length bs < 256"
    and "OutputCoin_SetBytes decompress new_OutputCoin bs = Inr oc"
proof -
  obtain c where c: "oc_CoinDetails oc = Some c" "wf_coin onCurve c" using assms(2) by (auto simp: wf_output_coin_def)
  let ?ct = "oc_CoinDetailsEncrypted oc"
  let ?bs = "write_opt Ciphertext_Bytes ?ct @ write_sized (Coin_Bytes compress) c"
  have bs: "OutputCoin_Bytes compress oc = Inr ?bs" by (simp add: OutputCoin_Bytes_def c)
  then have len: "length ?bs < 256" using assms(2) by (simp add: wf_output_coin_def)
  have ct: "case ?ct of None \<Rightarrow> True | Some v \<Rightarrow>
      part_ok Ciphertext_Bytes Ciphertext_SetBytes v \<and> 0 < length (Ciphertext_Bytes v) \<and> length (Ciphertext_Bytes v) < 256"
  proof (cases ?ct)
    case (Some v)
    then have "wf_ciphertext v" using assms(2) by (simp add: wf_output_coin_def opt_all_def)
    then show ?thesis
      using Ciphertext_roundtrip [of v] len Some
      by (simp add: part_ok_def write_opt_def write_sized_def)
        (simp add: wf_ciphertext_def Ciphertext_Bytes_def Ciphertext_IsNil_def)
  qed simp
  have cd: "part_ok (Coin_Bytes compress) (Coin_SetBytes decompress new_Coin) c"
    using Coin_roundtrip [OF P c(2)] by (simp add: part_ok_def)
  have rc: "read_opt (Coin_SetBytes decompress new_Coin) (write_sized (Coin_Bytes compress) c @ []) = Inr (Some c, [])"
    using wire.read_write [OF wire_opt [of "Coin_Bytes compress" "Coin_SetBytes decompress new_Coin"], of "Some c" "[]"]
      cd Coin_Bytes_ne [of compress c] length_Coin_Bytes [OF P c(2)]
    by (simp add: write_opt_def)
  have keep_None: "keep None (map_option Some x) = x" for x :: "'b option" by (cases x) (simp_all add: keep_def)
  have keep_Some: "keep y (Some x) = x" for x y :: 'b by (simp add: keep_def)
  have "oc = \<lparr>oc_CoinDetails = Some c, oc_CoinDetailsEncrypted = ?ct\<rparr>" using c(1) by simp
  then have "OutputCoin_SetBytes decompress new_OutputCoin ?bs = Inr oc"
    using rc unfolding OutputCoin_SetBytes_def wire.then_read_write [OF wire_opt ct]
    by (simp add: read_bind_def andThen_def read_return_def new_OutputCoin_def keep_None keep_Some write_sized_def)
  moreover have "0 < length ?bs" by (simp add: write_sized_def)
  ultimately show thesis using bs len that by blast
qed

section \<open>Properties\<close>

text \<open>
  coins survive storage. A coin whose points are on the curve, whose scalars fit 32 bytes and
  which carries no info is read back unchanged from its bytes, nil fields included, and takes at
  most 178 bytes, which is the size \<open>InputCoinsNoPrivacySize\<close> reserves for it.
\<close>

theorem coin_roundtrip:
  assumes "point_codec onCurve compress decompress" and "wf_coin onCurve c"
  shows "InputCoin_SetBytes decompress (Coin_Bytes compress c) = Inr c \<and> length (Coin_Bytes compress c) \<le> 178"
  using Coin_roundtrip [OF assms] length_Coin_Bytes [OF assms] Coin_Bytes_ne [of compress c]
  by (simp add: InputCoin_SetBytes_def)

definition ex_point_compress :: "nat \<Rightarrow> bytes" where
  "ex_point_compress n = AddPaddingBigInt (int n) 33"

definition ex_point_decompress :: "nat decoder" where
  "ex_point_decompress bs = Inr (be_val bs)"

lemma ex_point_codec: "point_codec (\<lambda>n. n < 256) ex_point_compress ex_point_decompress"
proof -
  have "length (ex_point_compress n) = 33" if "n < 256" for n
  proof -
    have "int n < 256 ^ 1" using that by simp
    also have "\<dots> \<le> 256 ^ 33" by (rule power_increasing) simp_all
    finally show ?thesis unfolding ex_point_compress_def by (rule length_AddPaddingBigInt [OF of_nat_0_le_iff])
  qed
  moreover have "be_val (ex_point_compress n) = n" for n
    using be_val_AddPaddingBigInt [of "int n" 33] by (simp add: ex_point_compress_def)
  ultimately show ?thesis by (simp add: point_codec_def ex_point_decompress_def)
qed

definition ex_coin :: "nat Coin" where
  "ex_coin = \<lparr>cn_PublicKey = Some 7, cn_CoinCommitment = None, cn_SNDerivator = Some 1000, cn_SerialNumber = Some 9,
     cn_Randomness = None, cn_Value = 300, cn_Info = []\<rparr>"

theorem coin_roundtrip_witness:
  "InputCoin_SetBytes ex_point_decompress (Coin_Bytes ex_point_compress ex_coin) = Inr ex_coin"
  proof -
  have "wf_coin (\<lambda>n. n < 256) ex_coin"
    by (simp add: wf_coin_def ex_coin_def opt_all_def scalar_ok_def BigIntSize_def)
  then show ?thesis using coin_roundtrip [OF ex_point_codec, of ex_coin] by blast
qed

end
