(* ===== verification/Knapsack.thy ===== *)
theory Knapsack
  imports Coin_Codec
begin

text \<open>
  \<open>src/privacy/knapsack.go\<close>: the choice of coins for a payment. \<open>Knapsack\<close> fills a table with the
  largest number of coins that fit a budget and walks back through it; \<open>Greedy\<close> takes the smallest
  coins until they cover an amount. Values are \<open>uint64\<close>; an entry of the table counts coins, so it
  is a natural number.
\<close>

section \<open>The code\<close>

text \<open>Row \<open>i\<close> of the table from row \<open>i - 1\<close>, for the value of coin \<open>i - 1\<close>.\<close>

definition knap_row :: "nat \<Rightarrow> nat \<Rightarrow> nat list \<Rightarrow> nat list" where
  "knap_row target v prev =
     map (\<lambda>w. if w = 0 then 0 else if v \<le> w then max (1 + prev ! (w - v)) (prev ! w) else prev ! w) [0..<target + 1]"

fun knap_rows :: "nat \<Rightarrow> nat list \<Rightarrow> uint64 list \<Rightarrow> nat list list" where
  "knap_rows target row [] = [row]"
| "knap_rows target row (v # vs) = row # knap_rows target (knap_row target (unat v) row) vs"

fun knap_walk :: "nat list list \<Rightarrow> uint64 list \<Rightarrow> nat \<Rightarrow> nat \<Rightarrow> uint64 \<Rightarrow> bool list \<Rightarrow> bool list" where
  "knap_walk K values 0 targetResult w choices = choices"
| "knap_walk K values (Suc i) targetResult w choices =
     (if targetResult > 0 then
        if targetResult = K ! i ! unat w then knap_walk K values i targetResult w (choices[i := False])
        else knap_walk K values i (targetResult - 1) (w - values ! i) (choices[i := True])
      else choices)"

text \<open>\<open>target + 1\<close> wraps around to an empty row for the largest target and is too long for \<open>make\<close> from \<open>2^63\<close> on.\<close>

definition Knapsack :: "uint64 list \<Rightarrow> uint64 \<Rightarrow> fault + bool list" where
  "Knapsack values target =
     (if target + 1 = 0 then Inl IndexOutOfRange
      else if unat (target + 1) \<ge> 2 ^ 63 then Inl MakeNegative
      else let n = length values;
               K = knap_rows (unat target) (replicate (unat target + 1) 0) values
           in Inr (knap_walk K values n (K ! n ! unat target) target (replicate n False)))"

fun greedy_loop :: "uint64 \<Rightarrow> uint64 \<Rightarrow> uint64 list \<Rightarrow> bool list" where
  "greedy_loop amount sumAmount [] = []"
| "greedy_loop amount sumAmount (v # vs) =
     (let sumAmount' = sumAmount + v
      in True # (if sumAmount' \<ge> amount then replicate (length vs) False else greedy_loop amount sumAmount' vs))"

text \<open>\<open>sort.Slice\<close> sorts the coins in place; the choices refer to the sorted slice.\<close>

definition Greedy :: "'p Coin list \<Rightarrow> uint64 \<Rightarrow> 'p Coin list \<times> bool list" where
  "Greedy outCoins amount =
     (let outCoins' = sort_key cn_Value outCoins
      in (outCoins', greedy_loop amount 0 (map cn_Value outCoins')))"

section \<open>What the table holds\<close>

fun chosen :: "bool list \<Rightarrow> nat list \<Rightarrow> nat" where
  "chosen (c # cs) (v # vs) = (if c then v else 0) + chosen cs vs"
| "chosen _ _ = 0"

definition count_true :: "bool list \<Rightarrow> nat" where
  "count_true cs = length (filter id cs)"

text \<open>The largest number of coins within a budget, over the values in reverse order.\<close>

fun best :: "nat list \<Rightarrow> nat \<Rightarrow> nat" where
  "best [] w = 0"
| "best (v # vs) w = (if w = 0 then 0 else if v \<le> w then max (1 + best vs (w - v)) (best vs w) else best vs w)"

lemma best_optimal:
  "list_all (\<lambda>v. 0 < v) vs \<Longrightarrow> length cs = length vs \<Longrightarrow> chosen cs vs \<le> w \<Longrightarrow> count_true cs \<le> best vs w"
proof (induction vs arbitrary: cs w)
  case (Cons v vs)
  then obtain c cs' where cs: "cs = c # cs'" "length cs' = length vs" by (cases cs) simp_all
  show ?case
  proof (cases "w = 0")
    case True
    have "chosen ds us \<le> 0 \<Longrightarrow> list_all (\<lambda>v. 0 < v) us \<Longrightarrow> length ds = length us \<Longrightarrow> count_true ds = 0" for ds us
      by (induction ds us rule: chosen.induct) (auto simp: count_true_def split: if_splits)
    with Cons.prems True show ?thesis by fastforce
  next
    case False
    have skip: "count_true cs' \<le> best vs w" if "\<not> c" using Cons that cs by simp
    have take: "v \<le> w \<and> count_true cs' \<le> best vs (w - v)" if "c" using Cons that cs by simp
    from False skip take show ?thesis by (cases c) (auto simp: cs count_true_def)
  qed
qed (simp add: count_true_def)

lemma length_knap_row [simp]: "length (knap_row t v prev) = t + 1"
  by (simp add: knap_row_def)

lemma nth_knap_row:
  assumes "w \<le> t"
  shows "knap_row t v prev ! w = (if w = 0 then 0 else if v \<le> w then max (1 + prev ! (w - v)) (prev ! w) else prev ! w)"
proof -
  have "w < length [0..<t + 1]" "[0..<t + 1] ! w = w" using assms nth_upt [of 0 w "t + 1"] by simp_all
  then show ?thesis unfolding knap_row_def by (simp only: nth_map)
qed

lemma knap_rows_best:
  assumes "\<And>w. w \<le> t \<Longrightarrow> row ! w = best us w" and "i \<le> length vs" and "w \<le> t"
  shows "knap_rows t row vs ! i ! w = best (rev (map unat (take i vs)) @ us) w"
  using assms
proof (induction vs arbitrary: row us i)
  case (Cons v vs)
  show ?case
  proof (cases i)
    case 0
    then show ?thesis using Cons.prems by simp
  next
    case (Suc j)
    have "knap_rows t (knap_row t (unat v) row) vs ! j ! w = best (rev (map unat (take j vs)) @ (unat v # us)) w"
    proof (rule Cons.IH)
      show "knap_row t (unat v) row ! w = best (unat v # us) w" if "w \<le> t" for w
        using Cons.prems(1) that by (simp add: nth_knap_row)
    qed (use Cons.prems Suc in simp_all)
    then show ?thesis using Suc by simp
  qed
qed simp

lemma best_mono_prefix: "best vs w \<le> best (v # vs) w \<or> w = 0" and best_zero: "best vs 0 = 0"
  by (cases vs; simp)+

lemma chosen_append: "length a = length u \<Longrightarrow> chosen (a @ b) (u @ v) = chosen a u + chosen b v"
  by (induction a u rule: list_induct2) simp_all

lemma count_true_append: "count_true (a @ b) = count_true a + count_true b"
  by (simp add: count_true_def)

lemma chosen_False: "chosen (replicate n False) vs = 0"
  by (induction n arbitrary: vs) (simp, case_tac vs, simp_all)

lemma count_true_False: "count_true (replicate n False) = 0"
  by (simp add: count_true_def)

text \<open>The walk picks as many coins as the table promises, within the budget.\<close>

lemma knap_walk_correct:
  assumes "\<And>j w. j \<le> length values \<Longrightarrow> w \<le> t \<Longrightarrow> K ! j ! w = best (rev (map unat (take j values))) w"
    and "i \<le> length values" and "unat w \<le> t" and "r = best (rev (map unat (take i values))) (unat w)"
  shows "\<exists>pre. knap_walk K values i r w (replicate i False @ rest) = pre @ rest \<and> length pre = i
    \<and> chosen pre (map unat (take i values)) \<le> unat w \<and> count_true pre = r"
  using assms(2-4)
proof (induction i arbitrary: r w rest)
  case 0
  then show ?case by (simp add: count_true_def)
next
  case (Suc i)
  let ?v = "unat (values ! i)" and ?vs = "rev (map unat (take i values))"
  have r: "r = best (?v # ?vs) (unat w)" using Suc.prems by (simp add: take_Suc_conv_app_nth)
  have tk: "map unat (take (Suc i) values) = map unat (take i values) @ [?v]"
    using Suc.prems by (simp add: take_Suc_conv_app_nth)
  have upd: "(replicate (Suc i) False @ rest)[i := b] = replicate i False @ b # rest" for b
    by (simp add: list_update_append replicate_append_same [symmetric])
  have K: "K ! i ! unat w = best ?vs (unat w)" using assms(1) Suc.prems by simp
  have chs: "chosen (pre @ [b]) (map unat (take i values) @ [?v]) = chosen pre (map unat (take i values)) + (if b then ?v else 0)"
    if "length pre = i" for pre b
    using that Suc.prems by (subst chosen_append) simp_all
  consider (stop) "r = 0" | (skip) "r > 0" "r = best ?vs (unat w)" | (pick) "r > 0" "r \<noteq> best ?vs (unat w)" by blast
  then show ?case
  proof cases
    case stop
    then show ?thesis
      by (intro exI [of _ "replicate (Suc i) False"]) (simp add: chosen_False count_true_False del: replicate_Suc)
  next
    case skip
    then obtain pre where "knap_walk K values i r w (replicate i False @ False # rest) = pre @ False # rest" "length pre = i"
        "chosen pre (map unat (take i values)) \<le> unat w" "count_true pre = r"
      using Suc.IH [of w r "False # rest"] Suc.prems by auto
    moreover have "knap_walk K values (Suc i) r w (replicate (Suc i) False @ rest)
        = knap_walk K values i r w (replicate i False @ False # rest)"
      unfolding knap_walk.simps upd K using skip by simp
    ultimately show ?thesis
      unfolding tk by (intro exI [of _ "pre @ [False]"]) (simp add: chs count_true_append count_true_def del: replicate_Suc knap_walk.simps)
  next
    case pick
    then have le: "?v \<le> unat w" and r1: "r - 1 = best ?vs (unat w - ?v)"
      using r by (auto split: if_splits)
    have w': "unat (w - values ! i) = unat w - ?v" using le by (simp add: unat_sub word_le_nat_alt)
    have "unat w - ?v \<le> t" using Suc.prems by simp
    with w' obtain pre where "knap_walk K values i (r - 1) (w - values ! i) (replicate i False @ True # rest) = pre @ True # rest" "length pre = i"
        "chosen pre (map unat (take i values)) \<le> unat w - ?v" "count_true pre = r - 1"
      using Suc.IH [of "w - values ! i" "r - 1" "True # rest"] Suc.prems r1 by auto
    moreover have "knap_walk K values (Suc i) r w (replicate (Suc i) False @ rest)
        = knap_walk K values i (r - 1) (w - values ! i) (replicate i False @ True # rest)"
      unfolding knap_walk.simps upd K using pick by simp
    ultimately show ?thesis
      unfolding tk using le pick(1)
      by (intro exI [of _ "pre @ [True]"]) (simp add: chs count_true_append count_true_def del: replicate_Suc knap_walk.simps)
  qed
qed

section \<open>Properties\<close>

text \<open>C29: the knapsack choice is optimal. For coins of positive value and a target the table can be
  built for, \<open>Knapsack\<close> returns one choice bit per coin; the chosen coins together are worth at most
  the target, and no other choice within the target has more coins.
\<close>

theorem knapsack_optimal:
  assumes "list_all (\<lambda>v. 0 < v) values" and "unat target < 2 ^ 63 - 1"
  shows "\<exists>choices. Knapsack values target = Inr choices \<and> length choices = length values
    \<and> chosen choices (map unat values) \<le> unat target
    \<and> (\<forall>cs. length cs = length values \<longrightarrow> chosen cs (map unat values) \<le> unat target \<longrightarrow> count_true cs \<le> count_true choices)"
proof -
  let ?K = "knap_rows (unat target) (replicate (unat target + 1) 0) values" and ?n = "length values"
  have succ: "unat (target + 1) = unat target + 1"
    using assms(2) by (subst unat_plus_if') simp
  have K: "?K ! j ! w = best (rev (map unat (take j values))) w" if "j \<le> ?n" "w \<le> unat target" for j w
    using knap_rows_best [of "unat target" "replicate (unat target + 1) 0" "[]" j "values" w] that
    by (simp del: replicate_Suc)
  obtain pre where pre: "knap_walk ?K values ?n (?K ! ?n ! unat target) target (replicate ?n False @ []) = pre @ []" "length pre = ?n"
      "chosen pre (map unat (take ?n values)) \<le> unat target" "count_true pre = ?K ! ?n ! unat target"
    using knap_walk_correct [OF K, where i = ?n and w = target and r = "?K ! ?n ! unat target" and rest = "[]"] K [of ?n "unat target"] by auto
  have opt: "count_true cs \<le> count_true pre" if "length cs = ?n" "chosen cs (map unat values) \<le> unat target" for cs
  proof -
    have flip: "chosen (rev ds) (rev us) = chosen ds us" if "length ds = length us" for ds :: "bool list" and us
      using that by (induction ds us rule: list_induct2) (simp_all add: chosen_append)
    have "count_true (rev cs) \<le> best (rev (map unat values)) (unat target)"
      using assms(1) that flip [of cs "map unat values"]
      by (intro best_optimal) (simp_all add: list_all_iff word_less_nat_alt)
    then show ?thesis using pre(4) K [of ?n "unat target"] by (simp add: count_true_def rev_filter [symmetric])
  qed
  have guards: "target + 1 \<noteq> 0" "\<not> unat (target + 1) \<ge> 2 ^ 63" using succ assms(2) by auto
  have "Knapsack values target = Inr pre"
    using pre(1) unfolding Knapsack_def Let_def if_not_P [OF guards(1)] if_not_P [OF guards(2)] by simp
  with pre opt show ?thesis by (intro exI [of _ pre]) auto
qed

theorem knapsack_optimal_witness:
  "\<exists>choices. Knapsack [5, 3, 4, 2] 9 = Inr choices \<and> length choices = 4 \<and> chosen choices [5, 3, 4, 2] \<le> 9 \<and> 3 \<le> count_true choices"
proof -
  have "\<exists>choices. Knapsack [5, 3, 4, 2] 9 = Inr choices \<and> length choices = length [5, 3, 4, 2 :: uint64]
    \<and> chosen choices (map unat [5, 3, 4, 2 :: uint64]) \<le> unat (9 :: uint64)
    \<and> (\<forall>cs. length cs = length [5, 3, 4, 2 :: uint64] \<longrightarrow> chosen cs (map unat [5, 3, 4, 2 :: uint64]) \<le> unat (9 :: uint64)
      \<longrightarrow> count_true cs \<le> count_true choices)"
    by (rule knapsack_optimal) simp_all
  then obtain choices where c: "Knapsack [5, 3, 4, 2] 9 = Inr choices" "length choices = 4" "chosen choices [5, 3, 4, 2] \<le> 9"
    and opt: "\<And>cs. length cs = 4 \<Longrightarrow> chosen cs [5, 3, 4, 2] \<le> 9 \<Longrightarrow> count_true cs \<le> count_true choices"
    by auto
  show ?thesis using c opt [of "[False, True, True, True]"] by (auto simp: count_true_def)
qed

section \<open>The greedy choice\<close>

text \<open>The loop takes the shortest prefix that reaches the amount, as long as the sum does not wrap around.\<close>

lemma greedy_loop_prefix:
  "unat s < unat amount \<Longrightarrow> unat s + sum_list (map unat vs) < 2 ^ 64 \<Longrightarrow> unat amount \<le> unat s + sum_list (map unat vs)
   \<Longrightarrow> \<exists>k. 0 < k \<and> k \<le> length vs \<and> greedy_loop amount s vs = replicate k True @ replicate (length vs - k) False
     \<and> unat amount \<le> unat s + sum_list (map unat (take k vs)) \<and> unat s + sum_list (map unat (take (k - 1) vs)) < unat amount"
proof (induction vs arbitrary: s)
  case (Cons v vs)
  have sum: "unat (s + v) = unat s + unat v" using Cons.prems(2) by (subst unat_plus_if') simp
  show ?case
  proof (cases "s + v \<ge> amount")
    case True
    then show ?thesis
      using Cons.prems sum by (intro exI [of _ 1]) (simp add: word_le_nat_alt)
  next
    case False
    then obtain k where k: "0 < k" "k \<le> length vs" "greedy_loop amount (s + v) vs = replicate k True @ replicate (length vs - k) False"
        "unat amount \<le> unat (s + v) + sum_list (map unat (take k vs))"
        "unat (s + v) + sum_list (map unat (take (k - 1) vs)) < unat amount"
      using Cons.IH [of "s + v"] Cons.prems sum by (auto simp: word_le_nat_alt)
    then show ?thesis
      using False sum by (intro exI [of _ "Suc k"]) (cases k, simp_all add: Let_def)
  qed
qed simp

text \<open>
  The greedy choice covers the amount: when the coins are worth it altogether, without a sum that
  wraps around, the chosen coins are the smallest ones, they reach the amount, and without the largest of
  them they would not.
\<close>

lemma greedy_covers:
  assumes "0 < amount" and "sum_list (map (unat \<circ> cn_Value) outCoins) < 2 ^ 64"
    and "unat amount \<le> sum_list (map (unat \<circ> cn_Value) outCoins)"
  shows "\<exists>sorted_coins k. Greedy outCoins amount = (sorted_coins, replicate k True @ replicate (length outCoins - k) False)
    \<and> mset sorted_coins = mset outCoins \<and> sorted (map cn_Value sorted_coins) \<and> 0 < k \<and> k \<le> length outCoins
    \<and> unat amount \<le> sum_list (map (unat \<circ> cn_Value) (take k sorted_coins))
    \<and> sum_list (map (unat \<circ> cn_Value) (take (k - 1) sorted_coins)) < unat amount"
proof -
  let ?s = "sort_key cn_Value outCoins"
  have "mset (map (unat \<circ> cn_Value) ?s) = mset (map (unat \<circ> cn_Value) outCoins)" by simp
  then have total: "sum_list (map (unat \<circ> cn_Value) ?s) = sum_list (map (unat \<circ> cn_Value) outCoins)"
    by (metis sum_mset_sum_list)
  have "unat (0 :: uint64) < unat amount" using assms(1) by (simp add: word_less_nat_alt)
  then obtain k where "0 < k" "k \<le> length ?s" "greedy_loop amount 0 (map cn_Value ?s) = replicate k True @ replicate (length ?s - k) False"
      "unat amount \<le> sum_list (map (unat \<circ> cn_Value) (take k ?s))" "sum_list (map (unat \<circ> cn_Value) (take (k - 1) ?s)) < unat amount"
    using greedy_loop_prefix [of 0 amount "map cn_Value ?s"] assms(2,3) total by (auto simp: take_map)
  then show ?thesis by (intro exI [of _ ?s] exI [of _ k]) (simp add: Greedy_def Let_def)
qed

end
