(* ===== verification/Payment_Proof.thy ===== *)
theory Payment_Proof
  imports Coin_Codec
begin

text \<open>
  \<open>PaymentProof\<close> of \<open>src/privacy/zeroknowledge/payment.go\<close> and its byte form, in which proofs are stored,
  sent and hashed. The sub-proofs have abstract types; their own \<open>Bytes\<close> and \<open>SetBytes\<close> are
  parameters, collected in \<open>proof_ops\<close>. The elements of slices of pointers are not nil.
\<close>

section \<open>Proofs\<close>

record ('p, 'o, 's, 'n, 'a) PaymentProof =
  pp_OneOfManyProof :: "'o list"
  pp_SerialNumberProof :: "'s list"
  pp_SNNoPrivacyProof :: "'n list"
  pp_AggregatedRangeProof :: "'a option"
  pp_InputCoins :: "'p Coin list"
  pp_OutputCoins :: "'p OutputCoin list"
  pp_ComOutputValue :: "'p list"
  pp_ComOutputSND :: "'p list"
  pp_ComOutputShardID :: "'p list"
  pp_ComInputSK :: "'p option"
  pp_ComInputValue :: "'p list"
  pp_ComInputSND :: "'p list"
  pp_ComInputShardID :: "'p option"
  pp_CommitmentIndices :: "uint64 list"

record ('p, 'o, 's, 'n, 'a) proof_ops =
  op_compress :: "'p \<Rightarrow> bytes"
  op_decompress :: "'p decoder"
  op_oneBytes :: "'o \<Rightarrow> bytes"
  op_oneSetBytes :: "'o decoder"
  op_snBytes :: "'s \<Rightarrow> bytes"
  op_snSetBytes :: "'s decoder"
  op_nnBytes :: "'n \<Rightarrow> bytes"
  op_nnSetBytes :: "'n decoder"
  op_arBytes :: "'a \<Rightarrow> bytes"
  op_arSetBytes :: "'a decoder"

definition OneOfManyProofSize :: nat where "OneOfManyProofSize = 716"
definition SNPrivacyProofSize :: nat where "SNPrivacyProofSize = 326"
definition SNNoPrivacyProofSize :: nat where "SNNoPrivacyProofSize = 196"
definition CMRingSize :: nat where "CMRingSize = 8"
definition CompressedSize :: nat where "CompressedSize = 33"

text \<open>A length that is a constant of the code, in two bytes or one, before the bytes of the part.\<close>

definition write_fixed2 :: "nat \<Rightarrow> ('x \<Rightarrow> bytes) \<Rightarrow> 'x \<Rightarrow> bytes" where
  "write_fixed2 k e x = IntToByteArr (int k) @ e x"

definition write_fixed :: "nat \<Rightarrow> ('x \<Rightarrow> bytes) \<Rightarrow> 'x \<Rightarrow> bytes" where
  "write_fixed k e x = of_nat k # e x"

definition write_range :: "('a \<Rightarrow> bytes) \<Rightarrow> bool \<Rightarrow> 'a option \<Rightarrow> fault + bytes" where
  "write_range e hasPrivacy p =
     (if hasPrivacy then
        case p of None \<Rightarrow> Inl NilDereference
        | Some a \<Rightarrow> Inr (IntToByteArr (int (length (e a))) @ e a)
      else Inr [0, 0])"

fun write_output_coins :: "('p \<Rightarrow> bytes) \<Rightarrow> 'p OutputCoin list \<Rightarrow> fault + bytes" where
  "write_output_coins compress [] = Inr []"
| "write_output_coins compress (oc # ocs) =
     andThen (OutputCoin_Bytes compress oc) (\<lambda>b.
       andThen (write_output_coins compress ocs) (\<lambda>r. Inr (of_nat (length b) # b @ r)))"

definition write_com :: "('p \<Rightarrow> bytes) \<Rightarrow> 'p option \<Rightarrow> bytes" where
  "write_com compress p = (case p of None \<Rightarrow> [0] | Some v \<Rightarrow> write_fixed CompressedSize compress v)"

text \<open>The fields in their order, with the bytes of the range proof and of the output coins already built.\<close>

definition proof_layout ::
  "('p, 'o, 's, 'n, 'a) proof_ops \<Rightarrow> ('p, 'o, 's, 'n, 'a) PaymentProof \<Rightarrow> bytes \<Rightarrow> bytes \<Rightarrow> bytes" where
  "proof_layout ops pf rng outs =
     (let points = write_counted (write_fixed CompressedSize (op_compress ops))
      in write_counted (write_fixed2 OneOfManyProofSize (op_oneBytes ops)) (pp_OneOfManyProof pf)
         @ write_counted (write_fixed2 SNPrivacyProofSize (op_snBytes ops)) (pp_SerialNumberProof pf)
         @ write_counted (write_fixed SNNoPrivacyProofSize (op_nnBytes ops)) (pp_SNNoPrivacyProof pf)
         @ rng
         @ write_counted (write_sized (Coin_Bytes (op_compress ops))) (pp_InputCoins pf)
         @ (of_nat (length (pp_OutputCoins pf)) # outs)
         @ points (pp_ComOutputValue pf) @ points (pp_ComOutputSND pf) @ points (pp_ComOutputShardID pf)
         @ write_com (op_compress ops) (pp_ComInputSK pf)
         @ points (pp_ComInputValue pf) @ points (pp_ComInputSND pf)
         @ write_com (op_compress ops) (pp_ComInputShardID pf)
         @ concat (map write_index (pp_CommitmentIndices pf)))"

definition PaymentProof_Bytes :: "('p, 'o, 's, 'n, 'a) proof_ops \<Rightarrow> ('p, 'o, 's, 'n, 'a) PaymentProof \<Rightarrow> fault + bytes" where
  "PaymentProof_Bytes ops pf =
     (let hasPrivacy = length (pp_OneOfManyProof pf) > 0
      in andThen (write_range (op_arBytes ops) hasPrivacy (pp_AggregatedRangeProof pf)) (\<lambda>rng.
         andThen (write_output_coins (op_compress ops) (pp_OutputCoins pf)) (\<lambda>outs. Inr (proof_layout ops pf rng outs))))"

text \<open>A length of two bytes that is zero for an absent part.\<close>

definition read_opt2 :: "'a decoder \<Rightarrow> 'a option reader" where
  "read_opt2 d = read_bind (read_slice 2) (\<lambda>l.
     if ByteArrToInt l > 0 then read_bind (read_part d (nat (ByteArrToInt l))) (\<lambda>x. read_return (Some x)) else read_return None)"

definition read_proof ::
  "('p, 'o, 's, 'n, 'a) proof_ops \<Rightarrow> ('p, 'o, 's, 'n, 'a) PaymentProof \<Rightarrow> ('p, 'o, 's, 'n, 'a) PaymentProof reader" where
  "read_proof ops pf =
     (let points = read_counted (read_sized (op_decompress ops))
      in read_bind (read_counted (read_sized2 (op_oneSetBytes ops))) (\<lambda>one.
         read_bind (read_counted (read_sized2 (op_snSetBytes ops))) (\<lambda>sn.
         read_bind (read_counted (read_sized (op_nnSetBytes ops))) (\<lambda>nn.
         read_bind (read_opt2 (op_arSetBytes ops)) (\<lambda>rng.
         read_bind (read_counted (read_sized (InputCoin_SetBytes (op_decompress ops)))) (\<lambda>ins.
         read_bind (read_counted (read_sized (OutputCoin_SetBytes (op_decompress ops) new_OutputCoin))) (\<lambda>outs.
         read_bind points (\<lambda>ov. read_bind points (\<lambda>osnd. read_bind points (\<lambda>osh.
         read_bind (read_opt (op_decompress ops)) (\<lambda>sk.
         read_bind points (\<lambda>iv. read_bind points (\<lambda>isnd.
         read_bind (read_opt (op_decompress ops)) (\<lambda>ish.
         read_bind (read_array (length one * CMRingSize) (read_uint 8)) (\<lambda>indices. read_return
           \<lparr>pp_OneOfManyProof = one, pp_SerialNumberProof = sn, pp_SNNoPrivacyProof = nn,
            pp_AggregatedRangeProof = keep (pp_AggregatedRangeProof pf) (map_option Some rng),
            pp_InputCoins = ins, pp_OutputCoins = outs, pp_ComOutputValue = ov, pp_ComOutputSND = osnd,
            pp_ComOutputShardID = osh, pp_ComInputSK = keep (pp_ComInputSK pf) (map_option Some sk),
            pp_ComInputValue = iv, pp_ComInputSND = isnd,
            pp_ComInputShardID = keep (pp_ComInputShardID pf) (map_option Some ish),
            pp_CommitmentIndices = indices\<rparr>)))))))))))))))"

definition PaymentProof_SetBytes ::
  "('p, 'o, 's, 'n, 'a) proof_ops \<Rightarrow> ('p, 'o, 's, 'n, 'a) PaymentProof \<Rightarrow> ('p, 'o, 's, 'n, 'a) PaymentProof decoder" where
  "PaymentProof_SetBytes ops pf proofbytes = andThen (read_proof ops pf proofbytes) (\<lambda>(p, _). Inr p)"

definition new_PaymentProof :: "('p, 'o, 's, 'n, 'a) PaymentProof" where
  "new_PaymentProof = \<lparr>pp_OneOfManyProof = [], pp_SerialNumberProof = [], pp_SNNoPrivacyProof = [], pp_AggregatedRangeProof = None,
     pp_InputCoins = [], pp_OutputCoins = [], pp_ComOutputValue = [], pp_ComOutputSND = [], pp_ComOutputShardID = [],
     pp_ComInputSK = None, pp_ComInputValue = [], pp_ComInputSND = [], pp_ComInputShardID = None, pp_CommitmentIndices = []\<rparr>"

section \<open>Fields\<close>

lemma IntToByteArr_roundtrip:
  assumes "0 < n" and "n < 65536"
  shows "length (IntToByteArr (int n)) = 2" and "ByteArrToInt (IntToByteArr (int n)) = int n"
proof -
  have "length (be_bytes n) \<le> 2" using assms(2) by (intro length_be_bytes) simp
  moreover have "length (be_bytes n) \<noteq> 0" using be_val_be_bytes [of n] assms(1) by auto
  ultimately have "length (be_bytes n) = 1 \<or> length (be_bytes n) = 2" by linarith
  then consider "length (be_bytes n) = 1" | "length (be_bytes n) = 2" by blast
  then have "length (IntToByteArr (int n)) = 2 \<and> ByteArrToInt (IntToByteArr (int n)) = int n"
  proof cases
    case 1
    then obtain b where b: "be_bytes n = [b]" by (auto simp: length_Suc_conv)
    then show ?thesis using be_val_be_bytes [of n] assms(1)
      by (simp add: IntToByteArr_def ByteArrToInt_def be_val_Cons)
  next
    case 2
    then show ?thesis using be_val_be_bytes [of n] assms(1) by (simp add: IntToByteArr_def ByteArrToInt_def)
  qed
  then show "length (IntToByteArr (int n)) = 2" and "ByteArrToInt (IntToByteArr (int n)) = int n" by blast+
qed

lemma wire_fixed2:
  assumes "0 < k" and "k < 65536"
  shows "wire (write_fixed2 k e) (read_sized2 d) (\<lambda>x. part_ok e d x \<and> length (e x) = k)"
proof
  fix x rest
  assume "part_ok e d x \<and> length (e x) = k"
  then show "read_sized2 d (write_fixed2 k e x @ rest) = Inr (x, rest)"
    using IntToByteArr_roundtrip [OF assms] read_part_write [of e d x rest]
    by (simp add: read_sized2_def write_fixed2_def read_bind_def read_slice_def andThen_def)
qed

lemma wire_fixed:
  assumes "k < 256"
  shows "wire (write_fixed k e) (read_sized d) (\<lambda>x. part_ok e d x \<and> length (e x) = k)"
proof
  fix x rest
  assume "part_ok e d x \<and> length (e x) = k"
  then show "read_sized d (write_fixed k e x @ rest) = Inr (x, rest)"
    using wire.read_write [OF wire_sized, of e d x rest] assms by (simp add: write_fixed_def write_sized_def)
qed

lemma read_range:
  assumes "\<And>a. p = Some a \<Longrightarrow> part_ok e d a \<and> 0 < length (e a) \<and> length (e a) < 65536" and "h \<longleftrightarrow> p \<noteq> None"
  obtains bs where "write_range e h p = Inr bs" and "\<And>rest. read_opt2 d (bs @ rest) = Inr (p, rest)"
proof (cases p)
  case None
  have "write_range e h p = Inr [0, 0]" using assms(2) None by (simp add: write_range_def)
  moreover have "read_opt2 d ([0, 0] @ rest) = Inr (p, rest)" for rest
    by (simp add: None read_opt2_def read_bind_def read_slice_def read_return_def andThen_def ByteArrToInt_def be_val_Cons numeral_2_eq_2)
  ultimately show thesis by (rule that)
next
  case (Some a)
  let ?n = "length (e a)"
  have ok: "part_ok e d a" "0 < ?n" "?n < 65536" using assms(1) Some by blast+
  have "write_range e h p = Inr (IntToByteArr (int ?n) @ e a)" using assms(2) Some by (simp add: write_range_def)
  moreover have "read_opt2 d ((IntToByteArr (int ?n) @ e a) @ rest) = Inr (p, rest)" for rest
    using IntToByteArr_roundtrip [OF ok(2,3)] read_part_write [OF ok(1), of rest] ok(2)
    by (simp add: Some read_opt2_def read_bind_def read_slice_def read_return_def andThen_def)
  ultimately show thesis by (rule that)
qed

lemma read_output_coins:
  assumes "point_codec onCurve compress decompress"
  shows "list_all (wf_output_coin onCurve compress) ocs \<Longrightarrow> \<exists>bs. write_output_coins compress ocs = Inr bs
    \<and> (\<forall>rest. read_array (length ocs) (read_sized (OutputCoin_SetBytes decompress new_OutputCoin)) (bs @ rest) = Inr (ocs, rest))"
proof (induction ocs)
  case Nil
  then show ?case by (simp add: read_return_def)
next
  case (Cons oc ocs)
  let ?d = "OutputCoin_SetBytes decompress new_OutputCoin"
  obtain b where b: "OutputCoin_Bytes compress oc = Inr b" "length b < 256" "?d b = Inr oc"
    using OutputCoin_roundtrip [OF assms, of oc] Cons.prems by auto
  obtain bs where bs: "write_output_coins compress ocs = Inr bs"
      "\<And>rest. read_array (length ocs) (read_sized ?d) (bs @ rest) = Inr (ocs, rest)"
    using Cons by auto
  have "read_sized ?d ((of_nat (length b) # b) @ rest) = Inr (oc, rest)" for rest
    using wire.read_write [OF wire_sized [of "\<lambda>_. b" ?d], of oc rest] b by (simp add: part_ok_def write_sized_def)
  then show ?case
    using b(1) bs by (simp add: andThen_def read_bind_def read_return_def)
qed

lemma wire_com:
  assumes "point_codec onCurve compress decompress"
  shows "wire (write_com compress) (read_opt decompress) (opt_all onCurve)"
proof
  fix x rest
  assume ok: "opt_all onCurve x"
  then have "write_com compress x = write_point compress x"
    using assms by (cases x) (simp_all add: write_com_def write_point_def write_opt_def write_sized_def write_fixed_def
        opt_all_def point_codec_def CompressedSize_def)
  then show "read_opt decompress (write_com compress x @ rest) = Inr (x, rest)"
    using wire.read_write [OF wire_point [OF assms] ok] by simp
qed

section \<open>The round trip\<close>

text \<open>
  A proof as the node builds it: every list fits its count byte, the sub-proofs have their fixed
  sizes and can be read back, the range proof is there exactly with the one-of-many proofs, points
  are on the curve, and there are eight commitment indices per one-of-many proof.
\<close>

definition all_ok :: "('x \<Rightarrow> bool) \<Rightarrow> 'x list \<Rightarrow> bool" where
  "all_ok ok xs \<longleftrightarrow> list_all ok xs \<and> length xs < 256"

definition sub_ok :: "nat \<Rightarrow> ('x \<Rightarrow> bytes) \<Rightarrow> 'x decoder \<Rightarrow> 'x \<Rightarrow> bool" where
  "sub_ok k e d x \<longleftrightarrow> part_ok e d x \<and> length (e x) = k"

definition wf_proof :: "('p \<Rightarrow> bool) \<Rightarrow> ('p, 'o, 's, 'n, 'a) proof_ops \<Rightarrow> ('p, 'o, 's, 'n, 'a) PaymentProof \<Rightarrow> bool" where
  "wf_proof onCurve ops pf \<longleftrightarrow>
     all_ok (sub_ok OneOfManyProofSize (op_oneBytes ops) (op_oneSetBytes ops)) (pp_OneOfManyProof pf)
     \<and> all_ok (sub_ok SNPrivacyProofSize (op_snBytes ops) (op_snSetBytes ops)) (pp_SerialNumberProof pf)
     \<and> all_ok (sub_ok SNNoPrivacyProofSize (op_nnBytes ops) (op_nnSetBytes ops)) (pp_SNNoPrivacyProof pf)
     \<and> opt_all (\<lambda>a. part_ok (op_arBytes ops) (op_arSetBytes ops) a \<and> 0 < length (op_arBytes ops a) \<and> length (op_arBytes ops a) < 65536)
         (pp_AggregatedRangeProof pf)
     \<and> (length (pp_OneOfManyProof pf) > 0 \<longleftrightarrow> pp_AggregatedRangeProof pf \<noteq> None)
     \<and> all_ok (wf_coin onCurve) (pp_InputCoins pf) \<and> all_ok (wf_output_coin onCurve (op_compress ops)) (pp_OutputCoins pf)
     \<and> all_ok onCurve (pp_ComOutputValue pf) \<and> all_ok onCurve (pp_ComOutputSND pf) \<and> all_ok onCurve (pp_ComOutputShardID pf)
     \<and> all_ok onCurve (pp_ComInputValue pf) \<and> all_ok onCurve (pp_ComInputSND pf)
     \<and> opt_all onCurve (pp_ComInputSK pf) \<and> opt_all onCurve (pp_ComInputShardID pf)
     \<and> list_all (\<lambda>v. unat v < 2 ^ 63) (pp_CommitmentIndices pf)
     \<and> length (pp_CommitmentIndices pf) = length (pp_OneOfManyProof pf) * CMRingSize"

lemma wire_all: "wire wr rd ok \<Longrightarrow> wire (write_counted wr) (read_counted rd) (all_ok ok)"
  using wire_counted [of wr rd ok] by (rule wire_weaken) (simp_all add: all_ok_def)

lemma wire_input_coin:
  assumes "point_codec onCurve compress decompress"
  shows "wire (write_sized (Coin_Bytes compress)) (read_sized (InputCoin_SetBytes decompress)) (wf_coin onCurve)"
  using wire_sized
proof (rule wire_weaken)
  fix c
  assume c: "wf_coin onCurve c"
  show "part_ok (Coin_Bytes compress) (InputCoin_SetBytes decompress) c \<and> length (Coin_Bytes compress c) < 256"
    using Coin_roundtrip [OF assms c] length_Coin_Bytes [OF assms c] Coin_Bytes_ne [of compress c]
    by (simp add: part_ok_def InputCoin_SetBytes_def)
qed

lemma wire_com_point:
  assumes "point_codec onCurve compress decompress"
  shows "wire (write_fixed CompressedSize compress) (read_sized decompress) onCurve"
  using wire_fixed by (rule wire_weaken) (use assms in \<open>simp_all add: CompressedSize_def point_codec_def part_ok_def\<close>)

lemma wire_sub_proofs:
  "wire (write_fixed2 OneOfManyProofSize e) (read_sized2 d) (sub_ok OneOfManyProofSize e d)"
  "wire (write_fixed2 SNPrivacyProofSize e') (read_sized2 d') (sub_ok SNPrivacyProofSize e' d')"
  "wire (write_fixed SNNoPrivacyProofSize e'') (read_sized d'') (sub_ok SNNoPrivacyProofSize e'' d'')"
  by (rule wire_weaken [OF wire_fixed2] wire_weaken [OF wire_fixed];
      simp add: sub_ok_def OneOfManyProofSize_def SNPrivacyProofSize_def SNNoPrivacyProofSize_def)+

lemma read_counted_outs:
  assumes "\<And>rest. read_array (length xs) r (bs @ rest) = Inr (xs, rest)" and "length xs < 256"
  shows "read_bind (read_counted r) f (of_nat (length xs) # bs @ rest) = f xs rest"
  using assms by (simp add: read_counted_def read_bind_def read_byte_def andThen_def of_nat_unat_byte)

lemma read_proof_layout:
  assumes P: "point_codec onCurve (op_compress ops) (op_decompress ops)" and wf: "wf_proof onCurve ops pf"
    and rng: "\<And>rest. read_opt2 (op_arSetBytes ops) (rng @ rest) = Inr (pp_AggregatedRangeProof pf, rest)"
    and outs: "\<And>rest. read_array (length (pp_OutputCoins pf)) (read_sized (OutputCoin_SetBytes (op_decompress ops) new_OutputCoin)) (outs @ rest)
      = Inr (pp_OutputCoins pf, rest)"
  shows "read_proof ops new_PaymentProof (proof_layout ops pf rng outs) = Inr (pf, [])"
proof -
  have w: "all_ok (sub_ok OneOfManyProofSize (op_oneBytes ops) (op_oneSetBytes ops)) (pp_OneOfManyProof pf)"
      "all_ok (sub_ok SNPrivacyProofSize (op_snBytes ops) (op_snSetBytes ops)) (pp_SerialNumberProof pf)"
      "all_ok (sub_ok SNNoPrivacyProofSize (op_nnBytes ops) (op_nnSetBytes ops)) (pp_SNNoPrivacyProof pf)"
      "all_ok (wf_coin onCurve) (pp_InputCoins pf)"
      "all_ok onCurve (pp_ComOutputValue pf)" "all_ok onCurve (pp_ComOutputSND pf)" "all_ok onCurve (pp_ComOutputShardID pf)"
      "opt_all onCurve (pp_ComInputSK pf)" "all_ok onCurve (pp_ComInputValue pf)" "all_ok onCurve (pp_ComInputSND pf)"
      "opt_all onCurve (pp_ComInputShardID pf)" "length (pp_OutputCoins pf) < 256"
      "list_all (\<lambda>v. unat v < 2 ^ 63) (pp_CommitmentIndices pf)"
      "length (pp_CommitmentIndices pf) = length (pp_OneOfManyProof pf) * CMRingSize"
    using wf unfolding wf_proof_def all_ok_def by blast+
  note sub = wire_sub_proofs [THEN wire_all, THEN wire.then_read_write]
  note pts = wire.then_read_write [OF wire_all [OF wire_com_point [OF P]]]
  note com = wire.then_read_write [OF wire_com [OF P]]
  note ins = wire.then_read_write [OF wire_all [OF wire_input_coin [OF P]]]
  have R: "read_bind (read_opt2 (op_arSetBytes ops)) f (rng @ rest) = f (pp_AggregatedRangeProof pf) rest" for f :: "_ \<Rightarrow> 'y reader" and rest
    by (simp add: read_bind_def rng andThen_def)
  have idx: "read_bind (read_array (length (pp_OneOfManyProof pf) * CMRingSize) (read_uint 8)) f (concat (map write_index (pp_CommitmentIndices pf)))
      = f (pp_CommitmentIndices pf) []" for f :: "_ \<Rightarrow> 'y reader"
    using index_field.array_read_write [OF w(13), of "[]"] w(14) by (simp add: read_bind_def andThen_def)
  have keep_None: "keep None (map_option Some x) = x" for x :: "'y option" by (cases x) (simp_all add: keep_def)
  show ?thesis
    unfolding read_proof_def proof_layout_def Let_def append_Cons sub(1) [OF w(1)] sub(2) [OF w(2)] sub(3) [OF w(3)] R ins [OF w(4)]
      read_counted_outs [OF outs w(12)] pts [OF w(5)] pts [OF w(6)] pts [OF w(7)] com [OF w(8)] pts [OF w(9)] pts [OF w(10)] com [OF w(11)] idx
    by (simp add: keep_None read_return_def new_PaymentProof_def)
qed

section \<open>Properties\<close>

text \<open>C28: payment proofs survive storage. A proof as the node builds it has a byte form, and reading
  that form gives the proof back: the counts, the one- and two-byte lengths, the optional parts and the
  commitment indices, whose number is not stored, all agree between \<open>Bytes\<close> and \<open>SetBytes\<close>.
\<close>

theorem payment_proof_roundtrip:
  assumes "point_codec onCurve (op_compress ops) (op_decompress ops)" and "wf_proof onCurve ops pf"
  shows "\<exists>bs. PaymentProof_Bytes ops pf = Inr bs \<and> PaymentProof_SetBytes ops new_PaymentProof bs = Inr pf"
proof -
  note w = assms(2) [unfolded wf_proof_def]
  obtain rng where rng: "write_range (op_arBytes ops) (length (pp_OneOfManyProof pf) > 0) (pp_AggregatedRangeProof pf) = Inr rng"
      "\<And>rest. read_opt2 (op_arSetBytes ops) (rng @ rest) = Inr (pp_AggregatedRangeProof pf, rest)"
    by (rule read_range [of "pp_AggregatedRangeProof pf" "op_arBytes ops" "op_arSetBytes ops" "length (pp_OneOfManyProof pf) > 0"])
      (use w in \<open>auto simp: opt_all_def\<close>)
  have "list_all (wf_output_coin onCurve (op_compress ops)) (pp_OutputCoins pf)" using w by (simp add: all_ok_def)
  then obtain outs where outs: "write_output_coins (op_compress ops) (pp_OutputCoins pf) = Inr outs"
      "\<And>rest. read_array (length (pp_OutputCoins pf)) (read_sized (OutputCoin_SetBytes (op_decompress ops) new_OutputCoin)) (outs @ rest)
        = Inr (pp_OutputCoins pf, rest)"
    using read_output_coins [OF assms(1)] by blast
  have "PaymentProof_Bytes ops pf = Inr (proof_layout ops pf rng outs)"
    unfolding PaymentProof_Bytes_def Let_def rng(1) outs(1) by (simp add: andThen_def)
  moreover have "PaymentProof_SetBytes ops new_PaymentProof (proof_layout ops pf rng outs) = Inr pf"
    by (simp add: PaymentProof_SetBytes_def read_proof_layout [OF assms rng(2) outs(2)] andThen_def)
  ultimately show ?thesis by blast
qed

text \<open>A proof without privacy: one input, one output, and serial number proofs of the fixed size.\<close>

definition ex_proof_ops :: "(nat, unit, unit, byte, unit) proof_ops" where
  "ex_proof_ops = \<lparr>op_compress = ex_point_compress, op_decompress = ex_point_decompress,
     op_oneBytes = (\<lambda>_. []), op_oneSetBytes = (\<lambda>_. Inr ()), op_snBytes = (\<lambda>_. []), op_snSetBytes = (\<lambda>_. Inr ()),
     op_nnBytes = (\<lambda>b. replicate SNNoPrivacyProofSize b), op_nnSetBytes = (\<lambda>bs. Inr (hd bs)),
     op_arBytes = (\<lambda>_. []), op_arSetBytes = (\<lambda>_. Inr ())\<rparr>"

definition ex_proof :: "(nat, unit, unit, byte, unit) PaymentProof" where
  "ex_proof = new_PaymentProof\<lparr>pp_SNNoPrivacyProof := [42], pp_InputCoins := [ex_coin], pp_ComOutputSND := [1, 2]\<rparr>"

theorem payment_proof_roundtrip_witness:
  "\<exists>bs. PaymentProof_Bytes ex_proof_ops ex_proof = Inr bs \<and> PaymentProof_SetBytes ex_proof_ops new_PaymentProof bs = Inr ex_proof"
proof (rule payment_proof_roundtrip)
  show "point_codec (\<lambda>n. n < 256) (op_compress ex_proof_ops) (op_decompress ex_proof_ops)"
    using ex_point_codec by (simp add: ex_proof_ops_def)
  have "wf_coin (\<lambda>n. n < 256) ex_coin"
    by (simp add: wf_coin_def ex_coin_def opt_all_def scalar_ok_def BigIntSize_def)
  then show "wf_proof (\<lambda>n. n < 256) ex_proof_ops ex_proof"
    by (simp add: wf_proof_def ex_proof_def ex_proof_ops_def new_PaymentProof_def all_ok_def sub_ok_def part_ok_def
        SNNoPrivacyProofSize_def opt_all_def)
qed

end
