(* ===== verification/Payment_Verify.thy ===== *)
theory Payment_Verify
  imports Payment_Proof Common_Util
begin

text \<open>
  The branch of \<open>PaymentProof.Verify\<close> (\<open>src/privacy/zeroknowledge/payment.go\<close>) for payments without
  privacy, where the values of the coins are in the open: every commitment is recomputed and the
  sums of the values are compared. The Pedersen generators and the curve are parameters
  (\<open>pedersen\<close>); \<open>ScalarMult\<close> takes the magnitude of its factor.
\<close>

section \<open>The code\<close>

record 'p pedersen =
  ped_add :: "'p \<Rightarrow> 'p \<Rightarrow> 'p"
  ped_smult :: "nat \<Rightarrow> 'p \<Rightarrow> 'p"
  ped_VALUE :: 'p
  ped_SND :: 'p
  ped_SHARDID :: 'p
  ped_RAND :: 'p

definition deref :: "'x option \<Rightarrow> fault + 'x" where
  "deref p = (case p of None \<Rightarrow> Inl NilDereference | Some x \<Rightarrow> Inr x)"

text \<open>\<open>big.NewInt(int64(v))\<close>, then \<open>Bytes\<close> in \<open>ScalarMult\<close>: the magnitude of the signed reading.\<close>

definition value_factor :: "uint64 \<Rightarrow> nat" where
  "value_factor v = nat \<bar>sint v\<bar>"

definition coin_commitment :: "'p pedersen \<Rightarrow> byte \<Rightarrow> 'p Coin \<Rightarrow> fault + 'p" where
  "coin_commitment G shardID c =
     andThen (deref (cn_PublicKey c)) (\<lambda>pk.
     andThen (deref (cn_SNDerivator c)) (\<lambda>snd.
     andThen (deref (cn_Randomness c)) (\<lambda>rnd.
       Inr (ped_add G (ped_add G (ped_add G (ped_add G pk (ped_smult G (value_factor (cn_Value c)) (ped_VALUE G)))
         (ped_smult G (nat \<bar>snd\<bar>) (ped_SND G))) (ped_smult G (unat shardID) (ped_SHARDID G)))
         (ped_smult G (nat \<bar>rnd\<bar>) (ped_RAND G))))))"

definition commitment_matches :: "'p pedersen \<Rightarrow> byte \<Rightarrow> 'p Coin \<Rightarrow> fault + bool" where
  "commitment_matches G shardID c =
     andThen (coin_commitment G shardID c) (\<lambda>cm. andThen (deref (cn_CoinCommitment c)) (\<lambda>stored. Inr (cm = stored)))"

definition last_byte :: "bytes \<Rightarrow> fault + byte" where
  "last_byte bs = (if bs = [] then Inl IndexOutOfRange else Inr (last bs))"

text \<open>
  The loops over input and output coins; \<open>None\<close> is a failed check, otherwise the sum of the values.
  \<open>snVerify\<close> is \<open>SNNoPrivacyProof.Verify\<close>.
\<close>

fun verify_inputs ::
  "('n \<Rightarrow> bool) \<Rightarrow> 'p pedersen \<Rightarrow> byte \<Rightarrow> 'n list \<Rightarrow> 'p Coin list \<Rightarrow> uint64 \<Rightarrow> fault + uint64 option" where
  "verify_inputs snVerify G shardID proofs [] sumInputValue = Inr (Some sumInputValue)"
| "verify_inputs snVerify G shardID proofs (c # cs) sumInputValue =
     (case proofs of
        [] \<Rightarrow> Inl IndexOutOfRange
      | p # ps \<Rightarrow>
          if \<not> snVerify p then Inr None
          else andThen (commitment_matches G shardID c) (\<lambda>ok.
            if \<not> ok then Inr None else verify_inputs snVerify G shardID ps cs (sumInputValue + cn_Value c)))"

definition output_shard :: "('p \<Rightarrow> bytes) \<Rightarrow> 'p Coin \<Rightarrow> fault + byte" where
  "output_shard compress c =
     andThen (deref (cn_PublicKey c)) (\<lambda>pk. andThen (last_byte (compress pk)) (\<lambda>b. Inr (GetShardIDFromLastByte b)))"

fun verify_outputs :: "('p \<Rightarrow> bytes) \<Rightarrow> 'p pedersen \<Rightarrow> 'p OutputCoin list \<Rightarrow> uint64 \<Rightarrow> fault + uint64 option" where
  "verify_outputs compress G [] sumOutputValue = Inr (Some sumOutputValue)"
| "verify_outputs compress G (oc # ocs) sumOutputValue =
     andThen (deref (oc_CoinDetails oc)) (\<lambda>c.
     andThen (output_shard compress c) (\<lambda>shardID.
     andThen (commitment_matches G shardID c) (\<lambda>ok.
       if \<not> ok then Inr None else verify_outputs compress G ocs (sumOutputValue + cn_Value c))))"

definition verify_no_privacy ::
  "('n \<Rightarrow> bool) \<Rightarrow> 'p pedersen \<Rightarrow> ('p \<Rightarrow> bytes) \<Rightarrow> ('p, 'o, 's, 'n, 'a) PaymentProof \<Rightarrow> bytes \<Rightarrow> uint64 \<Rightarrow> fault + bool" where
  "verify_no_privacy snVerify G compress pf pubKey fee =
     andThen (last_byte pubKey) (\<lambda>pubKeyLastByteSender.
     andThen (verify_inputs snVerify G (GetShardIDFromLastByte pubKeyLastByteSender) (pp_SNNoPrivacyProof pf) (pp_InputCoins pf) 0) (\<lambda>si.
       case si of None \<Rightarrow> Inr False
       | Some sumInputValue \<Rightarrow>
           andThen (verify_outputs compress G (pp_OutputCoins pf) 0) (\<lambda>so.
             case so of None \<Rightarrow> Inr False
             | Some sumOutputValue \<Rightarrow> Inr (sumInputValue = sumOutputValue + fee))))"

section \<open>What acceptance means\<close>

definition input_ok :: "('n \<Rightarrow> bool) \<Rightarrow> 'p pedersen \<Rightarrow> byte \<Rightarrow> 'n \<times> 'p Coin \<Rightarrow> bool" where
  "input_ok snVerify G shardID = (\<lambda>(p, c). snVerify p \<and> commitment_matches G shardID c = Inr True)"

definition output_ok :: "('p \<Rightarrow> bytes) \<Rightarrow> 'p pedersen \<Rightarrow> 'p OutputCoin \<Rightarrow> bool" where
  "output_ok compress G oc \<longleftrightarrow> (\<exists>c shardID. oc_CoinDetails oc = Some c \<and> output_shard compress c = Inr shardID
     \<and> commitment_matches G shardID c = Inr True)"

definition out_value :: "'p OutputCoin \<Rightarrow> uint64" where
  "out_value oc = (case oc_CoinDetails oc of None \<Rightarrow> 0 | Some c \<Rightarrow> cn_Value c)"

lemma deref_Inr_iff [simp]: "deref x = Inr y \<longleftrightarrow> x = Some y"
  by (simp add: deref_def split: option.splits)

lemma verify_inputs_iff:
  "verify_inputs snVerify G shardID ps cs s = Inr (Some t) \<longleftrightarrow>
     length cs \<le> length ps \<and> list_all (input_ok snVerify G shardID) (zip ps cs) \<and> t = s + sum_list (map cn_Value cs)"
proof (induction cs arbitrary: ps s)
  case (Cons c cs)
  then show ?case
    by (cases ps) (auto simp: andThen_Inr_iff input_ok_def add.assoc split: if_splits)
qed auto

lemma verify_outputs_iff:
  "verify_outputs compress G ocs s = Inr (Some t) \<longleftrightarrow> list_all (output_ok compress G) ocs \<and> t = s + sum_list (map out_value ocs)"
proof (induction ocs arbitrary: s)
  case (Cons oc ocs)
  then show ?case
    by (cases "oc_CoinDetails oc") (auto simp: andThen_Inr_iff output_ok_def out_value_def add.assoc split: if_splits)
qed auto

lemma verify_no_privacy_iff:
  "verify_no_privacy snVerify G compress pf pubKey fee = Inr True \<longleftrightarrow>
     pubKey \<noteq> [] \<and> length (pp_InputCoins pf) \<le> length (pp_SNNoPrivacyProof pf)
     \<and> list_all (input_ok snVerify G (GetShardIDFromLastByte (last pubKey))) (zip (pp_SNNoPrivacyProof pf) (pp_InputCoins pf))
     \<and> list_all (output_ok compress G) (pp_OutputCoins pf)
     \<and> sum_list (map cn_Value (pp_InputCoins pf)) = sum_list (map out_value (pp_OutputCoins pf)) + fee"
proof -
  have split: "(case so of None \<Rightarrow> Inr False | Some x \<Rightarrow> f x) = Inr True \<longleftrightarrow> (\<exists>x. so = Some x \<and> f x = Inr True)"
    for so and f :: "uint64 \<Rightarrow> fault + bool"
    by (cases so) simp_all
  have ex: "(\<exists>x. r = Inr x \<and> (\<exists>v. x = Some v \<and> P v)) \<longleftrightarrow> (\<exists>v. r = Inr (Some v) \<and> P v)" for r :: "fault + uint64 option" and P
    by blast
  show ?thesis
    by (auto simp: verify_no_privacy_def andThen_Inr_iff split ex verify_inputs_iff verify_outputs_iff last_byte_def)
qed

lemma unat_sum_list: "sum_list (map unat vs) < 2 ^ 64 \<Longrightarrow> unat (sum_list (vs :: uint64 list)) = sum_list (map unat vs)"
proof (induction vs)
  case (Cons v vs)
  then have "unat (sum_list vs) = sum_list (map unat vs)" by simp
  then show ?case using Cons.prems by (simp add: unat_plus_if')
qed simp

section \<open>Properties\<close>

text \<open>C16: payments in the open conserve value, as long as no sum overflows. If the check accepts a payment
  and both the inputs and the outputs with the fee add up to less than \<open>2^64\<close>, then the inputs are
  worth exactly the outputs and the fee, and every coin carries the commitment of its contents.
\<close>

theorem no_privacy_conserves:
  assumes "verify_no_privacy snVerify G compress pf pubKey fee = Inr True"
    and "sum_list (map (unat \<circ> cn_Value) (pp_InputCoins pf)) < 2 ^ 64"
    and "sum_list (map (unat \<circ> out_value) (pp_OutputCoins pf)) + unat fee < 2 ^ 64"
  shows "sum_list (map (unat \<circ> cn_Value) (pp_InputCoins pf)) = sum_list (map (unat \<circ> out_value) (pp_OutputCoins pf)) + unat fee
    \<and> list_all (output_ok compress G) (pp_OutputCoins pf)"
proof -
  note acc = assms(1) [unfolded verify_no_privacy_iff]
  have "unat (sum_list (map cn_Value (pp_InputCoins pf))) = sum_list (map (unat \<circ> cn_Value) (pp_InputCoins pf))"
    using unat_sum_list [of "map cn_Value (pp_InputCoins pf)"] assms(2) by simp
  moreover have "unat (sum_list (map out_value (pp_OutputCoins pf))) = sum_list (map (unat \<circ> out_value) (pp_OutputCoins pf))"
    using unat_sum_list [of "map out_value (pp_OutputCoins pf)"] assms(3) by simp
  ultimately show ?thesis using acc assms(3) by (simp add: unat_plus_if')
qed

text \<open>C39: the sums are not protected from overflow. Whatever the curve is, take an input coin that passes
  its checks and two output coins with matching commitments, one worth \<open>2^64 - 1\<close> and the other one more
  than the input: the payment is accepted without a fee although it creates \<open>2^64\<close> units of value.
\<close>

theorem no_privacy_inflation:
  assumes "pubKey \<noteq> []" and "input_ok snVerify G (GetShardIDFromLastByte (last pubKey)) (p, c)"
    and "output_ok compress G a" and "output_ok compress G b"
    and "out_value a = - 1" and "out_value b = cn_Value c + 1" and "cn_Value c < 2 ^ 32"
    and "pp_SNNoPrivacyProof pf = [p]" and "pp_InputCoins pf = [c]" and "pp_OutputCoins pf = [a, b]"
  shows "verify_no_privacy snVerify G compress pf pubKey 0 = Inr True
    \<and> sum_list (map (unat \<circ> out_value) (pp_OutputCoins pf)) = sum_list (map (unat \<circ> cn_Value) (pp_InputCoins pf)) + 2 ^ 64"
proof -
  have "unat (cn_Value c) < 2 ^ 32" using assms(7) by (simp add: word_less_nat_alt)
  then have "unat (cn_Value c + 1) = unat (cn_Value c) + 1" by (simp add: unat_plus_if')
  moreover have "unat (- 1 :: uint64) = 2 ^ 64 - 1" by (simp add: unsigned_minus_1_eq_mask mask_eq_exp_minus_1)
  ultimately show ?thesis using assms by (simp add: verify_no_privacy_iff)
qed

text \<open>A curve for the examples: integers, with the generators chosen apart.\<close>

definition ex_pedersen :: "int pedersen" where
  "ex_pedersen = \<lparr>ped_add = (+), ped_smult = (\<lambda>n p. int n * p), ped_VALUE = 1, ped_SND = 1000, ped_SHARDID = 1000000, ped_RAND = 1000000000\<rparr>"

definition ex_open_coin :: "int \<Rightarrow> uint64 \<Rightarrow> int Coin" where
  "ex_open_coin cm v = \<lparr>cn_PublicKey = Some 5, cn_CoinCommitment = Some cm, cn_SNDerivator = Some 0, cn_SerialNumber = None,
     cn_Randomness = Some 0, cn_Value = v, cn_Info = []\<rparr>"

definition ex_payment :: "int Coin list \<Rightarrow> int Coin list \<Rightarrow> (int, unit, unit, unit, unit) PaymentProof" where
  "ex_payment ins outs = new_PaymentProof\<lparr>pp_SNNoPrivacyProof := map (\<lambda>_. ()) ins, pp_InputCoins := ins,
     pp_OutputCoins := map (\<lambda>c. \<lparr>oc_CoinDetails = Some c, oc_CoinDetailsEncrypted = None\<rparr>) outs\<rparr>"

lemma cn_Value_ex_open_coin [simp]: "cn_Value (ex_open_coin cm v) = v"
  by (simp add: ex_open_coin_def)

lemma ex_commitment: "commitment_matches ex_pedersen 0 (ex_open_coin cm v) = Inr (cm = 5 + int (value_factor v))"
  by (auto simp: commitment_matches_def coin_commitment_def ex_pedersen_def ex_open_coin_def andThen_def deref_def)

lemma ex_output_ok:
  "output_ok (\<lambda>_. [0]) ex_pedersen \<lparr>oc_CoinDetails = Some (ex_open_coin cm v), oc_CoinDetailsEncrypted = None\<rparr> \<longleftrightarrow> cm = 5 + int (value_factor v)"
proof -
  have "output_shard (\<lambda>_. [0]) (ex_open_coin cm v) = Inr 0"
    by (simp add: output_shard_def ex_open_coin_def andThen_def deref_def last_byte_def GetShardIDFromLastByte_def MAX_SHARD_NUMBER_def)
  then show ?thesis by (simp add: output_ok_def ex_commitment)
qed

lemma ex_value_factor: "value_factor 7 = 7" "value_factor 8 = 8" "value_factor (- 1) = 1"
  by (simp_all add: value_factor_def)

theorem no_privacy_conserves_witness:
  "(15 :: nat) = 7 + 8 \<and> verify_no_privacy (\<lambda>_. True) ex_pedersen (\<lambda>_. [0]) (ex_payment [ex_open_coin 12 7, ex_open_coin 13 8] [ex_open_coin 13 8]) [0] 7 = Inr True"
proof -
  let ?pf = "ex_payment [ex_open_coin 12 7, ex_open_coin 13 8] [ex_open_coin 13 8]"
  have acc: "verify_no_privacy (\<lambda>_. True) ex_pedersen (\<lambda>_. [0]) ?pf [0] 7 = Inr True"
    by (simp add: verify_no_privacy_iff ex_payment_def new_PaymentProof_def input_ok_def ex_commitment ex_output_ok ex_value_factor
        GetShardIDFromLastByte_def MAX_SHARD_NUMBER_def out_value_def)
  show ?thesis
    using no_privacy_conserves [OF acc] acc by (simp add: ex_payment_def new_PaymentProof_def out_value_def)
qed

theorem no_privacy_inflation_witness:
  "verify_no_privacy (\<lambda>_. True) ex_pedersen (\<lambda>_. [0]) (ex_payment [ex_open_coin 12 7] [ex_open_coin 6 (- 1), ex_open_coin 13 8]) [0] 0 = Inr True"
proof -
  let ?o = "\<lambda>cm v. \<lparr>oc_CoinDetails = Some (ex_open_coin cm v), oc_CoinDetailsEncrypted = None\<rparr>"
  show ?thesis
    by (rule no_privacy_inflation [THEN conjunct1, of "[0]" "\<lambda>_. True" ex_pedersen "()" "ex_open_coin 12 7" "\<lambda>_. [0]" "?o 6 (- 1)" "?o 13 8"])
      (simp_all add: input_ok_def ex_commitment ex_output_ok ex_value_factor GetShardIDFromLastByte_def MAX_SHARD_NUMBER_def
        out_value_def ex_payment_def new_PaymentProof_def)
qed

end
