(* ===== verification/Elliptic_Curve.thy ===== *)
theory Elliptic_Curve
  imports Coin_Codec
begin

text \<open>
  \<open>src/privacy/ec.go\<close> and \<open>pedersen.go\<close>: points of the curve, their compressed form, and Pedersen
  commitments. A point is the pair of its coordinates, \<open>(0, 0)\<close> the point at infinity. The numbers
  of the curve (\<open>elliptic.P256().Params()\<close>) are an argument; the methods of \<open>crypto/elliptic\<close> the code
  calls are written out for them in affine coordinates. What the code relies on is named: the modulus
  is a prime that is 3 modulo 4 (\<open>good_field\<close>), and addition makes the points a group whose order
  divides \<open>N\<close> (\<open>curve_group\<close>).
\<close>

section \<open>The curve\<close>

type_synonym point = "int \<times> int"

record curve =
  cv_P :: int
  cv_B :: int
  cv_N :: int
  cv_Gx :: int
  cv_Gy :: int

definition Zero :: point where
  "Zero = (0, 0)"

definition base_point :: "curve \<Rightarrow> point" where
  "base_point cv = (cv_Gx cv, cv_Gy cv)"

text \<open>\<open>big.Int.Exp\<close> for exponents that are not negative, and \<open>big.Int.ModInverse\<close> by the Euclidean algorithm.\<close>

definition Exp :: "int \<Rightarrow> int \<Rightarrow> int \<Rightarrow> int" where
  "Exp x y m = x ^ nat y mod m"

definition ModInverse :: "int \<Rightarrow> int \<Rightarrow> int" where
  "ModInverse a n = fst (bezw (nat (a mod n)) (nat n)) mod n"

definition curve_rhs :: "curve \<Rightarrow> int \<Rightarrow> int" where
  "curve_rhs cv x = (x ^ 3 - 3 * x + cv_B cv) mod cv_P cv"

fun IsOnCurve :: "curve \<Rightarrow> point \<Rightarrow> bool" where
  "IsOnCurve cv (x, y) = (y * y mod cv_P cv = curve_rhs cv x)"

text \<open>The sum of two points by the chord or the tangent through them.\<close>

definition chord :: "curve \<Rightarrow> int \<Rightarrow> point \<Rightarrow> int \<Rightarrow> point" where
  "chord cv l p x2 =
     (let x3 = (l * l - fst p - x2) mod cv_P cv in (x3, (l * (fst p - x3) - snd p) mod cv_P cv))"

definition Curve_Double :: "curve \<Rightarrow> point \<Rightarrow> point" where
  "Curve_Double cv p =
     (if p = Zero \<or> snd p mod cv_P cv = 0 then Zero
      else chord cv ((3 * fst p * fst p - 3) * ModInverse (2 * snd p) (cv_P cv)) p (fst p))"

definition Curve_Add :: "curve \<Rightarrow> point \<Rightarrow> point \<Rightarrow> point" where
  "Curve_Add cv p q =
     (if p = Zero then q else if q = Zero then p
      else if fst p = fst q then if snd p = snd q then Curve_Double cv p else Zero
      else chord cv ((snd q - snd p) * ModInverse (fst q - fst p) (cv_P cv)) p (fst q))"

text \<open>Double and add over the bits of the factor, the highest first.\<close>

fun bits_of :: "nat \<Rightarrow> nat \<Rightarrow> bool list" where
  "bits_of 0 n = []"
| "bits_of (Suc k) n = odd (n div 2 ^ k) # bits_of k n"

definition byte_bits :: "bytes \<Rightarrow> bool list" where
  "byte_bits bs = concat (map (\<lambda>b. bits_of 8 (unat b)) bs)"

definition Curve_ScalarMult :: "curve \<Rightarrow> point \<Rightarrow> bytes \<Rightarrow> point" where
  "Curve_ScalarMult cv p k =
     fold (\<lambda>b r. let d = Curve_Double cv r in if b then Curve_Add cv p d else d) (byte_bits k) Zero"

section \<open>The methods of \<open>EllipticPoint\<close>\<close>

definition IsEqual :: "point \<Rightarrow> point \<Rightarrow> bool" where
  "IsEqual p q \<longleftrightarrow> fst p = fst q \<and> snd p = snd q"

definition Add :: "curve \<Rightarrow> point \<Rightarrow> point \<Rightarrow> point" where
  "Add cv p q = Curve_Add cv p q"

text \<open>\<open>factor.Bytes()\<close> is the magnitude.\<close>

definition ScalarMult :: "curve \<Rightarrow> point \<Rightarrow> int \<Rightarrow> point" where
  "ScalarMult cv p factor = Curve_ScalarMult cv p (be_bytes (nat \<bar>factor\<bar>))"

definition Inverse :: "curve \<Rightarrow> point \<Rightarrow> point option" where
  "Inverse cv p = (if \<not> IsOnCurve cv p then None else Some (fst p, (cv_P cv - snd p) mod cv_P cv))"

definition Sub :: "curve \<Rightarrow> point \<Rightarrow> point \<Rightarrow> point option" where
  "Sub cv p q = map_option (Add cv p) (Inverse cv q)"

definition IsSafe :: "curve \<Rightarrow> point \<Rightarrow> bool" where
  "IsSafe cv p = (if \<not> IsOnCurve cv p then False else \<not> IsEqual (Curve_Double cv p) Zero)"

text \<open>The Y-coordinate and whether it is a square root.\<close>

definition ComputeYCoord :: "curve \<Rightarrow> int \<Rightarrow> int \<times> bool" where
  "ComputeYCoord cv X =
     (let xCube = (Exp X 3 (cv_P cv) + cv_B cv - X * 3) mod cv_P cv;
          Y = Exp xCube (PAdd1Div4 (cv_P cv)) (cv_P cv);
          ySquared = Y * Y mod cv_P cv
      in (Y, ySquared = xCube))"

definition PointCompressed :: byte where "PointCompressed = 2"

definition Compress :: "curve \<Rightarrow> point \<Rightarrow> bytes" where
  "Compress cv p =
     (if IsOnCurve cv p
      then paddedAppend BigIntSize [if isOdd (snd p) then or PointCompressed 1 else PointCompressed] (be_bytes (nat \<bar>fst p\<bar>))
      else [])"

text \<open>
  What \<open>Decompress\<close> does to a new point: \<open>None\<close> leaves its coordinates nil, the flag is the absence of an
  error. A point that is not on the curve is set all the same.
\<close>

definition decompress_into :: "curve \<Rightarrow> bytes \<Rightarrow> fault + point option \<times> bool" where
  "decompress_into cv bs =
     andThen (index bs 0) (\<lambda>format.
       let yBit = (and format 1 = 1); format' = and format (not 1)
       in if format' \<noteq> PointCompressed then Inr (None, False)
          else if length bs < 33 then Inl IndexOutOfRange
          else let X = int (be_val (take 32 (drop 1 bs))); (Y, ok) = ComputeYCoord cv X
               in if \<not> ok then Inr (Some (X, Y), False)
                  else if yBit \<noteq> isOdd Y then Inr (Some (X, cv_P cv - Y), True) else Inr (Some (X, Y), True))"

definition Decompress :: "curve \<Rightarrow> point decoder" where
  "Decompress cv bs =
     (case decompress_into cv bs of
        Inl e \<Rightarrow> Inl (Panic e)
      | Inr (Some p, True) \<Rightarrow> Inr p
      | Inr _ \<Rightarrow> Inl ReadErr)"

text \<open>\<open>Hash\<close> tries successive hashes until one is the X-coordinate of a safe point; the loop may not end.\<close>

partial_function (option) hash_loop :: "(bytes \<Rightarrow> bytes) \<Rightarrow> curve \<Rightarrow> bytes \<Rightarrow> point option" where
  "hash_loop sum256 cv tmp =
     (let h = sum256 tmp; X = int (be_val h); (Y, ok) = ComputeYCoord cv X
      in if ok \<and> IsSafe cv (X, Y) then Some (X, Y) else hash_loop sum256 cv h)"

definition point_Hash :: "(bytes \<Rightarrow> bytes) \<Rightarrow> curve \<Rightarrow> point \<Rightarrow> int \<Rightarrow> point option" where
  "point_Hash sum256 cv p i =
     hash_loop sum256 cv (AddPaddingBigInt (fst p) BigIntSize @ (if i = 0 then [0] else be_bytes (nat \<bar>i\<bar>)))"

text \<open>Where the sum has no inverse, \<open>ModInverse\<close> returns nil and \<open>ScalarMult\<close> dereferences it.\<close>

definition Derive :: "curve \<Rightarrow> point \<Rightarrow> int \<Rightarrow> int \<Rightarrow> fault + point option" where
  "Derive cv p seed derivator =
     (if \<not> IsSafe cv p then Inr None
      else if gcd (seed + derivator) (cv_N cv) \<noteq> 1 then Inl NilDereference
      else Inr (Some (ScalarMult cv p (ModInverse (seed + derivator) (cv_N cv)))))"

section \<open>Pedersen commitments\<close>

definition ped_index_SK :: nat where "ped_index_SK = 0"
definition ped_index_VALUE :: nat where "ped_index_VALUE = 1"
definition ped_index_SND :: nat where "ped_index_SND = 2"
definition ped_index_SHARDID :: nat where "ped_index_SHARDID = 3"
definition ped_index_RAND :: nat where "ped_index_RAND = 4"

fun all_some :: "'x option list \<Rightarrow> 'x list option" where
  "all_some [] = Some []"
| "all_some (x # xs) = (case x of None \<Rightarrow> None | Some v \<Rightarrow> map_option ((#) v) (all_some xs))"

definition newPedersenParams :: "(bytes \<Rightarrow> bytes) \<Rightarrow> curve \<Rightarrow> point list option" where
  "newPedersenParams sum256 cv =
     map_option ((#) (base_point cv)) (all_some (map (\<lambda>i. point_Hash sum256 cv (base_point cv) (int i)) [1..<5]))"

definition CommitAll :: "curve \<Rightarrow> point list \<Rightarrow> int list \<Rightarrow> point option" where
  "CommitAll cv G openings =
     (if length openings \<noteq> length G then None
      else Some (fold (\<lambda>(g, v) commitment. Add cv commitment (ScalarMult cv g v)) (zip G openings) Zero))"

definition CommitAtIndex :: "curve \<Rightarrow> point list \<Rightarrow> int \<Rightarrow> int \<Rightarrow> nat \<Rightarrow> fault + point" where
  "CommitAtIndex cv G v rnd i =
     andThen (index G ped_index_RAND) (\<lambda>gr. andThen (index G i) (\<lambda>gi. Inr (Add cv (ScalarMult cv gr rnd) (ScalarMult cv gi v))))"

section \<open>The field\<close>

definition is_prime :: "int \<Rightarrow> bool" where
  "is_prime p \<longleftrightarrow> 1 < p \<and> (\<forall>m \<in> {2..<p}. \<not> m dvd p)"

definition good_field :: "curve \<Rightarrow> bool" where
  "good_field cv \<longleftrightarrow> is_prime (cv_P cv) \<and> cv_P cv mod 4 = 3 \<and> cv_P cv < 256 ^ BigIntSize"

lemma is_prime_dvd_mult:
  assumes "is_prime p" and "p dvd a * b"
  shows "p dvd a \<or> p dvd b"
proof (rule disjCI)
  assume "\<not> p dvd b"
  have "gcd p b = 1"
  proof (rule ccontr)
    assume "gcd p b \<noteq> 1"
    moreover have "0 < gcd p b" using assms(1) by (simp add: is_prime_def)
    ultimately have "2 \<le> gcd p b" by linarith
    moreover have "gcd p b \<le> p" using assms(1) by (intro zdvd_imp_le) (auto simp: is_prime_def)
    moreover have "gcd p b \<noteq> p" using \<open>\<not> p dvd b\<close> by (metis gcd_dvd2)
    ultimately have "gcd p b \<in> {2..<p}" by simp
    then show False using assms(1) unfolding is_prime_def by (metis gcd_dvd1)
  qed
  then have "coprime p b" by (simp add: coprime_iff_gcd_eq_1)
  then show "p dvd a" using assms(2) coprime_dvd_mult_left_iff by blast
qed

lemma is_prime_dvd_choose:
  assumes "is_prime (int p)" and "0 < k" and "k < p"
  shows "int p dvd int (p choose k)"
proof -
  have "k * (p choose k) = p * ((p - 1) choose (k - 1))"
    using assms(2) by (rule times_binomial_minus1_eq)
  then have "int p dvd int k * int (p choose k)" by (metis dvd_triv_left of_nat_mult)
  moreover have "\<not> int p dvd int k" using assms(2,3) by (simp add: nat_dvd_not_less)
  ultimately show ?thesis using is_prime_dvd_mult [OF assms(1)] by blast
qed

lemma freshman:
  assumes "is_prime (int p)"
  shows "(a + 1) ^ p mod int p = (a ^ p + 1) mod int p"
proof -
  have "1 < p" using assms by (simp add: is_prime_def)
  let ?t = "\<lambda>k. int (p choose k) * a ^ k"
  have "(a + 1) ^ p = (\<Sum>k\<le>p. ?t k)" using binomial_ring [of a 1 p] by simp
  also have "{..p} = insert 0 (insert p {0<..<p})" using \<open>1 < p\<close> by auto
  also have "(\<Sum>k \<in> insert 0 (insert p {0<..<p}). ?t k) = 1 + (a ^ p + (\<Sum>k \<in> {0<..<p}. ?t k))"
    using \<open>1 < p\<close> by simp
  finally have "(a + 1) ^ p = (a ^ p + 1) + (\<Sum>k \<in> {0<..<p}. ?t k)" by simp
  moreover have "int p dvd (\<Sum>k \<in> {0<..<p}. ?t k)"
    by (intro dvd_sum dvd_mult2 is_prime_dvd_choose [OF assms]) auto
  ultimately show ?thesis by (simp add: mod_eq_dvd_iff)
qed

lemma fermat_nat: "is_prime (int p) \<Longrightarrow> int a ^ p mod int p = int a mod int p"
proof (induction a)
  case 0
  then have "p \<noteq> 0" by (auto simp: is_prime_def)
  then show ?case by (simp add: zero_power)
next
  case (Suc a)
  have "int (Suc a) ^ p mod int p = (int a ^ p + 1) mod int p"
    using freshman [OF Suc.prems, of "int a"] by (simp add: add.commute)
  also have "\<dots> = (int a + 1) mod int p" using Suc by (metis mod_add_left_eq)
  finally show ?case by (simp add: add.commute)
qed

lemma fermat: "is_prime p \<Longrightarrow> 0 \<le> a \<Longrightarrow> a ^ nat p mod p = a mod p"
  using fermat_nat [of "nat p" "nat a"] by (simp add: is_prime_def)

section \<open>Compression\<close>

text \<open>Points with reduced coordinates on the curve.\<close>

definition on_curve :: "curve \<Rightarrow> point \<Rightarrow> bool" where
  "on_curve cv p \<longleftrightarrow> IsOnCurve cv p \<and> 0 \<le> fst p \<and> fst p < cv_P cv \<and> 0 \<le> snd p \<and> snd p < cv_P cv"

text \<open>The candidate root of a square squares to it again.\<close>

lemma sqrt_correct:
  assumes "good_field cv" and "0 \<le> y"
  shows "(Exp (y * y mod cv_P cv) (PAdd1Div4 (cv_P cv)) (cv_P cv))\<^sup>2 mod cv_P cv = y\<^sup>2 mod cv_P cv"
proof -
  let ?p = "cv_P cv" and ?e = "nat ((cv_P cv + 1) div 4)"
  have p: "is_prime ?p" "1 < ?p" "?p mod 4 = 3" using assms(1) by (auto simp: good_field_def is_prime_def)
  have "?p + 1 = 4 * ((?p + 1) div 4)" using p(3) by presburger
  then have e: "?e * 4 = nat ?p + 1" using p(2) by linarith
  have "(Exp (y * y mod ?p) (PAdd1Div4 ?p) ?p)\<^sup>2 mod ?p = ((y * y) ^ ?e)\<^sup>2 mod ?p"
    unfolding Exp_def PAdd1Div4_def by (simp only: power_mod)
  also have "((y * y) ^ ?e)\<^sup>2 = y ^ (?e * 4)" by (simp add: power2_eq_square [symmetric] power_mult [symmetric] mult.commute)
  also have "\<dots> = y ^ nat ?p * y" unfolding e by simp
  also have "y ^ nat ?p * y mod ?p = y\<^sup>2 mod ?p"
    using fermat [OF p(1) assms(2)] by (metis mod_mult_left_eq power2_eq_square)
  finally show ?thesis .
qed

lemma roots_of_square:
  assumes "is_prime p" and "0 \<le> y" and "y < p" and "0 \<le> z" and "z < p" and "z\<^sup>2 mod p = y\<^sup>2 mod p"
  shows "z = y \<or> z = p - y"
proof -
  have "p dvd (z - y) * (z + y)"
    using assms(6) by (simp add: mod_eq_dvd_iff power2_eq_square algebra_simps)
  then have "p dvd z - y \<or> p dvd z + y" by (rule is_prime_dvd_mult [OF assms(1)])
  then show ?thesis
  proof
    assume "p dvd z - y"
    then have "z mod p = y mod p" by (simp add: mod_eq_dvd_iff)
    then show ?thesis using assms by simp
  next
    assume "p dvd z + y"
    then obtain k where k: "z + y = p * k" ..
    have "0 < p" using assms(1) by (simp add: is_prime_def)
    have "0 \<le> p * k" "p * k < p * 2" using k assms(2-5) by linarith+
    then have "0 \<le> k" "k < 2" using \<open>0 < p\<close> by (simp_all add: zero_le_mult_iff)
    then have "k = 0 \<or> k = 1" by linarith
    then show ?thesis using k assms(2-5) by auto
  qed
qed

lemma be_val_replicate_0: "be_val (replicate n 0 @ bs) = be_val bs"
  by (induction n) (simp_all add: be_val_Cons)

lemma isOdd_odd: "isOdd a = odd a"
  by (simp add: isOdd_def odd_iff_mod_2_eq_one)

lemma ComputeYCoord_on_curve:
  assumes "good_field cv" and "on_curve cv (x, y)"
  obtains Y where "ComputeYCoord cv x = (Y, True)" and "0 \<le> Y" and "Y < cv_P cv" and "Y = y \<or> Y = cv_P cv - y"
proof -
  let ?p = "cv_P cv" and ?Y = "Exp (y * y mod cv_P cv) (PAdd1Div4 (cv_P cv)) (cv_P cv)"
  have p: "is_prime ?p" "0 < ?p" using assms(1) by (auto simp: good_field_def is_prime_def)
  have y: "0 \<le> y" "y < ?p" "y * y mod ?p = curve_rhs cv x" using assms(2) by (auto simp: on_curve_def)
  have "(Exp x 3 ?p + cv_B cv - x * 3) mod ?p = (x ^ 3 + cv_B cv - x * 3) mod ?p"
    unfolding Exp_def by (metis (no_types, opaque_lifting) mod_add_left_eq mod_diff_left_eq nat_numeral)
  also have "\<dots> = y * y mod ?p" unfolding y(3) curve_rhs_def by (simp add: algebra_simps)
  finally have cube: "(Exp x 3 ?p + cv_B cv - x * 3) mod ?p = y * y mod ?p" .
  have sq: "?Y\<^sup>2 mod ?p = y\<^sup>2 mod ?p" by (rule sqrt_correct [OF assms(1) y(1)])
  have b: "0 \<le> ?Y" "?Y < ?p" using p(2) by (simp_all add: Exp_def)
  show thesis
  proof (rule that)
    show "ComputeYCoord cv x = (?Y, True)"
      unfolding ComputeYCoord_def Let_def cube using sq by (simp add: power2_eq_square)
    show "?Y = y \<or> ?Y = ?p - y" by (rule roots_of_square [OF p(1) y(1,2) b sq])
  qed (rule b)+
qed

definition format_byte :: "int \<Rightarrow> byte" where
  "format_byte y = (if isOdd y then 3 else 2)"

lemma Compress_on_curve:
  "on_curve cv (x, y) \<Longrightarrow> Compress cv (x, y) = format_byte y # AddPaddingBigInt x BigIntSize"
  by (simp add: on_curve_def Compress_def paddedAppend_def AddPaddingBigInt_def Let_def PointCompressed_def format_byte_def)

lemma decompress_format:
  "length bs = 32 \<Longrightarrow> decompress_into cv (format_byte y # bs) =
     (let X = int (be_val bs); (Y, ok) = ComputeYCoord cv X
      in if \<not> ok then Inr (Some (X, Y), False)
         else if isOdd y \<noteq> isOdd Y then Inr (Some (X, cv_P cv - Y), True) else Inr (Some (X, Y), True))"
proof -
  have "and (3 :: byte) 1 = 1" "and (2 :: byte) 1 = 0" by simp_all
  then show "length bs = 32 \<Longrightarrow> ?thesis"
    by (cases "isOdd y") (simp_all add: decompress_into_def index_def andThen_def format_byte_def PointCompressed_def Let_def split: prod.split)
qed

text \<open>Sums of the two roots are odd, so the stored parity selects the right one.\<close>

lemma decompress_compress:
  assumes "good_field cv" and "on_curve cv (x, y)"
  shows "decompress_into cv (Compress cv (x, y)) = Inr (Some (x, y), True)"
proof -
  have x: "0 \<le> x" "x < 256 ^ BigIntSize" "0 \<le> y" "y < cv_P cv" using assms by (auto simp: on_curve_def good_field_def)
  have len: "length (AddPaddingBigInt x BigIntSize) = 32"
    using length_AddPaddingBigInt [OF x(1,2)] by (simp add: BigIntSize_def)
  have val: "int (be_val (AddPaddingBigInt x BigIntSize)) = x"
    using x(1) by (simp add: be_val_AddPaddingBigInt)
  have "cv_P cv mod 4 = 3" using assms(1) by (simp add: good_field_def)
  then have P: "odd (cv_P cv)" by presburger
  from ComputeYCoord_on_curve [OF assms] obtain Y where Y: "ComputeYCoord cv x = (Y, True)"
    "0 \<le> Y" "Y < cv_P cv" "Y = y \<or> Y = cv_P cv - y" by blast
  have "decompress_into cv (Compress cv (x, y)) = (if isOdd y \<noteq> isOdd Y then Inr (Some (x, cv_P cv - Y), True) else Inr (Some (x, Y), True))"
    unfolding Compress_on_curve [OF assms(2)] decompress_format [OF len] val by (simp add: Y(1))
  then show ?thesis using Y(2-4) x(3,4) P by (auto simp: isOdd_odd)
qed

lemma length_Compress:
  assumes "good_field cv" and "on_curve cv p"
  shows "length (Compress cv p) = 33"
proof -
  obtain x y where p: "p = (x, y)" by fastforce
  have "0 \<le> x" "x < 256 ^ BigIntSize" using assms by (auto simp: p on_curve_def good_field_def)
  from length_AddPaddingBigInt [OF this] show ?thesis
    using assms(2) by (simp add: p Compress_on_curve BigIntSize_def)
qed

section \<open>Points form a group\<close>

text \<open>The points with reduced coordinates and the point at infinity.\<close>

definition curve_pt :: "curve \<Rightarrow> point \<Rightarrow> bool" where
  "curve_pt cv p \<longleftrightarrow> p = Zero \<or> on_curve cv p"

definition curve_group :: "curve \<Rightarrow> bool" where
  "curve_group cv \<longleftrightarrow> 0 < cv_N cv
     \<and> (\<forall>p q. curve_pt cv p \<and> curve_pt cv q \<longrightarrow> curve_pt cv (Curve_Add cv p q) \<and> Curve_Add cv p q = Curve_Add cv q p)
     \<and> (\<forall>p q r. curve_pt cv p \<and> curve_pt cv q \<and> curve_pt cv r \<longrightarrow>
          Curve_Add cv (Curve_Add cv p q) r = Curve_Add cv p (Curve_Add cv q r))
     \<and> (\<forall>p. curve_pt cv p \<longrightarrow> (Curve_Add cv p ^^ nat (cv_N cv)) Zero = Zero)"

definition times :: "curve \<Rightarrow> nat \<Rightarrow> point \<Rightarrow> point" where
  "times cv n p = (Curve_Add cv p ^^ n) Zero"

lemma Curve_Add_Zero [simp]: "Curve_Add cv Zero p = p" "Curve_Add cv p Zero = p"
  by (simp_all add: Curve_Add_def)

lemma Curve_Double_Add: "Curve_Double cv p = Curve_Add cv p p"
  by (simp add: Curve_Add_def Curve_Double_def)

lemma curve_pt_Zero [simp]: "curve_pt cv Zero"
  by (simp add: curve_pt_def)

lemma curve_group_N: "curve_group cv \<Longrightarrow> 0 < cv_N cv"
  by (simp add: curve_group_def)

lemma curve_pt_Add [intro]: "curve_group cv \<Longrightarrow> curve_pt cv p \<Longrightarrow> curve_pt cv q \<Longrightarrow> curve_pt cv (Curve_Add cv p q)"
  unfolding curve_group_def by blast

lemma Curve_Add_commute: "curve_group cv \<Longrightarrow> curve_pt cv p \<Longrightarrow> curve_pt cv q \<Longrightarrow> Curve_Add cv p q = Curve_Add cv q p"
  unfolding curve_group_def by blast

lemma Curve_Add_assoc: "curve_group cv \<Longrightarrow> curve_pt cv p \<Longrightarrow> curve_pt cv q \<Longrightarrow> curve_pt cv r
  \<Longrightarrow> Curve_Add cv (Curve_Add cv p q) r = Curve_Add cv p (Curve_Add cv q r)"
  unfolding curve_group_def by blast

lemma Curve_Add_left_commute: "curve_group cv \<Longrightarrow> curve_pt cv p \<Longrightarrow> curve_pt cv q \<Longrightarrow> curve_pt cv r
  \<Longrightarrow> Curve_Add cv p (Curve_Add cv q r) = Curve_Add cv q (Curve_Add cv p r)"
  by (metis Curve_Add_assoc Curve_Add_commute)

lemmas curve_ac = Curve_Add_assoc Curve_Add_commute Curve_Add_left_commute

lemma times_0 [simp]: "times cv 0 p = Zero" and times_Suc: "times cv (Suc n) p = Curve_Add cv p (times cv n p)"
  by (simp_all add: times_def)

lemma times_1 [simp]: "times cv 1 p = p"
  by (simp add: times_def)

lemma curve_pt_times [intro]: "curve_group cv \<Longrightarrow> curve_pt cv p \<Longrightarrow> curve_pt cv (times cv n p)"
  by (induction n) (auto simp: times_Suc)

lemma times_add: "curve_group cv \<Longrightarrow> curve_pt cv p \<Longrightarrow> times cv (m + n) p = Curve_Add cv (times cv m p) (times cv n p)"
  by (induction m) (simp_all add: times_Suc Curve_Add_assoc curve_pt_times)

lemma times_Add: "curve_group cv \<Longrightarrow> curve_pt cv p \<Longrightarrow> curve_pt cv q
  \<Longrightarrow> times cv n (Curve_Add cv p q) = Curve_Add cv (times cv n p) (times cv n q)"
proof (induction n)
  case (Suc n)
  then show ?case
    by (simp add: times_Suc Curve_Add_assoc Curve_Add_left_commute [of cv q "times cv n p"] curve_pt_times curve_pt_Add)
qed simp

lemma times_mult: "curve_group cv \<Longrightarrow> curve_pt cv p \<Longrightarrow> times cv (m * n) p = times cv m (times cv n p)"
  by (induction m) (simp_all add: times_add times_Suc)

lemma times_Zero [simp]: "times cv n Zero = Zero"
  by (induction n) (simp_all add: times_Suc)

lemma times_N: "curve_group cv \<Longrightarrow> curve_pt cv p \<Longrightarrow> times cv (nat (cv_N cv)) p = Zero"
  unfolding curve_group_def times_def by blast

text \<open>Factors count modulo the order.\<close>

lemma times_mod:
  assumes "curve_group cv" and "curve_pt cv p"
  shows "times cv (n mod nat (cv_N cv)) p = times cv n p"
proof -
  let ?N = "nat (cv_N cv)"
  have "times cv n p = times cv (n mod ?N + n div ?N * ?N) p" by simp
  also have "\<dots> = Curve_Add cv (times cv (n mod ?N) p) (times cv (n div ?N * ?N) p)" by (rule times_add [OF assms])
  also have "times cv (n div ?N * ?N) p = Zero" by (simp add: times_mult [OF assms] times_N [OF assms])
  finally show ?thesis by simp
qed

lemma times_cong:
  "curve_group cv \<Longrightarrow> curve_pt cv p \<Longrightarrow> m mod nat (cv_N cv) = n mod nat (cv_N cv) \<Longrightarrow> times cv m p = times cv n p"
  by (metis times_mod)

subsection \<open>Double and add\<close>

definition bits_val :: "nat \<Rightarrow> bool list \<Rightarrow> nat" where
  "bits_val = foldl (\<lambda>n b. 2 * n + of_bool b)"

lemma bits_val_append: "bits_val n (bs @ cs) = bits_val (bits_val n bs) cs"
  by (simp add: bits_val_def)

lemma bits_val_bits_of: "bits_val m (bits_of k n) = m * 2 ^ k + n mod 2 ^ k"
proof (induction k arbitrary: m)
  case (Suc k)
  have "n mod 2 ^ Suc k = 2 ^ k * (n div 2 ^ k mod 2) + n mod 2 ^ k"
    by (simp add: mod_mult2_eq mult.commute [of 2])
  moreover have "n div 2 ^ k mod 2 = of_bool (odd (n div 2 ^ k))" by (simp add: mod_2_eq_odd)
  ultimately show ?case using Suc [of "2 * m + of_bool (odd (n div 2 ^ k))"]
    by (simp add: bits_val_def algebra_simps)
qed (simp add: bits_val_def)

lemma bits_val_bytes: "bits_val n (byte_bits bs) = n * 256 ^ length bs + be_val bs"
proof (induction bs arbitrary: n)
  case (Cons b bs)
  have "bits_val n (bits_of 8 (unat b)) = n * 256 + unat b"
    using unat_byte_less [of b] by (simp add: bits_val_bits_of)
  moreover have "byte_bits (b # bs) = bits_of 8 (unat b) @ byte_bits bs" by (simp add: byte_bits_def)
  ultimately show ?case using Cons by (simp only: bits_val_append) (simp add: be_val_Cons algebra_simps)
qed (simp add: byte_bits_def bits_val_def)

lemma double_and_add:
  assumes "curve_group cv" and "curve_pt cv p"
  shows "fold (\<lambda>b r. let d = Curve_Double cv r in if b then Curve_Add cv p d else d) bs (times cv n p) = times cv (bits_val n bs) p"
proof (induction bs arbitrary: n)
  case (Cons b bs)
  have "(let d = Curve_Double cv (times cv n p) in if b then Curve_Add cv p d else d) = times cv (2 * n + of_bool b) p"
    using times_add [OF assms, of n n] by (simp add: Let_def Curve_Double_Add mult_2 times_Suc)
  then show ?case using Cons by (simp add: bits_val_def)
qed (simp add: bits_val_def)

lemma ScalarMult_times:
  assumes "curve_group cv" and "curve_pt cv p"
  shows "ScalarMult cv p n = times cv (nat \<bar>n\<bar>) p"
  using double_and_add [OF assms, of "byte_bits (be_bytes (nat \<bar>n\<bar>))" 0]
  by (simp add: ScalarMult_def Curve_ScalarMult_def bits_val_bytes be_val_be_bytes)

section \<open>Properties\<close>

text \<open>C27: compressed points decompress to themselves. On a curve over a prime field with modulus 3 modulo 4,
  \<open>Compress\<close> writes 33 bytes for every point of the curve and \<open>Decompress\<close> computes the same
  point back from them: the square root exists and the stored parity selects the right one. This is the
  interface \<open>point_codec\<close> that the formats of coins and payment proofs rely on.
\<close>

theorem ec_point_codec:
  assumes "good_field cv"
  shows "point_codec (on_curve cv) (Compress cv) (Decompress cv)"
  using decompress_compress [OF assms] length_Compress [OF assms]
  by (simp add: point_codec_def Decompress_def split_paired_All)

text \<open>A small curve: \<open>y^2 = x^3 - 3x + 1\<close> modulo 7, with five points.\<close>

definition ex_curve :: curve where
  "ex_curve = \<lparr>cv_P = 7, cv_B = 1, cv_N = 5, cv_Gx = 0, cv_Gy = 1\<rparr>"

definition ex_points :: "point list" where
  "ex_points = [(0, 1), (0, 6), (4, 2), (4, 5)]"

lemma ex_good_field: "good_field ex_curve"
proof -
  have "{2..<7 :: int} = {2, 3, 4, 5, 6}" by auto
  then show ?thesis by (simp add: good_field_def is_prime_def ex_curve_def BigIntSize_def)
qed

lemma ex_on_curve: "on_curve ex_curve p \<longleftrightarrow> p \<in> set ex_points"
proof -
  have table: "list_all (\<lambda>(x, y). IsOnCurve ex_curve (x, y) = ((x, y) \<in> set ex_points)) (List.product [0..6] [0..6])"
    by code_simp
  obtain x y where p: "p = (x, y)" by fastforce
  show ?thesis
  proof (cases "x \<in> set [0..6] \<and> y \<in> set [0..6]")
    case True
    then have "(x, y) \<in> set (List.product [0..6] [0..6])" by simp
    with table have "IsOnCurve ex_curve (x, y) = ((x, y) \<in> set ex_points)" unfolding list_all_iff by blast
    then show ?thesis using True by (auto simp: p on_curve_def ex_curve_def)
  next
    case False
    then show ?thesis by (auto simp: p on_curve_def ex_curve_def ex_points_def)
  qed
qed

text \<open>The points are the multiples of the base point, so addition is that of the integers modulo 5.\<close>

definition ex_multiple :: "nat \<Rightarrow> point" where
  "ex_multiple n = [Zero, (0, 1), (4, 5), (4, 2), (0, 6)] ! (n mod 5)"

lemma ex_add_table: "Curve_Add ex_curve (ex_multiple m) (ex_multiple n) = ex_multiple (m + n)"
proof -
  have "list_all (\<lambda>i. list_all (\<lambda>j. Curve_Add ex_curve (ex_multiple i) (ex_multiple j) = ex_multiple (i + j)) [0, 1, 2, 3, 4]) [0, 1, 2, 3, 4]"
    by code_simp
  moreover have "m mod 5 \<in> set [0, 1, 2, 3, 4]" "n mod 5 \<in> set [0, 1, 2, 3, 4]" by auto
  ultimately have "Curve_Add ex_curve (ex_multiple (m mod 5)) (ex_multiple (n mod 5)) = ex_multiple (m mod 5 + n mod 5)"
    unfolding list_all_iff by blast
  then show ?thesis by (simp add: ex_multiple_def mod_add_eq)
qed

lemma ex_curve_pt: "curve_pt ex_curve p \<longleftrightarrow> (\<exists>n. p = ex_multiple n)"
proof
  assume "curve_pt ex_curve p"
  then have "p \<in> {ex_multiple 0, ex_multiple 1, ex_multiple 4, ex_multiple 3, ex_multiple 2}"
    by (auto simp: curve_pt_def ex_on_curve ex_points_def ex_multiple_def)
  then show "\<exists>n. p = ex_multiple n" by blast
next
  assume "\<exists>n. p = ex_multiple n"
  then obtain n where p: "p = ex_multiple n" ..
  have "n mod 5 < 5" by simp
  then consider "n mod 5 = 0" | "n mod 5 = 1" | "n mod 5 = 2" | "n mod 5 = 3" | "n mod 5 = 4" by linarith
  then show "curve_pt ex_curve p" by cases (auto simp: p ex_multiple_def curve_pt_def ex_on_curve ex_points_def)
qed

lemma ex_curve_group: "curve_group ex_curve"
proof -
  have mult: "(Curve_Add ex_curve (ex_multiple m) ^^ n) Zero = ex_multiple (n * m)" for m n
    by (induction n) (simp_all add: ex_add_table, simp add: ex_multiple_def)
  have "(Curve_Add ex_curve (ex_multiple m) ^^ nat (cv_N ex_curve)) Zero = Zero" for m
    unfolding mult by (simp add: ex_multiple_def ex_curve_def)
  moreover have "0 < cv_N ex_curve" by (simp add: ex_curve_def)
  ultimately show ?thesis
    unfolding curve_group_def ex_curve_pt by (auto simp: ex_add_table ac_simps)
qed

theorem ec_point_codec_witness:
  "Decompress ex_curve (Compress ex_curve (4, 5)) = Inr (4, 5) \<and> length (Compress ex_curve (4, 5)) = 33"
proof -
  have "on_curve ex_curve (4, 5)" by (simp add: ex_on_curve ex_points_def)
  then show ?thesis using ec_point_codec [OF ex_good_field] unfolding point_codec_def by blast
qed

end
