(* ===== verification/Schnorr.thy ===== *)
theory Schnorr
  imports Elliptic_Curve Payment_Verify Hash_Type
begin

text \<open>
  Schnorr signatures of transactions (\<open>src/privacy/schnorr.go\<close>) and the multi-signatures of committees
  (\<open>schnorrmultisig.go\<close>), with the ElGamal encryption of \<open>elgamal.go\<close>. Random scalars are arguments;
  \<open>G\<close> is the list \<open>PedCom.G\<close> of generators. A nil big integer is \<open>None\<close>.
\<close>

section \<open>Signatures\<close>

record SchnPubKey =
  pk_PK :: point
  pk_G :: point
  pk_H :: point

record SchnPrivKey =
  sk_SK :: int
  sk_R :: int
  sk_PubKey :: SchnPubKey

record SchnSignature =
  sg_E :: int
  sg_Z1 :: int
  sg_Z2 :: "int option"

definition SchnPrivKey_Set :: "curve \<Rightarrow> point list \<Rightarrow> int \<Rightarrow> int \<Rightarrow> SchnPrivKey" where
  "SchnPrivKey_Set cv G sk r =
     \<lparr>sk_SK = sk, sk_R = r,
      sk_PubKey = \<lparr>pk_PK = Add cv (ScalarMult cv (G ! ped_index_SK) sk) (ScalarMult cv (G ! ped_index_RAND) r),
        pk_G = G ! ped_index_SK, pk_H = G ! ped_index_RAND\<rparr>\<rparr>"

definition SchnPubKey_Set :: "point list \<Rightarrow> point \<Rightarrow> SchnPubKey" where
  "SchnPubKey_Set G pk = \<lparr>pk_PK = pk, pk_G = G ! ped_index_SK, pk_H = G ! ped_index_RAND\<rparr>"

definition schn_Hash :: "(bytes \<Rightarrow> bytes) \<Rightarrow> point \<Rightarrow> bytes \<Rightarrow> int" where
  "schn_Hash sum256 p m =
     int (be_val (HashB sum256 (AddPaddingBigInt (fst p) BigIntSize @ AddPaddingBigInt (snd p) BigIntSize @ m)))"

text \<open>\<open>s1\<close> and \<open>s2\<close> are the random scalars; without privacy (\<open>R = 0\<close>) only the first is drawn.\<close>

definition Sign :: "(bytes \<Rightarrow> bytes) \<Rightarrow> curve \<Rightarrow> SchnPrivKey \<Rightarrow> int \<Rightarrow> int \<Rightarrow> bytes \<Rightarrow> SchnSignature option" where
  "Sign sum256 cv key s1 s2 data =
     (if length data \<noteq> HashSize then None
      else let pub = sk_PubKey key in
      if sk_R key \<noteq> 0 then
        let t = Add cv (ScalarMult cv (pk_G pub) s1) (ScalarMult cv (pk_H pub) s2);
            E = schn_Hash sum256 t data
        in Some \<lparr>sg_E = E, sg_Z1 = (s1 - sk_SK key * E) mod cv_N cv, sg_Z2 = Some ((s2 - sk_R key * E) mod cv_N cv)\<rparr>
      else
        let t = ScalarMult cv (pk_G pub) s1; E = schn_Hash sum256 t data
        in Some \<lparr>sg_E = E, sg_Z1 = (s1 - sk_SK key * E) mod cv_N cv, sg_Z2 = None\<rparr>)"

definition Verify :: "(bytes \<Rightarrow> bytes) \<Rightarrow> curve \<Rightarrow> SchnPubKey \<Rightarrow> SchnSignature option \<Rightarrow> bytes \<Rightarrow> fault + bool" where
  "Verify sum256 cv pub sig data =
     (case sig of None \<Rightarrow> Inr False
      | Some s \<Rightarrow> andThen (deref (sg_Z2 s)) (\<lambda>z2.
          let rv = Add cv (ScalarMult cv (pk_G pub) (sg_Z1 s)) (ScalarMult cv (pk_H pub) z2);
              rv' = Add cv rv (ScalarMult cv (pk_PK pub) (sg_E s))
          in Inr (schn_Hash sum256 rv' data = sg_E s)))"

definition SchnSignature_Bytes :: "SchnSignature \<Rightarrow> bytes" where
  "SchnSignature_Bytes s =
     AddPaddingBigInt (sg_E s) BigIntSize @ AddPaddingBigInt (sg_Z1 s) BigIntSize
     @ (case sg_Z2 s of None \<Rightarrow> [] | Some z2 \<Rightarrow> AddPaddingBigInt z2 BigIntSize)"

text \<open>\<open>bytes[2*BigIntSize:]\<close> may be empty: then \<open>Z2\<close> is zero. Fewer than 64 bytes panic.\<close>

definition SchnSignature_SetBytes :: "bytes \<Rightarrow> fault + SchnSignature" where
  "SchnSignature_SetBytes bs =
     (if length bs < 2 * BigIntSize then Inl IndexOutOfRange
      else Inr \<lparr>sg_E = int (be_val (take BigIntSize bs)), sg_Z1 = int (be_val (take BigIntSize (drop BigIntSize bs))),
        sg_Z2 = Some (int (be_val (drop (2 * BigIntSize) bs)))\<rparr>)"

section \<open>Multi-signatures\<close>

record MultiSigKeyset =
  mk_priKey :: bytes
  mk_pubKey :: bytes

record SchnMultiSig =
  ms_R :: "point option"
  ms_S :: "int option"

definition new_SchnMultiSig :: SchnMultiSig where
  "new_SchnMultiSig = \<lparr>ms_R = None, ms_S = None\<rparr>"

text \<open>\<open>SetBytes\<close> into a new signature: the signature and whether there was no error.\<close>

definition SchnMultiSig_SetBytes :: "curve \<Rightarrow> bytes \<Rightarrow> fault + SchnMultiSig \<times> bool" where
  "SchnMultiSig_SetBytes cv sigByte =
     (if length sigByte < 33 + BigIntSize then Inr (new_SchnMultiSig, False)
      else andThen (decompress_into cv (take 33 sigByte)) (\<lambda>(R, ok).
        if \<not> ok then Inr (\<lparr>ms_R = R, ms_S = None\<rparr>, False)
        else Inr (\<lparr>ms_R = R, ms_S = Some (int (be_val (take BigIntSize (drop 33 sigByte))))\<rparr>, True)))"

definition SchnMultiSig_Bytes :: "curve \<Rightarrow> SchnMultiSig \<Rightarrow> fault + bytes" where
  "SchnMultiSig_Bytes cv m =
     andThen (deref (ms_R m)) (\<lambda>R.
       if \<not> IsOnCurve cv R then Inl (ExplicitPanic ''Throw Error from Byte() method'')
       else case ms_S m of
         None \<Rightarrow> Inl (ExplicitPanic ''Throw Error from Byte() method'')
       | Some S \<Rightarrow> Inr (Compress cv R @ AddPaddingBigInt S BigIntSize))"

text \<open>
  Errors of \<open>Decompress\<close> are ignored: a key that is not on the curve is used all the same, and a wrong
  format leaves nil coordinates, which the addition dereferences.
\<close>

definition decompress_key :: "curve \<Rightarrow> bytes \<Rightarrow> fault + point" where
  "decompress_key cv pk = andThen (decompress_into cv pk) (\<lambda>(p, _). deref p)"

fun agg_keys :: "curve \<Rightarrow> bytes list \<Rightarrow> point \<Rightarrow> fault + point" where
  "agg_keys cv [] agg = Inr agg"
| "agg_keys cv (pk # pks) agg = andThen (decompress_key cv pk) (\<lambda>p. agg_keys cv pks (Add cv agg p))"

definition key_factor :: "(bytes \<Rightarrow> bytes) \<Rightarrow> curve \<Rightarrow> point \<Rightarrow> point \<Rightarrow> int" where
  "key_factor sum256 cv agg p = int (be_val (HashB sum256 (Compress cv (Add cv agg p))))"

text \<open>The weighted sum of keys; \<open>reduce\<close> is the reduction of the weight modulo the order.\<close>

fun weigh_keys :: "(bytes \<Rightarrow> bytes) \<Rightarrow> curve \<Rightarrow> (int \<Rightarrow> int) \<Rightarrow> point \<Rightarrow> bytes list \<Rightarrow> point \<Rightarrow> fault + point" where
  "weigh_keys sum256 cv reduce agg [] X = Inr X"
| "weigh_keys sum256 cv reduce agg (pk # pks) X =
     andThen (decompress_key cv pk) (\<lambda>p.
       weigh_keys sum256 cv reduce agg pks (Add cv X (ScalarMult cv p (reduce (key_factor sum256 cv agg p)))))"

definition generateCommonParams ::
  "(bytes \<Rightarrow> bytes) \<Rightarrow> curve \<Rightarrow> bytes list \<Rightarrow> bytes list \<Rightarrow> point \<Rightarrow> bytes \<Rightarrow> fault + point \<times> int \<times> point" where
  "generateCommonParams sum256 cv listCommonPK listCombinePK R data =
     andThen (agg_keys cv listCommonPK Zero) (\<lambda>aggPubkey.
     andThen (weigh_keys sum256 cv (\<lambda>a. a mod cv_N cv) aggPubkey listCommonPK Zero) (\<lambda>X.
       let C = int (be_val (Compress cv X @ Compress cv R @ data)) mod cv_N cv
       in if length listCommonPK > length listCombinePK
          then andThen (weigh_keys sum256 cv (\<lambda>a. a) aggPubkey listCombinePK Zero) (\<lambda>X'. Inr (aggPubkey, C, X'))
          else Inr (aggPubkey, C, X)))"

definition SignMultiSig ::
  "(bytes \<Rightarrow> bytes) \<Rightarrow> curve \<Rightarrow> MultiSigKeyset \<Rightarrow> bytes \<Rightarrow> bytes list \<Rightarrow> point list \<Rightarrow> int \<Rightarrow> fault + SchnMultiSig" where
  "SignMultiSig sum256 cv keyset data listPK listR r =
     (let R = fold (\<lambda>x acc. Add cv acc x) listR Zero in
      andThen (generateCommonParams sum256 cv listPK listPK R data) (\<lambda>(aggKey, C, _).
      andThen (decompress_key cv (mk_pubKey keyset)) (\<lambda>selfPK.
        let aInt = key_factor sum256 cv aggKey selfPK mod cv_N cv;
            sig = ((aInt * C mod cv_N cv) * int (be_val (mk_priKey keyset)) mod cv_N cv + r) mod cv_N cv;
            res = \<lparr>ms_R = Some (ScalarMult cv (base_point cv) r), ms_S = Some sig\<rparr>
        in andThen (SchnMultiSig_Bytes cv res) (\<lambda>bs.
          if length bs \<noteq> BigIntSize + 33 then Inl (ExplicitPanic ''aaaaaaaaaaaaaaaaaaaa'') else Inr res))))"

definition VerifyMultiSig ::
  "(bytes \<Rightarrow> bytes) \<Rightarrow> curve \<Rightarrow> SchnMultiSig \<Rightarrow> bytes \<Rightarrow> bytes list \<Rightarrow> bytes list \<Rightarrow> point \<Rightarrow> fault + bool" where
  "VerifyMultiSig sum256 cv m data listCommonPK listCombinePK RCombine =
     andThen (SchnMultiSig_Bytes cv m) (\<lambda>bs.
       if length bs \<noteq> BigIntSize + 33 then Inl (ExplicitPanic ''Wrong length'')
       else andThen (generateCommonParams sum256 cv listCommonPK listCombinePK RCombine data) (\<lambda>(_, C, X).
         andThen (deref (ms_S m)) (\<lambda>S. andThen (deref (ms_R m)) (\<lambda>R.
           Inr (IsEqual (ScalarMult cv (base_point cv) S) (Add cv (ScalarMult cv X C) R))))))"

definition GenerateRandom :: "curve \<Rightarrow> int \<Rightarrow> point \<times> int" where
  "GenerateRandom cv r = (ScalarMult cv (base_point cv) r, r)"

fun combine_loop :: "curve \<Rightarrow> SchnMultiSig list \<Rightarrow> point \<Rightarrow> int \<Rightarrow> fault + SchnMultiSig" where
  "combine_loop cv [] R S = Inr \<lparr>ms_R = Some R, ms_S = Some S\<rparr>"
| "combine_loop cv (m # ms) R S =
     andThen (deref (ms_R m)) (\<lambda>r. andThen (deref (ms_S m)) (\<lambda>s.
       combine_loop cv ms (Add cv R r) ((S + s) mod cv_N cv)))"

definition CombineMultiSig :: "curve \<Rightarrow> SchnMultiSig list \<Rightarrow> fault + SchnMultiSig" where
  "CombineMultiSig cv listSignatures = combine_loop cv listSignatures Zero 0"

section \<open>ElGamal encryption\<close>

record ElGamalCiphertext =
  eg_C1 :: point
  eg_C2 :: point

definition GenPubKey :: "curve \<Rightarrow> int \<Rightarrow> point" where
  "GenPubKey cv x = ScalarMult cv (base_point cv) x"

definition ElGamal_Encrypt :: "curve \<Rightarrow> point \<Rightarrow> int \<Rightarrow> point \<Rightarrow> ElGamalCiphertext" where
  "ElGamal_Encrypt cv H randomness plaintext =
     \<lparr>eg_C1 = ScalarMult cv (base_point cv) randomness, eg_C2 = Add cv plaintext (ScalarMult cv H randomness)\<rparr>"

definition ElGamal_Decrypt :: "curve \<Rightarrow> int \<Rightarrow> ElGamalCiphertext \<Rightarrow> point option" where
  "ElGamal_Decrypt cv x c = Sub cv (eg_C2 c) (ScalarMult cv (eg_C1 c) x)"

definition ElGamalCiphertext_Bytes :: "curve \<Rightarrow> ElGamalCiphertext \<Rightarrow> bytes" where
  "ElGamalCiphertext_Bytes cv c =
     (if IsEqual (eg_C1 c) Zero then [] else Compress cv (eg_C1 c) @ Compress cv (eg_C2 c))"

text \<open>An empty slice leaves both points nil (\<open>None\<close>).\<close>

definition ElGamalCiphertext_SetBytes :: "curve \<Rightarrow> bytes \<Rightarrow> read_failure + ElGamalCiphertext option" where
  "ElGamalCiphertext_SetBytes cv bs =
     (if length bs = 0 then Inr None
      else if length bs < 33 then Inl (Panic IndexOutOfRange)
      else andThen (Decompress cv (take 33 bs)) (\<lambda>c1. andThen (Decompress cv (drop 33 bs)) (\<lambda>c2.
        Inr (Some \<lparr>eg_C1 = c1, eg_C2 = c2\<rparr>))))"

section \<open>Facts\<close>

definition gens_ok :: "curve \<Rightarrow> point list \<Rightarrow> bool" where
  "gens_ok cv G \<longleftrightarrow> length G = 5 \<and> list_all (curve_pt cv) G"

lemma gens_okD: "gens_ok cv G \<Longrightarrow> curve_pt cv (G ! ped_index_SK) \<and> curve_pt cv (G ! ped_index_RAND)"
  by (simp add: gens_ok_def list_all_length ped_index_SK_def ped_index_RAND_def)

lemma schn_Hash_bounds: "digest32 sum256 \<Longrightarrow> 0 \<le> schn_Hash sum256 p m \<and> schn_Hash sum256 p m < 256 ^ BigIntSize"
  using be_val_less [of "sum256 (AddPaddingBigInt (fst p) BigIntSize @ AddPaddingBigInt (snd p) BigIntSize @ m)"]
  by (simp add: schn_Hash_def HashB_def digest32_def HashSize_def BigIntSize_def del: of_nat_power)

text \<open>The answer \<open>s - k * E\<close> and the weight \<open>E * k\<close> of the key add up to the nonce.\<close>

lemma response_sum:
  assumes "0 < N" and "0 \<le> s" and "0 \<le> k" and "0 \<le> E"
  shows "(nat ((s - k * E) mod N) + nat E * nat k) mod nat N = nat s mod nat N"
proof -
  have "int ((nat ((s - k * E) mod N) + nat E * nat k) mod nat N) = ((s - k * E) mod N + E * k) mod N"
    using assms by (simp add: of_nat_mod)
  also have "\<dots> = s mod N" by (simp add: mod_add_left_eq mult.commute)
  also have "\<dots> = int (nat s mod nat N)" using assms by (simp add: of_nat_mod)
  finally show ?thesis by linarith
qed

lemma response_point:
  assumes "curve_group cv" and "curve_pt cv p" and "0 \<le> s" and "0 \<le> k" and "0 \<le> E"
  shows "Curve_Add cv (ScalarMult cv p ((s - k * E) mod cv_N cv)) (times cv (nat E) (ScalarMult cv p k)) = ScalarMult cv p s"
proof -
  have "Curve_Add cv (ScalarMult cv p ((s - k * E) mod cv_N cv)) (times cv (nat E) (ScalarMult cv p k))
    = times cv (nat ((s - k * E) mod cv_N cv) + nat E * nat k) p"
    using assms curve_group_N [OF assms(1)] by (simp add: ScalarMult_times times_add times_mult)
  also have "\<dots> = times cv (nat s) p"
    using response_sum [OF curve_group_N [OF assms(1)] assms(3-5)] by (rule times_cong [OF assms(1,2)])
  finally show ?thesis using assms by (simp add: ScalarMult_times)
qed

lemma curve_pt_ScalarMult [intro]: "curve_group cv \<Longrightarrow> curve_pt cv p \<Longrightarrow> curve_pt cv (ScalarMult cv p n)"
  by (simp add: ScalarMult_times curve_pt_times)

lemma ScalarMult_0: "curve_group cv \<Longrightarrow> curve_pt cv p \<Longrightarrow> ScalarMult cv p 0 = Zero"
  by (simp add: ScalarMult_times)

text \<open>The verifier recovers the commitment of the signer.\<close>

lemma verify_recovers:
  assumes "curve_group cv" and "curve_pt cv g" and "curve_pt cv h"
    and "0 \<le> s1" and "0 \<le> s2" and "0 \<le> sk" and "0 \<le> r" and "0 \<le> E"
  shows "Add cv (Add cv (ScalarMult cv g ((s1 - sk * E) mod cv_N cv)) (ScalarMult cv h ((s2 - r * E) mod cv_N cv)))
      (ScalarMult cv (Add cv (ScalarMult cv g sk) (ScalarMult cv h r)) E)
    = Add cv (ScalarMult cv g s1) (ScalarMult cv h s2)"
proof -
  let ?a = "ScalarMult cv g ((s1 - sk * E) mod cv_N cv)" and ?b = "ScalarMult cv h ((s2 - r * E) mod cv_N cv)"
  let ?c = "times cv (nat E) (ScalarMult cv g sk)" and ?d = "times cv (nat E) (ScalarMult cv h r)"
  have pts: "curve_pt cv ?a" "curve_pt cv ?b" "curve_pt cv ?c" "curve_pt cv ?d"
    using assms(1-3) by (auto intro!: curve_pt_times)
  have "ScalarMult cv (Add cv (ScalarMult cv g sk) (ScalarMult cv h r)) E = Curve_Add cv ?c ?d"
    using assms by (simp add: Add_def ScalarMult_times times_Add curve_pt_times curve_pt_Add)
  moreover have "Curve_Add cv (Curve_Add cv ?a ?b) (Curve_Add cv ?c ?d) = Curve_Add cv (Curve_Add cv ?a ?c) (Curve_Add cv ?b ?d)"
    using pts assms(1) by (simp add: Curve_Add_assoc Curve_Add_left_commute [of cv ?b ?c] curve_pt_Add)
  ultimately show ?thesis
    using response_point [OF assms(1,2,4,6,8)] response_point [OF assms(1,3,5,7,8)] by (simp add: Add_def)
qed

text \<open>Without privacy the second answer is zero and the second generator does not matter.\<close>

lemma verify_recovers_open:
  assumes "curve_group cv" and "curve_pt cv g" and "curve_pt cv h" and "0 \<le> s" and "0 \<le> sk" and "0 \<le> E"
  shows "Add cv (Add cv (ScalarMult cv g ((s - sk * E) mod cv_N cv)) (ScalarMult cv h 0))
      (ScalarMult cv (Add cv (ScalarMult cv g sk) (ScalarMult cv h 0)) E)
    = ScalarMult cv g s"
  using verify_recovers [OF assms(1-4) order_refl assms(5) order_refl assms(6)]
  by (simp add: ScalarMult_0 [OF assms(1,3)] Add_def)

lemma signature_roundtrip:
  assumes "scalar_ok E" and "scalar_ok z1" and "pred_option scalar_ok z2"
  shows "SchnSignature_SetBytes (SchnSignature_Bytes \<lparr>sg_E = E, sg_Z1 = z1, sg_Z2 = z2\<rparr>)
      = Inr \<lparr>sg_E = E, sg_Z1 = z1, sg_Z2 = Some (case z2 of None \<Rightarrow> 0 | Some z \<Rightarrow> z)\<rparr>"
    and "length (SchnSignature_Bytes \<lparr>sg_E = E, sg_Z1 = z1, sg_Z2 = z2\<rparr>) = (if z2 = None then 64 else 96)"
proof -
  have pad: "length (AddPaddingBigInt v BigIntSize) = BigIntSize" "int (be_val (AddPaddingBigInt v BigIntSize)) = v" if "scalar_ok v" for v
    using that length_AddPaddingBigInt by (simp_all add: scalar_ok_def be_val_AddPaddingBigInt)
  show "SchnSignature_SetBytes (SchnSignature_Bytes \<lparr>sg_E = E, sg_Z1 = z1, sg_Z2 = z2\<rparr>)
      = Inr \<lparr>sg_E = E, sg_Z1 = z1, sg_Z2 = Some (case z2 of None \<Rightarrow> 0 | Some z \<Rightarrow> z)\<rparr>"
    using assms pad by (cases z2) (simp_all add: SchnSignature_SetBytes_def SchnSignature_Bytes_def)
  show "length (SchnSignature_Bytes \<lparr>sg_E = E, sg_Z1 = z1, sg_Z2 = z2\<rparr>) = (if z2 = None then 64 else 96)"
    using assms pad by (cases z2) (simp_all add: SchnSignature_Bytes_def BigIntSize_def)
qed

text \<open>What \<open>Sign\<close> returns survives \<open>Bytes\<close> and \<open>SetBytes\<close>, a missing \<open>Z2\<close> as zero.\<close>

lemma mod_N_scalar: "curve_group cv \<Longrightarrow> cv_N cv < 256 ^ BigIntSize \<Longrightarrow> scalar_ok (v mod cv_N cv)"
  using curve_group_N [of cv] pos_mod_bound [of "cv_N cv" v] by (auto simp: scalar_ok_def simp del: pos_mod_bound)

lemma signature_verifies:
  assumes "curve_group cv" and "cv_N cv < 256 ^ BigIntSize" and "gens_ok cv G" and "digest32 sum256"
    and "0 \<le> sk" and "0 \<le> r" and "0 \<le> s1" and "0 \<le> s2" and "length data = HashSize"
  shows "\<exists>sig sig'. Sign sum256 cv (SchnPrivKey_Set cv G sk r) s1 s2 data = Some sig
    \<and> length (SchnSignature_Bytes sig) = (if r = 0 then 64 else 96)
    \<and> SchnSignature_SetBytes (SchnSignature_Bytes sig) = Inr sig'
    \<and> Verify sum256 cv (SchnPubKey_Set G (pk_PK (sk_PubKey (SchnPrivKey_Set cv G sk r)))) (Some sig') data = Inr True"
proof -
  let ?g = "G ! ped_index_SK" and ?h = "G ! ped_index_RAND"
  have pts: "curve_pt cv ?g" "curve_pt cv ?h" using gens_okD [OF assms(3)] by blast+
  have E: "scalar_ok (schn_Hash sum256 p data)" "0 \<le> schn_Hash sum256 p data" for p
    using schn_Hash_bounds [OF assms(4)] by (simp_all add: scalar_ok_def)
  note modN = mod_N_scalar [OF assms(1,2)]
  show ?thesis
  proof (cases "r = 0")
    case True
    then show ?thesis
      using verify_recovers_open [OF assms(1) pts assms(7,5) E(2)]
      by (simp add: Sign_def SchnPrivKey_Set_def SchnPubKey_Set_def Let_def assms(9) Verify_def andThen_def
          signature_roundtrip [OF E(1) modN] deref_def)
  next
    case False
    then show ?thesis
      using verify_recovers [OF assms(1) pts assms(7,8,5,6) E(2)]
      by (simp add: Sign_def SchnPrivKey_Set_def SchnPubKey_Set_def Let_def assms(9) Verify_def andThen_def
          signature_roundtrip [OF E(1) modN] modN deref_def)
  qed
qed

section \<open>Properties of signatures\<close>

text \<open>C17: every signature the node makes verifies. For a key made of a secret and a blinding factor (zero for
  a transaction in the open), \<open>Sign\<close> signs every 32-byte hash, the bytes of the signature take 64 or 96
  bytes, reading them back succeeds and \<open>Verify\<close> accepts the result under the public key, whatever the
  random scalars.
\<close>

theorem schnorr_sign_verify:
  assumes "curve_group cv" and "cv_N cv < 256 ^ BigIntSize" and "gens_ok cv G" and "digest32 sum256"
    and "0 \<le> sk" and "0 \<le> r" and "0 \<le> s1" and "0 \<le> s2" and "length data = HashSize"
  shows "\<exists>sig sig'. Sign sum256 cv (SchnPrivKey_Set cv G sk r) s1 s2 data = Some sig
    \<and> length (SchnSignature_Bytes sig) = (if r = 0 then 64 else 96)
    \<and> SchnSignature_SetBytes (SchnSignature_Bytes sig) = Inr sig'
    \<and> Verify sum256 cv (SchnPubKey_Set G (pk_PK (sk_PubKey (SchnPrivKey_Set cv G sk r)))) (Some sig') data = Inr True"
  by (rule signature_verifies [OF assms])

definition ex_gens :: "point list" where
  "ex_gens = [(0, 1), (4, 2), (4, 5), (0, 6), (4, 2)]"

definition ex_digest :: "bytes \<Rightarrow> bytes" where
  "ex_digest bs = replicate 31 0 @ [of_nat (sum_list (map unat bs))]"

lemma ex_digest32: "digest32 ex_digest"
  by (simp add: digest32_def ex_digest_def HashSize_def)

lemma ex_gens_ok: "gens_ok ex_curve ex_gens"
  by (simp add: gens_ok_def ex_gens_def curve_pt_def ex_on_curve ex_points_def)

theorem schnorr_sign_verify_witness:
  "\<exists>sig sig'. Sign ex_digest ex_curve (SchnPrivKey_Set ex_curve ex_gens 3 2) 4 1 (replicate 32 7) = Some sig
    \<and> length (SchnSignature_Bytes sig) = 96
    \<and> SchnSignature_SetBytes (SchnSignature_Bytes sig) = Inr sig'
    \<and> Verify ex_digest ex_curve (SchnPubKey_Set ex_gens (pk_PK (sk_PubKey (SchnPrivKey_Set ex_curve ex_gens 3 2)))) (Some sig')
        (replicate 32 7) = Inr True"
proof -
  have "cv_N ex_curve < 256 ^ BigIntSize" by (simp add: ex_curve_def BigIntSize_def)
  then show ?thesis
    using schnorr_sign_verify [OF ex_curve_group _ ex_gens_ok ex_digest32, of 3 2 4 1 "replicate 32 7"]
    by (simp add: HashSize_def)
qed

end
