(* ===== verification/Multi_Signature.thy ===== *)
theory Multi_Signature
  imports Schnorr
begin

text \<open>
  What the multi-signatures of \<open>src/privacy/schnorrmultisig.go\<close> (modelled in \<open>Schnorr\<close>) promise to the
  committees: the signatures of any part of a committee combine to one that verifies under the
  keys of that part; and what the challenge, which is not a hash, does not promise.
\<close>

section \<open>Keys and sums\<close>

definition sum_points :: "curve \<Rightarrow> point list \<Rightarrow> point \<Rightarrow> point" where
  "sum_points cv ps a = fold (\<lambda>p acc. Add cv acc p) ps a"

definition weighted_sum :: "(bytes \<Rightarrow> bytes) \<Rightarrow> curve \<Rightarrow> (int \<Rightarrow> int) \<Rightarrow> point \<Rightarrow> point list \<Rightarrow> point \<Rightarrow> point" where
  "weighted_sum sum256 cv reduce agg ps X =
     fold (\<lambda>p X. Add cv X (ScalarMult cv p (reduce (key_factor sum256 cv agg p)))) ps X"

lemma decompress_key_Compress:
  assumes "good_field cv" and "on_curve cv p"
  shows "decompress_key cv (Compress cv p) = Inr p"
proof -
  obtain x y where "p = (x, y)" by fastforce
  then show ?thesis using decompress_compress [OF assms(1)] assms(2) by (simp add: decompress_key_def andThen_def deref_def)
qed

lemma agg_keys_sum:
  "good_field cv \<Longrightarrow> list_all (on_curve cv) ps \<Longrightarrow> agg_keys cv (map (Compress cv) ps) a = Inr (sum_points cv ps a)"
  by (induction ps arbitrary: a) (simp_all add: decompress_key_Compress andThen_def sum_points_def)

lemma weigh_keys_sum:
  "good_field cv \<Longrightarrow> list_all (on_curve cv) ps \<Longrightarrow>
   weigh_keys sum256 cv reduce agg (map (Compress cv) ps) X = Inr (weighted_sum sum256 cv reduce agg ps X)"
  by (induction ps arbitrary: X) (simp_all add: decompress_key_Compress andThen_def weighted_sum_def)

lemma on_curve_pt: "on_curve cv p \<Longrightarrow> curve_pt cv p"
  by (simp add: curve_pt_def)

lemma ScalarMult_mod:
  assumes "curve_group cv" and "curve_pt cv p" and "0 \<le> n"
  shows "ScalarMult cv p (n mod cv_N cv) = ScalarMult cv p n"
proof -
  have "nat (n mod cv_N cv) = nat n mod nat (cv_N cv)"
    using assms(3) curve_group_N [OF assms(1)] by (simp add: nat_mod_distrib)
  then show ?thesis
    using assms curve_group_N [OF assms(1)] by (simp add: ScalarMult_times [OF assms(1,2)] times_mod)
qed

lemma ScalarMult_mod_times:
  "curve_group cv \<Longrightarrow> curve_pt cv p \<Longrightarrow> 0 \<le> n \<Longrightarrow> ScalarMult cv p (n mod cv_N cv) = times cv (nat n) p"
  by (simp only: ScalarMult_mod) (simp add: ScalarMult_times)

lemma key_factor_nonneg [simp]: "0 \<le> key_factor sum256 cv agg p"
  by (simp add: key_factor_def)

text \<open>Reducing the weights does not change the sum.\<close>

lemma weighted_sum_mod:
  "curve_group cv \<Longrightarrow> list_all (on_curve cv) ps \<Longrightarrow>
   weighted_sum sum256 cv (\<lambda>a. a mod cv_N cv) agg ps X = weighted_sum sum256 cv (\<lambda>a. a) agg ps X"
  by (induction ps arbitrary: X) (simp_all add: weighted_sum_def ScalarMult_mod on_curve_pt)

section \<open>The challenge\<close>

definition challenge :: "(bytes \<Rightarrow> bytes) \<Rightarrow> curve \<Rightarrow> point list \<Rightarrow> point \<Rightarrow> bytes \<Rightarrow> int" where
  "challenge sum256 cv ps R data =
     int (be_val (Compress cv (weighted_sum sum256 cv (\<lambda>a. a) (sum_points cv ps Zero) ps Zero) @ Compress cv R @ data)) mod cv_N cv"

lemma generateCommonParams_part:
  assumes "curve_group cv" and "good_field cv" and "list_all (on_curve cv) ps" and "list_all (on_curve cv) qs"
    and "length qs < length ps \<or> qs = ps"
  shows "generateCommonParams sum256 cv (map (Compress cv) ps) (map (Compress cv) qs) R data
    = Inr (sum_points cv ps Zero, challenge sum256 cv ps R data,
           weighted_sum sum256 cv (\<lambda>a. a) (sum_points cv ps Zero) qs Zero)"
  using assms(5)
  by (auto simp: generateCommonParams_def agg_keys_sum [OF assms(2,3)] weigh_keys_sum [OF assms(2,3)]
      weigh_keys_sum [OF assms(2,4)] andThen_def weighted_sum_mod [OF assms(1,3)] challenge_def Let_def)

lemma challenge_bounds: "curve_group cv \<Longrightarrow> 0 \<le> challenge sum256 cv ps R data"
  using curve_group_N [of cv] by (simp add: challenge_def)

section \<open>Signing\<close>

text \<open>A signer is the secret key, as bytes, and the nonce drawn for this signature.\<close>

definition signer_point :: "curve \<Rightarrow> bytes \<times> int \<Rightarrow> point" where
  "signer_point cv s = ScalarMult cv (base_point cv) (int (be_val (fst s)))"

definition signer_key :: "curve \<Rightarrow> bytes \<times> int \<Rightarrow> bytes" where
  "signer_key cv s = Compress cv (signer_point cv s)"

lemma signer_key_map: "map (signer_key cv) ss = map (Compress cv) (map (signer_point cv) ss)"
  by (simp add: signer_key_def)

definition signer_keyset :: "curve \<Rightarrow> bytes \<times> int \<Rightarrow> MultiSigKeyset" where
  "signer_keyset cv s = \<lparr>mk_priKey = fst s, mk_pubKey = signer_key cv s\<rparr>"

definition nonce_point :: "curve \<Rightarrow> bytes \<times> int \<Rightarrow> point" where
  "nonce_point cv s = ScalarMult cv (base_point cv) (snd s)"

definition signer_ok :: "curve \<Rightarrow> bytes \<times> int \<Rightarrow> bool" where
  "signer_ok cv s \<longleftrightarrow> 0 \<le> snd s \<and> on_curve cv (signer_point cv s) \<and> on_curve cv (nonce_point cv s)"

definition answer :: "(bytes \<Rightarrow> bytes) \<Rightarrow> curve \<Rightarrow> point \<Rightarrow> int \<Rightarrow> bytes \<times> int \<Rightarrow> int" where
  "answer sum256 cv agg C s =
     (((key_factor sum256 cv agg (signer_point cv s) mod cv_N cv) * C mod cv_N cv) * int (be_val (fst s)) mod cv_N cv + snd s) mod cv_N cv"

lemma SignMultiSig_answer:
  assumes "curve_group cv" and "good_field cv" and "cv_N cv < 256 ^ BigIntSize" and "list_all (on_curve cv) ps" and "signer_ok cv s"
  shows "SignMultiSig sum256 cv (signer_keyset cv s) data (map (Compress cv) ps) listR (snd s)
    = Inr \<lparr>ms_R = Some (nonce_point cv s),
        ms_S = Some (answer sum256 cv (sum_points cv ps Zero) (challenge sum256 cv ps (sum_points cv listR Zero) data) s)\<rparr>"
proof -
  have on: "on_curve cv (signer_point cv s)" "on_curve cv (nonce_point cv s)" using assms(5) by (simp_all add: signer_ok_def)
  have "scalar_ok (answer sum256 cv agg C s)" for agg C
    unfolding answer_def by (rule mod_N_scalar [OF assms(1,3)])
  then have "length (AddPaddingBigInt (answer sum256 cv agg C s) BigIntSize) = BigIntSize" for agg C
    using length_AddPaddingBigInt by (simp add: scalar_ok_def)
  moreover have "IsOnCurve cv (nonce_point cv s)" using on(2) by (simp add: on_curve_def)
  ultimately have len: "SchnMultiSig_Bytes cv \<lparr>ms_R = Some (nonce_point cv s), ms_S = Some (answer sum256 cv agg C s)\<rparr>
      = Inr (Compress cv (nonce_point cv s) @ AddPaddingBigInt (answer sum256 cv agg C s) BigIntSize)"
    "length (Compress cv (nonce_point cv s) @ AddPaddingBigInt (answer sum256 cv agg C s) BigIntSize) = BigIntSize + 33" for agg C
    using length_Compress [OF assms(2) on(2)] by (simp_all add: SchnMultiSig_Bytes_def andThen_def deref_def)
  show ?thesis
    using len generateCommonParams_part [OF assms(1,2,4,4), of sum256 "sum_points cv listR Zero" data]
    by (simp add: SignMultiSig_def Let_def sum_points_def [symmetric] andThen_def signer_keyset_def signer_key_def
        decompress_key_Compress [OF assms(2) on(1)] answer_def [symmetric] nonce_point_def [symmetric])
qed

text \<open>An answer is the nonce plus the challenge times the weighted secret.\<close>

lemma answer_point:
  assumes "curve_group cv" and "curve_pt cv (base_point cv)" and "0 \<le> C" and "0 \<le> snd s"
  shows "ScalarMult cv (base_point cv) (answer sum256 cv agg C s)
    = Curve_Add cv (ScalarMult cv (ScalarMult cv (signer_point cv s) (key_factor sum256 cv agg (signer_point cv s))) C) (nonce_point cv s)"
proof -
  let ?a = "key_factor sum256 cv agg (signer_point cv s)" and ?k = "int (be_val (fst s))" and ?N = "cv_N cv"
  note T = ScalarMult_times [OF assms(1)]
  have "answer sum256 cv agg C s = (C * (?a * ?k) + snd s) mod ?N"
    unfolding answer_def by (simp add: mod_add_left_eq mod_mult_left_eq mult.commute mult.left_commute)
      (metis (no_types, lifting) mod_add_left_eq mod_mult_right_eq mult.commute mult.left_commute)
  then have "ScalarMult cv (base_point cv) (answer sum256 cv agg C s) = times cv (nat (C * (?a * ?k) + snd s)) (base_point cv)"
    using ScalarMult_mod_times [OF assms(1,2), of "C * (?a * ?k) + snd s"] assms(3,4) by simp
  also have "nat (C * (?a * ?k) + snd s) = nat C * (nat ?a * nat ?k) + nat (snd s)"
    using assms(3,4) by (simp add: nat_add_distrib nat_mult_distrib)
  finally show ?thesis
    using assms(2-4) by (simp add: times_add [OF assms(1)] times_mult [OF assms(1)] curve_pt_times [OF assms(1)] T
        signer_point_def nonce_point_def)
qed

section \<open>Combining\<close>

text \<open>The verification equation is kept by every signature that is added.\<close>

lemma combine_step:
  assumes "curve_group cv" and "curve_pt cv (base_point cv)" and "0 \<le> C" and "0 \<le> snd s" and "0 \<le> S"
    and "curve_pt cv X" and "curve_pt cv R"
    and "ScalarMult cv (base_point cv) S = Curve_Add cv (ScalarMult cv X C) R"
  shows "ScalarMult cv (base_point cv) ((S + answer sum256 cv agg C s) mod cv_N cv)
    = Curve_Add cv (ScalarMult cv (Add cv X (ScalarMult cv (signer_point cv s) (key_factor sum256 cv agg (signer_point cv s)))) C)
        (Add cv R (nonce_point cv s))"
proof -
  let ?W = "ScalarMult cv (signer_point cv s) (key_factor sum256 cv agg (signer_point cv s))" and ?n = "nonce_point cv s"
  note T = ScalarMult_times [OF assms(1)]
  have pts: "curve_pt cv ?W" "curve_pt cv ?n" "curve_pt cv (ScalarMult cv X C)" "curve_pt cv (ScalarMult cv ?W C)"
    using assms(1,2,6) by (auto simp: signer_point_def nonce_point_def)
  have ans: "0 \<le> answer sum256 cv agg C s" using curve_group_N [OF assms(1)] by (simp add: answer_def)
  have "ScalarMult cv (base_point cv) ((S + answer sum256 cv agg C s) mod cv_N cv)
    = Curve_Add cv (ScalarMult cv (base_point cv) S) (ScalarMult cv (base_point cv) (answer sum256 cv agg C s))"
    using ScalarMult_mod_times [OF assms(1,2), of "S + answer sum256 cv agg C s"] assms(2,5) ans
    by (simp add: T [OF assms(2)] nat_add_distrib times_add [OF assms(1)])
  also have "\<dots> = Curve_Add cv (Curve_Add cv (ScalarMult cv X C) R) (Curve_Add cv (ScalarMult cv ?W C) ?n)"
    using assms(8) answer_point [OF assms(1-4)] by simp
  also have "\<dots> = Curve_Add cv (Curve_Add cv (ScalarMult cv X C) (ScalarMult cv ?W C)) (Curve_Add cv R ?n)"
    using pts assms(1,7) by (simp add: Curve_Add_assoc Curve_Add_left_commute [of cv R] curve_pt_Add)
  also have "Curve_Add cv (ScalarMult cv X C) (ScalarMult cv ?W C) = ScalarMult cv (Add cv X ?W) C"
    using assms(6) pts(1) by (simp add: Add_def T times_Add [OF assms(1)] curve_pt_Add [OF assms(1)])
  finally show ?thesis by (simp add: Add_def)
qed

definition signed :: "(bytes \<Rightarrow> bytes) \<Rightarrow> curve \<Rightarrow> point \<Rightarrow> int \<Rightarrow> bytes \<times> int \<Rightarrow> SchnMultiSig" where
  "signed sum256 cv agg C s = \<lparr>ms_R = Some (nonce_point cv s), ms_S = Some (answer sum256 cv agg C s)\<rparr>"

lemma combine_loop_equation:
  assumes "curve_group cv" and "curve_pt cv (base_point cv)" and "0 \<le> C"
  shows "list_all (signer_ok cv) ss \<Longrightarrow> 0 \<le> S \<Longrightarrow> S < cv_N cv \<Longrightarrow> curve_pt cv X \<Longrightarrow> curve_pt cv R
    \<Longrightarrow> ScalarMult cv (base_point cv) S = Curve_Add cv (ScalarMult cv X C) R
    \<Longrightarrow> \<exists>S'. combine_loop cv (map (signed sum256 cv agg C) ss) R S
            = Inr \<lparr>ms_R = Some (sum_points cv (map (nonce_point cv) ss) R), ms_S = Some S'\<rparr>
          \<and> 0 \<le> S' \<and> S' < cv_N cv
          \<and> ScalarMult cv (base_point cv) S'
            = Curve_Add cv (ScalarMult cv (weighted_sum sum256 cv (\<lambda>a. a) agg (map (signer_point cv) ss) X) C)
                (sum_points cv (map (nonce_point cv) ss) R)"
proof (induction ss arbitrary: S X R)
  case (Cons s ss)
  let ?S = "(S + answer sum256 cv agg C s) mod cv_N cv" and ?R = "Add cv R (nonce_point cv s)"
  let ?X = "Add cv X (ScalarMult cv (signer_point cv s) (key_factor sum256 cv agg (signer_point cv s)))"
  have s: "signer_ok cv s" "0 \<le> snd s" using Cons.prems(1) by (simp_all add: signer_ok_def)
  have on: "curve_pt cv (signer_point cv s)" "curve_pt cv (nonce_point cv s)" using s(1) by (simp_all add: signer_ok_def on_curve_pt)
  have pts: "curve_pt cv ?X" "curve_pt cv ?R"
    unfolding Add_def by (intro curve_pt_Add curve_pt_ScalarMult assms(1) Cons.prems on)+
  have eq: "ScalarMult cv (base_point cv) ?S = Curve_Add cv (ScalarMult cv ?X C) ?R"
    by (rule combine_step [OF assms s(2) Cons.prems(2,4,5,6)])
  have b: "0 \<le> ?S" "?S < cv_N cv" using curve_group_N [OF assms(1)] by simp_all
  have "list_all (signer_ok cv) ss" using Cons.prems(1) by simp
  from Cons.IH [OF this b pts eq] show ?case
    by (simp add: signed_def andThen_def deref_def sum_points_def weighted_sum_def)
qed (simp add: sum_points_def weighted_sum_def)

text \<open>Signing and combining succeed, and the result verifies.\<close>

lemma combined_verifies:
  assumes G: "curve_group cv" "good_field cv" "cv_N cv < 256 ^ BigIntSize" "curve_pt cv (base_point cv)"
    and ps: "list_all (on_curve cv) ps" and ss: "list_all (signer_ok cv) ss"
    and part: "length ss < length ps \<or> map (signer_point cv) ss = ps"
    and on: "on_curve cv (sum_points cv (map (nonce_point cv) ss) Zero)"
  shows "\<exists>S. CombineMultiSig cv (map (signed sum256 cv (sum_points cv ps Zero) (challenge sum256 cv ps R data)) ss)
        = Inr \<lparr>ms_R = Some (sum_points cv (map (nonce_point cv) ss) Zero), ms_S = Some S\<rparr>
      \<and> scalar_ok S
      \<and> VerifyMultiSig sum256 cv \<lparr>ms_R = Some (sum_points cv (map (nonce_point cv) ss) Zero), ms_S = Some S\<rparr> data
          (map (Compress cv) ps) (map (signer_key cv) ss) R = Inr True"
proof -
  let ?R = "sum_points cv (map (nonce_point cv) ss) Zero" and ?C = "challenge sum256 cv ps R data" and ?agg = "sum_points cv ps Zero"
  let ?X = "weighted_sum sum256 cv (\<lambda>a. a) ?agg (map (signer_point cv) ss) Zero"
  have "ScalarMult cv (base_point cv) 0 = Curve_Add cv (ScalarMult cv Zero ?C) Zero"
    by (simp add: ScalarMult_times [OF G(1)] G(4))
  from combine_loop_equation [OF G(1,4) challenge_bounds [OF G(1)] ss order_refl curve_group_N [OF G(1)] curve_pt_Zero curve_pt_Zero this]
  obtain S where S: "CombineMultiSig cv (map (signed sum256 cv ?agg ?C) ss) = Inr \<lparr>ms_R = Some ?R, ms_S = Some S\<rparr>"
    "0 \<le> S" "S < cv_N cv" "ScalarMult cv (base_point cv) S = Curve_Add cv (ScalarMult cv ?X ?C) ?R"
    unfolding CombineMultiSig_def by blast
  have ok: "scalar_ok S" using S(2,3) G(3) by (simp add: scalar_ok_def)
  then have "length (AddPaddingBigInt S BigIntSize) = BigIntSize" using length_AddPaddingBigInt by (simp add: scalar_ok_def)
  moreover have "IsOnCurve cv ?R" using on by (simp add: on_curve_def)
  ultimately have bytes: "SchnMultiSig_Bytes cv \<lparr>ms_R = Some ?R, ms_S = Some S\<rparr> = Inr (Compress cv ?R @ AddPaddingBigInt S BigIntSize)"
    "length (Compress cv ?R @ AddPaddingBigInt S BigIntSize) = BigIntSize + 33"
    using length_Compress [OF G(2) on] by (simp_all add: SchnMultiSig_Bytes_def andThen_def deref_def)
  have "list_all (on_curve cv) (map (signer_point cv) ss)" using ss by (simp add: list_all_iff signer_ok_def)
  then have "generateCommonParams sum256 cv (map (Compress cv) ps) (map (signer_key cv) ss) R data = Inr (?agg, ?C, ?X)"
    using generateCommonParams_part [OF G(1,2) ps, of "map (signer_point cv) ss" sum256 R data] part
    by (simp add: signer_key_map)
  then have "VerifyMultiSig sum256 cv \<lparr>ms_R = Some ?R, ms_S = Some S\<rparr> data (map (Compress cv) ps) (map (signer_key cv) ss) R = Inr True"
    using bytes S(4) by (simp add: VerifyMultiSig_def andThen_def deref_def IsEqual_def Add_def)
  then show ?thesis using S(1) ok by blast
qed

text \<open>The bytes of a multi-signature are read back.\<close>

lemma SchnMultiSig_roundtrip:
  assumes "good_field cv" and "on_curve cv R" and "scalar_ok S"
  shows "\<exists>bs. SchnMultiSig_Bytes cv \<lparr>ms_R = Some R, ms_S = Some S\<rparr> = Inr bs \<and> length bs = 65
    \<and> SchnMultiSig_SetBytes cv bs = Inr (\<lparr>ms_R = Some R, ms_S = Some S\<rparr>, True)"
proof -
  obtain x y where R: "R = (x, y)" by fastforce
  have len: "length (AddPaddingBigInt S BigIntSize) = BigIntSize" "int (be_val (AddPaddingBigInt S BigIntSize)) = S"
    using assms(3) length_AddPaddingBigInt by (simp_all add: scalar_ok_def be_val_AddPaddingBigInt)
  have "IsOnCurve cv R" using assms(2) by (simp add: on_curve_def)
  then show ?thesis
    using len length_Compress [OF assms(1,2)] decompress_compress [OF assms(1), of x y] assms(2)
    by (simp add: SchnMultiSig_Bytes_def SchnMultiSig_SetBytes_def andThen_def deref_def R BigIntSize_def)
qed

lemma Sign_all:
  assumes "curve_group cv" and "good_field cv" and "cv_N cv < 256 ^ BigIntSize" and "list_all (on_curve cv) ps" and "list_all (signer_ok cv) ss"
  shows "map (\<lambda>s. SignMultiSig sum256 cv (signer_keyset cv s) data (map (Compress cv) ps) listR (snd s)) ss
    = map Inr (map (signed sum256 cv (sum_points cv ps Zero) (challenge sum256 cv ps (sum_points cv listR Zero) data)) ss)"
  using SignMultiSig_answer [OF assms(1-4)] assms(5) by (simp add: list_all_iff signed_def)

section \<open>Properties\<close>

text \<open>multi-signatures of a committee verify. Take the keys of a committee, any part of its members (or
  all of them, in the order of the keys) with their nonces, and any list of nonce points announced for
  the combined \<open>R\<close>. Every member of the part can sign, the signatures combine, and \<open>VerifyMultiSig\<close> accepts
  the combination under the keys of the committee and of the part, unless the nonces of the part add up
  to the point at infinity.
\<close>

theorem multisig_complete:
  assumes "curve_group cv" and "good_field cv" and "cv_N cv < 256 ^ BigIntSize" and "curve_pt cv (base_point cv)"
    and "list_all (on_curve cv) ps" and "list_all (signer_ok cv) ss"
    and "length ss < length ps \<or> map (signer_point cv) ss = ps"
    and "on_curve cv (sum_points cv (map (nonce_point cv) ss) Zero)"
  shows "\<exists>sigs m. map (\<lambda>s. SignMultiSig sum256 cv (signer_keyset cv s) data (map (Compress cv) ps) listR (snd s)) ss = map Inr sigs
    \<and> CombineMultiSig cv sigs = Inr m
    \<and> VerifyMultiSig sum256 cv m data (map (Compress cv) ps) (map (signer_key cv) ss) (sum_points cv listR Zero) = Inr True"
  using Sign_all [OF assms(1-3,5,6)] combined_verifies [OF assms, of sum256 "sum_points cv listR Zero" data] by metis

text \<open>Three keys on the small curve; the first two members sign.\<close>

definition ex_committee :: "point list" where
  "ex_committee = [(0, 1), (4, 5), (4, 2)]"

definition ex_signers :: "(bytes \<times> int) list" where
  "ex_signers = [([1], 1), ([2], 1)]"

lemma ex_base_pt: "curve_pt ex_curve (base_point ex_curve)"
proof -
  have "base_point ex_curve = (0, 1)" by (simp add: base_point_def ex_curve_def)
  then show ?thesis by (simp add: curve_pt_def ex_on_curve ex_points_def)
qed

lemma ex_order: "cv_N ex_curve < 256 ^ BigIntSize"
  by (simp add: ex_curve_def BigIntSize_def)

lemma ex_signers_ok: "list_all (signer_ok ex_curve) ex_signers"
proof -
  have "list_all (\<lambda>s. 0 \<le> snd s \<and> signer_point ex_curve s \<in> set ex_points \<and> nonce_point ex_curve s \<in> set ex_points) ex_signers"
    by code_simp
  then show ?thesis unfolding list_all_iff signer_ok_def ex_on_curve .
qed

lemma ex_nonce_sum: "on_curve ex_curve (sum_points ex_curve (map (nonce_point ex_curve) ex_signers) Zero)"
proof -
  have "sum_points ex_curve (map (nonce_point ex_curve) ex_signers) Zero \<in> set ex_points" by code_simp
  then show ?thesis by (simp add: ex_on_curve)
qed

lemma ex_committee_ok: "list_all (on_curve ex_curve) ex_committee"
  by (simp add: ex_committee_def ex_on_curve ex_points_def)

theorem multisig_complete_witness:
  "\<exists>sigs m. map (\<lambda>s. SignMultiSig ex_digest ex_curve (signer_keyset ex_curve s) [9] (map (Compress ex_curve) ex_committee) [(0, 1)] (snd s)) ex_signers = map Inr sigs
    \<and> CombineMultiSig ex_curve sigs = Inr m
    \<and> VerifyMultiSig ex_digest ex_curve m [9] (map (Compress ex_curve) ex_committee) (map (signer_key ex_curve) ex_signers)
        (sum_points ex_curve [(0, 1)] Zero) = Inr True"
proof -
  have "length ex_signers < length ex_committee" by (simp add: ex_signers_def ex_committee_def)
  then show ?thesis
    using multisig_complete [OF ex_curve_group ex_good_field ex_order ex_base_pt ex_committee_ok ex_signers_ok _ ex_nonce_sum] by blast
qed

text \<open>the challenge of a multi-signature is not a hash. \<open>generateCommonParams\<close> reads the concatenation of the key, the
  nonce and the message as a number modulo the order, where the comments promise \<open>Hash(X||r||data)\<close>. So
  two messages of the same length that are equal modulo the order have the same valid signatures, for
  all keys and nonces.
\<close>

theorem multisig_message_collision:
  assumes "length data = length data'" and "int (be_val data) mod cv_N cv = int (be_val data') mod cv_N cv"
  shows "VerifyMultiSig sum256 cv m data ks ks' R = VerifyMultiSig sum256 cv m data' ks ks' R"
proof -
  have eq: "int (be_val (a @ b @ data)) mod cv_N cv = int (be_val (a @ b @ data')) mod cv_N cv" for a b
    using assms by (simp add: be_val_append) (metis mod_add_right_eq)
  have "generateCommonParams sum256 cv ks ks' R data = generateCommonParams sum256 cv ks ks' R data'"
    unfolding generateCommonParams_def Let_def by (simp only: eq)
  then show ?thesis by (simp only: VerifyMultiSig_def)
qed

definition ex_multisig :: SchnMultiSig where
  "ex_multisig = \<lparr>ms_R = Some (4, 5), ms_S = Some 3\<rparr>"

theorem multisig_message_collision_witness:
  "VerifyMultiSig ex_digest ex_curve ex_multisig [1] [] [] (0, 1) = VerifyMultiSig ex_digest ex_curve ex_multisig [6] [] [] (0, 1)"
  using multisig_message_collision [of "[1]" "[6]" ex_curve ex_digest ex_multisig "[]" "[]" "(0, 1)"]
  by (simp add: ex_curve_def be_val_Cons)

end
