(* ===== verification/Agg_Signature.thy ===== *)
theory Agg_Signature
  imports Beacon_State Multi_Signature
begin

text \<open>
  \<open>ValidateAggSignature\<close> (\<open>src/blockchain/multisigs.go\<close>), by which blocks of both chains are accepted: the keys
  of the committee are read from their text, then the multi-signature over the block hash is
  checked by the model of \<open>src/privacy\<close> in \<open>Schnorr\<close>.
\<close>

section \<open>The code\<close>

text \<open>
  The result of \<open>SchnMultiSig.SetBytes\<close> is ignored, so \<open>VerifyMultiSig\<close> also runs on a signature that was
  only partly read.
\<close>

definition verify_agg ::
  "(bytes \<Rightarrow> bytes) \<Rightarrow> curve \<Rightarrow> bytes \<Rightarrow> bytes \<Rightarrow> bytes list \<Rightarrow> bytes list \<Rightarrow> point \<Rightarrow> fault + bool" where
  "verify_agg sum256 cv sigBytes data pubKeysR pubKeysAggSig RCombined =
     andThen (SchnMultiSig_SetBytes cv sigBytes) (\<lambda>(m, _). VerifyMultiSig sum256 cv m data pubKeysR pubKeysAggSig RCombined)"

text \<open>
  The line \<open>if err != nil || byteVersion != 0 { return err }\<close> returns nil, that is acceptance, when only
  the version byte is wrong.
\<close>

definition ValidateAggSignature ::
  "(bytes \<Rightarrow> bytes) \<Rightarrow> curve \<Rightarrow> nat list list \<Rightarrow> string list \<Rightarrow> string \<Rightarrow> string \<Rightarrow> hash \<Rightarrow> fault + agg_error option" where
  "ValidateAggSignature sum256 cv validatorIdx committees aggSig R blockHash =
     andThen (index validatorIdx 0) (\<lambda>idxR.
     andThen (committee_keys sum256 committees idxR) (\<lambda>kR.
       case kR of None \<Rightarrow> Inr (Some PublicKeyError)
       | Some pubKeysR \<Rightarrow>
     andThen (index validatorIdx 1) (\<lambda>idxA.
     andThen (committee_keys sum256 committees idxA) (\<lambda>kA.
       case kA of None \<Rightarrow> Inr (Some PublicKeyError)
       | Some pubKeysAggSig \<Rightarrow>
     (case Base58Check_Decode sum256 R of
        Inl e \<Rightarrow> Inr (Some (RError e))
      | Inr (Rbytes, byteVersion) \<Rightarrow>
          if byteVersion \<noteq> 0 then Inr None
          else (case Decompress cv Rbytes of
                  Inl (Panic f) \<Rightarrow> Inl f
                | Inl ReadErr \<Rightarrow> Inr (Some DecompressError)
                | Inr RCombined \<Rightarrow>
                    (case Base58Check_Decode sum256 aggSig of
                       Inl e \<Rightarrow> Inr (Some AggSigError)
                     | Inr (sig, _) \<Rightarrow>
                         andThen (verify_agg sum256 cv sig (Hash_GetBytes blockHash) pubKeysR pubKeysAggSig RCombined) (\<lambda>ok.
                           if ok then Inr None else Inr (Some InvalidAggSignature)))))))))"

section \<open>Facts\<close>

lemma ValidateAggSignature_verified:
  assumes "committee_keys sum256 committees idxR = Inr (Some kR)" and "committee_keys sum256 committees idxA = Inr (Some kA)"
    and "Base58Check_Decode sum256 R = Inr (rb, 0)" and "Decompress cv rb = Inr pt" and "Base58Check_Decode sum256 aggSig = Inr (sg, v)"
  shows "ValidateAggSignature sum256 cv (idxR # idxA # rest) committees aggSig R blockHash
    = andThen (verify_agg sum256 cv sg (Hash_GetBytes blockHash) kR kA pt) (\<lambda>ok. if ok then Inr None else Inr (Some InvalidAggSignature))"
  using assms by (simp add: ValidateAggSignature_def andThen_def index_def)

lemma signed_block_accepted:
  assumes "curve_group cv" and "good_field cv" and "cv_N cv < 256 ^ BigIntSize" and "curve_pt cv (base_point cv)" and "digest32 sum256"
    and "list_all (on_curve cv) ps" and "list_all (signer_ok cv) ss"
    and "length ss < length ps \<or> map (signer_point cv) ss = ps"
    and "on_curve cv (sum_points cv (map (nonce_point cv) ss) Zero)" and "on_curve cv (sum_points cv listR Zero)"
    and "committee_keys sum256 committees idxR = Inr (Some (map (Compress cv) ps))"
    and "committee_keys sum256 committees idxA = Inr (Some (map (signer_key cv) ss))"
  shows "\<exists>sigs m bs. map (\<lambda>s. SignMultiSig sum256 cv (signer_keyset cv s) (Hash_GetBytes blockHash) (map (Compress cv) ps) listR (snd s)) ss = map Inr sigs
    \<and> CombineMultiSig cv sigs = Inr m \<and> SchnMultiSig_Bytes cv m = Inr bs
    \<and> ValidateAggSignature sum256 cv [idxR, idxA] committees (b58check_text sum256 bs v)
        (b58check_text sum256 (Compress cv (sum_points cv listR Zero)) 0) blockHash = Inr None"
proof -
  let ?R = "sum_points cv listR Zero" and ?n = "sum_points cv (map (nonce_point cv) ss) Zero"
  obtain S where S: "CombineMultiSig cv (map (signed sum256 cv (sum_points cv ps Zero) (challenge sum256 cv ps ?R (Hash_GetBytes blockHash))) ss)
      = Inr \<lparr>ms_R = Some ?n, ms_S = Some S\<rparr>" "scalar_ok S"
    "VerifyMultiSig sum256 cv \<lparr>ms_R = Some ?n, ms_S = Some S\<rparr> (Hash_GetBytes blockHash) (map (Compress cv) ps) (map (signer_key cv) ss) ?R = Inr True"
    using combined_verifies [OF assms(1-4,6-9)] by blast
  obtain bs where bs: "SchnMultiSig_Bytes cv \<lparr>ms_R = Some ?n, ms_S = Some S\<rparr> = Inr bs"
    "SchnMultiSig_SetBytes cv bs = Inr (\<lparr>ms_R = Some ?n, ms_S = Some S\<rparr>, True)"
    using SchnMultiSig_roundtrip [OF assms(2,9) S(2)] by blast
  have "Decompress cv (Compress cv ?R) = Inr ?R"
    using decompress_compress [OF assms(2), of "fst ?R" "snd ?R"] assms(10) by (simp add: Decompress_def)
  then have "ValidateAggSignature sum256 cv [idxR, idxA] committees (b58check_text sum256 bs v)
        (b58check_text sum256 (Compress cv ?R) 0) blockHash = Inr None"
    using ValidateAggSignature_verified [OF assms(11,12) Base58Check_Decode_text [OF assms(5)] _ Base58Check_Decode_text [OF assms(5)]]
      bs(2) S(3) by (simp add: verify_agg_def andThen_def)
  then show ?thesis using Sign_all [OF assms(1-3,6,7)] S(1) bs(1) by metis
qed

definition ex_committee_text :: "string list" where
  "ex_committee_text = map (\<lambda>p. b58check_text ex_digest (Compress ex_curve p) 0) ex_committee"

lemma committee_keys_text:
  assumes "digest32 sum256"
  shows "list_all (\<lambda>i. i < length ks) is \<Longrightarrow>
    committee_keys sum256 (map (\<lambda>k. b58check_text sum256 k 0) ks) is = Inr (Some (map (\<lambda>i. ks ! i) is))"
  by (induction "is") (simp_all add: index_def andThen_def Base58Check_Decode_text [OF assms])

lemma ex_keys:
  "committee_keys ex_digest ex_committee_text [0, 1, 2] = Inr (Some (map (Compress ex_curve) ex_committee))"
  "committee_keys ex_digest ex_committee_text [0, 1] = Inr (Some (map (signer_key ex_curve) ex_signers))"
proof -
  let ?ks = "map (Compress ex_curve) ex_committee"
  have txt_eq: "ex_committee_text = map (\<lambda>k. b58check_text ex_digest k 0) ?ks" by (simp add: ex_committee_text_def)
  have keys: "map (\<lambda>i. ?ks ! i) [0, 1, 2] = ?ks" "map (\<lambda>i. ?ks ! i) [0, 1] = map (signer_key ex_curve) ex_signers"
    by code_simp+
  have "list_all (\<lambda>i. i < length ?ks) [0, 1, 2]" by (simp add: ex_committee_def)
  from committee_keys_text [OF ex_digest32 this] show "committee_keys ex_digest ex_committee_text [0, 1, 2] = Inr (Some ?ks)"
    unfolding txt_eq keys(1) .
  have "list_all (\<lambda>i. i < length ?ks) [0, 1]" by (simp add: ex_committee_def)
  from committee_keys_text [OF ex_digest32 this]
  show "committee_keys ex_digest ex_committee_text [0, 1] = Inr (Some (map (signer_key ex_curve) ex_signers))"
    unfolding txt_eq keys(2) .
qed

definition ex_R :: point where
  "ex_R = sum_points ex_curve [(0, 1)] Zero"

lemma ex_R_on: "on_curve ex_curve (sum_points ex_curve [(0, 1)] Zero)"
proof -
  have "sum_points ex_curve [(0, 1)] Zero \<in> set ex_points" by code_simp
  then show ?thesis by (simp add: ex_on_curve)
qed

lemma ex_part: "length ex_signers < length ex_committee \<or> map (signer_point ex_curve) ex_signers = ex_committee"
  by (simp add: ex_signers_def ex_committee_def)

lemmas ex_setting = ex_curve_group ex_good_field ex_order ex_base_pt ex_digest32 ex_committee_ok ex_signers_ok
  ex_part ex_nonce_sum ex_R_on ex_keys

lemma ex_accepted:
  "\<exists>bs. ValidateAggSignature ex_digest ex_curve [[0, 1, 2], [0, 1]] ex_committee_text (b58check_text ex_digest bs 0)
     (b58check_text ex_digest (Compress ex_curve ex_R) 0) zero_hash = Inr None"
  using signed_block_accepted [OF ex_setting, of zero_hash 0] unfolding ex_R_def by blast

section \<open>Properties\<close>

text \<open>a block signed by members of the committee is accepted. If the members in \<open>idxA\<close> sign the block hash
  with \<open>SignMultiSig\<close> for the committee members in \<open>idxR\<close> (of which they are a proper part, or all), the signatures are
  combined, and the combined signature and \<open>R\<close> are written in base58check with version zero, then
  \<open>ValidateAggSignature\<close> accepts the block.
\<close>

theorem committee_signature_accepted:
  assumes "curve_group cv" and "good_field cv" and "cv_N cv < 256 ^ BigIntSize" and "curve_pt cv (base_point cv)" and "digest32 sum256"
    and "list_all (on_curve cv) ps" and "list_all (signer_ok cv) ss"
    and "length ss < length ps \<or> map (signer_point cv) ss = ps"
    and "on_curve cv (sum_points cv (map (nonce_point cv) ss) Zero)" and "on_curve cv (sum_points cv listR Zero)"
    and "committee_keys sum256 committees idxR = Inr (Some (map (Compress cv) ps))"
    and "committee_keys sum256 committees idxA = Inr (Some (map (signer_key cv) ss))"
  shows "\<exists>sigs m bs. map (\<lambda>s. SignMultiSig sum256 cv (signer_keyset cv s) (Hash_GetBytes blockHash) (map (Compress cv) ps) listR (snd s)) ss = map Inr sigs
    \<and> CombineMultiSig cv sigs = Inr m \<and> SchnMultiSig_Bytes cv m = Inr bs
    \<and> ValidateAggSignature sum256 cv [idxR, idxA] committees (b58check_text sum256 bs v)
        (b58check_text sum256 (Compress cv (sum_points cv listR Zero)) 0) blockHash = Inr None"
  by (rule signed_block_accepted [OF assms])

theorem committee_signature_accepted_witness:
  "\<exists>sigs m bs. map (\<lambda>s. SignMultiSig ex_digest ex_curve (signer_keyset ex_curve s) (Hash_GetBytes zero_hash) (map (Compress ex_curve) ex_committee) [(0, 1)] (snd s)) ex_signers = map Inr sigs
    \<and> CombineMultiSig ex_curve sigs = Inr m \<and> SchnMultiSig_Bytes ex_curve m = Inr bs
    \<and> ValidateAggSignature ex_digest ex_curve [[0, 1, 2], [0, 1]] ex_committee_text (b58check_text ex_digest bs 0)
        (b58check_text ex_digest (Compress ex_curve (sum_points ex_curve [(0, 1)] Zero)) 0) zero_hash = Inr None"
  by (rule committee_signature_accepted [OF ex_setting])

text \<open>
  a non-zero version byte in front of the combined commitment \<open>R\<close> makes \<open>ValidateAggSignature\<close>
  accept the block without looking at the aggregated signature.
\<close>

theorem ValidateAggSignature_version_bypass:
  assumes "Base58Check_Decode sum256 R = Inr (rb, v)" and "v \<noteq> 0"
    and "committee_keys sum256 committees idxR = Inr (Some kR)"
    and "committee_keys sum256 committees idxA = Inr (Some kA)"
  shows "ValidateAggSignature sum256 cv (idxR # idxA # rest) committees aggSig R blockHash = Inr None"
  using assms by (simp add: ValidateAggSignature_def andThen_def index_def)

theorem ValidateAggSignature_version_bypass_witness:
  "ValidateAggSignature ex_digest ex_curve [[], []] [] ''bad'' (b58check_text ex_digest [] 1) zero_hash = Inr None"
  using ValidateAggSignature_version_bypass [where ?sum256.0 = ex_digest and R = "b58check_text ex_digest [] 1" and rb = "[]" and v = 1
      and committees = "[]" and idxR = "[]" and idxA = "[]" and kR = "[]" and kA = "[]"]
  by (simp add: Base58Check_Decode_text [OF ex_digest32])

text \<open>C25: with the version byte zero, acceptance means that the signature equation holds: the point \<open>S * G\<close> of the
  signature is the challenge times the weighted sum of the listed keys plus the nonce point of the signature.
\<close>

theorem ValidateAggSignature_sound:
  assumes "ValidateAggSignature sum256 cv (idxR # idxA # rest) committees aggSig R blockHash = Inr None"
    and "Base58Check_Decode sum256 R = Inr (rb, 0)"
  shows "\<exists>kR kA pt sg v m ok Rp S agg C X. committee_keys sum256 committees idxR = Inr (Some kR)
    \<and> committee_keys sum256 committees idxA = Inr (Some kA) \<and> Decompress cv rb = Inr pt
    \<and> Base58Check_Decode sum256 aggSig = Inr (sg, v) \<and> SchnMultiSig_SetBytes cv sg = Inr (m, ok)
    \<and> ms_R m = Some Rp \<and> ms_S m = Some S
    \<and> generateCommonParams sum256 cv kR kA pt blockHash = Inr (agg, C, X)
    \<and> ScalarMult cv (base_point cv) S = Add cv (ScalarMult cv X C) Rp"
proof -
  have "\<exists>kR kA pt sg v. committee_keys sum256 committees idxR = Inr (Some kR)
    \<and> committee_keys sum256 committees idxA = Inr (Some kA) \<and> Decompress cv rb = Inr pt
    \<and> Base58Check_Decode sum256 aggSig = Inr (sg, v) \<and> verify_agg sum256 cv sg blockHash kR kA pt = Inr True"
    using assms
    by (cases "committee_keys sum256 committees idxR"; cases "committee_keys sum256 committees idxA";
        cases "Base58Check_Decode sum256 aggSig")
      (auto simp: ValidateAggSignature_def andThen_def index_def Hash_GetBytes_def split: option.splits if_splits sum.splits read_failure.splits)
  moreover have "\<exists>m ok Rp S agg C X. SchnMultiSig_SetBytes cv sg = Inr (m, ok) \<and> ms_R m = Some Rp \<and> ms_S m = Some S
      \<and> generateCommonParams sum256 cv kR kA pt blockHash = Inr (agg, C, X)
      \<and> ScalarMult cv (base_point cv) S = Add cv (ScalarMult cv X C) Rp"
    if "verify_agg sum256 cv sg blockHash kR kA pt = Inr True" for sg kR kA pt
    using that by (auto simp: verify_agg_def VerifyMultiSig_def andThen_Inr_iff IsEqual_def prod_eq_iff split: if_splits)
  ultimately show ?thesis by metis
qed

lemma ex_decompress: "Decompress ex_curve (Compress ex_curve (4, 5)) = Inr (4, 5)"
  using decompress_compress [OF ex_good_field, of 4 5] by (simp add: Decompress_def ex_on_curve ex_points_def)

theorem ValidateAggSignature_sound_witness:
  "\<exists>bs kR kA pt sg v m ok Rp S agg C X. committee_keys ex_digest ex_committee_text [0, 1, 2] = Inr (Some kR)
    \<and> committee_keys ex_digest ex_committee_text [0, 1] = Inr (Some kA) \<and> Decompress ex_curve (Compress ex_curve ex_R) = Inr pt
    \<and> Base58Check_Decode ex_digest (b58check_text ex_digest bs 0) = Inr (sg, v) \<and> SchnMultiSig_SetBytes ex_curve sg = Inr (m, ok)
    \<and> ms_R m = Some Rp \<and> ms_S m = Some S
    \<and> generateCommonParams ex_digest ex_curve kR kA pt zero_hash = Inr (agg, C, X)
    \<and> ScalarMult ex_curve (base_point ex_curve) S = Add ex_curve (ScalarMult ex_curve X C) Rp"
proof -
  obtain bs where "ValidateAggSignature ex_digest ex_curve [[0, 1, 2], [0, 1]] ex_committee_text (b58check_text ex_digest bs 0)
     (b58check_text ex_digest (Compress ex_curve ex_R) 0) zero_hash = Inr None"
    using ex_accepted ..
  from ValidateAggSignature_sound [OF this Base58Check_Decode_text [OF ex_digest32]] show ?thesis by blast
qed

text \<open>
  an aggregated signature shorter than 65 bytes stops the node. \<open>SetBytes\<close> reports the error, the caller ignores it
  and \<open>VerifyMultiSig\<close> dereferences the point that was never set.
\<close>

theorem ValidateAggSignature_short_panics:
  assumes "committee_keys sum256 committees idxR = Inr (Some kR)" and "committee_keys sum256 committees idxA = Inr (Some kA)"
    and "Base58Check_Decode sum256 R = Inr (rb, 0)" and "Decompress cv rb = Inr pt"
    and "Base58Check_Decode sum256 aggSig = Inr (sg, v)" and "length sg < 65"
  shows "ValidateAggSignature sum256 cv (idxR # idxA # rest) committees aggSig R blockHash = Inl NilDereference"
  using assms(6) unfolding ValidateAggSignature_verified [OF assms(1-5)]
  by (simp add: verify_agg_def SchnMultiSig_SetBytes_def BigIntSize_def andThen_def VerifyMultiSig_def SchnMultiSig_Bytes_def
      new_SchnMultiSig_def deref_def)

theorem ValidateAggSignature_short_panics_witness:
  "ValidateAggSignature ex_digest ex_curve [[], []] [] (b58check_text ex_digest [] 0)
    (b58check_text ex_digest (Compress ex_curve (4, 5)) 0) zero_hash = Inl NilDereference"
  using ValidateAggSignature_short_panics [where ?sum256.0 = ex_digest and committees = "[]" and idxR = "[]" and idxA = "[]" and kR = "[]" and kA = "[]"
      and R = "b58check_text ex_digest (Compress ex_curve (4, 5)) 0" and rb = "Compress ex_curve (4, 5)" and cv = ex_curve and pt = "(4, 5)"
      and aggSig = "b58check_text ex_digest [] 0" and sg = "[]" and v = 0 and rest = "[]" and blockHash = zero_hash]
  by (simp add: Base58Check_Decode_text [OF ex_digest32] ex_decompress)

end
