(* ===== verification/Key_Set.thy ===== *)
theory Key_Set
  imports Schnorr Block_Types Base58_Codec
begin

text \<open>
  Keys of an account: \<open>src/privacy/key.go\<close> derives public, receiving and transmission keys from a
  spending key, \<open>src/cashec\<close> keeps them as a key set and signs texts with it. A hash is drawn again
  while it exceeds the order of the curve; such a loop is \<open>None\<close> while it does not end. The nonce of a
  signature is an argument.
\<close>

section \<open>Keys\<close>

partial_function (option) scalar_loop :: "(bytes \<Rightarrow> bytes) \<Rightarrow> curve \<Rightarrow> bytes \<Rightarrow> bytes option" where
  "scalar_loop sum256 cv k =
     (if int (be_val k) > cv_N cv then scalar_loop sum256 cv (sum256 k) else Some k)"

definition GeneratePrivateKey :: "(bytes \<Rightarrow> bytes) \<Rightarrow> curve \<Rightarrow> bytes \<Rightarrow> bytes option" where
  "GeneratePrivateKey sum256 cv seed = scalar_loop sum256 cv (HashB sum256 seed)"

definition GeneratePublicKey :: "curve \<Rightarrow> bytes \<Rightarrow> bytes" where
  "GeneratePublicKey cv privateKey = Compress cv (Curve_ScalarMult cv (base_point cv) privateKey)"

definition GenerateReceivingKey :: "(bytes \<Rightarrow> bytes) \<Rightarrow> curve \<Rightarrow> bytes \<Rightarrow> bytes option" where
  "GenerateReceivingKey sum256 cv privateKey = scalar_loop sum256 cv (HashB sum256 privateKey)"

definition GenerateTransmissionKey :: "curve \<Rightarrow> bytes \<Rightarrow> bytes" where
  "GenerateTransmissionKey cv receivingKey = Compress cv (Curve_ScalarMult cv (base_point cv) receivingKey)"

record ViewingKey =
  vk_Pk :: bytes
  vk_Rk :: bytes

definition GenerateViewingKey :: "(bytes \<Rightarrow> bytes) \<Rightarrow> curve \<Rightarrow> bytes \<Rightarrow> ViewingKey option" where
  "GenerateViewingKey sum256 cv privateKey =
     map_option (\<lambda>rk. \<lparr>vk_Pk = GeneratePublicKey cv privateKey, vk_Rk = rk\<rparr>) (GenerateReceivingKey sum256 cv privateKey)"

definition GeneratePaymentAddress :: "(bytes \<Rightarrow> bytes) \<Rightarrow> curve \<Rightarrow> bytes \<Rightarrow> PaymentAddress option" where
  "GeneratePaymentAddress sum256 cv privateKey =
     map_option (\<lambda>rk. \<lparr>pa_Pk = GeneratePublicKey cv privateKey, pa_Tk = GenerateTransmissionKey cv rk\<rparr>)
       (GenerateReceivingKey sum256 cv privateKey)"

section \<open>Key sets\<close>

record KeySet =
  ks_PrivateKey :: bytes
  ks_PaymentAddress :: PaymentAddress
  ks_ReadonlyKey :: ViewingKey

definition ImportFromPrivateKey :: "(bytes \<Rightarrow> bytes) \<Rightarrow> curve \<Rightarrow> bytes \<Rightarrow> KeySet option" where
  "ImportFromPrivateKey sum256 cv privateKey =
     Option.bind (GeneratePaymentAddress sum256 cv privateKey) (\<lambda>pa.
     Option.bind (GenerateViewingKey sum256 cv privateKey) (\<lambda>vk.
       Some \<lparr>ks_PrivateKey = privateKey, ks_PaymentAddress = pa, ks_ReadonlyKey = vk\<rparr>))"

definition GenerateKey :: "(bytes \<Rightarrow> bytes) \<Rightarrow> curve \<Rightarrow> bytes \<Rightarrow> KeySet option" where
  "GenerateKey sum256 cv seed = Option.bind (GeneratePrivateKey sum256 cv seed) (ImportFromPrivateKey sum256 cv)"

text \<open>
  \<open>copy\<close> overwrites at most the bytes the private key already has, and \<open>Wrap(nil, ...)\<close> is nil: a wrong
  length is reported as success. The result is the new key set; there is never an error.
\<close>

definition go_copy :: "bytes \<Rightarrow> bytes \<Rightarrow> bytes" where
  "go_copy dst src = take (length dst) src @ drop (length src) dst"

definition ImportFromPrivateKeyByte :: "(bytes \<Rightarrow> bytes) \<Rightarrow> curve \<Rightarrow> bytes \<Rightarrow> KeySet \<Rightarrow> KeySet option" where
  "ImportFromPrivateKeyByte sum256 cv privateKey ks =
     (if length privateKey \<noteq> 32 then Some ks
      else ImportFromPrivateKey sum256 cv (go_copy (ks_PrivateKey ks) privateKey))"

definition KeySet_Verify :: "(bytes \<Rightarrow> bytes) \<Rightarrow> curve \<Rightarrow> point list \<Rightarrow> bytes \<Rightarrow> bytes \<Rightarrow> bytes \<Rightarrow> fault + bool option" where
  "KeySet_Verify sum256 cv G pk data signature =
     (case Decompress cv pk of
        Inl (Panic f) \<Rightarrow> Inl f
      | Inl ReadErr \<Rightarrow> Inr None
      | Inr PK \<Rightarrow>
          andThen (SchnSignature_SetBytes signature) (\<lambda>sig.
          andThen (Verify sum256 cv (SchnPubKey_Set G PK) (Some sig) (HashB sum256 data)) (\<lambda>b. Inr (Some b))))"

definition KeySet_Sign :: "(bytes \<Rightarrow> bytes) \<Rightarrow> curve \<Rightarrow> point list \<Rightarrow> bytes \<Rightarrow> int \<Rightarrow> bytes \<Rightarrow> bytes option" where
  "KeySet_Sign sum256 cv G privateKey s data =
     map_option SchnSignature_Bytes (Sign sum256 cv (SchnPrivKey_Set cv G (int (be_val privateKey)) 0) s 0 (HashB sum256 data))"

definition GetPublicKeyB58 :: "(bytes \<Rightarrow> bytes) \<Rightarrow> KeySet \<Rightarrow> fault + string" where
  "GetPublicKeyB58 sum256 ks = Base58Check_Encode sum256 (pa_Pk (ks_PaymentAddress ks)) 0"

definition SignDataB58 :: "(bytes \<Rightarrow> bytes) \<Rightarrow> curve \<Rightarrow> point list \<Rightarrow> KeySet \<Rightarrow> int \<Rightarrow> bytes \<Rightarrow> fault + string option" where
  "SignDataB58 sum256 cv G ks s data =
     (case KeySet_Sign sum256 cv G (ks_PrivateKey ks) s data of
        None \<Rightarrow> Inr None
      | Some sig \<Rightarrow> andThen (Base58Check_Encode sum256 sig 0) (\<lambda>t. Inr (Some t)))"

datatype data_error = BadPublicKey check_error | BadSignatureText check_error | VerifyFailed | InvalidSignature

definition ValidateDataB58 ::
  "(bytes \<Rightarrow> bytes) \<Rightarrow> curve \<Rightarrow> point list \<Rightarrow> string \<Rightarrow> string \<Rightarrow> bytes \<Rightarrow> fault + data_error option" where
  "ValidateDataB58 sum256 cv G pbkB58 sigB58 data =
     (case Base58Check_Decode sum256 pbkB58 of
        Inl e \<Rightarrow> Inr (Some (BadPublicKey e))
      | Inr (decPubkey, _) \<Rightarrow>
          (case Base58Check_Decode sum256 sigB58 of
             Inl e \<Rightarrow> Inr (Some (BadSignatureText e))
           | Inr (decSig, _) \<Rightarrow>
               andThen (KeySet_Verify sum256 cv G decPubkey data decSig) (\<lambda>r.
                 case r of None \<Rightarrow> Inr (Some VerifyFailed)
                 | Some isValid \<Rightarrow> if \<not> isValid then Inr (Some InvalidSignature) else Inr None)))"

section \<open>Facts\<close>

lemma scalar_loop_bound: "scalar_loop sum256 cv k = Some r \<Longrightarrow> int (be_val r) \<le> cv_N cv"
proof (induction rule: scalar_loop.raw_induct [rotated 1, consumes 1])
  case (1 loop sum256 cv k r)
  then show ?case by (cases "int (be_val k) > cv_N cv") auto
qed

lemma Curve_ScalarMult_times:
  assumes "curve_group cv" and "curve_pt cv p"
  shows "Curve_ScalarMult cv p k = times cv (be_val k) p"
  using double_and_add [OF assms, of "byte_bits k" 0] by (simp add: Curve_ScalarMult_def bits_val_bytes)

text \<open>The generators start with the base point.\<close>

definition gens_base :: "curve \<Rightarrow> point list \<Rightarrow> bool" where
  "gens_base cv G \<longleftrightarrow> gens_ok cv G \<and> G ! ped_index_SK = base_point cv"

definition key_point :: "curve \<Rightarrow> bytes \<Rightarrow> point" where
  "key_point cv k = Curve_ScalarMult cv (base_point cv) k"

lemma key_point_PK:
  assumes "curve_group cv" and "gens_base cv G"
  shows "pk_PK (sk_PubKey (SchnPrivKey_Set cv G (int (be_val k)) 0)) = key_point cv k"
proof -
  have b: "curve_pt cv (base_point cv)" "curve_pt cv (G ! ped_index_RAND)"
    using gens_okD [of cv G] assms(2) by (auto simp: gens_base_def)
  then show ?thesis
    using assms by (simp add: SchnPrivKey_Set_def gens_base_def key_point_def Curve_ScalarMult_times ScalarMult_times Add_def)
qed

lemma KeySet_Sign_Verify:
  assumes "curve_group cv" and "good_field cv" and "cv_N cv < 256 ^ BigIntSize" and "gens_base cv G" and "digest32 sum256"
    and "0 \<le> s" and "on_curve cv (key_point cv k)"
  shows "\<exists>sig. KeySet_Sign sum256 cv G k s data = Some sig
    \<and> KeySet_Verify sum256 cv G (GeneratePublicKey cv k) data sig = Inr (Some True)"
proof -
  have G: "gens_ok cv G" using assms(4) by (simp add: gens_base_def)
  have "length (HashB sum256 data) = HashSize" using assms(5) by (simp add: HashB_def digest32_def)
  from signature_verifies [OF assms(1,3) G assms(5) of_nat_0_le_iff order_refl assms(6) order_refl this, of "be_val k"]
  obtain sig sig' where "Sign sum256 cv (SchnPrivKey_Set cv G (int (be_val k)) 0) s 0 (HashB sum256 data) = Some sig"
    "SchnSignature_SetBytes (SchnSignature_Bytes sig) = Inr sig'"
    "Verify sum256 cv (SchnPubKey_Set G (key_point cv k)) (Some sig') (HashB sum256 data) = Inr True"
    unfolding key_point_PK [OF assms(1,4)] by blast
  moreover have "Decompress cv (GeneratePublicKey cv k) = Inr (key_point cv k)"
    using decompress_compress [OF assms(2), of "fst (key_point cv k)" "snd (key_point cv k)"] assms(7)
    by (simp add: Decompress_def GeneratePublicKey_def key_point_def)
  ultimately show ?thesis by (simp add: KeySet_Sign_def KeySet_Verify_def andThen_def)
qed

lemma ImportFromPrivateKey_keys:
  "ImportFromPrivateKey sum256 cv k = Some ks \<Longrightarrow> ks_PrivateKey ks = k \<and> pa_Pk (ks_PaymentAddress ks) = GeneratePublicKey cv k"
  by (auto simp: ImportFromPrivateKey_def GeneratePaymentAddress_def bind_eq_Some_conv)

section \<open>Properties\<close>

text \<open>what a key set signs, everybody can check. For every key set generated from a seed whose public key is
  a point of the curve, the base58 signature of any data validates under the base58 public key of the key set.
\<close>

theorem key_set_signature_valid:
  assumes "curve_group cv" and "good_field cv" and "cv_N cv < 256 ^ BigIntSize" and "gens_base cv G" and "digest32 sum256"
    and "GenerateKey sum256 cv seed = Some ks" and "on_curve cv (key_point cv (ks_PrivateKey ks))" and "0 \<le> s"
  shows "\<exists>pk sig. GetPublicKeyB58 sum256 ks = Inr pk \<and> SignDataB58 sum256 cv G ks s data = Inr (Some sig)
    \<and> ValidateDataB58 sum256 cv G pk sig data = Inr None"
proof -
  have pk: "pa_Pk (ks_PaymentAddress ks) = GeneratePublicKey cv (ks_PrivateKey ks)"
    using assms(6) ImportFromPrivateKey_keys by (auto simp: GenerateKey_def bind_eq_Some_conv)
  obtain sig where "KeySet_Sign sum256 cv G (ks_PrivateKey ks) s data = Some sig"
    "KeySet_Verify sum256 cv G (GeneratePublicKey cv (ks_PrivateKey ks)) data sig = Inr (Some True)"
    using KeySet_Sign_Verify [OF assms(1-5,8,7)] by blast
  then show ?thesis
    by (simp add: GetPublicKeyB58_def SignDataB58_def ValidateDataB58_def pk Base58Check_Encode_eq andThen_def
        Base58Check_Decode_text [OF assms(5)])
qed

definition ex_seed :: bytes where "ex_seed = [1]"

lemma ex_scalar_loop: "scalar_loop ex_digest ex_curve (replicate 31 0 @ [1]) = Some (replicate 31 0 @ [1])"
  using be_val_replicate_0 [of 31 "[1]"] by (subst scalar_loop.simps) (simp add: be_val_Cons ex_curve_def)

lemma ex_hash_one: "ex_digest [1] = replicate 31 0 @ [1]" "ex_digest (replicate 31 0 @ [1]) = replicate 31 0 @ [1]"
  by (simp_all add: ex_digest_def sum_list_replicate)

lemma ex_gens_base: "gens_base ex_curve ex_gens"
  using ex_gens_ok by (simp add: gens_base_def) (simp add: ex_gens_def ped_index_SK_def base_point_def ex_curve_def)

theorem key_set_signature_valid_witness:
  "\<exists>ks pk sig. GenerateKey ex_digest ex_curve ex_seed = Some ks \<and> GetPublicKeyB58 ex_digest ks = Inr pk
    \<and> SignDataB58 ex_digest ex_curve ex_gens ks 3 [1, 2] = Inr (Some sig)
    \<and> ValidateDataB58 ex_digest ex_curve ex_gens pk sig [1, 2] = Inr None"
proof -
  let ?k = "replicate 31 0 @ [1] :: bytes"
  have "GeneratePrivateKey ex_digest ex_curve ex_seed = Some ?k" "GenerateReceivingKey ex_digest ex_curve ?k = Some ?k"
    unfolding GeneratePrivateKey_def GenerateReceivingKey_def HashB_def ex_seed_def ex_hash_one by (rule ex_scalar_loop)+
  then obtain ks where ks: "GenerateKey ex_digest ex_curve ex_seed = Some ks" "ks_PrivateKey ks = ?k"
    by (simp add: GenerateKey_def ImportFromPrivateKey_def GeneratePaymentAddress_def GenerateViewingKey_def)
  have "key_point ex_curve ?k \<in> set ex_points" by code_simp
  then have "on_curve ex_curve (key_point ex_curve (ks_PrivateKey ks))" by (simp add: ks(2) ex_on_curve)
  moreover have "cv_N ex_curve < 256 ^ BigIntSize" by (simp add: ex_curve_def BigIntSize_def)
  ultimately show ?thesis
    using key_set_signature_valid [OF ex_curve_group ex_good_field _ ex_gens_base ex_digest32 ks(1), of 3 "[1, 2]"] ks(1) by auto
qed

text \<open>
  importing a private key as bytes into a new key set loses it. \<open>copy\<close> writes into a private key of length
  zero, so the key set that results is the same for every key of 32 bytes, and a key of another
  length changes nothing and is not reported.
\<close>

theorem import_key_bytes_lost:
  assumes "ks_PrivateKey ks = []" and "length k = 32"
  shows "ImportFromPrivateKeyByte sum256 cv k ks = ImportFromPrivateKey sum256 cv []"
  using assms by (simp add: ImportFromPrivateKeyByte_def go_copy_def)

definition ex_empty_keyset :: KeySet where
  "ex_empty_keyset = \<lparr>ks_PrivateKey = [], ks_PaymentAddress = \<lparr>pa_Pk = [], pa_Tk = []\<rparr>, ks_ReadonlyKey = \<lparr>vk_Pk = [], vk_Rk = []\<rparr>\<rparr>"

theorem import_key_bytes_lost_witness:
  "ImportFromPrivateKeyByte ex_digest ex_curve (replicate 32 1) ex_empty_keyset = ImportFromPrivateKeyByte ex_digest ex_curve (replicate 32 2) ex_empty_keyset"
  using import_key_bytes_lost [of ex_empty_keyset "replicate 32 1" ex_digest ex_curve] import_key_bytes_lost [of ex_empty_keyset "replicate 32 2" ex_digest ex_curve]
  by (simp add: ex_empty_keyset_def)

end
