(* ===== verification/Transactions.thy ===== *)
theory Transactions
  imports Schnorr Tx_DB Block_Types Base58_Codec
begin

text \<open>
  Transactions: \<open>src/transaction/txprivacy.go\<close> (\<open>Tx\<close>, a payment in the native coin),
  \<open>txcustomtoken.go\<close> and \<open>txcustomtokendata.go\<close> (\<open>TxCustomToken\<close>, a token with inputs and outputs in the
  open) and \<open>txcustomtokenprivacy.go\<close> with its data (\<open>TxCustomTokenPrivacy\<close>). The interface
  \<open>metadata.Transaction\<close> is the datatype \<open>Transaction\<close> of the three.

  Parameters, collected in \<open>tx_env\<close>: the hash function, the numbers of the curve and the generators, the
  formats and checks of the sub-proofs, the zero-knowledge branch of \<open>PaymentProof.Verify\<close>, the clock, and
  the methods of the metadata of a transaction (\<open>metadata.Metadata\<close>). A function that returns a flag and an error is
  modelled with both; the database is an argument. Cached hashes are not modelled.
\<close>

section \<open>Data\<close>

datatype tx_error = TxErr string | TransactionError nat

definition UnexpectedErr :: nat where "UnexpectedErr = 0"
definition WrongInput :: nat where "WrongInput = 3"
definition WrongSig :: nat where "WrongSig = 4"
definition DoubleSpend :: nat where "DoubleSpend = 5"
definition TxNotExist :: nat where "TxNotExist = 6"

type_synonym verdict = "fault + bool \<times> tx_error option"

record ('f, 'm) Tx =
  tx_Version :: int
  tx_Type :: string
  tx_LockTime :: int
  tx_Fee :: uint64
  tx_Info :: bytes
  tx_SigPubKey :: "bytes option"
  tx_Sig :: "bytes option"
  tx_Proof :: "'f option"
  tx_PubKeyLastByteSender :: byte
  tx_Metadata :: "'m option"

record TxTokenVin =
  vin_TxCustomTokenID :: hash
  vin_VoutIndex :: int
  vin_Signature :: string
  vin_PaymentAddress :: PaymentAddress

record TxTokenVout =
  vout_Value :: uint64
  vout_PaymentAddress :: PaymentAddress

record TxTokenData =
  td_PropertyID :: hash
  td_PropertyName :: string
  td_PropertySymbol :: string
  td_Type :: int
  td_Mintable :: bool
  td_Amount :: uint64
  td_Vins :: "TxTokenVin list"
  td_Vouts :: "TxTokenVout list"

record ('f, 'm) TxCustomToken =
  ct_Tx :: "('f, 'm) Tx"
  ct_TxTokenData :: TxTokenData

record ('f, 'm) TxTokenPrivacyData =
  tpd_TxNormal :: "('f, 'm) Tx"
  tpd_PropertyID :: hash
  tpd_PropertyName :: string
  tpd_PropertySymbol :: string
  tpd_Type :: int
  tpd_Mintable :: bool
  tpd_Amount :: uint64

record ('f, 'm) TxCustomTokenPrivacy =
  cp_Tx :: "('f, 'm) Tx"
  cp_TxTokenPrivacyData :: "('f, 'm) TxTokenPrivacyData"

datatype ('f, 'm) Transaction =
    NormalTx "('f, 'm) Tx" | TokenTx "('f, 'm) TxCustomToken" | PrivacyTokenTx "('f, 'm) TxCustomTokenPrivacy"

record ('f, 'm) meta_ops =
  md_GetType :: "'m \<Rightarrow> int"
  md_Hash :: "'m \<Rightarrow> hash"
  md_CheckTransactionFee :: "'m \<Rightarrow> ('f, 'm) Transaction \<Rightarrow> uint64 \<Rightarrow> fault + bool"
  md_CalculateSize :: "'m \<Rightarrow> uint64"
  md_ValidateSanityData :: "'m \<Rightarrow> ('f, 'm) Transaction \<Rightarrow> fault + bool \<times> bool \<times> tx_error option"
  md_ValidateMetadataByItself :: "'m \<Rightarrow> bool"
  md_ValidateTxWithBlockChain :: "'m \<Rightarrow> ('f, 'm) Transaction \<Rightarrow> byte \<Rightarrow> fault + bool \<times> tx_error option"
  md_IsMinerCreatedMetaType :: "'m \<Rightarrow> bool"
  md_VerifyMinerCreatedTx :: "'m \<Rightarrow> ('f, 'm) Transaction \<Rightarrow> verdict"

type_synonym ('o, 's, 'n, 'a, 'm) ptx = "((point, 'o, 's, 'n, 'a) PaymentProof, 'm) Tx"
type_synonym ('o, 's, 'n, 'a, 'm) ptoken = "((point, 'o, 's, 'n, 'a) PaymentProof, 'm) TxCustomToken"
type_synonym ('o, 's, 'n, 'a, 'm) pprivacy = "((point, 'o, 's, 'n, 'a) PaymentProof, 'm) TxCustomTokenPrivacy"
type_synonym ('o, 's, 'n, 'a, 'm) ptransaction = "((point, 'o, 's, 'n, 'a) PaymentProof, 'm) Transaction"

record ('o, 's, 'n, 'a, 'm) tx_env =
  te_sum256 :: "bytes \<Rightarrow> bytes"
  te_ops :: "(point, 'o, 's, 'n, 'a) proof_ops"
  te_cv :: curve
  te_G :: "point list"
  te_oneSanity :: "'o \<Rightarrow> bool"
  te_snSanity :: "'s \<Rightarrow> bool"
  te_nnSanity :: "'n \<Rightarrow> bool"
  te_arSanity :: "'a \<Rightarrow> bool"
  te_nnVerify :: "'n \<Rightarrow> bool"
  te_verifyPrivacy :: "(point, 'o, 's, 'n, 'a) PaymentProof \<Rightarrow> bytes \<Rightarrow> uint64 \<Rightarrow> byte \<Rightarrow> hash \<Rightarrow> fault + bool"
  te_meta :: "((point, 'o, 's, 'n, 'a) PaymentProof, 'm) meta_ops"
  te_now :: int

text \<open>The formats of points in a proof are those of the curve; the Pedersen generators are \<open>PedCom.G\<close>.\<close>

definition tx_ops :: "('o, 's, 'n, 'a, 'm) tx_env \<Rightarrow> (point, 'o, 's, 'n, 'a) proof_ops" where
  "tx_ops E = (te_ops E)\<lparr>op_compress := Compress (te_cv E), op_decompress := Decompress (te_cv E)\<rparr>"

definition pedersen_of :: "curve \<Rightarrow> point list \<Rightarrow> point pedersen" where
  "pedersen_of cv G = \<lparr>ped_add = Add cv, ped_smult = (\<lambda>n p. ScalarMult cv p (int n)),
     ped_VALUE = G ! ped_index_VALUE, ped_SND = G ! ped_index_SND, ped_SHARDID = G ! ped_index_SHARDID, ped_RAND = G ! ped_index_RAND\<rparr>"

definition tx_ped :: "('o, 's, 'n, 'a, 'm) tx_env \<Rightarrow> point pedersen" where
  "tx_ped E = pedersen_of (te_cv E) (te_G E)"

text \<open>A nil slice reads as an empty one.\<close>

definition nil_bytes :: "bytes option \<Rightarrow> bytes" where
  "nil_bytes b = (case b of None \<Rightarrow> [] | Some x \<Rightarrow> x)"

section \<open>Constants\<close>

definition TxVersion :: int where "TxVersion = 1"
definition TxNormalType :: string where "TxNormalType = ''n''"
definition TxRewardType :: string where "TxRewardType = ''s''"
definition TxReturnStakingType :: string where "TxReturnStakingType = ''rs''"
definition TxCustomTokenType :: string where "TxCustomTokenType = ''t''"
definition TxCustomTokenPrivacyType :: string where "TxCustomTokenPrivacyType = ''tp''"
definition MaxTxSize :: uint64 where "MaxTxSize = 100"
definition SigPubKeySize :: nat where "SigPubKeySize = 33"
definition CustomTokenInit :: int where "CustomTokenInit = 0"
definition CustomTokenTransfer :: int where "CustomTokenTransfer = 1"
definition CustomTokenCrossShard :: int where "CustomTokenCrossShard = 2"
definition InvalidMeta :: int where "InvalidMeta = 1"
definition ConstantID :: hash where "ConstantID = 4 # replicate 31 0"

section \<open>\<open>Tx\<close>: size and hash\<close>

text \<open>\<open>uint64(math.Ceil(float64(n)/1024))\<close>; a size is far below \<open>2^53\<close>, so the division is exact.\<close>

definition kilobytes :: "uint64 \<Rightarrow> uint64" where
  "kilobytes n = of_nat ((unat n + 1023) div 1024)"

definition proof_bytes :: "('o, 's, 'n, 'a, 'm) tx_env \<Rightarrow> (point, 'o, 's, 'n, 'a) PaymentProof option \<Rightarrow> fault + bytes" where
  "proof_bytes E pf = (case pf of None \<Rightarrow> Inr [] | Some p \<Rightarrow> PaymentProof_Bytes (tx_ops E) p)"

definition meta_size :: "('f, 'm) meta_ops \<Rightarrow> 'm option \<Rightarrow> uint64" where
  "meta_size M meta = (case meta of None \<Rightarrow> 0 | Some m \<Rightarrow> md_CalculateSize M m)"

definition Tx_GetTxActualSize :: "('o, 's, 'n, 'a, 'm) tx_env \<Rightarrow> ('o, 's, 'n, 'a, 'm) ptx \<Rightarrow> fault + uint64" where
  "Tx_GetTxActualSize E tx =
     andThen (proof_bytes E (tx_Proof tx)) (\<lambda>pb.
       Inr (kilobytes (1 + of_nat (length (tx_Type tx) + 1) + 8 + 8 + of_nat (length (nil_bytes (tx_SigPubKey tx))) + of_nat (length (nil_bytes (tx_Sig tx)))
         + of_nat (length pb) + 1 + of_nat (length (tx_Info tx)) + meta_size (te_meta E) (tx_Metadata tx))))"

definition Tx_String :: "('o, 's, 'n, 'a, 'm) tx_env \<Rightarrow> ('o, 's, 'n, 'a, 'm) ptx \<Rightarrow> fault + string" where
  "Tx_String E tx =
     andThen (case tx_Proof tx of
         None \<Rightarrow> Inr []
       | Some p \<Rightarrow> andThen (PaymentProof_Bytes (tx_ops E) p) (\<lambda>b. Base58Check_Encode (te_sum256 E) b 0))
     (\<lambda>pf. Inr (itoa (tx_Version tx) @ itoa (tx_LockTime tx) @ decimal (unat (tx_Fee tx)) @ pf
         @ (case tx_Metadata tx of None \<Rightarrow> [] | Some m \<Rightarrow> Hash_String (md_Hash (te_meta E) m))))"

definition Tx_Hash :: "('o, 's, 'n, 'a, 'm) tx_env \<Rightarrow> ('o, 's, 'n, 'a, 'm) ptx \<Rightarrow> fault + hash" where
  "Tx_Hash E tx = andThen (Tx_String E tx) (\<lambda>s. Inr (HashH (te_sum256 E) (bytes_of_string s)))"

section \<open>\<open>Tx\<close>: signature\<close>

text \<open>\<open>s1\<close> and \<open>s2\<close> are the random scalars of the signature; \<open>None\<close> is an error.\<close>

definition signTx :: "('o, 's, 'n, 'a, 'm) tx_env \<Rightarrow> bytes \<Rightarrow> int \<Rightarrow> int \<Rightarrow> ('o, 's, 'n, 'a, 'm) ptx \<Rightarrow> fault + ('o, 's, 'n, 'a, 'm) ptx option" where
  "signTx E sigPrivKey s1 s2 tx =
     (if tx_Sig tx \<noteq> None then Inr None
      else if length sigPrivKey < BigIntSize then Inl IndexOutOfRange
      else let sk = int (be_val (take BigIntSize sigPrivKey)); r = int (be_val (drop BigIntSize sigPrivKey));
               sigKey = SchnPrivKey_Set (te_cv E) (te_G E) sk r;
               tx' = tx\<lparr>tx_SigPubKey := Some (Compress (te_cv E) (pk_PK (sk_PubKey sigKey)))\<rparr>
           in andThen (Tx_Hash E tx') (\<lambda>h.
             case Sign (te_sum256 E) (te_cv E) sigKey s1 s2 h of
               None \<Rightarrow> Inr None
             | Some signature \<Rightarrow> Inr (Some (tx'\<lparr>tx_Sig := Some (SchnSignature_Bytes signature)\<rparr>))))"

definition verifySigTx :: "('o, 's, 'n, 'a, 'm) tx_env \<Rightarrow> ('o, 's, 'n, 'a, 'm) ptx \<Rightarrow> verdict" where
  "verifySigTx E tx =
     (case (tx_Sig tx, tx_SigPubKey tx) of
        (Some sig, Some pk) \<Rightarrow>
          (case Decompress (te_cv E) pk of
             Inl (Panic f) \<Rightarrow> Inl f
           | Inl ReadErr \<Rightarrow> Inr (False, Some (TxErr ''decompress''))
           | Inr PK \<Rightarrow>
               andThen (SchnSignature_SetBytes sig) (\<lambda>signature.
               andThen (Tx_Hash E tx) (\<lambda>h.
               andThen (Verify (te_sum256 E) (te_cv E) (SchnPubKey_Set (te_G E) PK) (Some signature) h) (\<lambda>res. Inr (res, None)))))
      | _ \<Rightarrow> Inr (False, Some (TxErr ''input transaction must be an signed one'')))"

section \<open>\<open>Tx\<close>: type and fee\<close>

definition Tx_IsPrivacy :: "('o, 's, 'n, 'a, 'm) ptx \<Rightarrow> bool" where
  "Tx_IsPrivacy tx = (case tx_Proof tx of None \<Rightarrow> False | Some p \<Rightarrow> length (pp_OneOfManyProof p) \<noteq> 0)"

definition Tx_ValidateType :: "('f, 'm) Tx \<Rightarrow> bool" where
  "Tx_ValidateType tx \<longleftrightarrow> tx_Type tx = TxNormalType \<or> tx_Type tx = TxRewardType \<or> tx_Type tx = TxReturnStakingType"

definition CheckTxVersion :: "int \<Rightarrow> ('f, 'm) Tx \<Rightarrow> bool" where
  "CheckTxVersion maxTxVersion tx \<longleftrightarrow> \<not> (tx_Version tx > maxTxVersion)"

text \<open>A reward transaction without a proof dereferences nil.\<close>

definition IsSalaryTx :: "('o, 's, 'n, 'a, 'm) ptx \<Rightarrow> fault + bool" where
  "IsSalaryTx tx =
     (if tx_Type tx \<noteq> TxRewardType then Inr False
      else andThen (deref (tx_Proof tx)) (\<lambda>p. Inr (length (pp_InputCoins p) = 0)))"

definition Tx_CheckTransactionFee ::
  "('o, 's, 'n, 'a, 'm) tx_env \<Rightarrow> uint64 \<Rightarrow> ('o, 's, 'n, 'a, 'm) ptx \<Rightarrow> fault + bool" where
  "Tx_CheckTransactionFee E minFeePerKbTx tx =
     andThen (IsSalaryTx tx) (\<lambda>salary.
       if salary then Inr True
       else case tx_Metadata tx of
         Some m \<Rightarrow> md_CheckTransactionFee (te_meta E) m (NormalTx tx) minFeePerKbTx
       | None \<Rightarrow> andThen (Tx_GetTxActualSize E tx) (\<lambda>size. Inr (tx_Fee tx \<ge> minFeePerKbTx * size)))"

section \<open>\<open>Tx\<close>: coins and receivers\<close>

text \<open>Collecting over a list, stopping at the first fault.\<close>

fun map_fault :: "('x \<Rightarrow> fault + 'y) \<Rightarrow> 'x list \<Rightarrow> fault + 'y list" where
  "map_fault f [] = Inr []"
| "map_fault f (x # xs) = andThen (f x) (\<lambda>y. andThen (map_fault f xs) (\<lambda>ys. Inr (y # ys)))"

definition serial_number :: "('o, 's, 'n, 'a, 'm) tx_env \<Rightarrow> point Coin \<Rightarrow> fault + bytes" where
  "serial_number E c = andThen (deref (cn_SerialNumber c)) (\<lambda>p. Inr (Compress (te_cv E) p))"

definition ListNullifiers :: "('o, 's, 'n, 'a, 'm) tx_env \<Rightarrow> ('o, 's, 'n, 'a, 'm) ptx \<Rightarrow> fault + bytes list" where
  "ListNullifiers E tx = (case tx_Proof tx of None \<Rightarrow> Inr [] | Some p \<Rightarrow> map_fault (serial_number E) (pp_InputCoins p))"

definition GetSender :: "('o, 's, 'n, 'a, 'm) tx_env \<Rightarrow> ('o, 's, 'n, 'a, 'm) ptx \<Rightarrow> fault + bytes option" where
  "GetSender E tx =
     (case tx_Proof tx of None \<Rightarrow> Inr None
      | Some p \<Rightarrow> if length (pp_InputCoins p) = 0 then Inr None
          else andThen (deref (cn_PublicKey (pp_InputCoins p ! 0))) (\<lambda>pk. Inr (Some (Compress (te_cv E) pk))))"

text \<open>The key and the value of an output coin.\<close>

definition out_key :: "('o, 's, 'n, 'a, 'm) tx_env \<Rightarrow> point OutputCoin \<Rightarrow> fault + bytes \<times> uint64" where
  "out_key E oc = andThen (deref (oc_CoinDetails oc)) (\<lambda>c.
     andThen (deref (cn_PublicKey c)) (\<lambda>pk. Inr (Compress (te_cv E) pk, cn_Value c)))"

text \<open>The amounts are added up per key, in the order of first appearance.\<close>

fun add_receiver :: "bytes \<Rightarrow> uint64 \<Rightarrow> (bytes \<times> uint64) list \<Rightarrow> (bytes \<times> uint64) list" where
  "add_receiver k v [] = [(k, v)]"
| "add_receiver k v ((k', a) # rs) = (if k = k' then (k', a + v) # rs else (k', a) # add_receiver k v rs)"

definition receivers_of :: "(bytes \<times> uint64) list \<Rightarrow> (bytes \<times> uint64) list" where
  "receivers_of outs = fold (\<lambda>(k, v). add_receiver k v) outs []"

definition GetReceivers :: "('o, 's, 'n, 'a, 'm) tx_env \<Rightarrow> ('o, 's, 'n, 'a, 'm) ptx \<Rightarrow> fault + (bytes \<times> uint64) list" where
  "GetReceivers E tx =
     (case tx_Proof tx of None \<Rightarrow> Inr []
      | Some p \<Rightarrow> andThen (map_fault (out_key E) (pp_OutputCoins p)) (\<lambda>outs. Inr (receivers_of outs)))"

text \<open>The receivers other than the sender: unique if there is exactly one; the last one is returned.\<close>

definition unique_receiver :: "bytes \<Rightarrow> (bytes \<times> uint64) list \<Rightarrow> bool \<times> bytes \<times> uint64" where
  "unique_receiver sender rs =
     (let others = filter (\<lambda>(pk, _). pk \<noteq> sender) rs
      in (length others = 1, if others = [] then ([], 0) else last others))"

definition GetUniqueReceiver :: "('o, 's, 'n, 'a, 'm) tx_env \<Rightarrow> ('o, 's, 'n, 'a, 'm) ptx \<Rightarrow> fault + bool \<times> bytes \<times> uint64" where
  "GetUniqueReceiver E tx =
     andThen (GetSender E tx) (\<lambda>sender.
     andThen (GetReceivers E tx) (\<lambda>rs.
       Inr (unique_receiver (case sender of None \<Rightarrow> [] | Some k \<Rightarrow> k) rs)))"

definition CalculateTxValue :: "('o, 's, 'n, 'a, 'm) tx_env \<Rightarrow> ('o, 's, 'n, 'a, 'm) ptx \<Rightarrow> fault + uint64" where
  "CalculateTxValue E tx =
     (case tx_Proof tx of None \<Rightarrow> Inr 0
      | Some p \<Rightarrow>
          if length (pp_OutputCoins p) = 0 then Inr 0
          else if length (pp_InputCoins p) = 0 then
            andThen (map_fault (\<lambda>oc. andThen (deref (oc_CoinDetails oc)) (\<lambda>c. Inr (cn_Value c))) (pp_OutputCoins p)) (\<lambda>vs. Inr (sum_list vs))
          else andThen (GetSender E tx) (\<lambda>sender.
            andThen (map_fault (out_key E) (pp_OutputCoins p)) (\<lambda>outs.
              Inr (sum_list (map snd (filter (\<lambda>(k, _). Some k \<noteq> sender) outs))))))"

section \<open>\<open>Tx\<close>: double spending\<close>

definition SliceBytesExists :: "bytes list \<Rightarrow> bytes \<Rightarrow> bool" where
  "SliceBytesExists xs item = list_ex (\<lambda>b. b = item) xs"

text \<open>A loop that returns the first error.\<close>

fun loop_err :: "('x \<Rightarrow> fault + 'e option) \<Rightarrow> 'x list \<Rightarrow> fault + 'e option" where
  "loop_err f [] = Inr None"
| "loop_err f (x # xs) = andThen (f x) (\<lambda>e. case e of Some _ \<Rightarrow> Inr e | None \<Rightarrow> loop_err f xs)"

text \<open>\<open>pool\<close> lists the serial numbers of the transactions in the pool, in the order of the map iteration.\<close>

definition double_spend_pool :: "('o, 's, 'n, 'a, 'm) tx_env \<Rightarrow> bytes list list \<Rightarrow> ('o, 's, 'n, 'a, 'm) ptx \<Rightarrow> fault + tx_error option" where
  "double_spend_pool E pool tx =
     (case tx_Proof tx of None \<Rightarrow> Inr None
      | Some p \<Rightarrow> loop_err (\<lambda>used. loop_err (\<lambda>c. andThen (serial_number E c) (\<lambda>sn.
          Inr (if SliceBytesExists used sn then Some (TxErr ''double spend'') else None))) (pp_InputCoins p)) pool)"

definition ValidateConstDoubleSpendWithBlockchain ::
  "('o, 's, 'n, 'a, 'm) tx_env \<Rightarrow> 'd leveldb \<Rightarrow> 'd \<Rightarrow> byte \<Rightarrow> ('o, 's, 'n, 'a, 'm) ptx \<Rightarrow> fault + tx_error option" where
  "ValidateConstDoubleSpendWithBlockchain E D s shardID tx =
     (case tx_Proof tx of None \<Rightarrow> Inr None
      | Some p \<Rightarrow> loop_err (\<lambda>c. andThen (serial_number E c) (\<lambda>sn.
          Inr (if HasSerialNumber D ConstantID sn shardID s then Some (TxErr ''double spend'') else None))) (pp_InputCoins p))"

definition Tx_ValidateTxWithBlockChain ::
  "('o, 's, 'n, 'a, 'm) tx_env \<Rightarrow> 'd leveldb \<Rightarrow> 'd \<Rightarrow> byte \<Rightarrow> ('o, 's, 'n, 'a, 'm) ptx \<Rightarrow> fault + tx_error option" where
  "Tx_ValidateTxWithBlockChain E D s shardID tx =
     (if tx_Type tx = TxRewardType \<or> tx_Type tx = TxReturnStakingType then Inr None
      else case tx_Metadata tx of
        None \<Rightarrow> ValidateConstDoubleSpendWithBlockchain E D s shardID tx
      | Some m \<Rightarrow> andThen (md_ValidateTxWithBlockChain (te_meta E) m (NormalTx tx) shardID) (\<lambda>(isContinued, err).
          case err of Some e \<Rightarrow> Inr (Some e)
          | None \<Rightarrow> if \<not> isContinued then Inr None else ValidateConstDoubleSpendWithBlockchain E D s shardID tx))"

section \<open>\<open>Tx\<close>: sanity\<close>

text \<open>\<open>IsSafe\<close> of a pointer and the width of a scalar; nil dereferences fault.\<close>

definition safe :: "('o, 's, 'n, 'a, 'm) tx_env \<Rightarrow> string \<Rightarrow> point option \<Rightarrow> fault + tx_error option" where
  "safe E msg p = andThen (deref p) (\<lambda>x. Inr (if IsSafe (te_cv E) x then None else Some (TxErr msg)))"

definition fits :: "string \<Rightarrow> int option \<Rightarrow> fault + tx_error option" where
  "fits msg n = andThen (deref n) (\<lambda>v. Inr (if length (be_bytes (nat \<bar>v\<bar>)) > BigIntSize then Some (TxErr msg) else None))"

definition sane :: "string \<Rightarrow> ('x \<Rightarrow> bool) \<Rightarrow> 'x \<Rightarrow> fault + tx_error option" where
  "sane msg ok x = Inr (if ok x then None else Some (TxErr msg))"

text \<open>Checks one after the other, up to the first error.\<close>

definition check_all :: "(fault + tx_error option) list \<Rightarrow> fault + tx_error option" where
  "check_all = loop_err id"

definition out_details :: "point OutputCoin \<Rightarrow> (point Coin \<Rightarrow> fault + tx_error option) \<Rightarrow> fault + tx_error option" where
  "out_details oc f = andThen (deref (oc_CoinDetails oc)) f"

definition privacy_checks ::
  "('o, 's, 'n, 'a, 'm) tx_env \<Rightarrow> (point, 'o, 's, 'n, 'a) PaymentProof \<Rightarrow> 'a \<Rightarrow> fault + tx_error option" where
  "privacy_checks E p ar = check_all
     [sane ''validate sanity Aggregated range proof failed'' (te_arSanity E) ar,
      loop_err (sane ''validate sanity One out of many proof failed'' (te_oneSanity E)) (pp_OneOfManyProof p),
      loop_err (sane ''validate sanity Serial number proof failed'' (te_snSanity E)) (pp_SerialNumberProof p),
      loop_err (\<lambda>c. safe E ''validate sanity Serial number of input coin failed'' (cn_SerialNumber c)) (pp_InputCoins p),
      loop_err (\<lambda>oc. out_details oc (\<lambda>c. check_all
        [safe E ''validate sanity Public key of output coin failed'' (cn_PublicKey c),
         safe E ''validate sanity Coin commitment of output coin failed'' (cn_CoinCommitment c),
         fits ''validate sanity SNDerivator of output coin failed'' (cn_SNDerivator c)])) (pp_OutputCoins p),
      safe E ''validate sanity ComInputSK of proof failed'' (pp_ComInputSK p),
      loop_err (sane ''validate sanity ComInputValue of proof failed'' (IsSafe (te_cv E))) (pp_ComInputValue p),
      loop_err (sane ''validate sanity ComInputSND of proof failed'' (IsSafe (te_cv E))) (pp_ComInputSND p),
      safe E ''validate sanity ComInputShardID of proof failed'' (pp_ComInputShardID p),
      loop_err (sane ''validate sanity ComOutputShardID of proof failed'' (IsSafe (te_cv E))) (pp_ComOutputShardID p),
      loop_err (sane ''validate sanity ComOutputSND of proof failed'' (IsSafe (te_cv E))) (pp_ComOutputSND p),
      loop_err (sane ''validate sanity ComOutputValue of proof failed'' (IsSafe (te_cv E))) (pp_ComOutputValue p),
      Inr (if length (pp_CommitmentIndices p) \<noteq> length (pp_InputCoins p) * CMRingSize
           then Some (TxErr ''validate sanity CommitmentIndices of proof failed'') else None)]"

definition open_checks ::
  "('o, 's, 'n, 'a, 'm) tx_env \<Rightarrow> (point, 'o, 's, 'n, 'a) PaymentProof \<Rightarrow> fault + tx_error option" where
  "open_checks E p = check_all
     [loop_err (sane ''validate sanity Serial number no privacy proof failed'' (te_nnSanity E)) (pp_SNNoPrivacyProof p),
      loop_err (\<lambda>c. check_all
        [safe E ''validate sanity CoinCommitment of input coin failed'' (cn_CoinCommitment c),
         safe E ''validate sanity PublicKey of input coin failed'' (cn_PublicKey c),
         safe E ''validate sanity Serial number of input coin failed'' (cn_SerialNumber c),
         fits ''validate sanity Randomness of input coin failed'' (cn_Randomness c),
         fits ''validate sanity SNDerivator of input coin failed'' (cn_SNDerivator c)]) (pp_InputCoins p),
      loop_err (\<lambda>oc. out_details oc (\<lambda>c. check_all
        [safe E ''validate sanity CoinCommitment of output coin failed'' (cn_CoinCommitment c),
         safe E ''validate sanity PublicKey of output coin failed'' (cn_PublicKey c),
         fits ''validate sanity Randomness of output coin failed'' (cn_Randomness c),
         fits ''validate sanity SNDerivator of output coin failed'' (cn_SNDerivator c)])) (pp_OutputCoins p)]"

text \<open>
  The proof is checked as a private one only if it has a range proof, one-of-many proofs and serial
  number proofs. The error is \<open>None\<close> exactly when the flag is true.
\<close>

definition validateSanityDataOfProof :: "('o, 's, 'n, 'a, 'm) tx_env \<Rightarrow> ('o, 's, 'n, 'a, 'm) ptx \<Rightarrow> fault + tx_error option" where
  "validateSanityDataOfProof E tx =
     (case tx_Proof tx of None \<Rightarrow> Inr None
      | Some p \<Rightarrow>
          if length (pp_InputCoins p) > 255 then Inr (Some (TxErr (''Input coins in tx are very large:'' @ decimal (length (pp_InputCoins p)))))
          else if length (pp_OutputCoins p) > 255 then Inr (Some (TxErr (''Output coins in tx are very large:'' @ decimal (length (pp_OutputCoins p)))))
          else case pp_AggregatedRangeProof p of
            None \<Rightarrow> open_checks E p
          | Some ar \<Rightarrow> if length (pp_OneOfManyProof p) = 0 \<or> length (pp_SerialNumberProof p) = 0 then open_checks E p
              else privacy_checks E p ar)"

definition validateNormalTxSanityData :: "('o, 's, 'n, 'a, 'm) tx_env \<Rightarrow> ('o, 's, 'n, 'a, 'm) ptx \<Rightarrow> verdict" where
  "validateNormalTxSanityData E tx =
     (if tx_Version tx > TxVersion then Inr (False, Some (TxErr ''wrong tx version''))
      else if tx_LockTime tx > te_now E then Inr (False, Some (TxErr ''wrong tx locktime''))
      else andThen (Tx_GetTxActualSize E tx) (\<lambda>size.
        if size > MaxTxSize then Inr (False, Some (TxErr ''tx size is too large''))
        else andThen (validateSanityDataOfProof E tx) (\<lambda>err.
          case err of Some e \<Rightarrow> Inr (False, Some e)
          | None \<Rightarrow>
            if length (nil_bytes (tx_SigPubKey tx)) \<noteq> SigPubKeySize then Inr (False, Some (TxErr ''wrong tx Sig PK''))
            else if tx_Type tx \<notin> {TxNormalType, TxRewardType, TxCustomTokenType, TxCustomTokenPrivacyType, TxReturnStakingType}
              then Inr (False, Some (TxErr ''wrong tx type''))
            else if length (tx_Info tx) > 512 then Inr (False, Some (TxErr ''wrong tx info length''))
            else Inr (True, None))))"

definition Tx_ValidateSanityData :: "('o, 's, 'n, 'a, 'm) tx_env \<Rightarrow> ('o, 's, 'n, 'a, 'm) ptx \<Rightarrow> verdict" where
  "Tx_ValidateSanityData E tx =
     (case tx_Metadata tx of
        None \<Rightarrow> validateNormalTxSanityData E tx
      | Some m \<Rightarrow> andThen (md_ValidateSanityData (te_meta E) m (NormalTx tx)) (\<lambda>(isContinued, ok, err).
          if err \<noteq> None \<or> \<not> ok \<or> \<not> isContinued then Inr (ok, err) else validateNormalTxSanityData E tx))"

section \<open>\<open>Tx\<close>: validation by itself\<close>

definition CheckSNDerivatorExistence :: "hash \<Rightarrow> int \<Rightarrow> byte \<Rightarrow> 'd leveldb \<Rightarrow> 'd \<Rightarrow> bool" where
  "CheckSNDerivatorExistence tokenID sd shardID D s = HasSNDerivator D tokenID (AddPaddingBigInt sd BigIntSize) shardID s"

text \<open>\<open>PaymentProof.Verify\<close>: the branch in the open is the model's own.\<close>

definition PaymentProof_Verify ::
  "('o, 's, 'n, 'a, 'm) tx_env \<Rightarrow> bool \<Rightarrow> (point, 'o, 's, 'n, 'a) PaymentProof \<Rightarrow> bytes \<Rightarrow> uint64 \<Rightarrow> byte \<Rightarrow> hash \<Rightarrow> fault + bool" where
  "PaymentProof_Verify E hasPrivacy p pubKey fee shardID tokenID =
     (if \<not> hasPrivacy then verify_no_privacy (te_nnVerify E) (tx_ped E) (Compress (te_cv E)) p pubKey fee
      else te_verifyPrivacy E p pubKey fee shardID tokenID)"

definition ValidateTxSalary :: "('o, 's, 'n, 'a, 'm) tx_env \<Rightarrow> 'd leveldb \<Rightarrow> 'd \<Rightarrow> ('o, 's, 'n, 'a, 'm) ptx \<Rightarrow> verdict" where
  "ValidateTxSalary E D s tx =
     andThen (verifySigTx E tx) (\<lambda>(valid, err).
       if \<not> valid then Inr (False, err)
       else andThen (deref (tx_Proof tx)) (\<lambda>p.
         andThen (index (pp_OutputCoins p) 0) (\<lambda>oc.
         andThen (deref (oc_CoinDetails oc)) (\<lambda>c.
         andThen (output_shard (Compress (te_cv E)) c) (\<lambda>shardID.
         andThen (deref (cn_SNDerivator c)) (\<lambda>sd.
           if CheckSNDerivatorExistence ConstantID sd shardID D s then Inr (False, None)
           else andThen (commitment_matches (tx_ped E) shardID c) (\<lambda>ok.
             if \<not> ok then Inr (False, Some (TxErr ''check output coin's coin commitment isn't calculated correctly''))
             else Inr (True, None))))))))"

definition check_output_snd :: "hash \<Rightarrow> byte \<Rightarrow> 'd leveldb \<Rightarrow> 'd \<Rightarrow> nat \<Rightarrow> int list \<Rightarrow> tx_error option" where
  "check_output_snd tokenID shardID D s i snds =
     (case find (\<lambda>j. CheckSNDerivatorExistence tokenID (snds ! j) shardID D s) [0..<length snds] of
        None \<Rightarrow> None | Some j \<Rightarrow> Some (TxErr (''snd existed: '' @ decimal (i + j) @ [CHR 0x0A])))"

text \<open>The checks of a proof, after the signature.\<close>

definition validate_proof ::
  "('o, 's, 'n, 'a, 'm) tx_env \<Rightarrow> bool \<Rightarrow> 'd leveldb \<Rightarrow> 'd \<Rightarrow> byte \<Rightarrow> hash \<Rightarrow> ('o, 's, 'n, 'a, 'm) ptx
   \<Rightarrow> (point, 'o, 's, 'n, 'a) PaymentProof \<Rightarrow> verdict" where
  "validate_proof E hasPrivacy D s shardID tokenID tx p =
     andThen (map_fault (\<lambda>oc. andThen (deref (oc_CoinDetails oc)) (\<lambda>c. deref (cn_SNDerivator c))) (pp_OutputCoins p)) (\<lambda>snds.
       if CheckDuplicateBigIntArray snds then Inr (False, Some (TxErr ''Duplicate output coins' snd''))
       else case check_output_snd tokenID shardID D s 0 snds of
         Some e \<Rightarrow> Inr (False, Some e)
       | None \<Rightarrow>
         andThen (if hasPrivacy then Inr None
             else loop_err (\<lambda>c. andThen (deref (cn_CoinCommitment c)) (\<lambda>cm.
               Inr (if HasCommitment D tokenID (Compress (te_cv E) cm) shardID s then None else Some ()))) (pp_InputCoins p)) (\<lambda>missing.
           if missing \<noteq> None then Inr (False, None)
           else andThen (PaymentProof_Verify E hasPrivacy p (nil_bytes (tx_SigPubKey tx)) (tx_Fee tx) shardID tokenID) (\<lambda>valid.
             if \<not> valid then Inr (False, Some (TxErr ''FAILED VERIFICATION PAYMENT PROOF'')) else Inr (True, None))))"

text \<open>\<open>ValidateTxReturnStaking\<close> accepts everything.\<close>

definition Tx_ValidateTransaction ::
  "('o, 's, 'n, 'a, 'm) tx_env \<Rightarrow> bool \<Rightarrow> 'd leveldb \<Rightarrow> 'd \<Rightarrow> byte \<Rightarrow> hash \<Rightarrow> ('o, 's, 'n, 'a, 'm) ptx \<Rightarrow> verdict" where
  "Tx_ValidateTransaction E hasPrivacy D s shardID tokenID tx =
     (if tx_Type tx = TxRewardType then ValidateTxSalary E D s tx
      else if tx_Type tx = TxReturnStakingType then Inr (True, None)
      else andThen (verifySigTx E tx) (\<lambda>(valid, _).
        if \<not> valid then Inr (False, None)
        else case tx_Proof tx of
          None \<Rightarrow> Inr (True, None)
        | Some p \<Rightarrow> validate_proof E hasPrivacy D s shardID tokenID tx p))"

definition Tx_ValidateTxByItself ::
  "('o, 's, 'n, 'a, 'm) tx_env \<Rightarrow> bool \<Rightarrow> 'd leveldb \<Rightarrow> 'd \<Rightarrow> byte \<Rightarrow> ('o, 's, 'n, 'a, 'm) ptx \<Rightarrow> verdict" where
  "Tx_ValidateTxByItself E hasPrivacy D s shardID tx =
     andThen (Tx_ValidateTransaction E hasPrivacy D s shardID ConstantID tx) (\<lambda>(ok, err).
       if \<not> ok then Inr (False, err)
       else case tx_Metadata tx of
         None \<Rightarrow> Inr (True, None)
       | Some m \<Rightarrow>
           if hasPrivacy then Inr (False, Some (TxErr ''Metadata can not exist in not privacy tx''))
           else if md_ValidateMetadataByItself (te_meta E) m then Inr (True, None)
           else Inr (False, Some (TxErr ''Validate Metadata fail'')))"

definition Tx_VerifyMinerCreatedTx :: "('o, 's, 'n, 'a, 'm) tx_env \<Rightarrow> ('o, 's, 'n, 'a, 'm) ptx \<Rightarrow> verdict" where
  "Tx_VerifyMinerCreatedTx E tx =
     (if Tx_IsPrivacy tx then Inr (True, None)
      else let coinbase = (case tx_Proof tx of None \<Rightarrow> False
               | Some p \<Rightarrow> length (pp_InputCoins p) = 0 \<and> length (pp_OutputCoins p) > 0)
      in case tx_Metadata tx of
           None \<Rightarrow> if coinbase then Inr (False, None) else Inr (True, None)
         | Some m \<Rightarrow> if coinbase \<and> \<not> md_IsMinerCreatedMetaType (te_meta E) m then Inr (False, None)
             else md_VerifyMinerCreatedTx (te_meta E) m (NormalTx tx))"

end
