(* ===== verification/Tx_Salary.thy ===== *)
theory Tx_Salary
  imports Transactions
begin

text \<open>
  Signed transactions and the reward of a block: \<open>InitTxSalary\<close> (\<open>src/transaction/txprivacy.go\<close>) with
  \<open>Coin.CommitAll\<close> (\<open>src/privacy/coin.go\<close>). Random scalars are arguments: the randomness of the coin, the nonce of
  the signature, and the list of candidates the loop draws for the serial number derivator.
\<close>

section \<open>The code\<close>

definition GetPubKeyLastByte :: "curve \<Rightarrow> point Coin \<Rightarrow> fault + byte" where
  "GetPubKeyLastByte cv c = andThen (deref (cn_PublicKey c)) (\<lambda>pk. last_byte (Compress cv pk))"

definition Coin_CommitAll :: "curve \<Rightarrow> point list \<Rightarrow> point Coin \<Rightarrow> fault + point Coin" where
  "Coin_CommitAll cv G c =
     andThen (GetPubKeyLastByte cv c) (\<lambda>b.
     andThen (deref (cn_SNDerivator c)) (\<lambda>sd.
     andThen (deref (cn_Randomness c)) (\<lambda>rnd.
       let shardID = GetShardIDFromLastByte b;
           openings = [0, int (unat (cn_Value c)), sd, int (unat shardID), rnd]
       in andThen (deref (CommitAll cv G openings)) (\<lambda>cm.
          andThen (deref (cn_PublicKey c)) (\<lambda>pk.
            Inr (c\<lparr>cn_CoinCommitment := Some (Add cv cm pk)\<rparr>))))))"

text \<open>
  \<open>candidates\<close> are the scalars the loop draws until one is not in the database; the outer \<open>None\<close> means
  that it is still drawing. An inner \<open>None\<close> is an error.
\<close>

definition InitTxSalary ::
  "('o, 's, 'n, 'a, 'm) tx_env \<Rightarrow> 'd leveldb \<Rightarrow> 'd \<Rightarrow> uint64 \<Rightarrow> PaymentAddress \<Rightarrow> bytes \<Rightarrow> 'm option
   \<Rightarrow> int \<Rightarrow> int list \<Rightarrow> int \<Rightarrow> int \<Rightarrow> ('o, 's, 'n, 'a, 'm) ptx \<Rightarrow> (fault + ('o, 's, 'n, 'a, 'm) ptx option) option" where
  "InitTxSalary E D s salary receiverAddr privKey metaData rnd candidates s1 s2 tx =
     (case Decompress (te_cv E) (pa_Pk receiverAddr) of
        Inl (Panic f) \<Rightarrow> Some (Inl f)
      | Inl ReadErr \<Rightarrow> Some (Inr None)
      | Inr PK \<Rightarrow>
          (let lastByte = last (pa_Pk receiverAddr); shardIDSender = GetShardIDFromLastByte lastByte
           in case find (\<lambda>sd. \<not> CheckSNDerivatorExistence ConstantID sd shardIDSender D s) candidates of
                None \<Rightarrow> None
              | Some sndOut \<Rightarrow> Some (
                  andThen (Coin_CommitAll (te_cv E) (te_G E)
                    (new_Coin\<lparr>cn_Value := salary, cn_PublicKey := Some PK, cn_Randomness := Some rnd, cn_SNDerivator := Some sndOut\<rparr>)) (\<lambda>coin.
                  signTx E privKey s1 s2
                    (tx\<lparr>tx_Version := TxVersion, tx_Type := TxRewardType,
                        tx_LockTime := (if tx_LockTime tx = 0 then te_now E else tx_LockTime tx),
                        tx_Proof := Some (new_PaymentProof\<lparr>pp_OutputCoins := [\<lparr>oc_CoinDetails = Some coin, oc_CoinDetailsEncrypted = None\<rparr>]\<rparr>),
                        tx_PubKeyLastByteSender := lastByte, tx_SigPubKey := Some (pa_Pk receiverAddr), tx_Metadata := metaData\<rparr>)))))"

section \<open>Signing\<close>

lemma Tx_Hash_sig [simp]: "Tx_Hash E (tx\<lparr>tx_Sig := a\<rparr>) = Tx_Hash E tx" "Tx_Hash E (tx\<lparr>tx_SigPubKey := b\<rparr>) = Tx_Hash E tx"
  by (simp_all add: Tx_Hash_def Tx_String_def)

definition good_env :: "('o, 's, 'n, 'a, 'm) tx_env \<Rightarrow> bool" where
  "good_env E \<longleftrightarrow> curve_group (te_cv E) \<and> good_field (te_cv E) \<and> cv_N (te_cv E) < 256 ^ BigIntSize
     \<and> gens_ok (te_cv E) (te_G E) \<and> digest32 (te_sum256 E)"

lemma Tx_Hash_len: "good_env E \<Longrightarrow> Tx_Hash E tx = Inr h \<Longrightarrow> length h = HashSize"
  by (auto simp: Tx_Hash_def andThen_Inr_iff good_env_def HashH_def digest32_def)

definition sig_point :: "('o, 's, 'n, 'a, 'm) tx_env \<Rightarrow> bytes \<Rightarrow> point" where
  "sig_point E sigPrivKey = pk_PK (sk_PubKey (SchnPrivKey_Set (te_cv E) (te_G E)
     (int (be_val (take BigIntSize sigPrivKey))) (int (be_val (drop BigIntSize sigPrivKey)))))"

text \<open>A signature that was just made verifies, and signing changes nothing else.\<close>

lemma signTx_verifies:
  assumes "good_env E" and "tx_Sig tx = None" and "BigIntSize \<le> length key" and "0 \<le> s1" and "0 \<le> s2"
    and "on_curve (te_cv E) (sig_point E key)" and "Tx_Hash E tx = Inr h"
  shows "\<exists>sig. signTx E key s1 s2 tx = Inr (Some (tx\<lparr>tx_SigPubKey := Some (Compress (te_cv E) (sig_point E key)), tx_Sig := Some sig\<rparr>))
    \<and> verifySigTx E (tx\<lparr>tx_SigPubKey := Some (Compress (te_cv E) (sig_point E key)), tx_Sig := Some sig\<rparr>) = Inr (True, None)"
proof -
  note g = assms(1) [unfolded good_env_def]
  let ?sk = "int (be_val (take BigIntSize key))" and ?r = "int (be_val (drop BigIntSize key))"
  obtain sig sig' where sig: "Sign (te_sum256 E) (te_cv E) (SchnPrivKey_Set (te_cv E) (te_G E) ?sk ?r) s1 s2 h = Some sig"
    "SchnSignature_SetBytes (SchnSignature_Bytes sig) = Inr sig'"
    "Verify (te_sum256 E) (te_cv E) (SchnPubKey_Set (te_G E) (sig_point E key)) (Some sig') h = Inr True"
    using signature_verifies [of "te_cv E" "te_G E" "te_sum256 E" ?sk ?r s1 s2 h] g assms(4,5) Tx_Hash_len [OF assms(1,7)]
    unfolding sig_point_def by (metis of_nat_0_le_iff)
  have "Decompress (te_cv E) (Compress (te_cv E) (sig_point E key)) = Inr (sig_point E key)"
    using decompress_compress [of "te_cv E" "fst (sig_point E key)" "snd (sig_point E key)"] g assms(6) by (simp add: Decompress_def)
  then have "verifySigTx E (tx\<lparr>tx_SigPubKey := Some (Compress (te_cv E) (sig_point E key)), tx_Sig := Some (SchnSignature_Bytes sig)\<rparr>)
      = Inr (True, None)"
    using sig assms(7) by (simp add: verifySigTx_def andThen_def)
  moreover have "signTx E key s1 s2 tx
      = Inr (Some (tx\<lparr>tx_SigPubKey := Some (Compress (te_cv E) (sig_point E key)), tx_Sig := Some (SchnSignature_Bytes sig)\<rparr>))"
    using assms(2,3,7) sig(1) by (simp add: signTx_def Let_def andThen_def sig_point_def)
  ultimately show ?thesis by blast
qed

section \<open>Commitments\<close>

lemma value_factor_small: "unat v < 2 ^ 63 \<Longrightarrow> value_factor v = unat v"
proof -
  assume "unat v < 2 ^ 63"
  then have "uint v < 2 ^ 63" by (metis of_nat_less_iff of_nat_numeral of_nat_power uint_nat)
  then have "sint v = uint v" unfolding sint_uint using signed_take_bit_int_eq_self [of 63 "uint v"] uint_ge_0 [of v] by simp
  then show "value_factor v = unat v" by (simp add: value_factor_def)
qed

lemma gens_nth: "gens_ok cv G \<Longrightarrow> i < 5 \<Longrightarrow> curve_pt cv (G ! i)"
  by (simp add: gens_ok_def list_all_length)

lemma CommitAll_five:
  assumes "curve_group cv" and "gens_ok cv G"
  shows "CommitAll cv G [0, v, sd, sh, rnd] = Some (Curve_Add cv (Curve_Add cv (Curve_Add cv
     (ScalarMult cv (G ! 1) v) (ScalarMult cv (G ! 2) sd)) (ScalarMult cv (G ! 3) sh)) (ScalarMult cv (G ! 4) rnd))"
proof -
  have len: "length G = 5" using assms(2) by (simp add: gens_ok_def)
  have "G = [G ! 0, G ! 1, G ! 2, G ! 3, G ! 4]"
    using len by (intro nth_equalityI) (auto simp: less_Suc_eq numeral_nat)
  moreover have "ScalarMult cv (G ! 0) 0 = Zero" using ScalarMult_0 [OF assms(1) gens_nth [OF assms(2)]] by simp
  ultimately have "zip G [0, v, sd, sh, rnd] = [(G ! 0, 0), (G ! 1, v), (G ! 2, sd), (G ! 3, sh), (G ! 4, rnd)]"
    by (metis zip_Cons_Cons zip_Nil)
  then show ?thesis using len \<open>ScalarMult cv (G ! 0) 0 = Zero\<close> by (simp add: CommitAll_def Add_def)
qed

text \<open>What \<open>CommitAll\<close> computes is what the verifiers recompute, as long as the value reads the same as a signed number.\<close>

lemma CommitAll_matches:
  assumes G: "curve_group cv" "gens_ok cv G" and pk: "cn_PublicKey c = Some PK" "on_curve cv PK" "Compress cv PK \<noteq> []"
    and c: "cn_SNDerivator c = Some sd" "cn_Randomness c = Some rnd" "0 \<le> sd" "0 \<le> rnd" and v: "unat (cn_Value c) < 2 ^ 63"
  shows "\<exists>cm. Coin_CommitAll cv G c = Inr (c\<lparr>cn_CoinCommitment := Some cm\<rparr>)
    \<and> commitment_matches (pedersen_of cv G) (GetShardIDFromLastByte (last (Compress cv PK))) (c\<lparr>cn_CoinCommitment := Some cm\<rparr>) = Inr True"
proof -
  let ?sh = "GetShardIDFromLastByte (last (Compress cv PK))"
  let ?V = "ScalarMult cv (G ! 1) (int (unat (cn_Value c)))" and ?S = "ScalarMult cv (G ! 2) sd"
  let ?H = "ScalarMult cv (G ! 3) (int (unat ?sh))" and ?R = "ScalarMult cv (G ! 4) rnd"
  have val: "int (value_factor (cn_Value c)) = int (unat (cn_Value c))"
    using value_factor_small [OF v] by simp
  have pts: "curve_pt cv PK" "curve_pt cv ?V" "curve_pt cv ?S" "curve_pt cv ?H" "curve_pt cv ?R"
    using pk(2) by (simp add: curve_pt_def) (intro curve_pt_ScalarMult [OF G(1)] gens_nth [OF G(2)]; simp)+
  let ?L = "Curve_Add cv (Curve_Add cv (Curve_Add cv ?V ?S) ?H) ?R"
  have "Curve_Add cv ?L PK = Curve_Add cv PK ?L"
    by (rule Curve_Add_commute) (intro G(1) pts curve_pt_Add)+
  also have "\<dots> = Curve_Add cv (Curve_Add cv (Curve_Add cv (Curve_Add cv PK ?V) ?S) ?H) ?R"
    using pts G(1) by (simp add: Curve_Add_assoc curve_pt_Add)
  finally have "Curve_Add cv ?L PK = Curve_Add cv (Curve_Add cv (Curve_Add cv (Curve_Add cv PK ?V) ?S) ?H) ?R" .
  then show ?thesis
    using pk c val by (intro exI [of _ "Curve_Add cv ?L PK"]) (simp add: Coin_CommitAll_def GetPubKeyLastByte_def last_byte_def andThen_def deref_def Let_def CommitAll_five [OF G]
        commitment_matches_def coin_commitment_def pedersen_of_def Add_def
        ped_index_VALUE_def ped_index_SND_def ped_index_SHARDID_def ped_index_RAND_def)
qed

section \<open>The reward transaction\<close>

text \<open>A proof with one output coin in the open has bytes, so the transaction has a hash.\<close>

lemma Tx_Hash_coinbase:
  "tx_Proof tx = Some (new_PaymentProof\<lparr>pp_OutputCoins := [\<lparr>oc_CoinDetails = Some c, oc_CoinDetailsEncrypted = None\<rparr>]\<rparr>)
   \<Longrightarrow> \<exists>h. Tx_Hash E tx = Inr h"
  by (simp add: Tx_Hash_def Tx_String_def PaymentProof_Bytes_def new_PaymentProof_def write_range_def OutputCoin_Bytes_def
      andThen_def Base58Check_Encode_eq)

lemma Compress_nonempty: "good_field cv \<Longrightarrow> on_curve cv p \<Longrightarrow> Compress cv p \<noteq> []"
  using length_Compress [of cv p] by auto

text \<open>What a reward transaction is checked for, given a valid signature.\<close>

lemma ValidateTxSalary_coinbase:
  assumes "verifySigTx E tx = Inr (True, e)" and "tx_Proof tx = Some p" and "pp_OutputCoins p = [oc]" and "oc_CoinDetails oc = Some c"
    and "cn_PublicKey c = Some PK" and "Compress (te_cv E) PK \<noteq> []" and "cn_SNDerivator c = Some sd"
    and "\<not> CheckSNDerivatorExistence ConstantID sd (GetShardIDFromLastByte (last (Compress (te_cv E) PK))) D s"
    and "commitment_matches (tx_ped E) (GetShardIDFromLastByte (last (Compress (te_cv E) PK))) c = Inr True"
  shows "ValidateTxSalary E D s tx = Inr (True, None)"
  using assms by (simp add: ValidateTxSalary_def andThen_def deref_def index_def output_shard_def last_byte_def)

section \<open>Properties\<close>

text \<open>C26: the salary transaction is well formed. For a receiver whose address is a point of the curve, a salary below \<open>2^63\<close> and
  a draw that contains a serial number derivator the database does not have, \<open>InitTxSalary\<close> returns a
  transaction with one output of exactly the salary, and \<open>Tx.ValidateTransaction\<close> accepts it on the same
  database: the signature verifies, the derivator is new and the commitment is the one recomputed. This is about that function
  only: the pool does not call it for a salary transaction, and from \<open>2^63\<close> on the recomputed commitment differs.
\<close>

theorem salary_accepted:
  assumes "good_env E" and "tx_Sig tx = None" and "length privKey = BigIntSize" and "on_curve (te_cv E) (sig_point E privKey)"
    and "on_curve (te_cv E) PK" and "pa_Pk addr = Compress (te_cv E) PK" and "unat salary < 2 ^ 63" and "0 \<le> rnd" and "0 \<le> s1" and "0 \<le> s2"
    and "find (\<lambda>sd. \<not> CheckSNDerivatorExistence ConstantID sd (GetShardIDFromLastByte (last (pa_Pk addr))) D s) candidates = Some sd" and "0 \<le> sd"
  shows "\<exists>tx' p c. InitTxSalary E D s salary addr privKey meta rnd candidates s1 s2 tx = Some (Inr (Some tx'))
    \<and> tx_Proof tx' = Some p \<and> pp_InputCoins p = [] \<and> pp_OutputCoins p = [\<lparr>oc_CoinDetails = Some c, oc_CoinDetailsEncrypted = None\<rparr>]
    \<and> cn_Value c = salary \<and> cn_PublicKey c = Some PK
    \<and> Tx_ValidateTransaction E hasPrivacy D s shardID tokenID tx' = Inr (True, None)"
proof -
  note g = assms(1) [unfolded good_env_def]
  let ?cv = "te_cv E" and ?sh = "GetShardIDFromLastByte (last (Compress (te_cv E) PK))"
  let ?c = "new_Coin\<lparr>cn_Value := salary, cn_PublicKey := Some PK, cn_Randomness := Some rnd, cn_SNDerivator := Some sd\<rparr>"
  have ne: "Compress ?cv PK \<noteq> []" using Compress_nonempty g assms(5) by blast
  obtain cm where cm: "Coin_CommitAll ?cv (te_G E) ?c = Inr (?c\<lparr>cn_CoinCommitment := Some cm\<rparr>)"
    "commitment_matches (tx_ped E) ?sh (?c\<lparr>cn_CoinCommitment := Some cm\<rparr>) = Inr True"
    using CommitAll_matches [of ?cv "te_G E" ?c PK sd rnd] g assms(5,7,8,12) ne by (auto simp: tx_ped_def)
  define pf :: "(point, 'a, 'b, 'c, 'd) PaymentProof" where
    "pf = new_PaymentProof\<lparr>pp_OutputCoins := [\<lparr>oc_CoinDetails = Some (?c\<lparr>cn_CoinCommitment := Some cm\<rparr>), oc_CoinDetailsEncrypted = None\<rparr>]\<rparr>"
  define tx1 where "tx1 = tx\<lparr>tx_Version := TxVersion, tx_Type := TxRewardType,
      tx_LockTime := (if tx_LockTime tx = 0 then te_now E else tx_LockTime tx), tx_Proof := Some pf,
      tx_PubKeyLastByteSender := last (pa_Pk addr), tx_SigPubKey := Some (pa_Pk addr), tx_Metadata := meta\<rparr>"
  obtain h where h: "Tx_Hash E tx1 = Inr h" using Tx_Hash_coinbase [of tx1] by (auto simp: tx1_def pf_def)
  have "tx_Sig tx1 = None" "BigIntSize \<le> length privKey" using assms(2,3) by (simp_all add: tx1_def)
  from signTx_verifies [OF assms(1) this assms(9,10,4) h] obtain tx' sig where
    tx': "tx' = tx1\<lparr>tx_SigPubKey := Some (Compress ?cv (sig_point E privKey)), tx_Sig := Some sig\<rparr>"
    "signTx E privKey s1 s2 tx1 = Inr (Some tx')" "verifySigTx E tx' = Inr (True, None)" by blast
  have "Decompress ?cv (pa_Pk addr) = Inr PK"
    using decompress_compress [of ?cv "fst PK" "snd PK"] g assms(5,6) by (simp add: Decompress_def)
  then have init: "InitTxSalary E D s salary addr privKey meta rnd candidates s1 s2 tx = Some (Inr (Some tx'))"
    using cm(1) assms(11) tx'(2) by (simp add: InitTxSalary_def Let_def andThen_def tx1_def pf_def)
  have fresh_sd: "\<not> CheckSNDerivatorExistence ConstantID sd ?sh D s" using assms(6,11) by (auto simp: find_Some_iff)
  have ty: "tx_Type tx' = TxRewardType" "tx_Proof tx' = Some pf" by (simp_all add: tx'(1) tx1_def)
  have "ValidateTxSalary E D s tx' = Inr (True, None)"
    by (rule ValidateTxSalary_coinbase [OF tx'(3) ty(2), where oc = "hd (pp_OutputCoins pf)", OF _ _ _ ne _ fresh_sd cm(2)])
      (simp_all add: pf_def)
  then show ?thesis using init ty by (auto simp: Tx_ValidateTransaction_def pf_def new_PaymentProof_def)
qed

text \<open>A reward of 100 on the small curve, with an empty database and no metadata.\<close>

definition ex_meta :: "('f, unit) meta_ops" where
  "ex_meta = \<lparr>md_GetType = (\<lambda>_. 0), md_Hash = (\<lambda>_. zero_hash), md_CheckTransactionFee = (\<lambda>_ _ _. Inr True), md_CalculateSize = (\<lambda>_. 0),
     md_ValidateSanityData = (\<lambda>_ _. Inr (True, True, None)), md_ValidateMetadataByItself = (\<lambda>_. True),
     md_ValidateTxWithBlockChain = (\<lambda>_ _ _. Inr (True, None)), md_IsMinerCreatedMetaType = (\<lambda>_. True),
     md_VerifyMinerCreatedTx = (\<lambda>_ _. Inr (True, None))\<rparr>"

definition ex_ops :: "(point, unit, unit, unit, unit) proof_ops" where
  "ex_ops = \<lparr>op_compress = Compress ex_curve, op_decompress = Decompress ex_curve,
     op_oneBytes = (\<lambda>_. []), op_oneSetBytes = (\<lambda>_. Inr ()), op_snBytes = (\<lambda>_. []), op_snSetBytes = (\<lambda>_. Inr ()),
     op_nnBytes = (\<lambda>_. []), op_nnSetBytes = (\<lambda>_. Inr ()), op_arBytes = (\<lambda>_. []), op_arSetBytes = (\<lambda>_. Inr ())\<rparr>"

definition ex_env :: "(unit, unit, unit, unit, unit) tx_env" where
  "ex_env = \<lparr>te_sum256 = ex_digest, te_ops = ex_ops, te_cv = ex_curve, te_G = ex_gens,
     te_oneSanity = (\<lambda>_. True), te_snSanity = (\<lambda>_. True), te_nnSanity = (\<lambda>_. True), te_arSanity = (\<lambda>_. True),
     te_nnVerify = (\<lambda>_. True), te_verifyPrivacy = (\<lambda>_ _ _ _ _. Inr False), te_meta = ex_meta, te_now = 1000\<rparr>"

definition ex_tx :: "(unit, unit, unit, unit, unit) ptx" where
  "ex_tx = \<lparr>tx_Version = 1, tx_Type = ''n'', tx_LockTime = 0, tx_Fee = 0, tx_Info = [], tx_SigPubKey = None, tx_Sig = None,
     tx_Proof = None, tx_PubKeyLastByteSender = 0, tx_Metadata = None\<rparr>"

definition ex_key :: bytes where
  "ex_key = replicate 31 0 @ [1]"

definition ex_addr :: PaymentAddress where
  "ex_addr = \<lparr>pa_Pk = Compress ex_curve (4, 5), pa_Tk = []\<rparr>"

lemma ex_good_env: "good_env ex_env"
  using ex_curve_group ex_good_field ex_gens_ok ex_digest32 by (simp add: good_env_def ex_env_def BigIntSize_def) (simp add: ex_curve_def)

lemma ex_sig_point: "sig_point ex_env ex_key = (0, 1)"
proof -
  have "int (be_val (take BigIntSize ex_key)) = 1" "int (be_val (drop BigIntSize ex_key)) = 0"
    using be_val_replicate_0 [of 31 "[1]"] by (simp_all add: ex_key_def BigIntSize_def be_val_Cons)
  moreover have "pk_PK (sk_PubKey (SchnPrivKey_Set ex_curve ex_gens 1 0)) = (0, 1)" by code_simp
  ultimately show ?thesis by (simp add: sig_point_def ex_env_def)
qed

theorem salary_accepted_witness:
  "\<exists>tx' p c. InitTxSalary ex_env mem_db fmempty 100 ex_addr ex_key None 3 [5] 2 0 ex_tx = Some (Inr (Some tx'))
    \<and> tx_Proof tx' = Some p \<and> pp_InputCoins p = [] \<and> pp_OutputCoins p = [\<lparr>oc_CoinDetails = Some c, oc_CoinDetailsEncrypted = None\<rparr>]
    \<and> cn_Value c = 100 \<and> cn_PublicKey c = Some (4, 5)
    \<and> Tx_ValidateTransaction ex_env False mem_db fmempty 0 ConstantID tx' = Inr (True, None)"
proof (rule salary_accepted [OF ex_good_env])
  show "on_curve (te_cv ex_env) (sig_point ex_env ex_key)" "on_curve (te_cv ex_env) (4, 5)"
    by (simp_all add: ex_sig_point) (simp_all add: ex_env_def ex_on_curve ex_points_def)
  show "find (\<lambda>sd. \<not> CheckSNDerivatorExistence ConstantID sd (GetShardIDFromLastByte (last (pa_Pk ex_addr))) mem_db fmempty) [5] = Some 5"
    by (simp add: CheckSNDerivatorExistence_def HasSNDerivator_def db_Get_def mem_db_def)
qed (simp_all add: ex_tx_def ex_key_def BigIntSize_def ex_addr_def ex_env_def)

end
