(* ===== verification/Token_Tx.thy ===== *)
theory Token_Tx
  imports Transactions Key_Set
begin

text \<open>
  Token transactions: \<open>TxCustomToken\<close> (\<open>src/transaction/txcustomtoken.go\<close>, \<open>txcustomtokendata.go\<close>), whose token
  moves from outputs of earlier transactions (vins) to new outputs (vouts) in the open, and
  \<open>TxCustomTokenPrivacy\<close> (\<open>txcustomtokenprivacy.go\<close>, \<open>txcustomtokenprivacydata.go\<close>), whose token moves in a second
  payment. What the code asks of the blockchain (\<open>BlockchainRetriever\<close>) is the argument \<open>chain_view\<close>:
  transactions by hash and the transactions of a token, \<open>None\<close> for an error.
\<close>

section \<open>Token data\<close>

definition TxTokenVin_String :: "(bytes \<Rightarrow> bytes) \<Rightarrow> TxTokenVin \<Rightarrow> fault + string" where
  "TxTokenVin_String sum256 v =
     andThen (Base58Check_Encode sum256 (pa_Pk (vin_PaymentAddress v)) 0) (\<lambda>pk.
       Inr (Hash_String (vin_TxCustomTokenID v) @ itoa (vin_VoutIndex v) @ vin_Signature v @ pk))"

definition TxTokenVin_Hash :: "(bytes \<Rightarrow> bytes) \<Rightarrow> TxTokenVin \<Rightarrow> fault + hash" where
  "TxTokenVin_Hash sum256 v = andThen (TxTokenVin_String sum256 v) (\<lambda>r. Inr (HashH sum256 (bytes_of_string r)))"

definition TxTokenVout_String :: "(bytes \<Rightarrow> bytes) \<Rightarrow> TxTokenVout \<Rightarrow> fault + string" where
  "TxTokenVout_String sum256 v =
     andThen (Base58Check_Encode sum256 (pa_Pk (vout_PaymentAddress v)) 0) (\<lambda>pk. Inr (decimal (unat (vout_Value v)) @ pk))"

definition TxTokenVout_Hash :: "(bytes \<Rightarrow> bytes) \<Rightarrow> TxTokenVout \<Rightarrow> fault + hash" where
  "TxTokenVout_Hash sum256 v = andThen (TxTokenVout_String sum256 v) (\<lambda>r. Inr (HashH sum256 (bytes_of_string r)))"

definition TxTokenData_String :: "(bytes \<Rightarrow> bytes) \<Rightarrow> TxTokenData \<Rightarrow> fault + string" where
  "TxTokenData_String sum256 d =
     andThen (map_fault (TxTokenVin_String sum256) (td_Vins d)) (\<lambda>vins.
     andThen (map_fault (TxTokenVout_String sum256) (td_Vouts d)) (\<lambda>vouts.
       Inr (td_PropertyName d @ td_PropertySymbol d @ decimal (unat (td_Amount d)) @ concat vins @ concat vouts)))"

text \<open>A hash exists unless the vouts are nil; empty vouts are taken as nil here.\<close>

definition TxTokenData_Hash :: "(bytes \<Rightarrow> bytes) \<Rightarrow> TxTokenData \<Rightarrow> fault + hash option" where
  "TxTokenData_Hash sum256 d =
     (if td_Vouts d = [] then Inr None
      else andThen (TxTokenData_String sum256 d) (\<lambda>r. Inr (Some (HashH sum256 (bytes_of_string r)))))"

definition token_String :: "('o, 's, 'n, 'a, 'm) tx_env \<Rightarrow> ('o, 's, 'n, 'a, 'm) ptoken \<Rightarrow> fault + string" where
  "token_String E tx =
     andThen (Tx_Hash E (ct_Tx tx)) (\<lambda>h.
     andThen (TxTokenData_Hash (te_sum256 E) (ct_TxTokenData tx)) (\<lambda>dh.
     andThen (deref dh) (\<lambda>d.
       Inr (Hash_String h @ Hash_String d
         @ (case tx_Metadata (ct_Tx tx) of None \<Rightarrow> [] | Some m \<Rightarrow> Hash_String (md_Hash (te_meta E) m))))))"

definition token_Hash :: "('o, 's, 'n, 'a, 'm) tx_env \<Rightarrow> ('o, 's, 'n, 'a, 'm) ptoken \<Rightarrow> fault + hash" where
  "token_Hash E tx = andThen (token_String E tx) (\<lambda>r. Inr (HashH (te_sum256 E) (bytes_of_string r)))"

definition token_GetTxActualSize :: "('o, 's, 'n, 'a, 'm) tx_env \<Rightarrow> ('o, 's, 'n, 'a, 'm) ptoken \<Rightarrow> fault + uint64" where
  "token_GetTxActualSize E tx =
     andThen (Tx_GetTxActualSize E (ct_Tx tx)) (\<lambda>normalTxSize.
       let d = ct_TxTokenData tx;
           tokenDataSize = of_nat (length (td_PropertyName d)) + of_nat (length (td_PropertyID d)) + 4
             + sum_list (map (\<lambda>v. of_nat (length (vin_Signature v)) + of_nat (length (vin_TxCustomTokenID v)) + 4
                 + of_nat (PaymentAddress_Size (vin_PaymentAddress v))) (td_Vins d))
             + sum_list (map (\<lambda>v. 8 + of_nat (PaymentAddress_Size (vout_PaymentAddress v))) (td_Vouts d))
             + meta_size (te_meta E) (tx_Metadata (ct_Tx tx))
       in Inr (normalTxSize + kilobytes tokenDataSize))"

section \<open>Double spending of token outputs\<close>

definition same_utxo :: "TxTokenVin \<Rightarrow> TxTokenVin \<Rightarrow> bool" where
  "same_utxo a b \<longleftrightarrow> Hash_String (vin_TxCustomTokenID a) = Hash_String (vin_TxCustomTokenID b) \<and> vin_VoutIndex a = vin_VoutIndex b"

text \<open>The type assertion on a transaction that is not a token transaction panics.\<close>

definition as_token :: "('f, 'm) Transaction \<Rightarrow> fault + ('f, 'm) TxCustomToken" where
  "as_token t = (case t of TokenTx x \<Rightarrow> Inr x | _ \<Rightarrow> Inl (ExplicitPanic ''interface conversion''))"

definition validateDoubleSpendCustomTokenOnTx :: "('f, 'm) TxCustomToken \<Rightarrow> ('f, 'm) Transaction \<Rightarrow> fault + tx_error option" where
  "validateDoubleSpendCustomTokenOnTx tx txInBlock =
     andThen (as_token txInBlock) (\<lambda>temp.
       Inr (if list_ex (\<lambda>vin. list_ex (same_utxo vin) (td_Vins (ct_TxTokenData tx))) (td_Vins (ct_TxTokenData temp))
            then Some (TransactionError DoubleSpend) else None))"

definition wrap_err :: "tx_error option \<Rightarrow> tx_error option" where
  "wrap_err e = map_option (\<lambda>_. TransactionError UnexpectedErr) e"

definition Transaction_base :: "('f, 'm) Transaction \<Rightarrow> ('f, 'm) Tx" where
  "Transaction_base t = (case t of NormalTx x \<Rightarrow> x | TokenTx x \<Rightarrow> ct_Tx x | PrivacyTokenTx x \<Rightarrow> cp_Tx x)"

text \<open>\<open>pool\<close> are the serial numbers and \<open>txsInMem\<close> the transactions of the pool, in the order of iteration.\<close>

definition token_ValidateTxWithCurrentMempool ::
  "('o, 's, 'n, 'a, 'm) tx_env \<Rightarrow> bytes list list \<Rightarrow> ('o, 's, 'n, 'a, 'm) ptransaction list \<Rightarrow> ('o, 's, 'n, 'a, 'm) ptoken \<Rightarrow> fault + tx_error option" where
  "token_ValidateTxWithCurrentMempool E pool txsInMem tx =
     (if tx_Type (ct_Tx tx) = TxRewardType \<or> tx_Type (ct_Tx tx) = TxReturnStakingType
      then Inr (Some (TxErr ''can not receive a salary tx | return staking tx from other node, this is a violation''))
      else andThen (double_spend_pool E pool (ct_Tx tx)) (\<lambda>e.
        if e \<noteq> None then Inr (wrap_err e)
        else loop_err (\<lambda>t. if tx_Type (Transaction_base t) = TxCustomTokenType
            then andThen (validateDoubleSpendCustomTokenOnTx tx t) (\<lambda>e. Inr (wrap_err e)) else Inr None) txsInMem))"

record ('f, 'm) chain_view =
  cw_GetTransactionByHash :: "hash \<Rightarrow> ('f, 'm) Transaction option"
  cw_GetCustomTokenTxs :: "hash \<Rightarrow> ('f, 'm) Transaction list option"

definition validateDoubleSpendCustomTokenWithBlockchain ::
  "('f, 'm) chain_view \<Rightarrow> ('f, 'm) TxCustomToken \<Rightarrow> fault + tx_error option" where
  "validateDoubleSpendCustomTokenWithBlockchain bcr tx =
     (case cw_GetCustomTokenTxs bcr (td_PropertyID (ct_TxTokenData tx)) of
        None \<Rightarrow> Inr (Some (TransactionError UnexpectedErr))
      | Some listTxs \<Rightarrow>
          if length listTxs = 0 \<and> td_Type (ct_TxTokenData tx) \<noteq> CustomTokenInit \<and> td_Type (ct_TxTokenData tx) \<noteq> CustomTokenCrossShard
          then Inr (Some (TransactionError TxNotExist))
          else loop_err (\<lambda>t. andThen (validateDoubleSpendCustomTokenOnTx tx t) (\<lambda>e. Inr (wrap_err e))) listTxs)"

definition token_ValidateTxWithBlockChain ::
  "('o, 's, 'n, 'a, 'm) tx_env \<Rightarrow> ((point, 'o, 's, 'n, 'a) PaymentProof, 'm) chain_view \<Rightarrow> 'd leveldb \<Rightarrow> 'd \<Rightarrow> byte
   \<Rightarrow> ('o, 's, 'n, 'a, 'm) ptoken \<Rightarrow> fault + tx_error option" where
  "token_ValidateTxWithBlockChain E bcr D s shardID tx =
     (let rest = andThen (ValidateConstDoubleSpendWithBlockchain E D s shardID (ct_Tx tx)) (\<lambda>e.
          if e \<noteq> None then Inr (wrap_err e) else validateDoubleSpendCustomTokenWithBlockchain bcr tx)
      in if tx_Type (ct_Tx tx) = TxRewardType then Inr (Some (TransactionError UnexpectedErr))
         else if tx_Type (ct_Tx tx) = TxReturnStakingType then Inr (Some (TransactionError UnexpectedErr))
         else case tx_Metadata (ct_Tx tx) of
           None \<Rightarrow> rest
         | Some m \<Rightarrow> andThen (md_ValidateTxWithBlockChain (te_meta E) m (TokenTx tx) shardID) (\<lambda>(isContinued, err).
             case err of Some e \<Rightarrow> Inr (Some (TransactionError UnexpectedErr))
             | None \<Rightarrow> if \<not> isContinued then Inr None else rest))"

section \<open>Sanity and validation by itself\<close>

definition vin_sanity :: "TxTokenVin \<Rightarrow> tx_error option" where
  "vin_sanity v =
     (if length (pa_Pk (vin_PaymentAddress v)) = 0 then Some (TransactionError WrongInput)
      else if vin_Signature v = [] then Some (TransactionError WrongSig)
      else if Hash_String (vin_TxCustomTokenID v) = Hash_String zero_hash then Some (TransactionError WrongInput)
      else None)"

definition vout_sanity :: "TxTokenVout \<Rightarrow> tx_error option" where
  "vout_sanity v =
     (if length (pa_Pk (vout_PaymentAddress v)) = 0 then Some (TransactionError WrongInput)
      else if vout_Value v = 0 then Some (TransactionError WrongInput) else None)"

definition validateCustomTokenTxSanityData :: "('o, 's, 'n, 'a, 'm) tx_env \<Rightarrow> ('o, 's, 'n, 'a, 'm) ptoken \<Rightarrow> verdict" where
  "validateCustomTokenTxSanityData E tx =
     andThen (Tx_ValidateSanityData E (ct_Tx tx)) (\<lambda>(ok, err).
       if err \<noteq> None \<or> \<not> ok then Inr (ok, Some (TransactionError UnexpectedErr))
       else andThen (loop_err (\<lambda>v. Inr (vin_sanity v)) (td_Vins (ct_TxTokenData tx))) (\<lambda>e1.
         if e1 \<noteq> None then Inr (False, e1)
         else andThen (loop_err (\<lambda>v. Inr (vout_sanity v)) (td_Vouts (ct_TxTokenData tx))) (\<lambda>e2.
           if e2 \<noteq> None then Inr (False, e2) else Inr (True, None))))"

definition token_ValidateSanityData :: "('o, 's, 'n, 'a, 'm) tx_env \<Rightarrow> ('o, 's, 'n, 'a, 'm) ptoken \<Rightarrow> verdict" where
  "token_ValidateSanityData E tx =
     (let rest = andThen (validateCustomTokenTxSanityData E tx) (\<lambda>(result, err). Inr (result, wrap_err err))
      in case tx_Metadata (ct_Tx tx) of
           None \<Rightarrow> rest
         | Some m \<Rightarrow> andThen (md_ValidateSanityData (te_meta E) m (TokenTx tx)) (\<lambda>(isContinued, ok, err).
             if err \<noteq> None \<or> \<not> ok \<or> \<not> isContinued then Inr (ok, err) else rest))"

definition index_int :: "'x list \<Rightarrow> int \<Rightarrow> fault + 'x" where
  "index_int xs i = (if i < 0 then Inl IndexOutOfRange else index xs (nat i))"

text \<open>
  The owner of a vin is checked with the address the vin itself names. A signature that is not
  base58check decodes to nil, which is too short for a signature. A transaction that is not in the
  list reads as an empty one.
\<close>

fun check_vins ::
  "('o, 's, 'n, 'a, 'm) tx_env \<Rightarrow> (hash, ('o, 's, 'n, 'a, 'm) ptoken) fmap \<Rightarrow> TxTokenVin list \<Rightarrow> uint64
   \<Rightarrow> fault + (bool \<times> tx_error option) + uint64" where
  "check_vins E listUtxo [] sumVin = Inr (Inr sumVin)"
| "check_vins E listUtxo (vin # vins) sumVin =
     andThen (index_int (case fmlookup listUtxo (vin_TxCustomTokenID vin) of None \<Rightarrow> [] | Some u \<Rightarrow> td_Vouts (ct_TxTokenData u))
       (vin_VoutIndex vin)) (\<lambda>vout.
     andThen (TxTokenVout_Hash (te_sum256 E) vout) (\<lambda>data.
       let signature = (case Base58Check_Decode (te_sum256 E) (vin_Signature vin) of Inl _ \<Rightarrow> [] | Inr (sg, _) \<Rightarrow> sg)
       in andThen (KeySet_Verify (te_sum256 E) (te_cv E) (te_G E) (pa_Pk (vin_PaymentAddress vin)) data signature) (\<lambda>r.
         case r of
           None \<Rightarrow> Inr (Inl (False, Some (TxErr ''decompress'')))
         | Some ok \<Rightarrow> if \<not> ok then Inr (Inl (False, None)) else check_vins E listUtxo vins (sumVin + vout_Value vout))))"

definition token_ValidateTransaction ::
  "('o, 's, 'n, 'a, 'm) tx_env \<Rightarrow> bool \<Rightarrow> 'd leveldb \<Rightarrow> 'd \<Rightarrow> byte \<Rightarrow> hash \<Rightarrow> (hash, ('o, 's, 'n, 'a, 'm) ptoken) fmap
   \<Rightarrow> ('o, 's, 'n, 'a, 'm) ptoken \<Rightarrow> verdict" where
  "token_ValidateTransaction E hasPrivacy D s shardID tokenID listUtxo tx =
     andThen (Tx_ValidateTransaction E hasPrivacy D s shardID tokenID (ct_Tx tx)) (\<lambda>(ok, err).
       if ok then
         if map_len listUtxo = 0 then Inr (False, Some (TxErr ''Len listUtxo is 0''))
         else if length (td_Vins (ct_TxTokenData tx)) = 0 then Inr (False, Some (TxErr ''Len Vins is 0''))
         else andThen (check_vins E listUtxo (td_Vins (ct_TxTokenData tx)) 0) (\<lambda>r.
           case r of Inl v \<Rightarrow> Inr v
           | Inr totalVinAmount \<Rightarrow>
               let totalVoutAmount = sum_list (map vout_Value (td_Vouts (ct_TxTokenData tx)))
               in if totalVinAmount \<noteq> totalVoutAmount then Inr (False, Some (TxErr ''Vin amount <> Vout amount'')) else Inr (True, None))
       else Inr (False, err))"

fun collect_utxo :: "('f, 'm) chain_view \<Rightarrow> TxTokenVin list \<Rightarrow> (hash, ('f, 'm) TxCustomToken) fmap \<Rightarrow> fault + (hash, ('f, 'm) TxCustomToken) fmap option" where
  "collect_utxo bcr [] data = Inr (Some data)"
| "collect_utxo bcr (vin # vins) data =
     (case cw_GetTransactionByHash bcr (vin_TxCustomTokenID vin) of
        None \<Rightarrow> Inr None
      | Some t \<Rightarrow> andThen (as_token t) (\<lambda>u. collect_utxo bcr vins (fmupd (vin_TxCustomTokenID vin) u data)))"

definition getListUTXOFromTxCustomToken ::
  "('f, 'm) chain_view \<Rightarrow> ('f, 'm) TxCustomToken \<Rightarrow> fault + (hash, ('f, 'm) TxCustomToken) fmap option" where
  "getListUTXOFromTxCustomToken bcr tx =
     andThen (collect_utxo bcr (td_Vins (ct_TxTokenData tx)) fmempty) (\<lambda>r.
       case r of None \<Rightarrow> Inr None | Some data \<Rightarrow> if map_len data = 0 then Inr None else Inr (Some data))"

text \<open>\<open>listUtxo\<close> is the list a transaction already carries.\<close>

definition token_ValidateTxByItself ::
  "('o, 's, 'n, 'a, 'm) tx_env \<Rightarrow> ((point, 'o, 's, 'n, 'a) PaymentProof, 'm) chain_view \<Rightarrow> bool \<Rightarrow> 'd leveldb \<Rightarrow> 'd \<Rightarrow> byte
   \<Rightarrow> (hash, ('o, 's, 'n, 'a, 'm) ptoken) fmap \<Rightarrow> ('o, 's, 'n, 'a, 'm) ptoken \<Rightarrow> verdict" where
  "token_ValidateTxByItself E bcr hasPrivacy D s shardID listUtxo tx =
     (let d = ct_TxTokenData tx in
      if td_Type d = CustomTokenInit then
        andThen (Tx_ValidateTransaction E hasPrivacy D s shardID ConstantID (ct_Tx tx)) (\<lambda>(ok, err).
          if \<not> ok then Inr (False, err)
          else if length (td_Vouts d) \<noteq> 1 then Inr (False, Some (TxErr ''Length of Vouts != 1''))
          else if length (td_Vins d) \<noteq> 0 then Inr (False, Some (TxErr ''Length of Vins != 0 and Vins is nil''))
          else Inr (True, None))
      else if td_Type d = CustomTokenCrossShard then
        andThen (Tx_ValidateTransaction E hasPrivacy D s shardID ConstantID (ct_Tx tx)) (\<lambda>(ok, err).
          if \<not> ok then Inr (False, err)
          else if map_len listUtxo \<noteq> 0 then Inr (False, Some (TxErr ''Length listUtxo != 0''))
          else if length (td_Vins d) \<noteq> 0 then Inr (False, Some (TxErr ''Length Vins != 0''))
          else Inr (True, None))
      else
        andThen (getListUTXOFromTxCustomToken bcr tx) (\<lambda>r.
          case r of None \<Rightarrow> Inr (False, Some (TxErr ''getListUTXOFromTxCustomToken''))
          | Some utxo \<Rightarrow>
              andThen (token_ValidateTransaction E hasPrivacy D s shardID ConstantID utxo tx) (\<lambda>(ok, err).
                if \<not> ok then Inr (False, err)
                else case tx_Metadata (ct_Tx tx) of
                  None \<Rightarrow> Inr (True, None)
                | Some m \<Rightarrow> if \<not> md_ValidateMetadataByItself (te_meta E) m then Inr (False, Some (TxErr ''Metadata is invalid''))
                    else Inr (True, None))))"

section \<open>Receivers and values\<close>

definition token_ValidateType :: "('f, 'm) TxCustomToken \<Rightarrow> bool" where
  "token_ValidateType tx \<longleftrightarrow> tx_Type (ct_Tx tx) = TxCustomTokenType"

definition token_GetSender :: "('f, 'm) TxCustomToken \<Rightarrow> bytes option" where
  "token_GetSender tx = (case td_Vins (ct_TxTokenData tx) of [] \<Rightarrow> None | v # _ \<Rightarrow> Some (pa_Pk (vin_PaymentAddress v)))"

definition vout_key :: "TxTokenVout \<Rightarrow> bytes \<times> uint64" where
  "vout_key v = (pa_Pk (vout_PaymentAddress v), vout_Value v)"

definition GetTokenReceivers :: "('f, 'm) TxCustomToken \<Rightarrow> (bytes \<times> uint64) list" where
  "GetTokenReceivers tx = receivers_of (map vout_key (td_Vouts (ct_TxTokenData tx)))"

definition GetTokenUniqueReceiver :: "('f, 'm) TxCustomToken \<Rightarrow> bool \<times> bytes \<times> uint64" where
  "GetTokenUniqueReceiver tx =
     unique_receiver (case token_GetSender tx of None \<Rightarrow> [] | Some k \<Rightarrow> k) (GetTokenReceivers tx)"

definition token_CalculateTxValue :: "('f, 'm) TxCustomToken \<Rightarrow> uint64" where
  "token_CalculateTxValue tx =
     (case token_GetSender tx of
        None \<Rightarrow> sum_list (map vout_Value (td_Vouts (ct_TxTokenData tx)))
      | Some senderPk \<Rightarrow> sum_list (map vout_Value (filter (\<lambda>v. pa_Pk (vout_PaymentAddress v) \<noteq> senderPk) (td_Vouts (ct_TxTokenData tx)))))"

text \<open>\<open>burningPk\<close> is the key of \<open>common.BurningAddress\<close>.\<close>

definition token_IsCoinsBurning :: "bytes \<Rightarrow> ('f, 'm) TxCustomToken \<Rightarrow> bool" where
  "token_IsCoinsBurning burningPk tx =
     (case token_GetSender tx of
        None \<Rightarrow> False
      | Some senderPk \<Rightarrow> if length (td_Vouts (ct_TxTokenData tx)) = 0 then False
          else list_all (\<lambda>v. pa_Pk (vout_PaymentAddress v) = senderPk \<or> pa_Pk (vout_PaymentAddress v) = burningPk) (td_Vouts (ct_TxTokenData tx)))"

definition GetMetadataFromVinsTx :: "('f, 'm) chain_view \<Rightarrow> ('f, 'm) TxCustomToken \<Rightarrow> tx_error + 'm option" where
  "GetMetadataFromVinsTx bcr tx =
     (case td_Vins (ct_TxTokenData tx) of
        [] \<Rightarrow> Inr None
      | v # _ \<Rightarrow> (case cw_GetTransactionByHash bcr (vin_TxCustomTokenID v) of
          None \<Rightarrow> Inl (TxErr ''GetTransactionByHash'')
        | Some t \<Rightarrow> Inr (tx_Metadata (Transaction_base t))))"

definition token_VerifyMinerCreatedTx :: "('o, 's, 'n, 'a, 'm) tx_env \<Rightarrow> ('o, 's, 'n, 'a, 'm) ptoken \<Rightarrow> verdict" where
  "token_VerifyMinerCreatedTx E tx =
     (if \<not> td_Mintable (ct_TxTokenData tx) then Inr (True, None)
      else case tx_Metadata (ct_Tx tx) of
        None \<Rightarrow> Inr (False, None)
      | Some m \<Rightarrow> if \<not> md_IsMinerCreatedMetaType (te_meta E) m then Inr (False, None)
          else md_VerifyMinerCreatedTx (te_meta E) m (TokenTx tx))"

section \<open>Tokens with privacy\<close>

text \<open>The text of the data contains raw bytes: \<open>string(b)\<close> reads them as characters.\<close>

definition privacy_out_text :: "('o, 's, 'n, 'a, 'm) tx_env \<Rightarrow> point OutputCoin \<Rightarrow> fault + string" where
  "privacy_out_text E oc = andThen (out_key E oc) (\<lambda>(k, v). Inr (string_of_bytes k @ decimal (unat v)))"

definition privacy_in_text :: "('o, 's, 'n, 'a, 'm) tx_env \<Rightarrow> point Coin \<Rightarrow> string" where
  "privacy_in_text E c =
     (case cn_PublicKey c of None \<Rightarrow> [] | Some pk \<Rightarrow> string_of_bytes (Compress (te_cv E) pk))
     @ (if cn_Value c > 0 then decimal (unat (cn_Value c)) else [])"

definition TxTokenPrivacyData_String ::
  "('o, 's, 'n, 'a, 'm) tx_env \<Rightarrow> ((point, 'o, 's, 'n, 'a) PaymentProof, 'm) TxTokenPrivacyData \<Rightarrow> fault + string" where
  "TxTokenPrivacyData_String E d =
     andThen (case tx_Proof (tpd_TxNormal d) of
         None \<Rightarrow> Inr []
       | Some p \<Rightarrow> andThen (map_fault (privacy_out_text E) (pp_OutputCoins p)) (\<lambda>outs.
           Inr (concat outs @ concat (map (privacy_in_text E) (pp_InputCoins p))))) (\<lambda>coins.
       Inr (tpd_PropertyName d @ tpd_PropertySymbol d @ decimal (unat (tpd_Amount d)) @ coins))"

definition TxTokenPrivacyData_Hash ::
  "('o, 's, 'n, 'a, 'm) tx_env \<Rightarrow> ((point, 'o, 's, 'n, 'a) PaymentProof, 'm) TxTokenPrivacyData \<Rightarrow> fault + hash" where
  "TxTokenPrivacyData_Hash E d = andThen (TxTokenPrivacyData_String E d) (\<lambda>r. Inr (HashH (te_sum256 E) (bytes_of_string r)))"

definition privacy_String :: "('o, 's, 'n, 'a, 'm) tx_env \<Rightarrow> ('o, 's, 'n, 'a, 'm) pprivacy \<Rightarrow> fault + string" where
  "privacy_String E tx =
     andThen (Tx_Hash E (cp_Tx tx)) (\<lambda>h.
     andThen (TxTokenPrivacyData_Hash E (cp_TxTokenPrivacyData tx)) (\<lambda>d.
       Inr (Hash_String h @ Hash_String d
         @ (case tx_Metadata (cp_Tx tx) of None \<Rightarrow> [] | Some m \<Rightarrow> string_of_bytes (md_Hash (te_meta E) m)))))"

definition privacy_Hash :: "('o, 's, 'n, 'a, 'm) tx_env \<Rightarrow> ('o, 's, 'n, 'a, 'm) pprivacy \<Rightarrow> fault + hash" where
  "privacy_Hash E tx = andThen (privacy_String E tx) (\<lambda>r. Inr (HashH (te_sum256 E) (bytes_of_string r)))"

definition privacy_GetTxActualSize :: "('o, 's, 'n, 'a, 'm) tx_env \<Rightarrow> ('o, 's, 'n, 'a, 'm) pprivacy \<Rightarrow> fault + uint64" where
  "privacy_GetTxActualSize E tx =
     andThen (Tx_GetTxActualSize E (cp_Tx tx)) (\<lambda>normalTxSize.
     andThen (Tx_GetTxActualSize E (tpd_TxNormal (cp_TxTokenPrivacyData tx))) (\<lambda>inner.
       let d = cp_TxTokenPrivacyData tx;
           tokenDataSize = inner + of_nat (length (tpd_PropertyName d)) + of_nat (length (tpd_PropertySymbol d))
             + of_nat (length (tpd_PropertyID d)) + 4 + 8 + meta_size (te_meta E) (tx_Metadata (cp_Tx tx))
       in Inr (normalTxSize + kilobytes tokenDataSize)))"

definition privacy_ValidateType :: "('f, 'm) TxCustomTokenPrivacy \<Rightarrow> bool" where
  "privacy_ValidateType tx \<longleftrightarrow> tx_Type (cp_Tx tx) = TxCustomTokenPrivacyType"

definition privacy_ValidateTxWithCurrentMempool ::
  "('o, 's, 'n, 'a, 'm) tx_env \<Rightarrow> bytes list list \<Rightarrow> ('o, 's, 'n, 'a, 'm) pprivacy \<Rightarrow> fault + tx_error option" where
  "privacy_ValidateTxWithCurrentMempool E pool tx = andThen (double_spend_pool E pool (cp_Tx tx)) (\<lambda>e. Inr (wrap_err e))"

text \<open>Only the serial numbers of the fee payment are looked up, not those of the token payment.\<close>

definition privacy_ValidateTxWithBlockChain ::
  "('o, 's, 'n, 'a, 'm) tx_env \<Rightarrow> 'd leveldb \<Rightarrow> 'd \<Rightarrow> byte \<Rightarrow> ('o, 's, 'n, 'a, 'm) pprivacy \<Rightarrow> fault + tx_error option" where
  "privacy_ValidateTxWithBlockChain E D s shardID tx =
     andThen (ValidateConstDoubleSpendWithBlockchain E D s shardID (cp_Tx tx)) (\<lambda>e. Inr (wrap_err e))"

definition privacy_ValidateSanityData :: "('o, 's, 'n, 'a, 'm) tx_env \<Rightarrow> ('o, 's, 'n, 'a, 'm) pprivacy \<Rightarrow> verdict" where
  "privacy_ValidateSanityData E tx =
     andThen (validateNormalTxSanityData E (cp_Tx tx)) (\<lambda>(result, err). Inr (result, wrap_err err))"

definition privacy_ValidateTransaction ::
  "('o, 's, 'n, 'a, 'm) tx_env \<Rightarrow> bool \<Rightarrow> 'd leveldb \<Rightarrow> 'd \<Rightarrow> byte \<Rightarrow> hash \<Rightarrow> ('o, 's, 'n, 'a, 'm) pprivacy \<Rightarrow> verdict" where
  "privacy_ValidateTransaction E hasPrivacy D s shardID tokenID tx =
     andThen (Tx_ValidateTransaction E hasPrivacy D s shardID tokenID (cp_Tx tx)) (\<lambda>(ok, err).
       if ok then
         let d = cp_TxTokenPrivacyData tx
         in Tx_ValidateTransaction E (tpd_Type d \<noteq> CustomTokenInit) D s shardID (tpd_PropertyID d) (tpd_TxNormal d)
       else Inr (False, err))"

definition privacy_ValidateTxByItself ::
  "('o, 's, 'n, 'a, 'm) tx_env \<Rightarrow> bool \<Rightarrow> 'd leveldb \<Rightarrow> 'd \<Rightarrow> byte \<Rightarrow> ('o, 's, 'n, 'a, 'm) pprivacy \<Rightarrow> verdict" where
  "privacy_ValidateTxByItself E hasPrivacy D s shardID tx =
     (if tpd_Type (cp_TxTokenPrivacyData tx) = CustomTokenInit then Inr (True, None)
      else andThen (privacy_ValidateTransaction E hasPrivacy D s shardID ConstantID tx) (\<lambda>(ok, err).
        if \<not> ok then Inr (False, err)
        else case tx_Metadata (cp_Tx tx) of
          None \<Rightarrow> Inr (True, None)
        | Some m \<Rightarrow> if \<not> md_ValidateMetadataByItself (te_meta E) m then Inr (False, Some (TxErr ''Metadata is invalid'')) else Inr (True, None)))"

end
