(* ===== verification/Double_Spend.thy ===== *)
theory Double_Spend
  imports Token_Tx Tx_Salary
begin

text \<open>
  What the checks of transactions (\<open>Transactions\<close>, \<open>Token_Tx\<close>) guarantee about coins and token outputs: which
  transactions the pool and the chain refuse because an input is already spent, what a token
  transfer conserves, and what it does not check.
\<close>

section \<open>Loops with an error\<close>

lemma loop_err_None: "loop_err f xs = Inr None \<longleftrightarrow> (\<forall>x \<in> set xs. f x = Inr None)"
  by (induction xs) (auto simp: andThen_Inr_iff split: option.splits)

lemma loop_err_total:
  "(\<And>x. x \<in> set xs \<Longrightarrow> \<exists>e. f x = Inr e) \<Longrightarrow> \<exists>e. loop_err f xs = Inr e"
proof (induction xs)
  case (Cons x xs)
  then obtain e r where "f x = Inr e" "loop_err f xs = Inr r" by (meson list.set_intros)
  then show ?case by (cases e) (simp_all add: andThen_def)
qed simp

lemma map_fault_set: "map_fault f xs = Inr ys \<Longrightarrow> x \<in> set xs \<Longrightarrow> \<exists>y \<in> set ys. f x = Inr y"
  by (induction xs arbitrary: ys) (auto simp: andThen_Inr_iff)

lemma map_fault_set': "map_fault f xs = Inr ys \<Longrightarrow> y \<in> set ys \<Longrightarrow> \<exists>x \<in> set xs. f x = Inr y"
  by (induction xs arbitrary: ys) (auto simp: andThen_Inr_iff)

section \<open>Coins\<close>

lemma inputs_cases:
  assumes "ListNullifiers E tx = Inr ns"
  obtains "tx_Proof tx = None" "ns = []" | p where "tx_Proof tx = Some p" "map_fault (serial_number E) (pp_InputCoins p) = Inr ns"
  using assms by (auto simp: ListNullifiers_def split: option.splits)

lemma all_inputs:
  assumes "map_fault (serial_number E) cs = Inr ns"
  shows "(\<forall>c \<in> set cs. andThen (serial_number E c) (\<lambda>sn. Inr (if Q sn then Some e else None)) = Inr None) \<longleftrightarrow> (\<forall>n \<in> set ns. \<not> Q n)"
  using map_fault_set [OF assms] map_fault_set' [OF assms] by (force simp: andThen_def split: if_splits)

lemma all_inputs_total:
  assumes "map_fault (serial_number E) cs = Inr ns"
  shows "\<exists>r. loop_err (\<lambda>c. andThen (serial_number E c) (\<lambda>sn. Inr (if Q sn then Some e else None))) cs = Inr r"
  using map_fault_set [OF assms] by (intro loop_err_total) (force simp: andThen_def)

lemma SliceBytesExists_iff: "SliceBytesExists xs b \<longleftrightarrow> b \<in> set xs"
  by (auto simp: SliceBytesExists_def list_ex_iff)

lemma double_spend_pool_iff:
  assumes "ListNullifiers E tx = Inr ns"
  shows "double_spend_pool E pool tx = Inr None \<longleftrightarrow> set ns \<inter> \<Union> (set ` set pool) = {}"
  using assms
proof (cases rule: inputs_cases)
  case 1
  then show ?thesis by (simp add: double_spend_pool_def)
next
  case (2 p)
  show ?thesis using 2(1)
    by (simp add: double_spend_pool_def loop_err_None all_inputs [OF 2(2)] SliceBytesExists_iff) blast
qed

lemma double_spend_pool_total:
  assumes "ListNullifiers E tx = Inr ns"
  shows "\<exists>e. double_spend_pool E pool tx = Inr e"
  using assms
proof (cases rule: inputs_cases)
  case (2 p)
  have "\<exists>e. loop_err (\<lambda>c. andThen (serial_number E c) (\<lambda>sn. Inr (if SliceBytesExists used sn then Some (TxErr ''double spend'') else None)))
      (pp_InputCoins p) = Inr e" for used
    by (rule all_inputs_total [OF 2(2)])
  then show ?thesis unfolding double_spend_pool_def using 2(1) by (simp add: loop_err_total)
qed (simp add: double_spend_pool_def)

lemma double_spend_chain_iff:
  assumes "ListNullifiers E tx = Inr ns"
  shows "ValidateConstDoubleSpendWithBlockchain E D s shardID tx = Inr None \<longleftrightarrow> (\<forall>n \<in> set ns. \<not> HasSerialNumber D ConstantID n shardID s)"
  using assms
proof (cases rule: inputs_cases)
  case (2 p)
  then show ?thesis by (simp add: ValidateConstDoubleSpendWithBlockchain_def loop_err_None all_inputs [OF 2(2)])
qed (simp add: ValidateConstDoubleSpendWithBlockchain_def)

section \<open>Token outputs\<close>

definition vin_output :: "(hash, ('f, 'm) TxCustomToken) fmap \<Rightarrow> TxTokenVin \<Rightarrow> fault + TxTokenVout" where
  "vin_output L vin = index_int (case fmlookup L (vin_TxCustomTokenID vin) of None \<Rightarrow> [] | Some u \<Rightarrow> td_Vouts (ct_TxTokenData u)) (vin_VoutIndex vin)"

definition vin_value :: "(hash, ('f, 'm) TxCustomToken) fmap \<Rightarrow> TxTokenVin \<Rightarrow> uint64" where
  "vin_value L vin = (case vin_output L vin of Inl _ \<Rightarrow> 0 | Inr v \<Rightarrow> vout_Value v)"

definition vin_sig :: "(bytes \<Rightarrow> bytes) \<Rightarrow> TxTokenVin \<Rightarrow> bytes" where
  "vin_sig sum256 vin = (case Base58Check_Decode sum256 (vin_Signature vin) of Inl _ \<Rightarrow> [] | Inr (sg, _) \<Rightarrow> sg)"

definition vin_signed :: "('o, 's, 'n, 'a, 'm) tx_env \<Rightarrow> (hash, ('o, 's, 'n, 'a, 'm) ptoken) fmap \<Rightarrow> TxTokenVin \<Rightarrow> bool" where
  "vin_signed E L vin \<longleftrightarrow> (\<exists>vout data. vin_output L vin = Inr vout \<and> TxTokenVout_Hash (te_sum256 E) vout = Inr data
     \<and> KeySet_Verify (te_sum256 E) (te_cv E) (te_G E) (pa_Pk (vin_PaymentAddress vin)) data (vin_sig (te_sum256 E) vin) = Inr (Some True))"

lemma check_vins_iff:
  "check_vins E L vins a = Inr (Inr t) \<longleftrightarrow> list_all (vin_signed E L) vins \<and> t = a + sum_list (map (vin_value L) vins)"
proof (induction vins arbitrary: a)
  case (Cons vin vins)
  show ?case
  proof (cases "vin_output L vin")
    case (Inl e)
    then show ?thesis by (simp add: vin_output_def [symmetric] andThen_def vin_signed_def)
  next
    case (Inr v)
    then show ?thesis using Cons
      by (auto simp: vin_output_def [symmetric] vin_sig_def [symmetric] vin_value_def vin_signed_def andThen_Inr_iff Let_def
          add.assoc split: option.splits if_splits)
  qed
qed auto

lemma token_ValidateTransaction_iff:
  "token_ValidateTransaction E hasPrivacy D s shardID tokenID L tx = Inr (True, e) \<longleftrightarrow>
     (\<exists>e'. Tx_ValidateTransaction E hasPrivacy D s shardID tokenID (ct_Tx tx) = Inr (True, e')) \<and> e = None
     \<and> map_len L \<noteq> 0 \<and> td_Vins (ct_TxTokenData tx) \<noteq> [] \<and> list_all (vin_signed E L) (td_Vins (ct_TxTokenData tx))
     \<and> sum_list (map (vin_value L) (td_Vins (ct_TxTokenData tx))) = sum_list (map vout_Value (td_Vouts (ct_TxTokenData tx)))"
proof -
  have no: "check_vins E L vins a \<noteq> Inr (Inl (True, e))" for vins a e
    by (induction vins arbitrary: a) (auto simp: andThen_Inr_iff Let_def split: option.splits if_splits)
  let ?r = "check_vins E L (td_Vins (ct_TxTokenData tx)) 0" and ?out = "sum_list (map vout_Value (td_Vouts (ct_TxTokenData tx)))"
  have "andThen ?r (\<lambda>r. case r of Inl v \<Rightarrow> Inr v | Inr a \<Rightarrow> if a \<noteq> ?out then Inr (False, Some (TxErr ''Vin amount <> Vout amount'')) else Inr (True, None))
      = Inr (True, e) \<longleftrightarrow> e = None \<and> ?r = Inr (Inr ?out)"
    using no [of "td_Vins (ct_TxTokenData tx)" 0 e] by (cases ?r; cases "projr ?r") (auto simp: andThen_def)
  note core = this [unfolded check_vins_iff add_0]
  show ?thesis
  proof (cases "Tx_ValidateTransaction E hasPrivacy D s shardID tokenID (ct_Tx tx)")
    case (Inl f)
    then show ?thesis by (simp add: token_ValidateTransaction_def andThen_fault)
  next
    case (Inr p)
    obtain ok e' where p: "p = (ok, e')" by fastforce
    show ?thesis
      unfolding token_ValidateTransaction_def Inr p andThen_ok prod.case Let_def
      by (cases ok; cases "map_len L = 0"; cases "td_Vins (ct_TxTokenData tx) = []") (auto simp: core)
  qed
qed

text \<open>Hashes of 32 bytes have different texts, so the comparison of texts is that of outputs.\<close>

lemma Hash_String_inject: "wf_hash a \<Longrightarrow> wf_hash b \<Longrightarrow> Hash_String a = Hash_String b \<longleftrightarrow> a = b"
  by (metis NewHashFromStr_String sum.inject(2))

definition spends :: "('f, 'm) TxCustomToken \<Rightarrow> (hash \<times> int) set" where
  "spends tx = (\<lambda>v. (vin_TxCustomTokenID v, vin_VoutIndex v)) ` set (td_Vins (ct_TxTokenData tx))"

definition wf_vins :: "('f, 'm) TxCustomToken \<Rightarrow> bool" where
  "wf_vins tx \<longleftrightarrow> list_all (\<lambda>v. wf_hash (vin_TxCustomTokenID v)) (td_Vins (ct_TxTokenData tx))"

lemma double_spend_on_tx:
  assumes "wf_vins tx" and "wf_vins t"
  shows "andThen (validateDoubleSpendCustomTokenOnTx tx (TokenTx t)) (\<lambda>e. Inr (wrap_err e)) = Inr None \<longleftrightarrow> spends tx \<inter> spends t = {}"
proof -
  let ?a = "td_Vins (ct_TxTokenData tx)" and ?b = "td_Vins (ct_TxTokenData t)"
  have same: "same_utxo v w \<longleftrightarrow> (vin_TxCustomTokenID v, vin_VoutIndex v) = (vin_TxCustomTokenID w, vin_VoutIndex w)"
    if "v \<in> set ?b" "w \<in> set ?a" for v w
    using that assms by (simp add: same_utxo_def wf_vins_def list_all_iff Hash_String_inject)
  have "list_ex (\<lambda>v. list_ex (same_utxo v) ?a) ?b \<longleftrightarrow> spends tx \<inter> spends t \<noteq> {}"
    unfolding list_ex_iff spends_def using same by (auto, blast, metis)
  then show ?thesis
    by (auto simp: validateDoubleSpendCustomTokenOnTx_def as_token_def andThen_def wrap_err_def)
qed

section \<open>Signing for an output of somebody else\<close>

definition thief_vin :: "('o, 's, 'n, 'a, 'm) tx_env \<Rightarrow> bytes \<Rightarrow> bytes \<Rightarrow> hash \<Rightarrow> nat \<Rightarrow> bytes \<Rightarrow> TxTokenVin" where
  "thief_vin E k tk txid i sig = \<lparr>vin_TxCustomTokenID = txid, vin_VoutIndex = int i, vin_Signature = b58check_text (te_sum256 E) sig 0,
     vin_PaymentAddress = \<lparr>pa_Pk = GeneratePublicKey (te_cv E) k, pa_Tk = tk\<rparr>\<rparr>"

lemma thief_signs:
  assumes "good_env E" and "gens_base (te_cv E) (te_G E)" and "on_curve (te_cv E) (key_point (te_cv E) k)" and "0 \<le> nonce"
    and "fmlookup L txid = Some u" and "i < length (td_Vouts (ct_TxTokenData u))" and "vout = td_Vouts (ct_TxTokenData u) ! i"
  shows "\<exists>data sig. TxTokenVout_Hash (te_sum256 E) vout = Inr data \<and> KeySet_Sign (te_sum256 E) (te_cv E) (te_G E) k nonce data = Some sig
    \<and> vin_signed E L (thief_vin E k tk txid i sig) \<and> vin_value L (thief_vin E k tk txid i sig) = vout_Value vout \<and> map_len L \<noteq> 0"
proof -
  note g = assms(1) [unfolded good_env_def]
  obtain data where data: "TxTokenVout_Hash (te_sum256 E) vout = Inr data"
    by (simp add: TxTokenVout_Hash_def TxTokenVout_String_def Base58Check_Encode_eq andThen_def)
  obtain sig where sig: "KeySet_Sign (te_sum256 E) (te_cv E) (te_G E) k nonce data = Some sig"
    "KeySet_Verify (te_sum256 E) (te_cv E) (te_G E) (GeneratePublicKey (te_cv E) k) data sig = Inr (Some True)"
    using KeySet_Sign_Verify [OF _ _ _ assms(2) _ assms(4,3)] g by blast
  have out: "vin_output L (thief_vin E k tk txid i sig) = Inr vout"
    using assms(5-7) by (simp add: vin_output_def index_int_def index_def thief_vin_def)
  have "vin_signed E L (thief_vin E k tk txid i sig)" unfolding vin_signed_def out
    using data sig(2) g by (simp add: thief_vin_def vin_sig_def Base58Check_Decode_text)
  moreover have "map_len L \<noteq> 0" using assms(5) by (auto simp: map_len_def dest: fmdomI)
  ultimately show ?thesis using data sig(1) out by (simp add: vin_value_def)
qed

section \<open>A small setting\<close>

definition ex_txid :: hash where "ex_txid = replicate 32 1"

definition ex_vout :: TxTokenVout where
  "ex_vout = \<lparr>vout_Value = 40, vout_PaymentAddress = ex_addr\<rparr>"

definition ex_utxo :: "(unit, unit, unit, unit, unit) ptoken" where
  "ex_utxo = \<lparr>ct_Tx = ex_tx, ct_TxTokenData = \<lparr>td_PropertyID = zero_hash, td_PropertyName = [], td_PropertySymbol = [], td_Type = 1,
     td_Mintable = False, td_Amount = 0, td_Vins = [], td_Vouts = [ex_vout]\<rparr>\<rparr>"

definition ex_utxos :: "(hash, (unit, unit, unit, unit, unit) ptoken) fmap" where
  "ex_utxos = fmupd ex_txid ex_utxo fmempty"

text \<open>A transfer whose fee payment is a return of a stake, which is always accepted.\<close>

definition ex_transfer :: "TxTokenVin list \<Rightarrow> uint64 \<Rightarrow> (unit, unit, unit, unit, unit) ptoken" where
  "ex_transfer vins v = \<lparr>ct_Tx = ex_tx\<lparr>tx_Type := TxReturnStakingType\<rparr>, ct_TxTokenData = (ct_TxTokenData ex_utxo)
     \<lparr>td_Vins := vins, td_Vouts := [\<lparr>vout_Value = v, vout_PaymentAddress = ex_addr\<rparr>]\<rparr>\<rparr>"

lemma ex_lookup: "fmlookup ex_utxos ex_txid = Some ex_utxo"
  by (simp add: ex_utxos_def)

lemma ex_vout: "0 < length (td_Vouts (ct_TxTokenData ex_utxo))" "ex_vout = td_Vouts (ct_TxTokenData ex_utxo) ! 0" "vout_Value ex_vout = 40"
  by (simp_all add: ex_utxo_def ex_vout_def)

lemma ex_env_simps: "te_sum256 ex_env = ex_digest" "te_cv ex_env = ex_curve" "te_G ex_env = ex_gens"
  by (simp_all add: ex_env_def)

lemma ex_fee: "Tx_ValidateTransaction ex_env False mem_db fmempty 0 ConstantID (ct_Tx (ex_transfer vins v)) = Inr (True, None)"
  by (simp add: Tx_ValidateTransaction_def ex_transfer_def TxReturnStakingType_def TxRewardType_def)

lemma ex_key_on: "on_curve (te_cv ex_env) (key_point (te_cv ex_env) ex_key)" and ex_env_base: "gens_base (te_cv ex_env) (te_G ex_env)"
proof -
  have "key_point ex_curve ex_key \<in> set ex_points" by code_simp
  then show "on_curve (te_cv ex_env) (key_point (te_cv ex_env) ex_key)" by (simp add: ex_env_def ex_on_curve)
  show "gens_base (te_cv ex_env) (te_G ex_env)" using ex_gens_base by (simp add: ex_env_def)
qed

lemma ex_signed: "\<exists>vin. vin_signed ex_env ex_utxos vin \<and> vin_value ex_utxos vin = 40 \<and> map_len ex_utxos \<noteq> 0"
proof -
  obtain sig where "vin_signed ex_env ex_utxos (thief_vin ex_env ex_key [] ex_txid 0 sig)"
    "vin_value ex_utxos (thief_vin ex_env ex_key [] ex_txid 0 sig) = vout_Value ex_vout" "map_len ex_utxos \<noteq> 0"
    using thief_signs [OF ex_good_env ex_env_base ex_key_on _ ex_lookup ex_vout(1,2), of 3 "[]"] by auto
  then show ?thesis using ex_vout(3) by auto
qed

section \<open>Properties\<close>

text \<open>C13: the two checks for spent native coins. Let a transaction have the serial numbers \<open>ns\<close>, none of them empty. The check against the
  serial numbers of the pool (\<open>double_spend_pool\<close>) succeeds exactly when
  none of them is a serial number of a transaction in the pool. Once one of them has been stored for the
  native coin in the database of its shard, the check against the blockchain (\<open>ValidateConstDoubleSpendWithBlockchain\<close>)
  no longer succeeds, and storing a serial
  number the transaction does not use changes nothing for it. This is about these two functions: not every way into the pool calls them
  (see \<open>pool_unknown_type_accepted\<close> in \<open>Tx_Pool_Safety\<close>).
\<close>

theorem spent_coin_refused:
  assumes "leveldb_spec D" and "ListNullifiers E tx = Inr ns" and "[] \<notin> set ns" and "sn \<noteq> []"
    and "FetchSerialNumbers D ConstantID shardID s = Inr L"
  shows "(double_spend_pool E pool tx = Inr None \<longleftrightarrow> set ns \<inter> \<Union> (set ` set pool) = {})
    \<and> (\<exists>s'. StoreSerialNumbers D ConstantID sn shardID s = (s', None)
      \<and> (ValidateConstDoubleSpendWithBlockchain E D s' shardID tx = Inr None \<longleftrightarrow>
           sn \<notin> set ns \<and> ValidateConstDoubleSpendWithBlockchain E D s shardID tx = Inr None))"
proof -
  have "wf_hash ConstantID" by (simp add: wf_hash_def ConstantID_def HashSize_def)
  from serial_stored [OF assms(1) this assms(5,4)] obtain s' where s': "StoreSerialNumbers D ConstantID sn shardID s = (s', None)"
    "\<forall>n. n \<noteq> [] \<longrightarrow> HasSerialNumber D ConstantID n shardID s' = (HasSerialNumber D ConstantID n shardID s \<or> n = sn)"
    by blast
  have "(\<forall>n \<in> set ns. \<not> HasSerialNumber D ConstantID n shardID s') \<longleftrightarrow> sn \<notin> set ns \<and> (\<forall>n \<in> set ns. \<not> HasSerialNumber D ConstantID n shardID s)"
    using s'(2) assms(3) by metis
  then show ?thesis
    using s'(1) double_spend_pool_iff [OF assms(2)] unfolding double_spend_chain_iff [OF assms(2)] by blast
qed

definition ex_spender :: "(unit, unit, unit, unit, unit) ptx" where
  "ex_spender = ex_tx\<lparr>tx_Proof := Some (new_PaymentProof\<lparr>pp_InputCoins := [new_Coin\<lparr>cn_SerialNumber := Some (4, 5)\<rparr>]\<rparr>)\<rparr>"

theorem spent_coin_refused_witness:
  "double_spend_pool ex_env [[[7]], [Compress ex_curve (4, 5)]] ex_spender \<noteq> Inr None
    \<and> (\<exists>s'. StoreSerialNumbers mem_db ConstantID (Compress ex_curve (4, 5)) 0 fmempty = (s', None)
      \<and> ValidateConstDoubleSpendWithBlockchain ex_env mem_db s' 0 ex_spender \<noteq> Inr None)"
proof -
  let ?sn = "Compress ex_curve (4, 5)"
  have ns: "ListNullifiers ex_env ex_spender = Inr [?sn]"
    by (simp add: ListNullifiers_def ex_spender_def new_PaymentProof_def new_Coin_def serial_number_def andThen_def deref_def ex_env_def)
  have ne: "?sn \<noteq> []" using Compress_nonempty [OF ex_good_field, of "(4, 5)"] by (simp add: ex_on_curve ex_points_def)
  have "FetchSerialNumbers mem_db ConstantID 0 fmempty = Inr []" by (simp add: FetchSerialNumbers_def leveldb_spec_mem_db)
  from spent_coin_refused [OF leveldb_spec_mem_db ns _ ne this, of "[[[7]], [?sn]]"] ne
  show ?thesis by auto
qed

text \<open>C15: the check of a token transfer against the transactions recorded under its token. Let the transactions the chain
  has recorded under the \<open>PropertyID\<close> that the transfer names be known, the ids in all vins being hashes. The check
  succeeds exactly when there is such a transaction (or the transfer issues the token, or brings
  it from another shard) and no output that the transfer spends is spent by one of them. An output spent by a transaction that names
  another token is not seen: nothing compares the token of an output with the \<open>PropertyID\<close> of the transfer that spends it.
\<close>

theorem token_double_spend_check:
  assumes "cw_GetCustomTokenTxs bcr (td_PropertyID (ct_TxTokenData tx)) = Some (map TokenTx txs)"
    and "wf_vins tx" and "list_all wf_vins txs"
  shows "validateDoubleSpendCustomTokenWithBlockchain bcr tx = Inr None \<longleftrightarrow>
    (txs \<noteq> [] \<or> td_Type (ct_TxTokenData tx) \<in> {CustomTokenInit, CustomTokenCrossShard}) \<and> (\<forall>t \<in> set txs. spends tx \<inter> spends t = {})"
  using assms double_spend_on_tx [OF assms(2)]
  by (auto simp: validateDoubleSpendCustomTokenWithBlockchain_def loop_err_None list_all_iff)

text \<open>The chain knows the transaction that issues the token and one that has spent its first output.\<close>

definition ex_spend :: "int \<Rightarrow> (unit, unit, unit, unit, unit) ptoken" where
  "ex_spend i = ex_transfer [\<lparr>vin_TxCustomTokenID = ex_txid, vin_VoutIndex = i, vin_Signature = '''', vin_PaymentAddress = ex_addr\<rparr>] 40"

definition ex_view :: "((point, unit, unit, unit, unit) PaymentProof, unit) chain_view" where
  "ex_view = \<lparr>cw_GetTransactionByHash = (\<lambda>_. None), cw_GetCustomTokenTxs = (\<lambda>_. Some (map TokenTx [ex_utxo, ex_spend 0]))\<rparr>"

theorem token_double_spend_check_witness:
  "validateDoubleSpendCustomTokenWithBlockchain ex_view (ex_spend 0) \<noteq> Inr None
    \<and> validateDoubleSpendCustomTokenWithBlockchain ex_view (ex_spend 1) = Inr None"
proof -
  have view: "cw_GetCustomTokenTxs ex_view tok = Some (map TokenTx [ex_utxo, ex_spend 0])" for tok by (simp add: ex_view_def)
  have wf: "wf_vins (ex_spend i)" "list_all wf_vins [ex_utxo, ex_spend 0]" for i
    by (simp_all add: wf_vins_def ex_spend_def ex_transfer_def ex_utxo_def ex_txid_def wf_hash_def HashSize_def)
  show ?thesis
    using token_double_spend_check [OF view wf(1,2), of 0] token_double_spend_check [OF view wf(1,2), of 1]
    by (simp add: spends_def ex_spend_def ex_transfer_def ex_utxo_def)
qed

text \<open>C14: a token transfer conserves its amount when nothing overflows. If \<open>ValidateTransaction\<close> accepts a token transfer and neither the
  amounts of the outputs it spends nor those of its new outputs add up to \<open>2^64\<close> or more, they add up to the same amount; and the signature of every
  vin verifies under the address that the vin names. The code adds with \<open>uint64\<close> and checks no bound, so that without the hypothesis
  the two sums agree only modulo \<open>2^64\<close>.
\<close>

theorem token_transfer_conserves:
  assumes "token_ValidateTransaction E hasPrivacy D s shardID tokenID L tx = Inr (True, e)"
    and "sum_list (map (unat \<circ> vin_value L) (td_Vins (ct_TxTokenData tx))) < 2 ^ 64"
    and "sum_list (map (unat \<circ> vout_Value) (td_Vouts (ct_TxTokenData tx))) < 2 ^ 64"
  shows "sum_list (map (unat \<circ> vin_value L) (td_Vins (ct_TxTokenData tx))) = sum_list (map (unat \<circ> vout_Value) (td_Vouts (ct_TxTokenData tx)))
    \<and> list_all (vin_signed E L) (td_Vins (ct_TxTokenData tx))"
proof -
  have "sum_list (map (vin_value L) (td_Vins (ct_TxTokenData tx))) = sum_list (map vout_Value (td_Vouts (ct_TxTokenData tx)))"
    "list_all (vin_signed E L) (td_Vins (ct_TxTokenData tx))"
    using assms(1) unfolding token_ValidateTransaction_iff by blast+
  then show ?thesis
    using unat_sum_list [of "map (vin_value L) (td_Vins (ct_TxTokenData tx))"] unat_sum_list [of "map vout_Value (td_Vouts (ct_TxTokenData tx))"]
      assms(2,3) by simp
qed

theorem token_transfer_conserves_witness:
  "\<exists>vin. sum_list (map (unat \<circ> vin_value ex_utxos) [vin]) = sum_list (map (unat \<circ> vout_Value) (td_Vouts (ct_TxTokenData (ex_transfer [vin] 40))))
    \<and> list_all (vin_signed ex_env ex_utxos) [vin]"
proof -
  obtain vin where v: "vin_signed ex_env ex_utxos vin" "vin_value ex_utxos vin = 40" "map_len ex_utxos \<noteq> 0" using ex_signed by blast
  have "token_ValidateTransaction ex_env False mem_db fmempty 0 ConstantID ex_utxos (ex_transfer [vin] 40) = Inr (True, None)"
    unfolding token_ValidateTransaction_iff ex_fee using v by (simp add: ex_transfer_def)
  from token_transfer_conserves [OF this] have "sum_list (map (unat \<circ> vin_value ex_utxos) [vin]) = sum_list (map (unat \<circ> vout_Value) (td_Vouts (ct_TxTokenData (ex_transfer [vin] 40))))
    \<and> list_all (vin_signed ex_env ex_utxos) [vin]"
    by (simp add: ex_transfer_def v(2))
  then show ?thesis by blast
qed

text \<open>anybody can spend the token outputs of others. Take any output of any earlier token transaction, whoever owns it, and
  any key \<open>k\<close>. If the fee payment is valid, the transfer that names the address of \<open>k\<close> in its vin, carries the signature
  of \<open>k\<close> on the output and pays the whole amount to \<open>k\<close> is accepted: the address of the vin is never
  compared with the address of the output.
\<close>

theorem token_output_stolen:
  assumes "good_env E" and "gens_base (te_cv E) (te_G E)" and "on_curve (te_cv E) (key_point (te_cv E) k)" and "0 \<le> nonce"
    and "fmlookup L txid = Some u" and "i < length (td_Vouts (ct_TxTokenData u))" and "vout = td_Vouts (ct_TxTokenData u) ! i"
    and "Tx_ValidateTransaction E hasPrivacy D s shardID tokenID (ct_Tx tx) = Inr (True, e)"
    and "thief = \<lparr>pa_Pk = GeneratePublicKey (te_cv E) k, pa_Tk = tk\<rparr>"
  shows "\<exists>data sig. TxTokenVout_Hash (te_sum256 E) vout = Inr data \<and> KeySet_Sign (te_sum256 E) (te_cv E) (te_G E) k nonce data = Some sig
    \<and> token_ValidateTransaction E hasPrivacy D s shardID tokenID L
        (tx\<lparr>ct_TxTokenData := (ct_TxTokenData tx)
          \<lparr>td_Vins := [\<lparr>vin_TxCustomTokenID = txid, vin_VoutIndex = int i, vin_Signature = b58check_text (te_sum256 E) sig 0, vin_PaymentAddress = thief\<rparr>],
           td_Vouts := [\<lparr>vout_Value = vout_Value vout, vout_PaymentAddress = thief\<rparr>]\<rparr>\<rparr>) = Inr (True, None)"
proof -
  obtain data sig where v: "TxTokenVout_Hash (te_sum256 E) vout = Inr data" "KeySet_Sign (te_sum256 E) (te_cv E) (te_G E) k nonce data = Some sig"
    "vin_signed E L (thief_vin E k tk txid i sig)" "vin_value L (thief_vin E k tk txid i sig) = vout_Value vout" "map_len L \<noteq> 0"
    using thief_signs [OF assms(1-7)] by blast
  then show ?thesis
    using assms(8) by (simp add: token_ValidateTransaction_iff thief_vin_def assms(9))
qed

definition ex_thief :: PaymentAddress where
  "ex_thief = \<lparr>pa_Pk = GeneratePublicKey ex_curve ex_key, pa_Tk = []\<rparr>"

theorem token_output_stolen_witness:
  "\<exists>data sig. TxTokenVout_Hash ex_digest ex_vout = Inr data \<and> KeySet_Sign ex_digest ex_curve ex_gens ex_key 3 data = Some sig
    \<and> token_ValidateTransaction ex_env False mem_db fmempty 0 ConstantID ex_utxos
        ((ex_transfer [] 1)\<lparr>ct_TxTokenData := (ct_TxTokenData (ex_transfer [] 1))
          \<lparr>td_Vins := [\<lparr>vin_TxCustomTokenID = ex_txid, vin_VoutIndex = int 0, vin_Signature = b58check_text ex_digest sig 0, vin_PaymentAddress = ex_thief\<rparr>],
           td_Vouts := [\<lparr>vout_Value = vout_Value ex_vout, vout_PaymentAddress = ex_thief\<rparr>]\<rparr>\<rparr>) = Inr (True, None)"
proof -
  have "ex_thief = \<lparr>pa_Pk = GeneratePublicKey (te_cv ex_env) ex_key, pa_Tk = []\<rparr>" by (simp add: ex_thief_def ex_env_simps)
  from token_output_stolen [OF ex_good_env ex_env_base ex_key_on _ ex_lookup ex_vout(1,2) ex_fee this, of 3 "[]" 1]
  show ?thesis unfolding ex_env_simps by simp
qed

text \<open>
  one token output can be spent twice inside one transaction. If a vin is signed, the transfer that lists it
  twice and pays out twice its value is accepted.
\<close>

theorem token_vin_repeated:
  assumes "vin_signed E L vin" and "map_len L \<noteq> 0" and "td_Vins (ct_TxTokenData tx) = [vin, vin]"
    and "sum_list (map vout_Value (td_Vouts (ct_TxTokenData tx))) = vin_value L vin + vin_value L vin"
    and "Tx_ValidateTransaction E hasPrivacy D s shardID tokenID (ct_Tx tx) = Inr (True, e)"
  shows "token_ValidateTransaction E hasPrivacy D s shardID tokenID L tx = Inr (True, None)"
  using assms by (simp add: token_ValidateTransaction_iff)

theorem token_vin_repeated_witness:
  "\<exists>vin. vin_value ex_utxos vin = 40
    \<and> token_ValidateTransaction ex_env False mem_db fmempty 0 ConstantID ex_utxos (ex_transfer [vin, vin] 80) = Inr (True, None)"
proof -
  obtain vin where v: "vin_signed ex_env ex_utxos vin" "vin_value ex_utxos vin = 40" "map_len ex_utxos \<noteq> 0" using ex_signed by blast
  have "token_ValidateTransaction ex_env False mem_db fmempty 0 ConstantID ex_utxos (ex_transfer [vin, vin] 80) = Inr (True, None)"
    by (rule token_vin_repeated [OF v(1,3) _ _ ex_fee]) (simp_all add: ex_transfer_def v(2))
  then show ?thesis using v(2) by blast
qed

text \<open>
  some transactions are accepted without any check of themselves. A transaction of the type \<open>rs\<close> (return of a stake) passes
  \<open>ValidateTransaction\<close> and the check against the blockchain whatever its signature, proof and inputs are, and
  a token with privacy is issued without even the fee payment being validated.
\<close>

theorem unchecked_transactions:
  "(tx_Type tx = TxReturnStakingType \<longrightarrow>
      Tx_ValidateTransaction E hasPrivacy D s shardID tokenID tx = Inr (True, None) \<and> Tx_ValidateTxWithBlockChain E D s shardID tx = Inr None)
   \<and> (tpd_Type (cp_TxTokenPrivacyData ptx) = CustomTokenInit \<longrightarrow> privacy_ValidateTxByItself E hasPrivacy D s shardID ptx = Inr (True, None))"
  by (simp add: Tx_ValidateTransaction_def Tx_ValidateTxWithBlockChain_def privacy_ValidateTxByItself_def TxReturnStakingType_def TxRewardType_def)

definition ex_issue :: "(unit, unit, unit, unit, unit) pprivacy" where
  "ex_issue = \<lparr>cp_Tx = ex_tx, cp_TxTokenPrivacyData = \<lparr>tpd_TxNormal = ex_tx, tpd_PropertyID = zero_hash, tpd_PropertyName = [], tpd_PropertySymbol = [],
     tpd_Type = 0, tpd_Mintable = False, tpd_Amount = 1000\<rparr>\<rparr>"

theorem unchecked_transactions_witness:
  "Tx_ValidateTransaction ex_env False mem_db fmempty 0 ConstantID (ex_tx\<lparr>tx_Type := TxReturnStakingType\<rparr>) = Inr (True, None)
   \<and> Tx_ValidateTxWithBlockChain ex_env mem_db fmempty 0 (ex_tx\<lparr>tx_Type := TxReturnStakingType\<rparr>) = Inr None
   \<and> privacy_ValidateTxByItself ex_env False mem_db fmempty 0 ex_issue = Inr (True, None)"
  using unchecked_transactions [of "ex_tx\<lparr>tx_Type := TxReturnStakingType\<rparr>" ex_env False mem_db fmempty 0 ConstantID ex_issue]
  by (simp add: ex_issue_def CustomTokenInit_def)

end
