(* ===== verification/Tx_Interface.thy ===== *)
theory Tx_Interface
  imports Double_Spend
begin

text \<open>
  The interface \<open>metadata.Transaction\<close> (\<open>src/metadata/metadata.go\<close>) as its users call it: each method on the
  three kinds of transactions. \<open>TxCustomToken\<close> and \<open>TxCustomTokenPrivacy\<close> embed a \<open>Tx\<close>, so a method that
  they do not declare is the one of the embedded \<open>Tx\<close>, which also calls the other methods of that \<open>Tx\<close>.
  Further \<open>TxDesc\<close>, the entry of the transaction pool, of \<open>src/metadata/metadata.go\<close> and
  \<open>src/mempool/mempool.go\<close>.
\<close>

section \<open>Methods of the interface\<close>

definition Transaction_Hash :: "('o, 's, 'n, 'a, 'm) tx_env \<Rightarrow> ('o, 's, 'n, 'a, 'm) ptransaction \<Rightarrow> fault + hash" where
  "Transaction_Hash E t = (case t of NormalTx x \<Rightarrow> Tx_Hash E x | TokenTx x \<Rightarrow> token_Hash E x | PrivacyTokenTx x \<Rightarrow> privacy_Hash E x)"

definition GetType :: "('f, 'm) Transaction \<Rightarrow> string" where
  "GetType t = tx_Type (Transaction_base t)"

definition GetTxFee :: "('f, 'm) Transaction \<Rightarrow> uint64" where
  "GetTxFee t = tx_Fee (Transaction_base t)"

definition GetSenderAddrLastByte :: "('f, 'm) Transaction \<Rightarrow> byte" where
  "GetSenderAddrLastByte t = tx_PubKeyLastByteSender (Transaction_base t)"

definition GetMetadata :: "('f, 'm) Transaction \<Rightarrow> 'm option" where
  "GetMetadata t = tx_Metadata (Transaction_base t)"

definition GetSigPubKey :: "('f, 'm) Transaction \<Rightarrow> bytes" where
  "GetSigPubKey t = nil_bytes (tx_SigPubKey (Transaction_base t))"

definition Transaction_GetTxActualSize :: "('o, 's, 'n, 'a, 'm) tx_env \<Rightarrow> ('o, 's, 'n, 'a, 'm) ptransaction \<Rightarrow> fault + uint64" where
  "Transaction_GetTxActualSize E t =
     (case t of NormalTx x \<Rightarrow> Tx_GetTxActualSize E x | TokenTx x \<Rightarrow> token_GetTxActualSize E x
      | PrivacyTokenTx x \<Rightarrow> privacy_GetTxActualSize E x)"

definition Transaction_ListNullifiers :: "('o, 's, 'n, 'a, 'm) tx_env \<Rightarrow> ('o, 's, 'n, 'a, 'm) ptransaction \<Rightarrow> fault + bytes list" where
  "Transaction_ListNullifiers E t = ListNullifiers E (Transaction_base t)"

definition Transaction_IsPrivacy :: "('o, 's, 'n, 'a, 'm) ptransaction \<Rightarrow> bool" where
  "Transaction_IsPrivacy t = (case t of TokenTx _ \<Rightarrow> False | _ \<Rightarrow> Tx_IsPrivacy (Transaction_base t))"

definition Transaction_ValidateType :: "('f, 'm) Transaction \<Rightarrow> bool" where
  "Transaction_ValidateType t =
     (case t of NormalTx x \<Rightarrow> Tx_ValidateType x | TokenTx x \<Rightarrow> token_ValidateType x | PrivacyTokenTx x \<Rightarrow> privacy_ValidateType x)"

definition Transaction_CheckTransactionFee ::
  "('o, 's, 'n, 'a, 'm) tx_env \<Rightarrow> uint64 \<Rightarrow> ('o, 's, 'n, 'a, 'm) ptransaction \<Rightarrow> fault + bool" where
  "Transaction_CheckTransactionFee E minFeePerKbTx t = Tx_CheckTransactionFee E minFeePerKbTx (Transaction_base t)"

definition Transaction_ValidateTxWithCurrentMempool ::
  "('o, 's, 'n, 'a, 'm) tx_env \<Rightarrow> bytes list list \<Rightarrow> ('o, 's, 'n, 'a, 'm) ptransaction list \<Rightarrow> ('o, 's, 'n, 'a, 'm) ptransaction
   \<Rightarrow> fault + tx_error option" where
  "Transaction_ValidateTxWithCurrentMempool E serials txsInMem t =
     (case t of NormalTx x \<Rightarrow> double_spend_pool E serials x
      | TokenTx x \<Rightarrow> token_ValidateTxWithCurrentMempool E serials txsInMem x
      | PrivacyTokenTx x \<Rightarrow> privacy_ValidateTxWithCurrentMempool E serials x)"

definition Transaction_ValidateSanityData :: "('o, 's, 'n, 'a, 'm) tx_env \<Rightarrow> ('o, 's, 'n, 'a, 'm) ptransaction \<Rightarrow> verdict" where
  "Transaction_ValidateSanityData E t =
     (case t of NormalTx x \<Rightarrow> Tx_ValidateSanityData E x | TokenTx x \<Rightarrow> token_ValidateSanityData E x
      | PrivacyTokenTx x \<Rightarrow> privacy_ValidateSanityData E x)"

text \<open>A token transaction that has just been received carries no list of spent outputs yet.\<close>

definition Transaction_ValidateTxByItself ::
  "('o, 's, 'n, 'a, 'm) tx_env \<Rightarrow> ((point, 'o, 's, 'n, 'a) PaymentProof, 'm) chain_view \<Rightarrow> bool \<Rightarrow> 'd leveldb \<Rightarrow> 'd \<Rightarrow> byte
   \<Rightarrow> ('o, 's, 'n, 'a, 'm) ptransaction \<Rightarrow> verdict" where
  "Transaction_ValidateTxByItself E bcr hasPrivacy D s shardID t =
     (case t of NormalTx x \<Rightarrow> Tx_ValidateTxByItself E hasPrivacy D s shardID x
      | TokenTx x \<Rightarrow> token_ValidateTxByItself E bcr hasPrivacy D s shardID fmempty x
      | PrivacyTokenTx x \<Rightarrow> privacy_ValidateTxByItself E hasPrivacy D s shardID x)"

definition Transaction_ValidateTxWithBlockChain ::
  "('o, 's, 'n, 'a, 'm) tx_env \<Rightarrow> ((point, 'o, 's, 'n, 'a) PaymentProof, 'm) chain_view \<Rightarrow> 'd leveldb \<Rightarrow> 'd \<Rightarrow> byte
   \<Rightarrow> ('o, 's, 'n, 'a, 'm) ptransaction \<Rightarrow> fault + tx_error option" where
  "Transaction_ValidateTxWithBlockChain E bcr D s shardID t =
     (case t of NormalTx x \<Rightarrow> Tx_ValidateTxWithBlockChain E D s shardID x
      | TokenTx x \<Rightarrow> token_ValidateTxWithBlockChain E bcr D s shardID x
      | PrivacyTokenTx x \<Rightarrow> privacy_ValidateTxWithBlockChain E D s shardID x)"

section \<open>Entries of the pool\<close>

text \<open>The embedded \<open>metadata.TxDesc\<close> (\<open>Desc\<close>) with the fields the pool adds.\<close>

record ('f, 'm) TxDesc =
  de_Tx :: "('f, 'm) Transaction"
  de_Height :: uint64
  de_Fee :: uint64
  de_FeePerKB :: int
  de_StartTime :: int
  de_IsFowardMessage :: bool

type_synonym ('o, 's, 'n, 'a, 'm) pdesc = "((point, 'o, 's, 'n, 'a) PaymentProof, 'm) TxDesc"

section \<open>What an accepted transaction has passed\<close>

lemma accepted_serials_fresh:
  assumes "Transaction_ValidateTxWithCurrentMempool E serials txsInMem t = Inr None" and "Transaction_ListNullifiers E t = Inr ns"
  shows "set ns \<inter> \<Union> (set ` set serials) = {}"
proof -
  have "double_spend_pool E serials (Transaction_base t) = Inr None"
    using assms(1) by (auto simp: Transaction_ValidateTxWithCurrentMempool_def token_ValidateTxWithCurrentMempool_def
      privacy_ValidateTxWithCurrentMempool_def Transaction_base_def andThen_Inr_iff wrap_err_def split: Transaction.splits if_splits)
  then show ?thesis using double_spend_pool_iff assms(2) unfolding Transaction_ListNullifiers_def by blast
qed

lemma seen_serial_refused:
  assumes "Transaction_ListNullifiers E t = Inr ns" and "sn \<in> set ns" and "ns' \<in> set serials" and "sn \<in> set ns'"
  shows "Transaction_ValidateTxWithCurrentMempool E serials txsInMem t \<noteq> Inr None"
  using accepted_serials_fresh [OF _ assms(1), of serials txsInMem] assms(2-4) by blast

end
