(* ===== verification/Fee_Estimator.thy ===== *)
theory Fee_Estimator
  imports Tx_Interface "HOL-Library.Multiset"
begin

text \<open>
  The fee estimator (\<open>src/mempool/estimatefee.go\<close>): it observes the transactions that enter the pool,
  registers the blocks that mine them, keeps the mined ones in 25 bins by the number of blocks they waited,
  and answers with a fee rate for a wanted number of blocks.

  The pointers \<open>*observedTransaction\<close> are shared between the map \<open>observed\<close>, the bins and the
  stack of dropped transactions, and their field \<open>mined\<close> is written through any of them: they are
  addresses in the store \<open>fe_heap\<close>, a list that grows by one at each allocation. A pointer read from a
  saved state may be nil, so those of \<open>dropped\<close> are optional.

  Parameters: \<open>rand k l\<close> is the result of the \<open>k\<close>-th call of \<open>rand.Intn(l)\<close> while one block is registered, the
  order of the transactions of a block is an argument (the code ranges over a map of pointers), and \<open>overflow\<close>
  is what the platform returns when a floating-point number that is not in the range of \<open>uint64\<close> is converted.
\<close>

section \<open>Floating-point fee rates\<close>

text \<open>
  \<open>float64(fee) / float64(size)\<close>, truncated: a positive \<open>float64\<close> is \<open>(m, e)\<close> for \<open>m * 2 ^ e\<close> with
  \<open>m \<le> 2 ^ 53\<close>, and each operation rounds to the nearest such number, ties to an even \<open>m\<close>. The numbers here
  are far from the bounds of the exponent.
\<close>

definition div_even :: "nat \<Rightarrow> nat \<Rightarrow> nat" where
  "div_even a b = (let q = a div b; r = a mod b in if 2 * r < b \<or> (2 * r = b \<and> even q) then q else q + 1)"

definition float_quot :: "nat \<Rightarrow> nat \<Rightarrow> nat \<times> int" where
  "float_quot a b =
     (let e0 = int (floorlog 2 a) - int (floorlog 2 b) - 53;
          e = (if a * 2 ^ nat (- e0) \<ge> b * 2 ^ nat e0 * 2 ^ 53 then e0 + 1 else e0)
      in (div_even (a * 2 ^ nat (- e)) (b * 2 ^ nat e), e))"

definition float_div :: "nat \<times> int \<Rightarrow> nat \<times> int \<Rightarrow> nat \<times> int" where
  "float_div x y = float_quot (fst x * 2 ^ nat (snd x - snd y)) (fst y * 2 ^ nat (snd y - snd x))"

definition float_trunc :: "nat \<times> int \<Rightarrow> nat" where
  "float_trunc x = fst x * 2 ^ nat (snd x) div 2 ^ nat (- snd x)"

definition NewCoinPerKilobyte :: "uint64 \<Rightarrow> uint64 \<Rightarrow> uint64 \<Rightarrow> uint64" where
  "NewCoinPerKilobyte overflow fee sz =
     (if sz = 0 then overflow
      else let v = float_trunc (float_div (float_quot (unat fee) 1) (float_quot (unat sz) 1))
           in if v < 2 ^ 64 then of_nat v else overflow)"

section \<open>State\<close>

definition estimateFeeDepth :: nat where "estimateFeeDepth = 25"
definition estimateFeeBinSize :: "32 word" where "estimateFeeBinSize = 100"
definition estimateFeeMaxReplacements :: "32 word" where "estimateFeeMaxReplacements = 10"
definition UnminedHeight :: uint64 where "UnminedHeight = 0x7fffffff"

record observedTransaction =
  ot_hash :: hash
  ot_feeRate :: uint64
  ot_observed :: uint64
  ot_mined :: uint64

type_synonym ref = nat

record registeredBlock =
  rb_hash :: hash
  rb_transactions :: "ref option list"

record FeeEstimator =
  fe_maxRollback :: uint32
  fe_binSize :: "32 word"
  fe_maxReplacements :: "32 word"
  fe_minRegisteredBlocks :: uint32
  fe_lastKnownHeight :: uint64
  fe_numBlocksRegistered :: uint32
  fe_observed :: "(hash, ref) fmap"
  fe_bin :: "ref list list"
  fe_cached :: "uint64 list option"
  fe_dropped :: "registeredBlock list"
  fe_heap :: "observedTransaction list"

definition NewFeeEstimator :: "uint32 \<Rightarrow> uint32 \<Rightarrow> FeeEstimator" where
  "NewFeeEstimator maxRollback minRegisteredBlocks =
     \<lparr>fe_maxRollback = maxRollback, fe_binSize = estimateFeeBinSize, fe_maxReplacements = estimateFeeMaxReplacements,
      fe_minRegisteredBlocks = minRegisteredBlocks, fe_lastKnownHeight = UnminedHeight, fe_numBlocksRegistered = 0,
      fe_observed = fmempty, fe_bin = replicate estimateFeeDepth [], fe_cached = None, fe_dropped = [], fe_heap = []\<rparr>"

section \<open>Observing transactions\<close>

definition ObserveTransaction ::
  "('o, 's, 'n, 'a, 'm) tx_env \<Rightarrow> uint64 \<Rightarrow> ('o, 's, 'n, 'a, 'm) pdesc \<Rightarrow> FeeEstimator \<Rightarrow> fault + FeeEstimator" where
  "ObserveTransaction E overflow t ef =
     (if fe_lastKnownHeight ef = UnminedHeight then Inr ef
      else andThen (Transaction_Hash E (de_Tx t)) (\<lambda>h.
        if fmlookup (fe_observed ef) h \<noteq> None then Inr ef
        else andThen (Transaction_GetTxActualSize E (de_Tx t)) (\<lambda>sz.
          Inr (ef\<lparr>fe_heap := fe_heap ef @ [\<lparr>ot_hash = h, ot_feeRate = NewCoinPerKilobyte overflow (de_Fee t) sz,
                  ot_observed = de_Height t, ot_mined = UnminedHeight\<rparr>],
                fe_observed := fmupd h (length (fe_heap ef)) (fe_observed ef)\<rparr>))))"

section \<open>Registering a block\<close>

text \<open>
  The state of the loop over the transactions: the estimator, the replacements made per bin and the dropped
  references. One step returns \<open>None\<close> for the error \<open>Transaction has already been mined\<close>.
\<close>

definition set_mined :: "ref \<Rightarrow> uint64 \<Rightarrow> observedTransaction list \<Rightarrow> observedTransaction list" where
  "set_mined r h heap = heap[r := (heap ! r)\<lparr>ot_mined := h\<rparr>]"

definition put_in_bin ::
  "(nat \<Rightarrow> nat \<Rightarrow> nat) \<Rightarrow> int \<Rightarrow> nat \<Rightarrow> ref \<Rightarrow> ref list \<Rightarrow> ref list \<Rightarrow> fault + ref list \<times> ref list" where
  "put_in_bin rand binSize cnt r bin dropped =
     (if int (length bin) = binSize then
        let l = binSize - int cnt in
        if l \<le> 0 then Inl (ExplicitPanic ''invalid argument to Intn'')
        else let k = rand (length dropped) (nat l) in
          andThen (index bin k) (\<lambda>d. Inr ((bin[k := bin ! (nat l - 1)])[nat l - 1 := r], dropped @ [d]))
      else Inr (bin @ [r], dropped))"

definition register_tx ::
  "(nat \<Rightarrow> nat \<Rightarrow> nat) \<Rightarrow> uint64 \<Rightarrow> hash \<Rightarrow> FeeEstimator \<times> nat list \<times> ref list \<Rightarrow> fault + (FeeEstimator \<times> nat list \<times> ref list) option" where
  "register_tx rand height h st =
     (case st of (ef, counts, dropped) \<Rightarrow>
      case fmlookup (fe_observed ef) h of
        None \<Rightarrow> Inr (Some st)
      | Some r \<Rightarrow>
          let ot = fe_heap ef ! r; blocksToConfirm = unat (height - ot_observed ot - 1) in
          if ot_mined ot \<noteq> UnminedHeight then Inr None
          else if blocksToConfirm \<ge> estimateFeeDepth then Inr (Some st)
          else if int (counts ! blocksToConfirm) = sint (fe_maxReplacements ef) then Inr (Some st)
          else let cnt = counts ! blocksToConfirm + 1 in
            andThen (put_in_bin rand (sint (fe_binSize ef)) cnt r (fe_bin ef ! blocksToConfirm) dropped) (\<lambda>(bin, dropped').
              Inr (Some (ef\<lparr>fe_heap := set_mined r height (fe_heap ef), fe_bin := (fe_bin ef)[blocksToConfirm := bin]\<rparr>,
                counts[blocksToConfirm := cnt], dropped'))))"

fun register_txs ::
  "(nat \<Rightarrow> nat \<Rightarrow> nat) \<Rightarrow> uint64 \<Rightarrow> (fault + hash) list \<Rightarrow> FeeEstimator \<times> nat list \<times> ref list
   \<Rightarrow> fault + FeeEstimator \<times> (nat list \<times> ref list) option" where
  "register_txs rand height [] (ef, st) = Inr (ef, Some st)"
| "register_txs rand height (h # hs) (ef, st) =
     andThen h (\<lambda>h. andThen (register_tx rand height h (ef, st)) (\<lambda>r.
       case r of None \<Rightarrow> Inr (ef, None) | Some st' \<Rightarrow> register_txs rand height hs st'))"

text \<open>Transactions that wait for too long are forgotten.\<close>

definition forget_old :: "uint64 \<Rightarrow> FeeEstimator \<Rightarrow> FeeEstimator" where
  "forget_old height ef =
     ef\<lparr>fe_observed := fmfilter (\<lambda>h. case fmlookup (fe_observed ef) h of None \<Rightarrow> True
         | Some r \<Rightarrow> \<not> (ot_mined (fe_heap ef ! r) = UnminedHeight \<and> height - ot_observed (fe_heap ef ! r) \<ge> of_nat estimateFeeDepth))
       (fe_observed ef)\<rparr>"

definition push_dropped :: "registeredBlock \<Rightarrow> FeeEstimator \<Rightarrow> FeeEstimator" where
  "push_dropped b ef =
     (if fe_maxRollback ef = 0 then ef
      else if of_nat (length (fe_dropped ef)) = fe_maxRollback ef then ef\<lparr>fe_dropped := tl (fe_dropped ef) @ [b]\<rparr>
      else ef\<lparr>fe_dropped := fe_dropped ef @ [b]\<rparr>)"

text \<open>
  The block is given by its hash, its height and the hashes of its payments in the order the loop visits
  them, each computed when the loop reaches it. The boolean tells whether the result is an error.
\<close>

definition RegisterBlock_hashes ::
  "(nat \<Rightarrow> nat \<Rightarrow> nat) \<Rightarrow> hash \<Rightarrow> uint64 \<Rightarrow> (fault + hash) list \<Rightarrow> FeeEstimator \<Rightarrow> fault + FeeEstimator \<times> bool" where
  "RegisterBlock_hashes rand blockHash height hs ef =
     (let ef = ef\<lparr>fe_cached := None\<rparr> in
      if height \<noteq> fe_lastKnownHeight ef + 1 \<and> fe_lastKnownHeight ef \<noteq> UnminedHeight then Inr (ef, True)
      else let ef = ef\<lparr>fe_lastKnownHeight := height, fe_numBlocksRegistered := fe_numBlocksRegistered ef + 1\<rparr> in
        andThen (register_txs rand height hs (ef, replicate estimateFeeDepth 0, [])) (\<lambda>(ef, st).
          case st of None \<Rightarrow> Inr (ef, True)
          | Some (_, dropped) \<Rightarrow>
              Inr (push_dropped \<lparr>rb_hash = blockHash, rb_transactions = map Some dropped\<rparr> (forget_old height ef), False)))"

text \<open>The payments of a block.\<close>

fun block_payments :: "('f, 'm) Transaction list \<Rightarrow> fault + ('f, 'm) Tx list" where
  "block_payments [] = Inr []"
| "block_payments (t # ts) =
     (if GetType t = TxNormalType \<or> GetType t = TxRewardType \<or> GetType t = TxReturnStakingType then
        case t of NormalTx x \<Rightarrow> andThen (block_payments ts) (\<lambda>xs. Inr (x # xs))
        | _ \<Rightarrow> Inl (ExplicitPanic ''interface conversion'')
      else block_payments ts)"

definition RegisterBlock ::
  "('o, 's, 'n, 'a, 'm) tx_env \<Rightarrow> (nat \<Rightarrow> nat \<Rightarrow> nat) \<Rightarrow> (('o, 's, 'n, 'a, 'm) ptx list \<Rightarrow> ('o, 's, 'n, 'a, 'm) ptx list)
   \<Rightarrow> ('o, 's, 'n, 'a, 'm) ptransaction list ShardBlock \<Rightarrow> FeeEstimator \<Rightarrow> fault + FeeEstimator \<times> bool" where
  "RegisterBlock E rand order block ef =
     (let height = sh_Height (sb_Header block) in
      if height \<noteq> fe_lastKnownHeight ef + 1 \<and> fe_lastKnownHeight ef \<noteq> UnminedHeight then Inr (ef\<lparr>fe_cached := None\<rparr>, True)
      else andThen (block_payments (sb_Body block)) (\<lambda>txs.
             RegisterBlock_hashes rand (ShardBlock_Hash (te_sum256 E) block) height (map (Tx_Hash E) (order txs)) ef))"

definition LastKnownHeight :: "FeeEstimator \<Rightarrow> uint64" where
  "LastKnownHeight ef = fe_lastKnownHeight ef"

section \<open>Rolling back\<close>

text \<open>Search a bin from \<open>counter\<close> on for a transaction of the last block, and put \<open>o\<close> in its place.\<close>

fun undrop :: "uint64 \<Rightarrow> ref \<Rightarrow> observedTransaction list \<Rightarrow> ref list \<Rightarrow> fault + nat \<times> observedTransaction list \<times> ref list" where
  "undrop height r heap [] = Inl (ExplicitPanic ''illegal state: cannot rollback dropped transaction'')"
| "undrop height r heap (p # bin) =
     (if ot_mined (heap ! p) = height then Inr (1, set_mined p UnminedHeight heap, r # bin)
      else andThen (undrop height r heap bin) (\<lambda>(k, heap', bin'). Inr (k + 1, heap', p # bin')))"

fun undrop_all :: "ref option list \<Rightarrow> FeeEstimator \<times> nat list \<Rightarrow> fault + FeeEstimator \<times> nat list" where
  "undrop_all [] st = Inr st"
| "undrop_all (p # ps) (ef, counters) =
     andThen (deref p) (\<lambda>r.
       let ot = fe_heap ef ! r; b = unat (ot_mined ot - ot_observed ot - 1) in
       andThen (index (fe_bin ef) b) (\<lambda>bin.
       andThen (undrop (fe_lastKnownHeight ef) r (fe_heap ef) (drop (counters ! b) bin)) (\<lambda>(k, heap, bin').
         undrop_all ps (ef\<lparr>fe_heap := heap, fe_bin := (fe_bin ef)[b := take (counters ! b) bin @ bin']\<rparr>,
           counters[b := counters ! b + k]))))"

text \<open>Remove the other transactions of the last block from a bin.\<close>

fun clear_mined :: "uint64 \<Rightarrow> observedTransaction list \<Rightarrow> ref list \<Rightarrow> observedTransaction list \<times> ref list" where
  "clear_mined height heap [] = (heap, [])"
| "clear_mined height heap (p # bin) =
     (if ot_mined (heap ! p) = height then clear_mined height (set_mined p UnminedHeight heap) bin
      else let (heap', bin') = clear_mined height heap bin in (heap', p # bin'))"

fun clear_bins :: "uint64 \<Rightarrow> nat list \<Rightarrow> observedTransaction list \<Rightarrow> ref list list \<Rightarrow> observedTransaction list \<times> ref list list" where
  "clear_bins height (j # js) heap (bin # bins) =
     (let (heap1, bin') = clear_mined height heap (drop j bin); (heap2, bins') = clear_bins height js heap1 bins
      in (heap2, (take j bin @ bin') # bins'))"
| "clear_bins height _ heap bins = (heap, bins)"

definition rollback :: "FeeEstimator \<Rightarrow> fault + FeeEstimator" where
  "rollback ef0 =
     (let ef = ef0\<lparr>fe_cached := None\<rparr> in
      if fe_dropped ef = [] then Inr ef
      else andThen (undrop_all (rb_transactions (last (fe_dropped ef))) (ef, replicate estimateFeeDepth 0)) (\<lambda>(ef, counters).
        let (heap, bins) = clear_bins (fe_lastKnownHeight ef) counters (fe_heap ef) (fe_bin ef)
        in Inr (ef\<lparr>fe_heap := heap, fe_bin := bins, fe_dropped := butlast (fe_dropped ef),
             fe_numBlocksRegistered := fe_numBlocksRegistered ef - 1, fe_lastKnownHeight := fe_lastKnownHeight ef - 1\<rparr>)))"

fun rollbacks :: "nat \<Rightarrow> FeeEstimator \<Rightarrow> fault + FeeEstimator" where
  "rollbacks 0 ef = Inr ef"
| "rollbacks (Suc n) ef = andThen (rollback ef) (rollbacks n)"

text \<open>How many blocks from the top of the stack the hash is, counting from one.\<close>

fun depth_of :: "hash \<Rightarrow> registeredBlock list \<Rightarrow> nat option" where
  "depth_of h [] = None"
| "depth_of h (b # bs) = (if rb_hash b = h then Some 1 else map_option Suc (depth_of h bs))"

definition Rollback :: "hash \<Rightarrow> FeeEstimator \<Rightarrow> fault + FeeEstimator \<times> bool" where
  "Rollback h ef =
     (case depth_of h (rev (fe_dropped ef)) of
        None \<Rightarrow> Inr (ef, True)
      | Some n \<Rightarrow> andThen (rollbacks n ef) (\<lambda>ef. Inr (ef, False)))"

section \<open>Estimating\<close>

record estimateFeeSet =
  es_feeRate :: "uint64 list"
  es_bin :: "uint32 list"

definition estimateFee :: "uint64 \<Rightarrow> int \<Rightarrow> estimateFeeSet \<Rightarrow> uint64" where
  "estimateFee overflow confirmations b =
     (if confirmations \<le> 0 then overflow
      else if confirmations > int estimateFeeDepth then 0
      else if length (es_feeRate b) = 0 then 0
      else let c = nat confirmations;
               lo = int (sum_list (map unat (take (c - 1) (es_bin b))));
               hi = max lo (lo + int (unat (es_bin b ! (c - 1))) - 1);
               feeIndex = nat ((lo + hi) div 2)
           in if feeIndex \<ge> length (es_feeRate b) then es_feeRate b ! (length (es_feeRate b) - 1) else es_feeRate b ! feeIndex)"

definition newEstimateFeeSet :: "FeeEstimator \<Rightarrow> estimateFeeSet" where
  "newEstimateFeeSet ef =
     \<lparr>es_feeRate = rev (sort (map (\<lambda>r. ot_feeRate (fe_heap ef ! r)) (concat (fe_bin ef)))),
      es_bin = map (\<lambda>b. of_nat (length b)) (fe_bin ef)\<rparr>"

definition estimates :: "uint64 \<Rightarrow> FeeEstimator \<Rightarrow> uint64 list" where
  "estimates overflow ef = map (\<lambda>i. estimateFee overflow (int i + 1) (newEstimateFeeSet ef)) [0..<estimateFeeDepth]"

datatype estimate_error = NotEnoughBlocks | ZeroBlocks | TooManyBlocks

definition EstimateFee :: "uint64 \<Rightarrow> uint64 \<Rightarrow> FeeEstimator \<Rightarrow> FeeEstimator \<times> (estimate_error + uint64)" where
  "EstimateFee overflow numBlocks ef =
     (if fe_numBlocksRegistered ef < fe_minRegisteredBlocks ef then (ef, Inl NotEnoughBlocks)
      else if numBlocks = 0 then (ef, Inl ZeroBlocks)
      else if unat numBlocks > estimateFeeDepth then (ef, Inl TooManyBlocks)
      else let c = (case fe_cached ef of None \<Rightarrow> estimates overflow ef | Some c \<Rightarrow> c)
           in (ef\<lparr>fe_cached := Some c\<rparr>, Inr (c ! (unat numBlocks - 1))))"

section \<open>Saving and restoring\<close>

text \<open>\<open>binary.Write\<close> and \<open>binary.Read\<close> in big-endian order. The errors of \<open>Read\<close> are ignored: too few bytes leave zero.\<close>

definition be_put :: "nat \<Rightarrow> nat \<Rightarrow> bytes" where
  "be_put k n = rev (le_bytes k n)"

definition be_get :: "nat \<Rightarrow> bytes \<Rightarrow> nat \<times> bytes" where
  "be_get k bs = (if length bs < k then (0, []) else (le_val (rev (take k bs)), drop k bs))"

definition hash_get :: "bytes \<Rightarrow> hash \<times> bytes" where
  "hash_get bs = (if length bs < HashSize then (zero_hash, []) else (take HashSize bs, drop HashSize bs))"

fun get_list :: "(bytes \<Rightarrow> 'a \<times> bytes) \<Rightarrow> nat \<Rightarrow> bytes \<Rightarrow> 'a list \<times> bytes" where
  "get_list rd 0 bs = ([], bs)"
| "get_list rd (Suc n) bs = (let (x, bs1) = rd bs; (xs, bs2) = get_list rd n bs1 in (x # xs, bs2))"

definition get_counted :: "(bytes \<Rightarrow> 'a \<times> bytes) \<Rightarrow> bytes \<Rightarrow> 'a list \<times> bytes" where
  "get_counted rd bs = (let (n, bs1) = be_get 4 bs in get_list rd n bs1)"

definition ot_Serialize :: "observedTransaction \<Rightarrow> bytes" where
  "ot_Serialize ot = ot_hash ot @ be_put 8 (unat (ot_feeRate ot)) @ be_put 8 (unat (ot_observed ot)) @ be_put 8 (unat (ot_mined ot))"

definition deserializeObservedTransaction :: "bytes \<Rightarrow> observedTransaction \<times> bytes" where
  "deserializeObservedTransaction bs =
     (let (h, bs1) = hash_get bs; (feeRate, bs2) = be_get 8 bs1; (observed, bs3) = be_get 8 bs2; (mined, bs4) = be_get 8 bs3
      in (\<lparr>ot_hash = h, ot_feeRate = of_nat feeRate, ot_observed = of_nat observed, ot_mined = of_nat mined\<rparr>, bs4))"

text \<open>The number that \<open>Save\<close> gave to an object; zero for one it has not seen.\<close>

fun position :: "ref \<Rightarrow> ref list \<Rightarrow> nat" where
  "position r [] = 0"
| "position r (x # xs) = (if x = r then 0 else if r \<in> set xs then position r xs + 1 else 0)"

definition put_counted :: "('a \<Rightarrow> bytes) \<Rightarrow> 'a list \<Rightarrow> bytes" where
  "put_counted wr xs = be_put 4 (length xs) @ concat (map wr xs)"

definition rb_serialize :: "ref list \<Rightarrow> registeredBlock \<Rightarrow> bytes" where
  "rb_serialize refs rb = rb_hash rb
     @ put_counted (\<lambda>p. be_put 4 (case p of None \<Rightarrow> 0 | Some r \<Rightarrow> position r refs)) (rb_transactions rb)"

definition deserializeRegisteredBlock :: "nat \<Rightarrow> bytes \<Rightarrow> registeredBlock \<times> bytes" where
  "deserializeRegisteredBlock numObserved bs =
     (let (h, bs1) = hash_get bs; (idx, bs2) = get_counted (be_get 4) bs1
      in (\<lparr>rb_hash = h, rb_transactions = map (\<lambda>i. if i < numObserved then Some i else None) idx\<rparr>, bs2))"

definition saved_refs :: "FeeEstimator \<Rightarrow> ref list" where
  "saved_refs ef = sort_key (\<lambda>r. Hash_String (ot_hash (fe_heap ef ! r))) (range_values (fe_observed ef) (sorted_keys (fe_observed ef)))"

definition save_header :: "FeeEstimator \<Rightarrow> bytes" where
  "save_header ef = be_put 4 1 @ be_put 4 (unat (fe_maxRollback ef)) @ be_put 4 (unat (fe_binSize ef)) @ be_put 4 (unat (fe_maxReplacements ef))
     @ be_put 4 (unat (fe_minRegisteredBlocks ef)) @ be_put 8 (unat (fe_lastKnownHeight ef)) @ be_put 4 (unat (fe_numBlocksRegistered ef))"

definition Save :: "FeeEstimator \<Rightarrow> bytes" where
  "Save ef = save_header ef
     @ put_counted (\<lambda>r. ot_Serialize (fe_heap ef ! r)) (saved_refs ef)
     @ concat (map (put_counted (\<lambda>r. be_put 4 (position r (saved_refs ef)))) (fe_bin ef))
     @ put_counted (rb_serialize (saved_refs ef)) (fe_dropped ef)"

text \<open>\<open>None\<close> is an error: the version, or a bin with a number that no transaction has.\<close>

definition RestoreFeeEstimator :: "bytes \<Rightarrow> FeeEstimator option" where
  "RestoreFeeEstimator data =
     (if length data < 4 \<or> fst (be_get 4 data) \<noteq> 1 then None
      else let (maxRollback, bs1) = be_get 4 (snd (be_get 4 data)); (binSize, bs2) = be_get 4 bs1; (maxReplacements, bs3) = be_get 4 bs2;
               (minRegisteredBlocks, bs4) = be_get 4 bs3; (lastKnownHeight, bs5) = be_get 8 bs4; (numBlocksRegistered, bs6) = be_get 4 bs5;
               (ots, bs7) = get_counted deserializeObservedTransaction bs6;
               (bins, bs8) = get_list (get_counted (be_get 4)) estimateFeeDepth bs7;
               (dropped, bs9) = get_counted (deserializeRegisteredBlock (length ots)) bs8
           in if list_all (list_all (\<lambda>i. i < length ots)) bins then
                Some \<lparr>fe_maxRollback = of_nat maxRollback, fe_binSize = of_nat binSize, fe_maxReplacements = of_nat maxReplacements,
                  fe_minRegisteredBlocks = of_nat minRegisteredBlocks, fe_lastKnownHeight = of_nat lastKnownHeight,
                  fe_numBlocksRegistered = of_nat numBlocksRegistered,
                  fe_observed = fold (\<lambda>i. fmupd (ot_hash (ots ! i)) i) [0..<length ots] fmempty,
                  fe_bin = bins, fe_cached = None, fe_dropped = dropped, fe_heap = ots\<rparr>
              else None)"

end
