(* ===== verification/Fee_Rollback.thy ===== *)
theory Fee_Rollback
  imports Fee_Estimator
begin

text \<open>
  What registering a block and rolling it back do to the fee estimator, as equations on the multiset of
  transactions in the bins and on the marks \<open>mined\<close> in the store, and the invariant of every estimator that
  can be reached: no transaction is in two bins, each is in the bin of its waiting time, no bin exceeds its
  size, and there are enough transactions of each recent block to undo it.
\<close>

section \<open>Marks in the store\<close>

definition mark :: "uint64 \<Rightarrow> ref set \<Rightarrow> observedTransaction list \<Rightarrow> observedTransaction list" where
  "mark h A heap = map (\<lambda>i. if i \<in> A then (heap ! i)\<lparr>ot_mined := h\<rparr> else heap ! i) [0..<length heap]"

lemma length_mark [simp]: "length (mark h A heap) = length heap"
  by (simp add: mark_def)

lemma nth_mark [simp]: "i < length heap \<Longrightarrow> mark h A heap ! i = (if i \<in> A then (heap ! i)\<lparr>ot_mined := h\<rparr> else heap ! i)"
  by (simp add: mark_def)

lemma mark_empty [simp]: "mark h {} heap = heap"
  by (simp add: mark_def map_nth)

lemma mark_mark [simp]: "mark h A (mark h B heap) = mark h (A \<union> B) heap"
  by (rule nth_equalityI) auto

lemma set_mined_mark: "r < length heap \<Longrightarrow> set_mined r h heap = mark h {r} heap"
  by (rule nth_equalityI) (auto simp: set_mined_def nth_list_update)

lemma mark_undo: "(\<And>r. r \<in> A \<Longrightarrow> r < length heap \<Longrightarrow> ot_mined (heap ! r) = u) \<Longrightarrow> mark u A (mark h A heap) = heap"
  by (rule nth_equalityI) auto

definition mined :: "observedTransaction list \<Rightarrow> ref \<Rightarrow> uint64" where
  "mined heap r = ot_mined (heap ! r)"

text \<open>The bin a mined transaction belongs to.\<close>

definition waited :: "observedTransaction list \<Rightarrow> ref \<Rightarrow> nat" where
  "waited heap r = unat (ot_mined (heap ! r) - ot_observed (heap ! r) - 1)"

lemma mined_mark: "r < length heap \<Longrightarrow> mined (mark h A heap) r = (if r \<in> A then h else mined heap r)"
  by (simp add: mined_def)

lemma waited_mark: "r < length heap \<Longrightarrow> r \<notin> A \<Longrightarrow> waited (mark h A heap) r = waited heap r"
  by (simp add: waited_def)

section \<open>Bins\<close>

lemma mset_concat_update:
  "b < length bins \<Longrightarrow> mset (concat (bins[b := x])) + mset (bins ! b) = mset (concat bins) + mset x"
proof (induction bins arbitrary: b)
  case (Cons y ys)
  then show ?case by (cases b) (simp_all add: add.assoc add.commute [of "mset x"])
qed simp

lemma set_concat_nth: "r \<in> set (concat bins) \<longleftrightarrow> (\<exists>b<length bins. r \<in> set (bins ! b))"
  by (metis UN_iff in_set_conv_nth set_concat)

lemma in_bin: "b < length bins \<Longrightarrow> r \<in> set (bins ! b) \<Longrightarrow> r \<in> set (concat bins)"
  unfolding set_concat_nth by blast

lemma filter_bins_cong: "(\<And>r. r \<in> set (concat bins) \<Longrightarrow> P r = Q r) \<Longrightarrow> map (filter P) bins = map (filter Q) bins"
  by (induction bins) (simp_all cong: filter_cong)

text \<open>Every transaction is in the bin of its waiting time.\<close>

definition sorted_in :: "observedTransaction list \<Rightarrow> ref list list \<Rightarrow> bool" where
  "sorted_in heap bins \<longleftrightarrow> length bins = estimateFeeDepth \<and> (\<forall>b<estimateFeeDepth. \<forall>r\<in>set (bins ! b). r < length heap \<and> waited heap r = b)"

lemma sorted_in_less: "sorted_in heap bins \<Longrightarrow> r \<in> set (concat bins) \<Longrightarrow> r < length heap"
  unfolding sorted_in_def set_concat_nth by metis

lemma filter_concat_nth:
  "(\<And>j. j < length bins \<Longrightarrow> (\<forall>r\<in>set (bins ! j). P r \<longleftrightarrow> j = b)) \<Longrightarrow> b < length bins \<Longrightarrow> filter P (concat bins) = bins ! b"
proof (induction bins arbitrary: b)
  case (Cons x xs)
  have tl: "\<forall>r\<in>set (xs ! j). P r \<longleftrightarrow> Suc j = b" if "j < length xs" for j
    using Cons.prems(1) [of "Suc j"] that by simp
  have hd: "\<forall>r\<in>set x. P r \<longleftrightarrow> 0 = b" using Cons.prems(1) [of 0] by simp
  show ?case
  proof (cases b)
    case 0
    have "\<not> P r" if "r \<in> set (concat xs)" for r using that tl 0 unfolding set_concat_nth by auto
    then have "filter P (concat xs) = []" by (simp add: filter_empty_conv del: set_concat)
    then show ?thesis using hd 0 by simp
  next
    case (Suc c)
    then show ?thesis using Cons.IH [of c] tl hd Cons.prems(2) by simp
  qed
qed simp

lemma sorted_in_bin: "sorted_in heap bins \<Longrightarrow> b < estimateFeeDepth \<Longrightarrow> filter (\<lambda>r. waited heap r = b) (concat bins) = bins ! b"
  by (rule filter_concat_nth) (auto simp: sorted_in_def)

section \<open>The estimator between two operations\<close>

text \<open>An object the map \<open>observed\<close> points to, under its own hash.\<close>

definition tracked :: "FeeEstimator \<Rightarrow> ref \<Rightarrow> bool" where
  "tracked ef r \<longleftrightarrow> r < length (fe_heap ef) \<and> fmlookup (fe_observed ef) (ot_hash (fe_heap ef ! r)) = Some r"

text \<open>The configuration that \<open>NewFeeEstimator\<close> gives is of this kind.\<close>

definition config_ok :: "FeeEstimator \<Rightarrow> bool" where
  "config_ok ef \<longleftrightarrow> 0 \<le> sint (fe_maxReplacements ef) \<and> sint (fe_maxReplacements ef) < sint (fe_binSize ef)"

definition bins_ok :: "FeeEstimator \<Rightarrow> bool" where
  "bins_ok ef \<longleftrightarrow> config_ok ef \<and> sorted_in (fe_heap ef) (fe_bin ef) \<and> distinct (concat (fe_bin ef))
     \<and> (\<forall>h r. fmlookup (fe_observed ef) h = Some r \<longrightarrow> r < length (fe_heap ef) \<and> ot_hash (fe_heap ef ! r) = h)
     \<and> (\<forall>r\<in>set (concat (fe_bin ef)). tracked ef r \<and> mined (fe_heap ef) r \<noteq> UnminedHeight)
     \<and> (\<forall>b<estimateFeeDepth. int (length (fe_bin ef ! b)) \<le> sint (fe_binSize ef))"

definition in_range :: "(nat \<Rightarrow> nat \<Rightarrow> nat) \<Rightarrow> bool" where
  "in_range rand \<longleftrightarrow> (\<forall>k l. 0 < l \<longrightarrow> rand k l < l)"

section \<open>Registering a block\<close>

definition class_count :: "observedTransaction list \<Rightarrow> nat \<Rightarrow> ref list \<Rightarrow> nat" where
  "class_count heap b rs = length (filter (\<lambda>r. waited heap r = b) rs)"

lemma class_count_append [simp]: "class_count heap b (xs @ ys) = class_count heap b xs + class_count heap b ys"
  by (simp add: class_count_def)

lemma class_count_single [simp]: "class_count heap b [r] = (if waited heap r = b then 1 else 0)"
  by (simp add: class_count_def)

lemma class_count_Nil [simp]: "class_count heap b [] = 0"
  by (simp add: class_count_def)

lemma class_count_cong: "(\<And>x. x \<in> set rs \<Longrightarrow> waited H x = waited H' x) \<Longrightarrow> class_count H b rs = class_count H' b rs"
  by (simp add: class_count_def cong: filter_cong)

lemma class_count_le: "(\<And>x. x \<in> set rs \<Longrightarrow> waited H x = b) \<Longrightarrow> class_count H c rs \<le> (if c = b then length rs else 0)"
  unfolding class_count_def by (auto simp: filter_empty_conv)

text \<open>The fields that the loop does not change.\<close>

definition frame :: "FeeEstimator \<Rightarrow> FeeEstimator" where
  "frame ef = ef\<lparr>fe_heap := [], fe_bin := []\<rparr>"

lemma frame_update [simp]: "frame (ef\<lparr>fe_heap := x, fe_bin := y\<rparr>) = frame ef"
  by (simp add: frame_def)

lemma frame_fields: "frame ef = frame ef' \<Longrightarrow> fe_observed ef = fe_observed ef' \<and> fe_maxReplacements ef = fe_maxReplacements ef'
  \<and> fe_binSize ef = fe_binSize ef' \<and> fe_lastKnownHeight ef = fe_lastKnownHeight ef' \<and> fe_dropped ef = fe_dropped ef'
  \<and> fe_maxRollback ef = fe_maxRollback ef' \<and> fe_numBlocksRegistered ef = fe_numBlocksRegistered ef'
  \<and> fe_minRegisteredBlocks ef = fe_minRegisteredBlocks ef' \<and> fe_cached ef = fe_cached ef'"
  by (cases ef, cases ef') (simp add: frame_def)

text \<open>
  The invariant of the loop: \<open>added\<close> are the transactions of the block put into bins so far. In each bin
  those stand at the end, where the random choice does not reach.
\<close>

definition reg_inv :: "uint64 \<Rightarrow> FeeEstimator \<Rightarrow> FeeEstimator \<times> nat list \<times> ref list \<Rightarrow> ref list \<Rightarrow> bool" where
  "reg_inv h ef0 st added \<longleftrightarrow> (case st of (ef, counts, dropped) \<Rightarrow>
     fe_heap ef = mark h (set added) (fe_heap ef0) \<and> frame ef = frame ef0
     \<and> sorted_in (fe_heap ef) (fe_bin ef) \<and> distinct added
     \<and> mset (concat (fe_bin ef)) + mset dropped = mset (concat (fe_bin ef0)) + mset added
     \<and> set dropped \<subseteq> set (concat (fe_bin ef0)) \<and> (\<forall>r\<in>set added. tracked ef0 r \<and> mined (fe_heap ef0) r = UnminedHeight)
     \<and> length counts = estimateFeeDepth
     \<and> (\<forall>b<estimateFeeDepth. int (counts ! b) \<le> sint (fe_maxReplacements ef0) \<and> int (length (fe_bin ef ! b)) \<le> sint (fe_binSize ef0)
          \<and> class_count (fe_heap ef) b dropped \<le> class_count (fe_heap ef) b added
          \<and> (\<forall>i. i + counts ! b + 1 < length (fe_bin ef ! b) \<longrightarrow> fe_bin ef ! b ! i \<notin> set added)))"

lemma reg_inv_start: "bins_ok ef \<Longrightarrow> reg_inv h ef (ef, replicate estimateFeeDepth 0, []) []"
  by (auto simp: reg_inv_def bins_ok_def config_ok_def)

text \<open>Putting a reference into a bin: it replaces at most one other, which is not in the end of the bin.\<close>

lemma mset_update_nth: "i < length xs \<Longrightarrow> mset (xs[i := x]) + {# xs ! i #} = mset xs + {# x #}"
  by (simp add: mset_update)

lemma exchange: "A + c = B + r \<Longrightarrow> B + a = M + c \<Longrightarrow> A + a = M + r" for A :: "'x multiset"
proof -
  assume 1: "A + c = B + r" and 2: "B + a = M + c"
  have "A + a + c = (A + c) + a" by (simp add: ac_simps)
  also have "\<dots> = (B + a) + r" unfolding 1 by (simp add: ac_simps)
  also have "\<dots> = M + r + c" unfolding 2 by (simp add: ac_simps)
  finally show ?thesis by simp
qed

lemma exchange2: "A + c = B + x \<Longrightarrow> x + a = c + y \<Longrightarrow> A + a = B + y" for A :: "'x multiset"
proof -
  assume 1: "A + c = B + x" and 2: "x + a = c + y"
  have "A + a + c = (A + c) + a" by (simp add: ac_simps)
  also have "\<dots> = B + (x + a)" unfolding 1 by (simp add: ac_simps)
  also have "\<dots> = B + y + c" unfolding 2 by (simp add: ac_simps)
  finally show ?thesis by simp
qed

lemma put_in_bin:
  assumes "in_range rand" and "int (length bin) \<le> binSize" and "int cnt < binSize" and "0 < cnt"
  obtains bin' out where "put_in_bin rand binSize cnt r bin dropped = Inr (bin', dropped @ out)"
    and "mset bin' + mset out = mset bin + {# r #}" and "length out \<le> 1" and "int (length bin') \<le> binSize"
    and "\<And>d. d \<in> set out \<Longrightarrow> \<exists>i. i + cnt < length bin \<and> bin ! i = d"
    and "\<And>i. i + cnt + 1 < length bin' \<Longrightarrow> \<exists>j. j + cnt < length bin \<and> bin' ! i = bin ! j"
proof (cases "int (length bin) = binSize")
  case False
  show ?thesis
    by (rule that [of "bin @ [r]" "[]"]) (use False assms(2) in \<open>auto simp: put_in_bin_def nth_append\<close>)
next
  case True
  define l where "l = length bin - cnt"
  have l: "0 < l" "nat (binSize - int cnt) = l" "l \<le> length bin" using True assms(3) by (auto simp: l_def)
  define k where "k = rand (length dropped) l"
  have k: "k < l" using assms(1) l(1) by (simp add: k_def in_range_def)
  have eq: "put_in_bin rand binSize cnt r bin dropped = Inr ((bin[k := bin ! (l - 1)])[l - 1 := r], dropped @ [bin ! k])"
    using True assms(3) l k by (simp add: put_in_bin_def Let_def k_def [symmetric] andThen_def index_def)
  show ?thesis
  proof (rule that [OF eq])
    have moved: "bin[k := bin ! (l - 1)] ! (l - 1) = bin ! (l - 1)" using l k by (cases "k = l - 1") auto
    have "mset ((bin[k := bin ! (l - 1)])[l - 1 := r]) + {# bin ! k #} = mset bin + {# r #}"
    proof (rule exchange)
      show "mset ((bin[k := bin ! (l - 1)])[l - 1 := r]) + {# bin ! (l - 1) #} = mset (bin[k := bin ! (l - 1)]) + {# r #}"
        using mset_update_nth [of "l - 1" "bin[k := bin ! (l - 1)]" r] l k unfolding moved by auto
      show "mset (bin[k := bin ! (l - 1)]) + {# bin ! k #} = mset bin + {# bin ! (l - 1) #}"
        using l k by (intro mset_update_nth) auto
    qed
    then show "mset ((bin[k := bin ! (l - 1)])[l - 1 := r]) + mset [bin ! k] = mset bin + {# r #}" by simp
  next
    fix d assume "d \<in> set [bin ! k]"
    then show "\<exists>i. i + cnt < length bin \<and> bin ! i = d" using k by (auto simp: l_def intro!: exI [of _ k])
  next
    fix i assume "i + cnt + 1 < length ((bin[k := bin ! (l - 1)])[l - 1 := r])"
    then have i: "i < l - 1" by (simp add: l_def)
    then show "\<exists>j. j + cnt < length bin \<and> (bin[k := bin ! (l - 1)])[l - 1 := r] ! i = bin ! j"
      using k l(1) by (cases "i = k") (auto simp: l_def intro: exI [of _ "l - 1"] exI [of _ i])
  qed (use True in simp_all)
qed

lemma reg_inv_disjoint:
  assumes "bins_ok ef0" and "reg_inv h ef0 (ef, counts, dropped) added" and "h \<noteq> UnminedHeight"
  shows "length (fe_heap ef) = length (fe_heap ef0)" and "fe_observed ef = fe_observed ef0"
    and "r \<in> set (concat (fe_bin ef)) \<Longrightarrow> r < length (fe_heap ef0) \<and> mined (fe_heap ef) r \<noteq> UnminedHeight"
    and "set (concat (fe_bin ef0)) \<inter> set added = {}"
    and "set (concat (fe_bin ef)) \<union> set dropped = set (concat (fe_bin ef0)) \<union> set added"
proof -
  have heap: "fe_heap ef = mark h (set added) (fe_heap ef0)" using assms(2) by (simp add: reg_inv_def)
  then show "length (fe_heap ef) = length (fe_heap ef0)" by simp
  show "fe_observed ef = fe_observed ef0"
    by (rule frame_fields [THEN conjunct1]) (use assms(2) in \<open>simp add: reg_inv_def\<close>)
  show dis: "set (concat (fe_bin ef0)) \<inter> set added = {}" using assms(1,2) by (auto simp: reg_inv_def bins_ok_def)
  have "set_mset (mset (concat (fe_bin ef)) + mset dropped) = set_mset (mset (concat (fe_bin ef0)) + mset added)"
    using assms(2) by (simp add: reg_inv_def)
  then show un: "set (concat (fe_bin ef)) \<union> set dropped = set (concat (fe_bin ef0)) \<union> set added" by simp
  assume "r \<in> set (concat (fe_bin ef))"
  then have "r \<in> set (concat (fe_bin ef0)) \<or> r \<in> set added" using un by blast
  then show "r < length (fe_heap ef0) \<and> mined (fe_heap ef) r \<noteq> UnminedHeight"
  proof
    assume "r \<in> set (concat (fe_bin ef0))"
    moreover from this have "tracked ef0 r" "mined (fe_heap ef0) r \<noteq> UnminedHeight" using assms(1) unfolding bins_ok_def by blast+
    ultimately show ?thesis using dis unfolding heap by (auto simp: tracked_def mined_mark)
  next
    assume "r \<in> set added"
    moreover from this have "tracked ef0 r" using assms(2) unfolding reg_inv_def by simp
    ultimately show ?thesis using assms(3) unfolding heap by (simp add: tracked_def mined_mark)
  qed
qed

text \<open>One transaction \<open>r\<close> is put into the bin \<open>b\<close> and gets its mark, which changes the store from \<open>heap\<close> to \<open>H\<close>.\<close>

definition new_mark :: "observedTransaction list \<Rightarrow> observedTransaction list \<Rightarrow> ref \<Rightarrow> nat \<Rightarrow> bool" where
  "new_mark heap H r b \<longleftrightarrow> length H = length heap \<and> r < length heap \<and> waited H r = b \<and> b < estimateFeeDepth
     \<and> (\<forall>x. x < length heap \<longrightarrow> x \<noteq> r \<longrightarrow> waited H x = waited heap x)"

lemma sorted_in_put:
  assumes "sorted_in heap bins" and "new_mark heap H r b" and "r \<notin> set (concat bins)" and "set bin' \<subseteq> insert r (set (bins ! b))"
  shows "sorted_in H (bins[b := bin'])"
proof -
  have len: "length bins = estimateFeeDepth" using assms(1) by (simp add: sorted_in_def)
  have "x < length heap \<and> waited H x = c" if "c < estimateFeeDepth" "x \<in> set (bins[b := bin'] ! c)" for c x
  proof (cases "x = r")
    case True
    have "c = b" using that True assms(3) len in_bin [of c bins r] by (metis nth_list_update_neq)
    then show ?thesis using True assms(2) by (simp add: new_mark_def)
  next
    case False
    then have "x \<in> set (bins ! c)" using that assms(4) len by (cases "c = b") auto
    then show ?thesis using assms(1,2) that(1) False by (simp add: sorted_in_def new_mark_def)
  qed
  then show ?thesis using assms(2) by (simp add: sorted_in_def len new_mark_def)
qed

lemma class_count_put:
  assumes "sorted_in heap bins" and "new_mark heap H r b" and "r \<notin> set (concat bins)" and "set out \<subseteq> set (bins ! b)" and "length out \<le> 1"
    and "\<And>x. x \<in> set dropped \<union> set added \<Longrightarrow> x < length heap \<and> x \<noteq> r" and "class_count heap c dropped \<le> class_count heap c added"
  shows "class_count H c (dropped @ out) \<le> class_count H c (added @ [r])"
proof -
  have "class_count H c dropped = class_count heap c dropped" "class_count H c added = class_count heap c added"
    by (rule class_count_cong; use assms(2,6) in \<open>simp add: new_mark_def\<close>)+
  moreover have "class_count H c out \<le> (if c = b then length out else 0)"
  proof (rule class_count_le)
    fix x assume "x \<in> set out"
    then have xb: "x \<in> set (bins ! b)" using assms(4) by blast
    then have "x \<noteq> r" using assms(1-3) in_bin by (metis new_mark_def sorted_in_def)
    then show "waited H x = b" using assms(1,2) xb by (auto simp: sorted_in_def new_mark_def)
  qed
  ultimately show ?thesis using assms(2,5,7) by (auto simp: new_mark_def split: if_splits)
qed

lemma front_put:
  assumes front: "\<forall>i. i + counts ! c + 1 < length (bins ! c) \<longrightarrow> bins ! c ! i \<notin> A" and "c < length bins" and "length counts = length bins" and "b < length bins"
    and "cnt = counts ! b + 1" and r: "r \<notin> set (concat bins)"
    and put: "\<And>i. i + cnt + 1 < length bin' \<Longrightarrow> \<exists>j. j + cnt < length (bins ! b) \<and> bin' ! i = bins ! b ! j"
    and i: "i + counts[b := cnt] ! c + 1 < length (bins[b := bin'] ! c)"
  shows "bins[b := bin'] ! c ! i \<notin> insert r A"
proof (cases "c = b")
  case True
  then obtain j where j: "j + cnt < length (bins ! b)" "bin' ! i = bins ! b ! j" using put [of i] i assms(3,4) by auto
  then have "bins ! b ! j \<in> set (concat bins)" by (intro in_bin [of b]) (simp_all add: assms(4))
  then show ?thesis using front assms(4,5) j True r by auto
next
  case False
  then have i: "i + counts ! c + 1 < length (bins ! c)" using i by simp
  then have "bins ! c ! i \<in> set (concat bins)" by (intro in_bin [of c]) (simp_all add: assms(2))
  then show ?thesis using front i False r by auto
qed

lemma concat_put:
  assumes "b < length bins" and "mset bin' + mset out = mset (bins ! b) + {# r #}" and "mset (concat bins) + mset dropped = M + mset added"
  shows "mset (concat (bins[b := bin'])) + mset (dropped @ out) = M + mset (added @ [r])"
proof -
  have "mset (concat (bins[b := bin'])) + mset out = mset (concat bins) + {# r #}"
    by (rule exchange2 [OF mset_concat_update assms(2)]) (rule assms(1))
  then have "mset (concat (bins[b := bin'])) + mset out + mset dropped = (mset (concat bins) + mset dropped) + {# r #}"
    by (simp add: ac_simps)
  then show ?thesis unfolding assms(3) by (simp add: ac_simps)
qed

lemma reg_inv_put:
  assumes ok: "bins_ok ef0" and inv: "reg_inv h ef0 (ef, counts, dropped) added" and h: "h \<noteq> UnminedHeight"
    and r: "tracked ef0 r" "mined (fe_heap ef) r = UnminedHeight" "unat (h - ot_observed (fe_heap ef ! r) - 1) = b" "b < estimateFeeDepth"
    and cnt: "cnt = counts ! b + 1" "int cnt \<le> sint (fe_maxReplacements ef0)"
    and bin: "mset bin' + mset out = mset (fe_bin ef ! b) + {# r #}" "length out \<le> 1" "int (length bin') \<le> sint (fe_binSize ef0)"
    and out: "\<And>d. d \<in> set out \<Longrightarrow> \<exists>i. i + cnt < length (fe_bin ef ! b) \<and> fe_bin ef ! b ! i = d"
    and front: "\<And>i. i + cnt + 1 < length bin' \<Longrightarrow> \<exists>j. j + cnt < length (fe_bin ef ! b) \<and> bin' ! i = fe_bin ef ! b ! j"
  shows "reg_inv h ef0 (ef\<lparr>fe_heap := set_mined r h (fe_heap ef), fe_bin := (fe_bin ef)[b := bin']\<rparr>, counts[b := cnt], dropped @ out) (added @ [r])"
proof -
  let ?H = "set_mined r h (fe_heap ef)"
  note facts = reg_inv_disjoint [OF ok inv h]
  have heap: "fe_heap ef = mark h (set added) (fe_heap ef0)" and s: "sorted_in (fe_heap ef) (fe_bin ef)"
    and ms: "mset (concat (fe_bin ef)) + mset dropped = mset (concat (fe_bin ef0)) + mset added"
    and counts: "length counts = estimateFeeDepth"
    and each: "\<And>b. b < estimateFeeDepth \<Longrightarrow> int (counts ! b) \<le> sint (fe_maxReplacements ef0) \<and> int (length (fe_bin ef ! b)) \<le> sint (fe_binSize ef0)
          \<and> class_count (fe_heap ef) b dropped \<le> class_count (fe_heap ef) b added
          \<and> (\<forall>i. i + counts ! b + 1 < length (fe_bin ef ! b) \<longrightarrow> fe_bin ef ! b ! i \<notin> set added)"
    using inv unfolding reg_inv_def prod.case by blast+
  have len: "length (fe_bin ef) = estimateFeeDepth" using s by (simp add: sorted_in_def)
  have rl: "r < length (fe_heap ef0)" using r(1) by (simp add: tracked_def)
  have new: "r \<notin> set added" "mined (fe_heap ef0) r = UnminedHeight"
    using r(2) h rl unfolding heap by (auto simp: mined_mark split: if_splits)
  have H: "?H = mark h (set (added @ [r])) (fe_heap ef0)" using rl unfolding heap by (subst set_mined_mark) (simp_all add: Un_commute)
  have nm: "new_mark (fe_heap ef) ?H r b" using rl r(3,4) facts(1) by (simp add: set_mined_mark new_mark_def waited_def)
  have rb: "r \<notin> set (concat (fe_bin ef))" using facts(3) r(2) by blast
  have "set_mset (mset bin' + mset out) = set_mset (mset (fe_bin ef ! b) + {# r #})" using bin(1) by (rule arg_cong)
  then have setbin: "set bin' \<subseteq> insert r (set (fe_bin ef ! b))" "set out \<subseteq> set (fe_bin ef ! b)" using out nth_mem by fastforce+
  have "d \<notin> set added" if "d \<in> set out" for d
    using out [OF that] each [OF r(4)] cnt(1) by (metis add.assoc)
  then have outbins: "set out \<subseteq> set (concat (fe_bin ef0))"
    using setbin(2) facts(5) r(4) len by (smt (verit) Un_iff set_concat_nth subset_iff)
  have "r \<notin> set (concat (fe_bin ef0))" using new(2) ok unfolding bins_ok_def by blast
  then have known: "x < length (fe_heap ef) \<and> x \<noteq> r" if "x \<in> set dropped \<union> set added" for x
    using that ok inv new(1) facts(1) unfolding bins_ok_def reg_inv_def prod.case tracked_def by (metis Un_iff subsetD)
  have "class_count ?H c (dropped @ out) \<le> class_count ?H c (added @ [r])" if "c < estimateFeeDepth" for c
    by (rule class_count_put [OF s nm rb setbin(2) bin(2) known]) (use each [OF that] in auto)
  moreover have "(fe_bin ef)[b := bin'] ! c ! i \<notin> set (added @ [r])"
    if "c < estimateFeeDepth" "i + counts[b := cnt] ! c + 1 < length ((fe_bin ef)[b := bin'] ! c)" for c i
    using front_put [OF _ _ _ _ cnt(1) rb front that(2), of "set added"] each [OF that(1)] that(1) len counts r(4) by simp
  moreover have "int (counts[b := cnt] ! c) \<le> sint (fe_maxReplacements ef0) \<and> int (length ((fe_bin ef)[b := bin'] ! c)) \<le> sint (fe_binSize ef0)"
    if "c < estimateFeeDepth" for c
    using each [OF that] cnt counts bin(3) len that by (cases "c = b") auto
  ultimately show ?thesis unfolding reg_inv_def prod.case
    using inv H sorted_in_put [OF s nm rb setbin(1)] concat_put [OF _ bin(1) ms] outbins new r(1,4) counts len by (simp add: reg_inv_def)
qed

text \<open>The loop never faults, and ends with an error or in a state that keeps the invariant.\<close>

lemma register_tx_inv:
  assumes ok: "bins_ok ef0" and inv: "reg_inv h ef0 st added" and h: "h \<noteq> UnminedHeight" and rnd: "in_range rand"
  shows "\<exists>res. register_tx rand h x st = Inr res \<and> (\<forall>st'. res = Some st' \<longrightarrow> (\<exists>added'. reg_inv h ef0 st' added'))"
proof -
  obtain ef counts dropped where st: "st = (ef, counts, dropped)" by (cases st)
  note inv = inv [unfolded st] and facts = reg_inv_disjoint [OF ok inv [unfolded st] h]
  show ?thesis
  proof (cases "fmlookup (fe_observed ef) x")
    case None
    then show ?thesis using inv by (auto simp: register_tx_def st)
  next
    case (Some r)
    define b where "b = unat (h - ot_observed (fe_heap ef ! r) - 1)"
    have tr: "tracked ef0 r" using ok Some facts(2) by (auto simp: bins_ok_def tracked_def)
    show ?thesis
    proof (cases "ot_mined (fe_heap ef ! r) \<noteq> UnminedHeight \<or> b \<ge> estimateFeeDepth \<or> int (counts ! b) = sint (fe_maxReplacements ef)")
      case True
      then show ?thesis using inv Some by (auto simp: register_tx_def st b_def Let_def)
    next
      case False
      have fr: "fe_maxReplacements ef = fe_maxReplacements ef0" "fe_binSize ef = fe_binSize ef0"
        using inv frame_fields unfolding reg_inv_def prod.case by metis+
      let ?cnt = "counts ! b + 1"
      have c: "int ?cnt \<le> sint (fe_maxReplacements ef0)" "int (length (fe_bin ef ! b)) \<le> sint (fe_binSize ef0)"
      proof -
        have "b < estimateFeeDepth" using False by simp
        then have "int (counts ! b) \<le> sint (fe_maxReplacements ef0)" and l: "int (length (fe_bin ef ! b)) \<le> sint (fe_binSize ef0)"
          using inv unfolding reg_inv_def prod.case by blast+
        then show "int ?cnt \<le> sint (fe_maxReplacements ef0)" using False fr by auto
        show "int (length (fe_bin ef ! b)) \<le> sint (fe_binSize ef0)" by (rule l)
      qed
      have "int ?cnt < sint (fe_binSize ef0)" using c ok by (simp add: bins_ok_def config_ok_def)
      then obtain bin' out where p: "put_in_bin rand (sint (fe_binSize ef0)) ?cnt r (fe_bin ef ! b) dropped = Inr (bin', dropped @ out)"
        "mset bin' + mset out = mset (fe_bin ef ! b) + {# r #}" "length out \<le> 1" "int (length bin') \<le> sint (fe_binSize ef0)"
        "\<And>d. d \<in> set out \<Longrightarrow> \<exists>i. i + ?cnt < length (fe_bin ef ! b) \<and> fe_bin ef ! b ! i = d"
        "\<And>i. i + ?cnt + 1 < length bin' \<Longrightarrow> \<exists>j. j + ?cnt < length (fe_bin ef ! b) \<and> bin' ! i = fe_bin ef ! b ! j"
        by (rule put_in_bin [OF rnd c(2), of ?cnt r dropped]) auto
      have "reg_inv h ef0 (ef\<lparr>fe_heap := set_mined r h (fe_heap ef), fe_bin := (fe_bin ef)[b := bin']\<rparr>, counts[b := ?cnt], dropped @ out) (added @ [r])"
        using False by (intro reg_inv_put [OF ok inv h tr _ _ _ refl c(1) p(2-6)]) (auto simp: mined_def b_def)
      then show ?thesis using False Some p(1) fr by (auto simp: register_tx_def st b_def [symmetric] Let_def andThen_def)
    qed
  qed
qed

lemma register_txs_inv:
  assumes "bins_ok ef0" and "h \<noteq> UnminedHeight" and "in_range rand"
  shows "reg_inv h ef0 (ef, st) added \<Longrightarrow>
    \<exists>ef' r. register_txs rand h (map Inr hs) (ef, st) = Inr (ef', r) \<and> (\<forall>st'. r = Some st' \<longrightarrow> (\<exists>added'. reg_inv h ef0 (ef', st') added'))"
proof (induction hs arbitrary: ef st added)
  case (Cons x hs)
  obtain res where res: "register_tx rand h x (ef, st) = Inr res" "\<And>st'. res = Some st' \<Longrightarrow> \<exists>added'. reg_inv h ef0 st' added'"
    using register_tx_inv [OF assms(1) Cons.prems assms(2,3)] by blast
  show ?case
  proof (cases res)
    case None
    then show ?thesis using res(1) by (simp add: andThen_def)
  next
    case (Some st')
    then obtain e s a where "st' = (e, s)" "reg_inv h ef0 (e, s) a" using res(2) by (cases st') blast
    then show ?thesis using Cons.IH res(1) Some by (simp add: andThen_def)
  qed
qed auto

section \<open>Rolling a block back\<close>

lemma undrop_first:
  assumes "\<exists>p\<in>set bin. mined heap p = h"
  obtains xs p ys where "bin = xs @ p # ys" and "\<forall>x\<in>set xs. mined heap x \<noteq> h" and "mined heap p = h"
    and "undrop h r heap bin = Inr (length xs + 1, set_mined p UnminedHeight heap, xs @ r # ys)"
proof -
  have "\<exists>xs p ys. bin = xs @ p # ys \<and> (\<forall>x\<in>set xs. mined heap x \<noteq> h) \<and> mined heap p = h
    \<and> undrop h r heap bin = Inr (length xs + 1, set_mined p UnminedHeight heap, xs @ r # ys)"
    using assms
  proof (induction bin)
    case (Cons q bin)
    show ?case
    proof (cases "mined heap q = h")
      case True
      then show ?thesis by (intro exI [of _ "[]"] exI [of _ q] exI [of _ bin]) (simp add: mined_def)
    next
      case False
      then have "\<exists>p\<in>set bin. mined heap p = h" using Cons.prems by auto
      then obtain xs p ys where *: "bin = xs @ p # ys" "\<forall>x\<in>set xs. mined heap x \<noteq> h" "mined heap p = h"
        "undrop h r heap bin = Inr (length xs + 1, set_mined p UnminedHeight heap, xs @ r # ys)" using Cons.IH by blast
      then show ?thesis using False
        by (intro exI [of _ "q # xs"] exI [of _ p] exI [of _ ys]) (simp add: andThen_def, simp add: mined_def)
    qed
  qed simp
  then show thesis using that by blast
qed

lemma clear_mined_eq:
  "distinct bin \<Longrightarrow> (\<And>r. r \<in> set bin \<Longrightarrow> r < length heap) \<Longrightarrow>
   clear_mined h heap bin = (mark UnminedHeight {r \<in> set bin. mined heap r = h} heap, filter (\<lambda>r. mined heap r \<noteq> h) bin)"
proof (induction bin arbitrary: heap)
  case (Cons p bin)
  have pl: "p < length heap" using Cons.prems(2) by simp
  show ?case
  proof (cases "mined heap p = h")
    case False
    then have "{r \<in> set (p # bin). mined heap r = h} = {r \<in> set bin. mined heap r = h}" by auto
    then show ?thesis using False Cons by (simp add: mined_def)
  next
    case True
    have same: "mined (mark UnminedHeight {p} heap) r = mined heap r" if "r \<in> set bin" for r
      using that Cons.prems by (auto simp: mined_mark)
    have "{r \<in> set bin. mined (mark UnminedHeight {p} heap) r = h} \<union> {p} = {r \<in> set (p # bin). mined heap r = h}"
      using same True by auto
    moreover have "filter (\<lambda>r. mined (mark UnminedHeight {p} heap) r \<noteq> h) bin = filter (\<lambda>r. mined heap r \<noteq> h) bin"
      using same by (intro filter_cong) auto
    ultimately show ?thesis using Cons.IH [of "mark UnminedHeight {p} heap"] Cons.prems True pl
      by (simp add: set_mined_mark) (simp add: mined_def)
  qed
qed simp

lemma clear_bins_eq:
  assumes "length js = length bins" and "distinct (concat bins)" and "\<And>r. r \<in> set (concat bins) \<Longrightarrow> r < length heap"
    and "\<And>b x. b < length bins \<Longrightarrow> x \<in> set (take (js ! b) (bins ! b)) \<Longrightarrow> mined heap x \<noteq> h"
  shows "clear_bins h js heap bins = (mark UnminedHeight {r \<in> set (concat bins). mined heap r = h} heap, map (filter (\<lambda>r. mined heap r \<noteq> h)) bins)"
  using assms
proof (induction js bins arbitrary: heap rule: list_induct2')
  case (4 j js bin bins)
  let ?A = "{r \<in> set bin. mined heap r = h}" and ?H = "mark UnminedHeight {r \<in> set bin. mined heap r = h} heap"
  have t: "\<And>x. x \<in> set (take j bin) \<Longrightarrow> mined heap x \<noteq> h" using 4(5) [of 0] by simp
  have bin: "bin = take j bin @ drop j bin" by simp
  have A: "{r \<in> set (drop j bin). mined heap r = h} = ?A" using t by (subst (2) bin) (auto simp del: append_take_drop_id dest: in_set_takeD in_set_dropD)
  have F: "take j bin @ filter (\<lambda>r. mined heap r \<noteq> h) (drop j bin) = filter (\<lambda>r. mined heap r \<noteq> h) bin"
    by (subst (3) bin, subst filter_append) (use t in \<open>simp add: filter_id_conv\<close>)
  have one: "clear_mined h heap (drop j bin) = (?H, filter (\<lambda>r. mined heap r \<noteq> h) (drop j bin))"
    using clear_mined_eq [of "drop j bin" heap h] 4(3,4) unfolding A by (auto dest: in_set_dropD)
  have same: "mined ?H r = mined heap r" if "r \<in> set (concat bins)" for r
    using that 4(3,4) by (auto simp: mined_mark)
  have "clear_bins h js ?H bins = (mark UnminedHeight {r \<in> set (concat bins). mined ?H r = h} ?H, map (filter (\<lambda>r. mined ?H r \<noteq> h)) bins)"
  proof (rule 4(1))
    fix b x assume b: "b < length bins" "x \<in> set (take (js ! b) (bins ! b))"
    then have "x \<in> set (concat bins)" by (intro in_bin [of b]) (auto dest: in_set_takeD)
    then show "mined ?H x \<noteq> h" using same 4(5) [of "Suc b" x] b by simp
  qed (use 4(2,3,4) in auto)
  moreover have "map (filter (\<lambda>r. mined ?H r \<noteq> h)) bins = map (filter (\<lambda>r. mined heap r \<noteq> h)) bins"
    by (rule filter_bins_cong) (simp only: same)
  moreover have "{r \<in> set (concat bins). mined ?H r = h} = {r \<in> set (concat bins). mined heap r = h}"
    using same by (simp cong: conj_cong del: set_concat)
  moreover have "{r \<in> set (concat bins). mined heap r = h} \<union> ?A = {r \<in> set (concat (bin # bins)). mined heap r = h}" by auto
  ultimately show ?case using one F by simp
qed auto

text \<open>
  The loop over the dropped transactions: \<open>gone\<close> are the transactions of the last block that gave their
  place back, \<open>again\<close> the dropped ones that are in the bins again.
\<close>

definition mined_in :: "observedTransaction list \<Rightarrow> uint64 \<Rightarrow> nat \<Rightarrow> ref list \<Rightarrow> nat" where
  "mined_in heap h b rs = length (filter (\<lambda>r. mined heap r = h \<and> waited heap r = b) rs)"

definition undo_inv :: "FeeEstimator \<Rightarrow> FeeEstimator \<times> nat list \<Rightarrow> ref list \<Rightarrow> ref list \<Rightarrow> bool" where
  "undo_inv ef0 st gone again \<longleftrightarrow> (case st of (ef, counters) \<Rightarrow>
     frame ef = frame ef0 \<and> fe_heap ef = mark UnminedHeight (set gone) (fe_heap ef0) \<and> sorted_in (fe_heap ef0) (fe_bin ef)
     \<and> distinct (concat (fe_bin ef)) \<and> set (concat (fe_bin ef)) \<inter> set gone = {}
     \<and> mset (concat (fe_bin ef)) + mset gone = mset (concat (fe_bin ef0)) + mset again
     \<and> (\<forall>r\<in>set gone. mined (fe_heap ef0) r = fe_lastKnownHeight ef0)
     \<and> length counters = estimateFeeDepth
     \<and> (\<forall>b<estimateFeeDepth. \<forall>x\<in>set (take (counters ! b) (fe_bin ef ! b)). mined (fe_heap ef0) x \<noteq> fe_lastKnownHeight ef0))"

lemma mined_in_bin:
  assumes "sorted_in heap bins" and "b < estimateFeeDepth"
  shows "mined_in heap h b (concat bins) = length (filter (\<lambda>r. mined heap r = h) (bins ! b))"
proof -
  have "filter (\<lambda>r. mined heap r = h \<and> waited heap r = b) (concat bins) = filter (\<lambda>r. mined heap r = h) (filter (\<lambda>r. waited heap r = b) (concat bins))"
    by (simp add: conj_commute)
  then show ?thesis unfolding mined_in_def sorted_in_bin [OF assms] by simp
qed

lemma mined_in_mset: "mset xs = mset ys \<Longrightarrow> mined_in heap h b xs = mined_in heap h b ys"
proof -
  assume "mset xs = mset ys"
  then have "size (filter_mset P (mset xs)) = size (filter_mset P (mset ys))" for P by simp
  then show ?thesis by (simp add: mined_in_def flip: mset_filter)
qed

lemma mined_in_exchange:
  "mset ys + {# p #} = mset xs + {# r #} \<Longrightarrow> mined_in heap h c ys + mined_in heap h c [p] = mined_in heap h c xs + mined_in heap h c [r]"
  using mined_in_mset [of "ys @ [p]" "xs @ [r]" heap h c] by (simp add: mined_in_def split: if_splits)

lemma distinct_exchange:
  assumes "mset ys + {# p #} = mset xs + {# r #}" and "distinct xs" and "r \<notin> set xs" and "p \<in> set xs"
  shows "distinct ys" and "set ys = insert r (set xs - {p})"
proof -
  have "add_mset p (mset ys) = add_mset p (add_mset r (mset xs - {# p #}))" using assms(1,4) by (simp add: add_mset_commute)
  then have "mset ys = mset (r # remove1 p xs)" by simp
  moreover have "distinct (r # remove1 p xs)" "set (r # remove1 p xs) = insert r (set xs - {p})" using assms(2,3) by auto
  ultimately show "distinct ys" "set ys = insert r (set xs - {p})" by (metis mset_eq_imp_distinct_iff, metis mset_eq_setD)
qed

text \<open>The place that the loop finds for the dropped transaction \<open>r\<close> in the bin \<open>b\<close>.\<close>

lemma undo_find:
  assumes inv: "undo_inv ef0 (ef, counters) gone again" and h: "h = fe_lastKnownHeight ef0" and b: "b < estimateFeeDepth"
    and some: "mined_in (fe_heap ef0) h b (concat (fe_bin ef)) > 0"
  obtains xs p ys where "fe_bin ef ! b = take (counters ! b) (fe_bin ef ! b) @ xs @ p # ys" and "counters ! b < length (fe_bin ef ! b)"
    and "\<forall>x\<in>set xs. mined (fe_heap ef0) x \<noteq> h" and "mined (fe_heap ef0) p = h"
    and "undrop h r (fe_heap ef) (drop (counters ! b) (fe_bin ef ! b)) = Inr (length xs + 1, set_mined p UnminedHeight (fe_heap ef), xs @ r # ys)"
proof -
  let ?bin = "fe_bin ef ! b" and ?c = "counters ! b" and ?H = "fe_heap ef0"
  have heap: "fe_heap ef = mark UnminedHeight (set gone) ?H" and s: "sorted_in ?H (fe_bin ef)"
    and dj: "set (concat (fe_bin ef)) \<inter> set gone = {}"
    and before: "\<forall>b<estimateFeeDepth. \<forall>x\<in>set (take (counters ! b) (fe_bin ef ! b)). mined ?H x \<noteq> h"
    using inv unfolding undo_inv_def prod.case h by blast+
  have cur: "mined (fe_heap ef) x = mined ?H x" if "x \<in> set ?bin" for x
  proof -
    have "x \<in> set (concat (fe_bin ef))" using in_bin that b s by (metis sorted_in_def)
    then have "x \<notin> set gone" "x < length ?H" using dj sorted_in_less [OF s] by blast+
    then show ?thesis unfolding heap by (simp add: mined_mark)
  qed
  have "filter (\<lambda>r. mined ?H r = h) ?bin \<noteq> []" using some unfolding mined_in_bin [OF s b] by simp
  then obtain q where q: "q \<in> set ?bin" "mined ?H q = h" by (auto simp: filter_empty_conv)
  have "q \<in> set (take ?c ?bin) \<union> set (drop ?c ?bin)" using q(1) by (metis append_take_drop_id set_append)
  then have qd: "q \<in> set (drop ?c ?bin)" using before b q(2) by blast
  then have ex: "\<exists>p\<in>set (drop ?c ?bin). mined (fe_heap ef) p = h" using cur q by metis
  obtain xs p ys where d: "drop ?c ?bin = xs @ p # ys" "\<forall>x\<in>set xs. mined (fe_heap ef) x \<noteq> h" "mined (fe_heap ef) p = h"
    and u: "undrop h r (fe_heap ef) (drop ?c ?bin) = Inr (length xs + 1, set_mined p UnminedHeight (fe_heap ef), xs @ r # ys)"
    by (rule undrop_first [OF ex])
  have bin: "?bin = take ?c ?bin @ xs @ p # ys" using d(1) by (metis append_take_drop_id)
  have in_b: "x \<in> set ?bin" if "x \<in> set (drop ?c ?bin)" for x using that by (rule in_set_dropD)
  show thesis
  proof (rule that [OF bin _ _ _ u])
    show "?c < length ?bin" using qd by (metis drop_all empty_iff empty_set leI)
    show "\<forall>x\<in>set xs. mined ?H x \<noteq> h" "mined ?H p = h" using d in_b cur by auto
  qed
qed

lemma undo_step:
  assumes inv: "undo_inv ef0 (ef, counters) gone again" and h: "h = fe_lastKnownHeight ef0"
    and r: "r < length (fe_heap ef0)" "mined (fe_heap ef0) r \<noteq> h" "waited (fe_heap ef0) r = b" "b < estimateFeeDepth" "r \<notin> set (concat (fe_bin ef))"
    and bin: "fe_bin ef ! b = take (counters ! b) (fe_bin ef ! b) @ xs @ p # ys" and c: "counters ! b < length (fe_bin ef ! b)"
    and xs: "\<forall>x\<in>set xs. mined (fe_heap ef0) x \<noteq> h" and p: "mined (fe_heap ef0) p = h"
    and bins': "bins' = (fe_bin ef)[b := take (counters ! b) (fe_bin ef ! b) @ xs @ r # ys]"
  shows "undo_inv ef0 (ef\<lparr>fe_heap := set_mined p UnminedHeight (fe_heap ef), fe_bin := bins'\<rparr>, counters[b := counters ! b + (length xs + 1)]) (gone @ [p]) (again @ [r])"
    and "mset (concat bins') + {# p #} = mset (concat (fe_bin ef)) + {# r #}" and "set (concat bins') = insert r (set (concat (fe_bin ef)) - {p})"
    and "waited (fe_heap ef0) p = b"
proof -
  let ?bin = "fe_bin ef ! b" and ?c = "counters ! b" and ?H = "fe_heap ef0"
  let ?new = "take ?c ?bin @ xs @ r # ys"
  have heap: "fe_heap ef = mark UnminedHeight (set gone) ?H" and s: "sorted_in ?H (fe_bin ef)" and dis: "distinct (concat (fe_bin ef))"
    and dj: "set (concat (fe_bin ef)) \<inter> set gone = {}" and ms: "mset (concat (fe_bin ef)) + mset gone = mset (concat (fe_bin ef0)) + mset again"
    and gone: "\<forall>r\<in>set gone. mined ?H r = h" and len: "length counters = estimateFeeDepth"
    and before: "\<forall>b<estimateFeeDepth. \<forall>x\<in>set (take (counters ! b) (fe_bin ef ! b)). mined ?H x \<noteq> h"
    using inv unfolding undo_inv_def prod.case h by blast+
  have lenb: "length (fe_bin ef) = estimateFeeDepth" using s by (simp add: sorted_in_def)
  have "set ?bin = set (take ?c ?bin @ xs @ p # ys)" by (rule arg_cong [OF bin])
  then have pb: "p \<in> set ?bin" and new: "set ?new \<subseteq> insert r (set ?bin)" by auto
  have pc: "p \<in> set (concat (fe_bin ef))" using in_bin pb r(4) lenb by metis
  have "mset ?bin = mset (take ?c ?bin @ xs @ p # ys)" by (rule arg_cong [OF bin])
  then have "mset ?new + {# p #} = mset ?bin + {# r #}" by simp
  then show ex: "mset (concat bins') + {# p #} = mset (concat (fe_bin ef)) + {# r #}"
    unfolding bins' by (intro exchange2 [OF mset_concat_update]) (simp add: lenb r(4))
  note set' = distinct_exchange [OF ex dis r(5) pc]
  show "set (concat bins') = insert r (set (concat (fe_bin ef)) - {p})" by (rule set'(2))
  show "waited ?H p = b" using s pb r(4) by (simp add: sorted_in_def)
  have pl: "p < length ?H" using sorted_in_less [OF s pc] .
  have "new_mark ?H ?H r b" using r by (simp add: new_mark_def)
  then have "sorted_in ?H bins'" unfolding bins' by (rule sorted_in_put [OF s _ r(5) new])
  moreover have "set_mined p UnminedHeight (fe_heap ef) = mark UnminedHeight (set (gone @ [p])) ?H"
    using pl unfolding heap by (subst set_mined_mark) (simp_all add: Un_commute)
  moreover have "set (concat bins') \<inter> set (gone @ [p]) = {}" using dj r(2) gone p unfolding set'(2) by auto
  moreover have "mset (concat bins') + mset (gone @ [p]) = mset (concat (fe_bin ef0)) + mset (again @ [r])"
  proof -
    have "mset (concat bins') + mset (gone @ [p]) = (mset (concat bins') + {# p #}) + mset gone" by simp
    also have "\<dots> = (mset (concat (fe_bin ef)) + mset gone) + {# r #}" unfolding ex by simp
    also have "\<dots> = mset (concat (fe_bin ef0)) + mset (again @ [r])" unfolding ms by simp
    finally show ?thesis .
  qed
  moreover have "mined ?H x \<noteq> h" if "a < estimateFeeDepth" "x \<in> set (take (counters[b := ?c + (length xs + 1)] ! a) (bins' ! a))" for a x
  proof (cases "a = b")
    case True
    have "take (?c + (length xs + 1)) ?new = take ?c ?bin @ xs @ [r]" using c by simp
    then show ?thesis using that True xs before r(2,4) len lenb unfolding bins' by auto
  next
    case False
    then show ?thesis using that before unfolding bins' by simp
  qed
  ultimately show "undo_inv ef0 (ef\<lparr>fe_heap := set_mined p UnminedHeight (fe_heap ef), fe_bin := bins'\<rparr>, counters[b := ?c + (length xs + 1)]) (gone @ [p]) (again @ [r])"
    using inv set'(1) p gone len h by (simp add: undo_inv_def)
qed

lemma undrop_all_inv:
  assumes h: "h = fe_lastKnownHeight ef0"
  shows "undo_inv ef0 (ef, counters) gone again \<Longrightarrow> distinct rs \<Longrightarrow> set rs \<inter> set (concat (fe_bin ef)) = {} \<Longrightarrow>
    (\<And>r. r \<in> set rs \<Longrightarrow> r < length (fe_heap ef0) \<and> mined (fe_heap ef0) r \<noteq> h \<and> waited (fe_heap ef0) r < estimateFeeDepth) \<Longrightarrow>
    (\<And>c. c < estimateFeeDepth \<Longrightarrow> class_count (fe_heap ef0) c rs \<le> mined_in (fe_heap ef0) h c (concat (fe_bin ef))) \<Longrightarrow>
    \<exists>st gone'. undrop_all (map Some rs) (ef, counters) = Inr st \<and> undo_inv ef0 st gone' (again @ rs)"
proof (induction rs arbitrary: ef counters gone again)
  case (Cons r rs)
  note inv = Cons.prems(1)
  let ?b = "waited (fe_heap ef0) r"
  have r: "r < length (fe_heap ef0)" "mined (fe_heap ef0) r \<noteq> h" "?b < estimateFeeDepth" "r \<notin> set (concat (fe_bin ef))"
    using Cons.prems(3,4) by auto
  have "class_count (fe_heap ef0) ?b (r # rs) > 0" by (simp add: class_count_def)
  then have some: "mined_in (fe_heap ef0) h ?b (concat (fe_bin ef)) > 0" using Cons.prems(5) [OF r(3)] by simp
  obtain xs p ys where f: "fe_bin ef ! ?b = take (counters ! ?b) (fe_bin ef ! ?b) @ xs @ p # ys" "counters ! ?b < length (fe_bin ef ! ?b)"
    "\<forall>x\<in>set xs. mined (fe_heap ef0) x \<noteq> h" "mined (fe_heap ef0) p = h"
    and u: "undrop h r (fe_heap ef) (drop (counters ! ?b) (fe_bin ef ! ?b)) = Inr (length xs + 1, set_mined p UnminedHeight (fe_heap ef), xs @ r # ys)"
    by (rule undo_find [OF inv h r(3) some])
  define bins' where "bins' = (fe_bin ef)[?b := take (counters ! ?b) (fe_bin ef ! ?b) @ xs @ r # ys]"
  let ?ef = "ef\<lparr>fe_heap := set_mined p UnminedHeight (fe_heap ef), fe_bin := bins'\<rparr>"
  note step = undo_step [OF inv h r(1,2) refl r(3,4) f bins'_def]
  have heap: "fe_heap ef = mark UnminedHeight (set gone) (fe_heap ef0)" and gone: "\<forall>r\<in>set gone. mined (fe_heap ef0) r = h"
    and fr: "frame ef = frame ef0" and len: "length (fe_bin ef) = estimateFeeDepth"
    using inv by (simp_all add: undo_inv_def h sorted_in_def)
  have "r \<notin> set gone" using gone r(2) by blast
  then have "unat (ot_mined (fe_heap ef ! r) - ot_observed (fe_heap ef ! r) - 1) = ?b" using r(1) unfolding heap by (simp add: waited_def)
  then have run: "undrop_all (map Some (r # rs)) (ef, counters) = undrop_all (map Some rs) (?ef, counters[?b := counters ! ?b + (length xs + 1)])"
    using u h frame_fields [OF fr] r(3) len by (simp add: andThen_def deref_def index_def Let_def bins'_def)
  have "class_count (fe_heap ef0) c rs \<le> mined_in (fe_heap ef0) h c (concat bins')" if "c < estimateFeeDepth" for c
    using Cons.prems(5) [OF that] mined_in_exchange [OF step(2), of "fe_heap ef0" h c] r(2) f(4) step(4)
    by (simp add: class_count_def mined_in_def split: if_splits)
  moreover have "set rs \<inter> set (concat bins') = {}" using Cons.prems(2,3) unfolding step(3) by auto
  ultimately have "\<exists>st gone'. undrop_all (map Some rs) (?ef, counters[?b := counters ! ?b + (length xs + 1)]) = Inr st \<and> undo_inv ef0 st gone' ((again @ [r]) @ rs)"
    using Cons.prems(2,4) by (intro Cons.IH [OF step(1)]) auto
  then show ?case unfolding run by simp
qed auto

text \<open>
  Rolling back the last block: its transactions lose their mark, the others stay and the dropped ones
  come back.
\<close>

lemma rollback_spec:
  assumes ok: "bins_ok ef" and D: "fe_dropped ef \<noteq> []" "rb_transactions (last (fe_dropped ef)) = map Some rs" and h: "h = fe_lastKnownHeight ef"
    and rs: "distinct rs" "set rs \<inter> set (concat (fe_bin ef)) = {}"
      "\<And>r. r \<in> set rs \<Longrightarrow> r < length (fe_heap ef) \<and> mined (fe_heap ef) r \<noteq> h \<and> waited (fe_heap ef) r < estimateFeeDepth"
      "\<And>c. c < estimateFeeDepth \<Longrightarrow> class_count (fe_heap ef) c rs \<le> mined_in (fe_heap ef) h c (concat (fe_bin ef))"
  obtains ef' where "rollback ef = Inr ef'" and "fe_heap ef' = mark UnminedHeight {r \<in> set (concat (fe_bin ef)). mined (fe_heap ef) r = h} (fe_heap ef)"
    and "mset (concat (fe_bin ef')) = filter_mset (\<lambda>r. mined (fe_heap ef) r \<noteq> h) (mset (concat (fe_bin ef))) + mset rs"
    and "sorted_in (fe_heap ef) (fe_bin ef')"
    and "frame ef' = (frame ef)\<lparr>fe_cached := None, fe_dropped := butlast (fe_dropped ef),
      fe_numBlocksRegistered := fe_numBlocksRegistered ef - 1, fe_lastKnownHeight := h - 1\<rparr>"
proof -
  let ?ef = "ef\<lparr>fe_cached := None\<rparr>"
  have "undo_inv ?ef (?ef, replicate estimateFeeDepth 0) [] []" using ok by (simp add: undo_inv_def bins_ok_def)
  then have "\<exists>st gone. undrop_all (map Some rs) (?ef, replicate estimateFeeDepth 0) = Inr st \<and> undo_inv ?ef st gone ([] @ rs)"
    using rs h by (intro undrop_all_inv [of h]) auto
  then obtain e counters gone where run: "undrop_all (map Some rs) (?ef, replicate estimateFeeDepth 0) = Inr (e, counters)"
    and inv: "undo_inv ?ef (e, counters) gone rs" by auto
  have heap: "fe_heap e = mark UnminedHeight (set gone) (fe_heap ef)" and s: "sorted_in (fe_heap ef) (fe_bin e)" and dis: "distinct (concat (fe_bin e))"
    and dj: "set (concat (fe_bin e)) \<inter> set gone = {}" and ms: "mset (concat (fe_bin e)) + mset gone = mset (concat (fe_bin ef)) + mset rs"
    and fr: "frame e = frame ?ef" and gone: "\<forall>r\<in>set gone. mined (fe_heap ef) r = h" and len: "length counters = estimateFeeDepth"
    and before: "\<forall>b<estimateFeeDepth. \<forall>x\<in>set (take (counters ! b) (fe_bin e ! b)). mined (fe_heap ef) x \<noteq> h"
    using inv unfolding undo_inv_def prod.case by (simp_all add: h)
  have cur: "x < length (fe_heap e) \<and> mined (fe_heap e) x = mined (fe_heap ef) x" if "x \<in> set (concat (fe_bin e))" for x
    using that dj sorted_in_less [OF s that] unfolding heap by (auto simp: mined_mark)
  have lenb: "length (fe_bin e) = estimateFeeDepth" using s by (simp add: sorted_in_def)
  let ?P = "\<lambda>r. mined (fe_heap ef) r \<noteq> h"
  have "clear_bins h counters (fe_heap e) (fe_bin e)
    = (mark UnminedHeight {r \<in> set (concat (fe_bin e)). mined (fe_heap e) r = h} (fe_heap e), map (filter (\<lambda>r. mined (fe_heap e) r \<noteq> h)) (fe_bin e))"
  proof (rule clear_bins_eq)
    fix b x assume b: "b < length (fe_bin e)" "x \<in> set (take (counters ! b) (fe_bin e ! b))"
    then have "x \<in> set (concat (fe_bin e))" by (intro in_bin [of b]) (auto dest: in_set_takeD)
    then show "mined (fe_heap e) x \<noteq> h" using cur before b lenb by simp
  qed (use len lenb dis cur in auto)
  moreover have "map (filter (\<lambda>r. mined (fe_heap e) r \<noteq> h)) (fe_bin e) = map (filter ?P) (fe_bin e)"
    by (rule filter_bins_cong) (simp only: cur)
  moreover have "{r \<in> set (concat (fe_bin e)). mined (fe_heap e) r = h} \<union> set gone = {r \<in> set (concat (fe_bin ef)). mined (fe_heap ef) r = h}"
  proof -
    have "set_mset (mset (concat (fe_bin e)) + mset gone) = set_mset (mset (concat (fe_bin ef)) + mset rs)" using ms by (rule arg_cong)
    then have "set (concat (fe_bin e)) \<union> set gone = set (concat (fe_bin ef)) \<union> set rs" by simp
    then show ?thesis using gone cur rs(3) by (intro set_eqI) (smt (verit) Un_iff mem_Collect_eq)
  qed
  ultimately have clear: "clear_bins h counters (fe_heap e) (fe_bin e)
    = (mark UnminedHeight {r \<in> set (concat (fe_bin ef)). mined (fe_heap ef) r = h} (fe_heap ef), map (filter ?P) (fe_bin e))"
    unfolding heap by simp
  have "filter_mset ?P (mset (concat (fe_bin e)) + mset gone) = filter_mset ?P (mset (concat (fe_bin ef)) + mset rs)" using ms by (rule arg_cong)
  moreover have "filter_mset ?P (mset gone) = {#}" "filter_mset ?P (mset rs) = mset rs"
    using gone rs(3) by (auto simp: filter_mset_eq_conv)
  ultimately have bins: "mset (concat (map (filter ?P) (fe_bin e))) = filter_mset ?P (mset (concat (fe_bin ef))) + mset rs"
    by (simp add: filter_concat [symmetric])
  have "sorted_in (fe_heap ef) (map (filter ?P) (fe_bin e))" using s by (simp add: sorted_in_def)
  moreover have "rollback ef = Inr (e\<lparr>fe_heap := fst (clear_bins h counters (fe_heap e) (fe_bin e)), fe_bin := snd (clear_bins h counters (fe_heap e) (fe_bin e)),
      fe_dropped := butlast (fe_dropped e), fe_numBlocksRegistered := fe_numBlocksRegistered e - 1, fe_lastKnownHeight := fe_lastKnownHeight e - 1\<rparr>)"
    using D run h frame_fields [OF fr] by (simp add: rollback_def Let_def andThen_def split_beta)
  moreover have "frame (e\<lparr>fe_heap := x, fe_bin := y, fe_dropped := butlast (fe_dropped e), fe_numBlocksRegistered := fe_numBlocksRegistered e - 1,
      fe_lastKnownHeight := fe_lastKnownHeight e - 1\<rparr>) = (frame ef)\<lparr>fe_cached := None, fe_dropped := butlast (fe_dropped ef),
      fe_numBlocksRegistered := fe_numBlocksRegistered ef - 1, fe_lastKnownHeight := h - 1\<rparr>" for x y
    using fr frame_fields [OF fr] h by (cases e, cases ef) (simp add: frame_def)
  ultimately show thesis using that clear bins by simp
qed

end
