(* ===== verification/Fee_History.thy ===== *)
theory Fee_History
  imports Fee_Rollback
begin

text \<open>
  The fee estimator over its whole life: the states reached from \<open>NewFeeEstimator\<close> by observing
  transactions, registering blocks, rolling back and asking for estimates. In every such state a rollback
  of any remembered block succeeds, and undoing the last block gives back the bins, the store and the estimates
  there were before it. More blocks give a lower estimate.
\<close>

section \<open>The stack of dropped transactions\<close>

definition refs_of :: "registeredBlock \<Rightarrow> ref list" where
  "refs_of b = map the (rb_transactions b)"

definition drops :: "registeredBlock list \<Rightarrow> ref list" where
  "drops bs = concat (map refs_of bs)"

lemma drops_simps [simp]: "drops [] = []" "drops (b # bs) = refs_of b @ drops bs" "drops (bs @ cs) = drops bs @ drops cs"
  by (simp_all add: drops_def)

text \<open>
  The blocks from the top of the stack on, the first one of height \<open>H\<close>; \<open>U\<close> are the transactions that are in
  the bins when that block is the last one. The block can be undone: for every transaction it dropped from a bin
  there is one of its own in that bin.
\<close>

fun stack_ok :: "observedTransaction list \<Rightarrow> ref multiset \<Rightarrow> nat \<Rightarrow> registeredBlock list \<Rightarrow> bool" where
  "stack_ok heap U H [] \<longleftrightarrow> True"
| "stack_ok heap U H (b # bs) \<longleftrightarrow> 1 \<le> H \<and> None \<notin> set (rb_transactions b)
     \<and> (\<forall>r\<in>set (refs_of b). unat (mined heap r) < H \<and> waited heap r < estimateFeeDepth)
     \<and> (\<forall>c<estimateFeeDepth. class_count heap c (refs_of b) \<le> size (filter_mset (\<lambda>r. unat (mined heap r) = H \<and> waited heap r = c) U))
     \<and> stack_ok heap (U + mset (refs_of b)) (H - 1) bs"

lemma stack_ok_later: "(\<And>r. r \<in># V \<Longrightarrow> H < unat (mined heap r)) \<Longrightarrow> stack_ok heap (U + V) H bs \<longleftrightarrow> stack_ok heap U H bs"
proof (induction bs arbitrary: U H)
  case (Cons b bs)
  have "filter_mset (\<lambda>r. unat (mined heap r) = H \<and> waited heap r = c) V = {#}" for c
    using Cons.prems by (fastforce simp: filter_mset_eq_conv)
  then have none: "size (filter_mset (\<lambda>r. unat (mined heap r) = H \<and> waited heap r = c) (U + V))
    = size (filter_mset (\<lambda>r. unat (mined heap r) = H \<and> waited heap r = c) U)" for c by simp
  have rec: "stack_ok heap (U + mset (refs_of b) + V) (H - 1) bs = stack_ok heap (U + mset (refs_of b)) (H - 1) bs"
    by (rule Cons.IH) (use Cons.prems in fastforce)
  have comm: "U + V + mset (refs_of b) = U + mset (refs_of b) + V" by (simp add: ac_simps)
  show ?case unfolding stack_ok.simps none comm rec ..
qed simp

definition same_marks :: "observedTransaction list \<Rightarrow> observedTransaction list \<Rightarrow> ref set \<Rightarrow> bool" where
  "same_marks heap heap' A \<longleftrightarrow> (\<forall>r\<in>A. mined heap' r = mined heap r \<and> waited heap' r = waited heap r)"

lemma same_marks_mark: "(\<And>r. r \<in> B \<Longrightarrow> r < length heap) \<Longrightarrow> (\<And>r. r \<in> B \<Longrightarrow> r \<notin> A) \<Longrightarrow> same_marks heap (mark h A heap) B"
  by (auto simp: same_marks_def mined_mark waited_mark)

lemma sorted_in_marks:
  assumes "sorted_in heap bins" and "same_marks heap heap' (set (concat bins))" and "length heap' = length heap"
  shows "sorted_in heap' bins"
proof -
  have "r < length heap' \<and> waited heap' r = b" if "b < estimateFeeDepth" "r \<in> set (bins ! b)" for b r
  proof -
    have "r \<in> set (concat bins)" using in_bin that assms(1) by (metis sorted_in_def)
    then have "waited heap' r = waited heap r" using assms(2) unfolding same_marks_def by blast
    then show ?thesis using that assms(1,3) by (simp add: sorted_in_def)
  qed
  then show ?thesis using assms(1) by (simp add: sorted_in_def)
qed

lemma stack_ok_heap: "same_marks heap heap' (set_mset U \<union> set (drops bs)) \<Longrightarrow> stack_ok heap U H bs \<Longrightarrow> stack_ok heap' U H bs"
proof (induction bs arbitrary: U H)
  case (Cons b bs)
  have "filter_mset (\<lambda>r. unat (mined heap' r) = H \<and> waited heap' r = c) U = filter_mset (\<lambda>r. unat (mined heap r) = H \<and> waited heap r = c) U" for c
    using Cons.prems(1) by (intro filter_mset_cong) (auto simp: same_marks_def)
  moreover have "class_count heap' c (refs_of b) = class_count heap c (refs_of b)" for c
    using Cons.prems(1) by (intro class_count_cong) (auto simp: same_marks_def)
  moreover have "stack_ok heap' (U + mset (refs_of b)) (H - 1) bs"
    using Cons.prems by (intro Cons.IH) (auto simp: same_marks_def)
  ultimately show ?case using Cons.prems by (auto simp: same_marks_def)
qed simp

lemma stack_ok_prefix: "stack_ok heap U H (bs @ cs) \<Longrightarrow> stack_ok heap U H bs"
  by (induction bs arbitrary: U H) auto

section \<open>The invariant\<close>

definition live :: "FeeEstimator \<Rightarrow> ref list" where
  "live ef = concat (fe_bin ef) @ drops (fe_dropped ef)"

definition fe_inv :: "FeeEstimator \<Rightarrow> bool" where
  "fe_inv ef \<longleftrightarrow> bins_ok ef \<and> distinct (live ef) \<and> (\<forall>r\<in>set (live ef). tracked ef r \<and> mined (fe_heap ef) r \<noteq> UnminedHeight)
     \<and> (fe_maxRollback ef = 0 \<longrightarrow> fe_dropped ef = [])
     \<and> (if fe_lastKnownHeight ef = UnminedHeight then concat (fe_bin ef) = [] \<and> fe_dropped ef = []
        else fe_lastKnownHeight ef < UnminedHeight \<and> (\<forall>r\<in>set (concat (fe_bin ef)). mined (fe_heap ef) r \<le> fe_lastKnownHeight ef)
          \<and> stack_ok (fe_heap ef) (mset (concat (fe_bin ef))) (unat (fe_lastKnownHeight ef)) (rev (fe_dropped ef)))"

lemma fe_inv_New: "fe_inv (NewFeeEstimator a b)"
  by (simp add: fe_inv_def live_def bins_ok_def config_ok_def sorted_in_def NewFeeEstimator_def estimateFeeBinSize_def estimateFeeMaxReplacements_def)

lemma fe_inv_bins: "fe_inv ef \<Longrightarrow> bins_ok ef"
  by (simp add: fe_inv_def)

text \<open>A new object at the end of the store does not disturb the others.\<close>

lemma tracked_alloc:
  assumes "tracked ef r" and "fmlookup (fe_observed ef) h = None"
  shows "tracked (ef\<lparr>fe_heap := fe_heap ef @ [x], fe_observed := fmupd h n (fe_observed ef)\<rparr>) r"
  using assms by (auto simp: tracked_def nth_append)

lemma fe_inv_alloc:
  assumes inv: "fe_inv ef" and h: "fmlookup (fe_observed ef) h = None" and "ot_hash x = h" and last: "fe_lastKnownHeight ef \<noteq> UnminedHeight"
  shows "fe_inv (ef\<lparr>fe_heap := fe_heap ef @ [x], fe_observed := fmupd h (length (fe_heap ef)) (fe_observed ef)\<rparr>)"
proof -
  let ?e = "ef\<lparr>fe_heap := fe_heap ef @ [x], fe_observed := fmupd h (length (fe_heap ef)) (fe_observed ef)\<rparr>"
  have old: "mined (fe_heap ?e) r = mined (fe_heap ef) r \<and> waited (fe_heap ?e) r = waited (fe_heap ef) r" if "r < length (fe_heap ef)" for r
    using that by (simp add: mined_def waited_def nth_append)
  have live: "live ?e = live ef" by (simp add: live_def)
  have tr: "tracked ?e r \<and> mined (fe_heap ?e) r \<noteq> UnminedHeight" if "r \<in> set (live ef)" for r
  proof -
    have t: "tracked ef r" "mined (fe_heap ef) r \<noteq> UnminedHeight" using that inv unfolding fe_inv_def by blast+
    then have "r < length (fe_heap ef)" by (simp add: tracked_def)
    then show ?thesis using tracked_alloc [OF t(1) h] old t(2) by simp
  qed
  have len: "r < length (fe_heap ef)" if "r \<in> set (live ef)" for r using that inv by (simp add: fe_inv_def tracked_def)
  have "sorted_in (fe_heap ?e) (fe_bin ef)"
    using fe_inv_bins [OF inv] old by (auto simp: bins_ok_def sorted_in_def less_SucI)
  moreover have "\<forall>h' r. fmlookup (fe_observed ?e) h' = Some r \<longrightarrow> r < length (fe_heap ?e) \<and> ot_hash (fe_heap ?e ! r) = h'"
    using fe_inv_bins [OF inv] assms(3) by (auto simp: bins_ok_def nth_append less_SucI)
  ultimately have "bins_ok ?e" using fe_inv_bins [OF inv] tr by (simp add: bins_ok_def config_ok_def live_def del: set_concat)
  moreover have "stack_ok (fe_heap ?e) (mset (concat (fe_bin ef))) (unat (fe_lastKnownHeight ef)) (rev (fe_dropped ef))"
    by (rule stack_ok_heap [of "fe_heap ef"]) (use inv last old len in \<open>auto simp: fe_inv_def same_marks_def live_def drops_def\<close>)
  ultimately show ?thesis using inv last tr old len by (auto simp: fe_inv_def live_def)
qed

lemma fe_inv_Observe:
  assumes "fe_inv ef" and "ObserveTransaction E overflow t ef = Inr ef'"
  shows "fe_inv ef'"
  using assms by (auto simp: ObserveTransaction_def andThen_Inr_iff split: if_splits intro: fe_inv_alloc)

lemma fe_inv_Estimate: "fe_inv ef \<Longrightarrow> fe_inv (fst (EstimateFee overflow n ef))"
  by (auto simp: EstimateFee_def Let_def fe_inv_def live_def bins_ok_def config_ok_def tracked_def)

section \<open>Registering a block\<close>

text \<open>The estimator when the loop over the transactions starts.\<close>

definition begin_block :: "uint64 \<Rightarrow> FeeEstimator \<Rightarrow> FeeEstimator" where
  "begin_block h ef = ef\<lparr>fe_cached := None, fe_lastKnownHeight := h, fe_numBlocksRegistered := fe_numBlocksRegistered ef + 1\<rparr>"

lemma begin_block_simps [simp]: "fe_heap (begin_block h ef) = fe_heap ef" "fe_bin (begin_block h ef) = fe_bin ef"
  "fe_observed (begin_block h ef) = fe_observed ef" "fe_dropped (begin_block h ef) = fe_dropped ef" "fe_maxRollback (begin_block h ef) = fe_maxRollback ef"
  "fe_lastKnownHeight (begin_block h ef) = h" "fe_numBlocksRegistered (begin_block h ef) = fe_numBlocksRegistered ef + 1"
  "bins_ok (begin_block h ef) = bins_ok ef" "tracked (begin_block h ef) = tracked ef" "fe_cached (begin_block h ef) = None"
  "fe_minRegisteredBlocks (begin_block h ef) = fe_minRegisteredBlocks ef" "fe_binSize (begin_block h ef) = fe_binSize ef"
  "fe_maxReplacements (begin_block h ef) = fe_maxReplacements ef"
  by (simp_all add: begin_block_def bins_ok_def config_ok_def tracked_def fun_eq_iff)

text \<open>What a block that is registered without error does: \<open>added\<close> are its transactions that were put into bins, \<open>out\<close> those they replaced.\<close>

definition registered :: "hash \<Rightarrow> uint64 \<Rightarrow> FeeEstimator \<Rightarrow> FeeEstimator \<Rightarrow> ref list \<Rightarrow> ref list \<Rightarrow> bool" where
  "registered bh h ef ef' added out \<longleftrightarrow>
     fe_heap ef' = mark h (set added) (fe_heap ef) \<and> sorted_in (fe_heap ef') (fe_bin ef')
     \<and> mset (concat (fe_bin ef')) + mset out = mset (concat (fe_bin ef)) + mset added
     \<and> set out \<subseteq> set (concat (fe_bin ef)) \<and> distinct added \<and> (\<forall>r\<in>set added. tracked ef r \<and> mined (fe_heap ef) r = UnminedHeight)
     \<and> (\<forall>c<estimateFeeDepth. int (length (fe_bin ef' ! c)) \<le> sint (fe_binSize ef) \<and> class_count (fe_heap ef') c out \<le> class_count (fe_heap ef') c added)
     \<and> frame ef' = frame (push_dropped \<lparr>rb_hash = bh, rb_transactions = map Some out\<rparr> (forget_old h (begin_block h ef\<lparr>fe_heap := fe_heap ef'\<rparr>)))"

lemma push_dropped_fields [simp]: "fe_heap (push_dropped b ef) = fe_heap ef" "fe_bin (push_dropped b ef) = fe_bin ef"
  "fe_observed (push_dropped b ef) = fe_observed ef" "fe_lastKnownHeight (push_dropped b ef) = fe_lastKnownHeight ef"
  "fe_binSize (push_dropped b ef) = fe_binSize ef" "fe_maxReplacements (push_dropped b ef) = fe_maxReplacements ef"
  "fe_maxRollback (push_dropped b ef) = fe_maxRollback ef" "fe_numBlocksRegistered (push_dropped b ef) = fe_numBlocksRegistered ef"
  "fe_cached (push_dropped b ef) = fe_cached ef" "fe_minRegisteredBlocks (push_dropped b ef) = fe_minRegisteredBlocks ef"
  by (simp_all add: push_dropped_def)

lemma forget_old_fields [simp]: "fe_heap (forget_old h ef) = fe_heap ef" "fe_bin (forget_old h ef) = fe_bin ef"
  "fe_dropped (forget_old h ef) = fe_dropped ef" "fe_lastKnownHeight (forget_old h ef) = fe_lastKnownHeight ef"
  "fe_binSize (forget_old h ef) = fe_binSize ef" "fe_maxReplacements (forget_old h ef) = fe_maxReplacements ef"
  "fe_maxRollback (forget_old h ef) = fe_maxRollback ef" "fe_numBlocksRegistered (forget_old h ef) = fe_numBlocksRegistered ef"
  "fe_cached (forget_old h ef) = fe_cached ef" "fe_minRegisteredBlocks (forget_old h ef) = fe_minRegisteredBlocks ef"
  by (simp_all add: forget_old_def)

lemma frame_push: "frame ef = frame ef' \<Longrightarrow> frame (push_dropped b ef) = frame (push_dropped b ef')"
  by (cases ef, cases ef') (auto simp: frame_def push_dropped_def)

lemma frame_forget: "frame ef = frame ef' \<Longrightarrow> fe_heap ef = fe_heap ef' \<Longrightarrow> frame (forget_old h ef) = frame (forget_old h ef')"
proof -
  assume fr: "frame ef = frame ef'" and heap: "fe_heap ef = fe_heap ef'"
  have "frame (e\<lparr>fe_observed := x\<rparr>) = (frame e)\<lparr>fe_observed := x\<rparr>" for e x by (simp add: frame_def)
  moreover have obs: "fe_observed ef = fe_observed ef'" using frame_fields [OF fr] by simp
  ultimately show ?thesis unfolding forget_old_def heap obs using fr by simp
qed

lemma RegisterBlock_registered:
  assumes "bins_ok ef" and "h \<noteq> UnminedHeight" and "in_range rand"
  shows "\<exists>ef' err. RegisterBlock_hashes rand bh h (map Inr hs) ef = Inr (ef', err) \<and> (\<not> err \<longrightarrow> (\<exists>added out. registered bh h ef ef' added out))"
proof (cases "h \<noteq> fe_lastKnownHeight ef + 1 \<and> fe_lastKnownHeight ef \<noteq> UnminedHeight")
  case True
  then show ?thesis by (intro exI [of _ "ef\<lparr>fe_cached := None\<rparr>"] exI [of _ True]) (simp add: RegisterBlock_hashes_def Let_def)
next
  case False
  let ?e = "begin_block h ef"
  have ok: "bins_ok ?e" using assms(1) by simp
  obtain e r where run: "register_txs rand h (map Inr hs) (?e, replicate estimateFeeDepth 0, []) = Inr (e, r)"
    and inv: "\<And>st'. r = Some st' \<Longrightarrow> \<exists>added. reg_inv h ?e (e, st') added"
    using register_txs_inv [OF ok assms(2,3) reg_inv_start [OF ok, of h], of hs] by blast
  have reg: "RegisterBlock_hashes rand bh h (map Inr hs) ef = (case r of None \<Rightarrow> Inr (e, True)
      | Some (_, out) \<Rightarrow> Inr (push_dropped \<lparr>rb_hash = bh, rb_transactions = map Some out\<rparr> (forget_old h e), False))"
    using False run by (auto simp: RegisterBlock_hashes_def Let_def begin_block_def andThen_def)
  show ?thesis
  proof (cases r)
    case None
    then show ?thesis using reg by (intro exI [of _ e] exI [of _ True]) simp
  next
    case (Some st)
    obtain counts out where st: "st = (counts, out)" by (cases st)
    obtain added where i: "reg_inv h ?e (e, counts, out) added" using inv [OF Some] unfolding st by blast
    have fr: "frame e = frame ?e" using i by (simp add: reg_inv_def)
    have "frame (push_dropped b (forget_old h e)) = frame (push_dropped b (forget_old h (?e\<lparr>fe_heap := fe_heap e\<rparr>)))" for b
      by (intro frame_push frame_forget) (use fr in \<open>simp_all add: frame_def\<close>)
    then have "registered bh h ef (push_dropped \<lparr>rb_hash = bh, rb_transactions = map Some out\<rparr> (forget_old h e)) added out"
      using i by (auto simp: reg_inv_def registered_def)
    then show ?thesis using reg Some st by auto
  qed
qed

lemma registered_facts:
  assumes inv: "fe_inv ef" and reg: "registered bh h ef ef' added out" and h: "h \<noteq> UnminedHeight"
  shows "set (live ef) \<inter> set added = {}" and "same_marks (fe_heap ef) (fe_heap ef') (set (live ef))"
    and "r \<in> set added \<Longrightarrow> mined (fe_heap ef') r = h"
    and "mset (concat (fe_bin ef') @ out) = mset (concat (fe_bin ef) @ added)"
    and "r \<in> set (live ef) \<union> set added \<Longrightarrow> tracked ef' r \<and> mined (fe_heap ef') r \<noteq> UnminedHeight"
    and "fe_lastKnownHeight ef' = h" and "mset added \<subseteq># mset (concat (fe_bin ef'))"
proof -
  have heap: "fe_heap ef' = mark h (set added) (fe_heap ef)" and tr: "\<forall>r\<in>set added. tracked ef r \<and> mined (fe_heap ef) r = UnminedHeight"
    and ms: "mset (concat (fe_bin ef')) + mset out = mset (concat (fe_bin ef)) + mset added" and out: "set out \<subseteq> set (concat (fe_bin ef))"
    and fr: "frame ef' = frame (push_dropped \<lparr>rb_hash = bh, rb_transactions = map Some out\<rparr> (forget_old h (begin_block h ef\<lparr>fe_heap := fe_heap ef'\<rparr>)))"
    using reg unfolding registered_def by blast+
  have lv: "\<forall>r\<in>set (live ef). tracked ef r \<and> mined (fe_heap ef) r \<noteq> UnminedHeight" using inv by (simp add: fe_inv_def)
  show dis: "set (live ef) \<inter> set added = {}" using lv tr by blast
  show sm: "same_marks (fe_heap ef) (fe_heap ef') (set (live ef))"
    using lv dis unfolding heap by (auto simp: same_marks_def mined_mark waited_mark tracked_def)
  show E: "mined (fe_heap ef') r = h" if "r \<in> set added" for r
    using that tr unfolding heap by (simp add: mined_mark tracked_def)
  show "mset (concat (fe_bin ef') @ out) = mset (concat (fe_bin ef) @ added)" using ms by simp
  have fields: "fe_lastKnownHeight ef' = h" "fe_observed ef' = fe_observed (forget_old h (begin_block h ef\<lparr>fe_heap := fe_heap ef'\<rparr>))"
    using frame_fields [OF fr] by simp_all
  show "fe_lastKnownHeight ef' = h" by (rule fields(1))
  show "tracked ef' r \<and> mined (fe_heap ef') r \<noteq> UnminedHeight" if "r \<in> set (live ef) \<union> set added"
  proof -
    have t: "tracked ef r" using that lv tr by blast
    have m: "mined (fe_heap ef') r \<noteq> UnminedHeight" using that E h lv sm by (auto simp: same_marks_def)
    have "ot_hash (fe_heap ef' ! r) = ot_hash (fe_heap ef ! r)" using t unfolding heap by (simp add: tracked_def)
    then have "tracked ef' r" using t m fields(2) by (simp add: tracked_def forget_old_def heap mined_def)
    then show ?thesis using m by blast
  qed
  have "set out \<inter> set added = {}" using out dis by (auto simp: live_def)
  show "mset added \<subseteq># mset (concat (fe_bin ef'))"
  proof (rule mset_subset_eqI)
    fix x
    have "count (mset (concat (fe_bin ef'))) x + count (mset out) x = count (mset (concat (fe_bin ef))) x + count (mset added) x"
      using arg_cong [OF ms, of "\<lambda>m. count m x"] by simp
    moreover have "x \<in> set added \<Longrightarrow> count (mset out) x = 0" using \<open>set out \<inter> set added = {}\<close> by (auto simp: count_eq_zero_iff)
    moreover have "x \<notin> set added \<Longrightarrow> count (mset added) x = 0" by (simp add: count_eq_zero_iff)
    ultimately show "count (mset added) x \<le> count (mset (concat (fe_bin ef'))) x" by linarith
  qed
qed

lemma registered_bins:
  assumes inv: "fe_inv ef" and reg: "registered bh h ef ef' added out" and h: "h \<noteq> UnminedHeight"
  shows "bins_ok ef'" and "set (concat (fe_bin ef')) \<subseteq> set (live ef) \<union> set added" and "distinct (concat (fe_bin ef') @ out)"
proof -
  note facts = registered_facts [OF inv reg h]
  have fr: "frame ef' = frame (push_dropped \<lparr>rb_hash = bh, rb_transactions = map Some out\<rparr> (forget_old h (begin_block h ef\<lparr>fe_heap := fe_heap ef'\<rparr>)))"
    and heap: "fe_heap ef' = mark h (set added) (fe_heap ef)" and "distinct added" and s: "sorted_in (fe_heap ef') (fe_bin ef')"
    and size: "\<forall>c<estimateFeeDepth. int (length (fe_bin ef' ! c)) \<le> sint (fe_binSize ef)"
    using reg unfolding registered_def by blast+
  have "distinct (concat (fe_bin ef) @ added)" using inv facts(1) \<open>distinct added\<close> by (auto simp: fe_inv_def live_def)
  then show dis: "distinct (concat (fe_bin ef') @ out)" using facts(4) mset_eq_imp_distinct_iff by blast
  show sub: "set (concat (fe_bin ef')) \<subseteq> set (live ef) \<union> set added" using mset_eq_setD [OF facts(4)] by (auto simp: live_def)
  have cfg: "fe_binSize ef' = fe_binSize ef" "fe_maxReplacements ef' = fe_maxReplacements ef"
    "fe_observed ef' = fe_observed (forget_old h (begin_block h ef\<lparr>fe_heap := fe_heap ef'\<rparr>))"
    using frame_fields [OF fr] by simp_all
  have "fmlookup (fe_observed ef') x = Some r \<Longrightarrow> r < length (fe_heap ef') \<and> ot_hash (fe_heap ef' ! r) = x" for x r
    using fe_inv_bins [OF inv] unfolding cfg(3) by (auto simp: forget_old_def bins_ok_def heap split: if_splits)
  then show "bins_ok ef'" using fe_inv_bins [OF inv] s dis facts(5) sub size cfg(1,2)
    unfolding bins_ok_def config_ok_def by (metis Un_iff distinct_append subsetD)
qed

text \<open>The stack after the block has been pushed: the older blocks are those there were, without the oldest one when it was full.\<close>

lemma registered_stack:
  assumes "registered bh h ef ef' added out" and "fe_maxRollback ef \<noteq> 0"
  obtains D0 where "fe_dropped ef' = D0 @ [\<lparr>rb_hash = bh, rb_transactions = map Some out\<rparr>]" and "D0 = fe_dropped ef \<or> D0 = tl (fe_dropped ef)"
proof -
  let ?b = "\<lparr>rb_hash = bh, rb_transactions = map Some out\<rparr>"
  have "frame ef' = frame (push_dropped ?b (forget_old h (begin_block h ef\<lparr>fe_heap := fe_heap ef'\<rparr>)))"
    using assms(1) unfolding registered_def by blast
  from frame_fields [OF this] have "fe_dropped ef' = fe_dropped (push_dropped ?b (forget_old h (begin_block h ef\<lparr>fe_heap := fe_heap ef'\<rparr>)))" by simp
  then have "fe_dropped ef' = fe_dropped ef @ [?b] \<or> fe_dropped ef' = tl (fe_dropped ef) @ [?b]" using assms(2) by (simp add: push_dropped_def)
  then show thesis using that by blast
qed

lemma refs_of_pushed [simp]: "refs_of \<lparr>rb_hash = bh, rb_transactions = map Some out\<rparr> = out"
  by (simp add: refs_of_def comp_def)

lemma height_before:
  assumes "fe_inv ef" and "1 \<le> h" and "h = fe_lastKnownHeight ef + 1 \<or> fe_lastKnownHeight ef = UnminedHeight"
  shows "r \<in> set (concat (fe_bin ef)) \<Longrightarrow> unat (mined (fe_heap ef) r) < unat h"
    and "stack_ok (fe_heap ef) (mset (concat (fe_bin ef))) (unat h - 1) (rev (fe_dropped ef))"
proof -
  have "h \<noteq> 0" using assms(2) by auto
  then have "unat (h - 1) = unat h - 1" "unat h > 0" by (simp_all add: unat_minus_one unat_gt_0)
  then have eq: "unat (fe_lastKnownHeight ef) = unat h - 1" "unat h > 0" if "fe_lastKnownHeight ef \<noteq> UnminedHeight" using assms(3) that by auto
  show "stack_ok (fe_heap ef) (mset (concat (fe_bin ef))) (unat h - 1) (rev (fe_dropped ef))"
    using assms(1) eq by (cases "fe_lastKnownHeight ef = UnminedHeight") (simp_all add: fe_inv_def)
  assume r: "r \<in> set (concat (fe_bin ef))"
  then have last: "fe_lastKnownHeight ef \<noteq> UnminedHeight"
    using assms(1) by (auto simp: fe_inv_def simp del: set_concat concat_eq_Nil_conv)
  then have "mined (fe_heap ef) r \<le> fe_lastKnownHeight ef" using assms(1) r unfolding fe_inv_def by meson
  then show "unat (mined (fe_heap ef) r) < unat h" using eq [OF last] by (simp add: word_le_nat_alt)
qed

lemma pushed_stack_ok:
  assumes inv: "fe_inv ef" and reg: "registered bh h ef ef' added out" and h: "1 \<le> h" "h \<noteq> UnminedHeight"
    and new: "h = fe_lastKnownHeight ef + 1 \<or> fe_lastKnownHeight ef = UnminedHeight" and D0: "D0 = fe_dropped ef \<or> D0 = tl (fe_dropped ef)"
  shows "stack_ok (fe_heap ef') (mset (concat (fe_bin ef'))) (unat h) (\<lparr>rb_hash = bh, rb_transactions = map Some out\<rparr> # rev D0)"
proof -
  let ?H = "fe_heap ef'"
  note facts = registered_facts [OF inv reg h(2)] and before = height_before [OF inv h(1) new]
  have out: "set out \<subseteq> set (concat (fe_bin ef))" and ms: "mset (concat (fe_bin ef')) + mset out = mset (concat (fe_bin ef)) + mset added"
    and cc: "\<forall>c<estimateFeeDepth. class_count ?H c out \<le> class_count ?H c added"
    using reg unfolding registered_def by blast+
  have "unat h > 0" using h(1) by (simp add: word_le_nat_alt)
  have "unat (mined ?H r) < unat h \<and> waited ?H r < estimateFeeDepth" if "r \<in> set out" for r
  proof -
    have b: "r \<in> set (concat (fe_bin ef))" using that out by blast
    then have "mined ?H r = mined (fe_heap ef) r" "waited ?H r = waited (fe_heap ef) r" using facts(2) by (auto simp: same_marks_def live_def)
    moreover have "waited (fe_heap ef) r < estimateFeeDepth" using b fe_inv_bins [OF inv] unfolding bins_ok_def sorted_in_def set_concat_nth by metis
    ultimately show ?thesis using before(1) [OF b] by simp
  qed
  moreover have "class_count ?H c added \<le> size (filter_mset (\<lambda>r. unat (mined ?H r) = unat h \<and> waited ?H r = c) (mset (concat (fe_bin ef'))))" for c
  proof -
    have "filter (\<lambda>r. waited ?H r = c) added = filter (\<lambda>r. unat (mined ?H r) = unat h \<and> waited ?H r = c) added"
      using facts(3) by (intro filter_cong) auto
    then have "class_count ?H c added = size (filter_mset (\<lambda>r. unat (mined ?H r) = unat h \<and> waited ?H r = c) (mset added))"
      by (simp add: class_count_def flip: mset_filter)
    also have "\<dots> \<le> size (filter_mset (\<lambda>r. unat (mined ?H r) = unat h \<and> waited ?H r = c) (mset (concat (fe_bin ef'))))"
      by (intro size_mset_mono multiset_filter_mono facts(7))
    finally show ?thesis .
  qed
  moreover have "stack_ok ?H (mset (concat (fe_bin ef')) + mset out) (unat h - 1) (rev D0)" unfolding ms
  proof (subst stack_ok_later)
    show "unat h - 1 < unat (mined ?H r)" if "r \<in># mset added" for r using facts(3) that \<open>unat h > 0\<close> by simp
    have "rev (fe_dropped ef) = rev D0 \<or> rev (fe_dropped ef) = rev D0 @ [hd (fe_dropped ef)]" using D0 by (cases "fe_dropped ef") auto
    then have "stack_ok (fe_heap ef) (mset (concat (fe_bin ef))) (unat h - 1) (rev D0)" using before(2) stack_ok_prefix by metis
    moreover have "set (drops (rev D0)) \<subseteq> set (drops (fe_dropped ef))" using D0 by (cases "fe_dropped ef") (auto simp: drops_def)
    then have "set_mset (mset (concat (fe_bin ef))) \<union> set (drops (rev D0)) \<subseteq> set (live ef)" by (auto simp: live_def)
    then have "same_marks (fe_heap ef) ?H (set_mset (mset (concat (fe_bin ef))) \<union> set (drops (rev D0)))"
      using facts(2) unfolding same_marks_def by blast
    ultimately show "stack_ok ?H (mset (concat (fe_bin ef))) (unat h - 1) (rev D0)" by (rule stack_ok_heap [rotated])
  qed
  ultimately show ?thesis using cc \<open>unat h > 0\<close> by (auto intro: order_trans)
qed

lemma fe_inv_registered:
  assumes inv: "fe_inv ef" and reg: "registered bh h ef ef' added out" and h: "1 \<le> h" "h < UnminedHeight"
    and new: "h = fe_lastKnownHeight ef + 1 \<or> fe_lastKnownHeight ef = UnminedHeight"
  shows "fe_inv ef'"
proof -
  have hu: "h \<noteq> UnminedHeight" using h(2) by simp
  note facts = registered_facts [OF inv reg hu] and bins = registered_bins [OF inv reg hu]
  let ?b = "\<lparr>rb_hash = bh, rb_transactions = map Some out\<rparr>"
  obtain D0 bs where D: "fe_dropped ef' = D0 @ bs" "bs = [?b] \<or> bs = [] \<and> D0 = []" "D0 = fe_dropped ef \<or> D0 = tl (fe_dropped ef)"
    and mr: "fe_maxRollback ef' = 0 \<longrightarrow> fe_dropped ef' = []"
  proof (cases "fe_maxRollback ef = 0")
    case True
    have "frame ef' = frame (push_dropped ?b (forget_old h (begin_block h ef\<lparr>fe_heap := fe_heap ef'\<rparr>)))" using reg unfolding registered_def by blast
    then have "fe_dropped ef' = []" using True inv frame_fields [of ef'] by (simp add: push_dropped_def fe_inv_def)
    then show ?thesis using that [of "[]" "[]"] True inv by (simp add: fe_inv_def)
  next
    case False
    have "frame ef' = frame (push_dropped ?b (forget_old h (begin_block h ef\<lparr>fe_heap := fe_heap ef'\<rparr>)))" using reg unfolding registered_def by blast
    then have "fe_maxRollback ef' = fe_maxRollback ef" using frame_fields [of ef'] by simp
    moreover obtain D0 where "fe_dropped ef' = D0 @ [?b]" "D0 = fe_dropped ef \<or> D0 = tl (fe_dropped ef)" by (rule registered_stack [OF reg False])
    ultimately show ?thesis using that [of D0 "[?b]"] False by simp
  qed
  have dr: "set (drops D0) \<subseteq> set (live ef)" "distinct (drops D0)" "set (drops D0) \<inter> set (concat (fe_bin ef)) = {}"
    using D(3) inv by (cases "fe_dropped ef"; auto simp: fe_inv_def live_def)+
  have un: "set (concat (fe_bin ef')) \<union> set out = set (concat (fe_bin ef)) \<union> set added" using mset_eq_setD [OF facts(4)] by simp
  have ob: "set (drops bs) \<subseteq> set out" "distinct (concat (fe_bin ef') @ drops bs)" using D(2) bins(3) by auto
  have new': "set (concat (fe_bin ef')) \<union> set (drops bs) \<subseteq> set (concat (fe_bin ef)) \<union> set added" using un ob(1) by blast
  have "(set (concat (fe_bin ef')) \<union> set (drops bs)) \<inter> set (drops D0) = {}" using new' dr(1,3) facts(1) by blast
  then have "distinct (live ef')" using ob(2) dr(2) unfolding live_def D(1) drops_simps distinct_append set_append by blast
  moreover have "set (concat (fe_bin ef)) \<subseteq> set (live ef)" by (simp add: live_def)
  then have sub: "set (live ef') \<subseteq> set (live ef) \<union> set added"
    using new' dr(1) unfolding live_def [of ef'] D(1) drops_simps set_append by blast
  moreover have "\<forall>r\<in>set (concat (fe_bin ef')). mined (fe_heap ef') r \<le> h"
  proof
    fix r assume "r \<in> set (concat (fe_bin ef'))"
    then have "r \<in> set (concat (fe_bin ef)) \<or> r \<in> set added" using un by blast
    then show "mined (fe_heap ef') r \<le> h"
    proof
      assume r: "r \<in> set (concat (fe_bin ef))"
      then have "mined (fe_heap ef') r = mined (fe_heap ef) r" using facts(2) \<open>set (concat (fe_bin ef)) \<subseteq> set (live ef)\<close> by (auto simp: same_marks_def)
      then show ?thesis using height_before(1) [OF inv h(1) new r] by (simp add: word_le_nat_alt)
    qed (simp add: facts(3))
  qed
  moreover have "stack_ok (fe_heap ef') (mset (concat (fe_bin ef'))) (unat h) (rev (fe_dropped ef'))"
    using D(2) pushed_stack_ok [OF inv reg h(1) hu new D(3)] unfolding D(1) by auto
  ultimately show ?thesis using bins(1) facts(5,6) h(2) mr unfolding fe_inv_def by auto
qed

section \<open>Rolling back\<close>

lemma mined_in_size:
  "size (filter_mset (\<lambda>r. unat (mined heap r) = unat h \<and> waited heap r = c) (mset xs)) = mined_in heap h c xs"
  by (simp add: mined_in_def word_unat_eq_iff flip: mset_filter)

text \<open>What a rollback does to the bins and the store; \<open>h\<close> is the height of the block.\<close>

definition undone :: "FeeEstimator \<Rightarrow> FeeEstimator \<Rightarrow> ref list \<Rightarrow> bool" where
  "undone ef ef' rs \<longleftrightarrow> (let h = fe_lastKnownHeight ef in
     fe_heap ef' = mark UnminedHeight {r \<in> set (concat (fe_bin ef)). mined (fe_heap ef) r = h} (fe_heap ef)
     \<and> mset (concat (fe_bin ef')) = filter_mset (\<lambda>r. mined (fe_heap ef) r \<noteq> h) (mset (concat (fe_bin ef))) + mset rs
     \<and> sorted_in (fe_heap ef) (fe_bin ef')
     \<and> frame ef' = (frame ef)\<lparr>fe_cached := None, fe_dropped := butlast (fe_dropped ef),
         fe_numBlocksRegistered := fe_numBlocksRegistered ef - 1, fe_lastKnownHeight := h - 1\<rparr>)"

text \<open>The block on top of the stack.\<close>

lemma top_block:
  assumes inv: "fe_inv ef" and D: "fe_dropped ef \<noteq> []"
  defines "b \<equiv> last (fe_dropped ef)" and "H \<equiv> unat (fe_lastKnownHeight ef)"
  shows "rb_transactions b = map Some (refs_of b)" and "1 \<le> H" and "fe_lastKnownHeight ef < UnminedHeight"
    and "\<And>r. r \<in> set (refs_of b) \<Longrightarrow> unat (mined (fe_heap ef) r) < H \<and> waited (fe_heap ef) r < estimateFeeDepth"
    and "\<And>c. c < estimateFeeDepth \<Longrightarrow> class_count (fe_heap ef) c (refs_of b) \<le> mined_in (fe_heap ef) (fe_lastKnownHeight ef) c (concat (fe_bin ef))"
    and "stack_ok (fe_heap ef) (mset (concat (fe_bin ef)) + mset (refs_of b)) (H - 1) (rev (butlast (fe_dropped ef)))"
    and "live ef = concat (fe_bin ef) @ drops (butlast (fe_dropped ef)) @ refs_of b"
    and "\<And>r. r \<in> set (concat (fe_bin ef)) \<Longrightarrow> unat (mined (fe_heap ef) r) \<le> H"
proof -
  have D': "fe_dropped ef = butlast (fe_dropped ef) @ [b]" using D by (simp add: b_def)
  have last: "fe_lastKnownHeight ef \<noteq> UnminedHeight" using inv D by (auto simp: fe_inv_def)
  show "live ef = concat (fe_bin ef) @ drops (butlast (fe_dropped ef)) @ refs_of b" unfolding live_def by (subst D') simp
  have "stack_ok (fe_heap ef) (mset (concat (fe_bin ef))) H (rev (fe_dropped ef))" using inv last by (simp add: fe_inv_def H_def)
  then have st: "stack_ok (fe_heap ef) (mset (concat (fe_bin ef))) H (b # rev (butlast (fe_dropped ef)))" by (subst (asm) D') simp
  then show "1 \<le> H" "stack_ok (fe_heap ef) (mset (concat (fe_bin ef)) + mset (refs_of b)) (H - 1) (rev (butlast (fe_dropped ef)))" by simp_all
  show "\<And>r. r \<in> set (refs_of b) \<Longrightarrow> unat (mined (fe_heap ef) r) < H \<and> waited (fe_heap ef) r < estimateFeeDepth" using st by simp
  show "\<And>c. c < estimateFeeDepth \<Longrightarrow> class_count (fe_heap ef) c (refs_of b) \<le> mined_in (fe_heap ef) (fe_lastKnownHeight ef) c (concat (fe_bin ef))"
    using st unfolding H_def by (simp add: mined_in_size)
  have "map (\<lambda>p. Some (the p)) ps = ps" if "None \<notin> set ps" for ps :: "ref option list" using that by (induction ps) auto
  then show "rb_transactions b = map Some (refs_of b)" using st by (simp add: refs_of_def comp_def)
  show "fe_lastKnownHeight ef < UnminedHeight" using inv last by (simp add: fe_inv_def)
  fix r assume "r \<in> set (concat (fe_bin ef))"
  then have "mined (fe_heap ef) r \<le> fe_lastKnownHeight ef" using inv last unfolding fe_inv_def by meson
  then show "unat (mined (fe_heap ef) r) \<le> H" by (simp add: H_def word_le_nat_alt)
qed

lemma rollback_undone:
  assumes inv: "fe_inv ef" and D: "fe_dropped ef \<noteq> []"
  shows "\<exists>ef'. rollback ef = Inr ef' \<and> undone ef ef' (refs_of (last (fe_dropped ef)))"
proof -
  note top = top_block [OF inv D]
  have dis: "distinct (refs_of (last (fe_dropped ef)))" "set (refs_of (last (fe_dropped ef))) \<inter> set (concat (fe_bin ef)) = {}"
    using inv unfolding fe_inv_def top(7) distinct_append set_append by blast+
  have rs: "r < length (fe_heap ef) \<and> mined (fe_heap ef) r \<noteq> fe_lastKnownHeight ef \<and> waited (fe_heap ef) r < estimateFeeDepth"
    if "r \<in> set (refs_of (last (fe_dropped ef)))" for r
  proof -
    have "tracked ef r" using inv that unfolding fe_inv_def top(7) by auto
    then show ?thesis using top(4) [OF that] by (auto simp: tracked_def)
  qed
  show ?thesis
    by (rule rollback_spec [OF fe_inv_bins [OF inv] D top(1) refl dis rs top(5)]) (simp_all add: undone_def)
qed

lemma undone_bins:
  assumes inv: "fe_inv ef" and D: "fe_dropped ef \<noteq> []" and u: "undone ef ef' (refs_of (last (fe_dropped ef)))"
  shows "set (concat (fe_bin ef')) \<subseteq> set (live ef)" and "same_marks (fe_heap ef) (fe_heap ef') (set (concat (fe_bin ef')) \<union> set (drops (butlast (fe_dropped ef))))"
    and "distinct (concat (fe_bin ef') @ drops (butlast (fe_dropped ef)))"
    and "\<And>r. r \<in> set (concat (fe_bin ef')) \<Longrightarrow> unat (mined (fe_heap ef) r) < unat (fe_lastKnownHeight ef)"
    and "\<And>c. c < estimateFeeDepth \<Longrightarrow> length (fe_bin ef' ! c) \<le> length (fe_bin ef ! c)"
proof -
  let ?rs = "refs_of (last (fe_dropped ef))" and ?h = "fe_lastKnownHeight ef" and ?P = "\<lambda>r. mined (fe_heap ef) r \<noteq> fe_lastKnownHeight ef"
  note top = top_block [OF inv D]
  have heap: "fe_heap ef' = mark UnminedHeight {r \<in> set (concat (fe_bin ef)). mined (fe_heap ef) r = ?h} (fe_heap ef)"
    and ms: "mset (concat (fe_bin ef')) = filter_mset ?P (mset (concat (fe_bin ef))) + mset ?rs" and s: "sorted_in (fe_heap ef) (fe_bin ef')"
    using u by (simp_all add: undone_def Let_def)
  have "mset (concat (fe_bin ef')) = mset (filter ?P (concat (fe_bin ef)) @ ?rs)" using ms by simp
  note perm = mset_eq_setD [OF this] mset_eq_imp_distinct_iff [OF this]
  have st: "set (concat (fe_bin ef')) = {r \<in> set (concat (fe_bin ef)). ?P r} \<union> set ?rs" unfolding perm(1) by simp
  note di = perm(2)
  show sub: "set (concat (fe_bin ef')) \<subseteq> set (live ef)" unfolding st top(7) by auto
  have dl: "distinct (live ef)" using inv by (simp add: fe_inv_def)
  then have "distinct (concat (fe_bin ef'))" unfolding di top(7) by auto
  moreover have "set (concat (fe_bin ef')) \<inter> set (drops (butlast (fe_dropped ef))) = {}" using dl unfolding st top(7) by auto
  ultimately show "distinct (concat (fe_bin ef') @ drops (butlast (fe_dropped ef)))" using dl unfolding top(7) by (simp del: set_concat)
  show lt: "unat (mined (fe_heap ef) r) < unat ?h" if "r \<in> set (concat (fe_bin ef'))" for r
    using that top(4) [of r] top(8) [of r] unfolding st by (auto simp: word_unat_eq_iff order_le_less)
  let ?B = "set (concat (fe_bin ef')) \<union> set (drops (butlast (fe_dropped ef)))"
  have "?B \<subseteq> set (live ef)" using sub unfolding top(7) set_append by blast
  then have len: "r < length (fe_heap ef)" if "r \<in> ?B" for r using that inv unfolding fe_inv_def tracked_def by blast
  have "set (concat (fe_bin ef)) \<inter> set (drops (butlast (fe_dropped ef))) = {}" using dl unfolding top(7) distinct_append set_append by blast
  then have "r \<notin> {r \<in> set (concat (fe_bin ef)). mined (fe_heap ef) r = ?h}" if "r \<in> ?B" for r
    using that lt [of r] by (auto simp del: set_concat)
  with len show "same_marks (fe_heap ef) (fe_heap ef') ?B" unfolding heap by (rule same_marks_mark)
  show "length (fe_bin ef' ! c) \<le> length (fe_bin ef ! c)" if c: "c < estimateFeeDepth" for c
  proof -
    have sb: "sorted_in (fe_heap ef) (fe_bin ef)" using fe_inv_bins [OF inv] by (simp add: bins_ok_def)
    have "mset (fe_bin ef' ! c) = filter_mset (\<lambda>r. waited (fe_heap ef) r = c) (mset (concat (fe_bin ef')))"
      using sorted_in_bin [OF s c] by (metis mset_filter)
    also have "\<dots> = mset (filter ?P (fe_bin ef ! c)) + mset (filter (\<lambda>r. waited (fe_heap ef) r = c) ?rs)"
      unfolding ms sorted_in_bin [OF sb c, symmetric] by (simp add: filter_filter_mset conj_commute)
    finally have "length (fe_bin ef' ! c) = length (filter ?P (fe_bin ef ! c)) + class_count (fe_heap ef) c ?rs"
      unfolding class_count_def by (metis size_mset size_union)
    moreover have "class_count (fe_heap ef) c ?rs \<le> length (filter (\<lambda>r. mined (fe_heap ef) r = ?h) (fe_bin ef ! c))"
      using top(5) [OF c] unfolding mined_in_bin [OF sb c] .
    ultimately show ?thesis using sum_length_filter_compl [of ?P "fe_bin ef ! c"] by simp
  qed
qed

lemma undone_stack:
  assumes inv: "fe_inv ef" and D: "fe_dropped ef \<noteq> []" and u: "undone ef ef' (refs_of (last (fe_dropped ef)))"
  shows "stack_ok (fe_heap ef') (mset (concat (fe_bin ef'))) (unat (fe_lastKnownHeight ef) - 1) (rev (butlast (fe_dropped ef)))"
proof (rule stack_ok_heap)
  let ?H = "unat (fe_lastKnownHeight ef)" and ?P = "\<lambda>r. mined (fe_heap ef) r \<noteq> fe_lastKnownHeight ef"
  let ?V = "filter_mset (\<lambda>r. \<not> ?P r) (mset (concat (fe_bin ef)))"
  note top = top_block [OF inv D]
  have "set (drops (rev (butlast (fe_dropped ef)))) = set (drops (butlast (fe_dropped ef)))" by (simp add: drops_def)
  then show "same_marks (fe_heap ef) (fe_heap ef') (set_mset (mset (concat (fe_bin ef'))) \<union> set (drops (rev (butlast (fe_dropped ef)))))"
    using undone_bins(2) [OF inv D u] by (simp add: set_mset_mset)
  have ms: "mset (concat (fe_bin ef')) = filter_mset ?P (mset (concat (fe_bin ef))) + mset (refs_of (last (fe_dropped ef)))"
    using u by (simp add: undone_def Let_def)
  have "mset (concat (fe_bin ef)) + mset (refs_of (last (fe_dropped ef))) = mset (concat (fe_bin ef')) + ?V"
    unfolding ms by (subst multiset_partition [of "mset (concat (fe_bin ef))" ?P]) (simp add: ac_simps)
  then have "stack_ok (fe_heap ef) (mset (concat (fe_bin ef')) + ?V) (?H - 1) (rev (butlast (fe_dropped ef)))" using top(6) by simp
  then show "stack_ok (fe_heap ef) (mset (concat (fe_bin ef'))) (?H - 1) (rev (butlast (fe_dropped ef)))"
    by (subst (asm) stack_ok_later) (use top(2) in auto)
qed

lemma fe_inv_undone:
  assumes inv: "fe_inv ef" and D: "fe_dropped ef \<noteq> []" and u: "undone ef ef' (refs_of (last (fe_dropped ef)))"
  shows "fe_inv ef'"
proof -
  let ?rs = "refs_of (last (fe_dropped ef))" and ?h = "fe_lastKnownHeight ef" and ?P = "\<lambda>r. mined (fe_heap ef) r \<noteq> fe_lastKnownHeight ef"
  note top = top_block [OF inv D] and bins = undone_bins [OF inv D u]
  have heap: "fe_heap ef' = mark UnminedHeight {r \<in> set (concat (fe_bin ef)). mined (fe_heap ef) r = ?h} (fe_heap ef)"
    and ms: "mset (concat (fe_bin ef')) = filter_mset ?P (mset (concat (fe_bin ef))) + mset ?rs" and s: "sorted_in (fe_heap ef) (fe_bin ef')"
    and fr: "frame ef' = frame (ef\<lparr>fe_cached := None, fe_dropped := butlast (fe_dropped ef),
         fe_numBlocksRegistered := fe_numBlocksRegistered ef - 1, fe_lastKnownHeight := ?h - 1\<rparr>)"
    using u by (simp_all add: undone_def Let_def frame_def)
  have fields: "fe_observed ef' = fe_observed ef" "fe_maxReplacements ef' = fe_maxReplacements ef" "fe_binSize ef' = fe_binSize ef"
    "fe_dropped ef' = butlast (fe_dropped ef)" "fe_lastKnownHeight ef' = ?h - 1" "fe_maxRollback ef' = fe_maxRollback ef"
    using frame_fields [OF fr] by simp_all
  have h: "unat (?h - 1) = unat ?h - 1" "unat ?h > 0" 
  proof -
    have "?h \<noteq> 0" using top(2) by auto
    then show "unat (?h - 1) = unat ?h - 1" "unat ?h > 0" by (simp_all add: unat_minus_one unat_gt_0)
  qed
  have sub: "set (live ef') \<subseteq> set (live ef)" using bins(1) unfolding live_def [of ef'] fields(4) top(7) set_append by blast
  have hash: "ot_hash (fe_heap ef' ! r) = ot_hash (fe_heap ef ! r)" if "r < length (fe_heap ef)" for r using that unfolding heap by simp
  have lv: "tracked ef' r \<and> mined (fe_heap ef') r \<noteq> UnminedHeight" if r: "r \<in> set (live ef')" for r
  proof -
    have "tracked ef r \<and> mined (fe_heap ef) r \<noteq> UnminedHeight" using r sub inv unfolding fe_inv_def by blast
    moreover have "mined (fe_heap ef') r = mined (fe_heap ef) r" using bins(2) r unfolding live_def [of ef'] fields(4) set_append same_marks_def by blast
    ultimately show ?thesis using hash fields(1) by (simp add: tracked_def heap)
  qed
  have "same_marks (fe_heap ef) (fe_heap ef') (set (concat (fe_bin ef')))" using bins(2) unfolding same_marks_def by blast
  then have "sorted_in (fe_heap ef') (fe_bin ef')" by (rule sorted_in_marks [OF s]) (simp add: heap)
  moreover have "\<forall>x r. fmlookup (fe_observed ef') x = Some r \<longrightarrow> r < length (fe_heap ef') \<and> ot_hash (fe_heap ef' ! r) = x"
    using fe_inv_bins [OF inv] hash unfolding bins_ok_def fields(1) by (simp add: heap)
  moreover have "int (length (fe_bin ef' ! c)) \<le> sint (fe_binSize ef')" if "c < estimateFeeDepth" for c
    using fe_inv_bins [OF inv] bins(5) [OF that] that unfolding bins_ok_def fields(3) by force
  moreover have "set (concat (fe_bin ef')) \<subseteq> set (live ef')" "distinct (concat (fe_bin ef'))" using bins(3) by (simp_all add: live_def)
  ultimately have ok: "bins_ok ef'" using fe_inv_bins [OF inv] lv unfolding bins_ok_def config_ok_def fields(2,3) by blast
  have "stack_ok (fe_heap ef') (mset (concat (fe_bin ef'))) (unat (?h - 1)) (rev (butlast (fe_dropped ef)))"
    unfolding h(1) by (rule undone_stack [OF inv D u])
  moreover have "?h - 1 < UnminedHeight" using top(3) h by (simp add: word_less_nat_alt)
  moreover have "mined (fe_heap ef') r \<le> ?h - 1" if "r \<in> set (concat (fe_bin ef'))" for r
  proof -
    have "mined (fe_heap ef') r = mined (fe_heap ef) r" using bins(2) that unfolding same_marks_def by blast
    then show ?thesis using bins(4) [OF that] h by (simp add: word_le_nat_alt)
  qed
  ultimately show ?thesis using ok lv bins(3) inv fields(4-6) unfolding fe_inv_def live_def by (auto simp del: set_concat)
qed

lemma fe_inv_rollbacks: "fe_inv ef \<Longrightarrow> n \<le> length (fe_dropped ef) \<Longrightarrow> \<exists>ef'. rollbacks n ef = Inr ef' \<and> fe_inv ef'"
proof (induction n arbitrary: ef)
  case (Suc n)
  then have D: "fe_dropped ef \<noteq> []" by auto
  obtain e where e: "rollback ef = Inr e" "undone ef e (refs_of (last (fe_dropped ef)))" using rollback_undone [OF Suc.prems(1) D] by blast
  have "frame e = frame (ef\<lparr>fe_cached := None, fe_dropped := butlast (fe_dropped ef),
         fe_numBlocksRegistered := fe_numBlocksRegistered ef - 1, fe_lastKnownHeight := fe_lastKnownHeight ef - 1\<rparr>)"
    using e(2) by (simp add: undone_def Let_def frame_def)
  from frame_fields [OF this] have "fe_dropped e = butlast (fe_dropped ef)" by simp
  then show ?case using Suc.IH [OF fe_inv_undone [OF Suc.prems(1) D e(2)]] e(1) Suc.prems(2) by (simp add: andThen_def)
qed simp

lemma depth_of_le: "depth_of h bs = Some n \<Longrightarrow> n \<le> length bs"
  by (induction bs arbitrary: n) (auto split: if_splits)

lemma fe_inv_Rollback: "fe_inv ef \<Longrightarrow> \<exists>ef' err. Rollback h ef = Inr (ef', err) \<and> fe_inv ef'"
  using fe_inv_rollbacks [of ef] depth_of_le [of h "rev (fe_dropped ef)"]
  by (cases "depth_of h (rev (fe_dropped ef))") (fastforce simp: Rollback_def andThen_def)+

section \<open>Estimates\<close>

text \<open>The estimates depend on the fee rates in the bins and their numbers only.\<close>

lemma estimates_cong:
  assumes "length (fe_bin ef) = estimateFeeDepth" and "length (fe_bin ef') = estimateFeeDepth"
    and "\<And>b. b < estimateFeeDepth \<Longrightarrow> mset (fe_bin ef' ! b) = mset (fe_bin ef ! b)"
    and "\<And>r. r \<in> set (concat (fe_bin ef)) \<Longrightarrow> ot_feeRate (fe_heap ef' ! r) = ot_feeRate (fe_heap ef ! r)"
  shows "estimates overflow ef' = estimates overflow ef"
proof -
  let ?f = "\<lambda>r. ot_feeRate (fe_heap ef ! r)" and ?g = "\<lambda>r. ot_feeRate (fe_heap ef' ! r)"
  have "map mset (fe_bin ef') = map mset (fe_bin ef)" using assms(1-3) by (intro nth_equalityI) simp_all
  then have ms: "mset (concat (fe_bin ef')) = mset (concat (fe_bin ef))" by (metis mset_concat)
  have "map length (fe_bin ef') = map length (fe_bin ef)"
    using assms(1-3) by (intro nth_equalityI) (auto dest: mset_eq_length)
  then have len: "map (\<lambda>b. of_nat (length b) :: uint32) (fe_bin ef') = map (\<lambda>b. of_nat (length b)) (fe_bin ef)"
    by (metis (no_types, lifting) list.map_comp map_eq_conv o_def)
  have "image_mset ?g (mset (concat (fe_bin ef'))) = image_mset ?f (mset (concat (fe_bin ef)))"
    unfolding ms using assms(4) by (intro image_mset_cong) simp
  then have "mset (map ?g (concat (fe_bin ef'))) = mset (map ?f (concat (fe_bin ef)))" by simp
  then have "sort (map ?g (concat (fe_bin ef'))) = sort (map ?f (concat (fe_bin ef)))" by (metis properties_for_sort mset_sort sorted_sort)
  then show ?thesis unfolding estimates_def newEstimateFeeSet_def len by simp
qed

definition fee_index :: "nat list \<Rightarrow> nat \<Rightarrow> nat" where
  "fee_index ls i = (sum_list (take i ls) + max (sum_list (take i ls)) (sum_list (take i ls) + ls ! i - 1)) div 2"

lemma fee_index_mono: "i \<le> j \<Longrightarrow> j < length ls \<Longrightarrow> fee_index ls i \<le> fee_index ls j"
proof (induction j rule: dec_induct)
  case (step j)
  have "sum_list (take (Suc j) ls) = sum_list (take j ls) + ls ! j" using step.prems by (simp add: take_Suc_conv_app_nth)
  then have "fee_index ls j \<le> fee_index ls (Suc j)" by (auto simp: fee_index_def max_def)
  then show ?case using step by simp
qed simp

lemma clamp_index: "(if xs = [] then z else if k \<ge> length (rev xs) then rev xs ! (length (rev xs) - 1) else rev xs ! k)
  = (if rev xs = [] then z else rev xs ! min k (length (rev xs) - 1))"
  by (cases xs rule: rev_cases) (auto simp: min_def not_le)

text \<open>The estimate for \<open>i + 1\<close> blocks, when no bin has \<open>2^32\<close> transactions.\<close>

lemma estimates_nth:
  assumes "length (fe_bin ef) = estimateFeeDepth" and "\<forall>b<estimateFeeDepth. length (fe_bin ef ! b) < 2 ^ 32" and "i < estimateFeeDepth"
  shows "estimates overflow ef ! i = (let rates = rev (sort (map (\<lambda>r. ot_feeRate (fe_heap ef ! r)) (concat (fe_bin ef))))
    in if rates = [] then 0 else rates ! min (fee_index (map length (fe_bin ef)) i) (length rates - 1))"
proof -
  have w: "map unat (map (\<lambda>b. of_nat (length b) :: uint32) (fe_bin ef)) = map length (fe_bin ef)"
    using assms(1,2) by (intro nth_equalityI) (simp_all add: unat_of_nat take_bit_nat_eq_self)
  have t: "map unat (take i (map (\<lambda>b. of_nat (length b) :: uint32) (fe_bin ef))) = take i (map length (fe_bin ef))"
    unfolding w [symmetric] by (simp add: take_map)
  have n: "uint (of_nat (length (fe_bin ef ! i)) :: uint32) = int (length (fe_bin ef ! i))"
    using assms(2,3) by (simp add: uint_nat unat_of_nat take_bit_nat_eq_self)
  have idx: "nat ((int s + max (int s) (int s + int l - 1)) div 2) = (s + max s (s + l - 1)) div 2" for s l :: nat
    by (auto simp: max_def nat_div_distrib nat_add_distrib)
  let ?rs = "sort (map (\<lambda>r. ot_feeRate (fe_heap ef ! r)) (concat (fe_bin ef)))"
  have "estimates overflow ef ! i = estimateFee overflow (int i + 1) (newEstimateFeeSet ef)"
    using assms(3) by (simp add: estimates_def)
  also have "\<dots> = (if ?rs = [] then 0 else if fee_index (map length (fe_bin ef)) i \<ge> length (rev ?rs) then rev ?rs ! (length (rev ?rs) - 1)
      else rev ?rs ! fee_index (map length (fe_bin ef)) i)"
    using assms(1,3) unfolding estimateFee_def newEstimateFeeSet_def fee_index_def Let_def
    by (simp add: t n idx nat_add_distrib del: length_sort length_concat length_map)
  finally show ?thesis unfolding Let_def clamp_index by simp
qed

end
