(* ===== verification/Fee_Properties.thy ===== *)
theory Fee_Properties
  imports Fee_History
begin

text \<open>
  What the fee estimator promises in every state it can reach by its operations, on top of the invariant of
  \<open>Fee_History\<close>: the shape of the bins, that \<open>Rollback\<close> does not panic, that it undoes \<open>RegisterBlock\<close>, and that
  the fee rate it asks for falls with the number of blocks one is ready to wait.

  The steps leave one case out: the error \<open>Transaction has already been mined\<close>, after which the height has moved
  on but the stack has no entry for the block. Registered blocks have heights from 1 to below \<open>UnminedHeight\<close>, and an
  estimator restored from its bytes is not a starting point.
\<close>

section \<open>Reachable estimators\<close>

inductive fe_reachable :: "('o, 's, 'n, 'a, 'm) tx_env \<Rightarrow> uint64 \<Rightarrow> FeeEstimator \<Rightarrow> bool" for E overflow where
  created: "fe_reachable E overflow (NewFeeEstimator maxRollback minRegisteredBlocks)"
| observed: "fe_reachable E overflow ef \<Longrightarrow> ObserveTransaction E overflow t ef = Inr ef' \<Longrightarrow> fe_reachable E overflow ef'"
| registered: "fe_reachable E overflow ef \<Longrightarrow> in_range rand \<Longrightarrow> 1 \<le> sh_Height (sb_Header block) \<Longrightarrow> sh_Height (sb_Header block) < UnminedHeight
    \<Longrightarrow> RegisterBlock E rand order block ef = Inr (ef', False) \<Longrightarrow> fe_reachable E overflow ef'"
| refused: "fe_reachable E overflow ef \<Longrightarrow> sh_Height (sb_Header block) \<noteq> fe_lastKnownHeight ef + 1 \<Longrightarrow> fe_lastKnownHeight ef \<noteq> UnminedHeight
    \<Longrightarrow> RegisterBlock E rand order block ef = Inr (ef', err) \<Longrightarrow> fe_reachable E overflow ef'"
| rolled_back: "fe_reachable E overflow ef \<Longrightarrow> Rollback h ef = Inr (ef', err) \<Longrightarrow> fe_reachable E overflow ef'"
| estimated: "fe_reachable E overflow ef \<Longrightarrow> fe_reachable E overflow (fst (EstimateFee overflow n ef))"

lemma register_txs_hashes: "register_txs rand h hs (ef, st) = Inr (ef', Some st') \<Longrightarrow> \<exists>xs. hs = map Inr xs"
proof (induction hs arbitrary: ef st)
  case (Cons x hs)
  then obtain y where y: "x = Inr y" by (auto simp: andThen_Inr_iff)
  from Cons.prems obtain e s where "register_txs rand h hs (e, s) = Inr (ef', Some st')"
    by (auto simp: andThen_Inr_iff split: option.splits prod.splits)
  with Cons.IH obtain xs where "hs = map Inr xs" by blast
  with y show ?case by (intro exI [of _ "y # xs"]) simp
qed simp

text \<open>A block that is registered without an error.\<close>

lemma RegisterBlock_ok:
  assumes "RegisterBlock E rand order block ef = Inr (ef', False)"
  obtains xs where "RegisterBlock_hashes rand (ShardBlock_Hash (te_sum256 E) block) (sh_Height (sb_Header block)) (map Inr xs) ef = Inr (ef', False)"
    and "sh_Height (sb_Header block) = fe_lastKnownHeight ef + 1 \<or> fe_lastKnownHeight ef = UnminedHeight"
proof -
  let ?h = "sh_Height (sb_Header block)" and ?bh = "ShardBlock_Hash (te_sum256 E) block"
  obtain hs where hs: "RegisterBlock_hashes rand ?bh ?h hs ef = Inr (ef', False)" and new: "?h = fe_lastKnownHeight ef + 1 \<or> fe_lastKnownHeight ef = UnminedHeight"
    using assms by (auto simp: RegisterBlock_def Let_def andThen_Inr_iff split: if_splits)
  then obtain e s where "register_txs rand ?h hs (begin_block ?h ef, replicate estimateFeeDepth 0, []) = Inr (e, Some s)"
    by (auto simp: RegisterBlock_hashes_def Let_def andThen_Inr_iff begin_block_def split: if_splits option.splits)
  from register_txs_hashes [OF this] obtain xs where "hs = map Inr xs" by blast
  with hs new show thesis using that by blast
qed

lemma RegisterBlock_ok_registered:
  assumes "bins_ok ef" and "in_range rand" and "sh_Height (sb_Header block) \<noteq> UnminedHeight" and "RegisterBlock E rand order block ef = Inr (ef', False)"
  obtains added out where "registered (ShardBlock_Hash (te_sum256 E) block) (sh_Height (sb_Header block)) ef ef' added out"
    and "sh_Height (sb_Header block) = fe_lastKnownHeight ef + 1 \<or> fe_lastKnownHeight ef = UnminedHeight"
proof -
  let ?h = "sh_Height (sb_Header block)" and ?bh = "ShardBlock_Hash (te_sum256 E) block"
  from RegisterBlock_ok [OF assms(4)] obtain xs where xs: "RegisterBlock_hashes rand ?bh ?h (map Inr xs) ef = Inr (ef', False)"
    and new: "?h = fe_lastKnownHeight ef + 1 \<or> fe_lastKnownHeight ef = UnminedHeight" .
  from RegisterBlock_registered [OF assms(1,3,2), of ?bh xs] xs obtain added out where "registered ?bh ?h ef ef' added out" by auto
  with new show thesis using that by blast
qed

section \<open>The invariant of reachable estimators\<close>

definition cached_ok :: "uint64 \<Rightarrow> FeeEstimator \<Rightarrow> bool" where
  "cached_ok overflow ef \<longleftrightarrow> fe_cached ef = None \<or> fe_cached ef = Some (estimates overflow ef)"

definition estimator_ok :: "uint64 \<Rightarrow> FeeEstimator \<Rightarrow> bool" where
  "estimator_ok overflow ef \<longleftrightarrow> fe_inv ef \<and> fe_binSize ef = estimateFeeBinSize \<and> cached_ok overflow ef"

lemma bins_in_heap: "fe_inv ef \<Longrightarrow> r \<in> set (concat (fe_bin ef)) \<Longrightarrow> r < length (fe_heap ef)"
  using fe_inv_bins sorted_in_less unfolding bins_ok_def by blast

lemma bins_depth: "fe_inv ef \<Longrightarrow> length (fe_bin ef) = estimateFeeDepth"
  using fe_inv_bins by (auto simp: bins_ok_def sorted_in_def)

lemma estimator_ok_Observe:
  assumes ok: "estimator_ok overflow ef" and obs: "ObserveTransaction E overflow t ef = Inr ef'"
  shows "estimator_ok overflow ef'"
proof -
  have inv: "fe_inv ef" using ok by (simp add: estimator_ok_def)
  have same: "fe_binSize ef' = fe_binSize ef" "fe_cached ef' = fe_cached ef" "fe_bin ef' = fe_bin ef" and "\<exists>xs. fe_heap ef' = fe_heap ef @ xs"
    using obs by (auto simp: ObserveTransaction_def andThen_Inr_iff split: if_splits)
  then have "estimates overflow ef' = estimates overflow ef"
    using bins_depth [OF inv] bins_in_heap [OF inv] by (intro estimates_cong) (auto simp: nth_append simp del: set_concat)
  then show ?thesis using ok same fe_inv_Observe [OF inv obs] by (simp add: estimator_ok_def cached_ok_def)
qed

lemma estimates_cached [simp]: "estimates overflow (ef\<lparr>fe_cached := c\<rparr>) = estimates overflow ef"
  by (simp add: estimates_def newEstimateFeeSet_def)

lemma estimator_ok_Estimate: "estimator_ok overflow ef \<Longrightarrow> estimator_ok overflow (fst (EstimateFee overflow n ef))"
  using fe_inv_Estimate [of ef overflow n]
  by (auto simp: estimator_ok_def EstimateFee_def Let_def cached_ok_def split: option.splits)

lemma registered_fields:
  assumes "registered bh h ef ef' added out"
  shows "fe_cached ef' = None" and "fe_binSize ef' = fe_binSize ef" and "fe_numBlocksRegistered ef' = fe_numBlocksRegistered ef + 1"
    and "fe_maxRollback ef' = fe_maxRollback ef" and "fe_minRegisteredBlocks ef' = fe_minRegisteredBlocks ef"
  using assms unfolding registered_def by (auto dest!: frame_fields)

lemma undone_fields:
  assumes "undone ef ef' rs"
  shows "fe_cached ef' = None" and "fe_binSize ef' = fe_binSize ef" and "fe_numBlocksRegistered ef' = fe_numBlocksRegistered ef - 1"
    and "fe_dropped ef' = butlast (fe_dropped ef)" and "fe_minRegisteredBlocks ef' = fe_minRegisteredBlocks ef" and "fe_lastKnownHeight ef' = fe_lastKnownHeight ef - 1"
proof -
  have "frame ef' = frame (ef\<lparr>fe_cached := None, fe_dropped := butlast (fe_dropped ef),
         fe_numBlocksRegistered := fe_numBlocksRegistered ef - 1, fe_lastKnownHeight := fe_lastKnownHeight ef - 1\<rparr>)"
    using assms by (simp add: undone_def Let_def frame_def)
  from frame_fields [OF this] show "fe_cached ef' = None" and "fe_binSize ef' = fe_binSize ef" and "fe_numBlocksRegistered ef' = fe_numBlocksRegistered ef - 1"
    and "fe_dropped ef' = butlast (fe_dropped ef)" and "fe_minRegisteredBlocks ef' = fe_minRegisteredBlocks ef" and "fe_lastKnownHeight ef' = fe_lastKnownHeight ef - 1"
    by simp_all
qed

lemma rollbacks_ok: "estimator_ok overflow ef \<Longrightarrow> n \<le> length (fe_dropped ef) \<Longrightarrow> rollbacks n ef = Inr ef' \<Longrightarrow> estimator_ok overflow ef'"
proof (induction n arbitrary: ef)
  case (Suc n)
  then have D: "fe_dropped ef \<noteq> []" and inv: "fe_inv ef" by (auto simp: estimator_ok_def)
  obtain e where e: "rollback ef = Inr e" "undone ef e (refs_of (last (fe_dropped ef)))" using rollback_undone [OF inv D] by blast
  have "estimator_ok overflow e" using Suc.prems(1) undone_fields [OF e(2)] fe_inv_undone [OF inv D e(2)] by (simp add: estimator_ok_def cached_ok_def)
  moreover have "n \<le> length (fe_dropped e)" using undone_fields(4) [OF e(2)] Suc.prems(2) by simp
  moreover have "rollbacks n e = Inr ef'" using Suc.prems(3) e(1) by (simp add: andThen_def)
  ultimately show ?case by (rule Suc.IH)
qed simp

lemma Rollback_ok: "estimator_ok overflow ef \<Longrightarrow> Rollback h ef = Inr (ef', err) \<Longrightarrow> estimator_ok overflow ef'"
  using depth_of_le [of h "rev (fe_dropped ef)"]
  by (auto simp: Rollback_def andThen_Inr_iff split: option.splits intro: rollbacks_ok)

lemma reachable_ok: "fe_reachable E overflow ef \<Longrightarrow> estimator_ok overflow ef"
proof (induction rule: fe_reachable.induct)
  case (created maxRollback minRegisteredBlocks)
  show ?case using fe_inv_New by (simp add: estimator_ok_def cached_ok_def NewFeeEstimator_def)
next
  case (registered ef rand block order ef')
  then have inv: "fe_inv ef" and ne: "sh_Height (sb_Header block) \<noteq> UnminedHeight" by (auto simp: estimator_ok_def)
  from RegisterBlock_ok_registered [OF fe_inv_bins [OF inv] registered(2) ne registered(5)] obtain added out
    where r: "Fee_History.registered (ShardBlock_Hash (te_sum256 E) block) (sh_Height (sb_Header block)) ef ef' added out"
      and new: "sh_Height (sb_Header block) = fe_lastKnownHeight ef + 1 \<or> fe_lastKnownHeight ef = UnminedHeight" .
  show ?case using fe_inv_registered [OF inv r registered(3,4) new] registered_fields [OF r] registered.IH
    by (simp add: estimator_ok_def cached_ok_def)
next
  case (refused ef block rand order ef' err)
  then have "ef' = ef\<lparr>fe_cached := None\<rparr>" by (auto simp: RegisterBlock_def Let_def)
  then show ?case using refused.IH
    by (auto simp: estimator_ok_def cached_ok_def fe_inv_def live_def bins_ok_def config_ok_def tracked_def)
qed (auto intro: estimator_ok_Observe estimator_ok_Estimate Rollback_ok)

section \<open>Undoing a block\<close>

lemma register_undone:
  assumes inv: "fe_inv ef" and reg: "registered bh h ef ef' added out" and h: "1 \<le> h" "h \<noteq> UnminedHeight"
    and new: "h = fe_lastKnownHeight ef + 1 \<or> fe_lastKnownHeight ef = UnminedHeight" and u: "undone ef' ef'' out"
  shows "fe_heap ef'' = fe_heap ef" and "mset (concat (fe_bin ef'')) = mset (concat (fe_bin ef))"
    and "\<And>b. b < estimateFeeDepth \<Longrightarrow> mset (fe_bin ef'' ! b) = mset (fe_bin ef ! b)"
proof -
  note facts = registered_facts [OF inv reg h(2)] and bins = registered_bins [OF inv reg h(2)]
  have out: "set out \<subseteq> set (concat (fe_bin ef))" and heap: "fe_heap ef' = mark h (set added) (fe_heap ef)"
    and add: "\<forall>r\<in>set added. tracked ef r \<and> mined (fe_heap ef) r = UnminedHeight"
    and ms: "mset (concat (fe_bin ef')) + mset out = mset (concat (fe_bin ef)) + mset added"
    using reg unfolding registered_def by blast+
  have same: "mined (fe_heap ef') r = mined (fe_heap ef) r \<and> waited (fe_heap ef') r = waited (fe_heap ef) r" if "r \<in> set (concat (fe_bin ef))" for r
    using facts(2) that unfolding same_marks_def live_def set_append by blast
  have old: "mined (fe_heap ef') r \<noteq> h" if "r \<in> set (concat (fe_bin ef))" for r
    using same [OF that] height_before(1) [OF inv h(1) new that] by auto
  have sub: "set added \<subseteq> set (concat (fe_bin ef'))" using facts(7) by (metis set_mset_mono set_mset_mset)
  have bin': "set (concat (fe_bin ef')) \<subseteq> set (concat (fe_bin ef)) \<union> set added"
    using arg_cong [OF ms, of set_mset] unfolding set_mset_union set_mset_mset by blast
  have mine: "{r \<in> set (concat (fe_bin ef')). mined (fe_heap ef') r = h} = set added"
    using sub bin' old facts(3) by blast
  have "fe_heap ef'' = mark UnminedHeight (set added) (mark h (set added) (fe_heap ef))"
    using u mine facts(6) heap by (simp add: undone_def Let_def)
  then show heap'': "fe_heap ef'' = fe_heap ef" using add by (simp add: mark_undo mined_def)
  let ?P = "\<lambda>r. mined (fe_heap ef') r \<noteq> h"
  have keep: "filter_mset ?P (mset (concat (fe_bin ef))) = mset (concat (fe_bin ef))" "filter_mset ?P (mset out) = mset out"
    using old out by (auto simp: filter_mset_eq_conv simp del: set_concat mset_concat)
  have "filter ?P added = []" using facts(3) by (simp add: filter_empty_conv)
  then have none: "filter_mset ?P (mset added) = {#}" by (metis mset_filter mset.simps(1))
  have "filter_mset ?P (mset (concat (fe_bin ef'))) + mset out = mset (concat (fe_bin ef))"
    using arg_cong [OF ms, of "filter_mset ?P"] unfolding filter_union_mset keep none by simp
  then show all: "mset (concat (fe_bin ef'')) = mset (concat (fe_bin ef))" using u facts(6) by (simp add: undone_def Let_def del: mset_concat)
  fix b assume b: "b < estimateFeeDepth"
  have "mset (fe_bin ef'' ! b) = filter_mset (\<lambda>r. waited (fe_heap ef') r = b) (mset (concat (fe_bin ef'')))"
    using sorted_in_bin [OF _ b] u by (metis undone_def mset_filter)
  also have "\<dots> = filter_mset (\<lambda>r. waited (fe_heap ef) r = b) (mset (concat (fe_bin ef)))"
    unfolding all using same by (intro filter_mset_cong) (simp_all del: set_concat mset_concat)
  also have "\<dots> = mset (fe_bin ef ! b)"
    using sorted_in_bin [OF _ b] fe_inv_bins [OF inv] by (metis bins_ok_def mset_filter)
  finally show "mset (fe_bin ef'' ! b) = mset (fe_bin ef ! b)" .
qed

section \<open>An example run\<close>

text \<open>The estimator registers an empty block, observes one payment and registers the block that mines it.\<close>

definition ex_header :: "uint64 \<Rightarrow> ShardHeader" where
  "ex_header h = \<lparr>sh_ProducerAddress = ex_addr, sh_ShardID = 0, sh_Version = 1, sh_PrevBlockHash = zero_hash, sh_Height = h, sh_Round = 1, sh_Epoch = 1,
     sh_Timestamp = 0, sh_TxRoot = zero_hash, sh_ShardTxRoot = zero_hash, sh_CrossTransactionRoot = zero_hash, sh_InstructionsRoot = zero_hash,
     sh_CommitteeRoot = zero_hash, sh_PendingValidatorRoot = zero_hash, sh_CrossShards = [], sh_BeaconHeight = 1, sh_BeaconHash = zero_hash\<rparr>"

definition ex_block :: "uint64 \<Rightarrow> 'b \<Rightarrow> 'b ShardBlock" where
  "ex_block h body = \<lparr>sb_AggregatedSig = [], sb_R = [], sb_ValidatorsIdx = [], sb_ProducerSig = [], sb_Body = body, sb_Header = ex_header h\<rparr>"

definition ex_pdesc :: "(unit, unit, unit, unit, unit) pdesc" where
  "ex_pdesc = \<lparr>de_Tx = NormalTx ex_tx, de_Height = 1, de_Fee = 1000, de_FeePerKB = 0, de_StartTime = 0, de_IsFowardMessage = False\<rparr>"

definition ex_ot :: "uint64 \<Rightarrow> observedTransaction" where
  "ex_ot m = \<lparr>ot_hash = HashH ex_digest (bytes_of_string (decimal 1 @ decimal 0 @ decimal 0)), ot_feeRate = NewCoinPerKilobyte 0 1000 1, ot_observed = 1, ot_mined = m\<rparr>"

definition ex_rb :: "uint64 \<Rightarrow> registeredBlock" where
  "ex_rb h = \<lparr>rb_hash = ShardBlock_Hash ex_digest (ex_block h ()), rb_transactions = []\<rparr>"

definition ex_fe1 :: FeeEstimator where
  "ex_fe1 = (NewFeeEstimator 5 0)\<lparr>fe_lastKnownHeight := 1, fe_numBlocksRegistered := 1, fe_dropped := [ex_rb 1]\<rparr>"

definition ex_fe2 :: FeeEstimator where
  "ex_fe2 = ex_fe1\<lparr>fe_heap := [ex_ot UnminedHeight], fe_observed := fmupd (ot_hash (ex_ot 0)) 0 fmempty\<rparr>"

definition ex_fe3 :: FeeEstimator where
  "ex_fe3 = ex_fe2\<lparr>fe_lastKnownHeight := 2, fe_numBlocksRegistered := 2, fe_dropped := [ex_rb 1, ex_rb 2],
     fe_heap := [ex_ot 2], fe_bin := [0] # replicate 24 []\<rparr>"

lemma ex_tx_hash: "Tx_Hash ex_env ex_tx = Inr (ot_hash (ex_ot m))"
  by (simp add: Tx_Hash_def Tx_String_def ex_tx_def andThen_def ex_env_def ex_ot_def itoa_def)

lemma ex_register1: "RegisterBlock ex_env (\<lambda>_ _. 0) id (ex_block 1 []) (NewFeeEstimator 5 0) = Inr (ex_fe1, False)"
  by (simp add: RegisterBlock_def RegisterBlock_hashes_def ex_block_def ex_header_def NewFeeEstimator_def andThen_def push_dropped_def forget_old_def
      ex_fe1_def ex_rb_def ShardBlock_Hash_def ex_env_def)

lemma ex_tx_size: "Tx_GetTxActualSize ex_env ex_tx = Inr 1"
  by (simp add: Tx_GetTxActualSize_def proof_bytes_def ex_tx_def andThen_def nil_bytes_def meta_size_def kilobytes_def)

lemma ex_observe: "ObserveTransaction ex_env 0 ex_pdesc ex_fe1 = Inr ex_fe2"
  by (simp add: ObserveTransaction_def ex_fe2_def ex_fe1_def ex_pdesc_def NewFeeEstimator_def UnminedHeight_def andThen_def Transaction_Hash_def
      ex_tx_hash [of 0] Transaction_GetTxActualSize_def ex_tx_size ex_ot_def)

lemma ex_payments: "block_payments [NormalTx ex_tx] = Inr [ex_tx]"
  by (simp add: GetType_def Transaction_base_def ex_tx_def TxNormalType_def andThen_def)

lemma ex_bins: "replicate estimateFeeDepth x = x # replicate 24 x"
  by (simp add: estimateFeeDepth_def numeral_eq_Suc)

lemma ex_register_tx: "register_tx rand 2 (ot_hash (ex_ot 0)) (ex_fe2\<lparr>fe_lastKnownHeight := 2, fe_numBlocksRegistered := 2\<rparr>, replicate estimateFeeDepth 0, [])
  = Inr (Some (ex_fe3\<lparr>fe_dropped := [ex_rb 1]\<rparr>, 1 # replicate 24 0, []))"
  by (simp add: register_tx_def ex_fe2_def ex_fe1_def ex_fe3_def NewFeeEstimator_def ex_ot_def estimateFeeMaxReplacements_def estimateFeeBinSize_def put_in_bin_def
      ex_bins andThen_def set_mined_def UnminedHeight_def) (simp add: estimateFeeDepth_def put_in_bin_def andThen_def set_mined_def)

lemma ex_register2: "RegisterBlock ex_env (\<lambda>_ _. 0) id (ex_block 2 [NormalTx ex_tx]) ex_fe2 = Inr (ex_fe3, False)"
proof -
  have "fe_lastKnownHeight ex_fe2 = 1" "ex_fe2\<lparr>fe_cached := None\<rparr> = ex_fe2" "fe_numBlocksRegistered ex_fe2 = 1"
    by (simp_all add: ex_fe2_def ex_fe1_def NewFeeEstimator_def)
  then show ?thesis
    using ex_register_tx [of "\<lambda>_ _. 0"]
    by (simp add: RegisterBlock_def RegisterBlock_hashes_def ex_block_def ex_header_def ex_payments andThen_def ex_tx_hash [of 0] del: block_payments.simps)
      (simp add: push_dropped_def forget_old_def ex_fe3_def ex_fe2_def ex_fe1_def NewFeeEstimator_def ex_rb_def ShardBlock_Hash_def ex_env_def ex_block_def ex_header_def ex_ot_def UnminedHeight_def)
qed

lemma ex_reachable: "fe_reachable ex_env 0 ex_fe2" "fe_reachable ex_env 0 ex_fe3"
proof -
  have rand: "in_range (\<lambda>_ _. 0)" by (simp add: in_range_def)
  have "fe_reachable ex_env 0 ex_fe1"
    by (rule fe_reachable.registered [OF fe_reachable.created rand _ _ ex_register1]) (simp_all add: ex_block_def ex_header_def UnminedHeight_def)
  then show "fe_reachable ex_env 0 ex_fe2" using ex_observe by (rule fe_reachable.observed)
  then show "fe_reachable ex_env 0 ex_fe3"
    by (rule fe_reachable.registered [OF _ rand _ _ ex_register2]) (simp_all add: ex_block_def ex_header_def UnminedHeight_def)
qed

section \<open>Properties\<close>

text \<open>C35: The bins of the fee estimator: after any sequence of operations there are 25 bins of at most 100 transactions, no
  transaction is in two places, and the transactions of bin \<open>b\<close> are mined ones that waited for \<open>b + 1\<close> blocks and that the map
  \<open>observed\<close> holds under their hash.
\<close>

theorem fee_bins_invariant:
  assumes "fe_reachable E overflow ef"
  shows "length (fe_bin ef) = 25 \<and> distinct (concat (fe_bin ef))
    \<and> (\<forall>b<25. length (fe_bin ef ! b) \<le> 100 \<and> (\<forall>r\<in>set (fe_bin ef ! b). \<exists>ot. r < length (fe_heap ef) \<and> fe_heap ef ! r = ot
        \<and> ot_mined ot \<noteq> UnminedHeight \<and> unat (ot_mined ot - ot_observed ot) = b + 1 \<and> fmlookup (fe_observed ef) (ot_hash ot) = Some r))"
proof -
  have ok: "bins_ok ef" "fe_binSize ef = estimateFeeBinSize" using reachable_ok [OF assms] by (simp_all add: estimator_ok_def fe_inv_bins)
  have "length (fe_bin ef) = 25" "distinct (concat (fe_bin ef))" using ok(1) by (simp_all add: bins_ok_def sorted_in_def estimateFeeDepth_def)
  moreover have "length (fe_bin ef ! b) \<le> 100" if "b < 25" for b
    using ok that unfolding bins_ok_def estimateFeeDepth_def by (fastforce simp: estimateFeeBinSize_def)
  moreover have "r < length (fe_heap ef) \<and> ot_mined (fe_heap ef ! r) \<noteq> UnminedHeight \<and> unat (ot_mined (fe_heap ef ! r) - ot_observed (fe_heap ef ! r)) = b + 1
      \<and> fmlookup (fe_observed ef) (ot_hash (fe_heap ef ! r)) = Some r" if b: "b < 25" and r: "r \<in> set (fe_bin ef ! b)" for b r
  proof -
    have "r \<in> set (concat (fe_bin ef))" using in_bin [OF _ r] b \<open>length (fe_bin ef) = 25\<close> by simp
    then have "tracked ef r" "mined (fe_heap ef) r \<noteq> UnminedHeight" using ok(1) unfolding bins_ok_def by blast+
    moreover have "waited (fe_heap ef) r = b" using ok(1) b r unfolding bins_ok_def sorted_in_def estimateFeeDepth_def by blast
    then have "unat (ot_mined (fe_heap ef ! r) - ot_observed (fe_heap ef ! r)) = b + 1"
      using b by (subst diff_add_cancel [symmetric, of _ 1], subst unat_word_ariths) (simp add: waited_def)
    ultimately show ?thesis by (simp add: tracked_def mined_def)
  qed
  ultimately show ?thesis by blast
qed

theorem fee_bins_invariant_witness:
  "length (fe_bin ex_fe3) = 25 \<and> length (fe_bin ex_fe3 ! 0) \<le> 100 \<and> 0 \<in> set (fe_bin ex_fe3 ! 0)
    \<and> unat (ot_mined (fe_heap ex_fe3 ! 0) - ot_observed (fe_heap ex_fe3 ! 0)) = 1"
proof -
  have "0 \<in> set (fe_bin ex_fe3 ! 0)" by (simp add: ex_fe3_def)
  then show ?thesis using fee_bins_invariant [OF ex_reachable(2)] by force
qed

text \<open>C9: Rolling back returns after regular histories: in every state that a new estimator reaches by observing transactions, by registrations of
  blocks of heights from 1 to below \<open>UnminedHeight\<close> that do not stop with the error \<open>already mined\<close>, by estimating and by rolling back (\<open>fe_reachable\<close>), \<open>Rollback\<close> returns without a panic, with an error exactly when the block
  is not on the stack of the last registered blocks. A registration that does stop with that error, and an estimator read back from the database,
  lead out of these states, and there \<open>rollback\<close> can panic.
\<close>

theorem fee_rollback_total:
  assumes "fe_reachable E overflow ef"
  shows "\<exists>ef'. Rollback h ef = Inr (ef', h \<notin> rb_hash ` set (fe_dropped ef))"
proof -
  have inv: "fe_inv ef" using reachable_ok [OF assms] by (simp add: estimator_ok_def)
  have "depth_of h bs = None \<longleftrightarrow> h \<notin> rb_hash ` set bs" for bs by (induction bs) auto
  then have "depth_of h (rev (fe_dropped ef)) = None \<longleftrightarrow> h \<notin> rb_hash ` set (fe_dropped ef)" by simp
  then show ?thesis using fe_inv_rollbacks [OF inv] depth_of_le [of h "rev (fe_dropped ef)"]
    by (cases "depth_of h (rev (fe_dropped ef))") (fastforce simp: Rollback_def andThen_def)+
qed

theorem fee_rollback_total_witness: "\<exists>ef'. Rollback (rb_hash (ex_rb 1)) ex_fe3 = Inr (ef', False)"
  using fee_rollback_total [OF ex_reachable(2), of "rb_hash (ex_rb 1)"] by (simp add: ex_fe3_def)

text \<open>C8: Rolling back undoes registering: when a reachable estimator that keeps blocks for rollback registers a block and
  rolls it back, every observed transaction has its old mark, every bin holds the same transactions as before, and the estimates
  and the number of registered blocks are the old ones.
\<close>

theorem fee_register_rollback:
  assumes "fe_reachable E overflow ef" and "fe_maxRollback ef \<noteq> 0" and "in_range rand"
    and "1 \<le> sh_Height (sb_Header block)" and "sh_Height (sb_Header block) < UnminedHeight"
    and "RegisterBlock E rand order block ef = Inr (ef', False)"
  shows "\<exists>ef''. Rollback (ShardBlock_Hash (te_sum256 E) block) ef' = Inr (ef'', False)
    \<and> fe_heap ef'' = fe_heap ef \<and> (\<forall>b<25. mset (fe_bin ef'' ! b) = mset (fe_bin ef ! b))
    \<and> estimates overflow ef'' = estimates overflow ef \<and> fe_numBlocksRegistered ef'' = fe_numBlocksRegistered ef
    \<and> fe_lastKnownHeight ef'' = sh_Height (sb_Header block) - 1"
proof -
  let ?h = "sh_Height (sb_Header block)" and ?bh = "ShardBlock_Hash (te_sum256 E) block"
  have inv: "fe_inv ef" using reachable_ok [OF assms(1)] by (simp add: estimator_ok_def)
  have ne: "?h \<noteq> UnminedHeight" using assms(5) by simp
  from RegisterBlock_ok_registered [OF fe_inv_bins [OF inv] assms(3) ne assms(6)] obtain added out
    where r: "registered ?bh ?h ef ef' added out" and new: "?h = fe_lastKnownHeight ef + 1 \<or> fe_lastKnownHeight ef = UnminedHeight" .
  have inv': "fe_inv ef'" by (rule fe_inv_registered [OF inv r assms(4,5) new])
  from registered_stack [OF r assms(2)] obtain D0 where D: "fe_dropped ef' = D0 @ [\<lparr>rb_hash = ?bh, rb_transactions = map Some out\<rparr>]" by blast
  then obtain ef'' where e: "rollback ef' = Inr ef''" "undone ef' ef'' out" using rollback_undone [OF inv'] by auto
  have "Rollback ?bh ef' = Inr (ef'', False)" using e(1) by (simp add: Rollback_def D andThen_def)
  moreover note undo = register_undone [OF inv r assms(4) ne new e(2)]
  moreover have "length (fe_bin ef'') = estimateFeeDepth" using e(2) by (simp add: undone_def Let_def sorted_in_def)
  then have "estimates overflow ef'' = estimates overflow ef" using undo by (intro estimates_cong) (simp_all add: bins_depth [OF inv])
  ultimately show ?thesis using undone_fields [OF e(2)] registered_fields [OF r] registered_facts(6) [OF inv r ne]
    by (auto simp: estimateFeeDepth_def)
qed

theorem fee_register_rollback_witness:
  "\<exists>ef''. Rollback (ShardBlock_Hash ex_digest (ex_block 2 [NormalTx ex_tx])) ex_fe3 = Inr (ef'', False)
    \<and> fe_heap ef'' = [ex_ot UnminedHeight] \<and> fe_bin ef'' ! 0 = []"
proof -
  have "in_range (\<lambda>_ _. 0)" by (simp add: in_range_def)
  from fee_register_rollback [OF ex_reachable(1) _ this _ _ ex_register2] obtain ef''
    where "Rollback (ShardBlock_Hash (te_sum256 ex_env) (ex_block 2 [NormalTx ex_tx])) ex_fe3 = Inr (ef'', False)"
      "fe_heap ef'' = fe_heap ex_fe2" "\<forall>b<25. mset (fe_bin ef'' ! b) = mset (fe_bin ex_fe2 ! b)"
    by (auto simp: ex_block_def ex_header_def UnminedHeight_def ex_fe2_def ex_fe1_def NewFeeEstimator_def)
  moreover have "te_sum256 ex_env = ex_digest" "fe_heap ex_fe2 = [ex_ot UnminedHeight]" "fe_bin ex_fe2 ! 0 = []"
    by (simp_all add: ex_env_def ex_fe2_def ex_fe1_def NewFeeEstimator_def ex_bins)
  ultimately show ?thesis by (metis mset_zero_iff zero_less_numeral)
qed

text \<open>Waiting longer is never dearer: the fee rate that a reachable estimator returns for more blocks is at most the one
  it returns for fewer.
\<close>

theorem fee_estimate_antimono:
  assumes "fe_reachable E overflow ef" and "m \<le> n" and "snd (EstimateFee overflow m ef) = Inr x" and "snd (EstimateFee overflow n ef) = Inr y"
  shows "y \<le> x"
proof -
  let ?rs = "sort (map (\<lambda>r. ot_feeRate (fe_heap ef ! r)) (concat (fe_bin ef)))" and ?k = "fee_index (map length (fe_bin ef))"
  have ok: "estimator_ok overflow ef" by (rule reachable_ok [OF assms(1)])
  then have len: "length (fe_bin ef) = estimateFeeDepth" by (simp add: estimator_ok_def bins_depth)
  have "length (fe_bin ef ! b) \<le> 100" if "b < estimateFeeDepth" for b
    using ok that unfolding estimator_ok_def fe_inv_def bins_ok_def by (fastforce simp: estimateFeeBinSize_def)
  then have "\<forall>b<estimateFeeDepth. length (fe_bin ef ! b) < 2 ^ 32" by force
  note nth = estimates_nth [OF len this]
  have val: "unat q - 1 < estimateFeeDepth \<and> z = estimates overflow ef ! (unat q - 1)" if "snd (EstimateFee overflow q ef) = Inr z" for q z
  proof -
    have "unat q \<noteq> 0" if "q \<noteq> 0" using that by (simp add: unat_eq_zero)
    then show ?thesis using that ok by (auto simp: EstimateFee_def estimator_ok_def cached_ok_def Let_def split: if_splits option.splits)
  qed
  have i: "unat m - 1 \<le> unat n - 1" using assms(2) by (simp add: word_le_nat_alt diff_le_mono)
  then have "?k (unat m - 1) \<le> ?k (unat n - 1)" using val [OF assms(4)] len by (intro fee_index_mono) simp_all
  then have le: "min (?k (unat m - 1)) (length ?rs - 1) \<le> min (?k (unat n - 1)) (length ?rs - 1)" by simp
  have desc: "rev ?rs ! j \<le> rev ?rs ! i" if "i \<le> j" "j < length ?rs" for i j
    using that sorted_sort [of "map (\<lambda>r. ot_feeRate (fe_heap ef ! r)) (concat (fe_bin ef))"]
    by (auto simp: rev_nth intro!: sorted_nth_mono simp del: length_sort)
  have at: "z = (if ?rs = [] then 0 else rev ?rs ! min (?k (unat q - 1)) (length ?rs - 1))" if "snd (EstimateFee overflow q ef) = Inr z" for q z
    using val [OF that] nth [of "unat q - 1" overflow] by (simp add: Let_def del: length_sort)
  have "min k (length ?rs - 1) < length ?rs" if "?rs \<noteq> []" for k using that by (cases ?rs) (simp_all add: min_less_iff_disj del: length_sort)
  then show ?thesis using desc [OF le] unfolding at [OF assms(3)] at [OF assms(4)] by (auto simp del: length_sort)
qed

theorem fee_estimate_antimono_witness:
  "\<exists>x y. snd (EstimateFee 0 1 ex_fe3) = Inr x \<and> snd (EstimateFee 0 25 ex_fe3) = Inr y \<and> y \<le> x"
proof -
  have "\<exists>x. snd (EstimateFee 0 n ex_fe3) = Inr x" if "n = 1 \<or> n = 25" for n
    using that by (auto simp: EstimateFee_def ex_fe3_def ex_fe2_def ex_fe1_def NewFeeEstimator_def estimateFeeDepth_def Let_def)
  then obtain x y where "snd (EstimateFee 0 1 ex_fe3) = Inr x" "snd (EstimateFee 0 25 ex_fe3) = Inr y" by blast
  moreover from fee_estimate_antimono [OF ex_reachable(2) _ this] have "y \<le> x" by simp
  ultimately show ?thesis by blast
qed

end
