(* ===== verification/Mempool_DB.thy ===== *)
theory Mempool_DB
  imports Tx_DB Go_Strings
begin

text \<open>
  The database of the transaction pool (\<open>src/databasemp\<close>): the LevelDB layer of
  \<open>src/databasemp/lvdb/db.go\<close>, the table of pooled transactions of \<open>src/databasemp/lvdb/tx.go\<close> and the registry
  of drivers of \<open>src/databasemp/driver.go\<close>. LevelDB is the parameter of \<open>Level_DB\<close>, and the error codes are those
  of \<open>Level_DB\<close>, which the package \<open>databasemp\<close> declares again with the same names.
\<close>

section \<open>The LevelDB layer\<close>

definition mp_HasValue :: "'s leveldb \<Rightarrow> bytes \<Rightarrow> 's \<Rightarrow> db_error + bool" where
  "mp_HasValue D key s = (case ldb_Has D key s of None \<Rightarrow> Inl NotExistValue | Some ret \<Rightarrow> Inr ret)"

definition mp_Put :: "'s leveldb \<Rightarrow> bytes \<Rightarrow> bytes \<Rightarrow> 's \<Rightarrow> 's stored" where
  "mp_Put D key v s = (case ldb_Put D key v s of None \<Rightarrow> (s, Some UnexpectedError) | Some s' \<Rightarrow> (s', None))"

definition mp_Delete :: "'s leveldb \<Rightarrow> bytes \<Rightarrow> 's \<Rightarrow> 's stored" where
  "mp_Delete D key s = (case ldb_Delete D key s of None \<Rightarrow> (s, Some UnexpectedError) | Some s' \<Rightarrow> (s', None))"

definition mp_Get :: "'s leveldb \<Rightarrow> bytes \<Rightarrow> 's \<Rightarrow> db_error + bytes" where
  "mp_Get D key s = (case ldb_Get D key s of Inl _ \<Rightarrow> Inl LvDbNotFound | Inr v \<Rightarrow> Inr v)"

section \<open>The table of transactions\<close>

definition txKeyPrefix :: bytes where "txKeyPrefix = bytes_of_string ''tx-''"

definition mp_Splitter :: bytes where "mp_Splitter = bytes_of_string ''-[-]-''"

definition mp_GetKey :: "hash \<Rightarrow> bytes" where
  "mp_GetKey key = txKeyPrefix @ key"

definition mp_AddTransaction :: "'s leveldb \<Rightarrow> hash \<Rightarrow> string \<Rightarrow> bytes \<Rightarrow> bytes \<Rightarrow> 's \<Rightarrow> 's stored" where
  "mp_AddTransaction D txHash txType valueTx valueDesc s =
     (case ldb_Put D (mp_GetKey txHash) (bytes_of_string txType @ mp_Splitter @ valueTx @ mp_Splitter @ valueDesc) s of
        None \<Rightarrow> (s, Some UnexpectedError) | Some s' \<Rightarrow> (s', None))"

definition mp_RemoveTransaction :: "'s leveldb \<Rightarrow> hash \<Rightarrow> 's \<Rightarrow> 's stored" where
  "mp_RemoveTransaction D txHash s =
     (case ldb_Delete D (mp_GetKey txHash) s of None \<Rightarrow> (s, Some UnexpectedError) | Some s' \<Rightarrow> (s', None))"

definition mp_GetTransaction :: "'s leveldb \<Rightarrow> hash \<Rightarrow> 's \<Rightarrow> db_error + bytes" where
  "mp_GetTransaction D txHash s = (case ldb_Get D (mp_GetKey txHash) s of Inl _ \<Rightarrow> Inl UnexpectedError | Inr v \<Rightarrow> Inr v)"

definition mp_HasTransaction :: "'s leveldb \<Rightarrow> hash \<Rightarrow> 's \<Rightarrow> db_error + bool" where
  "mp_HasTransaction D txHash s = (case ldb_Has D (mp_GetKey txHash) s of None \<Rightarrow> Inl NotExistValue | Some ret \<Rightarrow> Inr ret)"

definition mp_Reset :: "'s leveldb \<Rightarrow> 's \<Rightarrow> 's stored" where
  "mp_Reset D s =
     (let (kvs, err) = ldb_Iterate D txKeyPrefix s
      in andStore (delete_all D (map fst kvs) s) (\<lambda>s'. (s', if err then Some UnexpectedError else None)))"

definition mp_Load :: "'s leveldb \<Rightarrow> 's \<Rightarrow> bytes list \<times> bytes list \<times> db_error option" where
  "mp_Load D s =
     (let (kvs, err) = ldb_Iterate D txKeyPrefix s in (map fst kvs, map snd kvs, if err then Some UnexpectedError else None))"

section \<open>Drivers\<close>

text \<open>A driver is the function that opens a database; \<open>args\<close> are the arguments of \<open>Open\<close>.\<close>

type_synonym ('arg, 'db) Driver = "'arg list \<Rightarrow> db_error + 'db"

definition RegisterDriver :: "string \<Rightarrow> ('arg, 'db) Driver \<Rightarrow> (string, ('arg, 'db) Driver) fmap
   \<Rightarrow> (string, ('arg, 'db) Driver) fmap \<times> db_error option" where
  "RegisterDriver DbType d drivers =
     (if fmlookup drivers DbType \<noteq> None then (drivers, Some DriverExistErr) else (fmupd DbType d drivers, None))"

definition Open :: "(string, ('arg, 'db) Driver) fmap \<Rightarrow> string \<Rightarrow> 'arg list \<Rightarrow> db_error + 'db" where
  "Open drivers t args = (case fmlookup drivers t of None \<Rightarrow> Inl DriverNotRegisterErr | Some d \<Rightarrow> d args)"

section \<open>Facts\<close>

interpretation mp: db_table mp_GetKey "\<lambda>_. True"
  by unfold_locales (simp add: mp_GetKey_def)

lemma stores_mp_AddTransaction: "leveldb_spec D \<Longrightarrow>
  stores D (mp_AddTransaction D h ty t d s)
    ((ldb_lookup D s)(mp_GetKey h \<mapsto> bytes_of_string ty @ mp_Splitter @ t @ mp_Splitter @ d))"
  using stores_db_Put [of D "mp_GetKey h" "bytes_of_string ty @ mp_Splitter @ t @ mp_Splitter @ d" s] by (simp add: mp_AddTransaction_def db_Put_def)

lemma stores_mp_RemoveTransaction: "leveldb_spec D \<Longrightarrow> stores D (mp_RemoveTransaction D h s) ((ldb_lookup D s)(mp_GetKey h := None))"
  using stores_db_Delete [of D "mp_GetKey h" s] by (simp add: mp_RemoveTransaction_def db_Delete_def)

lemma mp_GetTransaction_lookup: "leveldb_spec D \<Longrightarrow>
  mp_GetTransaction D h s = (case ldb_lookup D s (mp_GetKey h) of None \<Rightarrow> Inl UnexpectedError | Some v \<Rightarrow> Inr v)"
  by (simp add: mp_GetTransaction_def ldb_Get_lookup split: option.splits)

lemma mp_HasTransaction_lookup: "leveldb_spec D \<Longrightarrow> mp_HasTransaction D h s = Inr (ldb_lookup D s (mp_GetKey h) \<noteq> None)"
  by (simp add: mp_HasTransaction_def ldb_Has_lookup)

lemma stores_mp_Reset:
  assumes "leveldb_spec D"
  shows "stores D (mp_Reset D s) (\<lambda>k. if prefix txKeyPrefix k then None else ldb_lookup D s k)"
proof -
  note it = ldb_Iterate_lookup [OF assms, of txKeyPrefix s]
  let ?ks = "map fst (fst (ldb_Iterate D txKeyPrefix s))"
  have "(\<lambda>k. if k \<in> set ?ks then None else ldb_lookup D s k) = (\<lambda>k. if prefix txKeyPrefix k then None else ldb_lookup D s k)"
    using it(3) by (auto simp: fun_eq_iff image_iff)
  then have "stores D (delete_all D ?ks s) (\<lambda>k. if prefix txKeyPrefix k then None else ldb_lookup D s k)"
    using stores_delete_all [OF assms, of ?ks s] by simp
  then show ?thesis using it(1) unfolding mp_Reset_def case_prod_beta Let_def
    by (intro stores_andStore [where m = "\<lambda>k. if prefix txKeyPrefix k then None else ldb_lookup D s k"]) (simp_all add: stores_def)
qed

text \<open>Splitting a text at a separator that does not occur in its first part, nor across its end.\<close>

lemma split_str_first:
  assumes "sep \<noteq> []" and "\<not> sublist sep (w @ butlast sep)"
  shows "split_str sep (w @ sep @ s) = w # split_str sep s"
  using assms(2)
proof (induction w)
  case Nil
  then show ?case using assms(1) by (subst split_str.simps) simp
next
  case (Cons c cs)
  have "take (length sep) (c # cs @ sep @ s) \<noteq> sep"
  proof
    assume t: "take (length sep) (c # cs @ sep @ s) = sep"
    have "c # cs @ sep @ s = (c # cs @ butlast sep) @ last sep # s" using append_butlast_last_id [OF assms(1)] by (metis append.assoc append_Cons append_Nil)
    then have "take (length sep) (c # cs @ sep @ s) = take (length sep) (c # cs @ butlast sep)" by (simp only: take_append) simp
    with t have "prefix sep (c # cs @ butlast sep)" by (metis take_is_prefix)
    then show False using Cons.prems by (simp add: prefix_imp_sublist)
  qed
  moreover have "\<not> sublist sep (cs @ butlast sep)" using Cons.prems by (auto simp: sublist_Cons_right)
  ultimately show ?case using Cons.IH by (subst split_str.simps) simp
qed

lemma split_str_none: "\<not> sublist sep s \<Longrightarrow> split_str sep s = [s]"
proof (induction s)
  case Nil
  then show ?case by (subst split_str.simps) auto
next
  case (Cons c cs)
  have "take (length sep) (c # cs) \<noteq> sep" using Cons.prems by (metis prefix_imp_sublist take_is_prefix)
  moreover have "\<not> sublist sep cs" using Cons.prems by (auto simp: sublist_Cons_right)
  ultimately show ?case using Cons.IH by (subst split_str.simps) simp
qed

end
