(* ===== verification/Tx_Pool.thy ===== *)
theory Tx_Pool
  imports Fee_Estimator Mempool_DB
begin

text \<open>
  The transaction pool (\<open>src/mempool/mempool.go\<close>, \<open>src/mempool/mempool_shardtxs.go\<close>,
  \<open>src/mempool/mempool_persistence.go\<close>, \<open>src/mempool/policy.go\<close>, \<open>src/mempool/error.go\<close>). The pool is a record; an
  operation that changes it returns the new pool, and a panic is a \<open>fault\<close>. The operations that
  accept, look up or remove transactions and the monitor hold \<open>mtx\<close> from their first to their last access; the lists of
  candidates, of token ids and of coin hashes have locks of their own. \<open>EmptyPool\<close> takes only those, and \<open>MarkFowardedTransaction\<close>,
  \<open>ValidateTxList\<close> and some getters (\<open>Count\<close>, \<open>ListTxs\<close>, \<open>GetSerialNumbers\<close>, \<open>GetTxsInMem\<close>) take none. That each operation is one atomic step is
  therefore an assumption of the model; what Go allows between the accesses of these operations is not modelled.

  Parameters: the transactions' environment, LevelDB and the JSON codec in \<open>pool_env\<close>, the blockchain as the pool
  sees it in \<open>chain_now\<close>, and the time \<open>now\<close> in nanoseconds. \<open>pv_ord\<close> is the order in which a map with the given keys is
  visited. What a goroutine sends on a channel is appended to the channel's list. Logging and the
  metrics that are sent to a time series database are left out, but not the sizes that are computed for them.
\<close>

section \<open>Errors\<close>

definition RejectDuplicateTx :: nat where "RejectDuplicateTx = 0"
definition RejectInvalidTx :: nat where "RejectInvalidTx = 1"
definition RejectSansityTx :: nat where "RejectSansityTx = 2"
definition RejectSalaryTx :: nat where "RejectSalaryTx = 3"
definition RejectDuplicateStakeTx :: nat where "RejectDuplicateStakeTx = 4"
definition RejectDuplicateInitTokenTx :: nat where "RejectDuplicateInitTokenTx = 5"
definition RejectVersion :: nat where "RejectVersion = 6"
definition RejectInvalidFee :: nat where "RejectInvalidFee = 7"
definition RejectInvalidSize :: nat where "RejectInvalidSize = 8"

text \<open>The codes and messages of the table, by key; an absent key reads as the zero value.\<close>

definition ErrCodeMessage :: "nat \<Rightarrow> int \<times> string" where
  "ErrCodeMessage key = (case map_of
     [(0, -1000, ''Reject duplicate tx''), (1, -1001, ''Reject invalid tx''), (2, -1002, ''Reject not sansity tx''),
      (3, -1003, ''Reject salary tx''), (7, -1004, ''Reject invalid fee''), (6, -1005, ''Reject invalid version''),
      (9, -1006, ''Can not check double spend''), (10, -1007, ''Database Error''), (11, -1007, ''ShardToBeaconBool Error''),
      (4, -1008, ''Reject Duplicate Stake Error''), (12, -1009, ''Duplicate Block Error''), (13, -1010, ''Old Block Error''),
      (14, -1011, ''Max Pool Size Error'')] key
     of None \<Rightarrow> (0, []) | Some e \<Rightarrow> e)"

text \<open>An error of the pool with its code and message, an error of a validation, or a plain one.\<close>

datatype pool_error = MempoolTxError int string | PoolTxError tx_error | PoolErr string

definition Init_err :: "nat \<Rightarrow> pool_error" where
  "Init_err key = (case ErrCodeMessage key of (code, message) \<Rightarrow> MempoolTxError code message)"

section \<open>State\<close>

record TempDesc =
  tm_StartTime :: int
  tm_IsPushMessage :: bool
  tm_Height :: uint64
  tm_Fee :: uint64
  tm_FeePerKB :: int

record ('f, 'm) json_ops =
  js_MarshalTx :: "('f, 'm) Transaction \<Rightarrow> bytes option"
  js_UnmarshalTx :: "bytes \<Rightarrow> ('f, 'm) Tx option"
  js_UnmarshalToken :: "bytes \<Rightarrow> ('f, 'm) TxCustomToken option"
  js_UnmarshalPrivacy :: "bytes \<Rightarrow> ('f, 'm) TxCustomTokenPrivacy option"
  js_MarshalDesc :: "TempDesc \<Rightarrow> bytes option"
  js_UnmarshalDesc :: "bytes \<Rightarrow> TempDesc option"

record ('o, 's, 'n, 'a, 'm, 'd, 'e) pool_env =
  pv_E :: "('o, 's, 'n, 'a, 'm) tx_env"
  pv_D :: "'d leveldb"
  pv_M :: "'e leveldb"
  pv_js :: "((point, 'o, 's, 'n, 'a) PaymentProof, 'm) json_ops"
  pv_overflow :: uint64
  pv_ord :: "hash fset \<Rightarrow> hash list"

record ('f, 'm, 'd) chain_now =
  cx_view :: "('f, 'm) chain_view"
  cx_db :: 'd
  cx_best :: "byte \<Rightarrow> uint64 option"

type_synonym ('o, 's, 'n, 'a, 'm, 'd) pchain = "((point, 'o, 's, 'n, 'a) PaymentProof, 'm, 'd) chain_now"

record ('f, 'm, 'e) TxPool =
  tp_lastUpdated :: int
  tp_FeeEstimator :: "(byte, FeeEstimator) fmap option"
  tp_TxLifeTime :: uint64
  tp_MaxTx :: uint64
  tp_IsLoadFromMempool :: bool
  tp_PersistMempool :: bool
  tp_RelayShards :: bytes
  tp_DataBaseMempool :: 'e
  tp_pool :: "(hash, ('f, 'm) TxDesc) fmap"
  tp_poolSerialNumbers :: "(hash, bytes list) fmap"
  tp_txCoinHashHPool :: "(hash, hash list) fmap"
  tp_coinHashHPool :: "(hash, bool) fmap"
  tp_CandidatePool :: "(hash, string) fmap"
  tp_TokenIDPool :: "(hash, string) fmap"
  tp_RoleInCommittees :: int
  tp_IsBlockGenStarted :: bool
  tp_cCacheTx :: "hash list"
  tp_CPendingTxs :: "('f, 'm) Transaction list"

type_synonym ('o, 's, 'n, 'a, 'm, 'e) pool = "((point, 'o, 's, 'n, 'a) PaymentProof, 'm, 'e) TxPool"

record 'e Config =
  cf_FeeEstimator :: "(byte, FeeEstimator) fmap option"
  cf_TxLifeTime :: uint64
  cf_MaxTx :: uint64
  cf_IsLoadFromMempool :: bool
  cf_PersistMempool :: bool
  cf_RelayShards :: bytes
  cf_DataBaseMempool :: 'e

definition TxPool_Init :: "'e Config \<Rightarrow> ('f, 'm, 'e) TxPool" where
  "TxPool_Init cfg =
     \<lparr>tp_lastUpdated = 0, tp_FeeEstimator = cf_FeeEstimator cfg, tp_TxLifeTime = cf_TxLifeTime cfg, tp_MaxTx = cf_MaxTx cfg,
      tp_IsLoadFromMempool = cf_IsLoadFromMempool cfg, tp_PersistMempool = cf_PersistMempool cfg, tp_RelayShards = cf_RelayShards cfg,
      tp_DataBaseMempool = cf_DataBaseMempool cfg, tp_pool = fmempty, tp_poolSerialNumbers = fmempty, tp_txCoinHashHPool = fmempty,
      tp_coinHashHPool = fmempty, tp_CandidatePool = fmempty, tp_TokenIDPool = fmempty, tp_RoleInCommittees = -1,
      tp_IsBlockGenStarted = False, tp_cCacheTx = [], tp_CPendingTxs = []\<rparr>"

section \<open>Reading the pool\<close>

definition isTxInPool :: "hash \<Rightarrow> ('f, 'm, 'e) TxPool \<Rightarrow> bool" where
  "isTxInPool h tp \<longleftrightarrow> fmlookup (tp_pool tp) h \<noteq> None"

definition HaveTransaction :: "hash \<Rightarrow> ('f, 'm, 'e) TxPool \<Rightarrow> bool" where
  "HaveTransaction h tp = isTxInPool h tp"

definition pool_descs :: "(hash fset \<Rightarrow> hash list) \<Rightarrow> ('f, 'm, 'e) TxPool \<Rightarrow> ('f, 'm) TxDesc list" where
  "pool_descs ord tp = range_values (tp_pool tp) (ord (fmdom (tp_pool tp)))"

definition GetSerialNumbers :: "(hash fset \<Rightarrow> hash list) \<Rightarrow> ('f, 'm, 'e) TxPool \<Rightarrow> bytes list list" where
  "GetSerialNumbers ord tp = range_values (tp_poolSerialNumbers tp) (ord (fmdom (tp_poolSerialNumbers tp)))"

definition GetTxsInMem :: "(hash fset \<Rightarrow> hash list) \<Rightarrow> ('f, 'm, 'e) TxPool \<Rightarrow> ('f, 'm) Transaction list" where
  "GetTxsInMem ord tp = map de_Tx (pool_descs ord tp)"

definition GetTx :: "hash \<Rightarrow> ('f, 'm, 'e) TxPool \<Rightarrow> pool_error + ('f, 'm) Transaction" where
  "GetTx h tp = (case fmlookup (tp_pool tp) h of Some d \<Rightarrow> Inr (de_Tx d) | None \<Rightarrow> Inl (PoolErr ''transaction is not in the pool''))"

definition MiningDescs :: "(hash fset \<Rightarrow> hash list) \<Rightarrow> ('f, 'm, 'e) TxPool \<Rightarrow> ('f, 'm) TxDesc list" where
  "MiningDescs ord tp = pool_descs ord tp"

definition ListTxsDetail :: "(hash fset \<Rightarrow> hash list) \<Rightarrow> ('f, 'm, 'e) TxPool \<Rightarrow> ('f, 'm) Transaction list" where
  "ListTxsDetail ord tp = map de_Tx (pool_descs ord tp)"

definition TxPool_Count :: "('f, 'm, 'e) TxPool \<Rightarrow> nat" where
  "TxPool_Count tp = map_len (tp_pool tp)"

definition ListTxs :: "('o, 's, 'n, 'a, 'm, 'd, 'e) pool_env \<Rightarrow> ('o, 's, 'n, 'a, 'm, 'e) pool \<Rightarrow> fault + string list" where
  "ListTxs V tp = map_fault (\<lambda>d. andThen (Transaction_Hash (pv_E V) (de_Tx d)) (\<lambda>h. Inr (Hash_String h))) (pool_descs (pv_ord V) tp)"

definition TxPool_Size :: "('o, 's, 'n, 'a, 'm, 'd, 'e) pool_env \<Rightarrow> ('o, 's, 'n, 'a, 'm, 'e) pool \<Rightarrow> fault + uint64" where
  "TxPool_Size V tp = andThen (map_fault (\<lambda>d. Transaction_GetTxActualSize (pv_E V) (de_Tx d)) (pool_descs (pv_ord V) tp)) (\<lambda>ss. Inr (sum_list ss))"

definition CalPoolSize :: "('o, 's, 'n, 'a, 'm, 'd, 'e) pool_env \<Rightarrow> ('o, 's, 'n, 'a, 'm, 'e) pool \<Rightarrow> fault + uint64" where
  "CalPoolSize V tp = andThen (map_fault (\<lambda>d. Transaction_GetTxActualSize (pv_E V) (de_Tx d)) (pool_descs (pv_ord V) tp)) (\<lambda>ss. Inr (sum_list ss))"

definition MaxFee :: "(hash fset \<Rightarrow> hash list) \<Rightarrow> ('f, 'm, 'e) TxPool \<Rightarrow> uint64" where
  "MaxFee ord tp = fold (\<lambda>d fee. if de_Fee d > fee then de_Fee d else fee) (pool_descs ord tp) 0"

section \<open>Coins in use, candidates and tokens\<close>

definition PrePoolTxCoinHashH :: "hash \<Rightarrow> hash list \<Rightarrow> ('f, 'm, 'e) TxPool \<Rightarrow> ('f, 'm, 'e) TxPool" where
  "PrePoolTxCoinHashH txHashH coinHashHs tp = tp\<lparr>tp_txCoinHashHPool := fmupd txHashH coinHashHs (tp_txCoinHashHPool tp)\<rparr>"

definition AddTxCoinHashH :: "hash \<Rightarrow> ('f, 'm, 'e) TxPool \<Rightarrow> ('f, 'm, 'e) TxPool" where
  "AddTxCoinHashH txHashH tp =
     (case fmlookup (tp_txCoinHashHPool tp) txHashH of
        None \<Rightarrow> tp
      | Some inCoinHs \<Rightarrow> tp\<lparr>tp_coinHashHPool := fold (\<lambda>c. fmupd c True) inCoinHs (tp_coinHashHPool tp)\<rparr>)"

definition ValidateCoinHashH :: "hash \<Rightarrow> ('f, 'm, 'e) TxPool \<Rightarrow> pool_error option" where
  "ValidateCoinHashH c tp = (if fmlookup (tp_coinHashHPool tp) c \<noteq> None then Some (PoolErr ''Coin is in used'') else None)"

definition RemoveTxCoinHashH :: "hash \<Rightarrow> ('f, 'm, 'e) TxPool \<Rightarrow> ('f, 'm, 'e) TxPool" where
  "RemoveTxCoinHashH txHashH tp =
     (case fmlookup (tp_txCoinHashHPool tp) txHashH of
        None \<Rightarrow> tp
      | Some coinHashHs \<Rightarrow> tp\<lparr>tp_coinHashHPool := fold fmdrop coinHashHs (tp_coinHashHPool tp),
          tp_txCoinHashHPool := fmdrop txHashH (tp_txCoinHashHPool tp)\<rparr>)"

definition AddCandiateToList :: "hash \<Rightarrow> string \<Rightarrow> ('f, 'm, 'e) TxPool \<Rightarrow> ('f, 'm, 'e) TxPool" where
  "AddCandiateToList txHash candidate tp = tp\<lparr>tp_CandidatePool := fmupd txHash candidate (tp_CandidatePool tp)\<rparr>"

definition AddTokenIDToList :: "hash \<Rightarrow> string \<Rightarrow> ('f, 'm, 'e) TxPool \<Rightarrow> ('f, 'm, 'e) TxPool" where
  "AddTokenIDToList txHash tokenID tp = tp\<lparr>tp_TokenIDPool := fmupd txHash tokenID (tp_TokenIDPool tp)\<rparr>"

text \<open>For each value the first key that has it is collected; the collected keys are deleted afterwards.\<close>

definition keys_of_values :: "(hash fset \<Rightarrow> hash list) \<Rightarrow> (hash, string) fmap \<Rightarrow> string list \<Rightarrow> hash list" where
  "keys_of_values ord m vs = List.map_filter (\<lambda>v. find (\<lambda>h. fmlookup m h = Some v) (ord (fmdom m))) vs"

definition RemoveCandidateList :: "(hash fset \<Rightarrow> hash list) \<Rightarrow> string list \<Rightarrow> ('f, 'm, 'e) TxPool \<Rightarrow> ('f, 'm, 'e) TxPool" where
  "RemoveCandidateList ord candidate tp =
     tp\<lparr>tp_CandidatePool := fold fmdrop (keys_of_values ord (tp_CandidatePool tp) candidate) (tp_CandidatePool tp)\<rparr>"

definition RemoveTokenIDList :: "(hash fset \<Rightarrow> hash list) \<Rightarrow> string list \<Rightarrow> ('f, 'm, 'e) TxPool \<Rightarrow> ('f, 'm, 'e) TxPool" where
  "RemoveTokenIDList ord tokenID tp =
     tp\<lparr>tp_TokenIDPool := fold fmdrop (keys_of_values ord (tp_TokenIDPool tp) tokenID) (tp_TokenIDPool tp)\<rparr>"

text \<open>The function always returns true; the maps are replaced by empty ones unless all of them are empty.\<close>

definition EmptyPool :: "('f, 'm, 'e) TxPool \<Rightarrow> ('f, 'm, 'e) TxPool \<times> bool" where
  "EmptyPool tp =
     (if map_len (tp_pool tp) = 0 \<and> map_len (tp_poolSerialNumbers tp) = 0 \<and> map_len (tp_txCoinHashHPool tp) = 0
        \<and> map_len (tp_coinHashHPool tp) = 0 \<and> map_len (tp_CandidatePool tp) = 0 \<and> map_len (tp_TokenIDPool tp) = 0 then (tp, True)
      else (tp\<lparr>tp_pool := fmempty, tp_poolSerialNumbers := fmempty, tp_txCoinHashHPool := fmempty, tp_coinHashHPool := fmempty,
              tp_CandidatePool := fmempty, tp_TokenIDPool := fmempty\<rparr>, True))"

section \<open>The pool's database\<close>

definition temp_desc :: "('f, 'm) TxDesc \<Rightarrow> TempDesc" where
  "temp_desc d = \<lparr>tm_StartTime = de_StartTime d, tm_IsPushMessage = de_IsFowardMessage d, tm_Height = de_Height d, tm_Fee = de_Fee d,
     tm_FeePerKB = de_FeePerKB d\<rparr>"

definition store_desc ::
  "('o, 's, 'n, 'a, 'm, 'd, 'e) pool_env \<Rightarrow> string \<Rightarrow> hash \<Rightarrow> ('o, 's, 'n, 'a, 'm) pdesc \<Rightarrow> ('o, 's, 'n, 'a, 'm, 'e) pool
   \<Rightarrow> ('o, 's, 'n, 'a, 'm, 'e) pool \<times> db_error option" where
  "store_desc V ty txHash d tp =
     (case js_MarshalTx (pv_js V) (de_Tx d) of
        None \<Rightarrow> (tp, Some RawError)
      | Some valueTx \<Rightarrow> (case js_MarshalDesc (pv_js V) (temp_desc d) of
          None \<Rightarrow> (tp, Some RawError)
        | Some valueDesc \<Rightarrow>
            let (db, err) = mp_AddTransaction (pv_M V) txHash ty valueTx valueDesc (tp_DataBaseMempool tp)
            in (tp\<lparr>tp_DataBaseMempool := db\<rparr>, err)))"

definition AddTransactionToDatabaseMP ::
  "('o, 's, 'n, 'a, 'm, 'd, 'e) pool_env \<Rightarrow> hash \<Rightarrow> ('o, 's, 'n, 'a, 'm) pdesc \<Rightarrow> ('o, 's, 'n, 'a, 'm, 'e) pool
   \<Rightarrow> fault + ('o, 's, 'n, 'a, 'm, 'e) pool \<times> db_error option" where
  "AddTransactionToDatabaseMP V txHash d tp =
     (let ty = GetType (de_Tx d) in
      if ty = TxNormalType then
        (case de_Tx d of NormalTx _ \<Rightarrow> Inr (store_desc V ty txHash d tp) | _ \<Rightarrow> Inl (ExplicitPanic ''interface conversion''))
      else if ty = TxCustomTokenType then
        (case de_Tx d of TokenTx _ \<Rightarrow> Inr (store_desc V ty txHash d tp) | _ \<Rightarrow> Inl (ExplicitPanic ''interface conversion''))
      else if ty = TxCustomTokenPrivacyType then
        (case de_Tx d of PrivacyTokenTx _ \<Rightarrow> Inr (store_desc V ty txHash d tp) | _ \<Rightarrow> Inl (ExplicitPanic ''interface conversion''))
      else Inr (tp, None))"

definition RemoveTransactionFromDatabaseMP ::
  "('o, 's, 'n, 'a, 'm, 'd, 'e) pool_env \<Rightarrow> hash \<Rightarrow> ('o, 's, 'n, 'a, 'm, 'e) pool \<Rightarrow> ('o, 's, 'n, 'a, 'm, 'e) pool" where
  "RemoveTransactionFromDatabaseMP V txHash tp =
     (if mp_HasTransaction (pv_M V) txHash (tp_DataBaseMempool tp) = Inr True
      then tp\<lparr>tp_DataBaseMempool := fst (mp_RemoveTransaction (pv_M V) txHash (tp_DataBaseMempool tp))\<rparr> else tp)"

text \<open>A type that is none of the three leaves the transaction nil.\<close>

definition UmmarshallTxDescFromDatabase ::
  "('f, 'm) json_ops \<Rightarrow> string \<Rightarrow> bytes \<Rightarrow> bytes \<Rightarrow> (('f, 'm) Transaction option \<times> TempDesc) option" where
  "UmmarshallTxDescFromDatabase J txType valueTx valueDesc =
     Option.bind
       (if txType = TxNormalType then map_option (\<lambda>x. Some (NormalTx x)) (js_UnmarshalTx J valueTx)
        else if txType = TxCustomTokenType then map_option (\<lambda>x. Some (TokenTx x)) (js_UnmarshalToken J valueTx)
        else if txType = TxCustomTokenPrivacyType then map_option (\<lambda>x. Some (PrivacyTokenTx x)) (js_UnmarshalPrivacy J valueTx)
        else Some None)
       (\<lambda>t. map_option (\<lambda>td. (t, td)) (js_UnmarshalDesc J valueDesc))"

definition restore_desc :: "('f, 'm) Transaction \<Rightarrow> TempDesc \<Rightarrow> ('f, 'm) TxDesc" where
  "restore_desc t td = \<lparr>de_Tx = t, de_Height = tm_Height td, de_Fee = tm_Fee td, de_FeePerKB = tm_FeePerKB td,
     de_StartTime = tm_StartTime td, de_IsFowardMessage = tm_IsPushMessage td\<rparr>"

definition read_entry ::
  "('o, 's, 'n, 'a, 'm, 'd, 'e) pool_env \<Rightarrow> bytes \<Rightarrow> fault + (('o, 's, 'n, 'a, 'm) ptransaction option \<times> TempDesc) option" where
  "read_entry V v =
     (let vs = split_str (string_of_bytes mp_Splitter) (string_of_bytes v) in
      andThen (index vs 0) (\<lambda>ty. andThen (index vs 1) (\<lambda>t. andThen (index vs 2) (\<lambda>d.
        Inr (UmmarshallTxDescFromDatabase (pv_js V) ty (bytes_of_string t) (bytes_of_string d))))))"

text \<open>The error of the database is overwritten before it is looked at: a missing entry is the empty value.\<close>

definition GetTransactionFromDatabaseMP ::
  "('o, 's, 'n, 'a, 'm, 'd, 'e) pool_env \<Rightarrow> hash \<Rightarrow> ('o, 's, 'n, 'a, 'm, 'e) pool
   \<Rightarrow> fault + (('o, 's, 'n, 'a, 'm) ptransaction option \<times> TempDesc) option" where
  "GetTransactionFromDatabaseMP V txHash tp =
     read_entry V (case mp_GetTransaction (pv_M V) txHash (tp_DataBaseMempool tp) of Inl _ \<Rightarrow> [] | Inr v \<Rightarrow> v)"

definition ResetDatabaseMP ::
  "('o, 's, 'n, 'a, 'm, 'd, 'e) pool_env \<Rightarrow> ('o, 's, 'n, 'a, 'm, 'e) pool \<Rightarrow> ('o, 's, 'n, 'a, 'm, 'e) pool \<times> db_error option" where
  "ResetDatabaseMP V tp = (let (db, err) = mp_Reset (pv_M V) (tp_DataBaseMempool tp) in (tp\<lparr>tp_DataBaseMempool := db\<rparr>, err))"

section \<open>Adding a transaction\<close>

definition createTxDescMempool :: "int \<Rightarrow> ('f, 'm) Transaction \<Rightarrow> uint64 \<Rightarrow> uint64 \<Rightarrow> ('f, 'm) TxDesc" where
  "createTxDescMempool now t height fee =
     \<lparr>de_Tx = t, de_Height = height, de_Fee = fee, de_FeePerKB = 0, de_StartTime = now, de_IsFowardMessage = False\<rparr>"

definition ShardStakingMeta :: int where "ShardStakingMeta = 63"
definition BeaconStakingMeta :: int where "BeaconStakingMeta = 64"

definition is_staking :: "('o, 's, 'n, 'a, 'm) tx_env \<Rightarrow> ('o, 's, 'n, 'a, 'm) ptransaction \<Rightarrow> bool" where
  "is_staking E t = (case GetMetadata t of None \<Rightarrow> False
     | Some m \<Rightarrow> md_GetType (te_meta E) m = ShardStakingMeta \<or> md_GetType (te_meta E) m = BeaconStakingMeta)"

text \<open>The public key that stakes, if the transaction does.\<close>

definition stake_key :: "('o, 's, 'n, 'a, 'm) tx_env \<Rightarrow> ('o, 's, 'n, 'a, 'm) ptransaction \<Rightarrow> fault + string option" where
  "stake_key E t = (if is_staking E t then andThen (Base58Check_Encode (te_sum256 E) (GetSigPubKey t) 0) (\<lambda>k. Inr (Some k)) else Inr None)"

text \<open>The token that a transaction issues, if it does.\<close>

definition init_token :: "('f, 'm) Transaction \<Rightarrow> fault + string option" where
  "init_token t =
     (if GetType t = TxCustomTokenType then
        (case t of TokenTx c \<Rightarrow> Inr (if td_Type (ct_TxTokenData c) = CustomTokenInit then Some (Hash_String (td_PropertyID (ct_TxTokenData c))) else None)
         | _ \<Rightarrow> Inl (ExplicitPanic ''interface conversion''))
      else Inr None)"

definition observe_fee ::
  "('o, 's, 'n, 'a, 'm, 'd, 'e) pool_env \<Rightarrow> ('o, 's, 'n, 'a, 'm) pdesc \<Rightarrow> ('o, 's, 'n, 'a, 'm, 'e) pool \<Rightarrow> fault + ('o, 's, 'n, 'a, 'm, 'e) pool" where
  "observe_fee V d tp =
     (if GetType (de_Tx d) = TxNormalType then
        (case tp_FeeEstimator tp of
           None \<Rightarrow> Inr tp
         | Some fes \<Rightarrow> (case de_Tx d of
             NormalTx x \<Rightarrow> (let shardID = GetShardIDFromLastByte (tx_PubKeyLastByteSender x) in
               case fmlookup fes shardID of
                 None \<Rightarrow> Inr tp
               | Some fe \<Rightarrow> andThen (ObserveTransaction (pv_E V) (pv_overflow V) d fe) (\<lambda>fe'. Inr (tp\<lparr>tp_FeeEstimator := Some (fmupd shardID fe' fes)\<rparr>)))
           | _ \<Rightarrow> Inl (ExplicitPanic ''interface conversion'')))
      else Inr tp)"

definition addTx ::
  "('o, 's, 'n, 'a, 'm, 'd, 'e) pool_env \<Rightarrow> int \<Rightarrow> bool \<Rightarrow> ('o, 's, 'n, 'a, 'm) pdesc \<Rightarrow> ('o, 's, 'n, 'a, 'm, 'e) pool
   \<Rightarrow> fault + ('o, 's, 'n, 'a, 'm, 'e) pool" where
  "addTx V now isStore d tp =
     (let t = de_Tx d in
      andThen (Transaction_Hash (pv_E V) t) (\<lambda>txHash.
      andThen (if isStore then andThen (AddTransactionToDatabaseMP V txHash d tp) (\<lambda>(tp, _). Inr tp) else Inr tp) (\<lambda>tp.
      andThen (Transaction_ListNullifiers (pv_E V) t) (\<lambda>serials.
      andThen (observe_fee V d (tp\<lparr>tp_pool := fmupd txHash d (tp_pool tp),
                  tp_poolSerialNumbers := fmupd txHash serials (tp_poolSerialNumbers tp), tp_lastUpdated := now div 1000000000\<rparr>)) (\<lambda>tp.
      let tp = AddTxCoinHashH txHash tp in
      andThen (stake_key (pv_E V) t) (\<lambda>k.
      let tp = (case k of None \<Rightarrow> tp | Some pubkey \<Rightarrow> AddCandiateToList txHash pubkey tp) in
      andThen (init_token t) (\<lambda>k.
        Inr (case k of None \<Rightarrow> tp | Some tokenID \<Rightarrow> AddTokenIDToList txHash tokenID tp))))))))"

section \<open>Validating a transaction\<close>

definition MaxVersion :: int where "MaxVersion = 1"
definition MaxBlockSize :: uint64 where "MaxBlockSize = 2000"
definition GetFeePerKbTx :: uint64 where "GetFeePerKbTx = 0"

text \<open>The last two checks: another transaction in the pool issues the token, or stakes the public key.\<close>

definition check_listed ::
  "('o, 's, 'n, 'a, 'm) tx_env \<Rightarrow> ('o, 's, 'n, 'a, 'm) ptransaction \<Rightarrow> ('o, 's, 'n, 'a, 'm, 'e) pool \<Rightarrow> fault + pool_error option" where
  "check_listed E t tp =
     andThen (init_token t) (\<lambda>tokenID.
       case tokenID of
         Some k \<Rightarrow> if IndexOfStrInHashMap k (tp_TokenIDPool tp) > 0 then Inr (Some (Init_err RejectDuplicateInitTokenTx)) else
           andThen (stake_key E t) (\<lambda>pubkey. Inr (case pubkey of None \<Rightarrow> None
             | Some k \<Rightarrow> if IndexOfStrInHashMap k (tp_CandidatePool tp) > 0 then Some (Init_err RejectDuplicateStakeTx) else None))
       | None \<Rightarrow> andThen (stake_key E t) (\<lambda>pubkey. Inr (case pubkey of None \<Rightarrow> None
             | Some k \<Rightarrow> if IndexOfStrInHashMap k (tp_CandidatePool tp) > 0 then Some (Init_err RejectDuplicateStakeTx) else None)))"

text \<open>The checks from the sanity of the data on.\<close>

definition check_data ::
  "('o, 's, 'n, 'a, 'm, 'd, 'e) pool_env \<Rightarrow> ('o, 's, 'n, 'a, 'm, 'd) pchain \<Rightarrow> ('o, 's, 'n, 'a, 'm) ptransaction \<Rightarrow> fault + pool_error option" where
  "check_data V C t =
     (let E = pv_E V; shardID = GetShardIDFromLastByte (GetSenderAddrLastByte t) in
      andThen (Transaction_ValidateSanityData E t) (\<lambda>(validated, errS).
        if \<not> validated then andThen (deref errS) (\<lambda>_. Inr (Some (Init_err RejectSansityTx)))
        else andThen (Transaction_ValidateTxByItself E (cx_view C) (Transaction_IsPrivacy t) (pv_D V) (cx_db C) shardID t) (\<lambda>(validated, _).
          if \<not> validated then Inr (Some (Init_err RejectInvalidTx))
          else andThen (Transaction_ValidateTxWithBlockChain E (cx_view C) (pv_D V) (cx_db C) shardID t) (\<lambda>err.
            Inr (map_option PoolTxError err)))))"

text \<open>When the type is wrong the function returns the variable \<open>err\<close>, which is nil.\<close>

definition ValidateTransaction ::
  "('o, 's, 'n, 'a, 'm, 'd, 'e) pool_env \<Rightarrow> ('o, 's, 'n, 'a, 'm, 'd) pchain \<Rightarrow> ('o, 's, 'n, 'a, 'm) ptransaction
   \<Rightarrow> ('o, 's, 'n, 'a, 'm, 'e) pool \<Rightarrow> fault + pool_error option" where
  "ValidateTransaction V C t tp =
     (let E = pv_E V in
      andThen (Transaction_Hash E t) (\<lambda>txHash.
        if isTxInPool txHash tp then Inr (Some (Init_err RejectDuplicateTx))
        else if \<not> CheckTxVersion MaxVersion (Transaction_base t) then Inr (Some (Init_err RejectVersion))
        else andThen (Transaction_GetTxActualSize E t) (\<lambda>actualSize.
          if actualSize \<ge> MaxBlockSize \<or> actualSize \<ge> MaxTxSize then Inr (Some (Init_err RejectInvalidSize))
          else andThen (IsSalaryTx (Transaction_base t)) (\<lambda>salary.
            if salary then Inr (Some (Init_err RejectSalaryTx))
            else andThen (Transaction_CheckTransactionFee E GetFeePerKbTx t) (\<lambda>ok.
              if \<not> ok then Inr (Some (Init_err RejectInvalidFee))
              else if \<not> Transaction_ValidateType t then Inr None
              else andThen (Transaction_ValidateTxWithCurrentMempool E (GetSerialNumbers (pv_ord V) tp) (GetTxsInMem (pv_ord V) tp) t) (\<lambda>err.
                if err \<noteq> None then Inr (map_option PoolTxError err)
                else andThen (check_data V C t) (\<lambda>err.
                  if err \<noteq> None then Inr err else check_listed E t tp)))))))"

definition maybeAcceptTransaction ::
  "('o, 's, 'n, 'a, 'm, 'd, 'e) pool_env \<Rightarrow> ('o, 's, 'n, 'a, 'm, 'd) pchain \<Rightarrow> int \<Rightarrow> bool \<Rightarrow> ('o, 's, 'n, 'a, 'm) ptransaction
   \<Rightarrow> ('o, 's, 'n, 'a, 'm, 'e) pool \<Rightarrow> fault + ('o, 's, 'n, 'a, 'm, 'e) pool \<times> (pool_error + hash \<times> ('o, 's, 'n, 'a, 'm) pdesc)" where
  "maybeAcceptTransaction V C now isStore t tp =
     andThen (ValidateTransaction V C t tp) (\<lambda>err.
     andThen (Transaction_GetTxActualSize (pv_E V) t) (\<lambda>_.
       case err of
         Some e \<Rightarrow> Inr (tp, Inl e)
       | None \<Rightarrow>
           andThen (deref (cx_best C (GetShardIDFromLastByte (GetSenderAddrLastByte t)))) (\<lambda>bestHeight.
           let txD = createTxDescMempool now t bestHeight (GetTxFee t) in
           andThen (addTx V now isStore txD tp) (\<lambda>tp'.
           andThen (Transaction_Hash (pv_E V) t) (\<lambda>h. Inr (tp', Inr (h, txD)))))))"

definition CheckRelayShard :: "('f, 'm) Transaction \<Rightarrow> ('f, 'm, 'e) TxPool \<Rightarrow> bool" where
  "CheckRelayShard t tp \<longleftrightarrow> IndexOfByte (GetShardIDFromLastByte (GetSenderAddrLastByte t)) (tp_RelayShards tp) > -1"

definition CheckPublicKeyRole :: "('f, 'm) Transaction \<Rightarrow> ('f, 'm, 'e) TxPool \<Rightarrow> bool" where
  "CheckPublicKeyRole t tp \<longleftrightarrow>
     tp_RoleInCommittees tp > -1 \<and> of_int (tp_RoleInCommittees tp) = GetShardIDFromLastByte (GetSenderAddrLastByte t)"

definition MaybeAcceptTransaction ::
  "('o, 's, 'n, 'a, 'm, 'd, 'e) pool_env \<Rightarrow> ('o, 's, 'n, 'a, 'm, 'd) pchain \<Rightarrow> int \<Rightarrow> ('o, 's, 'n, 'a, 'm) ptransaction
   \<Rightarrow> ('o, 's, 'n, 'a, 'm, 'e) pool \<Rightarrow> fault + ('o, 's, 'n, 'a, 'm, 'e) pool \<times> (pool_error + hash \<times> ('o, 's, 'n, 'a, 'm) pdesc)" where
  "MaybeAcceptTransaction V C now t tp =
     andThen (Transaction_Hash (pv_E V) t) (\<lambda>txHash.
     let tp = tp\<lparr>tp_cCacheTx := tp_cCacheTx tp @ [txHash]\<rparr> in
     if \<not> CheckRelayShard t tp \<and> \<not> CheckPublicKeyRole t tp then Inr (tp, Inl (PoolErr ''Unexpected Transaction Source Shard''))
     else if of_nat (map_len (tp_pool tp)) \<ge> tp_MaxTx tp then Inr (tp, Inl (PoolErr ''Pool reach max number of transaction''))
     else andThen (maybeAcceptTransaction V C now (tp_PersistMempool tp) t tp) (\<lambda>(tp, r).
       andThen (CalPoolSize V tp) (\<lambda>_.
         Inr (if tp_IsBlockGenStarted tp \<and> (\<exists>x. r = Inr x) then tp\<lparr>tp_CPendingTxs := tp_CPendingTxs tp @ [t]\<rparr> else tp, r))))"

definition MarkFowardedTransaction :: "hash \<Rightarrow> ('f, 'm, 'e) TxPool \<Rightarrow> fault + ('f, 'm, 'e) TxPool" where
  "MarkFowardedTransaction txHash tp =
     andThen (deref (fmlookup (tp_pool tp) txHash)) (\<lambda>d. Inr (tp\<lparr>tp_pool := fmupd txHash (d\<lparr>de_IsFowardMessage := True\<rparr>) (tp_pool tp)\<rparr>))"

definition MaybeAcceptTransactionForBlockProducing ::
  "('o, 's, 'n, 'a, 'm, 'd, 'e) pool_env \<Rightarrow> ('o, 's, 'n, 'a, 'm, 'd) pchain \<Rightarrow> int \<Rightarrow> ('o, 's, 'n, 'a, 'm) ptransaction
   \<Rightarrow> ('o, 's, 'n, 'a, 'm, 'e) pool \<Rightarrow> fault + ('o, 's, 'n, 'a, 'm, 'e) pool \<times> (pool_error + ('o, 's, 'n, 'a, 'm) pdesc)" where
  "MaybeAcceptTransactionForBlockProducing V C now t tp =
     andThen (maybeAcceptTransaction V C now False t tp) (\<lambda>(tp, r). Inr (tp, map_sum id snd r))"

section \<open>Removing transactions\<close>

definition removeTx ::
  "('o, 's, 'n, 'a, 'm, 'd, 'e) pool_env \<Rightarrow> int \<Rightarrow> ('o, 's, 'n, 'a, 'm) ptransaction \<Rightarrow> ('o, 's, 'n, 'a, 'm, 'e) pool
   \<Rightarrow> fault + ('o, 's, 'n, 'a, 'm, 'e) pool \<times> pool_error option" where
  "removeTx V now t tp =
     andThen (Transaction_Hash (pv_E V) t) (\<lambda>h.
       if isTxInPool h tp then Inr (tp\<lparr>tp_pool := fmdrop h (tp_pool tp), tp_lastUpdated := now div 1000000000\<rparr>, None)
       else Inr (tp, Some (PoolErr ''not exist tx in pool'')))"

definition RemoveTx ::
  "('o, 's, 'n, 'a, 'm, 'd, 'e) pool_env \<Rightarrow> int \<Rightarrow> bool \<Rightarrow> ('o, 's, 'n, 'a, 'm) ptransaction \<Rightarrow> ('o, 's, 'n, 'a, 'm, 'e) pool
   \<Rightarrow> fault + ('o, 's, 'n, 'a, 'm, 'e) pool \<times> pool_error option" where
  "RemoveTx V now isInBlock t tp =
     andThen (Transaction_Hash (pv_E V) t) (\<lambda>h.
       if \<not> isTxInPool h tp then Inr (tp, None)
       else andThen (removeTx V now t (RemoveTransactionFromDatabaseMP V h tp)) (\<lambda>(tp, err).
         let tp = RemoveTxCoinHashH h tp in
         andThen (if isInBlock then andThen (Transaction_GetTxActualSize (pv_E V) t) (\<lambda>_. Inr ()) else Inr ()) (\<lambda>_.
         andThen (CalPoolSize V tp) (\<lambda>_. Inr (tp, err)))))"

text \<open>\<open>time.Duration(TxLifeTime) * time.Second\<close> is an \<open>int64\<close> product.\<close>

definition ttl :: "('f, 'm, 'e) TxPool \<Rightarrow> int" where
  "ttl tp = sint (tp_TxLifeTime tp * 1000000000)"

fun drop_expired ::
  "('o, 's, 'n, 'a, 'm, 'd, 'e) pool_env \<Rightarrow> ('o, 's, 'n, 'a, 'm) pdesc list \<Rightarrow> ('o, 's, 'n, 'a, 'm, 'e) pool \<Rightarrow> fault + ('o, 's, 'n, 'a, 'm, 'e) pool" where
  "drop_expired V [] tp = Inr tp"
| "drop_expired V (d # ds) tp =
     andThen (Transaction_Hash (pv_E V) (de_Tx d)) (\<lambda>h.
     let tp = tp\<lparr>tp_pool := fmdrop h (tp_pool tp), tp_poolSerialNumbers := fmdrop h (tp_poolSerialNumbers tp),
           tp_txCoinHashHPool := fmdrop h (tp_txCoinHashHPool tp), tp_CandidatePool := fmdrop h (tp_CandidatePool tp),
           tp_TokenIDPool := fmdrop h (tp_TokenIDPool tp)\<rparr> in
     andThen (Transaction_GetTxActualSize (pv_E V) (de_Tx d)) (\<lambda>_.
     andThen (CalPoolSize V tp) (\<lambda>_. drop_expired V ds tp)))"

text \<open>One round of the endless loop, which sleeps between two rounds.\<close>

definition MonitorPool_round ::
  "('o, 's, 'n, 'a, 'm, 'd, 'e) pool_env \<Rightarrow> int \<Rightarrow> ('o, 's, 'n, 'a, 'm, 'e) pool \<Rightarrow> fault + ('o, 's, 'n, 'a, 'm, 'e) pool" where
  "MonitorPool_round V now tp =
     (if tp_TxLifeTime tp = 0 then Inr tp
      else drop_expired V (filter (\<lambda>d. now - de_StartTime d > ttl tp) (pool_descs (pv_ord V) tp)) tp)"

text \<open>The message on \<open>CRoleInCommittees\<close> that \<open>Start\<close> waits for.\<close>

definition Start_role :: "int \<Rightarrow> ('f, 'm, 'e) TxPool \<Rightarrow> ('f, 'm, 'e) TxPool" where
  "Start_role shardID tp = tp\<lparr>tp_RoleInCommittees := shardID\<rparr>"

section \<open>Loading the pool from its database\<close>

fun load_entries ::
  "('o, 's, 'n, 'a, 'm, 'd, 'e) pool_env \<Rightarrow> ('o, 's, 'n, 'a, 'm, 'd) pchain \<Rightarrow> int \<Rightarrow> (bytes \<times> bytes) list \<Rightarrow> ('o, 's, 'n, 'a, 'm, 'e) pool
   \<Rightarrow> fault + ('o, 's, 'n, 'a, 'm, 'e) pool \<times> ('o, 's, 'n, 'a, 'm) pdesc list" where
  "load_entries V C now [] tp = Inr (tp, [])"
| "load_entries V C now ((k, v) # kvs) tp =
     andThen (read_entry V v) (\<lambda>r.
       case r of
         None \<Rightarrow>
           if length k < 3 then Inl IndexOutOfRange
           else (case NewHash (drop 3 k) of
             Inl _ \<Rightarrow> load_entries V C now kvs tp
           | Inr h \<Rightarrow> load_entries V C now kvs (RemoveTransactionFromDatabaseMP V h tp))
       | Some (topt, td) \<Rightarrow>
           andThen (deref topt) (\<lambda>t.
           andThen (if now - tm_StartTime td > ttl tp
               then andThen (Transaction_Hash (pv_E V) t) (\<lambda>h. Inr (RemoveTransactionFromDatabaseMP V h tp)) else Inr tp) (\<lambda>tp.
           andThen (ValidateTransaction V C t tp) (\<lambda>err.
             if err \<noteq> None
             then andThen (Transaction_Hash (pv_E V) t) (\<lambda>h. load_entries V C now kvs (RemoveTransactionFromDatabaseMP V h tp))
             else andThen (addTx V now False (restore_desc t td) tp) (\<lambda>tp.
               andThen (load_entries V C now kvs tp) (\<lambda>(tp, ds). Inr (tp, restore_desc t td # ds)))))))"

definition LoadDatabaseMP ::
  "('o, 's, 'n, 'a, 'm, 'd, 'e) pool_env \<Rightarrow> ('o, 's, 'n, 'a, 'm, 'd) pchain \<Rightarrow> int \<Rightarrow> ('o, 's, 'n, 'a, 'm, 'e) pool
   \<Rightarrow> fault + ('o, 's, 'n, 'a, 'm, 'e) pool \<times> ('o, 's, 'n, 'a, 'm) pdesc list \<times> db_error option" where
  "LoadDatabaseMP V C now tp =
     (case mp_Load (pv_M V) (tp_DataBaseMempool tp) of (allTxHashes, allTxs, err) \<Rightarrow>
      if err \<noteq> None then Inr (tp, [], err)
      else andThen (load_entries V C now (zip allTxHashes allTxs) tp) (\<lambda>(tp, ds). Inr (tp, ds, None)))"

definition LoadOrResetDatabaseMP ::
  "('o, 's, 'n, 'a, 'm, 'd, 'e) pool_env \<Rightarrow> ('o, 's, 'n, 'a, 'm, 'd) pchain \<Rightarrow> int \<Rightarrow> ('o, 's, 'n, 'a, 'm, 'e) pool
   \<Rightarrow> fault + ('o, 's, 'n, 'a, 'm, 'e) pool" where
  "LoadOrResetDatabaseMP V C now tp =
     (if \<not> tp_IsLoadFromMempool tp then Inr (fst (ResetDatabaseMP V tp))
      else andThen (LoadDatabaseMP V C now tp) (\<lambda>(tp, _). Inr tp))"

section \<open>Validating the transactions of a block\<close>

definition validateTxIndependProperties ::
  "('o, 's, 'n, 'a, 'm, 'd, 'e) pool_env \<Rightarrow> ('o, 's, 'n, 'a, 'm, 'd) pchain \<Rightarrow> ('o, 's, 'n, 'a, 'm) ptransaction \<Rightarrow> fault + pool_error option" where
  "validateTxIndependProperties V C t =
     (let E = pv_E V in
      andThen (Transaction_Hash E t) (\<lambda>_.
      andThen (IsSalaryTx (Transaction_base t)) (\<lambda>salary.
        if salary then Inr None
        else if \<not> CheckTxVersion MaxVersion (Transaction_base t) then Inr (Some (Init_err RejectVersion))
        else andThen (Transaction_GetTxActualSize E t) (\<lambda>actualSize.
          if actualSize \<ge> MaxBlockSize \<or> actualSize \<ge> MaxTxSize then Inr (Some (Init_err RejectInvalidSize))
          else andThen (Transaction_CheckTransactionFee E GetFeePerKbTx t) (\<lambda>ok.
            if \<not> ok then Inr (Some (Init_err RejectInvalidFee))
            else if \<not> Transaction_ValidateType t then Inr None
            else check_data V C t)))))"

text \<open>The check that a goroutine runs on one transaction.\<close>

definition check_single ::
  "('o, 's, 'n, 'a, 'm, 'd, 'e) pool_env \<Rightarrow> ('o, 's, 'n, 'a, 'm, 'd) pchain \<Rightarrow> ('o, 's, 'n, 'a, 'm) ptransaction \<Rightarrow> fault + pool_error option" where
  "check_single V C t =
     (if GetType t = TxCustomTokenType then
        andThen (as_token t) (\<lambda>c. if td_Type (ct_TxTokenData c) = CustomTokenCrossShard then Inr None else validateTxIndependProperties V C t)
      else validateTxIndependProperties V C t)"

fun check_singles ::
  "('o, 's, 'n, 'a, 'm, 'd, 'e) pool_env \<Rightarrow> ('o, 's, 'n, 'a, 'm, 'd) pchain \<Rightarrow> ('o, 's, 'n, 'a, 'm) ptransaction list \<Rightarrow> fault + bool" where
  "check_singles V C [] = Inr True"
| "check_singles V C (t # ts) = andThen (check_single V C t) (\<lambda>err. if err \<noteq> None then Inr False else check_singles V C ts)"

fun add_block_txs ::
  "('o, 's, 'n, 'a, 'm, 'd, 'e) pool_env \<Rightarrow> ('o, 's, 'n, 'a, 'm, 'd) pchain \<Rightarrow> int \<Rightarrow> ('o, 's, 'n, 'a, 'm) ptransaction list
   \<Rightarrow> ('o, 's, 'n, 'a, 'm, 'e) pool \<Rightarrow> fault + ('o, 's, 'n, 'a, 'm, 'e) pool \<times> pool_error option" where
  "add_block_txs V C now [] tp = Inr (tp, None)"
| "add_block_txs V C now (t # ts) tp =
     andThen (Transaction_Hash (pv_E V) t) (\<lambda>txHash.
       if isTxInPool txHash tp then Inr (tp, Some (Init_err RejectDuplicateTx))
       else andThen (Transaction_ValidateTxWithCurrentMempool (pv_E V) (GetSerialNumbers (pv_ord V) tp) (GetTxsInMem (pv_ord V) tp) t) (\<lambda>err.
         if err \<noteq> None then Inr (tp, map_option PoolTxError err)
         else andThen (check_listed (pv_E V) t tp) (\<lambda>err.
           if err \<noteq> None then Inr (tp, err)
           else andThen (deref (cx_best C (GetShardIDFromLastByte (GetSenderAddrLastByte t)))) (\<lambda>bestHeight.
             andThen (addTx V now False (createTxDescMempool now t bestHeight (GetTxFee t)) tp) (\<lambda>tp. add_block_txs V C now ts tp)))))"

text \<open>
  \<open>arrival\<close> orders the answers of the goroutines. The loop waits for an answer before it compares the number of
  answers with the number of transactions, so with no transaction it waits for ever.
\<close>

definition ValidateTxList ::
  "('o, 's, 'n, 'a, 'm, 'd, 'e) pool_env \<Rightarrow> ('o, 's, 'n, 'a, 'm, 'd) pchain \<Rightarrow> int
   \<Rightarrow> (('o, 's, 'n, 'a, 'm) ptransaction list \<Rightarrow> ('o, 's, 'n, 'a, 'm) ptransaction list) \<Rightarrow> ('o, 's, 'n, 'a, 'm) ptransaction list
   \<Rightarrow> ('o, 's, 'n, 'a, 'm, 'e) pool \<Rightarrow> fault + ('o, 's, 'n, 'a, 'm, 'e) pool \<times> pool_error option" where
  "ValidateTxList V C now arrival txs tp =
     (if txs = [] then Inl Deadlock
      else andThen (check_singles V C (arrival txs)) (\<lambda>ok.
        if \<not> ok then Inr (tp, Some (PoolErr ''tx in new block error'')) else add_block_txs V C now txs tp))"

section \<open>Policy\<close>

definition calcMinFeeTxAccepted :: "('f, 'm) Tx \<Rightarrow> uint64" where "calcMinFeeTxAccepted tx = 1"
definition calcMinFeeTxCustomTokenAccepted :: "('f, 'm) TxCustomToken \<Rightarrow> uint64" where "calcMinFeeTxCustomTokenAccepted tx = 1"

text \<open>The hash is computed for the message only.\<close>

definition Policy_CheckTransactionFee :: "('o, 's, 'n, 'a, 'm) tx_env \<Rightarrow> ('o, 's, 'n, 'a, 'm) ptx \<Rightarrow> fault + pool_error option" where
  "Policy_CheckTransactionFee E tx =
     (if tx_Fee tx < calcMinFeeTxAccepted tx then andThen (Tx_Hash E tx) (\<lambda>_. Inr (Some (Init_err RejectInvalidFee))) else Inr None)"

definition Policy_CheckCustomTokenTransactionFee :: "('o, 's, 'n, 'a, 'm) tx_env \<Rightarrow> ('o, 's, 'n, 'a, 'm) ptoken \<Rightarrow> fault + pool_error option" where
  "Policy_CheckCustomTokenTransactionFee E tx =
     (if tx_Fee (ct_Tx tx) < calcMinFeeTxCustomTokenAccepted tx then andThen (token_Hash E tx) (\<lambda>_. Inr (Some (Init_err RejectInvalidFee))) else Inr None)"

end
