(* ===== verification/Tx_Pool_Safety.thy ===== *)
theory Tx_Pool_Safety
  imports Tx_Pool
begin

text \<open>
  The pools that the operations of \<open>Tx_Pool\<close> can reach, the invariant of their entries and serial numbers, and the
  theorems on double spending of the native coin in the pool and on the check of the type.
\<close>

section \<open>Reachable pools\<close>

inductive pool_reachable :: "('o, 's, 'n, 'a, 'm, 'd, 'e) pool_env \<Rightarrow> ('o, 's, 'n, 'a, 'm, 'e) pool \<Rightarrow> bool" for V where
  init: "pool_reachable V (TxPool_Init cfg)"
| accept: "pool_reachable V tp \<Longrightarrow> MaybeAcceptTransaction V C now t tp = Inr (tp', r) \<Longrightarrow> pool_reachable V tp'"
| produce: "pool_reachable V tp \<Longrightarrow> MaybeAcceptTransactionForBlockProducing V C now t tp = Inr (tp', d) \<Longrightarrow> pool_reachable V tp'"
| block: "pool_reachable V tp \<Longrightarrow> ValidateTxList V C now arrival txs tp = Inr (tp', err) \<Longrightarrow> pool_reachable V tp'"
| remove: "pool_reachable V tp \<Longrightarrow> RemoveTx V now isInBlock t tp = Inr (tp', err) \<Longrightarrow> pool_reachable V tp'"
| monitor: "pool_reachable V tp \<Longrightarrow> MonitorPool_round V now tp = Inr tp' \<Longrightarrow> pool_reachable V tp'"
| empty: "pool_reachable V tp \<Longrightarrow> EmptyPool tp = (tp', b) \<Longrightarrow> pool_reachable V tp'"
| load: "pool_reachable V tp \<Longrightarrow> LoadOrResetDatabaseMP V C now tp = Inr tp' \<Longrightarrow> pool_reachable V tp'"
| forwarded: "pool_reachable V tp \<Longrightarrow> MarkFowardedTransaction h tp = Inr tp' \<Longrightarrow> pool_reachable V tp'"
| prepool: "pool_reachable V tp \<Longrightarrow> pool_reachable V (PrePoolTxCoinHashH h cs tp)"
| candidates: "pool_reachable V tp \<Longrightarrow> pool_reachable V (RemoveCandidateList (pv_ord V) ks tp)"
| tokens: "pool_reachable V tp \<Longrightarrow> pool_reachable V (RemoveTokenIDList (pv_ord V) ks tp)"
| role: "pool_reachable V tp \<Longrightarrow> pool_reachable V (Start_role shardID tp)"
| block_gen: "pool_reachable V tp \<Longrightarrow> pool_reachable V (tp\<lparr>tp_IsBlockGenStarted := b\<rparr>)"

definition ord_ok :: "(hash fset \<Rightarrow> hash list) \<Rightarrow> bool" where
  "ord_ok ord \<longleftrightarrow> (\<forall>A. distinct (ord A) \<and> set (ord A) = fset A)"

section \<open>The invariant\<close>

text \<open>The serial numbers that the pool has on record for an entry.\<close>

definition entry_ok :: "('o, 's, 'n, 'a, 'm) tx_env \<Rightarrow> (hash, bytes list) fmap \<Rightarrow> hash \<Rightarrow> ('o, 's, 'n, 'a, 'm) pdesc \<Rightarrow> bool" where
  "entry_ok E serials h d \<longleftrightarrow> Transaction_Hash E (de_Tx d) = Inr h \<and> fmlookup serials h \<noteq> None
     \<and> Transaction_ListNullifiers E (de_Tx d) = Inr (map_get [] serials h)"

definition serials_of :: "('o, 's, 'n, 'a, 'm, 'e) pool \<Rightarrow> hash \<Rightarrow> bytes set" where
  "serials_of tp h = set (map_get [] (tp_poolSerialNumbers tp) h)"

definition typed_in :: "('f, 'm, 'e) TxPool \<Rightarrow> hash \<Rightarrow> bool" where
  "typed_in tp h = (case fmlookup (tp_pool tp) h of None \<Rightarrow> False | Some d \<Rightarrow> Transaction_ValidateType (de_Tx d))"

definition pool_inv :: "('o, 's, 'n, 'a, 'm) tx_env \<Rightarrow> ('o, 's, 'n, 'a, 'm, 'e) pool \<Rightarrow> bool" where
  "pool_inv E tp \<longleftrightarrow>
     (\<forall>h d. fmlookup (tp_pool tp) h = Some d \<longrightarrow> entry_ok E (tp_poolSerialNumbers tp) h d)
     \<and> (\<forall>h h'. typed_in tp h \<longrightarrow> typed_in tp h' \<longrightarrow> h \<noteq> h' \<longrightarrow> serials_of tp h \<inter> serials_of tp h' = {})"

text \<open>Two pools with the same entries and serial numbers.\<close>

definition same_entries :: "('f, 'm, 'e) TxPool \<Rightarrow> ('f, 'm, 'e) TxPool \<Rightarrow> bool" where
  "same_entries tp tp' \<longleftrightarrow> tp_pool tp' = tp_pool tp \<and> tp_poolSerialNumbers tp' = tp_poolSerialNumbers tp"

lemma pool_inv_same: "same_entries tp tp' \<Longrightarrow> pool_inv E tp \<Longrightarrow> pool_inv E tp'"
  by (simp add: same_entries_def pool_inv_def serials_of_def typed_in_def)

lemma same_entries_trans: "same_entries a b \<Longrightarrow> same_entries b c \<Longrightarrow> same_entries a c"
  by (simp add: same_entries_def)

named_theorems same_intros \<open>operations that keep the entries and the serial numbers\<close>

lemma same_refl [same_intros]: "same_entries tp tp"
  by (simp add: same_entries_def)

lemma same_store [same_intros]: "AddTransactionToDatabaseMP V h d tp = Inr (tp', e) \<Longrightarrow> same_entries tp tp'"
  by (auto simp: AddTransactionToDatabaseMP_def store_desc_def same_entries_def Let_def split: if_splits Transaction.splits option.splits prod.splits)

lemma same_unstore [same_intros]: "same_entries tp (RemoveTransactionFromDatabaseMP V h tp)"
  by (simp add: RemoveTransactionFromDatabaseMP_def same_entries_def)

lemma same_observe [same_intros]: "observe_fee V d tp = Inr tp' \<Longrightarrow> same_entries tp tp'"
  by (auto simp: observe_fee_def same_entries_def Let_def andThen_Inr_iff split: if_splits Transaction.splits option.splits)

lemma same_lists [same_intros]:
  "same_entries tp (AddTxCoinHashH h tp)" "same_entries tp (RemoveTxCoinHashH h tp)" "same_entries tp (AddCandiateToList h k tp)"
  "same_entries tp (AddTokenIDToList h k tp)" "same_entries tp (PrePoolTxCoinHashH h cs tp)" "same_entries tp (RemoveCandidateList ord ks tp)"
  "same_entries tp (RemoveTokenIDList ord ks tp)" "same_entries tp (Start_role n tp)" "same_entries tp (fst (ResetDatabaseMP V tp))"
  by (simp_all add: same_entries_def AddTxCoinHashH_def RemoveTxCoinHashH_def AddCandiateToList_def AddTokenIDToList_def PrePoolTxCoinHashH_def
      RemoveCandidateList_def RemoveTokenIDList_def Start_role_def ResetDatabaseMP_def case_prod_beta split: option.splits)

section \<open>Adding and removing\<close>

lemma addTx_entries:
  assumes "addTx V now isStore d tp = Inr tp'"
  obtains h ns where "Transaction_Hash (pv_E V) (de_Tx d) = Inr h" and "Transaction_ListNullifiers (pv_E V) (de_Tx d) = Inr ns"
    and "tp_pool tp' = fmupd h d (tp_pool tp)" and "tp_poolSerialNumbers tp' = fmupd h ns (tp_poolSerialNumbers tp)"
proof -
  from assms obtain h ns t1 t2 k k' where h: "Transaction_Hash (pv_E V) (de_Tx d) = Inr h" "Transaction_ListNullifiers (pv_E V) (de_Tx d) = Inr ns"
    and t1: "same_entries tp t1"
    and t2: "observe_fee V d (t1\<lparr>tp_pool := fmupd h d (tp_pool t1), tp_poolSerialNumbers := fmupd h ns (tp_poolSerialNumbers t1), tp_lastUpdated := now div 1000000000\<rparr>) = Inr t2"
    and r: "tp' = (let tp = AddTxCoinHashH h t2; tp = (case k of None \<Rightarrow> tp | Some p \<Rightarrow> AddCandiateToList h p tp)
      in case k' of None \<Rightarrow> tp | Some i \<Rightarrow> AddTokenIDToList h i tp)"
    unfolding addTx_def Let_def andThen_Inr_iff by (fastforce simp: andThen_Inr_iff split: if_splits intro: same_intros)
  have "same_entries t2 tp'"
    unfolding r Let_def by (cases k; cases k') (simp; blast intro: same_intros same_entries_trans)+
  then show thesis using that [OF h] t1 same_observe [OF t2] by (simp add: same_entries_def)
qed

lemma pool_inv_addTx:
  assumes inv: "pool_inv (pv_E V) tp" and add: "addTx V now isStore d tp = Inr tp'"
    and fresh: "\<And>h ns. Transaction_Hash (pv_E V) (de_Tx d) = Inr h \<Longrightarrow> Transaction_ListNullifiers (pv_E V) (de_Tx d) = Inr ns
      \<Longrightarrow> fmlookup (tp_pool tp) h = None \<and> (Transaction_ValidateType (de_Tx d) \<longrightarrow> (\<forall>h' d'. fmlookup (tp_pool tp) h' = Some d' \<longrightarrow> set ns \<inter> serials_of tp h' = {}))"
  shows "pool_inv (pv_E V) tp'"
proof -
  from add obtain h ns where h: "Transaction_Hash (pv_E V) (de_Tx d) = Inr h" "Transaction_ListNullifiers (pv_E V) (de_Tx d) = Inr ns"
    and tp': "tp_pool tp' = fmupd h d (tp_pool tp)" "tp_poolSerialNumbers tp' = fmupd h ns (tp_poolSerialNumbers tp)" by (rule addTx_entries)
  have old: "serials_of tp' x = serials_of tp x" "typed_in tp' x = typed_in tp x" if "x \<noteq> h" for x
    using that by (simp_all add: tp' serials_of_def typed_in_def map_get_def)
  have new: "serials_of tp' h = set ns" by (simp add: tp' serials_of_def map_get_def)
  have dis: "set ns \<inter> serials_of tp x = {}" if "typed_in tp' h" "typed_in tp x" for x
    using fresh [OF h] that by (auto simp: typed_in_def tp' split: option.splits)
  have "serials_of tp' x \<inter> serials_of tp' y = {}" if "typed_in tp' x" "typed_in tp' y" "x \<noteq> y" for x y
  proof (cases "x = h \<or> y = h")
    case True
    then show ?thesis using dis [of x] dis [of y] that old [of x] old [of y] new by (metis inf_commute)
  next
    case False
    then show ?thesis using inv that old by (simp add: pool_inv_def)
  qed
  moreover have "entry_ok (pv_E V) (tp_poolSerialNumbers tp') x e" if "fmlookup (tp_pool tp') x = Some e" for x e
    using that inv h by (cases "x = h") (auto simp: tp' pool_inv_def entry_ok_def map_get_def split: option.splits)
  ultimately show ?thesis by (simp add: pool_inv_def)
qed

lemma pool_inv_drop:
  assumes "pool_inv E tp" and "tp_pool tp' = fmdrop h (tp_pool tp)"
    and "tp_poolSerialNumbers tp' = tp_poolSerialNumbers tp \<or> tp_poolSerialNumbers tp' = fmdrop h (tp_poolSerialNumbers tp)"
  shows "pool_inv E tp'"
proof -
  have old: "serials_of tp' x = serials_of tp x" "typed_in tp' x = typed_in tp x" "entry_ok E (tp_poolSerialNumbers tp') x = entry_ok E (tp_poolSerialNumbers tp) x" if "x \<noteq> h" for x
    using assms(2,3) that by (auto simp: serials_of_def typed_in_def map_get_def entry_ok_def fun_eq_iff)
  have "x \<noteq> h" if "fmlookup (tp_pool tp') x = Some d \<or> typed_in tp' x" for x d
    using that by (auto simp: assms(2) typed_in_def)
  then show ?thesis using assms(1) old assms(2) unfolding pool_inv_def by (metis (no_types, lifting) fmlookup_drop)
qed

section \<open>Accepting\<close>

lemma in_GetSerialNumbers:
  assumes "ord_ok ord" and "fmlookup (tp_poolSerialNumbers tp) h = Some ns"
  shows "ns \<in> set (GetSerialNumbers ord tp)"
proof -
  have "h \<in> set (ord (fmdom (tp_poolSerialNumbers tp)))" using assms by (simp add: ord_ok_def fmdomI)
  then show ?thesis using assms(2) by (force simp: GetSerialNumbers_def range_values_def List.map_filter_def)
qed

lemma mempool_check_fresh:
  assumes "ord_ok ord" and "Transaction_ValidateTxWithCurrentMempool E (GetSerialNumbers ord tp) txs t = Inr None"
    and "Transaction_ListNullifiers E t = Inr ns"
  shows "set ns \<inter> serials_of tp h = {}"
proof (cases "fmlookup (tp_poolSerialNumbers tp) h")
  case (Some ms)
  then show ?thesis using accepted_serials_fresh [OF assms(2,3)] in_GetSerialNumbers [OF assms(1) Some] by (auto simp: serials_of_def map_get_def)
qed (simp add: serials_of_def map_get_def)

lemma ValidateTransaction_passed:
  assumes "ValidateTransaction V C t tp = Inr None"
  shows "\<exists>h. Transaction_Hash (pv_E V) t = Inr h \<and> fmlookup (tp_pool tp) h = None"
    and "Transaction_ValidateType t \<Longrightarrow>
      Transaction_ValidateTxWithCurrentMempool (pv_E V) (GetSerialNumbers (pv_ord V) tp) (GetTxsInMem (pv_ord V) tp) t = Inr None"
  using assms by (auto simp: ValidateTransaction_def Let_def andThen_Inr_iff isTxInPool_def split: if_splits)

lemma pool_inv_validated:
  assumes "ord_ok (pv_ord V)" and "pool_inv (pv_E V) tp" and "ValidateTransaction V C (de_Tx d) tp = Inr None"
    and "addTx V now isStore d tp = Inr tp'"
  shows "pool_inv (pv_E V) tp'"
proof (rule pool_inv_addTx [OF assms(2,4)])
  fix h ns assume "Transaction_Hash (pv_E V) (de_Tx d) = Inr h" and ns: "Transaction_ListNullifiers (pv_E V) (de_Tx d) = Inr ns"
  then have "fmlookup (tp_pool tp) h = None" using ValidateTransaction_passed(1) [OF assms(3)] by auto
  moreover have "set ns \<inter> serials_of tp h' = {}" if "Transaction_ValidateType (de_Tx d)" for h'
    by (rule mempool_check_fresh [OF assms(1) ValidateTransaction_passed(2) [OF assms(3) that] ns])
  ultimately show "fmlookup (tp_pool tp) h = None \<and> (Transaction_ValidateType (de_Tx d) \<longrightarrow> (\<forall>h' d'. fmlookup (tp_pool tp) h' = Some d' \<longrightarrow> set ns \<inter> serials_of tp h' = {}))"
    by blast
qed

lemma maybeAcceptTransaction_cases:
  assumes "maybeAcceptTransaction V C now isStore t tp = Inr (tp', r)"
  obtains e where "tp' = tp" "r = Inl e" "ValidateTransaction V C t tp = Inr (Some e)"
  | b h where "ValidateTransaction V C t tp = Inr None" "addTx V now isStore (createTxDescMempool now t b (GetTxFee t)) tp = Inr tp'"
      "Transaction_Hash (pv_E V) t = Inr h" "r = Inr (h, createTxDescMempool now t b (GetTxFee t))"
  using assms by (auto simp: maybeAcceptTransaction_def Let_def andThen_Inr_iff split: option.splits)

lemma pool_inv_maybeAccept:
  assumes "ord_ok (pv_ord V)" and "pool_inv (pv_E V) tp" and "maybeAcceptTransaction V C now isStore t tp = Inr (tp', r)"
  shows "pool_inv (pv_E V) tp'"
  using assms(3)
proof (cases rule: maybeAcceptTransaction_cases)
  case (2 b h)
  then show ?thesis by (intro pool_inv_validated [OF assms(1,2) _ 2(2)]) (simp add: createTxDescMempool_def)
qed (use assms(2) in simp)

lemma MaybeAcceptTransaction_cases:
  assumes "MaybeAcceptTransaction V C now t tp = Inr (tp', r)"
  obtains h where "tp' = tp\<lparr>tp_cCacheTx := tp_cCacheTx tp @ [h]\<rparr>"
  | h tp2 where "maybeAcceptTransaction V C now (tp_PersistMempool tp) t (tp\<lparr>tp_cCacheTx := tp_cCacheTx tp @ [h]\<rparr>) = Inr (tp2, r)"
      "tp' = tp2 \<or> tp' = tp2\<lparr>tp_CPendingTxs := tp_CPendingTxs tp2 @ [t]\<rparr>"
proof -
  from assms obtain h where h: "Transaction_Hash (pv_E V) t = Inr h" by (auto simp: MaybeAcceptTransaction_def andThen_Inr_iff)
  let ?tp = "tp\<lparr>tp_cCacheTx := tp_cCacheTx tp @ [h]\<rparr>"
  consider "tp' = ?tp" | "andThen (maybeAcceptTransaction V C now (tp_PersistMempool ?tp) t ?tp) (\<lambda>(tp, r).
       andThen (CalPoolSize V tp) (\<lambda>_.
         Inr (if tp_IsBlockGenStarted tp \<and> (\<exists>x. r = Inr x) then tp\<lparr>tp_CPendingTxs := tp_CPendingTxs tp @ [t]\<rparr> else tp, r))) = Inr (tp', r)"
    using assms h unfolding MaybeAcceptTransaction_def Let_def by (simp only: andThen_ok) (auto split: if_splits)
  then show thesis
  proof cases
    case 2
    then obtain tp2 r2 where m: "maybeAcceptTransaction V C now (tp_PersistMempool ?tp) t ?tp = Inr (tp2, r2)"
      and "r2 = r" "tp' = tp2 \<or> tp' = tp2\<lparr>tp_CPendingTxs := tp_CPendingTxs tp2 @ [t]\<rparr>"
      by (auto simp: andThen_Inr_iff split: if_splits)
    then show thesis using that(2) by simp
  qed (rule that(1))
qed

lemma pool_inv_accept:
  assumes "ord_ok (pv_ord V)" and inv: "pool_inv (pv_E V) tp" and acc: "MaybeAcceptTransaction V C now t tp = Inr (tp', r)"
  shows "pool_inv (pv_E V) tp'"
proof -
  have start: "pool_inv (pv_E V) (tp\<lparr>tp_cCacheTx := cs\<rparr>)" for cs by (rule pool_inv_same [OF _ inv]) (simp add: same_entries_def)
  show ?thesis using acc
  proof (cases rule: MaybeAcceptTransaction_cases)
    case (2 h tp2)
    have "pool_inv (pv_E V) tp2" by (rule pool_inv_maybeAccept [OF assms(1) start 2(1)])
    then show ?thesis by (rule pool_inv_same [rotated]) (use 2(2) in \<open>auto simp: same_entries_def\<close>)
  qed (simp add: start)
qed

lemma pool_inv_block:
  assumes "ord_ok (pv_ord V)"
  shows "pool_inv (pv_E V) tp \<Longrightarrow> add_block_txs V C now ts tp = Inr (tp', err) \<Longrightarrow> pool_inv (pv_E V) tp'"
proof (induction ts arbitrary: tp)
  case (Cons t ts)
  show ?case
  proof (cases "tp' = tp")
    case False
    from Cons.prems(2) False obtain h b tp1 where h: "Transaction_Hash (pv_E V) t = Inr h" "\<not> isTxInPool h tp"
      and m: "Transaction_ValidateTxWithCurrentMempool (pv_E V) (GetSerialNumbers (pv_ord V) tp) (GetTxsInMem (pv_ord V) tp) t = Inr None"
      and add: "addTx V now False (createTxDescMempool now t b (GetTxFee t)) tp = Inr tp1" and r: "add_block_txs V C now ts tp1 = Inr (tp', err)"
      by (auto simp: andThen_Inr_iff split: if_splits)
    have "pool_inv (pv_E V) tp1"
      by (rule pool_inv_addTx [OF Cons.prems(1) add]) (use h mempool_check_fresh [OF assms m] in \<open>auto simp: createTxDescMempool_def isTxInPool_def\<close>)
    then show ?thesis using r by (rule Cons.IH)
  qed (use Cons.prems(1) in simp)
qed simp

lemma pool_inv_expired: "pool_inv (pv_E V) tp \<Longrightarrow> drop_expired V ds tp = Inr tp' \<Longrightarrow> pool_inv (pv_E V) tp'"
proof (induction ds arbitrary: tp)
  case (Cons d ds)
  obtain h where h: "Transaction_Hash (pv_E V) (de_Tx d) = Inr h" using Cons.prems(2) by (auto simp: andThen_Inr_iff)
  let ?tp = "tp\<lparr>tp_pool := fmdrop h (tp_pool tp), tp_poolSerialNumbers := fmdrop h (tp_poolSerialNumbers tp),
           tp_txCoinHashHPool := fmdrop h (tp_txCoinHashHPool tp), tp_CandidatePool := fmdrop h (tp_CandidatePool tp),
           tp_TokenIDPool := fmdrop h (tp_TokenIDPool tp)\<rparr>"
  have "drop_expired V ds ?tp = Inr tp'" using Cons.prems(2) by (auto simp: h andThen_ok andThen_Inr_iff Let_def)
  moreover have "pool_inv (pv_E V) ?tp" by (rule pool_inv_drop [OF Cons.prems(1), of _ h]) auto
  ultimately show ?case by (rule Cons.IH [rotated])
qed simp

lemma pool_inv_removeTx:
  assumes "pool_inv (pv_E V) tp" and "removeTx V now t tp = Inr (tp', err)"
  shows "pool_inv (pv_E V) tp'"
proof -
  from assms(2) obtain h where "tp' = tp \<or> tp' = tp\<lparr>tp_pool := fmdrop h (tp_pool tp), tp_lastUpdated := now div 1000000000\<rparr>"
    by (auto simp: removeTx_def andThen_Inr_iff split: if_splits)
  then show ?thesis using assms(1) pool_inv_drop [OF assms(1), of tp' h] by auto
qed

lemma pool_inv_RemoveTx:
  assumes inv: "pool_inv (pv_E V) tp" and "RemoveTx V now b t tp = Inr (tp', err)"
  shows "pool_inv (pv_E V) tp'"
proof (cases "tp' = tp")
  case False
  with assms(2) obtain h tp1 e where "removeTx V now t (RemoveTransactionFromDatabaseMP V h tp) = Inr (tp1, e)" "tp' = RemoveTxCoinHashH h tp1"
    by (auto simp: RemoveTx_def Let_def andThen_Inr_iff split: if_splits)
  then show ?thesis using pool_inv_removeTx pool_inv_same inv same_lists(2) same_unstore by metis
qed (use inv in simp)

lemma pool_inv_load_entries:
  assumes "ord_ok (pv_ord V)"
  shows "pool_inv (pv_E V) tp \<Longrightarrow> load_entries V C now kvs tp = Inr (tp', ds) \<Longrightarrow> pool_inv (pv_E V) tp'"
proof (induction kvs arbitrary: tp ds)
  case (Cons kv kvs)
  have rm: "pool_inv (pv_E V) (RemoveTransactionFromDatabaseMP V h x)" if "pool_inv (pv_E V) x" for h x
    using that same_unstore by (rule pool_inv_same [rotated])
  obtain k v where kv: "kv = (k, v)" by fastforce
  from Cons.prems(2) obtain r where r: "read_entry V v = Inr r" unfolding kv by (auto simp: andThen_Inr_iff)
  show ?case
  proof (cases r)
    case None
    then show ?thesis using Cons.prems r rm Cons.IH unfolding kv by (auto simp: andThen_def split: if_splits sum.splits)
  next
    case (Some p)
    obtain topt td where p: "p = (topt, td)" by fastforce
    from Cons.prems(2) obtain t where t: "topt = Some t" unfolding kv by (auto simp: r Some p andThen_Inr_iff deref_def split: option.splits)
    define r1 where "r1 = (if now - tm_StartTime td > ttl tp
      then andThen (Transaction_Hash (pv_E V) t) (\<lambda>h. Inr (RemoveTransactionFromDatabaseMP V h tp)) else Inr tp)"
    have step: "andThen r1 (\<lambda>tp. andThen (ValidateTransaction V C t tp) (\<lambda>err.
             if err \<noteq> None
             then andThen (Transaction_Hash (pv_E V) t) (\<lambda>h. load_entries V C now kvs (RemoveTransactionFromDatabaseMP V h tp))
             else andThen (addTx V now False (restore_desc t td) tp) (\<lambda>tp.
               andThen (load_entries V C now kvs tp) (\<lambda>(tp, ds). Inr (tp, restore_desc t td # ds))))) = Inr (tp', ds)"
      using Cons.prems(2) unfolding kv r1_def by (simp add: r Some p t deref_def andThen_ok)
    then obtain tp1 e where tp1: "r1 = Inr tp1" and e: "ValidateTransaction V C t tp1 = Inr e" by (auto simp: andThen_Inr_iff)
    have tp1: "tp1 = tp \<or> (\<exists>h. tp1 = RemoveTransactionFromDatabaseMP V h tp)" using tp1 by (auto simp: r1_def andThen_Inr_iff split: if_splits)
    have rest: "(\<exists>h. load_entries V C now kvs (RemoveTransactionFromDatabaseMP V h tp1) = Inr (tp', ds))
        \<or> e = None \<and> (\<exists>tp2 ds'. addTx V now False (restore_desc t td) tp1 = Inr tp2 \<and> load_entries V C now kvs tp2 = Inr (tp', ds'))"
      using step \<open>r1 = Inr tp1\<close> e by (auto simp: andThen_Inr_iff split: if_splits)
    have inv1: "pool_inv (pv_E V) tp1" using tp1 rm Cons.prems(1) by blast
    show ?thesis using rest
    proof
      assume "\<exists>h. load_entries V C now kvs (RemoveTransactionFromDatabaseMP V h tp1) = Inr (tp', ds)"
      then show ?thesis using Cons.IH rm [OF inv1] by blast
    next
      assume "e = None \<and> (\<exists>tp2 ds'. addTx V now False (restore_desc t td) tp1 = Inr tp2 \<and> load_entries V C now kvs tp2 = Inr (tp', ds'))"
      then obtain tp2 ds' where add: "addTx V now False (restore_desc t td) tp1 = Inr tp2" and l: "load_entries V C now kvs tp2 = Inr (tp', ds')"
        and "ValidateTransaction V C (de_Tx (restore_desc t td)) tp1 = Inr None" using e by (auto simp: restore_desc_def)
      from pool_inv_validated [OF assms inv1 this(3) add] l show ?thesis by (rule Cons.IH)
    qed
  qed
qed simp

lemma reachable_inv:
  assumes "ord_ok (pv_ord V)" and "pool_reachable V tp"
  shows "pool_inv (pv_E V) tp"
  using assms(2)
proof (induction rule: pool_reachable.induct)
  case (init cfg)
  show ?case by (simp add: pool_inv_def TxPool_Init_def typed_in_def)
next
  case (accept tp C now t tp' r)
  then show ?case using pool_inv_accept [OF assms(1)] by blast
next
  case (produce tp C now t tp' d)
  then show ?case using pool_inv_maybeAccept [OF assms(1)] by (auto simp: MaybeAcceptTransactionForBlockProducing_def andThen_Inr_iff)
next
  case (block tp C now arrival txs tp' err)
  then show ?case using pool_inv_block [OF assms(1)] by (auto simp: ValidateTxList_def andThen_Inr_iff split: if_splits)
next
  case (monitor tp now tp')
  then show ?case using pool_inv_expired by (auto simp: MonitorPool_round_def split: if_splits)
next
  case (empty tp tp' b)
  then show ?case by (auto simp: EmptyPool_def pool_inv_def typed_in_def split: if_splits)
next
  case (load tp C now tp')
  have "pool_inv (pv_E V) (fst (ResetDatabaseMP V tp))" using load.IH same_lists(9) by (rule pool_inv_same [rotated])
  moreover have "pool_inv (pv_E V) tp'" if "LoadDatabaseMP V C now tp = Inr (tp', x)" for x
    using that pool_inv_load_entries [OF assms(1) load.IH] load.IH
    unfolding LoadDatabaseMP_def case_prod_beta by (auto simp: andThen_Inr_iff split: if_splits)
  ultimately show ?case using load(2) by (auto simp: LoadOrResetDatabaseMP_def andThen_Inr_iff split: if_splits)
next
  case (forwarded tp h tp')
  then obtain d where d: "fmlookup (tp_pool tp) h = Some d" and tp': "tp' = tp\<lparr>tp_pool := fmupd h (d\<lparr>de_IsFowardMessage := True\<rparr>) (tp_pool tp)\<rparr>"
    by (auto simp: MarkFowardedTransaction_def andThen_Inr_iff deref_def split: option.splits)
  have "typed_in tp' = typed_in tp" "serials_of tp' = serials_of tp" using d by (auto simp: tp' typed_in_def serials_of_def fun_eq_iff)
  then show ?case using forwarded.IH d unfolding pool_inv_def by (auto simp: tp' entry_ok_def)
next
  case (block_gen tp b)
  show ?case by (rule pool_inv_same [OF _ block_gen.IH]) (simp add: same_entries_def)
qed (blast intro: pool_inv_RemoveTx pool_inv_same same_intros)+

section \<open>Transactions of an unknown type\<close>

lemma wrong_type_passes:
  assumes "Transaction_Hash (pv_E V) t = Inr h" and "\<not> isTxInPool h tp" and "tx_Version (Transaction_base t) \<le> MaxVersion"
    and "Transaction_GetTxActualSize (pv_E V) t = Inr sz" and "sz < MaxTxSize" and "IsSalaryTx (Transaction_base t) = Inr False"
    and "Transaction_CheckTransactionFee (pv_E V) GetFeePerKbTx t = Inr True" and "\<not> Transaction_ValidateType t"
  shows "ValidateTransaction V C t tp = Inr None"
proof -
  have "\<not> (MaxBlockSize \<le> sz \<or> MaxTxSize \<le> sz)" using assms(5) by (auto simp: MaxBlockSize_def MaxTxSize_def word_le_nat_alt word_less_nat_alt)
  then show ?thesis using assms by (simp add: ValidateTransaction_def andThen_ok CheckTxVersion_def)
qed

lemma no_fee_required: "tx_Metadata x = None \<Longrightarrow> tx_Type x \<noteq> TxRewardType \<Longrightarrow> Tx_GetTxActualSize E x = Inr sz
  \<Longrightarrow> Tx_CheckTransactionFee E GetFeePerKbTx x = Inr True"
  by (simp add: Tx_CheckTransactionFee_def IsSalaryTx_def andThen_ok GetFeePerKbTx_def)

lemma unknown_type_passes:
  assumes "tx_Type x \<notin> {TxNormalType, TxRewardType, TxReturnStakingType}" and "tx_Version x \<le> 1" and "tx_Metadata x = None"
    and "Tx_Hash (pv_E V) x = Inr h" and "\<not> isTxInPool h tp" and "Tx_GetTxActualSize (pv_E V) x = Inr sz" and "sz < MaxTxSize"
  shows "ValidateTransaction V C (NormalTx x) tp = Inr None"
  by (rule wrong_type_passes [where h = h and sz = sz])
    (use assms no_fee_required [OF assms(3) _ assms(6)] in \<open>auto simp: Transaction_Hash_def Transaction_base_def MaxVersion_def Transaction_GetTxActualSize_def
      IsSalaryTx_def Transaction_CheckTransactionFee_def Transaction_ValidateType_def Tx_ValidateType_def\<close>)

lemma unknown_type_added:
  assumes "tx_Type x \<notin> {TxNormalType, TxCustomTokenType, TxCustomTokenPrivacyType}" and "tx_Metadata x = None" and "Tx_Hash (pv_E V) x = Inr h"
    and "ListNullifiers (pv_E V) x = Inr ns" and "fmlookup (tp_txCoinHashHPool tp) h = None" and "de_Tx d = NormalTx x"
  shows "addTx V now isStore d tp = Inr (tp\<lparr>tp_pool := fmupd h d (tp_pool tp), tp_poolSerialNumbers := fmupd h ns (tp_poolSerialNumbers tp),
    tp_lastUpdated := now div 1000000000\<rparr>)"
  using assms by (auto simp: addTx_def Let_def andThen_ok Transaction_Hash_def AddTransactionToDatabaseMP_def GetType_def Transaction_base_def
    Transaction_ListNullifiers_def observe_fee_def AddTxCoinHashH_def stake_key_def is_staking_def GetMetadata_def init_token_def)

section \<open>Example\<close>

text \<open>A payment of an unknown type that spends the coin of \<open>ex_spender\<close>, and an empty pool without persistence.\<close>

definition ex_forged :: "(unit, unit, unit, unit, unit) ptx" where
  "ex_forged = ex_spender\<lparr>tx_Type := ''zz''\<rparr>"

definition ex_js :: "((point, unit, unit, unit, unit) PaymentProof, unit) json_ops" where
  "ex_js = \<lparr>js_MarshalTx = (\<lambda>_. Some [1]), js_UnmarshalTx = (\<lambda>_. Some ex_tx), js_UnmarshalToken = (\<lambda>_. None), js_UnmarshalPrivacy = (\<lambda>_. None),
     js_MarshalDesc = (\<lambda>td. Some (replicate (nat (tm_StartTime td)) 1)),
     js_UnmarshalDesc = (\<lambda>b. Some \<lparr>tm_StartTime = int (length b), tm_IsPushMessage = False, tm_Height = 5, tm_Fee = 0, tm_FeePerKB = 0\<rparr>)\<rparr>"

definition ex_pv :: "(unit, unit, unit, unit, unit, (bytes, bytes) fmap, (bytes, bytes) fmap) pool_env" where
  "ex_pv = \<lparr>pv_E = ex_env, pv_D = mem_db, pv_M = mem_db, pv_js = ex_js, pv_overflow = 0, pv_ord = sorted_list_of_fset\<rparr>"

definition ex_chain :: "(unit, unit, unit, unit, unit, (bytes, bytes) fmap) pchain" where
  "ex_chain = \<lparr>cx_view = ex_view, cx_db = fmempty, cx_best = (\<lambda>_. Some 5)\<rparr>"

definition ex_pool :: "(unit, unit, unit, unit, unit, (bytes, bytes) fmap) pool" where
  "ex_pool = TxPool_Init \<lparr>cf_FeeEstimator = None, cf_TxLifeTime = 0, cf_MaxTx = 10, cf_IsLoadFromMempool = False, cf_PersistMempool = True,
     cf_RelayShards = [0], cf_DataBaseMempool = fmempty\<rparr>"

definition ex_fh :: hash where
  "ex_fh = projr (Tx_Hash ex_env ex_forged)"

definition ex_fdesc :: "(unit, unit, unit, unit, unit) pdesc" where
  "ex_fdesc = createTxDescMempool 7 (NormalTx ex_forged) 5 0"

definition ex_pool1 :: "(unit, unit, unit, unit, unit, (bytes, bytes) fmap) pool" where
  "ex_pool1 = ex_pool\<lparr>tp_pool := fmupd ex_fh ex_fdesc fmempty, tp_poolSerialNumbers := fmupd ex_fh [Compress ex_curve (4, 5)] fmempty\<rparr>"

lemma ex_ord: "ord_ok (pv_ord ex_pv)"
  by (simp add: ord_ok_def ex_pv_def sorted_list_of_fset.rep_eq)

lemma ex_forged_fields: "tx_Type ex_forged = ''zz''" "tx_Version ex_forged = 1" "tx_Metadata ex_forged = None" "tx_Fee ex_forged = 0"
  by (simp_all add: ex_forged_def ex_spender_def ex_tx_def)

lemma ex_forged_hash: "Tx_Hash ex_env ex_forged = Inr ex_fh"
proof -
  have "\<exists>h. Tx_Hash ex_env ex_forged = Inr h"
    by (simp add: Tx_Hash_def Tx_String_def ex_forged_def ex_spender_def new_PaymentProof_def ex_tx_def PaymentProof_Bytes_def write_range_def andThen_def
        Base58Check_Encode_eq)
  then show ?thesis by (auto simp: ex_fh_def)
qed

lemma ex_forged_size: "Tx_GetTxActualSize ex_env ex_forged = Inr 1"
  unfolding ex_forged_def by code_simp

lemma ex_forged_serials: "ListNullifiers ex_env ex_forged = Inr [Compress ex_curve (4, 5)]"
  by (simp add: ListNullifiers_def ex_forged_def ex_spender_def new_PaymentProof_def new_Coin_def serial_number_def andThen_def deref_def ex_env_def)

lemma ex_pool_accepted: "MaybeAcceptTransactionForBlockProducing ex_pv ex_chain 7 (NormalTx ex_forged) ex_pool = Inr (ex_pool1, Inr ex_fdesc)"
proof -
  have E: "pv_E ex_pv = ex_env" by (simp add: ex_pv_def)
  have "ValidateTransaction ex_pv ex_chain (NormalTx ex_forged) ex_pool = Inr None"
    by (rule unknown_type_passes [where h = ex_fh and sz = 1])
      (simp_all add: ex_forged_fields E ex_forged_hash ex_forged_size TxNormalType_def TxRewardType_def TxReturnStakingType_def
        isTxInPool_def ex_pool_def TxPool_Init_def MaxTxSize_def)
  moreover have "addTx ex_pv 7 False ex_fdesc ex_pool = Inr ex_pool1"
    by (subst unknown_type_added [where x = ex_forged and h = ex_fh and ns = "[Compress ex_curve (4, 5)]"])
      (simp_all add: ex_forged_fields E ex_forged_hash ex_forged_serials TxNormalType_def TxCustomTokenType_def TxCustomTokenPrivacyType_def
        ex_pool_def ex_pool1_def TxPool_Init_def ex_fdesc_def createTxDescMempool_def)
  ultimately show ?thesis
    by (simp add: MaybeAcceptTransactionForBlockProducing_def maybeAcceptTransaction_def andThen_ok E Transaction_GetTxActualSize_def ex_forged_size
        ex_chain_def deref_def GetTxFee_def Transaction_base_def ex_forged_fields ex_fdesc_def Transaction_Hash_def ex_forged_hash)
qed

lemma ex_pool_reachable: "pool_reachable ex_pv ex_pool1"
  by (rule pool_reachable.produce [OF _ ex_pool_accepted]) (simp add: ex_pool_def pool_reachable.init)

section \<open>Properties\<close>

text \<open>C7: The pool and double spending of the native coin: in every reachable pool an entry is filed under the hash of its transaction, the
  serial numbers of the native-coin payment of that transaction (\<open>ListNullifiers\<close>) are on record, and no other entry has one of them in its native-coin payment, as
  long as both transactions have the type of their kind (\<open>ValidateType\<close>). The coins of a privacy token have serial numbers of their own, in the token part
  of a \<open>TxCustomTokenPrivacy\<close>; the pool neither records nor compares these, and nothing is claimed for them.
\<close>

theorem pool_no_double_spend:
  assumes "ord_ok (pv_ord V)" and "pool_reachable V tp" and "fmlookup (tp_pool tp) h = Some d"
  shows "Transaction_Hash (pv_E V) (de_Tx d) = Inr h \<and> (\<exists>ns. Transaction_ListNullifiers (pv_E V) (de_Tx d) = Inr ns
    \<and> fmlookup (tp_poolSerialNumbers tp) h = Some ns
    \<and> (\<forall>h' d'. fmlookup (tp_pool tp) h' = Some d' \<longrightarrow> h' \<noteq> h \<longrightarrow> Transaction_ValidateType (de_Tx d) \<longrightarrow> Transaction_ValidateType (de_Tx d')
        \<longrightarrow> (\<exists>ns'. Transaction_ListNullifiers (pv_E V) (de_Tx d') = Inr ns' \<and> set ns \<inter> set ns' = {})))"
proof -
  have inv: "pool_inv (pv_E V) tp" by (rule reachable_inv [OF assms(1,2)])
  have ok: "Transaction_Hash (pv_E V) (de_Tx d') = Inr x \<and> (\<exists>ns. Transaction_ListNullifiers (pv_E V) (de_Tx d') = Inr ns
      \<and> fmlookup (tp_poolSerialNumbers tp) x = Some ns \<and> serials_of tp x = set ns)" if "fmlookup (tp_pool tp) x = Some d'" for x d'
    using inv that unfolding pool_inv_def entry_ok_def serials_of_def map_get_def by fastforce
  from ok [OF assms(3)] obtain ns where ns: "Transaction_Hash (pv_E V) (de_Tx d) = Inr h" "Transaction_ListNullifiers (pv_E V) (de_Tx d) = Inr ns"
    "fmlookup (tp_poolSerialNumbers tp) h = Some ns" "serials_of tp h = set ns" by blast
  have "\<exists>ns'. Transaction_ListNullifiers (pv_E V) (de_Tx d') = Inr ns' \<and> set ns \<inter> set ns' = {}"
    if x: "fmlookup (tp_pool tp) x = Some d'" "x \<noteq> h" "Transaction_ValidateType (de_Tx d)" "Transaction_ValidateType (de_Tx d')" for x d'
  proof -
    have "typed_in tp h" "typed_in tp x" using x assms(3) by (simp_all add: typed_in_def)
    then have "serials_of tp h \<inter> serials_of tp x = {}" using inv x(2) unfolding pool_inv_def by metis
    then show ?thesis using ok [OF x(1)] ns(4) by auto
  qed
  then show ?thesis using ns by blast
qed

theorem pool_no_double_spend_witness:
  "Transaction_Hash ex_env (NormalTx ex_forged) = Inr ex_fh
    \<and> fmlookup (tp_poolSerialNumbers ex_pool1) ex_fh = Some [Compress ex_curve (4, 5)]"
proof -
  have "fmlookup (tp_pool ex_pool1) ex_fh = Some ex_fdesc" by (simp add: ex_pool1_def)
  from pool_no_double_spend [OF ex_ord ex_pool_reachable this]
  have "Transaction_Hash ex_env (NormalTx ex_forged) = Inr ex_fh" by (simp add: ex_pv_def ex_fdesc_def createTxDescMempool_def)
  then show ?thesis by (simp add: ex_pool1_def)
qed

text \<open>C37: A wrong type switches the checks off: a payment whose type is none of the known ones, with version at most 1, without
  metadata and of a size below 100 KB, passes \<open>ValidateTransaction\<close> in every state of the chain and of the pool that does not
  have it yet, whatever it spends.
\<close>

theorem pool_unknown_type_accepted:
  assumes "tx_Type x \<notin> {TxNormalType, TxRewardType, TxReturnStakingType}" and "tx_Version x \<le> 1" and "tx_Metadata x = None"
    and "Tx_Hash (pv_E V) x = Inr h" and "fmlookup (tp_pool tp) h = None" and "Tx_GetTxActualSize (pv_E V) x = Inr sz" and "sz < 100"
  shows "ValidateTransaction V C (NormalTx x) tp = Inr None"
  using unknown_type_passes [OF assms(1-4) _ assms(6)] assms(5,7) by (simp add: isTxInPool_def MaxTxSize_def)

theorem pool_unknown_type_accepted_witness:
  "ValidateTransaction ex_pv ex_chain (NormalTx ex_forged)
     (ex_pool\<lparr>tp_poolSerialNumbers := fmupd [9] [Compress ex_curve (4, 5)] fmempty\<rparr>) = Inr None
   \<and> Transaction_ListNullifiers ex_env (NormalTx ex_forged) = Inr [Compress ex_curve (4, 5)]"
proof
  show "ValidateTransaction ex_pv ex_chain (NormalTx ex_forged) (ex_pool\<lparr>tp_poolSerialNumbers := fmupd [9] [Compress ex_curve (4, 5)] fmempty\<rparr>) = Inr None"
    by (rule pool_unknown_type_accepted [where h = ex_fh and sz = 1])
      (simp_all add: ex_forged_fields ex_pv_def ex_forged_hash ex_forged_size TxNormalType_def TxRewardType_def TxReturnStakingType_def
        ex_pool_def TxPool_Init_def)
  show "Transaction_ListNullifiers ex_env (NormalTx ex_forged) = Inr [Compress ex_curve (4, 5)]"
    by (simp add: Transaction_ListNullifiers_def Transaction_base_def ex_forged_serials)
qed

text \<open>Removing a transaction does not free its coins: after \<open>RemoveTx\<close> the serial numbers stay on record, and a transaction
  of a correct type that spends one of them is still refused.
\<close>

theorem pool_removed_still_spent:
  assumes "ord_ok (pv_ord V)" and "RemoveTx V now isInBlock t tp = Inr (tp', err)" and "fmlookup (tp_poolSerialNumbers tp) h = Some ns"
    and "sn \<in> set ns" and "Transaction_ListNullifiers (pv_E V) t' = Inr ns'" and "sn \<in> set ns'" and "Transaction_ValidateType t'"
  shows "ValidateTransaction V C t' tp' \<noteq> Inr None"
proof
  assume ok: "ValidateTransaction V C t' tp' = Inr None"
  have "tp_poolSerialNumbers tp' = tp_poolSerialNumbers tp"
    using assms(2) by (auto simp: RemoveTx_def removeTx_def Let_def andThen_Inr_iff RemoveTransactionFromDatabaseMP_def RemoveTxCoinHashH_def
      split: if_splits option.splits)
  then have "ns \<in> set (GetSerialNumbers (pv_ord V) tp')" using in_GetSerialNumbers [OF assms(1)] assms(3) by metis
  from seen_serial_refused [OF assms(5,6) this assms(4)] ValidateTransaction_passed(2) [OF ok assms(7)] show False by blast
qed

lemma ex_removed: "\<exists>tp' err. RemoveTx ex_pv 9 True (NormalTx ex_forged) ex_pool1 = Inr (tp', err) \<and> fmlookup (tp_pool tp') ex_fh = None"
  by (simp add: RemoveTx_def removeTx_def andThen_def Transaction_Hash_def ex_pv_def ex_forged_hash isTxInPool_def ex_pool1_def ex_pool_def TxPool_Init_def
      RemoveTransactionFromDatabaseMP_def mp_HasTransaction_def mem_db_def RemoveTxCoinHashH_def CalPoolSize_def pool_descs_def range_values_def
      Transaction_GetTxActualSize_def ex_forged_size sorted_list_of_fset.rep_eq List.map_filter_def)

theorem pool_removed_still_spent_witness:
  "\<exists>tp' err. RemoveTx ex_pv 9 True (NormalTx ex_forged) ex_pool1 = Inr (tp', err) \<and> fmlookup (tp_pool tp') ex_fh = None
    \<and> ValidateTransaction ex_pv ex_chain (NormalTx ex_spender) tp' \<noteq> Inr None"
proof -
  obtain tp' err where rm: "RemoveTx ex_pv 9 True (NormalTx ex_forged) ex_pool1 = Inr (tp', err)" and "fmlookup (tp_pool tp') ex_fh = None"
    using ex_removed by blast
  moreover have "ListNullifiers ex_env ex_spender = Inr [Compress ex_curve (4, 5)]"
    using ex_forged_serials by (simp add: ListNullifiers_def ex_forged_def)
  then have "ValidateTransaction ex_pv ex_chain (NormalTx ex_spender) tp' \<noteq> Inr None"
    by (intro pool_removed_still_spent [OF ex_ord rm, where h = ex_fh and ns = "[Compress ex_curve (4, 5)]" and sn = "Compress ex_curve (4, 5)" and ns' = "[Compress ex_curve (4, 5)]"])
      (simp_all add: ex_pool1_def Transaction_ListNullifiers_def Transaction_base_def ex_pv_def Transaction_ValidateType_def Tx_ValidateType_def
        ex_spender_def ex_tx_def TxNormalType_def)
  ultimately show ?thesis by blast
qed

end
