(* ===== verification/BFT_Message.thy ===== *)
theory BFT_Message
  imports Key_Set Go_Strings
begin

text \<open>
  The messages of the consensus: \<open>src/wire/messagebft*.go\<close> and the functions \<open>MakeMsgBFT*\<close> of
  \<open>src/consensus/constantbft/message.go\<close>. A message carries the base58 key of its sender and a
  signature over the other fields, which \<open>VerifyMsgSanity\<close> checks before the message reaches the
  engine (\<open>HandleMessageBFTMsg\<close> of \<open>src/netsync\<close>). The time of the clock and the nonce of a signature are
  arguments; so is the order in which \<open>fmt.Sprint\<close> visits the map of a ready message.
\<close>

section \<open>The messages\<close>

record MessageBFTReq =
  rq_BestStateHash :: hash
  rq_Round :: int
  rq_Pubkey :: string
  rq_ContentSig :: string
  rq_Timestamp :: int

record MessageBFTReady =
  rd_PoolState :: "(byte, uint64) fmap"
  rd_BestStateHash :: hash
  rd_Round :: int
  rd_Pubkey :: string
  rd_ContentSig :: string
  rd_Timestamp :: int

record MessageBFTPropose =
  pp_Layer :: string
  pp_ShardID :: byte
  pp_Block :: bytes
  pp_ContentSig :: string
  pp_Pubkey :: string
  pp_Timestamp :: int

record MessageBFTPrepare =
  pr_BlkHash :: hash
  pr_Ri :: bytes
  pr_Pubkey :: string
  pr_ContentSig :: string
  pr_Timestamp :: int

record MessageBFTCommit =
  cm_CommitSig :: string
  cm_R :: string
  cm_ValidatorsIdx :: "int list"
  cm_Pubkey :: string
  cm_ContentSig :: string
  cm_Timestamp :: int

text \<open>The values of the interface \<open>wire.Message\<close> that the consensus handles.\<close>

datatype bft_message =
    BFTReq MessageBFTReq | BFTReady MessageBFTReady | BFTPropose MessageBFTPropose
  | BFTPrepare MessageBFTPrepare | BFTCommit MessageBFTCommit

fun MessageType :: "bft_message \<Rightarrow> string" where
  "MessageType (BFTReq _) = ''bftreq''"
| "MessageType (BFTReady _) = ''bftready''"
| "MessageType (BFTPropose _) = ''bftpropose''"
| "MessageType (BFTPrepare _) = ''bftprepare''"
| "MessageType (BFTCommit _) = ''bftcommit''"

fun MaxPayloadLength :: "bft_message \<Rightarrow> nat" where
  "MaxPayloadLength (BFTPropose _) = 2000000"
| "MaxPayloadLength _ = 1000"

section \<open>Signed bytes\<close>

text \<open>\<open>fmt.Sprint\<close> of a slice of integers and of a map, whose entries come in the order given.\<close>

definition sprint_ints :: "int list \<Rightarrow> string" where
  "sprint_ints xs = CHR ''['' # join_with CHR '' '' (map itoa xs) @ [CHR '']'']"

definition sprint_pool_state :: "byte list \<Rightarrow> (byte, uint64) fmap \<Rightarrow> string" where
  "sprint_pool_state order m =
     ''map['' @ join_with CHR '' '' (map (\<lambda>k. decimal (unat k) @ CHR '':'' # decimal (unat (map_get 0 m k))) order) @ [CHR '']'']"

definition req_data :: "MessageBFTReq \<Rightarrow> bytes" where
  "req_data m = Hash_GetBytes (rq_BestStateHash m) @ bytes_of_string (itoa (rq_Round m)) @ bytes_of_string (rq_Pubkey m)
     @ bytes_of_string (itoa (rq_Timestamp m))"

definition ready_data :: "byte list \<Rightarrow> MessageBFTReady \<Rightarrow> bytes" where
  "ready_data order m = bytes_of_string (sprint_pool_state order (rd_PoolState m)) @ Hash_GetBytes (rd_BestStateHash m)
     @ bytes_of_string (itoa (rd_Round m)) @ bytes_of_string (rd_Pubkey m) @ bytes_of_string (itoa (rd_Timestamp m))"

definition propose_data :: "MessageBFTPropose \<Rightarrow> bytes" where
  "propose_data m = bytes_of_string (pp_Layer m) @ [pp_ShardID m] @ pp_Block m @ bytes_of_string (pp_Pubkey m)
     @ bytes_of_string (itoa (pp_Timestamp m))"

definition prepare_data :: "MessageBFTPrepare \<Rightarrow> bytes" where
  "prepare_data m = Hash_GetBytes (pr_BlkHash m) @ bytes_of_string (pr_Pubkey m) @ pr_Ri m @ bytes_of_string (itoa (pr_Timestamp m))"

definition commit_data :: "MessageBFTCommit \<Rightarrow> bytes" where
  "commit_data m = bytes_of_string (cm_CommitSig m) @ bytes_of_string (cm_R m) @ bytes_of_string (cm_Pubkey m)
     @ bytes_of_string (sprint_ints (cm_ValidatorsIdx m)) @ bytes_of_string (itoa (cm_Timestamp m))"

fun msg_data :: "byte list \<Rightarrow> bft_message \<Rightarrow> bytes" where
  "msg_data order (BFTReq m) = req_data m"
| "msg_data order (BFTReady m) = ready_data order m"
| "msg_data order (BFTPropose m) = propose_data m"
| "msg_data order (BFTPrepare m) = prepare_data m"
| "msg_data order (BFTCommit m) = commit_data m"

fun msg_Pubkey :: "bft_message \<Rightarrow> string" where
  "msg_Pubkey (BFTReq m) = rq_Pubkey m"
| "msg_Pubkey (BFTReady m) = rd_Pubkey m"
| "msg_Pubkey (BFTPropose m) = pp_Pubkey m"
| "msg_Pubkey (BFTPrepare m) = pr_Pubkey m"
| "msg_Pubkey (BFTCommit m) = cm_Pubkey m"

fun msg_ContentSig :: "bft_message \<Rightarrow> string" where
  "msg_ContentSig (BFTReq m) = rq_ContentSig m"
| "msg_ContentSig (BFTReady m) = rd_ContentSig m"
| "msg_ContentSig (BFTPropose m) = pp_ContentSig m"
| "msg_ContentSig (BFTPrepare m) = pr_ContentSig m"
| "msg_ContentSig (BFTCommit m) = cm_ContentSig m"

fun set_ContentSig :: "string \<Rightarrow> bft_message \<Rightarrow> bft_message" where
  "set_ContentSig t (BFTReq m) = BFTReq (m\<lparr>rq_ContentSig := t\<rparr>)"
| "set_ContentSig t (BFTReady m) = BFTReady (m\<lparr>rd_ContentSig := t\<rparr>)"
| "set_ContentSig t (BFTPropose m) = BFTPropose (m\<lparr>pp_ContentSig := t\<rparr>)"
| "set_ContentSig t (BFTPrepare m) = BFTPrepare (m\<lparr>pr_ContentSig := t\<rparr>)"
| "set_ContentSig t (BFTCommit m) = BFTCommit (m\<lparr>cm_ContentSig := t\<rparr>)"

text \<open>\<open>SignMsg\<close>: the message with its signature, empty when signing fails, and whether there was no error.\<close>

definition SignMsg ::
  "(bytes \<Rightarrow> bytes) \<Rightarrow> curve \<Rightarrow> point list \<Rightarrow> byte list \<Rightarrow> KeySet \<Rightarrow> int \<Rightarrow> bft_message \<Rightarrow> fault + bft_message \<times> bool" where
  "SignMsg sum256 cv G order ks s m =
     andThen (SignDataB58 sum256 cv G ks s (msg_data order m)) (\<lambda>r.
       case r of None \<Rightarrow> Inr (set_ContentSig '''' m, False) | Some t \<Rightarrow> Inr (set_ContentSig t m, True))"

definition VerifyMsgSanity ::
  "(bytes \<Rightarrow> bytes) \<Rightarrow> curve \<Rightarrow> point list \<Rightarrow> byte list \<Rightarrow> bft_message \<Rightarrow> fault + data_error option" where
  "VerifyMsgSanity sum256 cv G order m =
     ValidateDataB58 sum256 cv G (msg_Pubkey m) (msg_ContentSig m) (msg_data order m)"

section \<open>Making messages\<close>

definition MakeMsgBFTReq ::
  "(bytes \<Rightarrow> bytes) \<Rightarrow> curve \<Rightarrow> point list \<Rightarrow> KeySet \<Rightarrow> int \<Rightarrow> int \<Rightarrow> hash \<Rightarrow> int \<Rightarrow> fault + bft_message \<times> bool" where
  "MakeMsgBFTReq sum256 cv G ks s now bestStateHash rnd =
     andThen (GetPublicKeyB58 sum256 ks) (\<lambda>pk. SignMsg sum256 cv G [] ks s
       (BFTReq \<lparr>rq_BestStateHash = bestStateHash, rq_Round = rnd, rq_Pubkey = pk, rq_ContentSig = '''', rq_Timestamp = now\<rparr>))"

definition MakeMsgBFTReady ::
  "(bytes \<Rightarrow> bytes) \<Rightarrow> curve \<Rightarrow> point list \<Rightarrow> byte list \<Rightarrow> KeySet \<Rightarrow> int \<Rightarrow> int \<Rightarrow> hash \<Rightarrow> int \<Rightarrow> (byte, uint64) fmap
   \<Rightarrow> fault + bft_message \<times> bool" where
  "MakeMsgBFTReady sum256 cv G order ks s now bestStateHash rnd poolState =
     andThen (GetPublicKeyB58 sum256 ks) (\<lambda>pk. SignMsg sum256 cv G order ks s
       (BFTReady \<lparr>rd_PoolState = poolState, rd_BestStateHash = bestStateHash, rd_Round = rnd, rd_Pubkey = pk,
                  rd_ContentSig = '''', rd_Timestamp = now\<rparr>))"

definition MakeMsgBFTPropose ::
  "(bytes \<Rightarrow> bytes) \<Rightarrow> curve \<Rightarrow> point list \<Rightarrow> KeySet \<Rightarrow> int \<Rightarrow> int \<Rightarrow> bytes \<Rightarrow> string \<Rightarrow> byte \<Rightarrow> fault + bft_message \<times> bool" where
  "MakeMsgBFTPropose sum256 cv G ks s now block layer shardID =
     andThen (GetPublicKeyB58 sum256 ks) (\<lambda>pk. SignMsg sum256 cv G [] ks s
       (BFTPropose \<lparr>pp_Layer = layer, pp_ShardID = shardID, pp_Block = block, pp_ContentSig = '''', pp_Pubkey = pk, pp_Timestamp = now\<rparr>))"

definition MakeMsgBFTPrepare ::
  "(bytes \<Rightarrow> bytes) \<Rightarrow> curve \<Rightarrow> point list \<Rightarrow> KeySet \<Rightarrow> int \<Rightarrow> int \<Rightarrow> bytes \<Rightarrow> hash \<Rightarrow> fault + bft_message \<times> bool" where
  "MakeMsgBFTPrepare sum256 cv G ks s now Ri blkHash =
     andThen (GetPublicKeyB58 sum256 ks) (\<lambda>pk. SignMsg sum256 cv G [] ks s
       (BFTPrepare \<lparr>pr_BlkHash = blkHash, pr_Ri = Ri, pr_Pubkey = pk, pr_ContentSig = '''', pr_Timestamp = now\<rparr>))"

definition MakeMsgBFTCommit ::
  "(bytes \<Rightarrow> bytes) \<Rightarrow> curve \<Rightarrow> point list \<Rightarrow> KeySet \<Rightarrow> int \<Rightarrow> int \<Rightarrow> string \<Rightarrow> string \<Rightarrow> int list \<Rightarrow> fault + bft_message \<times> bool" where
  "MakeMsgBFTCommit sum256 cv G ks s now commitSig R validatorsIdx =
     andThen (GetPublicKeyB58 sum256 ks) (\<lambda>pk. SignMsg sum256 cv G [] ks s
       (BFTCommit \<lparr>cm_CommitSig = commitSig, cm_R = R, cm_ValidatorsIdx = validatorsIdx, cm_Pubkey = pk,
                   cm_ContentSig = '''', cm_Timestamp = now\<rparr>))"

section \<open>Facts\<close>

lemma msg_set_ContentSig [simp]:
  "msg_data order (set_ContentSig t m) = msg_data order m"
  "msg_Pubkey (set_ContentSig t m) = msg_Pubkey m"
  "msg_ContentSig (set_ContentSig t m) = t"
  by (cases m; simp add: req_data_def ready_data_def propose_data_def prepare_data_def commit_data_def)+

text \<open>A key set whose public key belongs to its private key and is a point of the curve.\<close>

definition keyset_ok :: "curve \<Rightarrow> KeySet \<Rightarrow> bool" where
  "keyset_ok cv ks \<longleftrightarrow> pa_Pk (ks_PaymentAddress ks) = GeneratePublicKey cv (ks_PrivateKey ks)
     \<and> on_curve cv (key_point cv (ks_PrivateKey ks))"

lemma SignMsg_verifies:
  assumes "curve_group cv" and "good_field cv" and "cv_N cv < 256 ^ BigIntSize" and "gens_base cv G" and "digest32 sum256"
    and "keyset_ok cv ks" and "0 \<le> s" and "GetPublicKeyB58 sum256 ks = Inr (msg_Pubkey m)"
  shows "\<exists>t. SignMsg sum256 cv G order ks s m = Inr (set_ContentSig t m, True)
    \<and> VerifyMsgSanity sum256 cv G order (set_ContentSig t m) = Inr None"
proof -
  obtain sig where "KeySet_Sign sum256 cv G (ks_PrivateKey ks) s (msg_data order m) = Some sig"
    "KeySet_Verify sum256 cv G (GeneratePublicKey cv (ks_PrivateKey ks)) (msg_data order m) sig = Inr (Some True)"
    using KeySet_Sign_Verify [OF assms(1-5,7), of "ks_PrivateKey ks" "msg_data order m"] assms(6) by (auto simp: keyset_ok_def)
  moreover have "msg_Pubkey m = b58check_text sum256 (GeneratePublicKey cv (ks_PrivateKey ks)) 0"
    using assms(6,8) by (simp add: GetPublicKeyB58_def Base58Check_Encode_eq keyset_ok_def)
  ultimately show ?thesis
    by (intro exI [of _ "b58check_text sum256 sig 0"])
      (simp add: SignMsg_def VerifyMsgSanity_def SignDataB58_def ValidateDataB58_def Base58Check_Encode_eq andThen_def
        Base58Check_Decode_text [OF assms(5)])
qed

text \<open>
  Whoever verifies a ready message must print its map in the order in which the signer did: Go does
  not fix that order, and two orders of two shards give different bytes.
\<close>

lemma pool_state_order_matters:
  "sprint_pool_state [0, 1] (fmap_of_list [(0, 5), (1, 7)]) \<noteq> sprint_pool_state [1, 0] (fmap_of_list [(0, 5), (1, 7)])"
  by (simp add: sprint_pool_state_def map_get_def fmlookup_of_list decimal.simps char_of_def)

section \<open>Properties\<close>

text \<open>C20: Every message a validator makes passes the check of every receiver that prints the map of a ready
  message in the order of the signer (for the other four kinds of messages there is no map and no such condition): for a key set with a public key on the curve, the five functions return,
  without error, the message with the contents they were given, the base58 key and a signature that
  \<open>VerifyMsgSanity\<close> accepts. A receiver that visits the map of a ready message in another order may refuse it.
\<close>

theorem bft_messages_verify:
  assumes "curve_group cv" and "good_field cv" and "cv_N cv < 256 ^ BigIntSize" and "gens_base cv G" and "digest32 sum256"
    and "keyset_ok cv ks" and "0 \<le> s" and "GetPublicKeyB58 sum256 ks = Inr pk"
  shows "(\<exists>t. let m = BFTReq \<lparr>rq_BestStateHash = bsh, rq_Round = rnd, rq_Pubkey = pk, rq_ContentSig = t, rq_Timestamp = now\<rparr>
          in MakeMsgBFTReq sum256 cv G ks s now bsh rnd = Inr (m, True) \<and> VerifyMsgSanity sum256 cv G order m = Inr None)
    \<and> (\<exists>t. let m = BFTReady \<lparr>rd_PoolState = pool, rd_BestStateHash = bsh, rd_Round = rnd, rd_Pubkey = pk, rd_ContentSig = t, rd_Timestamp = now\<rparr>
          in MakeMsgBFTReady sum256 cv G order ks s now bsh rnd pool = Inr (m, True) \<and> VerifyMsgSanity sum256 cv G order m = Inr None)
    \<and> (\<exists>t. let m = BFTPropose \<lparr>pp_Layer = layer, pp_ShardID = shardID, pp_Block = blk, pp_ContentSig = t, pp_Pubkey = pk, pp_Timestamp = now\<rparr>
          in MakeMsgBFTPropose sum256 cv G ks s now blk layer shardID = Inr (m, True) \<and> VerifyMsgSanity sum256 cv G order m = Inr None)
    \<and> (\<exists>t. let m = BFTPrepare \<lparr>pr_BlkHash = h, pr_Ri = Ri, pr_Pubkey = pk, pr_ContentSig = t, pr_Timestamp = now\<rparr>
          in MakeMsgBFTPrepare sum256 cv G ks s now Ri h = Inr (m, True) \<and> VerifyMsgSanity sum256 cv G order m = Inr None)
    \<and> (\<exists>t. let m = BFTCommit \<lparr>cm_CommitSig = csig, cm_R = R, cm_ValidatorsIdx = idx, cm_Pubkey = pk, cm_ContentSig = t, cm_Timestamp = now\<rparr>
          in MakeMsgBFTCommit sum256 cv G ks s now csig R idx = Inr (m, True) \<and> VerifyMsgSanity sum256 cv G order m = Inr None)"
proof -
  have any: "\<exists>t. SignMsg sum256 cv G ord ks s m = Inr (set_ContentSig t m, True)
      \<and> VerifyMsgSanity sum256 cv G order (set_ContentSig t m) = Inr None"
    if "msg_Pubkey m = pk" and "ord = order \<or> msg_data ord m = msg_data order m" for m ord
  proof -
    have "SignMsg sum256 cv G ord ks s m = SignMsg sum256 cv G order ks s m" using that(2) by (auto simp: SignMsg_def)
    then show ?thesis using SignMsg_verifies [OF assms(1-7), of m order] assms(8) that(1) by simp
  qed
  note makes = MakeMsgBFTReq_def MakeMsgBFTReady_def MakeMsgBFTPropose_def MakeMsgBFTPrepare_def MakeMsgBFTCommit_def
  show ?thesis
    using any [of "BFTReq \<lparr>rq_BestStateHash = bsh, rq_Round = rnd, rq_Pubkey = pk, rq_ContentSig = '''', rq_Timestamp = now\<rparr>" "[]"]
      any [of "BFTReady \<lparr>rd_PoolState = pool, rd_BestStateHash = bsh, rd_Round = rnd, rd_Pubkey = pk, rd_ContentSig = '''', rd_Timestamp = now\<rparr>" order]
      any [of "BFTPropose \<lparr>pp_Layer = layer, pp_ShardID = shardID, pp_Block = blk, pp_ContentSig = '''', pp_Pubkey = pk, pp_Timestamp = now\<rparr>" "[]"]
      any [of "BFTPrepare \<lparr>pr_BlkHash = h, pr_Ri = Ri, pr_Pubkey = pk, pr_ContentSig = '''', pr_Timestamp = now\<rparr>" "[]"]
      any [of "BFTCommit \<lparr>cm_CommitSig = csig, cm_R = R, cm_ValidatorsIdx = idx, cm_Pubkey = pk, cm_ContentSig = '''', cm_Timestamp = now\<rparr>" "[]"]
    by (simp add: makes andThen_def assms(8) Let_def)
qed

definition ex_key_one :: bytes where "ex_key_one = replicate 31 0 @ [1]"

definition ex_keyset :: KeySet where
  "ex_keyset = \<lparr>ks_PrivateKey = ex_key_one, ks_PaymentAddress = \<lparr>pa_Pk = GeneratePublicKey ex_curve ex_key_one, pa_Tk = []\<rparr>,
     ks_ReadonlyKey = \<lparr>vk_Pk = [], vk_Rk = []\<rparr>\<rparr>"

lemma ex_keyset_ok: "keyset_ok ex_curve ex_keyset"
proof -
  have "key_point ex_curve ex_key_one \<in> set ex_points" by code_simp
  then show ?thesis by (simp add: keyset_ok_def ex_keyset_def ex_on_curve)
qed

lemma ex_order_small: "cv_N ex_curve < 256 ^ BigIntSize"
  by (simp add: ex_curve_def BigIntSize_def)

theorem bft_messages_verify_witness:
  "\<exists>pk t. let m = BFTCommit \<lparr>cm_CommitSig = ''s'', cm_R = ''r'', cm_ValidatorsIdx = [0, 2], cm_Pubkey = pk, cm_ContentSig = t, cm_Timestamp = 9\<rparr>
    in MakeMsgBFTCommit ex_digest ex_curve ex_gens ex_keyset 3 9 ''s'' ''r'' [0, 2] = Inr (m, True)
      \<and> VerifyMsgSanity ex_digest ex_curve ex_gens [] m = Inr None"
proof -
  obtain pk where "GetPublicKeyB58 ex_digest ex_keyset = Inr pk" by (simp add: GetPublicKeyB58_def Base58Check_Encode_eq)
  from bft_messages_verify [OF ex_curve_group ex_good_field ex_order_small ex_gens_base ex_digest32 ex_keyset_ok zero_le_numeral this]
  show ?thesis by blast
qed

end
