(* ===== verification/BFT_Sig.thy ===== *)
theory BFT_Sig
  imports Agg_Signature Token_Tx BFT_Message "HOL-Library.Multiset"
begin

text \<open>
  The multi-signature of a consensus round: \<open>src/consensus/constantbft/bftmultisig.go\<close> and \<open>utils.go\<close>. A member
  draws a nonce (\<open>Prepare\<close>), signs for the members whose nonce points it has collected (\<open>SignData\<close>), checks
  the signatures of others (\<open>VerifyCommitSig\<close>) and combines them (\<open>CombineSigs\<close>). The collected points and signatures are
  maps; the order in which a loop visits one is an argument.
\<close>

section \<open>The code\<close>

record bftCommittedSig =
  cs_ValidatorsIdxR :: "int list"
  cs_Sig :: string

record multiSigScheme =
  mss_dataToSig :: hash
  mss_Ri :: bytes
  mss_r :: bytes
  mss_CommitSig :: string
  mss_R :: string
  mss_ValidatorsIdxR :: "int list"
  mss_ValidatorsIdxAggSig :: "int list"
  mss_SigningCommittee :: "string list"
  mss_Keyset :: MultiSigKeyset

datatype sig_error = TextError check_error | PointError | VersionByteError byte | SigBytesError | ValidatorSigInvalid

text \<open>\<open>Init\<close> of a new scheme: the other fields have their zero values.\<close>

definition multiSig_Init :: "KeySet \<Rightarrow> string list \<Rightarrow> multiSigScheme" where
  "multiSig_Init userKeySet committee =
     \<lparr>mss_dataToSig = zero_hash, mss_Ri = [], mss_r = [], mss_CommitSig = '''', mss_R = '''', mss_ValidatorsIdxR = [],
      mss_ValidatorsIdxAggSig = [], mss_SigningCommittee = committee,
      mss_Keyset = \<lparr>mk_priKey = ks_PrivateKey userKeySet, mk_pubKey = pa_Pk (ks_PaymentAddress userKeySet)\<rparr>\<rparr>"

definition Prepare :: "curve \<Rightarrow> int \<Rightarrow> multiSigScheme \<Rightarrow> multiSigScheme" where
  "Prepare cv nonce ms =
     (let (myRiECCPoint, myrBigInt) = GenerateRandom cv nonce
      in ms\<lparr>mss_Ri := Compress cv myRiECCPoint, mss_r := AddPaddingBigInt myrBigInt BigIntSize\<rparr>)"

text \<open>
  The loop of \<open>SignData\<close>: the indices appended so far, and the keys and points of all signers or the error with
  which the loop returns. A key with another version byte returns \<open>err\<close> while it is nil: \<open>Inl None\<close>.
\<close>

fun sign_loop ::
  "(bytes \<Rightarrow> bytes) \<Rightarrow> curve \<Rightarrow> string list \<Rightarrow> (string, bytes) fmap \<Rightarrow> string list \<Rightarrow> bytes list \<Rightarrow> point list \<Rightarrow> int list
   \<Rightarrow> fault + int list \<times> (sig_error option + bytes list \<times> point list)" where
  "sign_loop sum256 cv committee RiList [] pks Rs idx = Inr (idx, Inr (pks, Rs))"
| "sign_loop sum256 cv committee RiList (szPubKey # rest) pks Rs idx =
     (case Base58Check_Decode sum256 szPubKey of
        Inl e \<Rightarrow> Inr (idx, Inl (Some (TextError e)))
      | Inr (pubKeyTemp, byteVersion) \<Rightarrow>
          if byteVersion \<noteq> 0 then Inr (idx, Inl None)
          else (case Decompress cv (map_get [] RiList szPubKey) of
                  Inl (Panic f) \<Rightarrow> Inl f
                | Inl ReadErr \<Rightarrow> Inr (idx, Inl (Some PointError))
                | Inr R \<Rightarrow> sign_loop sum256 cv committee RiList rest (pks @ [pubKeyTemp]) (Rs @ [R])
                             (idx @ [IndexOfStr szPubKey committee])))"

definition SignData ::
  "(bytes \<Rightarrow> bytes) \<Rightarrow> curve \<Rightarrow> string list \<Rightarrow> (string, bytes) fmap \<Rightarrow> multiSigScheme \<Rightarrow> fault + multiSigScheme \<times> sig_error option" where
  "SignData sum256 cv order RiList ms =
     andThen (sign_loop sum256 cv (mss_SigningCommittee ms) RiList order [] [] (mss_ValidatorsIdxR ms)) (\<lambda>(idx, r).
       case r of
         Inl e \<Rightarrow> Inr (ms\<lparr>mss_ValidatorsIdxR := idx\<rparr>, e)
       | Inr (listPubkeyOfSigners, listROfSigners) \<Rightarrow>
           andThen (SignMultiSig sum256 cv (mss_Keyset ms) (Hash_GetBytes (mss_dataToSig ms)) listPubkeyOfSigners listROfSigners
                      (int (be_val (mss_r ms)))) (\<lambda>commitSig.
           andThen (Base58Check_Encode sum256 (Compress cv (sum_points cv listROfSigners Zero)) 0) (\<lambda>R.
           andThen (SchnMultiSig_Bytes cv commitSig) (\<lambda>sigBytes.
           andThen (Base58Check_Encode sum256 sigBytes 0) (\<lambda>sig.
             Inr (ms\<lparr>mss_ValidatorsIdxR := sort idx, mss_R := R, mss_CommitSig := sig\<rparr>, None))))))"

text \<open>
  \<open>GetPubKeysFromIdx\<close>: an index outside of the list panics; a text that does not decode, or has another
  version byte, leaves an empty key in the result.
\<close>

fun GetPubKeysFromIdx :: "(bytes \<Rightarrow> bytes) \<Rightarrow> string list \<Rightarrow> int list \<Rightarrow> fault + bytes list" where
  "GetPubKeysFromIdx sum256 pubkeyList [] = Inr []"
| "GetPubKeysFromIdx sum256 pubkeyList (i # idxs) =
     andThen (index_int pubkeyList i) (\<lambda>t.
     andThen (GetPubKeysFromIdx sum256 pubkeyList idxs) (\<lambda>pks.
       Inr ((case Base58Check_Decode sum256 t of
               Inl _ \<Rightarrow> []
             | Inr (pk, byteVersion) \<Rightarrow> if byteVersion \<noteq> 0 then [] else pk) # pks)))"

text \<open>\<open>VerifyCommitSig\<close>: the error, \<open>None\<close> for nil. The first test returns nil on another version byte of \<open>R\<close>.\<close>

definition VerifyCommitSig ::
  "(bytes \<Rightarrow> bytes) \<Rightarrow> curve \<Rightarrow> multiSigScheme \<Rightarrow> string \<Rightarrow> string \<Rightarrow> string \<Rightarrow> int list \<Rightarrow> fault + sig_error option" where
  "VerifyCommitSig sum256 cv ms validatorPk commitSig R validatorsIdx =
     (case Base58Check_Decode sum256 R of
        Inl e \<Rightarrow> Inr (Some (TextError e))
      | Inr (Rbytesarr, byteVersion) \<Rightarrow>
        if byteVersion \<noteq> 0 then Inr None
        else (case Decompress cv Rbytesarr of
          Inl (Panic f) \<Rightarrow> Inl f
        | Inl ReadErr \<Rightarrow> Inr (Some PointError)
        | Inr RCombined \<Rightarrow>
          andThen (GetPubKeysFromIdx sum256 (mss_SigningCommittee ms) validatorsIdx) (\<lambda>listPubkeyOfSigners.
          (case Base58Check_Decode sum256 validatorPk of
             Inl e \<Rightarrow> Inr (Some (TextError e))
           | Inr (validatorPubkey, v1) \<Rightarrow>
             if v1 \<noteq> 0 then Inr (Some (VersionByteError v1))
             else (case Base58Check_Decode sum256 commitSig of
               Inl e \<Rightarrow> Inr (Some (TextError e))
             | Inr (valSigbytesarr, v2) \<Rightarrow>
               if v2 \<noteq> 0 then Inr (Some (VersionByteError v2))
               else andThen (SchnMultiSig_SetBytes cv valSigbytesarr) (\<lambda>(valSig, ok).
                 if \<not> ok then Inr (Some SigBytesError)
                 else andThen (VerifyMultiSig sum256 cv valSig (Hash_GetBytes (mss_dataToSig ms)) listPubkeyOfSigners
                                 [validatorPubkey] RCombined) (\<lambda>res.
                   if \<not> res then Inr (Some ValidatorSigInvalid) else Inr None)))))))"

text \<open>The loop of \<open>CombineSigs\<close>. The error of \<open>SetBytes\<close> is not looked at.\<close>

fun combine_sigs_loop ::
  "(bytes \<Rightarrow> bytes) \<Rightarrow> curve \<Rightarrow> string list \<Rightarrow> (string, bftCommittedSig) fmap \<Rightarrow> string list
   \<Rightarrow> SchnMultiSig list \<Rightarrow> int list \<Rightarrow> int list \<Rightarrow> fault + int list \<times> (sig_error option + SchnMultiSig list \<times> int list)" where
  "combine_sigs_loop sum256 cv committee commitSigs [] sigs idxAgg idxR = Inr (idxAgg, Inr (sigs, idxR))"
| "combine_sigs_loop sum256 cv committee commitSigs (pubkey # rest) sigs idxAgg idxR =
     (let valSig = map_get \<lparr>cs_ValidatorsIdxR = [], cs_Sig = ''''\<rparr> commitSigs pubkey in
      case Base58Check_Decode sum256 (cs_Sig valSig) of
        Inl e \<Rightarrow> Inr (idxAgg, Inl (Some (TextError e)))
      | Inr (bytesSig, byteVersion) \<Rightarrow>
          if byteVersion \<noteq> 0 then Inr (idxAgg, Inl None)
          else andThen (SchnMultiSig_SetBytes cv bytesSig) (\<lambda>(sig, _).
                 combine_sigs_loop sum256 cv committee commitSigs rest (sigs @ [sig])
                   (idxAgg @ [IndexOfStr pubkey committee]) (cs_ValidatorsIdxR valSig)))"

definition CombineSigs ::
  "(bytes \<Rightarrow> bytes) \<Rightarrow> curve \<Rightarrow> string list \<Rightarrow> string \<Rightarrow> (string, bftCommittedSig) fmap \<Rightarrow> multiSigScheme
   \<Rightarrow> fault + multiSigScheme \<times> string \<times> sig_error option" where
  "CombineSigs sum256 cv order R commitSigs ms =
     andThen (combine_sigs_loop sum256 cv (mss_SigningCommittee ms) commitSigs order [] (mss_ValidatorsIdxAggSig ms) []) (\<lambda>(idxAgg, r).
       case r of
         Inl e \<Rightarrow> Inr (ms\<lparr>mss_ValidatorsIdxAggSig := idxAgg\<rparr>, '''', e)
       | Inr (listSigOfSigners, validatorsIdxR) \<Rightarrow>
           andThen (CombineMultiSig cv listSigOfSigners) (\<lambda>aggregatedSig.
           andThen (SchnMultiSig_Bytes cv aggregatedSig) (\<lambda>bs.
           andThen (Base58Check_Encode sum256 bs 0) (\<lambda>t.
             Inr (ms\<lparr>mss_ValidatorsIdxAggSig := sort idxAgg, mss_R := R, mss_ValidatorsIdxR := validatorsIdxR\<rparr>, t, None)))))"

text \<open>\<open>GetClosestPoolState\<close>: a maximum for each shard, so the order of the inner loop does not matter.\<close>

definition closer :: "(byte, uint64) fmap \<Rightarrow> byte \<Rightarrow> (byte, uint64) fmap \<Rightarrow> (byte, uint64) fmap" where
  "closer poolState shardID closest =
     (let blkHeight = map_get 0 poolState shardID in
      case fmlookup closest shardID of
        None \<Rightarrow> fmupd shardID blkHeight closest
      | Some closestBlkHeight \<Rightarrow> if closestBlkHeight < blkHeight then fmupd shardID blkHeight closest else closest)"

definition GetClosestPoolState :: "(byte, uint64) fmap list \<Rightarrow> (byte, uint64) fmap" where
  "GetClosestPoolState poolStates =
     fold (\<lambda>poolState closest. fold (closer poolState) (sorted_keys poolState) closest) poolStates fmempty"

section \<open>Pool states\<close>

text \<open>The larger of two heights that may be missing.\<close>

fun max_height :: "uint64 option \<Rightarrow> uint64 option \<Rightarrow> uint64 option" where
  "max_height None b = b"
| "max_height a None = a"
| "max_height (Some a) (Some b) = Some (max a b)"

lemma fmlookup_closer:
  assumes "k |\<in>| fmdom st"
  shows "fmlookup (closer st k acc) j = (if j = k then max_height (fmlookup acc k) (fmlookup st k) else fmlookup acc j)"
  using assms by (auto simp: closer_def Let_def map_get_def max_def fmdom_notI split: option.splits)

lemma fmlookup_closer_fold:
  "distinct ks \<Longrightarrow> set ks \<subseteq> fmdom' st \<Longrightarrow>
   fmlookup (fold (closer st) ks acc) j = (if j \<in> set ks then max_height (fmlookup acc j) (fmlookup st j) else fmlookup acc j)"
proof (induction ks arbitrary: acc)
  case (Cons k ks)
  then have "k |\<in>| fmdom st" by (simp add: fmdom'_alt_def)
  then show ?case using Cons by (auto simp: fmlookup_closer)
qed simp

lemma max_height_None [simp]: "max_height a None = a"
  by (cases a) simp_all

lemma fmlookup_closer_state:
  "fmlookup (fold (closer st) (sorted_keys st) acc) j = max_height (fmlookup acc j) (fmlookup st j)"
proof -
  have "distinct (sorted_keys st)" "set (sorted_keys st) = fmdom' st" by (simp_all add: sorted_keys_def fmdom'_alt_def sorted_list_of_fset.rep_eq)
  then show ?thesis using fmlookup_closer_fold [of "sorted_keys st" st acc j] by (simp add: fmdom'_notD)
qed

lemma closest_fold:
  "fmlookup (fold (\<lambda>st acc. fold (closer st) (sorted_keys st) acc) sts acc) j
    = fold (\<lambda>st h. max_height h (fmlookup st j)) sts (fmlookup acc j)"
  by (induction sts arbitrary: acc) (simp_all add: fmlookup_closer_state)

lemma fold_max_height:
  "fold (\<lambda>st h. max_height h (fmlookup st j)) sts h0 = Some h \<longleftrightarrow>
    (h0 = Some h \<or> (\<exists>st \<in> set sts. fmlookup st j = Some h))
    \<and> (\<forall>a. h0 = Some a \<longrightarrow> a \<le> h) \<and> (\<forall>st \<in> set sts. \<forall>a. fmlookup st j = Some a \<longrightarrow> a \<le> h)"
proof (induction sts arbitrary: h0)
  case (Cons st sts)
  then show ?case by (cases h0; cases "fmlookup st j") (auto simp: max_def)
qed auto

lemma GetClosestPoolState_max:
  "fmlookup (GetClosestPoolState sts) j = Some h \<longleftrightarrow>
    (\<exists>st \<in> set sts. fmlookup st j = Some h) \<and> (\<forall>st \<in> set sts. \<forall>a. fmlookup st j = Some a \<longrightarrow> a \<le> h)"
  by (simp add: GetClosestPoolState_def closest_fold fold_max_height)

end
