(* ===== verification/BFT_Round.thy ===== *)
theory BFT_Round
  imports BFT_Sig
begin

text \<open>
  A round of honest members of a committee, over the code of \<open>BFT_Sig\<close>: whatever the order in which each of
  them visits its map of nonce points, they agree on \<open>R\<close>, accept each other's signatures, and combine
  them to a signature that \<open>ValidateAggSignature\<close>, by which every node accepts a block, finds valid.
\<close>

section \<open>Sums do not depend on the order\<close>

lemma sum_points_perm:
  assumes "curve_group cv" and "list_all (curve_pt cv) ps" and "mset ps = mset qs"
  shows "sum_points cv ps Zero = sum_points cv qs Zero"
  unfolding sum_points_def
proof (rule fold_permuted_eq [where P = "curve_pt cv"])
  have pt: "curve_pt cv p" if "p \<in> set ps" for p using assms(2) that by (simp add: list_all_iff)
  show "mset ps = mset qs" "curve_pt cv Zero" by (fact assms(3), simp)
  show "curve_pt cv (Add cv a p)" if "p \<in> set ps" "curve_pt cv a" for p a
    using that pt by (simp add: Add_def curve_pt_Add [OF assms(1)])
  show "Add cv (Add cv a q) p = Add cv (Add cv a p) q" if "p \<in> set ps" "q \<in> set ps" "curve_pt cv a" for p q a
    using that pt assms(1) by (simp add: Add_def Curve_Add_assoc Curve_Add_commute [of cv p q])
qed

lemma weighted_sum_eq_sum: "weighted_sum sum256 cv red agg ps X
    = sum_points cv (map (\<lambda>p. ScalarMult cv p (red (key_factor sum256 cv agg p))) ps) X"
  by (induction ps arbitrary: X) (simp_all add: weighted_sum_def sum_points_def)

lemma challenge_perm:
  assumes "curve_group cv" and "list_all (on_curve cv) ps" and "mset ps = mset qs"
  shows "challenge sum256 cv ps R data = challenge sum256 cv qs R data"
proof -
  have pts: "list_all (curve_pt cv) ps" using assms(2) by (simp add: list_all_iff on_curve_pt)
  have agg: "sum_points cv ps Zero = sum_points cv qs Zero" by (rule sum_points_perm [OF assms(1) pts assms(3)])
  let ?w = "\<lambda>p. ScalarMult cv p (key_factor sum256 cv (sum_points cv qs Zero) p)"
  have "list_all (curve_pt cv) (map ?w ps)" using pts by (auto simp: list_all_iff intro: curve_pt_ScalarMult [OF assms(1)])
  moreover have "mset (map ?w ps) = mset (map ?w qs)" using assms(3) by simp
  ultimately have "sum_points cv (map ?w ps) Zero = sum_points cv (map ?w qs) Zero" by (rule sum_points_perm [OF assms(1)])
  then show ?thesis by (simp add: challenge_def agg weighted_sum_eq_sum)
qed

lemma combine_loop_signed:
  "combine_loop cv (map (signed sum256 cv agg C) ss) R S
    = Inr \<lparr>ms_R = Some (sum_points cv (map (nonce_point cv) ss) R),
           ms_S = Some (fold (\<lambda>s S. (S + answer sum256 cv agg C s) mod cv_N cv) ss S)\<rparr>"
  by (induction ss arbitrary: R S) (simp_all add: signed_def andThen_def deref_def sum_points_def)

lemma fold_answers_perm:
  "mset ss = mset ts \<Longrightarrow> fold (\<lambda>s S. (S + answer sum256 cv agg C s) mod cv_N cv) ss z
    = fold (\<lambda>s S. (S + answer sum256 cv agg C s) mod cv_N cv) ts z"
proof (rule fold_permuted_eq [where P = "\<lambda>_. True"])
  show "((z + answer sum256 cv agg C y) mod cv_N cv + answer sum256 cv agg C x) mod cv_N cv
      = ((z + answer sum256 cv agg C x) mod cv_N cv + answer sum256 cv agg C y) mod cv_N cv" for x y z
    by (simp only: mod_add_left_eq add.assoc add.commute [of "answer sum256 cv agg C x"])
qed simp_all

lemma CombineMultiSig_perm:
  assumes "curve_group cv" and "list_all (signer_ok cv) ss" and "mset ss = mset ts"
  shows "CombineMultiSig cv (map (signed sum256 cv agg C) ss) = CombineMultiSig cv (map (signed sum256 cv agg C) ts)"
proof -
  have "list_all (curve_pt cv) (map (nonce_point cv) ss)" using assms(2) by (auto simp: list_all_iff signer_ok_def on_curve_pt)
  then have "sum_points cv (map (nonce_point cv) ss) Zero = sum_points cv (map (nonce_point cv) ts) Zero"
    by (rule sum_points_perm [OF assms(1)]) (simp add: assms(3))
  then show ?thesis by (simp add: CombineMultiSig_def combine_loop_signed fold_answers_perm [OF assms(3)])
qed

section \<open>A committee of honest members\<close>

text \<open>A member is its secret key and its nonce of this round, as in \<open>Multi_Signature\<close>.\<close>

definition member_text :: "(bytes \<Rightarrow> bytes) \<Rightarrow> curve \<Rightarrow> bytes \<times> int \<Rightarrow> string" where
  "member_text sum256 cv s = b58check_text sum256 (signer_key cv s) 0"

definition honest_committee :: "(bytes \<Rightarrow> bytes) \<Rightarrow> curve \<Rightarrow> (bytes \<times> int) list \<Rightarrow> bool" where
  "honest_committee sum256 cv ss \<longleftrightarrow> curve_group cv \<and> good_field cv \<and> cv_N cv < 256 ^ BigIntSize \<and> curve_pt cv (base_point cv)
     \<and> digest32 sum256 \<and> list_all (signer_ok cv) ss \<and> distinct (map (member_text sum256 cv) ss)"

text \<open>The nonce points collected from the members with the indices \<open>is\<close>, and the scheme of one member before it signs.\<close>

definition collected :: "(bytes \<Rightarrow> bytes) \<Rightarrow> curve \<Rightarrow> (bytes \<times> int) list \<Rightarrow> nat list \<Rightarrow> (string, bytes) fmap" where
  "collected sum256 cv ss is = fmap_of_list (map (\<lambda>i. (member_text sum256 cv (ss ! i), Compress cv (nonce_point cv (ss ! i)))) is)"

definition member_scheme :: "(bytes \<Rightarrow> bytes) \<Rightarrow> curve \<Rightarrow> (bytes \<times> int) list \<Rightarrow> hash \<Rightarrow> nat \<Rightarrow> multiSigScheme" where
  "member_scheme sum256 cv ss h i =
     Prepare cv (snd (ss ! i)) \<lparr>mss_dataToSig = h, mss_Ri = [], mss_r = [], mss_CommitSig = '''', mss_R = '''', mss_ValidatorsIdxR = [],
       mss_ValidatorsIdxAggSig = [], mss_SigningCommittee = map (member_text sum256 cv) ss, mss_Keyset = signer_keyset cv (ss ! i)\<rparr>"

text \<open>Strictly increasing indices of members.\<close>

definition indices :: "nat list \<Rightarrow> nat \<Rightarrow> bool" where
  "indices is n \<longleftrightarrow> sorted_wrt (<) is \<and> (\<forall>i \<in> set is. i < n)"

text \<open>What the round settles: the sum of the nonces as text, the challenge, and each member's signature as text.\<close>

definition round_R :: "(bytes \<Rightarrow> bytes) \<Rightarrow> curve \<Rightarrow> (bytes \<times> int) list \<Rightarrow> nat list \<Rightarrow> string" where
  "round_R sum256 cv ss is = b58check_text sum256 (Compress cv (sum_points cv (map (\<lambda>i. nonce_point cv (ss ! i)) is) Zero)) 0"

definition round_C :: "(bytes \<Rightarrow> bytes) \<Rightarrow> curve \<Rightarrow> (bytes \<times> int) list \<Rightarrow> nat list \<Rightarrow> hash \<Rightarrow> int" where
  "round_C sum256 cv ss is h = challenge sum256 cv (map (\<lambda>i. signer_point cv (ss ! i)) is)
     (sum_points cv (map (\<lambda>i. nonce_point cv (ss ! i)) is) Zero) (Hash_GetBytes h)"

definition round_sig :: "(bytes \<Rightarrow> bytes) \<Rightarrow> curve \<Rightarrow> (bytes \<times> int) list \<Rightarrow> nat list \<Rightarrow> hash \<Rightarrow> nat \<Rightarrow> SchnMultiSig" where
  "round_sig sum256 cv ss is h i =
     signed sum256 cv (sum_points cv (map (\<lambda>i. signer_point cv (ss ! i)) is) Zero) (round_C sum256 cv ss is h) (ss ! i)"

definition sig_bytes :: "curve \<Rightarrow> SchnMultiSig \<Rightarrow> bytes" where
  "sig_bytes cv m = (case SchnMultiSig_Bytes cv m of Inl _ \<Rightarrow> [] | Inr bs \<Rightarrow> bs)"

definition round_sig_text :: "(bytes \<Rightarrow> bytes) \<Rightarrow> curve \<Rightarrow> (bytes \<times> int) list \<Rightarrow> nat list \<Rightarrow> hash \<Rightarrow> nat \<Rightarrow> string" where
  "round_sig_text sum256 cv ss is h i = b58check_text sum256 (sig_bytes cv (round_sig sum256 cv ss is h i)) 0"

text \<open>The signatures received from the members \<open>qs\<close>.\<close>

definition committed :: "(bytes \<Rightarrow> bytes) \<Rightarrow> curve \<Rightarrow> (bytes \<times> int) list \<Rightarrow> nat list \<Rightarrow> nat list \<Rightarrow> hash \<Rightarrow> (string, bftCommittedSig) fmap" where
  "committed sum256 cv ss is qs h = fmap_of_list (map (\<lambda>i. (member_text sum256 cv (ss ! i),
     \<lparr>cs_ValidatorsIdxR = map int is, cs_Sig = round_sig_text sum256 cv ss is h i\<rparr>)) qs)"

subsection \<open>Indices and maps\<close>

lemma honestD:
  assumes "honest_committee sum256 cv ss"
  shows "curve_group cv" and "good_field cv" and "cv_N cv < 256 ^ BigIntSize" and "curve_pt cv (base_point cv)"
    and "digest32 sum256" and "list_all (signer_ok cv) ss" and "distinct (map (member_text sum256 cv) ss)"
  using assms by (simp_all add: honest_committee_def)

lemma indicesD:
  assumes "indices is n"
  shows "distinct is" and "sorted is" and "i \<in> set is \<Longrightarrow> i < n"
  using assms by (auto simp: indices_def strict_sorted_iff)

lemma member_index:
  assumes "distinct (map (member_text sum256 cv) ss)" and "i < length ss"
  shows "IndexOfStr (member_text sum256 cv (ss ! i)) (map (member_text sum256 cv) ss) = int i"
proof -
  have "member_text sum256 cv (ss ! i) \<in> set (map (member_text sum256 cv) ss)" using assms(2) by simp
  from IndexOfStr_found [OF this] obtain j where "j < length ss" "IndexOfStr (member_text sum256 cv (ss ! i)) (map (member_text sum256 cv) ss) = int j"
    "map (member_text sum256 cv) ss ! j = map (member_text sum256 cv) ss ! i" using assms(2) by auto
  then show ?thesis using nth_eq_iff_index_eq [OF assms(1), of j i] assms(2) by simp
qed

lemma member_inj:
  assumes "distinct (map (member_text sum256 cv) ss)" and "\<forall>i \<in> set is. i < length ss"
  shows "inj_on (\<lambda>i. member_text sum256 cv (ss ! i)) (set is)"
proof (rule inj_onI)
  fix i j
  assume "i \<in> set is" "j \<in> set is" "member_text sum256 cv (ss ! i) = member_text sum256 cv (ss ! j)"
  then show "i = j" using nth_eq_iff_index_eq [OF assms(1), of i j] assms(2) by simp
qed

text \<open>Every order of a map over the members \<open>is\<close> is a permutation of \<open>is\<close>.\<close>

lemma order_members:
  assumes "distinct (map (member_text sum256 cv) ss)" and "indices is (length ss)"
    and "iteration_order (fmap_of_list (map (\<lambda>i. (member_text sum256 cv (ss ! i), f i)) is)) order"
  shows "\<exists>js. order = map (\<lambda>i. member_text sum256 cv (ss ! i)) js \<and> mset js = mset is"
proof -
  let ?t = "\<lambda>i. member_text sum256 cv (ss ! i)"
  have ord: "distinct order" "set order = ?t ` set is"
    using assms(3) by (auto simp: iteration_order_def fmdom'_alt_def fset_of_list.rep_eq image_iff)
  define js where "js = map (inv_into (set is) ?t) order"
  have inv: "?t (inv_into (set is) ?t k) = k" "inv_into (set is) ?t k \<in> set is" if "k \<in> set order" for k
    using that unfolding ord(2) by (rule f_inv_into_f, rule inv_into_into)
  have "map (?t \<circ> inv_into (set is) ?t) order = order" by (rule map_idI) (simp add: inv(1))
  then have js: "order = map ?t js" "set js \<subseteq> set is" using inv(2) by (auto simp: js_def)
  have "distinct js" using ord(1) js(1) by (simp add: distinct_map)
  moreover have "set js = set is"
    using ord(2) js member_inj [OF assms(1), of "is"] assms(2) by (simp add: indices_def inj_on_image_eq_iff)
  ultimately show ?thesis using js(1) indicesD(1) [OF assms(2)] by (metis set_eq_iff_mset_eq_distinct)
qed

lemma members_lookup:
  assumes "distinct (map (member_text sum256 cv) ss)" and "indices is (length ss)" and "i \<in> set is"
  shows members_fmlookup: "fmlookup (fmap_of_list (map (\<lambda>i. (member_text sum256 cv (ss ! i), f i)) is)) (member_text sum256 cv (ss ! i)) = Some (f i)"
    and members_get: "map_get d (fmap_of_list (map (\<lambda>i. (member_text sum256 cv (ss ! i), f i)) is)) (member_text sum256 cv (ss ! i)) = f i"
proof -
  let ?t = "\<lambda>i. member_text sum256 cv (ss ! i)"
  have "distinct (map ?t is)"
    using member_inj [OF assms(1), of "is"] assms(2) indicesD(1) [OF assms(2)] by (simp add: distinct_map indices_def)
  then have "map_of (map (\<lambda>i. (?t i, f i)) is) (?t i) = Some (f i)"
    using assms(3) by (intro map_of_is_SomeI) (auto simp: comp_def)
  then show "fmlookup (fmap_of_list (map (\<lambda>i. (?t i, f i)) is)) (?t i) = Some (f i)"
    and "map_get d (fmap_of_list (map (\<lambda>i. (?t i, f i)) is)) (?t i) = f i"
    by (simp_all add: map_get_def fmlookup_of_list)
qed

lemma members_len:
  assumes "distinct (map (member_text sum256 cv) ss)" and "indices is (length ss)"
  shows "map_len (fmap_of_list (map (\<lambda>i. (member_text sum256 cv (ss ! i), f i)) is)) = length is"
proof -
  have "fset (fmdom (fmap_of_list (map (\<lambda>i. (member_text sum256 cv (ss ! i), f i)) is))) = (\<lambda>i. member_text sum256 cv (ss ! i)) ` set is"
    by (auto simp: fset_of_list.rep_eq)
  then show ?thesis
    using card_image [OF member_inj [OF assms(1), of "is"]] assms(2) distinct_card [OF indicesD(1) [OF assms(2)]]
    by (simp add: map_len_def fcard.rep_eq indices_def)
qed

subsection \<open>Signing\<close>

lemma member_point_on:
  "honest_committee sum256 cv ss \<Longrightarrow> i < length ss \<Longrightarrow> signer_ok cv (ss ! i) \<and> on_curve cv (signer_point cv (ss ! i)) \<and> on_curve cv (nonce_point cv (ss ! i))"
  using honestD(6) by (fastforce simp: list_all_length signer_ok_def)

lemma Decompress_Compress: "good_field cv \<Longrightarrow> on_curve cv p \<Longrightarrow> Decompress cv (Compress cv p) = Inr p"
  using decompress_compress [of cv "fst p" "snd p"] by (simp add: Decompress_def)

lemma sign_loop_members:
  assumes "honest_committee sum256 cv ss" and "indices is (length ss)"
  shows "set js \<subseteq> set is \<Longrightarrow>
    sign_loop sum256 cv (map (member_text sum256 cv) ss) (collected sum256 cv ss is) (map (\<lambda>i. member_text sum256 cv (ss ! i)) js) pks Rs idx
    = Inr (idx @ map int js, Inr (pks @ map (\<lambda>i. signer_key cv (ss ! i)) js, Rs @ map (\<lambda>i. nonce_point cv (ss ! i)) js))"
proof (induction js arbitrary: pks Rs idx)
  case (Cons j js)
  then have j: "j \<in> set is" "j < length ss" using indicesD(3) [OF assms(2)] by auto
  have "map_get [] (collected sum256 cv ss is) (member_text sum256 cv (ss ! j)) = Compress cv (nonce_point cv (ss ! j))"
    unfolding collected_def by (rule members_get [OF honestD(7) [OF assms(1)] assms(2) j(1)])
  moreover have "Base58Check_Decode sum256 (member_text sum256 cv (ss ! j)) = Inr (signer_key cv (ss ! j), 0)"
    unfolding member_text_def by (rule Base58Check_Decode_text [OF honestD(5) [OF assms(1)]])
  moreover have "Decompress cv (Compress cv (nonce_point cv (ss ! j))) = Inr (nonce_point cv (ss ! j))"
    using Decompress_Compress honestD(2) member_point_on assms(1) j(2) by blast
  moreover have "IndexOfStr (member_text sum256 cv (ss ! j)) (map (member_text sum256 cv) ss) = int j"
    by (rule member_index [OF honestD(7) [OF assms(1)] j(2)])
  ultimately show ?case using Cons by simp
qed simp

lemma members_on_curve:
  assumes "honest_committee sum256 cv ss" and "\<forall>i \<in> set js. i < length ss"
  shows "list_all (on_curve cv) (map (\<lambda>i. signer_point cv (ss ! i)) js)"
    and "list_all (on_curve cv) (map (\<lambda>i. nonce_point cv (ss ! i)) js)"
    and "list_all (signer_ok cv) (map (\<lambda>i. ss ! i) js)"
  using member_point_on [OF assms(1)] assms(2) by (simp_all add: list_all_iff)

text \<open>The signature is the one of \<open>round_sig\<close>, in whatever order the keys and nonce points are listed.\<close>

lemma SignMultiSig_member:
  assumes "honest_committee sum256 cv ss" and "indices is (length ss)" and "i \<in> set is" and "mset js = mset is"
  shows "SignMultiSig sum256 cv (signer_keyset cv (ss ! i)) (Hash_GetBytes h) (map (\<lambda>i. signer_key cv (ss ! i)) js)
      (map (\<lambda>i. nonce_point cv (ss ! i)) js) (snd (ss ! i)) = Inr (round_sig sum256 cv ss is h i)"
proof -
  let ?p = "\<lambda>i. signer_point cv (ss ! i)" and ?n = "\<lambda>i. nonce_point cv (ss ! i)"
  note H = honestD [OF assms(1)]
  have js: "\<forall>i \<in> set js. i < length ss" using indicesD(3) [OF assms(2)] mset_eq_setD [OF assms(4)] by blast
  note on = members_on_curve [OF assms(1) js]
  have eqs: "sum_points cv (map ?p js) Zero = sum_points cv (map ?p is) Zero"
    "sum_points cv (map ?n js) Zero = sum_points cv (map ?n is) Zero"
    using on(1,2) assms(4) by (auto intro!: sum_points_perm [OF H(1)] simp: list_all_iff on_curve_pt)
  have "challenge sum256 cv (map ?p js) R d = challenge sum256 cv (map ?p is) R d" for R d
    by (rule challenge_perm [OF H(1) on(1)]) (simp add: assms(4))
  moreover have "signer_ok cv (ss ! i)" using member_point_on [OF assms(1)] indicesD(3) [OF assms(2) assms(3)] by blast
  ultimately show ?thesis
    using SignMultiSig_answer [OF H(1-3) on(1), of "ss ! i" sum256 "Hash_GetBytes h" "map ?n js"]
    by (simp add: round_sig_def round_C_def signed_def eqs signer_key_def comp_def)
qed

lemma round_sig_readable:
  assumes "honest_committee sum256 cv ss" and "i < length ss"
  shows "SchnMultiSig_Bytes cv (round_sig sum256 cv ss is h i) = Inr (sig_bytes cv (round_sig sum256 cv ss is h i))"
    and "SchnMultiSig_SetBytes cv (sig_bytes cv (round_sig sum256 cv ss is h i)) = Inr (round_sig sum256 cv ss is h i, True)"
proof -
  note H = honestD [OF assms(1)]
  have "scalar_ok (answer sum256 cv agg C (ss ! i))" for agg C unfolding answer_def by (rule mod_N_scalar [OF H(1,3)])
  moreover have "on_curve cv (nonce_point cv (ss ! i))" using member_point_on [OF assms] by blast
  ultimately obtain bs where "SchnMultiSig_Bytes cv (round_sig sum256 cv ss is h i) = Inr bs"
    "SchnMultiSig_SetBytes cv bs = Inr (round_sig sum256 cv ss is h i, True)"
    using SchnMultiSig_roundtrip [OF H(2)] unfolding round_sig_def signed_def by blast
  then show "SchnMultiSig_Bytes cv (round_sig sum256 cv ss is h i) = Inr (sig_bytes cv (round_sig sum256 cv ss is h i))"
    and "SchnMultiSig_SetBytes cv (sig_bytes cv (round_sig sum256 cv ss is h i)) = Inr (round_sig sum256 cv ss is h i, True)"
    by (simp_all add: sig_bytes_def)
qed

lemma sort_indices: "indices is n \<Longrightarrow> mset js = mset is \<Longrightarrow> sort (map int js) = map int is"
  by (rule properties_for_sort) (simp_all add: sorted_map indicesD(2))

lemma SignData_honest:
  assumes "honest_committee sum256 cv ss" and "indices is (length ss)" and "i \<in> set is"
    and "iteration_order (collected sum256 cv ss is) order"
  shows "SignData sum256 cv order (collected sum256 cv ss is) (member_scheme sum256 cv ss h i)
    = Inr ((member_scheme sum256 cv ss h i)\<lparr>mss_ValidatorsIdxR := map int is, mss_R := round_R sum256 cv ss is,
        mss_CommitSig := round_sig_text sum256 cv ss is h i\<rparr>, None)"
proof -
  let ?n = "\<lambda>i. nonce_point cv (ss ! i)"
  note H = honestD [OF assms(1)]
  obtain js where js: "order = map (\<lambda>i. member_text sum256 cv (ss ! i)) js" "mset js = mset is"
    using order_members [OF H(7) assms(2) assms(4) [unfolded collected_def]] by blast
  have sub: "set js \<subseteq> set is" using mset_eq_setD [OF js(2)] by simp
  have lt: "\<forall>i \<in> set js. i < length ss" using sub indicesD(3) [OF assms(2)] by blast
  have i: "i < length ss" by (rule indicesD(3) [OF assms(2,3)])
  have "list_all (curve_pt cv) (map ?n js)" using members_on_curve(2) [OF assms(1) lt] by (auto simp: list_all_iff on_curve_pt)
  then have R: "sum_points cv (map ?n js) Zero = sum_points cv (map ?n is) Zero"
    by (rule sum_points_perm [OF H(1)]) (simp add: js(2))
  have "0 \<le> snd (ss ! i)" using member_point_on [OF assms(1) i] by (simp add: signer_ok_def)
  then have r: "int (be_val (AddPaddingBigInt (snd (ss ! i)) BigIntSize)) = snd (ss ! i)" by (simp add: be_val_AddPaddingBigInt)
  show ?thesis
    using sign_loop_members [OF assms(1,2) sub] SignMultiSig_member [OF assms(1-3) js(2)] round_sig_readable [OF assms(1) i]
    by (simp add: SignData_def member_scheme_def Prepare_def GenerateRandom_def js(1) andThen_def Base58Check_Encode_eq r R
        round_R_def round_sig_text_def sort_indices [OF assms(2) js(2)])
qed

subsection \<open>Checking\<close>

lemma GetPubKeysFromIdx_members:
  assumes "honest_committee sum256 cv ss"
  shows "\<forall>i \<in> set is. i < length ss \<Longrightarrow>
    GetPubKeysFromIdx sum256 (map (member_text sum256 cv) ss) (map int is) = Inr (map (\<lambda>i. signer_key cv (ss ! i)) is)"
  by (induction "is") (simp_all add: index_int_def index_def andThen_def member_text_def Base58Check_Decode_text [OF honestD(5) [OF assms]])

text \<open>The signature of one member verifies under the keys of the round.\<close>

lemma round_sig_verifies:
  assumes "honest_committee sum256 cv ss" and "indices is (length ss)" and "i \<in> set is"
  shows "VerifyMultiSig sum256 cv (round_sig sum256 cv ss is h i) (Hash_GetBytes h) (map (\<lambda>i. signer_key cv (ss ! i)) is)
      [signer_key cv (ss ! i)] (sum_points cv (map (\<lambda>i. nonce_point cv (ss ! i)) is) Zero) = Inr True"
proof -
  let ?ps = "map (\<lambda>i. signer_point cv (ss ! i)) is" and ?R = "sum_points cv (map (\<lambda>i. nonce_point cv (ss ! i)) is) Zero"
  note H = honestD [OF assms(1)]
  have i: "signer_ok cv (ss ! i)" "on_curve cv (nonce_point cv (ss ! i))"
    using member_point_on [OF assms(1)] indicesD(3) [OF assms(2,3)] by blast+
  have on: "list_all (on_curve cv) ?ps" using members_on_curve(1) [OF assms(1)] indicesD(3) [OF assms(2)] by blast
  have part: "length [ss ! i] < length ?ps \<or> map (signer_point cv) [ss ! i] = ?ps"
    using assms(3) by (cases "is"; cases "tl is") auto
  have N: "Add cv Zero (nonce_point cv (ss ! i)) = nonce_point cv (ss ! i)" by (simp add: Add_def)
  have A: "answer sum256 cv agg C (ss ! i) mod cv_N cv = answer sum256 cv agg C (ss ! i)" for agg C by (simp add: answer_def)
  have "list_all (signer_ok cv) [ss ! i]" "on_curve cv (sum_points cv (map (nonce_point cv) [ss ! i]) Zero)"
    using i by (simp_all add: sum_points_def N)
  from combined_verifies [OF H(1-4) on this(1) part this(2), of sum256 ?R "Hash_GetBytes h"]
  show ?thesis
    unfolding CombineMultiSig_def combine_loop_signed
    by (simp add: sum_points_def N A round_sig_def signed_def round_C_def signer_key_def comp_def)
qed

lemma VerifyCommitSig_honest:
  assumes "honest_committee sum256 cv ss" and "indices is (length ss)" and "i \<in> set is"
    and "on_curve cv (sum_points cv (map (\<lambda>i. nonce_point cv (ss ! i)) is) Zero)"
    and "mss_SigningCommittee ms = map (member_text sum256 cv) ss" and "mss_dataToSig ms = h"
  shows "VerifyCommitSig sum256 cv ms (member_text sum256 cv (ss ! i)) (round_sig_text sum256 cv ss is h i)
      (round_R sum256 cv ss is) (map int is) = Inr None"
proof -
  note H = honestD [OF assms(1)]
  note dec = Base58Check_Decode_text [OF H(5)]
  have "GetPubKeysFromIdx sum256 (map (member_text sum256 cv) ss) (map int is) = Inr (map (\<lambda>i. signer_key cv (ss ! i)) is)"
    using GetPubKeysFromIdx_members [OF assms(1)] indicesD(3) [OF assms(2)] by blast
  then show ?thesis
    using round_sig_readable(2) [OF assms(1) indicesD(3) [OF assms(2,3)]] round_sig_verifies [OF assms(1-3)]
    by (simp add: VerifyCommitSig_def round_R_def round_sig_text_def member_text_def dec assms(5,6) andThen_def
        Decompress_Compress [OF H(2) assms(4)])
qed

subsection \<open>Combining\<close>

lemma combine_sigs_loop_members:
  assumes "honest_committee sum256 cv ss" and "indices qs (length ss)"
  shows "set js \<subseteq> set qs \<Longrightarrow>
    combine_sigs_loop sum256 cv (map (member_text sum256 cv) ss) (committed sum256 cv ss is qs h) (map (\<lambda>i. member_text sum256 cv (ss ! i)) js) sigs idx idxR
    = Inr (idx @ map int js, Inr (sigs @ map (round_sig sum256 cv ss is h) js, if js = [] then idxR else map int is))"
proof (induction js arbitrary: sigs idx idxR)
  case (Cons j js)
  then have j: "j \<in> set qs" "j < length ss" using indicesD(3) [OF assms(2)] by auto
  have "map_get d (committed sum256 cv ss is qs h) (member_text sum256 cv (ss ! j))
      = \<lparr>cs_ValidatorsIdxR = map int is, cs_Sig = round_sig_text sum256 cv ss is h j\<rparr>" for d
    unfolding committed_def by (rule members_get [OF honestD(7) [OF assms(1)] assms(2) j(1)])
  then show ?case
    using Cons round_sig_readable(2) [OF assms(1) j(2)] member_index [OF honestD(7) [OF assms(1)] j(2)]
    by (simp add: round_sig_text_def Base58Check_Decode_text [OF honestD(5) [OF assms(1)]] andThen_def)
qed simp

lemma committee_keys_members:
  assumes "honest_committee sum256 cv ss"
  shows "\<forall>i \<in> set is. i < length ss \<Longrightarrow>
    committee_keys sum256 (map (member_text sum256 cv) ss) is = Inr (Some (map (signer_key cv) (map (\<lambda>i. ss ! i) is)))"
  by (induction "is") (simp_all add: index_def andThen_def member_text_def Base58Check_Decode_text [OF honestD(5) [OF assms]])

lemma indices_subset_eq:
  assumes "indices qs n" and "indices is n" and "set qs \<subseteq> set is"
  shows "length qs < length is \<or> qs = is"
proof (cases "set qs = set is")
  case True
  then show ?thesis using assms indicesD(1,2) sorted_distinct_set_unique by blast
next
  case False
  then have "card (set qs) < card (set is)" using assms(3) by (simp add: psubset_card_mono psubset_eq)
  then show ?thesis using assms(1,2) indicesD(1) distinct_card by metis
qed

lemma CombineSigs_honest:
  assumes "honest_committee sum256 cv ss" and "indices is (length ss)" and "indices qs (length ss)" and "set qs \<subseteq> set is" and "qs \<noteq> []"
    and "on_curve cv (sum_points cv (map (\<lambda>i. nonce_point cv (ss ! i)) is) Zero)"
    and "on_curve cv (sum_points cv (map (\<lambda>i. nonce_point cv (ss ! i)) qs) Zero)"
    and "iteration_order (committed sum256 cv ss is qs h) order"
    and "mss_SigningCommittee ms = map (member_text sum256 cv) ss" and "mss_ValidatorsIdxAggSig ms = []"
  shows "\<exists>agg. CombineSigs sum256 cv order R (committed sum256 cv ss is qs h) ms
      = Inr (ms\<lparr>mss_ValidatorsIdxAggSig := map int qs, mss_R := R, mss_ValidatorsIdxR := map int is\<rparr>, agg, None)
    \<and> ValidateAggSignature sum256 cv [is, qs] (map (member_text sum256 cv) ss) agg (round_R sum256 cv ss is) h = Inr None"
proof -
  let ?m = "\<lambda>i. ss ! i" and ?p = "\<lambda>i. signer_point cv (ss ! i)" and ?n = "\<lambda>i. nonce_point cv (ss ! i)"
  let ?agg = "sum_points cv (map ?p is) Zero" and ?C = "round_C sum256 cv ss is h"
  note H = honestD [OF assms(1)]
  obtain js where js: "order = map (\<lambda>i. member_text sum256 cv (ss ! i)) js" "mset js = mset qs"
    using order_members [OF H(7) assms(3) assms(8) [unfolded committed_def]] by blast
  have lt: "\<forall>i \<in> set is. i < length ss" "\<forall>i \<in> set qs. i < length ss" "\<forall>i \<in> set js. i < length ss"
    using indicesD(3) [OF assms(2)] indicesD(3) [OF assms(3)] mset_eq_setD [OF js(2)] by auto
  have ne: "set js \<subseteq> set qs" "js \<noteq> []" using mset_eq_setD [OF js(2)] js(2) assms(5) by auto
  have part: "length (map ?m qs) < length (map ?p is) \<or> map (signer_point cv) (map ?m qs) = map ?p is"
    using indices_subset_eq [OF assms(3,2,4)] by (auto simp: comp_def)
  have sum: "on_curve cv (sum_points cv (map (nonce_point cv) (map ?m qs)) Zero)" using assms(7) by (simp add: comp_def)
  have keys: "committee_keys sum256 (map (member_text sum256 cv) ss) is = Inr (Some (map (Compress cv) (map ?p is)))"
    "committee_keys sum256 (map (member_text sum256 cv) ss) qs = Inr (Some (map (signer_key cv) (map ?m qs)))"
    using committee_keys_members [OF assms(1) lt(1)] committee_keys_members [OF assms(1) lt(2)] by (simp_all add: signer_key_def comp_def)
  have on: "list_all (on_curve cv) (map ?p is)" "list_all (signer_ok cv) (map ?m qs)" "list_all (signer_ok cv) (map ?m js)"
    using members_on_curve [OF assms(1)] lt by blast+
  obtain m bs where m: "CombineMultiSig cv (map (signed sum256 cv ?agg ?C) (map ?m qs)) = Inr m" "SchnMultiSig_Bytes cv m = Inr bs"
    "ValidateAggSignature sum256 cv [is, qs] (map (member_text sum256 cv) ss) (b58check_text sum256 bs 0) (round_R sum256 cv ss is) h = Inr None"
  proof -
    from signed_block_accepted [OF H(1-5) on(1,2) part sum assms(6) keys, of h 0]
    obtain sigs m bs where *: "map (\<lambda>s. SignMultiSig sum256 cv (signer_keyset cv s) (Hash_GetBytes h) (map (Compress cv) (map ?p is)) (map ?n is) (snd s)) (map ?m qs) = map Inr sigs"
      "CombineMultiSig cv sigs = Inr m" "SchnMultiSig_Bytes cv m = Inr bs"
      "ValidateAggSignature sum256 cv [is, qs] (map (member_text sum256 cv) ss) (b58check_text sum256 bs 0) (round_R sum256 cv ss is) h = Inr None"
      unfolding round_R_def by blast
    have "sigs = map (signed sum256 cv ?agg ?C) (map ?m qs)"
      using *(1) unfolding Sign_all [OF H(1-3) on(1,2)] round_C_def inj_map_eq_map [OF inj_Inr] by (rule sym)
    then show thesis using that [of m bs] *(2-4) by simp
  qed
  have sigs: "map (round_sig sum256 cv ss is h) js = map (signed sum256 cv ?agg ?C) (map ?m js)" by (simp add: round_sig_def)
  have "mset (map ?m js) = mset (map ?m qs)" by (simp add: js(2))
  then have "CombineMultiSig cv (map (round_sig sum256 cv ss is h) js) = Inr m"
    unfolding sigs m(1) [symmetric] by (rule CombineMultiSig_perm [OF H(1) on(3)])
  then show ?thesis
    using combine_sigs_loop_members [OF assms(1,3) ne(1)] m(2,3)
    by (simp add: CombineSigs_def js(1) assms(9,10) andThen_def Base58Check_Encode_eq ne(2) sort_indices [OF assms(3) js(2)])
qed

section \<open>Properties\<close>

text \<open>C6: A round of honest members ends with a block every node accepts. Let the members \<open>is\<close> have exchanged their
  nonce points and the members \<open>qs\<close> among them their signatures, and let the sums of these nonces not be the point
  at infinity. Then every member of \<open>is\<close> signs without error and computes the same \<open>R\<close> and index list, whatever the
  order of its map; every member accepts every such signature; and combining the signatures of \<open>qs\<close>, in any
  order, gives the index lists \<open>is\<close> and \<open>qs\<close> and a signature with which \<open>ValidateAggSignature\<close> accepts the block.
\<close>

theorem bft_honest_round:
  assumes "honest_committee sum256 cv ss" and "indices is (length ss)" and "indices qs (length ss)" and "set qs \<subseteq> set is" and "qs \<noteq> []"
    and "on_curve cv (sum_points cv (map (\<lambda>i. nonce_point cv (ss ! i)) is) Zero)"
    and "on_curve cv (sum_points cv (map (\<lambda>i. nonce_point cv (ss ! i)) qs) Zero)"
    and "i \<in> set is" and "k < length ss"
    and "iteration_order (collected sum256 cv ss is) order" and "iteration_order (committed sum256 cv ss is qs h) order'"
  shows "(\<exists>ms. SignData sum256 cv order (collected sum256 cv ss is) (member_scheme sum256 cv ss h i) = Inr (ms, None)
      \<and> mss_R ms = round_R sum256 cv ss is \<and> mss_ValidatorsIdxR ms = map int is
      \<and> VerifyCommitSig sum256 cv (member_scheme sum256 cv ss h k) (member_text sum256 cv (ss ! i)) (mss_CommitSig ms) (mss_R ms) (mss_ValidatorsIdxR ms) = Inr None
      \<and> (i \<in> set qs \<longrightarrow> fmlookup (committed sum256 cv ss is qs h) (member_text sum256 cv (ss ! i))
            = Some \<lparr>cs_ValidatorsIdxR = mss_ValidatorsIdxR ms, cs_Sig = mss_CommitSig ms\<rparr>))
    \<and> (\<exists>ms agg. CombineSigs sum256 cv order' (round_R sum256 cv ss is) (committed sum256 cv ss is qs h) (member_scheme sum256 cv ss h k) = Inr (ms, agg, None)
      \<and> mss_ValidatorsIdxR ms = map int is \<and> mss_ValidatorsIdxAggSig ms = map int qs
      \<and> ValidateAggSignature sum256 cv [is, qs] (map (member_text sum256 cv) ss) agg (mss_R ms) h = Inr None)"
proof -
  let ?k = "member_scheme sum256 cv ss h k"
  have k: "mss_SigningCommittee ?k = map (member_text sum256 cv) ss" "mss_dataToSig ?k = h" "mss_ValidatorsIdxAggSig ?k = []"
    by (simp_all add: member_scheme_def Prepare_def GenerateRandom_def)
  have "fmlookup (committed sum256 cv ss is qs h) (member_text sum256 cv (ss ! i))
      = Some \<lparr>cs_ValidatorsIdxR = map int is, cs_Sig = round_sig_text sum256 cv ss is h i\<rparr>" if "i \<in> set qs"
    using members_fmlookup [OF honestD(7) [OF assms(1)] assms(3) that] unfolding committed_def .
  then show ?thesis
    using SignData_honest [OF assms(1,2,8,10), of h] VerifyCommitSig_honest [OF assms(1,2,8,6) k(1,2)]
      CombineSigs_honest [OF assms(1-7,11) k(1,3), of "round_R sum256 cv ss is"] by auto
qed

text \<open>Two members on the small curve.\<close>

lemma ex_honest: "honest_committee ex_digest ex_curve ex_signers"
proof -
  have "distinct (map (signer_key ex_curve) ex_signers)" by code_simp
  moreover have "inj (\<lambda>k. b58check_text ex_digest k 0)"
    by (rule inj_on_inverseI [where g = "\<lambda>t. case Base58Check_Decode ex_digest t of Inl _ \<Rightarrow> [] | Inr (k, _) \<Rightarrow> k"])
      (simp add: Base58Check_Decode_text [OF ex_digest32])
  ultimately have "distinct (map (member_text ex_digest ex_curve) ex_signers)"
    unfolding member_text_def by (auto simp: distinct_map comp_def inj_on_def)
  then show ?thesis
    using ex_curve_group ex_good_field ex_order ex_base_pt ex_digest32 ex_signers_ok by (simp add: honest_committee_def)
qed

lemma members_order:
  assumes "distinct (map (member_text sum256 cv) ss)" and "indices is (length ss)"
  shows "iteration_order (fmap_of_list (map (\<lambda>i. (member_text sum256 cv (ss ! i), f i)) is)) (map (\<lambda>i. member_text sum256 cv (ss ! i)) is)"
  using member_inj [OF assms(1), of "is"] assms(2) indicesD(1) [OF assms(2)]
  by (auto simp: iteration_order_def fmdom'_alt_def fset_of_list.rep_eq distinct_map indices_def)

theorem bft_honest_round_witness:
  "let order = map (\<lambda>i. member_text ex_digest ex_curve (ex_signers ! i)) [0, 1] in
   (\<exists>ms. SignData ex_digest ex_curve order (collected ex_digest ex_curve ex_signers [0, 1]) (member_scheme ex_digest ex_curve ex_signers zero_hash 0) = Inr (ms, None)
      \<and> VerifyCommitSig ex_digest ex_curve (member_scheme ex_digest ex_curve ex_signers zero_hash 1) (member_text ex_digest ex_curve (ex_signers ! 0))
          (mss_CommitSig ms) (mss_R ms) (mss_ValidatorsIdxR ms) = Inr None)
    \<and> (\<exists>ms agg. CombineSigs ex_digest ex_curve order (round_R ex_digest ex_curve ex_signers [0, 1])
          (committed ex_digest ex_curve ex_signers [0, 1] [0, 1] zero_hash) (member_scheme ex_digest ex_curve ex_signers zero_hash 1) = Inr (ms, agg, None)
      \<and> ValidateAggSignature ex_digest ex_curve [[0, 1], [0, 1]] (map (member_text ex_digest ex_curve) ex_signers) agg (mss_R ms) zero_hash = Inr None)"
proof -
  have l: "length ex_signers = 2" by (simp add: ex_signers_def)
  have ix: "indices [0, 1] (length ex_signers)" by (simp add: indices_def l)
  have "map (\<lambda>i. nonce_point ex_curve (ex_signers ! i)) [0, 1] = map (nonce_point ex_curve) ex_signers" by (simp add: ex_signers_def)
  then have sum: "on_curve ex_curve (sum_points ex_curve (map (\<lambda>i. nonce_point ex_curve (ex_signers ! i)) [0, 1]) Zero)"
    using ex_nonce_sum by simp
  note ord = members_order [OF honestD(7) [OF ex_honest] ix]
  have ords: "iteration_order (collected ex_digest ex_curve ex_signers [0, 1]) (map (\<lambda>i. member_text ex_digest ex_curve (ex_signers ! i)) [0, 1])"
    "iteration_order (committed ex_digest ex_curve ex_signers [0, 1] [0, 1] zero_hash) (map (\<lambda>i. member_text ex_digest ex_curve (ex_signers ! i)) [0, 1])"
    unfolding collected_def committed_def by (rule ord)+
  have "[0, 1] \<noteq> ([] :: nat list)" "0 \<in> set [0, 1 :: nat]" "1 < length ex_signers" by (simp_all add: l)
  from bft_honest_round [OF ex_honest ix ix subset_refl this(1) sum sum this(2,3) ords]
  show ?thesis unfolding Let_def by blast
qed

end
