(* ===== verification/BFT_Protocol.thy ===== *)
theory BFT_Protocol
  imports BFT_Round
begin

text \<open>
  One round of the consensus at one node: \<open>BFTProtocol\<close> of \<open>src/consensus/constantbft/bft.go\<close> and its phases in
  \<open>bftphases.go\<close>. The proposer collects ready messages and proposes its block, a validator listens for a
  proposal; both then exchange nonce points (prepare) and signatures (commit). Each phase is a \<open>select\<close> loop
  that runs until the channel \<open>cTimeout\<close> is closed and that branch is taken.

  The node is a state and a list of events: what a loop receives, which of its ready branches it takes, when a
  timer fires, and what the other goroutines (the creation of the block, the handler of early messages) do.
  Both layers are one model over a type of blocks: JSON decoding, the hash of the header, \<open>VerifyPreSignBeaconBlock\<close>
  or \<open>VerifyPreSignShardBlock\<close>, the role of a key and the own pool state are the fields of \<open>bft_env\<close>. A
  timer that closes a channel while another goroutine closes it is not modelled.
\<close>

section \<open>The state\<close>

definition BFT_LISTEN :: string where "BFT_LISTEN = ''listen''"
definition BFT_PROPOSE :: string where "BFT_PROPOSE = ''propose''"
definition BFT_PREPARE :: string where "BFT_PREPARE = ''prepare''"
definition BFT_COMMIT :: string where "BFT_COMMIT = ''commit''"

lemmas phase_defs = BFT_LISTEN_def BFT_PROPOSE_def BFT_PREPARE_def BFT_COMMIT_def

record 'blk bft_env =
  be_sum256 :: "bytes \<Rightarrow> bytes"
  be_curve :: curve
  be_gens :: "point list"
  be_UserKeySet :: KeySet
  be_Layer :: string
  be_ShardID :: byte
  be_marshal :: "'blk \<Rightarrow> bytes"
  be_unmarshal :: "bytes \<Rightarrow> 'blk"
  be_headerHash :: "'blk \<Rightarrow> hash"
  be_preSign :: "'blk \<Rightarrow> bool"
  be_role :: "string \<Rightarrow> int \<Rightarrow> string"
  be_poolState :: "(byte, uint64) fmap"

text \<open>A block with the fields the consensus fills in.\<close>

record 'blk signed_block =
  sgb_block :: 'blk
  sgb_R :: string
  sgb_AggregatedSig :: string
  sgb_ValidatorsIdx :: "int list list"

datatype bft_error =
    ProposeFailed | NotEnoughReady | ListenTimeout | NotEnoughRi | SignFailed sig_error | NotEnoughSigs | CombineFailed sig_error

datatype 'blk bft_status = Running | Failed bft_error | Returned "'blk signed_block" | Crashed fault

text \<open>The channel \<open>proposeCh\<close>: the block is being created, its message is being sent, or the channel is closed.\<close>

datatype propose_channel = Creating | Sending bft_message | ProposeClosed

record 'blk BFTProtocol =
  pt_phase :: string
  pt_pendingBlock :: "'blk option"
  pt_BestStateHash :: hash
  pt_IsProposer :: bool
  pt_Committee :: "string list"
  pt_ClosestPoolState :: "(byte, uint64) fmap"
  pt_Round :: int
  pt_ms :: multiSigScheme
  pt_cTimeout :: bool
  pt_proposeCh :: propose_channel
  pt_waiting :: bool
  pt_readyMsgs :: "(string, MessageBFTReady) fmap"
  pt_Ri :: "(string, bytes) fmap"
  pt_Sigs :: "(string, (string, bftCommittedSig) fmap) fmap"
  pt_earlyMsgCh :: "bft_message list"
  pt_prepareMsgs :: "bft_message list"
  pt_commitMsgs :: "bft_message list"
  pt_sent :: "bft_message list"
  pt_status :: "'blk bft_status"

definition user_pk :: "'blk bft_env \<Rightarrow> string" where
  "user_pk E = (case GetPublicKeyB58 (be_sum256 E) (be_UserKeySet E) of Inl _ \<Rightarrow> '''' | Inr t \<Rightarrow> t)"

definition forwardMsg :: "bft_message \<Rightarrow> 'blk BFTProtocol \<Rightarrow> 'blk BFTProtocol" where
  "forwardMsg m p = p\<lparr>pt_sent := pt_sent p @ [m]\<rparr>"

definition stop_with :: "bft_error \<Rightarrow> 'blk BFTProtocol \<Rightarrow> 'blk BFTProtocol" where
  "stop_with e p = p\<lparr>pt_status := Failed e\<rparr>"

definition closeTimeoutCh :: "'blk BFTProtocol \<Rightarrow> 'blk BFTProtocol" where
  "closeTimeoutCh p = p\<lparr>pt_cTimeout := True\<rparr>"

definition in_committee :: "string \<Rightarrow> 'blk BFTProtocol \<Rightarrow> bool" where
  "in_committee pk p \<longleftrightarrow> IndexOfStr pk (pt_Committee p) \<noteq> -1"

section \<open>Entering the phases\<close>

text \<open>\<open>phaseListen\<close> and its handler of requests announce the node as ready.\<close>

definition push_ready :: "'blk bft_env \<Rightarrow> byte list \<Rightarrow> int \<Rightarrow> int \<Rightarrow> 'blk BFTProtocol \<Rightarrow> fault + 'blk BFTProtocol" where
  "push_ready E order s now p =
     andThen (MakeMsgBFTReady (be_sum256 E) (be_curve E) (be_gens E) order (be_UserKeySet E) s now (pt_BestStateHash p) (pt_Round p)
                (be_poolState E)) (\<lambda>(m, _). Inr (forwardMsg m p))"

definition enter_prepare :: "'blk bft_env \<Rightarrow> 'blk BFTProtocol \<Rightarrow> 'blk BFTProtocol" where
  "enter_prepare E p = p\<lparr>pt_phase := BFT_PREPARE, pt_cTimeout := False, pt_waiting := False,
     pt_Ri := fmupd (user_pk E) (mss_Ri (pt_ms p)) fmempty\<rparr>"

definition enter_commit :: "'blk bft_env \<Rightarrow> 'blk BFTProtocol \<Rightarrow> 'blk BFTProtocol" where
  "enter_commit E p = p\<lparr>pt_phase := BFT_COMMIT, pt_cTimeout := False,
     pt_Sigs := fmupd (mss_R (pt_ms p)) (fmupd (user_pk E) \<lparr>cs_ValidatorsIdxR = mss_ValidatorsIdxR (pt_ms p), cs_Sig = mss_CommitSig (pt_ms p)\<rparr> fmempty) fmempty\<rparr>"

text \<open>\<open>Start\<close>, up to the first wait of the first phase, with the nonce of the round.\<close>

definition bft_Start ::
  "'blk bft_env \<Rightarrow> hash \<Rightarrow> int \<Rightarrow> bool \<Rightarrow> string list \<Rightarrow> int \<Rightarrow> byte list \<Rightarrow> int \<Rightarrow> int \<Rightarrow> fault + 'blk BFTProtocol" where
  "bft_Start E bestStateHash rnd isProposer committee nonce order s now =
     (let p = \<lparr>pt_phase = (if isProposer then BFT_PROPOSE else BFT_LISTEN), pt_pendingBlock = None, pt_BestStateHash = bestStateHash,
               pt_IsProposer = isProposer, pt_Committee = committee, pt_ClosestPoolState = fmempty, pt_Round = rnd,
               pt_ms = Prepare (be_curve E) nonce (multiSig_Init (be_UserKeySet E) committee), pt_cTimeout = False,
               pt_proposeCh = Creating, pt_waiting = False, pt_readyMsgs = fmempty, pt_Ri = fmempty, pt_Sigs = fmempty,
               pt_earlyMsgCh = [], pt_prepareMsgs = [], pt_commitMsgs = [], pt_sent = [], pt_status = Running\<rparr>
      in if isProposer then Inr p else push_ready E order s now p)"

section \<open>The propose phase\<close>

definition enough_ready :: "'blk BFTProtocol \<Rightarrow> bool" where
  "enough_ready p \<longleftrightarrow> int (map_len (pt_readyMsgs p)) \<ge> int (2 * length (pt_Committee p) div 3) - 1"

fun propose_msg :: "bft_message \<Rightarrow> 'blk BFTProtocol \<Rightarrow> 'blk BFTProtocol" where
  "propose_msg (BFTReady m) p =
     (if rd_BestStateHash m = pt_BestStateHash p \<and> rd_Round m = pt_Round p \<and> in_committee (rd_Pubkey m) p
      then let p' = p\<lparr>pt_readyMsgs := fmupd (rd_Pubkey m) m (pt_readyMsgs p)\<rparr>
           in if enough_ready p' then closeTimeoutCh p' else p'
      else p)"
| "propose_msg _ p = p"

text \<open>
  The branch of \<open>cTimeout\<close>; with enough ready messages it goes on to wait for the block. The closest pool
  state is known only here, when the creation of the block, which should use it, has long begun.
\<close>

definition propose_timeout :: "'blk bft_env \<Rightarrow> string list \<Rightarrow> 'blk BFTProtocol \<Rightarrow> 'blk BFTProtocol" where
  "propose_timeout E order p =
     (if enough_ready p
      then p\<lparr>pt_ClosestPoolState := GetClosestPoolState (map rd_PoolState (range_values (pt_readyMsgs p) order) @ [be_poolState E]),
             pt_waiting := True\<rparr>
      else stop_with NotEnoughReady (p\<lparr>pt_proposeCh := ProposeClosed\<rparr>))"

text \<open>\<open>CreateBlockMsg\<close> when the block is there (\<open>None\<close>: creating or finalizing it failed).\<close>

definition CreateBlockMsg :: "'blk bft_env \<Rightarrow> 'blk option \<Rightarrow> int \<Rightarrow> int \<Rightarrow> 'blk BFTProtocol \<Rightarrow> fault + 'blk BFTProtocol" where
  "CreateBlockMsg E newBlock s now p =
     (case newBlock of
        None \<Rightarrow> Inr (p\<lparr>pt_proposeCh := ProposeClosed\<rparr>)
      | Some blk \<Rightarrow>
          andThen (MakeMsgBFTPropose (be_sum256 E) (be_curve E) (be_gens E) (be_UserKeySet E) s now (be_marshal E blk) (be_Layer E) (be_ShardID E))
            (\<lambda>(m, ok). Inr (if ok
               then p\<lparr>pt_pendingBlock := Some blk, pt_ms := (pt_ms p)\<lparr>mss_dataToSig := be_headerHash E blk\<rparr>, pt_proposeCh := Sending m\<rparr>
               else p\<lparr>pt_proposeCh := ProposeClosed\<rparr>)))"

text \<open>\<open>msg := <-protocol.proposeCh\<close>: it waits while the block is being created.\<close>

definition receive_proposal :: "'blk bft_env \<Rightarrow> 'blk BFTProtocol \<Rightarrow> 'blk BFTProtocol" where
  "receive_proposal E p =
     (case pt_proposeCh p of
        Creating \<Rightarrow> p
      | ProposeClosed \<Rightarrow> stop_with ProposeFailed p
      | Sending m \<Rightarrow> enter_prepare E ((forwardMsg m p)\<lparr>pt_proposeCh := ProposeClosed\<rparr>))"

section \<open>The listen phase\<close>

fun listen_msg :: "'blk bft_env \<Rightarrow> byte list \<Rightarrow> int \<Rightarrow> int \<Rightarrow> bft_message \<Rightarrow> 'blk BFTProtocol \<Rightarrow> fault + 'blk BFTProtocol" where
  "listen_msg E order s now (BFTPropose m) p =
     (let p1 = forwardMsg (BFTPropose m) p; blk = be_unmarshal E (pp_Block m) in
      if be_preSign E blk
      then Inr (enter_prepare E (p1\<lparr>pt_pendingBlock := Some blk, pt_ms := (pt_ms p1)\<lparr>mss_dataToSig := be_headerHash E blk\<rparr>\<rparr>))
      else Inr p1)"
| "listen_msg E order s now (BFTReq m) p =
     (if rq_BestStateHash m = pt_BestStateHash p \<and> rq_Round m = pt_Round p \<and> in_committee (rq_Pubkey m) p
         \<and> be_role E (rq_Pubkey m) (pt_Round p) = PROPOSER_ROLE
      then push_ready E order s now p else Inr p)"
| "listen_msg E order s now m p = Inr (p\<lparr>pt_earlyMsgCh := pt_earlyMsgCh p @ [m]\<rparr>)"

section \<open>The prepare phase\<close>

fun prepare_msg :: "bft_message \<Rightarrow> 'blk BFTProtocol \<Rightarrow> 'blk BFTProtocol" where
  "prepare_msg (BFTPrepare m) p =
     (if IndexOfStr (pr_Pubkey m) (pt_Committee p) \<ge> 0 \<and> mss_dataToSig (pt_ms p) = pr_BlkHash m \<and> fmlookup (pt_Ri p) (pr_Pubkey m) = None
      then let p' = forwardMsg (BFTPrepare m) (p\<lparr>pt_Ri := fmupd (pr_Pubkey m) (pr_Ri m) (pt_Ri p)\<rparr>)
           in if map_len (pt_Ri p') = length (pt_Committee p) then closeTimeoutCh p' else p'
      else p)"
| "prepare_msg m p = p\<lparr>pt_earlyMsgCh := pt_earlyMsgCh p @ [m]\<rparr>"

definition prepare_timeout :: "'blk bft_env \<Rightarrow> string list \<Rightarrow> 'blk BFTProtocol \<Rightarrow> fault + 'blk BFTProtocol" where
  "prepare_timeout E order p =
     (if map_len (pt_Ri p) < length (pt_Committee p) div 2 then Inr (stop_with NotEnoughRi p)
      else andThen (SignData (be_sum256 E) (be_curve E) order (pt_Ri p) (pt_ms p)) (\<lambda>(ms, err).
        case err of Some e \<Rightarrow> Inr (stop_with (SignFailed e) (p\<lparr>pt_ms := ms\<rparr>))
        | None \<Rightarrow> Inr (enter_commit E (p\<lparr>pt_ms := ms\<rparr>))))"

section \<open>The commit phase\<close>

definition quorum :: "'blk BFTProtocol \<Rightarrow> nat \<Rightarrow> bool" where
  "quorum p n \<longleftrightarrow> n > 2 * length (pt_Committee p) div 3"

definition verify_commit :: "'blk bft_env \<Rightarrow> MessageBFTCommit \<Rightarrow> 'blk BFTProtocol \<Rightarrow> fault + sig_error option" where
  "verify_commit E m p =
     VerifyCommitSig (be_sum256 E) (be_curve E) (pt_ms p) (cm_Pubkey m) (cm_CommitSig m) (cm_R m) (cm_ValidatorsIdx m)"

fun commit_msg :: "'blk bft_env \<Rightarrow> bft_message \<Rightarrow> 'blk BFTProtocol \<Rightarrow> fault + 'blk BFTProtocol" where
  "commit_msg E (BFTCommit m) p =
     andThen (verify_commit E m p) (\<lambda>err.
       if err \<noteq> None then Inr p
       else let sigs = map_get fmempty (pt_Sigs p) (cm_R m) in
         if fmlookup sigs (cm_Pubkey m) \<noteq> None then Inr p
         else let sigs' = fmupd (cm_Pubkey m) \<lparr>cs_ValidatorsIdxR = cm_ValidatorsIdx m, cs_Sig = cm_CommitSig m\<rparr> sigs;
                  p' = forwardMsg (BFTCommit m) (p\<lparr>pt_Sigs := fmupd (cm_R m) sigs' (pt_Sigs p)\<rparr>)
              in Inr (if quorum p (map_len sigs') then closeTimeoutCh p' else p'))"
| "commit_msg E _ p = Inr p"

text \<open>
  The choice of \<open>R\<close> starts with the text \<open>1\<close>, and a text of length one counts as none chosen.
\<close>

definition choose_R :: "'blk BFTProtocol \<Rightarrow> string list \<Rightarrow> string" where
  "choose_R p order =
     fold (\<lambda>szR best.
       let k = map_len (map_get fmempty (pt_Sigs p) szR) in
       if quorum p k
       then if length best = 1 then szR
            else if k > map_len (map_get fmempty (pt_Sigs p) best) then szR else best
       else best) order ''1''"

definition commit_timeout :: "'blk bft_env \<Rightarrow> string list \<Rightarrow> string list \<Rightarrow> 'blk BFTProtocol \<Rightarrow> fault + 'blk BFTProtocol" where
  "commit_timeout E order sigOrder p =
     (let szRCombined = choose_R p order in
      if length szRCombined = 1 then Inr (stop_with NotEnoughSigs p)
      else andThen (CombineSigs (be_sum256 E) (be_curve E) sigOrder szRCombined (map_get fmempty (pt_Sigs p) szRCombined) (pt_ms p))
        (\<lambda>(ms, AggregatedSig, err).
          case err of Some e \<Rightarrow> Inr (stop_with (CombineFailed e) (p\<lparr>pt_ms := ms\<rparr>))
          | None \<Rightarrow> (case pt_pendingBlock p of
              None \<Rightarrow> Inl NilDereference
            | Some blk \<Rightarrow> Inr (p\<lparr>pt_ms := ms, pt_status := Returned
                \<lparr>sgb_block = blk, sgb_R = mss_R ms, sgb_AggregatedSig = AggregatedSig,
                 sgb_ValidatorsIdx = [mss_ValidatorsIdxR ms, mss_ValidatorsIdxAggSig ms]\<rparr>\<rparr>))))"

section \<open>Early messages\<close>

fun early_msg :: "'blk bft_env \<Rightarrow> bft_message \<Rightarrow> 'blk BFTProtocol \<Rightarrow> fault + 'blk BFTProtocol" where
  "early_msg E (BFTPrepare m) p =
     Inr (if pt_phase p = BFT_LISTEN \<and> IndexOfStr (pr_Pubkey m) (pt_Committee p) \<ge> 0
          then p\<lparr>pt_prepareMsgs := pt_prepareMsgs p @ [BFTPrepare m]\<rparr> else p)"
| "early_msg E (BFTCommit m) p =
     (if pt_phase p = BFT_PREPARE
      then andThen (verify_commit E m p) (\<lambda>err.
             Inr (if err = None then p\<lparr>pt_commitMsgs := pt_commitMsgs p @ [BFTCommit m]\<rparr> else p))
      else Inr p)"
| "early_msg E _ p = Inr p"

section \<open>Events\<close>

datatype 'blk bft_event =
    Fire
  | Deliver bft_message "byte list" int int
  | TakeTimeout "string list" "string list"
  | Created "'blk option" int int
  | ReceiveProposal
  | Early nat
  | FlushPrepare
  | FlushCommit
  | RequestReady int int
  | SendPrepare int int
  | SendCommit int int

text \<open>A message on \<open>cBFTMsg\<close> and a closed \<open>cTimeout\<close>, for the loop of the current phase.\<close>

definition deliver :: "'blk bft_env \<Rightarrow> bft_message \<Rightarrow> byte list \<Rightarrow> int \<Rightarrow> int \<Rightarrow> 'blk BFTProtocol \<Rightarrow> fault + 'blk BFTProtocol" where
  "deliver E m order s now p =
     (if pt_phase p = BFT_PROPOSE then Inr (if pt_waiting p then p else propose_msg m p)
      else if pt_phase p = BFT_LISTEN then listen_msg E order s now m p
      else if pt_phase p = BFT_PREPARE then Inr (prepare_msg m p)
      else commit_msg E m p)"

definition take_timeout :: "'blk bft_env \<Rightarrow> string list \<Rightarrow> string list \<Rightarrow> 'blk BFTProtocol \<Rightarrow> fault + 'blk BFTProtocol" where
  "take_timeout E order sigOrder p =
     (if pt_phase p = BFT_PROPOSE then Inr (if pt_waiting p then p else propose_timeout E order p)
      else if pt_phase p = BFT_LISTEN then Inr (stop_with ListenTimeout p)
      else if pt_phase p = BFT_PREPARE then prepare_timeout E order p
      else commit_timeout E order sigOrder p)"

definition send_if_ok :: "bft_message \<times> bool \<Rightarrow> 'blk BFTProtocol \<Rightarrow> 'blk BFTProtocol" where
  "send_if_ok r p = (if snd r then forwardMsg (fst r) p else p)"

fun handle :: "'blk bft_env \<Rightarrow> 'blk bft_event \<Rightarrow> 'blk BFTProtocol \<Rightarrow> fault + 'blk BFTProtocol" where
  "handle E Fire p = Inr (closeTimeoutCh p)"
| "handle E (Deliver m order s now) p = deliver E m order s now p"
| "handle E (TakeTimeout order sigOrder) p = (if pt_cTimeout p then take_timeout E order sigOrder p else Inr p)"
| "handle E (Created newBlock s now) p =
     (if pt_phase p = BFT_PROPOSE \<and> pt_proposeCh p = Creating then CreateBlockMsg E newBlock s now p else Inr p)"
| "handle E ReceiveProposal p = Inr (if pt_phase p = BFT_PROPOSE \<and> pt_waiting p then receive_proposal E p else p)"
| "handle E (Early n) p =
     (if n < length (pt_earlyMsgCh p)
      then early_msg E (pt_earlyMsgCh p ! n) (p\<lparr>pt_earlyMsgCh := take n (pt_earlyMsgCh p) @ drop (Suc n) (pt_earlyMsgCh p)\<rparr>)
      else Inr p)"
| "handle E FlushPrepare p =
     (if pt_phase p = BFT_PREPARE then
        case pt_prepareMsgs p of [] \<Rightarrow> Inr p | m # ms \<Rightarrow> Inr (prepare_msg m (p\<lparr>pt_prepareMsgs := ms\<rparr>))
      else Inr p)"
| "handle E FlushCommit p =
     (if pt_phase p = BFT_COMMIT then
        case pt_commitMsgs p of [] \<Rightarrow> Inr p | m # ms \<Rightarrow> commit_msg E m (p\<lparr>pt_commitMsgs := ms\<rparr>)
      else Inr p)"
| "handle E (RequestReady s now) p =
     (if pt_phase p = BFT_PROPOSE
      then andThen (MakeMsgBFTReq (be_sum256 E) (be_curve E) (be_gens E) (be_UserKeySet E) s now (pt_BestStateHash p) (pt_Round p))
             (\<lambda>r. Inr (forwardMsg (fst r) p))
      else Inr p)"
| "handle E (SendPrepare s now) p =
     (if pt_phase p \<in> {BFT_PREPARE, BFT_COMMIT}
      then andThen (MakeMsgBFTPrepare (be_sum256 E) (be_curve E) (be_gens E) (be_UserKeySet E) s now (mss_Ri (pt_ms p)) (mss_dataToSig (pt_ms p)))
             (\<lambda>r. Inr (send_if_ok r p))
      else Inr p)"
| "handle E (SendCommit s now) p =
     (if pt_phase p = BFT_COMMIT
      then andThen (MakeMsgBFTCommit (be_sum256 E) (be_curve E) (be_gens E) (be_UserKeySet E) s now (mss_CommitSig (pt_ms p)) (mss_R (pt_ms p))
             (mss_ValidatorsIdxR (pt_ms p))) (\<lambda>r. Inr (send_if_ok r p))
      else Inr p)"

text \<open>A panic in any goroutine stops the node; after the end of the round nothing happens.\<close>

definition exec :: "'blk bft_env \<Rightarrow> 'blk bft_event \<Rightarrow> 'blk BFTProtocol \<Rightarrow> 'blk BFTProtocol" where
  "exec E ev p =
     (if pt_status p = Running
      then (case handle E ev p of Inl f \<Rightarrow> p\<lparr>pt_status := Crashed f\<rparr> | Inr p' \<Rightarrow> p')
      else p)"

inductive bft_reachable :: "'blk bft_env \<Rightarrow> 'blk BFTProtocol \<Rightarrow> bool" for E :: "'blk bft_env" where
  start: "bft_Start E bestStateHash rnd isProposer committee nonce order s now = Inr p \<Longrightarrow> bft_reachable E p"
| step: "bft_reachable E p \<Longrightarrow> bft_reachable E (exec E ev p)"

end
