(* ===== verification/BFT_Safety.thy ===== *)
theory BFT_Safety
  imports BFT_Protocol
begin

text \<open>
  What a consensus round guarantees to the node that runs it: an invariant of all reachable states of
  \<open>BFT_Protocol\<close>, from which a returned block has a quorum of signatures that \<open>VerifyCommitSig\<close> accepted, what that acceptance is worth, and what the quorum is worth.
\<close>

section \<open>The parts\<close>

lemma VerifyCommitSig_cong:
  "mss_SigningCommittee ms = mss_SigningCommittee ms' \<Longrightarrow> mss_dataToSig ms = mss_dataToSig ms' \<Longrightarrow>
   VerifyCommitSig sum256 cv ms = VerifyCommitSig sum256 cv ms'"
  unfolding VerifyCommitSig_def by (intro ext) (simp only:)

lemma SignData_frame:
  assumes "SignData sum256 cv order RiList ms = Inr (ms', e)"
  shows "mss_SigningCommittee ms' = mss_SigningCommittee ms \<and> mss_dataToSig ms' = mss_dataToSig ms
   \<and> mss_ValidatorsIdxAggSig ms' = mss_ValidatorsIdxAggSig ms \<and> mss_Ri ms' = mss_Ri ms"
proof -
  obtain idx r where l: "sign_loop sum256 cv (mss_SigningCommittee ms) RiList order [] [] (mss_ValidatorsIdxR ms) = Inr (idx, r)"
    using assms by (auto simp: SignData_def andThen_Inr_iff)
  show ?thesis using assms by (cases r) (auto simp: SignData_def l andThen_Inr_iff)
qed

lemma CombineSigs_frame:
  assumes "CombineSigs sum256 cv order R sigs ms = Inr (ms', t, e)"
  shows "mss_SigningCommittee ms' = mss_SigningCommittee ms \<and> mss_dataToSig ms' = mss_dataToSig ms"
proof -
  obtain idx r where l: "combine_sigs_loop sum256 cv (mss_SigningCommittee ms) sigs order [] (mss_ValidatorsIdxAggSig ms) [] = Inr (idx, r)"
    using assms by (auto simp: CombineSigs_def andThen_Inr_iff)
  show ?thesis using assms by (cases r) (auto simp: CombineSigs_def l andThen_Inr_iff)
qed

text \<open>An \<open>R\<close> is chosen only among those with a quorum.\<close>

lemma choose_R_fold:
  "length best \<noteq> 1 \<longrightarrow> quorum p (map_len (map_get fmempty (pt_Sigs p) best)) \<Longrightarrow>
   length (fold (\<lambda>szR best. let k = map_len (map_get fmempty (pt_Sigs p) szR) in
       if quorum p k then if length best = 1 then szR else if k > map_len (map_get fmempty (pt_Sigs p) best) then szR else best
       else best) order best) \<noteq> 1 \<longrightarrow>
   quorum p (map_len (map_get fmempty (pt_Sigs p) (fold (\<lambda>szR best. let k = map_len (map_get fmempty (pt_Sigs p) szR) in
       if quorum p k then if length best = 1 then szR else if k > map_len (map_get fmempty (pt_Sigs p) best) then szR else best
       else best) order best)))"
proof (induction order arbitrary: best)
  case (Cons R order)
  show ?case unfolding fold_Cons comp_def by (rule Cons.IH) (use Cons.prems in \<open>auto simp: Let_def\<close>)
qed simp

lemma choose_R_quorum:
  "length (choose_R p order) \<noteq> 1 \<Longrightarrow> quorum p (map_len (map_get fmempty (pt_Sigs p) (choose_R p order)))"
  using choose_R_fold [of "''1''" p order] by (simp add: choose_R_def)

section \<open>The invariant\<close>

text \<open>The pending block is the one whose hash is signed; a validator has verified it.\<close>

definition block_ok :: "'blk bft_env \<Rightarrow> 'blk BFTProtocol \<Rightarrow> bool" where
  "block_ok E p \<longleftrightarrow> (\<exists>blk. pt_pendingBlock p = Some blk \<and> mss_dataToSig (pt_ms p) = be_headerHash E blk
     \<and> (\<not> pt_IsProposer p \<longrightarrow> be_preSign E blk))"

text \<open>Every signature kept for \<open>R\<close> is the node's own or passed \<open>VerifyCommitSig\<close>.\<close>

definition sig_checked :: "'blk bft_env \<Rightarrow> multiSigScheme \<Rightarrow> string \<Rightarrow> (string, bftCommittedSig) fmap \<Rightarrow> bool" where
  "sig_checked E ms R sigs \<longleftrightarrow> (\<forall>pk sig. fmlookup sigs pk = Some sig \<longrightarrow> pk = user_pk E
     \<or> VerifyCommitSig (be_sum256 E) (be_curve E) ms pk (cs_Sig sig) R (cs_ValidatorsIdxR sig) = Inr None)"

definition certified :: "'blk bft_env \<Rightarrow> 'blk BFTProtocol \<Rightarrow> 'blk signed_block \<Rightarrow> bool" where
  "certified E p b \<longleftrightarrow> (\<exists>R sigs order ms. quorum p (map_len sigs) \<and> sig_checked E (pt_ms p) R sigs
     \<and> CombineSigs (be_sum256 E) (be_curve E) order R sigs ms = Inr (pt_ms p, sgb_AggregatedSig b, None)
     \<and> mss_ValidatorsIdxAggSig ms = [] \<and> mss_SigningCommittee ms = pt_Committee p
     \<and> sgb_R b = mss_R (pt_ms p) \<and> sgb_ValidatorsIdx b = [mss_ValidatorsIdxR (pt_ms p), mss_ValidatorsIdxAggSig (pt_ms p)])
     \<and> mss_dataToSig (pt_ms p) = be_headerHash E (sgb_block b)
     \<and> (\<not> pt_IsProposer p \<longrightarrow> be_preSign E (sgb_block b))"

definition phase_inv :: "'blk bft_env \<Rightarrow> 'blk BFTProtocol \<Rightarrow> bool" where
  "phase_inv E p \<longleftrightarrow>
     (if pt_phase p = BFT_PROPOSE then pt_IsProposer p \<and> (\<forall>m. pt_proposeCh p = Sending m \<longrightarrow> block_ok E p)
      else if pt_phase p = BFT_LISTEN then \<not> pt_IsProposer p
      else if pt_phase p = BFT_PREPARE then block_ok E p \<and> fmdom' (pt_Ri p) \<subseteq> insert (user_pk E) (set (pt_Committee p))
      else pt_phase p = BFT_COMMIT \<and> block_ok E p \<and> (\<forall>R sigs. fmlookup (pt_Sigs p) R = Some sigs \<longrightarrow> sig_checked E (pt_ms p) R sigs))"

definition bft_inv :: "'blk bft_env \<Rightarrow> 'blk BFTProtocol \<Rightarrow> bool" where
  "bft_inv E p \<longleftrightarrow> mss_SigningCommittee (pt_ms p) = pt_Committee p
     \<and> (case pt_status p of
          Running \<Rightarrow> phase_inv E p \<and> mss_ValidatorsIdxAggSig (pt_ms p) = []
        | Returned b \<Rightarrow> certified E p b
        | _ \<Rightarrow> True)"

named_theorems bft_simps

declare closeTimeoutCh_def [bft_simps] forwardMsg_def [bft_simps] stop_with_def [bft_simps] send_if_ok_def [bft_simps]

text \<open>Changes that do not matter for the invariant.\<close>

definition same_core :: "'blk BFTProtocol \<Rightarrow> 'blk BFTProtocol \<Rightarrow> bool" where
  "same_core p q \<longleftrightarrow> pt_phase p = pt_phase q \<and> pt_pendingBlock p = pt_pendingBlock q \<and> pt_IsProposer p = pt_IsProposer q
     \<and> pt_Committee p = pt_Committee q \<and> pt_ms p = pt_ms q \<and> pt_proposeCh p = pt_proposeCh q \<and> pt_Ri p = pt_Ri q
     \<and> pt_Sigs p = pt_Sigs q \<and> pt_status p = pt_status q"

lemma same_core_inv:
  assumes "bft_inv E p" and "same_core p q"
  shows "bft_inv E q"
proof -
  note eqs = assms(2) [unfolded same_core_def, THEN conjunct1] assms(2) [unfolded same_core_def, THEN conjunct2]
  have "block_ok E q = block_ok E p" by (simp only: block_ok_def eqs)
  then have "phase_inv E q = phase_inv E p" by (simp only: phase_inv_def eqs)
  moreover have "certified E q = certified E p" by (intro ext) (simp only: certified_def quorum_def eqs)
  ultimately show ?thesis using assms(1) by (simp only: bft_inv_def eqs)
qed

lemma failed_inv: "bft_inv E p \<Longrightarrow> mss_SigningCommittee (pt_ms q) = mss_SigningCommittee (pt_ms p) \<Longrightarrow> pt_Committee q = pt_Committee p
  \<Longrightarrow> pt_status q = Failed e \<or> pt_status q = Crashed f \<Longrightarrow> bft_inv E q"
  by (auto simp: bft_inv_def)

lemma phases_distinct [simp]:
  "BFT_PROPOSE \<noteq> BFT_LISTEN" "BFT_PROPOSE \<noteq> BFT_PREPARE" "BFT_PROPOSE \<noteq> BFT_COMMIT" "BFT_LISTEN \<noteq> BFT_PREPARE"
  "BFT_LISTEN \<noteq> BFT_COMMIT" "BFT_PREPARE \<noteq> BFT_COMMIT" "BFT_LISTEN \<noteq> BFT_PROPOSE" "BFT_PREPARE \<noteq> BFT_PROPOSE"
  "BFT_COMMIT \<noteq> BFT_PROPOSE" "BFT_PREPARE \<noteq> BFT_LISTEN" "BFT_COMMIT \<noteq> BFT_LISTEN" "BFT_COMMIT \<noteq> BFT_PREPARE"
  by (simp_all add: phase_defs)

lemma enter_prepare_inv:
  assumes "bft_inv E p" and "pt_status p = Running" and "block_ok E p"
  shows "bft_inv E (enter_prepare E p)"
  using assms by (simp add: bft_inv_def enter_prepare_def phase_inv_def block_ok_def)

lemma push_ready_core: "push_ready E order s now p = Inr q \<Longrightarrow> same_core p q"
  by (auto simp: push_ready_def andThen_Inr_iff bft_simps same_core_def)

section \<open>Every event keeps the invariant\<close>

lemma Start_inv: "bft_Start E h rnd isP committee nonce order s now = Inr p \<Longrightarrow> bft_inv E p"
proof -
  assume a: "bft_Start E h rnd isP committee nonce order s now = Inr p"
  let ?p = "\<lparr>pt_phase = (if isP then BFT_PROPOSE else BFT_LISTEN), pt_pendingBlock = None, pt_BestStateHash = h,
       pt_IsProposer = isP, pt_Committee = committee, pt_ClosestPoolState = fmempty, pt_Round = rnd,
       pt_ms = Prepare (be_curve E) nonce (multiSig_Init (be_UserKeySet E) committee), pt_cTimeout = False,
       pt_proposeCh = Creating, pt_waiting = False, pt_readyMsgs = fmempty, pt_Ri = fmempty, pt_Sigs = fmempty,
       pt_earlyMsgCh = [], pt_prepareMsgs = [], pt_commitMsgs = [], pt_sent = [], pt_status = Running\<rparr>"
  have "bft_inv E ?p" by (simp add: bft_inv_def phase_inv_def Prepare_def GenerateRandom_def multiSig_Init_def)
  moreover have "same_core ?p p"
    using a push_ready_core [of E order s now ?p p] by (auto simp: bft_Start_def Let_def same_core_def split: if_splits)
  ultimately show ?thesis by (rule same_core_inv)
qed

lemma propose_msg_core: "same_core p (propose_msg m p)"
  by (cases m) (simp_all add: same_core_def bft_simps Let_def)

lemma propose_timeout_inv: "bft_inv E p \<Longrightarrow> pt_status p = Running \<Longrightarrow> bft_inv E (propose_timeout E order p)"
  by (auto simp: propose_timeout_def bft_simps intro: failed_inv same_core_inv [of E p] simp: same_core_def)

lemma CreateBlockMsg_inv:
  assumes "bft_inv E p" and "pt_status p = Running" and "pt_phase p = BFT_PROPOSE" and "CreateBlockMsg E newBlock s now p = Inr q"
  shows "bft_inv E q"
  using assms by (cases newBlock) (auto simp: CreateBlockMsg_def andThen_Inr_iff bft_inv_def phase_inv_def block_ok_def)

lemma receive_proposal_inv:
  assumes "bft_inv E p" and "pt_status p = Running" and "pt_phase p = BFT_PROPOSE"
  shows "bft_inv E (receive_proposal E p)"
proof (cases "pt_proposeCh p")
  case (Sending m)
  then have "block_ok E p" using assms by (simp add: bft_inv_def phase_inv_def)
  then have "bft_inv E ((forwardMsg m p)\<lparr>pt_proposeCh := ProposeClosed\<rparr>)" "block_ok E ((forwardMsg m p)\<lparr>pt_proposeCh := ProposeClosed\<rparr>)"
    using assms by (simp_all add: bft_inv_def phase_inv_def block_ok_def bft_simps)
  then have "bft_inv E (enter_prepare E ((forwardMsg m p)\<lparr>pt_proposeCh := ProposeClosed\<rparr>))"
    using assms(2) by (intro enter_prepare_inv) (simp_all add: bft_simps)
  then show ?thesis by (simp add: receive_proposal_def Sending)
qed (use assms in \<open>simp_all add: receive_proposal_def bft_simps bft_inv_def\<close>)

lemma listen_msg_inv:
  assumes "bft_inv E p" and "pt_status p = Running" and "pt_phase p = BFT_LISTEN" and "listen_msg E order s now m p = Inr q"
  shows "bft_inv E q"
proof (cases m)
  case (BFTPropose x)
  let ?blk = "be_unmarshal E (pp_Block x)"
  let ?p = "(forwardMsg m p)\<lparr>pt_pendingBlock := Some ?blk, pt_ms := (pt_ms p)\<lparr>mss_dataToSig := be_headerHash E ?blk\<rparr>\<rparr>"
  have "bft_inv E ?p" "pt_status ?p = Running" using assms(1-3) by (simp_all add: bft_inv_def phase_inv_def bft_simps)
  moreover have "block_ok E ?p" if "be_preSign E ?blk" using that by (simp add: block_ok_def bft_simps)
  ultimately show ?thesis
    using assms(4) enter_prepare_inv [of E ?p] same_core_inv [OF assms(1), of q]
    by (auto simp: BFTPropose Let_def bft_simps same_core_def split: if_splits)
next
  case (BFTReq x)
  then have "q = p \<or> push_ready E order s now p = Inr q" using assms(4) by (auto split: if_splits)
  then show ?thesis using same_core_inv [OF assms(1) push_ready_core] assms(1) by blast
qed (use assms same_core_inv [OF assms(1), of q] in \<open>auto simp: same_core_def\<close>)

lemma prepare_msg_inv:
  assumes "bft_inv E p" and "pt_status p = Running" and "pt_phase p = BFT_PREPARE"
  shows "bft_inv E (prepare_msg m p)"
proof -
  have "pr_Pubkey x \<in> set (pt_Committee p)" if "IndexOfStr (pr_Pubkey x) (pt_Committee p) \<ge> 0" for x
    using that IndexOfStr_gt_iff [of "pr_Pubkey x" "pt_Committee p"] by linarith
  then show ?thesis
    using assms by (cases m) (auto simp: bft_inv_def phase_inv_def block_ok_def bft_simps Let_def)
qed

lemma prepare_timeout_inv:
  assumes "bft_inv E p" and "pt_status p = Running" and "pt_phase p = BFT_PREPARE" and "prepare_timeout E order p = Inr q"
  shows "bft_inv E q"
proof (cases "map_len (pt_Ri p) < length (pt_Committee p) div 2")
  case True
  then show ?thesis using assms by (auto simp: prepare_timeout_def bft_simps bft_inv_def)
next
  case False
  then obtain ms e where s: "SignData (be_sum256 E) (be_curve E) order (pt_Ri p) (pt_ms p) = Inr (ms, e)"
    and q: "q = (case e of Some e \<Rightarrow> stop_with (SignFailed e) (p\<lparr>pt_ms := ms\<rparr>) | None \<Rightarrow> enter_commit E (p\<lparr>pt_ms := ms\<rparr>))"
    using assms(4) by (auto simp: prepare_timeout_def andThen_Inr_iff split: option.splits)
  show ?thesis
    using SignData_frame [OF s] assms(1-3) q
    by (cases e) (auto simp: bft_inv_def phase_inv_def block_ok_def bft_simps enter_commit_def sig_checked_def split: option.splits)
qed

lemma commit_msg_inv:
  assumes "bft_inv E p" and "pt_status p = Running" and "pt_phase p = BFT_COMMIT" and "commit_msg E m p = Inr q"
  shows "bft_inv E q"
proof (cases m)
  case (BFTCommit x)
  let ?sigs = "map_get fmempty (pt_Sigs p) (cm_R x)"
  let ?sigs' = "fmupd (cm_Pubkey x) \<lparr>cs_ValidatorsIdxR = cm_ValidatorsIdx x, cs_Sig = cm_CommitSig x\<rparr> ?sigs"
  let ?p = "p\<lparr>pt_Sigs := fmupd (cm_R x) ?sigs' (pt_Sigs p)\<rparr>"
  have old: "sig_checked E (pt_ms p) R sigs" if "fmlookup (pt_Sigs p) R = Some sigs" for R sigs
    using assms(1-3) that by (simp add: bft_inv_def phase_inv_def)
  then have "sig_checked E (pt_ms p) (cm_R x) ?sigs" by (auto simp: map_get_def sig_checked_def split: option.splits)
  then have new: "sig_checked E (pt_ms p) (cm_R x) ?sigs'" if "verify_commit E x p = Inr None"
    using that by (simp add: sig_checked_def verify_commit_def)
  have "bft_inv E ?p" if "verify_commit E x p = Inr None"
    using assms(1-3) old new [OF that] by (auto simp: bft_inv_def phase_inv_def block_ok_def)
  moreover have "same_core p q \<or> verify_commit E x p = Inr None \<and> same_core ?p q"
    using assms(4) by (auto simp: BFTCommit andThen_Inr_iff Let_def bft_simps same_core_def split: if_splits)
  ultimately show ?thesis using same_core_inv assms(1) by blast
qed (use assms in simp_all)

lemma commit_timeout_inv:
  assumes "bft_inv E p" and "pt_status p = Running" and "pt_phase p = BFT_COMMIT" and "commit_timeout E order sigOrder p = Inr q"
  shows "bft_inv E q"
proof (cases "length (choose_R p order) = 1")
  case True
  then show ?thesis using assms by (auto simp: commit_timeout_def Let_def bft_simps bft_inv_def)
next
  case False
  let ?R = "choose_R p order" and ?sigs = "map_get fmempty (pt_Sigs p) (choose_R p order)"
  obtain ms agg e where c: "CombineSigs (be_sum256 E) (be_curve E) sigOrder ?R ?sigs (pt_ms p) = Inr (ms, agg, e)"
    using assms(4) False by (auto simp: commit_timeout_def Let_def andThen_Inr_iff)
  note frame = CombineSigs_frame [OF c]
  show ?thesis
  proof (cases e)
    case (Some err)
    then have "q = stop_with (CombineFailed err) (p\<lparr>pt_ms := ms\<rparr>)"
      using assms(4) c False by (simp add: commit_timeout_def Let_def andThen_def)
    then show ?thesis using assms(1) frame by (simp add: bft_simps bft_inv_def)
  next
    case None
    then obtain blk where blk: "pt_pendingBlock p = Some blk" and q: "q = p\<lparr>pt_ms := ms, pt_status := Returned
        \<lparr>sgb_block = blk, sgb_R = mss_R ms, sgb_AggregatedSig = agg, sgb_ValidatorsIdx = [mss_ValidatorsIdxR ms, mss_ValidatorsIdxAggSig ms]\<rparr>\<rparr>"
      using assms(4) c False by (cases "pt_pendingBlock p") (simp_all add: commit_timeout_def Let_def andThen_def)
    have ok: "block_ok E p" "mss_ValidatorsIdxAggSig (pt_ms p) = []" "mss_SigningCommittee (pt_ms p) = pt_Committee p"
      "sig_checked E (pt_ms p) ?R ?sigs"
      using assms(1-3) by (auto simp: bft_inv_def phase_inv_def map_get_def sig_checked_def split: option.splits)
    have "sig_checked E ms ?R ?sigs"
      using ok(4) VerifyCommitSig_cong [of "pt_ms p" ms "be_sum256 E" "be_curve E"] frame by (simp add: sig_checked_def)
    moreover have "quorum q (map_len ?sigs)" using choose_R_quorum [OF False] by (simp add: q quorum_def)
    moreover have "pt_ms q = ms" "pt_Committee q = pt_Committee p" "pt_IsProposer q = pt_IsProposer p" by (simp_all add: q)
    ultimately have "certified E q \<lparr>sgb_block = blk, sgb_R = mss_R ms, sgb_AggregatedSig = agg,
        sgb_ValidatorsIdx = [mss_ValidatorsIdxR ms, mss_ValidatorsIdxAggSig ms]\<rparr>"
      using c ok(1-3) frame blk unfolding certified_def None block_ok_def by auto
    then show ?thesis using frame ok(3) by (simp add: q bft_inv_def)
  qed
qed

lemma early_msg_core: "early_msg E m p = Inr q \<Longrightarrow> same_core p q"
proof (cases m)
  case (BFTCommit x)
  assume "early_msg E m p = Inr q"
  then have "q = p \<or> q = p\<lparr>pt_commitMsgs := pt_commitMsgs p @ [BFTCommit x]\<rparr>"
    by (cases "verify_commit E x p") (simp_all add: BFTCommit andThen_def split: if_splits)
  then show ?thesis by (elim disjE) (simp_all add: same_core_def)
qed (auto simp: same_core_def split: if_splits)

lemma bft_phase_cases:
  assumes "bft_inv E p" and "pt_status p = Running"
  obtains (propose) "pt_phase p = BFT_PROPOSE" | (listen) "pt_phase p = BFT_LISTEN"
    | (prepare) "pt_phase p = BFT_PREPARE" | (commit) "pt_phase p = BFT_COMMIT"
  using assms by (auto simp: bft_inv_def phase_inv_def split: if_splits)

lemma take_timeout_inv:
  assumes "bft_inv E p" and "pt_status p = Running" and "take_timeout E order sigOrder p = Inr q"
  shows "bft_inv E q"
  using assms(1,2)
proof (cases rule: bft_phase_cases)
  case propose
  then have "q = p \<or> q = propose_timeout E order p" using assms(3) by (simp add: take_timeout_def split: if_splits)
  then show ?thesis using assms(1) propose_timeout_inv [OF assms(1,2)] by blast
next
  case listen
  then have "q = stop_with ListenTimeout p" using assms(3) by (simp add: take_timeout_def)
  then show ?thesis using assms(1) by (simp add: bft_inv_def bft_simps)
next
  case prepare
  then show ?thesis using prepare_timeout_inv [OF assms(1,2)] assms(3) by (simp add: take_timeout_def)
next
  case commit
  then show ?thesis using commit_timeout_inv [OF assms(1,2)] assms(3) by (simp add: take_timeout_def)
qed

lemma deliver_inv:
  assumes "bft_inv E p" and "pt_status p = Running" and "deliver E m order s now p = Inr q"
  shows "bft_inv E q"
  using assms(1,2)
proof (cases rule: bft_phase_cases)
  case propose
  then have "q = p \<or> q = propose_msg m p" using assms(3) by (simp add: deliver_def split: if_splits)
  then show ?thesis using assms(1) same_core_inv [OF assms(1) propose_msg_core] by blast
next
  case listen
  then show ?thesis using listen_msg_inv [OF assms(1,2)] assms(3) by (simp add: deliver_def)
next
  case prepare
  then show ?thesis using prepare_msg_inv [OF assms(1,2)] assms(3) by (auto simp: deliver_def)
next
  case commit
  then show ?thesis using commit_msg_inv [OF assms(1,2)] assms(3) by (simp add: deliver_def)
qed

lemma handle_inv:
  assumes "bft_inv E p" and "pt_status p = Running" and "handle E ev p = Inr q"
  shows "bft_inv E q"
proof (cases ev)
  case (TakeTimeout o1 o2)
  then show ?thesis using take_timeout_inv [OF assms(1,2)] assms by (simp split: if_splits)
next
  case (Created nb s now)
  then show ?thesis using CreateBlockMsg_inv [OF assms(1,2)] assms by (simp split: if_splits)
next
  case ReceiveProposal
  then show ?thesis using receive_proposal_inv [OF assms(1,2)] assms by (auto split: if_splits)
next
  case (Early n)
  let ?p = "p\<lparr>pt_earlyMsgCh := take n (pt_earlyMsgCh p) @ drop (Suc n) (pt_earlyMsgCh p)\<rparr>"
  have "bft_inv E ?p" by (rule same_core_inv [OF assms(1)]) (simp add: same_core_def)
  moreover have "q = p \<or> early_msg E (pt_earlyMsgCh p ! n) ?p = Inr q" using assms(3) Early by (simp split: if_splits)
  ultimately show ?thesis using same_core_inv [OF _ early_msg_core] assms(1) by blast
next
  case FlushPrepare
  have "bft_inv E (p\<lparr>pt_prepareMsgs := ms\<rparr>)" for ms by (rule same_core_inv [OF assms(1)]) (simp add: same_core_def)
  then show ?thesis using prepare_msg_inv [of E "p\<lparr>pt_prepareMsgs := ms\<rparr>" for ms] assms FlushPrepare by (auto split: if_splits list.splits)
next
  case FlushCommit
  have "bft_inv E (p\<lparr>pt_commitMsgs := ms\<rparr>)" for ms by (rule same_core_inv [OF assms(1)]) (simp add: same_core_def)
  then show ?thesis using commit_msg_inv [of E "p\<lparr>pt_commitMsgs := ms\<rparr>" for ms] assms FlushCommit by (auto split: if_splits list.splits)
next
  case (Deliver m order s now)
  then show ?thesis using deliver_inv [OF assms(1,2)] assms(3) by simp
qed (use assms in \<open>auto intro!: same_core_inv [OF assms(1)] simp: same_core_def bft_simps andThen_Inr_iff split: if_splits\<close>)

lemma exec_inv: "bft_inv E p \<Longrightarrow> bft_inv E (exec E ev p)"
  using handle_inv [of E p ev] by (auto simp: exec_def bft_inv_def [of E "p\<lparr>pt_status := s\<rparr>" for s] bft_inv_def [of E p] split: sum.splits)

lemma bft_reachable_inv: "bft_reachable E p \<Longrightarrow> bft_inv E p"
  by (induction rule: bft_reachable.induct) (auto intro: Start_inv exec_inv)

section \<open>The choice of R\<close>

text \<open>If one \<open>R\<close> has a quorum and more signatures than every other, it is chosen, in whatever order they are visited.\<close>

text \<open>
  What acceptance by \<open>VerifyCommitSig\<close> is worth: either the version byte of \<open>R\<close> is not zero and nothing else
  was looked at, or \<open>VerifyMultiSig\<close> accepted the signature under the sender's key, for the signed hash.
\<close>

definition commit_sig_holds ::
  "(bytes \<Rightarrow> bytes) \<Rightarrow> curve \<Rightarrow> multiSigScheme \<Rightarrow> string \<Rightarrow> string \<Rightarrow> string \<Rightarrow> int list \<Rightarrow> bool" where
  "commit_sig_holds sum256 cv ms pk sig R idx \<longleftrightarrow>
     (\<exists>Rb RCombined keys pkb sb valSig. Base58Check_Decode sum256 R = Inr (Rb, 0) \<and> Decompress cv Rb = Inr RCombined
       \<and> GetPubKeysFromIdx sum256 (mss_SigningCommittee ms) idx = Inr keys
       \<and> Base58Check_Decode sum256 pk = Inr (pkb, 0) \<and> Base58Check_Decode sum256 sig = Inr (sb, 0)
       \<and> SchnMultiSig_SetBytes cv sb = Inr (valSig, True)
       \<and> VerifyMultiSig sum256 cv valSig (Hash_GetBytes (mss_dataToSig ms)) keys [pkb] RCombined = Inr True)"

lemma VerifyCommitSig_sound:
  assumes ok: "VerifyCommitSig sum256 cv ms pk sig R idx = Inr None"
  shows "(\<exists>Rb v. Base58Check_Decode sum256 R = Inr (Rb, v) \<and> v \<noteq> 0) \<or> commit_sig_holds sum256 cv ms pk sig R idx"
proof (cases "\<exists>Rb v. Base58Check_Decode sum256 R = Inr (Rb, v) \<and> v \<noteq> 0")
  case v0: False
  obtain Rb where Rb: "Base58Check_Decode sum256 R = Inr (Rb, 0)"
    using ok v0 by (cases "Base58Check_Decode sum256 R") (auto simp: VerifyCommitSig_def)
  obtain Rc where Rc: "Decompress cv Rb = Inr Rc"
    using ok Rb by (cases "Decompress cv Rb") (auto simp: VerifyCommitSig_def split: read_failure.split_asm)
  obtain keys where keys: "GetPubKeysFromIdx sum256 (mss_SigningCommittee ms) idx = Inr keys"
    using ok Rb Rc by (auto simp: VerifyCommitSig_def andThen_Inr_iff)
  obtain pkb where pkb: "Base58Check_Decode sum256 pk = Inr (pkb, 0)"
    using ok Rb Rc keys by (auto simp: VerifyCommitSig_def andThen_Inr_iff split: sum.split_asm if_split_asm)
  obtain sb where sb: "Base58Check_Decode sum256 sig = Inr (sb, 0)"
    using ok Rb Rc keys pkb by (auto simp: VerifyCommitSig_def andThen_Inr_iff split: sum.split_asm if_split_asm)
  obtain valSig where "SchnMultiSig_SetBytes cv sb = Inr (valSig, True)"
    and "VerifyMultiSig sum256 cv valSig (Hash_GetBytes (mss_dataToSig ms)) keys [pkb] Rc = Inr True"
    using ok Rb Rc keys pkb sb by (auto simp: VerifyCommitSig_def andThen_Inr_iff split: if_split_asm)
  then show ?thesis using Rb Rc keys pkb sb unfolding commit_sig_holds_def by blast
qed blast

lemma choose_R_max:
  assumes "R \<in> set order" and "length R \<noteq> 1" and "quorum p (map_len (map_get fmempty (pt_Sigs p) R))"
    and "\<forall>R'. R' \<noteq> R \<longrightarrow> map_len (map_get fmempty (pt_Sigs p) R') < map_len (map_get fmempty (pt_Sigs p) R)"
  shows "choose_R p order = R"
proof -
  let ?f = "\<lambda>szR best. let k = map_len (map_get fmempty (pt_Sigs p) szR) in
       if quorum p k then if length best = 1 then szR else if k > map_len (map_get fmempty (pt_Sigs p) best) then szR else best
       else best"
  have take: "?f R best = R" for best using assms(3,4) by (cases "best = R") (auto simp: Let_def)
  have "?f x R = R" for x using assms(2,4) by (cases "x = R") (auto simp: Let_def not_less)
  then have keep: "fold ?f xs R = R" for xs by (induction xs) auto
  have "R \<in> set xs \<Longrightarrow> fold ?f xs best = R" for xs best
    by (induction xs arbitrary: best) (auto simp only: set_simps insert_iff empty_iff fold_simps take keep)
  then show ?thesis using assms(1) unfolding choose_R_def by blast
qed

subsection \<open>Texts of one character\<close>

lemma length_b58_text_zero: "bs \<noteq> [] \<Longrightarrow> 1 < length (b58_text (0 # bs))"
proof -
  assume "bs \<noteq> []"
  then obtain b cs where bs: "bs = b # cs" by (cases bs) auto
  have len: "length (b58_text (0 # bs)) = leading_zeros (0 # bs) + length (digits_of 58 (be_val (0 # bs)))"
    by (simp add: b58_text_def Base58_Encode_def FastBase58Encoding_eq)
  show ?thesis
  proof (cases "b = 0")
    case True
    then show ?thesis unfolding len by (simp add: leading_zeros_def bs)
  next
    case False
    then have "be_val (0 # bs) \<noteq> 0" by (simp add: bs be_val_Cons unat_eq_0)
    then have "digits_of 58 (be_val (0 # bs)) \<noteq> []" by (simp add: digits_of.simps [of 58 "be_val (0 # bs)"])
    then show ?thesis unfolding len by (simp add: leading_zeros_def)
  qed
qed

lemma length_b58check_text: "input \<noteq> [] \<Longrightarrow> length (b58check_text sum256 input 0) \<noteq> 1"
  using length_b58_text_zero [of "input @ ChecksumFirst4Bytes sum256 (0 # input)"] by (simp add: b58check_text_def)

lemma length_b58check_text_version:
  assumes "digest32 sum256" and "v \<noteq> 0"
  shows "length (b58check_text sum256 input v) \<noteq> 1"
proof -
  let ?bin = "v # input @ ChecksumFirst4Bytes sum256 (v # input)"
  have "length (ChecksumFirst4Bytes sum256 (v # input)) = 4"
    using assms(1) by (simp add: ChecksumFirst4Bytes_def HashB_def digest32_def HashSize_def)
  then have "(256 :: nat) ^ 4 \<le> 256 ^ length (tl ?bin)" by (intro power_increasing) simp_all
  moreover have "1 \<le> unat v" using assms(2) by (simp add: Suc_le_eq unat_gt_0)
  then have "256 ^ length (tl ?bin) \<le> unat v * 256 ^ length (tl ?bin)" by simp
  then have "256 ^ length (tl ?bin) \<le> be_val ?bin" by (simp only: be_val_Cons list.sel)
  ultimately have big: "58 \<le> be_val ?bin" by simp
  then have "digits_of 58 (be_val ?bin div 58) \<noteq> []" by (simp add: digits_of.simps [of 58 "be_val ?bin div 58"] div_eq_0_iff)
  then have "length (digits_of 58 (be_val ?bin)) > 1" using big by (simp add: digits_of.simps [of 58 "be_val ?bin"])
  then show ?thesis by (simp add: b58check_text_def b58_text_def Base58_Encode_def FastBase58Encoding_eq)
qed

lemma length_round_R:
  assumes "honest_committee sum256 cv ss" and "on_curve cv (sum_points cv (map (\<lambda>i. nonce_point cv (ss ! i)) is) Zero)"
  shows "length (round_R sum256 cv ss is) \<noteq> 1"
  unfolding round_R_def by (rule length_b58check_text) (use length_Compress [OF honestD(2) [OF assms(1)] assms(2)] in auto)

subsection \<open>Commit messages of strangers\<close>

definition stranger_commit :: "string \<Rightarrow> string \<Rightarrow> int list \<Rightarrow> string \<Rightarrow> 'blk bft_event" where
  "stranger_commit R t idx pk = Deliver (BFTCommit \<lparr>cm_CommitSig = t, cm_R = R, cm_ValidatorsIdx = idx, cm_Pubkey = pk,
     cm_ContentSig = '''', cm_Timestamp = 0\<rparr>) [] 0 0"

text \<open>Another version byte in front of \<open>R\<close> makes \<open>VerifyCommitSig\<close> return nil for any key, signature and index list.\<close>

lemma VerifyCommitSig_bypass:
  "Base58Check_Decode sum256 R = Inr (rb, v) \<Longrightarrow> v \<noteq> 0 \<Longrightarrow> VerifyCommitSig sum256 cv ms pk t R idx = Inr None"
  by (simp add: VerifyCommitSig_def)

definition counted :: "'blk BFTProtocol \<Rightarrow> string \<Rightarrow> string \<Rightarrow> int list \<Rightarrow> string list \<Rightarrow> 'blk BFTProtocol \<Rightarrow> bool" where
  "counted p R t idx pks q \<longleftrightarrow> pt_status q = Running \<and> pt_phase q = BFT_COMMIT \<and> pt_ms q = pt_ms p
     \<and> pt_pendingBlock q = pt_pendingBlock p \<and> pt_Committee q = pt_Committee p
     \<and> (\<forall>pk. fmlookup (map_get fmempty (pt_Sigs q) R) pk = (if pk \<in> set pks then Some \<lparr>cs_ValidatorsIdxR = idx, cs_Sig = t\<rparr> else None))
     \<and> map_len (map_get fmempty (pt_Sigs q) R) = length pks
     \<and> (\<forall>R'. R' \<noteq> R \<longrightarrow> fmlookup (pt_Sigs q) R' = fmlookup (pt_Sigs p) R')
     \<and> (quorum p (length pks) \<longrightarrow> pt_cTimeout q)"

lemma strangers_counted:
  assumes "pt_status p = Running" and "pt_phase p = BFT_COMMIT" and "fmlookup (pt_Sigs p) R = None"
    and "Base58Check_Decode (be_sum256 E) R = Inr (rb, v)" and "v \<noteq> 0"
  shows "distinct pks \<Longrightarrow> counted p R t idx pks (fold (exec E) (map (stranger_commit R t idx) pks) p)"
proof (induction pks rule: rev_induct)
  case Nil
  then show ?case using assms(1-3) by (simp add: counted_def map_get_def quorum_def)
next
  case (snoc pk pks)
  let ?q = "fold (exec E) (map (stranger_commit R t idx) pks) p"
  have q: "counted p R t idx pks ?q" and fresh: "pk \<notin> set pks" using snoc by simp_all
  let ?sigs = "fmupd pk \<lparr>cs_ValidatorsIdxR = idx, cs_Sig = t\<rparr> (map_get fmempty (pt_Sigs ?q) R)"
  have len: "map_len ?sigs = Suc (length pks)" using q fresh by (simp add: counted_def map_len_fmupd)
  define q' where "q' = exec E (stranger_commit R t idx pk) ?q"
  have look: "fmlookup (map_get fmempty (pt_Sigs ?q) R) pk = None" using q fresh by (simp add: counted_def)
  have run: "pt_status ?q = Running" "pt_phase ?q = BFT_COMMIT" and com: "pt_Committee ?q = pt_Committee p" using q by (simp_all add: counted_def)
  have "q' = (let p' = ?q\<lparr>pt_Sigs := fmupd R ?sigs (pt_Sigs ?q), pt_sent := pt_sent ?q @ [m]\<rparr>
      in if quorum p (Suc (length pks)) then p'\<lparr>pt_cTimeout := True\<rparr> else p')"
    if "stranger_commit R t idx pk = Deliver m [] 0 0" for m
    using run look len com VerifyCommitSig_bypass [OF assms(4,5), of "be_curve E" "pt_ms ?q"] that
    unfolding q'_def exec_def stranger_commit_def
    by (auto simp: deliver_def verify_commit_def andThen_def Let_def bft_simps quorum_def)
  then have "pt_status q' = Running" "pt_phase q' = BFT_COMMIT" "pt_ms q' = pt_ms ?q" "pt_pendingBlock q' = pt_pendingBlock ?q"
    "pt_Committee q' = pt_Committee ?q" "pt_Sigs q' = fmupd R ?sigs (pt_Sigs ?q)" "quorum p (Suc (length pks)) \<longrightarrow> pt_cTimeout q'"
    using run by (simp_all add: stranger_commit_def Let_def)
  then have "counted p R t idx (pks @ [pk]) q'"
    using q len by (auto simp: counted_def map_get_def)
  then show ?case by (simp add: q'_def)
qed

end
