(* ===== verification/BFT_Properties.thy ===== *)
theory BFT_Properties
  imports BFT_Safety
begin

text \<open>
  The properties of a consensus round, over \<open>BFT_Protocol\<close>, \<open>BFT_Round\<close> and the invariant of \<open>BFT_Safety\<close>, with an example: the
  only member of a committee on the small curve listens, receives a proposal and signs it.
\<close>

section \<open>An example\<close>

definition ex_member :: "bytes \<times> int" where "ex_member = ([1], 1)"

definition ex_member_text :: string where "ex_member_text = member_text ex_digest ex_curve ex_member"

definition ex_member_keyset :: KeySet where
  "ex_member_keyset = \<lparr>ks_PrivateKey = fst ex_member, ks_PaymentAddress = \<lparr>pa_Pk = signer_key ex_curve ex_member, pa_Tk = []\<rparr>,
     ks_ReadonlyKey = \<lparr>vk_Pk = [], vk_Rk = []\<rparr>\<rparr>"

text \<open>Blocks are numbers; block 7 is fit to be signed.\<close>

definition ex_bft_env :: "nat bft_env" where
  "ex_bft_env = \<lparr>be_sum256 = ex_digest, be_curve = ex_curve, be_gens = ex_gens, be_UserKeySet = ex_member_keyset, be_Layer = ''beacon'',
     be_ShardID = 0, be_marshal = (\<lambda>n. [of_nat n]), be_unmarshal = (\<lambda>bs. be_val bs), be_headerHash = (\<lambda>n. zero_hash), be_preSign = (\<lambda>n. n = 7),
     be_role = (\<lambda>_ _. PROPOSER_ROLE), be_poolState = fmempty\<rparr>"

definition ex_propose :: "nat bft_event" where
  "ex_propose = Deliver (BFTPropose \<lparr>pp_Layer = ''beacon'', pp_ShardID = 0, pp_Block = [7], pp_ContentSig = '''', pp_Pubkey = '''', pp_Timestamp = 0\<rparr>) [] 0 0"

lemma ex_member_honest: "honest_committee ex_digest ex_curve [ex_member]"
proof -
  have "list_all (\<lambda>s. 0 \<le> snd s \<and> signer_point ex_curve s \<in> set ex_points \<and> nonce_point ex_curve s \<in> set ex_points) [ex_member]"
    by code_simp
  then have "list_all (signer_ok ex_curve) [ex_member]" unfolding list_all_iff signer_ok_def ex_on_curve .
  then show ?thesis using ex_curve_group ex_good_field ex_order ex_base_pt ex_digest32 by (simp add: honest_committee_def)
qed

lemma ex_member_sum: "on_curve ex_curve (sum_points ex_curve (map (\<lambda>i. nonce_point ex_curve ([ex_member] ! i)) [0]) Zero)"
proof -
  have "sum_points ex_curve (map (\<lambda>i. nonce_point ex_curve ([ex_member] ! i)) [0]) Zero \<in> set ex_points" by code_simp
  then show ?thesis by (simp add: ex_on_curve)
qed

lemma ex_user_pk: "user_pk ex_bft_env = ex_member_text"
  by (simp add: user_pk_def ex_bft_env_def GetPublicKeyB58_def Base58Check_Encode_eq ex_member_keyset_def ex_member_text_def member_text_def)

lemma SignMsg_returns: "\<exists>m' b. SignMsg sum256 cv G order ks s m = Inr (m', b)"
  by (cases "KeySet_Sign sum256 cv G (ks_PrivateKey ks) s (msg_data order m)")
    (auto simp: SignMsg_def SignDataB58_def Base58Check_Encode_eq andThen_def)

lemma ex_start:
  obtains p where "bft_Start ex_bft_env zero_hash 1 False [ex_member_text] 1 [] 0 0 = Inr p" and "pt_phase p = BFT_LISTEN"
    and "pt_status p = Running" and "pt_IsProposer p = False" and "pt_Committee p = [ex_member_text]"
    and "pt_ms p = member_scheme ex_digest ex_curve [ex_member] zero_hash 0"
proof -
  obtain m b where m: "MakeMsgBFTReady ex_digest ex_curve ex_gens [] ex_member_keyset 0 0 zero_hash 1 fmempty = Inr (m, b)"
    using SignMsg_returns by (simp add: MakeMsgBFTReady_def GetPublicKeyB58_def Base58Check_Encode_eq andThen_def) metis
  have "multiSig_Init ex_member_keyset [ex_member_text] = \<lparr>mss_dataToSig = zero_hash, mss_Ri = [], mss_r = [], mss_CommitSig = '''', mss_R = '''', mss_ValidatorsIdxR = [],
       mss_ValidatorsIdxAggSig = [], mss_SigningCommittee = map (member_text ex_digest ex_curve) [ex_member], mss_Keyset = signer_keyset ex_curve ex_member\<rparr>"
    by (simp add: multiSig_Init_def ex_member_keyset_def ex_member_text_def signer_keyset_def)
  then have ms: "Prepare ex_curve 1 (multiSig_Init ex_member_keyset [ex_member_text]) = member_scheme ex_digest ex_curve [ex_member] zero_hash 0"
    by (simp add: member_scheme_def) (simp add: ex_member_def)
  show thesis
    by (rule that, simp add: bft_Start_def push_ready_def ex_bft_env_def m andThen_def bft_simps ms) simp_all
qed

text \<open>The state of the prepare phase, the commit phase, and the returned block.\<close>

lemma ex_prepare:
  obtains p where "bft_reachable ex_bft_env p" and "pt_phase p = BFT_PREPARE" and "pt_status p = Running" and "pt_IsProposer p = False"
    and "pt_Committee p = [ex_member_text]" and "pt_ms p = member_scheme ex_digest ex_curve [ex_member] zero_hash 0"
    and "pt_pendingBlock p = Some 7" and "pt_Ri p = collected ex_digest ex_curve [ex_member] [0]"
proof -
  obtain p where p: "bft_Start ex_bft_env zero_hash 1 False [ex_member_text] 1 [] 0 0 = Inr p" "pt_phase p = BFT_LISTEN"
    "pt_status p = Running" "pt_IsProposer p = False" "pt_Committee p = [ex_member_text]"
    "pt_ms p = member_scheme ex_digest ex_curve [ex_member] zero_hash 0" by (rule ex_start)
  have blk: "be_val [7] = 7" by (simp add: be_val_Cons)
  have Ri: "mss_Ri (member_scheme ex_digest ex_curve [ex_member] zero_hash 0) = Compress ex_curve (nonce_point ex_curve ex_member)"
    by (simp add: member_scheme_def Prepare_def GenerateRandom_def nonce_point_def)
  have ms: "(member_scheme ex_digest ex_curve [ex_member] zero_hash 0)\<lparr>mss_dataToSig := zero_hash\<rparr> = member_scheme ex_digest ex_curve [ex_member] zero_hash 0"
    by (simp add: member_scheme_def Prepare_def GenerateRandom_def)
  let ?q = "exec ex_bft_env ex_propose p"
  have env: "be_preSign ex_bft_env 7" "be_unmarshal ex_bft_env [7] = 7" "be_headerHash ex_bft_env 7 = zero_hash"
    by (simp_all add: ex_bft_env_def blk)
  have step: "pt_phase ?q = BFT_PREPARE" "pt_status ?q = Running" "pt_IsProposer ?q = False" "pt_Committee ?q = [ex_member_text]"
    "pt_ms ?q = member_scheme ex_digest ex_curve [ex_member] zero_hash 0" "pt_pendingBlock ?q = Some 7"
    "pt_Ri ?q = fmupd ex_member_text (Compress ex_curve (nonce_point ex_curve ex_member)) fmempty"
    using p(2-6) by (simp_all add: exec_def ex_propose_def deliver_def Let_def env bft_simps enter_prepare_def ex_user_pk Ri ms)
  moreover have "collected ex_digest ex_curve [ex_member] [0] = fmupd ex_member_text (Compress ex_curve (nonce_point ex_curve ex_member)) fmempty"
    by (simp add: collected_def ex_member_text_def)
  moreover have "bft_reachable ex_bft_env ?q" using p(1) by (intro bft_reachable.intros)
  ultimately show thesis using that by metis
qed

lemma ex_orders:
  "iteration_order (collected ex_digest ex_curve [ex_member] [0]) [ex_member_text]"
  "iteration_order (committed ex_digest ex_curve [ex_member] [0] [0] zero_hash) [ex_member_text]"
  using members_order [OF honestD(7) [OF ex_member_honest], of "[0]" "\<lambda>i. Compress ex_curve (nonce_point ex_curve ([ex_member] ! i))"]
    members_order [OF honestD(7) [OF ex_member_honest], of "[0]"
      "\<lambda>i. \<lparr>cs_ValidatorsIdxR = map int [0], cs_Sig = round_sig_text ex_digest ex_curve [ex_member] [0] zero_hash i\<rparr>"]
  by (simp_all add: collected_def committed_def ex_member_text_def indices_def)

abbreviation (input) ex_sign_scheme :: multiSigScheme where
  "ex_sign_scheme \<equiv> (member_scheme ex_digest ex_curve [ex_member] zero_hash 0)\<lparr>mss_ValidatorsIdxR := [0],
     mss_R := round_R ex_digest ex_curve [ex_member] [0], mss_CommitSig := round_sig_text ex_digest ex_curve [ex_member] [0] zero_hash 0\<rparr>"

lemma ex_commit:
  obtains p where "bft_reachable ex_bft_env p" and "pt_phase p = BFT_COMMIT" and "pt_status p = Running" and "pt_IsProposer p = False"
    and "pt_Committee p = [ex_member_text]" and "pt_ms p = ex_sign_scheme" and "pt_pendingBlock p = Some 7" and "pt_cTimeout p"
    and "pt_Sigs p = fmupd (round_R ex_digest ex_curve [ex_member] [0]) (committed ex_digest ex_curve [ex_member] [0] [0] zero_hash) fmempty"
proof -
  obtain p where p: "bft_reachable ex_bft_env p" "pt_phase p = BFT_PREPARE" "pt_status p = Running" "pt_IsProposer p = False"
    "pt_Committee p = [ex_member_text]" "pt_ms p = member_scheme ex_digest ex_curve [ex_member] zero_hash 0"
    "pt_pendingBlock p = Some 7" "pt_Ri p = collected ex_digest ex_curve [ex_member] [0]" by (rule ex_prepare)
  have sign: "SignData ex_digest ex_curve [ex_member_text] (collected ex_digest ex_curve [ex_member] [0])
      (member_scheme ex_digest ex_curve [ex_member] zero_hash 0) = Inr (ex_sign_scheme, None)"
    using SignData_honest [OF ex_member_honest, of "[0]" 0] ex_orders(1) by (simp add: indices_def)
  have com: "committed ex_digest ex_curve [ex_member] [0] [0] zero_hash
      = fmupd ex_member_text \<lparr>cs_ValidatorsIdxR = [0], cs_Sig = round_sig_text ex_digest ex_curve [ex_member] [0] zero_hash 0\<rparr> fmempty"
    by (simp add: committed_def ex_member_text_def)
  let ?p1 = "exec ex_bft_env Fire p"
  have p1: "?p1 = p\<lparr>pt_cTimeout := True\<rparr>" using p(3) by (simp add: exec_def bft_simps)
  let ?p2 = "exec ex_bft_env (TakeTimeout [ex_member_text] []) ?p1"
  let ?q = "exec ex_bft_env Fire ?p2"
  have env: "be_sum256 ex_bft_env = ex_digest" "be_curve ex_bft_env = ex_curve" by (simp_all add: ex_bft_env_def)
  have p2: "?p2 = enter_commit ex_bft_env (p\<lparr>pt_cTimeout := True, pt_ms := ex_sign_scheme\<rparr>)"
    unfolding p1 using p(2-8) sign by (simp add: exec_def take_timeout_def prepare_timeout_def env andThen_def)
  have "bft_reachable ex_bft_env ?q" using p(1) by (intro bft_reachable.step)
  moreover have "?q = ?p2\<lparr>pt_cTimeout := True\<rparr>" unfolding p2 using p(3) by (simp add: exec_def bft_simps enter_commit_def)
  ultimately show thesis using p(2-8) that [of ?q] unfolding p2 by (simp add: enter_commit_def ex_user_pk com)
qed

lemma commit_timeout_honest:
  assumes "honest_committee (be_sum256 E) (be_curve E) ss" and "indices is (length ss)" and "indices qs (length ss)" and "set qs \<subseteq> set is"
    and "length qs > 2 * length ss div 3"
    and "on_curve (be_curve E) (sum_points (be_curve E) (map (\<lambda>i. nonce_point (be_curve E) (ss ! i)) is) Zero)"
    and "on_curve (be_curve E) (sum_points (be_curve E) (map (\<lambda>i. nonce_point (be_curve E) (ss ! i)) qs) Zero)"
    and "pt_status p = Running" and "pt_phase p = BFT_COMMIT" and "pt_cTimeout p" and "pt_pendingBlock p = Some blk"
    and "pt_Committee p = map (member_text (be_sum256 E) (be_curve E)) ss"
    and "mss_SigningCommittee (pt_ms p) = pt_Committee p" and "mss_ValidatorsIdxAggSig (pt_ms p) = []"
    and "fmlookup (pt_Sigs p) (round_R (be_sum256 E) (be_curve E) ss is) = Some (committed (be_sum256 E) (be_curve E) ss is qs h)"
    and "\<forall>R. R \<noteq> round_R (be_sum256 E) (be_curve E) ss is \<longrightarrow> map_len (map_get fmempty (pt_Sigs p) R) < length qs"
    and "iteration_order (pt_Sigs p) order" and "iteration_order (committed (be_sum256 E) (be_curve E) ss is qs h) sigOrder"
  shows "\<exists>b. pt_status (exec E (TakeTimeout order sigOrder) p) = Returned b \<and> sgb_block b = blk
    \<and> sgb_ValidatorsIdx b = [map int is, map int qs] \<and> sgb_R b = round_R (be_sum256 E) (be_curve E) ss is
    \<and> ValidateAggSignature (be_sum256 E) (be_curve E) [is, qs] (pt_Committee p) (sgb_AggregatedSig b) (sgb_R b) h = Inr None"
proof -
  let ?R = "round_R (be_sum256 E) (be_curve E) ss is" and ?sigs = "committed (be_sum256 E) (be_curve E) ss is qs h"
  have get: "map_get fmempty (pt_Sigs p) ?R = ?sigs" by (simp add: map_get_def assms(15))
  have len: "map_len ?sigs = length qs" unfolding committed_def by (rule members_len [OF honestD(7) [OF assms(1)] assms(3)])
  have "?R \<in> set order" using assms(15,17) by (auto simp: iteration_order_def fmdom'I)
  then have R: "choose_R p order = ?R"
    using assms(5,16) by (intro choose_R_max length_round_R [OF assms(1,6)]) (auto simp: get len quorum_def assms(12))
  have "qs \<noteq> []" using assms(5) by auto
  from CombineSigs_honest [OF assms(1-4) this assms(6,7,18) assms(13) [unfolded assms(12)] assms(14), of ?R] length_round_R [OF assms(1,6)]
  show ?thesis
    by (auto simp: exec_def take_timeout_def commit_timeout_def assms(8-12) R get andThen_def)
qed


section \<open>Properties\<close>





text \<open>C18: What a node signs. In every reachable state of the prepare and commit phases there is a pending block, its header
  hash is what is signed, a validator has accepted it with \<open>VerifyPreSignBeaconBlock\<close> or \<open>VerifyPreSignShardBlock\<close>, and
  the nonce points collected in the prepare phase are of committee members or the node's own.
\<close>

theorem bft_signs_pending_block:
  assumes "bft_reachable E p" and "pt_status p = Running" and "pt_phase p = BFT_PREPARE \<or> pt_phase p = BFT_COMMIT"
  shows "\<exists>blk. pt_pendingBlock p = Some blk \<and> mss_dataToSig (pt_ms p) = be_headerHash E blk
    \<and> (pt_IsProposer p \<or> be_preSign E blk)
    \<and> (pt_phase p = BFT_PREPARE \<longrightarrow> fmdom' (pt_Ri p) \<subseteq> insert (user_pk E) (set (pt_Committee p)))"
  using bft_reachable_inv [OF assms(1)] assms(2,3) unfolding bft_inv_def phase_inv_def block_ok_def by auto

theorem bft_signs_pending_block_witness:
  "\<exists>p blk. bft_reachable ex_bft_env p \<and> pt_status p = Running \<and> pt_phase p = BFT_PREPARE \<and> pt_pendingBlock p = Some blk
    \<and> mss_dataToSig (pt_ms p) = be_headerHash ex_bft_env blk \<and> be_preSign ex_bft_env blk
    \<and> fmdom' (pt_Ri p) \<subseteq> insert (user_pk ex_bft_env) (set (pt_Committee p))"
proof -
  obtain p where p: "bft_reachable ex_bft_env p" "pt_phase p = BFT_PREPARE" "pt_status p = Running" "pt_IsProposer p = False"
    by (rule ex_prepare)
  then show ?thesis using bft_signs_pending_block [OF p(1,3)] by auto
qed

text \<open>C5: With the signatures of a quorum of honest members, and while their \<open>R\<close> has the most signatures, the commit phase
  returns a block whose aggregated signature verifies. Let the members \<open>is\<close> have exchanged nonce points, and let the node hold
  exactly the signatures of the members \<open>qs\<close>, more than two thirds of the committee, for their \<open>R\<close>, and for every other \<open>R\<close> strictly
  fewer signatures than that (\<open>bft_strangers_decide\<close> below shows that this is not always so: more keys, of anybody, decide for
  another \<open>R\<close>). Let the sums of the nonce points be points of the curve. When the timeout branch is taken, in whatever order
  the two maps are visited, the round returns the pending block with the
  index lists \<open>is\<close> and \<open>qs\<close>, and \<open>ValidateAggSignature\<close> accepts its signature.
\<close>

theorem bft_honest_commit:
  assumes "honest_committee (be_sum256 E) (be_curve E) ss" and "indices is (length ss)" and "indices qs (length ss)" and "set qs \<subseteq> set is"
    and "length qs > 2 * length ss div 3"
    and "on_curve (be_curve E) (sum_points (be_curve E) (map (\<lambda>i. nonce_point (be_curve E) (ss ! i)) is) Zero)"
    and "on_curve (be_curve E) (sum_points (be_curve E) (map (\<lambda>i. nonce_point (be_curve E) (ss ! i)) qs) Zero)"
    and "pt_status p = Running" and "pt_phase p = BFT_COMMIT" and "pt_cTimeout p" and "pt_pendingBlock p = Some blk"
    and "pt_Committee p = map (member_text (be_sum256 E) (be_curve E)) ss"
    and "mss_SigningCommittee (pt_ms p) = pt_Committee p" and "mss_ValidatorsIdxAggSig (pt_ms p) = []"
    and "fmlookup (pt_Sigs p) (round_R (be_sum256 E) (be_curve E) ss is) = Some (committed (be_sum256 E) (be_curve E) ss is qs h)"
    and "\<forall>R. R \<noteq> round_R (be_sum256 E) (be_curve E) ss is \<longrightarrow> map_len (map_get fmempty (pt_Sigs p) R) < length qs"
    and "iteration_order (pt_Sigs p) order" and "iteration_order (committed (be_sum256 E) (be_curve E) ss is qs h) sigOrder"
  shows "\<exists>b. pt_status (exec E (TakeTimeout order sigOrder) p) = Returned b \<and> sgb_block b = blk
    \<and> sgb_ValidatorsIdx b = [map int is, map int qs] \<and> sgb_R b = round_R (be_sum256 E) (be_curve E) ss is
    \<and> ValidateAggSignature (be_sum256 E) (be_curve E) [is, qs] (pt_Committee p) (sgb_AggregatedSig b) (sgb_R b) h = Inr None"
  by (rule commit_timeout_honest [OF assms])

theorem bft_honest_commit_witness:
  "\<exists>p b. bft_reachable ex_bft_env p
    \<and> pt_status (exec ex_bft_env (TakeTimeout [round_R ex_digest ex_curve [ex_member] [0]] [ex_member_text]) p) = Returned b
    \<and> sgb_block b = 7 \<and> ValidateAggSignature ex_digest ex_curve [[0], [0]] [ex_member_text] (sgb_AggregatedSig b) (sgb_R b) zero_hash = Inr None"
proof -
  obtain p where p: "bft_reachable ex_bft_env p" "pt_phase p = BFT_COMMIT" "pt_status p = Running" "pt_IsProposer p = False"
    "pt_Committee p = [ex_member_text]" "pt_ms p = ex_sign_scheme" "pt_pendingBlock p = Some 7" "pt_cTimeout p"
    "pt_Sigs p = fmupd (round_R ex_digest ex_curve [ex_member] [0]) (committed ex_digest ex_curve [ex_member] [0] [0] zero_hash) fmempty"
    by (rule ex_commit)
  have env: "be_sum256 ex_bft_env = ex_digest" "be_curve ex_bft_env = ex_curve" by (simp_all add: ex_bft_env_def)
  have ms: "mss_SigningCommittee (pt_ms p) = pt_Committee p" "mss_ValidatorsIdxAggSig (pt_ms p) = []"
    by (simp_all add: p(5,6) member_scheme_def Prepare_def GenerateRandom_def ex_member_text_def)
  have com: "pt_Committee p = map (member_text ex_digest ex_curve) [ex_member]" by (simp add: p(5) ex_member_text_def)
  have ord: "iteration_order (pt_Sigs p) [round_R ex_digest ex_curve [ex_member] [0]]" by (simp add: p(9) iteration_order_def)
  have ix: "indices [0] (length [ex_member])" by (simp add: indices_def)
  have "\<exists>b. pt_status (exec ex_bft_env (TakeTimeout [round_R ex_digest ex_curve [ex_member] [0]] [ex_member_text]) p) = Returned b
    \<and> sgb_block b = 7 \<and> sgb_ValidatorsIdx b = [map int [0], map int [0]] \<and> sgb_R b = round_R ex_digest ex_curve [ex_member] [0]
    \<and> ValidateAggSignature ex_digest ex_curve [[0], [0]] (pt_Committee p) (sgb_AggregatedSig b) (sgb_R b) zero_hash = Inr None"
    using bft_honest_commit [where E = ex_bft_env and p = p, unfolded env, OF ex_member_honest ix ix subset_refl _ ex_member_sum ex_member_sum
        p(3,2,8,7) com ms _ _ ord ex_orders(2)] by (simp add: p(9) map_get_def)
  then show ?thesis using p(1,5) by auto
qed

text \<open>C40: The quorum may be of strangers. Take a node in the commit phase and any number of keys, of the committee or not, above two
  thirds of the committee's size and above the number of signatures held for any other \<open>R\<close>. If each sends a commit message with
  one and the same \<open>R\<close> and signature text whose version bytes are not zero, \<open>VerifyCommitSig\<close> and \<open>CombineSigs\<close> both return a nil error without
  having checked anything, and the round returns the pending block with an empty aggregated signature.
\<close>

theorem bft_strangers_decide:
  assumes "pt_status p = Running" and "pt_phase p = BFT_COMMIT" and "pt_pendingBlock p = Some blk" and "fmlookup (pt_Sigs p) R = None"
    and "Base58Check_Decode (be_sum256 E) R = Inr (rb, v)" and "v \<noteq> 0" and "length R \<noteq> 1"
    and "Base58Check_Decode (be_sum256 E) t = Inr (tb, w)" and "w \<noteq> 0"
    and "distinct pks" and "length pks > 2 * length (pt_Committee p) div 3"
    and "\<forall>R'. R' \<noteq> R \<longrightarrow> map_len (map_get fmempty (pt_Sigs p) R') < length pks"
    and "R \<in> set order" and "pk \<in> set pks"
  shows "pt_status (exec E (TakeTimeout order (pk # rest)) (fold (exec E) (map (stranger_commit R t idx) pks) p))
    = Returned \<lparr>sgb_block = blk, sgb_R = mss_R (pt_ms p), sgb_AggregatedSig = '''',
        sgb_ValidatorsIdx = [mss_ValidatorsIdxR (pt_ms p), mss_ValidatorsIdxAggSig (pt_ms p)]\<rparr>"
proof -
  let ?q = "fold (exec E) (map (stranger_commit R t idx) pks) p"
  have q: "counted p R t idx pks ?q" by (rule strangers_counted [OF assms(1,2,4-6,10)])
  then have run: "pt_status ?q = Running" "pt_phase ?q = BFT_COMMIT" "pt_cTimeout ?q" "pt_ms ?q = pt_ms p" "pt_pendingBlock ?q = Some blk"
    and sig: "fmlookup (map_get fmempty (pt_Sigs ?q) R) pk = Some \<lparr>cs_ValidatorsIdxR = idx, cs_Sig = t\<rparr>"
    using assms(3,11,14) by (simp_all add: counted_def quorum_def)
  have "map_get fmempty (pt_Sigs ?q) R' = map_get fmempty (pt_Sigs p) R'" if "R' \<noteq> R" for R'
    using q that by (simp add: counted_def map_get_def)
  then have "choose_R ?q order = R"
    using q assms(7,11-13) by (intro choose_R_max) (auto simp: counted_def quorum_def)
  then show ?thesis
    using run sig assms(7-9) by (simp add: exec_def take_timeout_def commit_timeout_def CombineSigs_def Let_def map_get_def [of _ "map_get _ _ _"] andThen_def)
qed

theorem bft_strangers_decide_witness:
  "\<exists>p b. bft_reachable ex_bft_env p \<and> pt_Committee p = [ex_member_text] \<and> sgb_block b = 7 \<and> sgb_AggregatedSig b = ''''
    \<and> pt_status (exec ex_bft_env (TakeTimeout [b58check_text ex_digest [] 1] [''x''])
        (fold (exec ex_bft_env) (map (stranger_commit (b58check_text ex_digest [] 1) (b58check_text ex_digest [] 1) []) [''x'', ''y'']) p)) = Returned b"
proof -
  let ?R = "b58check_text ex_digest [] 1" and ?own = "round_R ex_digest ex_curve [ex_member] [0]"
  obtain p where p: "bft_reachable ex_bft_env p" "pt_phase p = BFT_COMMIT" "pt_status p = Running" "pt_IsProposer p = False"
    "pt_Committee p = [ex_member_text]" "pt_ms p = ex_sign_scheme" "pt_pendingBlock p = Some 7" "pt_cTimeout p"
    "pt_Sigs p = fmupd ?own (committed ex_digest ex_curve [ex_member] [0] [0] zero_hash) fmempty"
    by (rule ex_commit)
  have dec: "Base58Check_Decode (be_sum256 ex_bft_env) ?R = Inr ([], 1)"
    by (simp add: ex_bft_env_def Base58Check_Decode_text [OF ex_digest32])
  have "Base58Check_Decode ex_digest ?own \<noteq> Base58Check_Decode ex_digest ?R"
    by (simp add: round_R_def Base58Check_Decode_text [OF ex_digest32])
  then have ne: "?R \<noteq> ?own" by metis
  have one: "map_len (committed ex_digest ex_curve [ex_member] [0] [0] zero_hash) = 1"
    by (simp add: committed_def map_len_fmupd)
  have "\<exists>b. sgb_block b = 7 \<and> sgb_AggregatedSig b = '''' \<and> pt_status (exec ex_bft_env (TakeTimeout [?R] [''x''])
      (fold (exec ex_bft_env) (map (stranger_commit ?R ?R []) [''x'', ''y'']) p)) = Returned b"
    using bft_strangers_decide [OF p(3,2,7) _ dec one_neq_zero length_b58check_text_version [OF ex_digest32 one_neq_zero] dec one_neq_zero,
        of "[''x'', ''y'']" "[?R]" "''x''" "[]" "[]"] ne one p(5,9)
    by (auto simp: map_get_def)
  then show ?thesis using p(1,5) by blast
qed

end
