(* ===== verification/BFT_Engine.thy ===== *)
theory BFT_Engine
  imports BFT_Properties
begin

text \<open>
  The engine that runs the rounds: \<open>src/consensus/constantbft/engine.go\<close>. The state it keeps between rounds is the height it
  works on and the round number. The outcome of a round (\<open>None\<close>: \<open>BFTProtocol.Start\<close> returned an error), the heights of
  the chains and the roles of the node's key are arguments; the result has the block that is handed
  to \<open>InsertBeaconBlock\<close> or \<open>InsertShardBlock\<close>.
\<close>

definition NODEMODE_SHARD :: string where "NODEMODE_SHARD = ''shard''"
definition NODEMODE_AUTO :: string where "NODEMODE_AUTO = ''auto''"
definition NODEMODE_BEACON :: string where "NODEMODE_BEACON = ''beacon''"
definition BEACON_ROLE :: string where "BEACON_ROLE = ''beacon''"

record Engine =
  en_started :: bool
  en_currentBFTBlkHeight :: uint64
  en_currentBFTRound :: int
  en_prevRoundUserLayer :: string
  en_userLayer :: string

definition Engine_Init :: Engine where
  "Engine_Init = \<lparr>en_started = False, en_currentBFTBlkHeight = 0, en_currentBFTRound = 0, en_prevRoundUserLayer = '''', en_userLayer = ''''\<rparr>"

text \<open>\<open>Start\<close>, with the first statement of the function it schedules, and \<open>Stop\<close>: \<open>None\<close> is the error.\<close>

definition Engine_Start :: "Engine \<Rightarrow> Engine option" where
  "Engine_Start en = (if en_started en then None else Some (en\<lparr>en_started := True, en_currentBFTRound := 1\<rparr>))"

definition Engine_Stop :: "Engine \<Rightarrow> Engine option" where
  "Engine_Stop en = (if \<not> en_started en then None else Some (en\<lparr>en_started := False\<rparr>))"

definition OnBFTMsg :: "Engine \<Rightarrow> bft_message \<Rightarrow> bft_message option" where
  "OnBFTMsg en msg = (if en_started en then Some msg else None)"

text \<open>The layer a node works on, from its mode and the role of its key.\<close>

definition userLayer :: "string \<Rightarrow> string \<Rightarrow> string" where
  "userLayer nodeMode role =
     (let r1 = if nodeMode = NODEMODE_BEACON \<and> role = SHARD_ROLE then '''' else role;
          r2 = if nodeMode = NODEMODE_SHARD \<and> r1 \<noteq> SHARD_ROLE then '''' else r1
      in if r2 = VALIDATOR_ROLE \<or> r2 = PROPOSER_ROLE then BEACON_ROLE else r2)"

text \<open>\<open>bestHeight\<close> is the height of the chain of the layer; \<open>run\<close> tells what a round does as proposer or not.\<close>

definition reset_round :: "uint64 \<Rightarrow> Engine \<Rightarrow> Engine" where
  "reset_round bestHeight en =
     (if en_currentBFTBlkHeight en \<le> bestHeight
      then en\<lparr>en_currentBFTBlkHeight := bestHeight + 1, en_currentBFTRound := 1\<rparr> else en)"

definition run_round :: "uint64 \<Rightarrow> string \<Rightarrow> (bool \<Rightarrow> int \<Rightarrow> 'blk option) \<Rightarrow> Engine \<Rightarrow> Engine \<times> 'blk option" where
  "run_round bestHeight roundRole run en =
     (if roundRole = PROPOSER_ROLE \<or> roundRole = VALIDATOR_ROLE
      then let en1 = en\<lparr>en_currentBFTBlkHeight := bestHeight + 1\<rparr> in
           (case run (roundRole = PROPOSER_ROLE) (en_currentBFTRound en) of
              None \<Rightarrow> (en1\<lparr>en_currentBFTRound := en_currentBFTRound en + 1, en_prevRoundUserLayer := en_userLayer en\<rparr>, None)
            | Some blk \<Rightarrow> (en1, Some blk))
      else (en, None))"

definition execBeaconRole ::
  "uint64 \<Rightarrow> (int \<Rightarrow> string) \<Rightarrow> (bool \<Rightarrow> int \<Rightarrow> 'blk option) \<Rightarrow> Engine \<Rightarrow> Engine \<times> 'blk option" where
  "execBeaconRole beaconHeight roleOf run en =
     (let en1 = reset_round beaconHeight en in run_round beaconHeight (roleOf (en_currentBFTRound en1)) run en1)"

definition execShardRole ::
  "uint64 \<Rightarrow> (int \<Rightarrow> string) \<Rightarrow> (bool \<Rightarrow> int \<Rightarrow> 'blk option) \<Rightarrow> Engine \<Rightarrow> Engine \<times> 'blk option" where
  "execShardRole shardHeight roleOf run en =
     (let en1 = reset_round shardHeight en in run_round shardHeight (roleOf (en_currentBFTRound en1)) run en1)"

section \<open>Facts\<close>

text \<open>While the chain does not grow and rounds fail, the round number counts them.\<close>

lemma failed_round:
  assumes "h < h + 1" and "en_currentBFTBlkHeight en = h + 1"
    and "roleOf (en_currentBFTRound en) = PROPOSER_ROLE \<or> roleOf (en_currentBFTRound en) = VALIDATOR_ROLE" and "\<forall>b r. run b r = None"
  shows "en_currentBFTRound (fst (execBeaconRole h roleOf run en)) = en_currentBFTRound en + 1
    \<and> en_currentBFTBlkHeight (fst (execBeaconRole h roleOf run en)) = h + 1"
  using assms by (auto simp: execBeaconRole_def reset_round_def run_round_def Let_def)

lemma failed_rounds_count:
  assumes "h < h + 1" and "en_currentBFTBlkHeight en = h + 1"
    and "\<forall>r. roleOf r = PROPOSER_ROLE \<or> roleOf r = VALIDATOR_ROLE" and "\<forall>b r. run b r = None"
  shows "en_currentBFTRound (((\<lambda>e. fst (execBeaconRole h roleOf run e)) ^^ n) en) = en_currentBFTRound en + int n
    \<and> en_currentBFTBlkHeight (((\<lambda>e. fst (execBeaconRole h roleOf run e)) ^^ n) en) = h + 1"
proof (induction n)
  case (Suc n)
  let ?e = "((\<lambda>e. fst (execBeaconRole h roleOf run e)) ^^ n) en"
  have "en_currentBFTRound (fst (execBeaconRole h roleOf run ?e)) = en_currentBFTRound ?e + 1
      \<and> en_currentBFTBlkHeight (fst (execBeaconRole h roleOf run ?e)) = h + 1"
    using Suc assms(3) by (intro failed_round [OF assms(1) _ _ assms(4)]) auto
  then show ?case using Suc by simp
qed (simp add: assms(2))

text \<open>Among as many rounds as there are members there is one in which a given member proposes.\<close>

lemma member_proposes:
  assumes "distinct (bs_BeaconCommittee b)" and "i < length (bs_BeaconCommittee b)" and "0 \<le> bs_BeaconProposerIdx b"
    and "find_shard (bs_BeaconCommittee b ! i) (bs_ShardPendingValidator b) order1 = None"
    and "find_shard (bs_BeaconCommittee b ! i) (bs_ShardCommittee b) order2 = None"
  shows "\<exists>rnd \<in> {1..int (length (bs_BeaconCommittee b))}.
    fst (GetPubkeyRole b order1 order2 (bs_BeaconCommittee b ! i) rnd) = PROPOSER_ROLE"
proof -
  let ?c = "bs_BeaconCommittee b" and ?n = "int (length (bs_BeaconCommittee b))"
  let ?k = "(int i - bs_BeaconProposerIdx b - 1) mod ?n"
  have n: "0 < ?n" using assms(2) by linarith
  have k: "0 \<le> ?k" "?k < ?n" using n by simp_all
  have "(bs_BeaconProposerIdx b + (?k + 1)) mod ?n = (bs_BeaconProposerIdx b + 1 + (int i - bs_BeaconProposerIdx b - 1)) mod ?n"
    by (metis (no_types) add.assoc add.commute mod_add_right_eq)
  also have "\<dots> = int i" using assms(2) by simp
  finally have pos: "(bs_BeaconProposerIdx b + (?k + 1)) mod ?n = int i" .
  have smod: "(bs_BeaconProposerIdx b + (?k + 1)) smod ?n = int i"
    using pos assms(3) k(1) by (simp add: smod_int_alt_def)
  obtain j where "j < length ?c" "IndexOfStr (?c ! i) ?c = int j" "?c ! j = ?c ! i"
    using IndexOfStr_found [of "?c ! i" ?c] assms(2) by auto
  then have "IndexOfStr (?c ! i) ?c = int i" using assms(1,2) nth_eq_iff_index_eq by metis
  then have "fst (GetPubkeyRole b order1 order2 (?c ! i) (?k + 1)) = PROPOSER_ROLE"
    using assms(4,5) smod by (simp add: GetPubkeyRole_def Let_def)
  then show ?thesis using k by (intro bexI [of _ "?k + 1"]) auto
qed

lemma committee_role:
  assumes "i < length (bs_BeaconCommittee b)"
    and "find_shard (bs_BeaconCommittee b ! i) (bs_ShardPendingValidator b) order1 = None"
    and "find_shard (bs_BeaconCommittee b ! i) (bs_ShardCommittee b) order2 = None"
  shows "fst (GetPubkeyRole b order1 order2 (bs_BeaconCommittee b ! i) rnd) = PROPOSER_ROLE
    \<or> fst (GetPubkeyRole b order1 order2 (bs_BeaconCommittee b ! i) rnd) = VALIDATOR_ROLE"
  using assms IndexOfStr_gt_iff [of "bs_BeaconCommittee b ! i" "bs_BeaconCommittee b"] by (simp add: GetPubkeyRole_def Let_def)

section \<open>Properties\<close>

text \<open>C19: Failing rounds pass the turn on. Let the engine of a beacon committee member be at the first round for the next
  height, and let its rounds fail while the chain does not grow. Then after fewer failed rounds than the committee has members, the
  engine's current round is one in which this member is the proposer.
\<close>

theorem bft_turn_comes:
  assumes "distinct (bs_BeaconCommittee b)" and "i < length (bs_BeaconCommittee b)" and "0 \<le> bs_BeaconProposerIdx b"
    and "find_shard (bs_BeaconCommittee b ! i) (bs_ShardPendingValidator b) order1 = None"
    and "find_shard (bs_BeaconCommittee b ! i) (bs_ShardCommittee b) order2 = None"
    and "h < h + 1" and "en_currentBFTBlkHeight en = h + 1" and "en_currentBFTRound en = 1" and "\<forall>p r. run p r = None"
  shows "let roleOf = \<lambda>r. fst (GetPubkeyRole b order1 order2 (bs_BeaconCommittee b ! i) r) in
    \<exists>n < length (bs_BeaconCommittee b).
      roleOf (en_currentBFTRound (((\<lambda>e. fst (execBeaconRole h roleOf run e)) ^^ n) en)) = PROPOSER_ROLE"
proof -
  let ?role = "\<lambda>r. fst (GetPubkeyRole b order1 order2 (bs_BeaconCommittee b ! i) r)"
  obtain rnd where rnd: "1 \<le> rnd" "rnd \<le> int (length (bs_BeaconCommittee b))" "?role rnd = PROPOSER_ROLE"
    using member_proposes [OF assms(1-5)] by auto
  have "en_currentBFTRound (((\<lambda>e. fst (execBeaconRole h ?role run e)) ^^ nat (rnd - 1)) en) = rnd"
    using failed_rounds_count [OF assms(6,7) _ assms(9), of ?role "nat (rnd - 1)"] committee_role [OF assms(2,4,5)] assms(8) rnd(1) by auto
  then show ?thesis using rnd by (auto simp: Let_def intro!: exI [of _ "nat (rnd - 1)"])
qed

definition ex_rotation :: BestStateBeacon where
  "ex_rotation = ex_best_state\<lparr>bs_BeaconCommittee := [''x'', ''y'', ''z''], bs_BeaconProposerIdx := 1\<rparr>"

theorem bft_turn_comes_witness:
  "\<exists>n < 3. fst (GetPubkeyRole ex_rotation [] [] ''y'' (en_currentBFTRound (((\<lambda>e. fst (execBeaconRole 5
      (\<lambda>r. fst (GetPubkeyRole ex_rotation [] [] ''y'' r)) (\<lambda>p r. None :: nat option) e)) ^^ n)
      (Engine_Init\<lparr>en_currentBFTBlkHeight := 6, en_currentBFTRound := 1\<rparr>)))) = PROPOSER_ROLE"
  using bft_turn_comes [where b = ex_rotation and i = 1 and ?order1.0 = "[]" and ?order2.0 = "[]" and h = 5
      and en = "Engine_Init\<lparr>en_currentBFTBlkHeight := 6, en_currentBFTRound := 1\<rparr>" and run = "\<lambda>p r. None :: nat option"]
  by (simp add: ex_rotation_def find_shard_def Let_def numeral_3_eq_3)

end
