(* ===== verification/Spec2Isabelle.thy ===== *)
theory Spec2Isabelle
  imports Go_Prelude Codec Common_Util Hash_Type Base58_Codec Block_Types Chain_Pool Beacon_Pool
    Shard_Pool Merkle_Tree Go_Strings Hash_Utils Committee Beacon_State Shard_To_Beacon_Pool
    Level_DB Beacon_DB Shard_DB Tx_DB Token_DB Db_Keys Cross_Shard_Pool Privacy_Utils Wire_Codec
    Coin_Codec Knapsack Payment_Proof Payment_Verify Elliptic_Curve Schnorr Multi_Signature
    Agg_Signature Key_Set Transactions Tx_Salary Token_Tx Double_Spend Tx_Interface Fee_Estimator
    Fee_Rollback Fee_History Fee_Properties Mempool_DB Tx_Pool Tx_Pool_Safety
    BFT_Message BFT_Sig BFT_Round BFT_Protocol BFT_Safety BFT_Properties BFT_Engine
begin

text \<open>
  A verification library for constant-chain, a sharded blockchain node written in Go (the sources
  are under \<open>src/\<close>).

  \<^bold>\<open>The program.\<close> A beacon chain and up to 255 shard chains run side by side. Shard blocks are
  announced to the beacon chain as shard-to-beacon blocks and to the other shards as cross-shard
  blocks. Incoming blocks wait in pools (\<open>src/mempool\<close>) until they are confirmed and in order; the
  blockchain package (\<open>src/blockchain\<close>) verifies a block against the best state of its chain,
  updates that state and writes blocks, indexes, coins and tokens to a LevelDB database
  (\<open>src/database/lvdb\<close>). Committees are elected from staking transactions and swapped per epoch; in each
  round one member proposes a block and the others sign it with a Schnorr multi-signature
  (\<open>src/consensus/constantbft\<close>, \<open>src/privacy\<close>). Transactions (\<open>src/transaction\<close>) spend committed coins, in the
  open or with zero-knowledge proofs, and wait in a pool with a fee estimator (\<open>src/mempool\<close>). The
  node around this (peers, RPC, synchronisation) feeds blocks, transactions and messages in.

  \<^bold>\<open>Theories and the code they model.\<close>

  \<^item> \<open>Go_Prelude\<close>, \<open>Codec\<close>, \<open>Go_Strings\<close>: faults (a panic, a lock taken twice) as values, \<open>andThen\<close>
    sequencing, Go maps as finite maps with default lookup, byte strings, the codec interface
    (a locale), and the parts of the Go standard library the sources use: \<open>strconv\<close>, \<open>hex\<close>,
    \<open>base64\<close>, JSON lists of byte strings, \<open>strings.Split\<close>.
  \<^item> \<open>Common_Util\<close> (\<open>src/common/common.go\<close>), \<open>Hash_Type\<close> (\<open>src/common/hash.go\<close>, \<open>hashfunc.go\<close>),
    \<open>Base58_Codec\<close> (\<open>src/common/base58\<close>): searching, comparing, integer codecs; the 32-byte hash and
    its text forms; the fast base58 encoder and decoder with their digit buffers, proved equal to
    the big-integer version and inverse to each other, and the checksummed form.
  \<^item> \<open>Block_Types\<close>: headers, bodies and blocks of both chains and their hashes
    (\<open>beaconblock.go\<close>, \<open>shardheader.go\<close>, \<open>shardblock.go\<close>).
  \<^item> \<open>Chain_Pool\<close>: the interface of a pool that keeps a hash-linked run of blocks, as a locale.
    \<open>Beacon_Pool\<close> (\<open>beacon_pool.go\<close>) and \<open>Shard_Pool\<close> (\<open>shard_pool.go\<close>) interpret it: in every state
    reachable by any sequence of operations the valid pool is a chain of consecutive heights, each
    block naming its predecessor; promotion moves a linked pending chain; fork choice is covered, and two blocks that
    lock a shard pool up for ever.
  \<^item> \<open>Shard_To_Beacon_Pool\<close> (\<open>shard_to_beacon_pool_v2.go\<close>): blocks wait per shard, sorted; what the
    beacon producer gets is a run of consecutive heights after the confirmed one.
  \<^item> \<open>Cross_Shard_Pool\<close> (\<open>cross_shard_pool_v2.go\<close> and the part of \<open>InsertBeaconBlock\<close> that stores the
    next heights): the stored links form a chain of exactly the confirmed blocks, and the pool
    follows it.
  \<^item> \<open>Merkle_Tree\<close> (\<open>merkle.go\<close>), \<open>Hash_Utils\<close> (\<open>hash_utils.go\<close>): tree construction, path extraction
    and verification (complete, and sound among paths of equal length), and which lists a hash commitment determines.
  \<^item> \<open>Committee\<close> (the committee functions of \<open>beaconprocess.go\<close>) and \<open>Beacon_State\<close>
    (\<open>beaconbeststate.go\<close>, \<open>beaconprocess.go\<close>, \<open>multisigs.go\<close>): candidates, assignment to shards,
    swaps, the verification steps of a beacon block and \<open>Update\<close>, composed as in
    \<open>InsertBeaconBlock\<close>.
  \<^item> \<open>Level_DB\<close> (\<open>db.go\<close>), \<open>Beacon_DB\<close> (\<open>beacon.go\<close>), \<open>Shard_DB\<close> (\<open>shard.go\<close>), \<open>Tx_DB\<close> (\<open>tx.go\<close>),
    \<open>Token_DB\<close> (\<open>customtoken.go\<close>, \<open>bridge.go\<close>): every function of these files as a function on the
    database state. \<open>Db_Keys\<close> gives the keys of all tables a type, shows that no two of them are
    the same bytes, and that the stores of blocks, indexes, best states, committees, cross-shard heights
    and the fee estimator refine updates of a typed map.
  \<^item> \<open>Privacy_Utils\<close> (\<open>src/privacy/privacy_utils.go\<close>), \<open>Elliptic_Curve\<close> (\<open>ec.go\<close>, \<open>pedersen.go\<close>), \<open>Schnorr\<close> and \<open>Multi_Signature\<close>
    (\<open>schnorr.go\<close>, \<open>schnorrmultisig.go\<close>, \<open>elgamal.go\<close>), \<open>Agg_Signature\<close> (\<open>multisigs.go\<close>), \<open>Key_Set\<close> (\<open>key.go\<close>, \<open>src/cashec\<close>): points
    and their compressed form, commitments, signatures that verify, combined signatures of a part of a
    committee, and what acceptance of a block signature means.
  \<^item> \<open>Wire_Codec\<close>, \<open>Coin_Codec\<close>, \<open>Payment_Proof\<close>, \<open>Payment_Verify\<close> (\<open>coin.go\<close>, \<open>zeroknowledge/payment.go\<close>): byte formats of coins and
    payment proofs with their round trips, and the verification of payments without privacy; \<open>Knapsack\<close>
    (\<open>knapsack.go\<close>): the choice of coins is optimal.
  \<^item> \<open>Transactions\<close>, \<open>Tx_Salary\<close>, \<open>Token_Tx\<close>, \<open>Double_Spend\<close>, \<open>Tx_Interface\<close> (\<open>src/transaction\<close>, the interface of \<open>src/metadata\<close>):
    hashes, sanity checks and validation of normal, salary and token transactions; token amounts are
    conserved when their 64-bit sums do not overflow, and the checks for double spending find a spent coin.
  \<^item> \<open>Fee_Estimator\<close>, \<open>Fee_Rollback\<close>, \<open>Fee_History\<close>, \<open>Fee_Properties\<close> (\<open>estimatefee.go\<close>): the estimator with its bins and dropped
    transactions; registering a block and rolling it back restores the estimates, and no rollback
    panics in a history without a block that stops with the error \<open>already mined\<close> (after one it can).
  \<^item> \<open>Mempool_DB\<close> (\<open>src/databasemp\<close>), \<open>Tx_Pool\<close>, \<open>Tx_Pool_Safety\<close> (\<open>mempool.go\<close> and the files around it): all operations of the
    transaction pool; in every reachable state no two entries of correct types spend the same native coin
    (the serial numbers of privacy tokens are not compared by the code).
  \<^item> \<open>BFT_Message\<close> (\<open>src/wire/messagebft*.go\<close>), \<open>BFT_Sig\<close> (\<open>bftmultisig.go\<close>, \<open>utils.go\<close>), \<open>BFT_Round\<close>, \<open>BFT_Protocol\<close> (\<open>bft.go\<close>, \<open>bftphases.go\<close>),
    \<open>BFT_Safety\<close>, \<open>BFT_Properties\<close>, \<open>BFT_Engine\<close> (\<open>engine.go\<close>): a consensus round as a state machine whose events are messages,
    timers and the steps of the other goroutines. A returned block has a quorum of signatures, checked unless the version
    byte of their \<open>R\<close> switches the check off; honest members, while their \<open>R\<close> has the most signatures, produce a block whose
    aggregated signature verifies; failing rounds pass the turn on; and messages of strangers can stand in for a quorum.

  \<^bold>\<open>State and effects.\<close> A struct is a record, an operation is a function from its arguments and the
  record to the new record and its results; errors and panics are values of sum and option types.
  Machine integers are words of their width, so arithmetic wraps around as in Go. Slices are lists
  and maps are finite maps: where Go iterates a map, the order is an argument or the result is
  shown not to depend on it. The operations of a pool are atomic steps, as its mutex makes them (\<open>Tx_Pool\<close> names those that do
  not hold it throughout, for which this is an assumption); an operation that takes
  a lock its caller holds is the fault \<open>Deadlock\<close>. Goroutines that only take a lock and run are
  modelled as one of their sequential orders, which is an argument.

  \<^bold>\<open>Parameters.\<close> Code outside \<open>src/\<close> is an argument of the definitions that use it: the hash
  functions (\<open>digest32\<close>: results have 32 bytes; collision freedom is stated where a theorem needs
  it), the LRU cache, LevelDB (\<open>leveldb_spec\<close>: what was put is read back until it is overwritten or
  deleted, iterators list the keys with a prefix in order), the numbers of the curve (\<open>good_field\<close>: a prime
  field in which square roots are powers, \<open>curve_group\<close>: addition of points is a group of the given order, as
  documented for P-256) and the generators (\<open>gens_ok\<close>), random scalars and nonces, the clock, JSON texts of
  blocks and of the pool's entries, the order of map iteration. So is code of the repository that a
  component calls and that is not modelled: the sub-proofs of a private payment (\<open>proof_ops\<close>), the methods of
  metadata (\<open>meta_ops\<close>), the view of the chain a transaction is checked against (\<open>chain_view\<close>), and for a consensus round the
  checks a validator makes before it signs (\<open>bft_env\<close>). The hypotheses are named predicates, and each theorem with one is also applied to a
  concrete instance. LevelDB operations may fail in the model; \<open>leveldb_spec\<close> speaks of a database
  that does not.

  \<^bold>\<open>Termination.\<close> Loops are structural or have a termination proof; no fuel is used. Three loops that
  may run for ever are partial functions with \<open>None\<close> for not returning: \<open>MultiScalarmult\<close>, whose loop ends exactly when no
  exponent is negative, and the searches for a hash that is a scalar or a point (\<open>scalar_loop\<close>, \<open>hash_loop\<close>).

  \<^bold>\<open>Not modelled.\<close> Network, RPC, command line, logging and configuration (input and output around
  libraries that are not in the tree); the zero-knowledge sub-proofs, AES and hybrid encryption and the wallet,
  which rest on cryptographic libraries and on random choices; the construction of transactions with privacy; JSON of
  whole blocks and messages, which the standard library derives by reflection; literal data (genesis, word
  list). Of the beacon insertion, the checks a committee member makes against its own pools; the processing
  of shard blocks, which has the structure of that of beacon blocks. Of a consensus round, the creation of a
  block and a timer that closes a channel at the moment another goroutine does.
\<close>

end
